(* ===== verification/Prelude.thy ===== *)
theory Prelude
  imports Main "HOL-Library.Sublist"
begin

text \<open>
  Shared vocabulary of the development: the collections of facts the component theories
  add to, results of fallible operations, and the functions of Go's \<open>strings\<close>,
  \<open>strconv\<close> and \<open>sort\<close> packages that the launcher calls. A Go string is
  a sequence of bytes, and so is an Isabelle \<^typ>\<open>string\<close> (a list of 8-bit characters):
  lengths, indices and comparisons agree byte for byte.
\<close>

named_theorems kobra_defs \<open>definitions unfolded when an operation is evaluated or split\<close>
named_theorems kobra_inv \<open>preservation lemmas of component invariants\<close>

section \<open>Results\<close>

text \<open>
  A Go function returning \<open>(T, error)\<close> returns \<^typ>\<open>'e + 'a\<close>: \<open>Inl\<close> the
  error, \<open>Inr\<close> the value.
\<close>

definition is_ok :: "'e + 'a \<Rightarrow> bool" where
  "is_ok r = (case r of Inl _ \<Rightarrow> False | Inr _ \<Rightarrow> True)"

lemma is_ok_simps [simp]: "\<not> is_ok (Inl e)" "is_ok (Inr x)"
  by (simp_all add: is_ok_def)

lemma is_okE: "is_ok r \<Longrightarrow> (\<And>x. r = Inr x \<Longrightarrow> P) \<Longrightarrow> P"
  by (cases r) auto

text \<open>What a search by \<^const>\<open>find\<close> returns.\<close>

lemma find_Some_in: "find p xs = Some x \<Longrightarrow> x \<in> set xs \<and> p x"
  by (auto simp: find_Some_iff)

lemma find_None_ex: "find p xs = None \<longleftrightarrow> \<not> list_ex p xs"
  by (auto simp: find_None_iff list_ex_iff)

section \<open>Byte strings\<close>

definition slash :: char where "slash = CHR 0x2F"
definition dot :: char where "dot = CHR 0x2E"
definition backslash :: char where "backslash = CHR 0x5C"

lemma char_distinct [simp]:
  "slash \<noteq> dot" "dot \<noteq> slash" "slash \<noteq> backslash" "backslash \<noteq> slash"
  "dot \<noteq> backslash" "backslash \<noteq> dot"
  by (simp_all add: slash_def dot_def backslash_def)

text \<open>\<open>strings.TrimPrefix\<close> and \<open>strings.TrimSuffix\<close>.\<close>

definition trim_prefix :: "string \<Rightarrow> string \<Rightarrow> string" where
  "trim_prefix p s = (if prefix p s then drop (length p) s else s)"

definition trim_suffix :: "string \<Rightarrow> string \<Rightarrow> string" where
  "trim_suffix p s = (if suffix p s then take (length s - length p) s else s)"

lemma trim_prefix_append [simp]: "trim_prefix p (p @ s) = s"
  by (simp add: trim_prefix_def)

lemma trim_suffix_append [simp]: "trim_suffix p (s @ p) = s"
  by (simp add: trim_suffix_def suffix_def)

text \<open>\<open>strings.Split\<close> with a one-byte separator: at least one field, separators removed.\<close>

fun split_on :: "char \<Rightarrow> string \<Rightarrow> string list" where
  "split_on c [] = [[]]"
| "split_on c (x # xs) =
     (if x = c then [] # split_on c xs
      else (case split_on c xs of [] \<Rightarrow> [[x]] | f # fs \<Rightarrow> (x # f) # fs))"

text \<open>\<open>strings.Join\<close> with a one-byte separator.\<close>

fun join_on :: "char \<Rightarrow> string list \<Rightarrow> string" where
  "join_on c [] = []"
| "join_on c [x] = x"
| "join_on c (x # y # ys) = x @ c # join_on c (y # ys)"

lemma split_on_not_Nil [simp]: "split_on c s \<noteq> []"
  by (induction c s rule: split_on.induct) (auto split: list.splits)

lemma join_split_on: "join_on c (split_on c s) = s"
proof (induction c s rule: split_on.induct)
  case (1 c)
  show ?case by simp
next
  case (2 c x xs)
  obtain f fs where f: "split_on c xs = f # fs"
    by (metis list.exhaust split_on_not_Nil)
  with 2 show ?case by (cases fs) (auto split: list.splits)
qed

lemma split_on_no_sep: "f \<in> set (split_on c s) \<Longrightarrow> c \<notin> set f"
proof (induction c s arbitrary: f rule: split_on.induct)
  case (1 c)
  then show ?case by simp
next
  case (2 c x xs)
  obtain g gs where "split_on c xs = g # gs"
    by (metis list.exhaust split_on_not_Nil)
  with 2 show ?case by (auto split: if_splits)
qed

lemma split_on_single: "c \<notin> set s \<Longrightarrow> split_on c s = [s]"
  by (induction s) auto

lemma split_on_append: "c \<notin> set x \<Longrightarrow> split_on c (x @ c # ys) = x # split_on c ys"
  by (induction x) auto

lemma split_join_on:
  "xs \<noteq> [] \<Longrightarrow> \<forall>x \<in> set xs. c \<notin> set x \<Longrightarrow> split_on c (join_on c xs) = xs"
proof (induction c xs rule: join_on.induct)
  case (1 c)
  then show ?case by simp
next
  case (2 c x)
  then show ?case by (simp add: split_on_single)
next
  case (3 c x y ys)
  then show ?case by (simp add: split_on_append)
qed

lemma split_on_chars: "f \<in> set (split_on c s) \<Longrightarrow> set f \<subseteq> set s"
proof (induction c s arbitrary: f rule: split_on.induct)
  case (1 c)
  then show ?case by simp
next
  case (2 c x xs)
  obtain g gs where "split_on c xs = g # gs"
    by (metis list.exhaust split_on_not_Nil)
  with 2 show ?case by (fastforce split: if_splits)
qed

lemma set_join_on: "set (join_on c xs) \<subseteq> insert c (\<Union> (set ` set xs))"
  by (induction c xs rule: join_on.induct) auto

text \<open>\<open>strings.IndexByte\<close>: the first position, or nothing where Go returns -1.\<close>

fun index_byte :: "string \<Rightarrow> char \<Rightarrow> nat option" where
  "index_byte [] c = None"
| "index_byte (x # xs) c = (if x = c then Some 0 else map_option Suc (index_byte xs c))"

lemma index_byte_None: "index_byte s c = None \<longleftrightarrow> c \<notin> set s"
  by (induction s) auto

lemma index_byte_Some: "index_byte s c = Some i \<Longrightarrow> i < length s \<and> s ! i = c \<and> c \<notin> set (take i s)"
  by (induction s arbitrary: i) (auto split: if_splits)

text \<open>
  \<open>strings.TrimSpace\<close> on the ASCII white space (tab, line feed, vertical tab, form feed,
  carriage return, space), and \<open>strings.Fields\<close> on the same bytes.
\<close>

definition is_space :: "char \<Rightarrow> bool" where
  "is_space c = (c \<in> {CHR 0x09, CHR 0x0A, CHR 0x0B, CHR 0x0C, CHR 0x0D, CHR 0x20})"

definition trim_left_by :: "(char \<Rightarrow> bool) \<Rightarrow> string \<Rightarrow> string" where
  "trim_left_by p s = dropWhile p s"

definition trim_right_by :: "(char \<Rightarrow> bool) \<Rightarrow> string \<Rightarrow> string" where
  "trim_right_by p s = rev (dropWhile p (rev s))"

definition trim_space :: "string \<Rightarrow> string" where
  "trim_space s = trim_right_by is_space (trim_left_by is_space s)"

fun fields_acc :: "string \<Rightarrow> string \<Rightarrow> string list" where
  "fields_acc acc [] = (if acc = [] then [] else [rev acc])"
| "fields_acc acc (c # cs) =
     (if is_space c then (if acc = [] then fields_acc [] cs else rev acc # fields_acc [] cs)
      else fields_acc (c # acc) cs)"

definition fields :: "string \<Rightarrow> string list" where
  "fields s = fields_acc [] s"

definition to_upper_ascii :: "char \<Rightarrow> char" where
  "to_upper_ascii c =
     (let n = of_char c :: nat in if 97 \<le> n \<and> n \<le> 122 then char_of (n - 32) else c)"

definition to_lower_ascii :: "char \<Rightarrow> char" where
  "to_lower_ascii c =
     (let n = of_char c :: nat in if 65 \<le> n \<and> n \<le> 90 then char_of (n + 32) else c)"

section \<open>Decimal numbers\<close>

definition is_digit :: "char \<Rightarrow> bool" where
  "is_digit c = (48 \<le> (of_char c :: nat) \<and> (of_char c :: nat) \<le> 57)"

definition digit_val :: "char \<Rightarrow> nat" where
  "digit_val c = of_char c - 48"

definition digit_char :: "nat \<Rightarrow> char" where
  "digit_char n = char_of (48 + n)"

lemma digit_char_val: "n < 10 \<Longrightarrow> digit_val (digit_char n) = n \<and> is_digit (digit_char n)"
  by (simp add: digit_val_def digit_char_def is_digit_def)

fun nat_of_digits :: "nat \<Rightarrow> string \<Rightarrow> nat" where
  "nat_of_digits acc [] = acc"
| "nat_of_digits acc (c # cs) = nat_of_digits (10 * acc + digit_val c) cs"

text \<open>\<open>strconv.FormatInt(n, 10)\<close>.\<close>

fun fmt_nat :: "nat \<Rightarrow> string" where
  "fmt_nat n = (if n < 10 then [digit_char n] else fmt_nat (n div 10) @ [digit_char (n mod 10)])"

declare fmt_nat.simps [simp del]

definition fmt_int :: "int \<Rightarrow> string" where
  "fmt_int i = (if i < 0 then CHR ''-'' # fmt_nat (nat (- i)) else fmt_nat (nat i))"

text \<open>64-bit signed arithmetic wraps; a \<open>time.Duration\<close> counts nanoseconds.\<close>

definition wrap64 :: "int \<Rightarrow> int" where
  "wrap64 i = (i + 2 ^ 63) mod 2 ^ 64 - 2 ^ 63"

lemma wrap64_id: "- (2 ^ 63) \<le> i \<Longrightarrow> i < 2 ^ 63 \<Longrightarrow> wrap64 i = i"
  by (simp add: wrap64_def)

definition second :: int where "second = 1000000000"

definition int64_max :: int where "int64_max = 2 ^ 63 - 1"
definition int64_min :: int where "int64_min = - (2 ^ 63)"

text \<open>
  \<open>strconv.ParseInt(s, 10, 64)\<close> and \<open>strconv.Atoi\<close> on a 64-bit platform: an
  optional sign, one or more decimal digits, a value in the 64-bit range; anything else is
  an error (\<^term>\<open>None\<close>).
\<close>

definition parse_digits :: "string \<Rightarrow> nat option" where
  "parse_digits s = (if s \<noteq> [] \<and> list_all is_digit s then Some (nat_of_digits 0 s) else None)"

definition parse_int64 :: "string \<Rightarrow> int option" where
  "parse_int64 s =
     (let (neg, body) = (case s of [] \<Rightarrow> (False, [])
                         | c # cs \<Rightarrow> if c = CHR ''-'' then (True, cs)
                                     else if c = CHR ''+'' then (False, cs) else (False, s))
      in case parse_digits body of
           None \<Rightarrow> None
         | Some n \<Rightarrow>
             (let v = (if neg then - int n else int n)
              in if int64_min \<le> v \<and> v \<le> int64_max then Some v else None))"

lemma nat_of_digits_append: "nat_of_digits a (xs @ ys) = nat_of_digits (nat_of_digits a xs) ys"
  by (induction xs arbitrary: a) auto

lemma fmt_nat_digits: "list_all is_digit (fmt_nat n) \<and> fmt_nat n \<noteq> []"
proof (induction n rule: fmt_nat.induct)
  case (1 n)
  then show ?case
    by (subst (1 2) fmt_nat.simps) (auto simp: digit_char_val)
qed

lemma fmt_nat_val: "nat_of_digits 0 (fmt_nat n) = n"
proof (induction n rule: fmt_nat.induct)
  case (1 n)
  then show ?case
    by (subst fmt_nat.simps) (auto simp: digit_char_val nat_of_digits_append)
qed

lemma parse_digits_fmt_nat [simp]: "parse_digits (fmt_nat n) = Some n"
  using fmt_nat_digits [of n] by (simp add: parse_digits_def fmt_nat_val)

lemma fmt_nat_inj [simp]: "fmt_nat m = fmt_nat n \<longleftrightarrow> m = n"
  by (metis fmt_nat_val)

lemma is_digit_sign: "is_digit c \<Longrightarrow> c \<noteq> CHR ''-'' \<and> c \<noteq> CHR ''+'' \<and> c \<noteq> dot \<and> c \<noteq> slash"
  by (auto simp: is_digit_def dot_def slash_def)

lemma parse_int64_fmt_nat:
  assumes "int n \<le> int64_max"
  shows "parse_int64 (fmt_nat n) = Some (int n)"
proof -
  obtain c cs where c: "fmt_nat n = c # cs" "is_digit c"
    using fmt_nat_digits [of n] by (cases "fmt_nat n") auto
  have "int64_min \<le> int n"
    by (simp add: int64_min_def)
  with c assms is_digit_sign [OF c(2)] show ?thesis
    using parse_digits_fmt_nat [of n] by (simp add: parse_int64_def)
qed

text \<open>The printed form of a 64-bit integer parses back to it.\<close>

lemma parse_fmt_int:
  assumes "int64_min \<le> i" and "i \<le> int64_max"
  shows "parse_int64 (fmt_int i) = Some i"
proof (cases "i < 0")
  case True
  with assms show ?thesis
    by (simp add: fmt_int_def parse_int64_def)
next
  case False
  then have "parse_int64 (fmt_nat (nat i)) = Some (int (nat i))"
    using assms by (intro parse_int64_fmt_nat) simp
  with False show ?thesis by (simp add: fmt_int_def)
qed

lemma parse_int64_range: "parse_int64 s = Some v \<Longrightarrow> int64_min \<le> v \<and> v \<le> int64_max"
  by (auto simp: parse_int64_def Let_def split: list.splits if_splits option.splits)

end
