(* ===== verification/Go_Map.thy ===== *)
theory Go_Map
  imports Prelude "HOL-Library.AList"
begin

text \<open>
  Go maps. The launcher keeps its tables (sessions, bootstrap tokens, denied ports,
  revisions, ETags) in Go maps: the contract its code relies on is the locale \<open>go_map\<close>,
  and the model of a map is an association list with distinct keys, whose order stands for
  the iteration order \<open>range\<close> picks.
\<close>

type_synonym ('k, 'v) gmap = "('k \<times> 'v) list"

definition get :: "('k, 'v) gmap \<Rightarrow> 'k \<Rightarrow> 'v option" where
  "get m k = map_of m k"

definition put :: "'k \<Rightarrow> 'v \<Rightarrow> ('k, 'v) gmap \<Rightarrow> ('k, 'v) gmap" where
  "put k v m = AList.update k v m"

definition del :: "'k \<Rightarrow> ('k, 'v) gmap \<Rightarrow> ('k, 'v) gmap" where
  "del k m = AList.delete k m"

definition keys :: "('k, 'v) gmap \<Rightarrow> 'k set" where
  "keys m = fst ` set m"

definition wf_map :: "('k, 'v) gmap \<Rightarrow> bool" where
  "wf_map m = distinct (map fst m)"

definition keep :: "('k \<Rightarrow> 'v \<Rightarrow> bool) \<Rightarrow> ('k, 'v) gmap \<Rightarrow> ('k, 'v) gmap" where
  "keep p m = filter (\<lambda>(k, v). p k v) m"

section \<open>The contract\<close>

locale go_map =
  fixes lookup :: "'m \<Rightarrow> 'k \<Rightarrow> 'v option"
    and store :: "'k \<Rightarrow> 'v \<Rightarrow> 'm \<Rightarrow> 'm"
    and remove :: "'k \<Rightarrow> 'm \<Rightarrow> 'm"
    and size_of :: "'m \<Rightarrow> nat"
    and ok :: "'m \<Rightarrow> bool"
    and fresh :: 'm
  assumes lookup_fresh: "lookup fresh k = None"
    and lookup_store: "lookup (store k v m) k' = (if k' = k then Some v else lookup m k')"
    and lookup_remove: "lookup (remove k m) k' = (if k' = k then None else lookup m k')"
    and ok_fresh: "ok fresh"
    and ok_store: "ok m \<Longrightarrow> ok (store k v m)"
    and ok_remove: "ok m \<Longrightarrow> ok (remove k m)"
    and size_store: "ok m \<Longrightarrow> size_of (store k v m) = (if lookup m k = None then Suc (size_of m) else size_of m)"
    and size_remove: "ok m \<Longrightarrow> size_of (remove k m) = (if lookup m k = None then size_of m else size_of m - 1)"
begin

lemma store_same: "lookup (store k v m) k = Some v"
  by (simp add: lookup_store)

lemma store_other: "k' \<noteq> k \<Longrightarrow> lookup (store k v m) k' = lookup m k'"
  by (simp add: lookup_store)

lemma store_twice: "lookup (store k v (store k w m)) k' = lookup (store k v m) k'"
  by (simp add: lookup_store)

lemma remove_store: "lookup (remove k (store k v m)) k' = lookup (remove k m) k'"
  by (simp add: lookup_store lookup_remove)

lemma size_store_le: "ok m \<Longrightarrow> size_of (store k v m) \<le> Suc (size_of m)"
  by (simp add: size_store)

lemma size_store_bound: "ok m \<Longrightarrow> size_of m < n \<Longrightarrow> size_of (store k v m) \<le> n"
  by (simp add: size_store)

text \<open>A key set by a run of stores is bound in the result, whatever the values.\<close>

lemma lookup_stores:
  "lookup (fold (\<lambda>(k, v). store k v) kvs m) k =
     (case map_of (rev kvs) k of None \<Rightarrow> lookup m k | Some v \<Rightarrow> Some v)"
  by (induction kvs arbitrary: m) (auto simp: lookup_store map_add_def split: option.splits)

end

section \<open>The model\<close>

lemma length_delete:
  "distinct (map fst m) \<Longrightarrow>
     length (AList.delete k m) = (if map_of m k = None then length m else length m - 1)"
proof (induction m)
  case (Cons a m)
  show ?case
  proof (cases "fst a = k")
    case True
    with Cons.prems have "k \<notin> fst ` set m" by simp
    then have "\<forall>x \<in> set m. fst x \<noteq> k" by (metis image_eqI)
    then have "AList.delete k m = m"
      by (auto simp: AList.delete_eq intro!: filter_True)
    with True show ?thesis by (cases a) (simp add: AList.delete_eq)
  next
    case False
    with Cons have "length (AList.delete k m) = (if map_of m k = None then length m else length m - 1)"
      by simp
    moreover have "map_of m k \<noteq> None \<Longrightarrow> 0 < length m" by (cases m) auto
    ultimately show ?thesis using False by (cases a) (auto simp: AList.delete_eq)
  qed
qed (simp add: AList.delete_eq)

lemma length_update:
  "length (AList.update k v m) = (if map_of m k = None then Suc (length m) else length m)"
  by (induction m) auto

interpretation gm: go_map get put del length wf_map "[] :: ('k, 'v) gmap"
proof unfold_locales
  fix m :: "('k, 'v) gmap" and k k' v
  show "get (put k v m) k' = (if k' = k then Some v else get m k')"
    by (simp add: get_def put_def update_conv')
  show "get (del k m) k' = (if k' = k then None else get m k')"
    by (simp add: get_def del_def delete_conv')
  show "wf_map m \<Longrightarrow> wf_map (put k v m)"
    by (simp add: wf_map_def put_def distinct_update)
  show "wf_map m \<Longrightarrow> wf_map (del k m)"
    by (simp add: wf_map_def del_def distinct_delete)
  show "wf_map m \<Longrightarrow> length (put k v m) = (if get m k = None then Suc (length m) else length m)"
    by (simp add: get_def put_def length_update)
  show "wf_map m \<Longrightarrow> length (del k m) = (if get m k = None then length m else length m - 1)"
    by (simp add: get_def del_def wf_map_def length_delete)
qed (simp_all add: get_def wf_map_def)

lemmas get_simps [simp] = gm.lookup_fresh gm.lookup_store gm.lookup_remove
lemmas wf_map_intros [intro, simp] = gm.ok_fresh gm.ok_store gm.ok_remove

lemma get_code [code, simp]: "get [] k = None" "get ((k', v) # m) k = (if k' = k then Some v else get m k)"
  by (auto simp: get_def)

lemma get_Some_in: "get m k = Some v \<Longrightarrow> (k, v) \<in> set m"
  by (simp add: get_def map_of_SomeD)

lemma get_in: "wf_map m \<Longrightarrow> (k, v) \<in> set m \<Longrightarrow> get m k = Some v"
  by (simp add: get_def wf_map_def)

lemma get_keep:
  "wf_map m \<Longrightarrow> get (keep p m) k =
     (case get m k of None \<Rightarrow> None | Some v \<Rightarrow> if p k v then Some v else None)"
  by (induction m) (auto simp: keep_def get_def wf_map_def map_of_eq_None_iff split: option.splits)

lemma wf_map_keep [simp]: "wf_map m \<Longrightarrow> wf_map (keep p m)"
  by (simp add: wf_map_def keep_def distinct_map_filter)

lemma length_keep: "length (keep p m) \<le> length m"
  by (simp add: keep_def)

lemma in_keep: "(k, v) \<in> set (keep p m) \<longleftrightarrow> (k, v) \<in> set m \<and> p k v"
  by (simp add: keep_def)

end
