(* ===== verification/Port.thy ===== *)
theory Port
  imports Go_Map "HOL-Library.Word"
begin

unbundle bit_operations_syntax

text \<open>
  \<open>launcher/internal/port\<close>: the deterministic default port, the deny list, the validation
  of a candidate, the scans and the allocation flow. A port is a \<open>uint16\<close>. The network is a
  parameter: what a probe answers, whether a bind succeeds, and whether the scan's deadline
  has passed at a given iteration.
\<close>

type_synonym port = "16 word"

section \<open>hash.go\<close>

definition fnv_offset32 :: "32 word" where "fnv_offset32 = 2166136261"
definition fnv_prime32 :: "32 word" where "fnv_prime32 = 16777619"

definition FNV1a32 :: "string \<Rightarrow> 32 word" where
  "FNV1a32 s = foldl (\<lambda>h c. (h XOR of_char c) * fnv_prime32) fnv_offset32 s"

definition default_port :: "string \<Rightarrow> port \<Rightarrow> port \<Rightarrow> port" where
  "default_port game_id base span =
     (if span = 0 then base else ucast (ucast base + FNV1a32 game_id mod ucast span))"

section \<open>denylist.go\<close>

record deny_range =
  range_from :: port
  range_to :: port
  range_msg :: string

record deny_list =
  deny_ports :: "(port, string) gmap"
  deny_ranges :: "deny_range list"
  deny_reserved :: "deny_range list"
  deny_base :: port
  deny_span :: port

definition range_contains :: "deny_range \<Rightarrow> port \<Rightarrow> bool" where
  "range_contains r p = (range_from r \<le> p \<and> p \<le> range_to r)"

text \<open>The decoded document: \<open>denyListFile\<close> and its parts.\<close>

record file_range =
  fr_from :: port
  fr_to :: port
  fr_message :: string

record file_port =
  fp_port :: port
  fp_message :: string

record deny_list_file =
  file_schema :: string
  file_ranges :: "file_range list"
  file_ports :: "file_port list"
  file_reserved :: "file_range list"
  file_base :: port
  file_span :: port

definition deny_list_schema :: string where
  "deny_list_schema = ''kobra.port-deny-list/1''"

datatype deny_error = InvalidJSON | WrongSchema string | InvalidRange port port | InvalidReserved port port | InvalidPort

definition port_text :: "port \<Rightarrow> string" where
  "port_text p = fmt_nat (unat p)"

definition range_message :: "port \<Rightarrow> port \<Rightarrow> string \<Rightarrow> string" where
  "range_message from to msg =
     (if msg \<noteq> [] then msg
      else ''Ports '' @ port_text from @ ''-'' @ port_text to
           @ '' are blocked by browsers or reserved by the operating system. Pick another port.'')"

definition port_message :: "port \<Rightarrow> string \<Rightarrow> string" where
  "port_message p msg =
     (if msg \<noteq> [] then msg
      else ''Port '' @ port_text p
           @ '' is blocked by browsers or reserved by the operating system. Pick another port.'')"

definition bad_range :: "file_range \<Rightarrow> bool" where
  "bad_range r = (fr_from r = 0 \<or> fr_to r = 0 \<or> fr_to r < fr_from r)"

fun parse_ranges :: "(port \<Rightarrow> port \<Rightarrow> deny_error) \<Rightarrow> file_range list \<Rightarrow> deny_error + deny_range list" where
  "parse_ranges e [] = Inr []"
| "parse_ranges e (r # rs) =
     (if bad_range r then Inl (e (fr_from r) (fr_to r))
      else case parse_ranges e rs of
             Inl err \<Rightarrow> Inl err
           | Inr ds \<Rightarrow> Inr (\<lparr>range_from = fr_from r, range_to = fr_to r,
                            range_msg = range_message (fr_from r) (fr_to r) (fr_message r)\<rparr> # ds))"

fun parse_ports :: "(port, string) gmap \<Rightarrow> file_port list \<Rightarrow> deny_error + (port, string) gmap" where
  "parse_ports m [] = Inr m"
| "parse_ports m (p # ps) =
     (if fp_port p = 0 then Inl InvalidPort
      else parse_ports (put (fp_port p) (port_message (fp_port p) (fp_message p)) m) ps)"

text \<open>
  \<open>ParseDenyList\<close> from the decoded document (\<^term>\<open>None\<close>: the bytes are not JSON of this
  shape). The three loops run in the order of the code, so the first bad entry in that order
  names the error.
\<close>

definition parse_deny_list :: "deny_list_file option \<Rightarrow> deny_error + deny_list" where
  "parse_deny_list doc =
     (case doc of
        None \<Rightarrow> Inl InvalidJSON
      | Some f \<Rightarrow>
          if file_schema f \<noteq> deny_list_schema then Inl (WrongSchema (file_schema f))
          else case parse_ranges InvalidRange (file_ranges f) of
                 Inl e \<Rightarrow> Inl e
               | Inr rs \<Rightarrow>
                   (case parse_ranges InvalidReserved (file_reserved f) of
                      Inl e \<Rightarrow> Inl e
                    | Inr res \<Rightarrow>
                        (case parse_ports [] (file_ports f) of
                           Inl e \<Rightarrow> Inl e
                         | Inr ps \<Rightarrow> Inr \<lparr>deny_ports = ps, deny_ranges = rs, deny_reserved = res,
                                          deny_base = file_base f, deny_span = file_span f\<rparr>)))"

text \<open>The lookups; a nil \<open>*DenyList\<close> is \<^term>\<open>None\<close> and denies nothing.\<close>

definition contains_port :: "deny_list option \<Rightarrow> port \<Rightarrow> bool" where
  "contains_port d p =
     (case d of None \<Rightarrow> False
      | Some l \<Rightarrow> get (deny_ports l) p \<noteq> None \<or> list_ex (\<lambda>r. range_contains r p) (deny_ranges l))"

definition reserved_port :: "deny_list option \<Rightarrow> port \<Rightarrow> bool" where
  "reserved_port d p =
     (case d of None \<Rightarrow> False | Some l \<Rightarrow> list_ex (\<lambda>r. range_contains r p) (deny_reserved l))"

definition deny_reason :: "deny_list option \<Rightarrow> port \<Rightarrow> string" where
  "deny_reason d p =
     (case d of None \<Rightarrow> []
      | Some l \<Rightarrow>
          (case get (deny_ports l) p of
             Some msg \<Rightarrow> msg
           | None \<Rightarrow>
               (case find (\<lambda>r. range_contains r p) (deny_ranges l) of
                  Some r \<Rightarrow> range_msg r
                | None \<Rightarrow>
                    (case find (\<lambda>r. range_contains r p) (deny_reserved l) of
                       Some r \<Rightarrow> range_msg r
                     | None \<Rightarrow> []))))"

definition default_window :: "deny_list option \<Rightarrow> port \<times> port" where
  "default_window d = (case d of None \<Rightarrow> (0, 0) | Some l \<Rightarrow> (deny_base l, deny_span l))"

definition deny_len :: "deny_list option \<Rightarrow> nat" where
  "deny_len d = (case d of None \<Rightarrow> 0 | Some l \<Rightarrow> length (deny_ports l))"

section \<open>validate.go\<close>

datatype port_error = ErrPrivilegedPort | ErrEphemeralPort | ErrNoPort | DenyError port string | BindFailed nat

text \<open>\<open>Validate\<close>: \<^term>\<open>None\<close> is Go's nil error.\<close>

definition validate_port :: "port \<Rightarrow> deny_list option \<Rightarrow> port_error option" where
  "validate_port p d =
     (if p < 1024 then Some ErrPrivilegedPort
      else if contains_port d p then Some (DenyError p (deny_reason d p))
      else if 49152 \<le> p then Some ErrEphemeralPort
      else None)"

section \<open>probe.go\<close>

datatype probe_result = ProbeFree | ProbeOurs | ProbeOtherGame | ProbeOtherApp

definition usable :: "probe_result \<Rightarrow> bool" where
  "usable r = (r = ProbeFree \<or> r = ProbeOurs)"

definition probe_token :: "probe_result \<Rightarrow> string" where
  "probe_token r = (case r of ProbeFree \<Rightarrow> ''free'' | ProbeOurs \<Rightarrow> ''ours''
                            | ProbeOtherGame \<Rightarrow> ''other_game'' | ProbeOtherApp \<Rightarrow> ''other_app'')"

text \<open>
  What the HTTP exchange of one probe produces: a request that could not be built, a refused
  connection, another transport failure, or a response with its status and, where the bounded
  body decodes, its \<open>app\<close> and \<open>game_id\<close>.
\<close>

datatype exchange = BadRequest | Refused | Broken | Response int "(string \<times> string) option"

definition probe_app_name :: string where "probe_app_name = ''kobra-launcher''"

text \<open>\<open>Probe\<close>: the result and whether an error is returned with it.\<close>

definition probe :: "exchange \<Rightarrow> string \<Rightarrow> probe_result \<times> bool" where
  "probe x ours =
     (case x of
        BadRequest \<Rightarrow> (ProbeOtherApp, True)
      | Refused \<Rightarrow> (ProbeFree, False)
      | Broken \<Rightarrow> (ProbeOtherApp, True)
      | Response status body \<Rightarrow>
          if status \<noteq> 200 then (ProbeOtherApp, False)
          else case body of
                 None \<Rightarrow> (ProbeOtherApp, False)
               | Some (app, gid) \<Rightarrow>
                   if app \<noteq> probe_app_name then (ProbeOtherApp, False)
                   else if gid = ours then (ProbeOurs, False)
                   else (ProbeOtherGame, False))"

section \<open>scan.go\<close>

definition reserved_ephemeral_low :: nat where "reserved_ephemeral_low = 49152"
definition lowest_user_port :: nat where "lowest_user_port = 1024"

text \<open>Durations are nanoseconds, as \<open>time.Duration\<close> counts them.\<close>

definition scan_deadline :: int where "scan_deadline = 15 * second"
definition default_probe_timeout :: int where "default_probe_timeout = 500000000"

definition scan_budget :: "int \<Rightarrow> int" where
  "scan_budget timeout =
     (let t = (if timeout \<le> 0 then default_probe_timeout else timeout); budget = 20 * t
      in if scan_deadline < budget then scan_deadline else budget)"

definition candidate_usable :: "port \<Rightarrow> deny_list option \<Rightarrow> (port \<Rightarrow> bool) \<Rightarrow> bool" where
  "candidate_usable p d exclude =
     (if exclude p then False
      else if unat p < lowest_user_port \<or> reserved_ephemeral_low \<le> unat p then False
      else if contains_port d p \<or> reserved_port d p then False
      else True)"

text \<open>
  The loop of \<open>scanWindow\<close> over the offsets still to try. \<open>late i\<close> is the deadline test of
  iteration \<open>i\<close>, \<open>pr p\<close> the probe of a port (its result and whether it failed).
\<close>

primrec scan_loop :: "(nat \<Rightarrow> bool) \<Rightarrow> deny_list option \<Rightarrow> (port \<Rightarrow> bool)
    \<Rightarrow> (port \<Rightarrow> probe_result \<times> bool) \<Rightarrow> port \<Rightarrow> nat list \<Rightarrow> port_error + port" where
  "scan_loop late d exclude pr base [] = Inl ErrNoPort"
| "scan_loop late d exclude pr base (i # is) =
     (if late i then Inl ErrNoPort
      else if 65535 < unat base + i then Inl ErrNoPort
      else
        let p = of_nat (unat base + i)
        in if \<not> candidate_usable p d exclude then scan_loop late d exclude pr base is
           else case pr p of
                  (res, failed) \<Rightarrow>
                    if failed \<or> \<not> usable res then scan_loop late d exclude pr base is
                    else Inr p)"

definition scan_window :: "(nat \<Rightarrow> bool) \<Rightarrow> port \<Rightarrow> port \<Rightarrow> deny_list option \<Rightarrow> (port \<Rightarrow> bool)
    \<Rightarrow> (port \<Rightarrow> probe_result \<times> bool) \<Rightarrow> port_error + port" where
  "scan_window late base span d exclude pr =
     (if span = 0 then Inl ErrNoPort else scan_loop late d exclude pr base [0..<unat span])"

definition scan :: "(nat \<Rightarrow> bool) \<Rightarrow> port \<Rightarrow> port \<Rightarrow> deny_list option \<Rightarrow> (port \<Rightarrow> bool)
    \<Rightarrow> (port \<Rightarrow> exchange) \<Rightarrow> string \<Rightarrow> port_error + port" where
  "scan late base span d exclude net ours =
     scan_window late base span d exclude (\<lambda>p. probe (net p) ours)"

definition wide_scan :: "(nat \<Rightarrow> bool) \<Rightarrow> deny_list option \<Rightarrow> (port \<Rightarrow> bool)
    \<Rightarrow> (port \<Rightarrow> exchange) \<Rightarrow> string \<Rightarrow> port_error + port" where
  "wide_scan late d exclude net ours =
     scan_window late (of_nat lowest_user_port) (of_nat (reserved_ephemeral_low - lowest_user_port))
       d exclude (\<lambda>p. probe (net p) ours)"

definition scan_found :: "port_error + port \<Rightarrow> port" where
  "scan_found r = (case r of Inl _ \<Rightarrow> 0 | Inr p \<Rightarrow> p)"

section \<open>bind.go\<close>

text \<open>
  What the environment answers during one allocation: the probe exchanges and the deadline
  tests of each phase, and the outcome of the bind in each of the three places it is tried.
  The events are those \<open>AvailableLogged\<close> emits.
\<close>

datatype bind_outcome = Bound | AddrInUse | BindError nat

record alloc_env =
  net_candidate :: exchange
  bind_candidate :: "port \<Rightarrow> bind_outcome"
  late_window :: "nat \<Rightarrow> bool"
  net_window :: "port \<Rightarrow> exchange"
  bind_window :: "port \<Rightarrow> bind_outcome"
  late_wide :: "nat \<Rightarrow> bool"
  net_wide :: "port \<Rightarrow> exchange"
  bind_wide :: "port \<Rightarrow> bind_outcome"

datatype port_event =
    EvProbe port probe_result
  | EvBindFailed port bind_outcome
  | EvScan port port port
  | EvChange port port

definition try_wide :: "alloc_env \<Rightarrow> port \<Rightarrow> deny_list option \<Rightarrow> (port \<Rightarrow> bool) \<Rightarrow> string
    \<Rightarrow> port_event list \<times> (port_error + port)" where
  "try_wide env candidate d skip ours =
     (let r = wide_scan (late_wide env) d skip (net_wide env) ours;
          ev = EvScan (of_nat lowest_user_port) (of_nat (reserved_ephemeral_low - 1)) (scan_found r)
      in case r of
           Inr p \<Rightarrow> if bind_wide env p = Bound then ([ev, EvChange candidate p], Inr p)
                    else ([ev], Inl ErrNoPort)
         | Inl _ \<Rightarrow> ([ev], Inl ErrNoPort))"

definition available :: "alloc_env \<Rightarrow> port \<Rightarrow> deny_list option \<Rightarrow> (port \<Rightarrow> bool) \<Rightarrow> string
    \<Rightarrow> port_event list \<times> (port_error + port)" where
  "available env candidate d exclude ours =
     (let ev0 = EvProbe candidate (fst (probe (net_candidate env) ours))
      in case bind_candidate env candidate of
           Bound \<Rightarrow> ([ev0], Inr candidate)
         | BindError n \<Rightarrow> ([ev0, EvBindFailed candidate (BindError n)], Inl (BindFailed n))
         | AddrInUse \<Rightarrow>
             (let skip = exclude(candidate := True);
                  evs = [ev0, EvBindFailed candidate AddrInUse];
                  (base, span) = default_window d
              in if 0 < span then
                   (let r = scan_window (late_window env) base span d skip
                              (\<lambda>p. probe (net_window env p) ours);
                        ev = EvScan base (base + span - 1) (scan_found r)
                    in case r of
                         Inr p \<Rightarrow>
                           if bind_window env p = Bound
                           then (evs @ [ev, EvChange candidate p], Inr p)
                           else (let (evs', r') = try_wide env candidate d skip ours
                                 in (evs @ [ev] @ evs', r'))
                       | Inl _ \<Rightarrow>
                           (let (evs', r') = try_wide env candidate d skip ours
                            in (evs @ [ev] @ evs', r')))
                 else (let (evs', r') = try_wide env candidate d skip ours in (evs @ evs', r'))))"

text \<open>\<open>CheckDenyMismatch\<close>: whether the shell accepted a port the launcher denies.\<close>

definition check_deny_mismatch :: "port \<Rightarrow> bool \<Rightarrow> deny_list option \<Rightarrow> bool" where
  "check_deny_mismatch p shell_accepted d = (if \<not> shell_accepted \<or> \<not> contains_port d p then False else True)"

section \<open>Facts about the scan\<close>

text \<open>An offset is accepted when its port passes the filter and its probe allows it.\<close>

definition accepts :: "deny_list option \<Rightarrow> (port \<Rightarrow> bool) \<Rightarrow> (port \<Rightarrow> probe_result \<times> bool) \<Rightarrow> port \<Rightarrow> bool" where
  "accepts d exclude pr p =
     (candidate_usable p d exclude \<and> \<not> snd (pr p) \<and> usable (fst (pr p)))"

definition at_offset :: "port \<Rightarrow> nat \<Rightarrow> port" where
  "at_offset base i = of_nat (unat base + i)"

text \<open>The loop stops at the first offset that is late, out of the port range, or accepted.\<close>

lemma scan_loop_find:
  "scan_loop late d exclude pr base is =
     (case find (\<lambda>i. late i \<or> 65535 < unat base + i \<or> accepts d exclude pr (at_offset base i)) is of
        None \<Rightarrow> Inl ErrNoPort
      | Some i \<Rightarrow> if late i \<or> 65535 < unat base + i then Inl ErrNoPort else Inr (at_offset base i))"
  by (induction "is") (auto simp: accepts_def at_offset_def Let_def split: prod.splits)

lemma unat_at_offset: "unat base + i \<le> 65535 \<Longrightarrow> unat (at_offset base i) = unat base + i"
  by (simp add: at_offset_def take_bit_nat_eq_self unat_of_nat del: of_nat_add)

lemma find_upt_Some:
  "find p [0..<n] = Some i \<Longrightarrow> i < n \<and> p i \<and> (\<forall>j < i. \<not> p j)"
  by (auto simp: find_Some_iff)

lemma scan_window_Inr:
  assumes "scan_window late base span d exclude pr = Inr p"
  shows "\<exists>i. i < unat span \<and> p = at_offset base i \<and> unat p = unat base + i \<and> accepts d exclude pr p
     \<and> (\<forall>j < i. \<not> accepts d exclude pr (at_offset base j))"
proof -
  obtain i where i: "find (\<lambda>i. late i \<or> 65535 < unat base + i \<or> accepts d exclude pr (at_offset base i))
      [0..<unat span] = Some i" "\<not> late i" "unat base + i \<le> 65535" "p = at_offset base i"
    using assms by (auto simp: scan_window_def scan_loop_find split: option.splits if_splits)
  from find_upt_Some [OF i(1)] i(2-4) show ?thesis
    by (auto intro!: exI [of _ i] simp: unat_at_offset)
qed

lemma scan_window_complete:
  assumes "\<And>j. j < i \<Longrightarrow> \<not> late j" and "\<not> late i" and "i < unat span" and "unat base + i \<le> 65535"
    and "accepts d exclude pr (at_offset base i)"
  shows "\<exists>p. scan_window late base span d exclude pr = Inr p \<and> unat p \<le> unat base + i"
proof -
  let ?P = "\<lambda>i. late i \<or> 65535 < unat base + i \<or> accepts d exclude pr (at_offset base i)"
  have "find ?P [0..<unat span] \<noteq> None"
    using assms(3,5) by (auto simp: find_None_iff)
  then obtain k where k: "find ?P [0..<unat span] = Some k" by auto
  from find_upt_Some [OF k] have kle: "k \<le> i" using assms(5) by (meson not_le_imp_less)
  then have "\<not> late k" "unat base + k \<le> 65535"
    using assms(1,2,4) by (cases "k = i"; auto)+
  moreover have "span \<noteq> 0" using assms(3) by auto
  ultimately show ?thesis
    using k kle unat_at_offset [of base k]
    by (auto simp: scan_window_def scan_loop_find)
qed

lemma candidate_validates: "candidate_usable p d exclude \<Longrightarrow> validate_port p d = None"
  by (auto simp: candidate_usable_def validate_port_def word_less_nat_alt word_le_nat_alt
      lowest_user_port_def reserved_ephemeral_low_def split: if_splits)

lemma accepts_validates:
  "accepts d exclude pr p \<Longrightarrow> validate_port p d = None \<and> \<not> reserved_port d p \<and> \<not> exclude p"
  by (auto simp: accepts_def candidate_validates) (auto simp: candidate_usable_def split: if_splits)

lemma scan_window_validates:
  "scan_window late base span d exclude pr = Inr p \<Longrightarrow>
     validate_port p d = None \<and> \<not> reserved_port d p \<and> \<not> exclude p"
  by (auto dest!: scan_window_Inr dest: accepts_validates)


text \<open>A parsed list: every entry has a message, so a denied port always has a reason.\<close>

definition deny_list_ok :: "deny_list \<Rightarrow> bool" where
  "deny_list_ok l \<longleftrightarrow>
     (\<forall>p msg. get (deny_ports l) p = Some msg \<longrightarrow> p \<noteq> 0 \<and> msg \<noteq> [])
     \<and> (\<forall>r \<in> set (deny_ranges l @ deny_reserved l).
          0 < range_from r \<and> range_from r \<le> range_to r \<and> range_msg r \<noteq> [])"

lemma parse_ranges_ok:
  "parse_ranges e rs = Inr ds \<Longrightarrow>
     \<forall>r \<in> set ds. 0 < range_from r \<and> range_from r \<le> range_to r \<and> range_msg r \<noteq> []"
  by (induction rs arbitrary: ds)
    (auto simp: bad_range_def range_message_def word_gt_0 not_less split: if_splits sum.splits)

lemma parse_ranges_bounds:
  "parse_ranges e rs = Inr ds \<Longrightarrow> list_ex (\<lambda>r. range_contains r p) ds
     \<longleftrightarrow> (\<exists>r \<in> set rs. fr_from r \<le> p \<and> p \<le> fr_to r)"
  by (induction rs arbitrary: ds) (auto simp: range_contains_def split: if_splits sum.splits)

lemma parse_ports_get:
  "parse_ports m ps = Inr m' \<Longrightarrow>
     get m' q \<noteq> None \<longleftrightarrow> get m q \<noteq> None \<or> q \<in> fp_port ` set ps"
proof (induction ps arbitrary: m)
  case (Cons p ps)
  then show ?case by (cases "fp_port p = 0") (auto split: if_splits)
qed simp

lemma parse_ports_msg:
  "parse_ports m ps = Inr m' \<Longrightarrow> \<forall>q msg. get m q = Some msg \<longrightarrow> q \<noteq> 0 \<and> msg \<noteq> []
     \<Longrightarrow> \<forall>q msg. get m' q = Some msg \<longrightarrow> q \<noteq> 0 \<and> msg \<noteq> []"
proof (induction ps arbitrary: m)
  case (Cons p ps)
  have p: "parse_ports (put (fp_port p) (port_message (fp_port p) (fp_message p)) m) ps = Inr m'"
    and nz: "fp_port p \<noteq> 0"
    using Cons.prems(1) by (auto split: if_splits)
  show ?case
    by (rule Cons.IH [OF p]) (use Cons.prems(2) nz in \<open>simp add: port_message_def\<close>)
qed simp

lemma parse_deny_list_Inr:
  assumes "parse_deny_list (Some f) = Inr l"
  shows "parse_ranges InvalidRange (file_ranges f) = Inr (deny_ranges l)"
    and "parse_ranges InvalidReserved (file_reserved f) = Inr (deny_reserved l)"
    and "parse_ports [] (file_ports f) = Inr (deny_ports l)"
  using assms by (auto simp: parse_deny_list_def split: if_splits sum.splits)

lemma parse_deny_list_ok: "parse_deny_list (Some f) = Inr l \<Longrightarrow> deny_list_ok l"
  using parse_ports_msg [OF parse_deny_list_Inr(3)] parse_ranges_ok [OF parse_deny_list_Inr(1)]
    parse_ranges_ok [OF parse_deny_list_Inr(2)]
  by (auto simp: deny_list_ok_def)

lemma deny_reason_iff:
  assumes "deny_list_ok l"
  shows "deny_reason (Some l) p \<noteq> [] \<longleftrightarrow> contains_port (Some l) p \<or> reserved_port (Some l) p"
proof -
  have msg: "range_msg r \<noteq> [] \<and> list_ex (\<lambda>r. range_contains r p) rs"
    if "find (\<lambda>r. range_contains r p) rs = Some r"
    "set rs \<subseteq> set (deny_ranges l @ deny_reserved l)" for rs r
    using that assms find_Some_in [OF that(1)] by (auto simp: deny_list_ok_def list_ex_iff)
  have "get (deny_ports l) p = Some m \<Longrightarrow> m \<noteq> []" for m
    using assms by (auto simp: deny_list_ok_def)
  then show ?thesis
    using msg [of "deny_ranges l"] msg [of "deny_reserved l"]
    by (simp add: deny_reason_def contains_port_def reserved_port_def find_None_ex split: option.splits)
qed

lemma wide_unat: "unat (ucast (w :: port) :: 32 word) = unat w"
  by (simp add: unsigned_ucast_eq take_bit_nat_eq_self order.strict_trans [OF unsigned_less])

lemma accepts_range: "accepts d exclude pr p \<Longrightarrow> unat p \<le> 49151"
  by (drule accepts_validates) (auto simp: validate_port_def word_le_nat_alt split: if_splits)

lemma at_offset_diff: "unat base \<le> unat q \<Longrightarrow> at_offset base (unat q - unat base) = q"
  by (simp add: at_offset_def flip: of_nat_add)

lemma try_wide_result:
  "snd (try_wide env candidate d skip ours) =
     (case wide_scan (late_wide env) d skip (net_wide env) ours of
        Inr p \<Rightarrow> if bind_wide env p = Bound then Inr p else Inl ErrNoPort
      | Inl _ \<Rightarrow> Inl ErrNoPort)"
  by (simp add: try_wide_def Let_def split: sum.splits)

lemma try_wide_Inr:
  assumes "snd (try_wide env candidate d skip ours) = Inr p"
  shows "validate_port p d = None \<and> \<not> reserved_port d p \<and> \<not> skip p \<and> bind_wide env p = Bound"
  using assms by (auto simp: try_wide_result wide_scan_def dest!: scan_window_validates
      split: sum.splits if_splits)

lemma try_wide_Inl: "snd (try_wide env candidate d skip ours) = Inl e \<Longrightarrow> e = ErrNoPort"
  by (auto simp: try_wide_result split: sum.splits if_splits)

text \<open>The result of \<open>available\<close> without its events.\<close>

lemma available_result:
  "snd (available env candidate d exclude ours) =
     (case bind_candidate env candidate of
        Bound \<Rightarrow> Inr candidate
      | BindError n \<Rightarrow> Inl (BindFailed n)
      | AddrInUse \<Rightarrow>
          (let skip = exclude(candidate := True);
               (base, span) = default_window d;
               r = scan_window (late_window env) base span d skip (\<lambda>p. probe (net_window env p) ours)
           in if 0 < span \<and> is_ok r \<and> bind_window env (scan_found r) = Bound then r
              else snd (try_wide env candidate d skip ours)))"
  by (simp add: available_def Let_def scan_found_def split: bind_outcome.splits prod.splits sum.splits)

section \<open>Properties\<close>

text \<open>
  The default port of a game lies in its configured window: for a window inside the port
  range, \<open>base \<le> Default(id, base, span) < base + span\<close>, with no wrap-around of the 16-bit
  result; an empty window degrades to the base port.
\<close>

theorem default_port_in_window:
  assumes "unat base + unat span \<le> 65536"
  shows "unat base \<le> unat (default_port gid base span)
    \<and> unat (default_port gid base span) < unat base + max 1 (unat span)"
proof (cases "span = 0")
  case False
  define r where "r = unat (FNV1a32 gid) mod unat span"
  have r: "r < unat span" using False by (simp add: r_def unat_gt_0)
  have "unat (FNV1a32 gid mod ucast span) = r"
    by (simp add: r_def unat_mod_distrib wide_unat)
  then have "unat (ucast base + FNV1a32 gid mod ucast span :: 32 word) = unat base + r"
    using r assms by (simp add: unat_word_ariths wide_unat)
  then have "unat (default_port gid base span) = unat base + r"
    using False r assms by (simp add: default_port_def unsigned_ucast_eq take_bit_nat_eq_self)
  with r show ?thesis by simp
qed (simp add: default_port_def)

theorem default_port_in_window_witness:
  "default_port ''com.kobra.stardrifter'' 41000 4000 = 43171 \<and>
   unat (default_port ''com.kobra.stardrifter'' 41000 4000) < 45000"
proof
  show "default_port ''com.kobra.stardrifter'' 41000 4000 = 43171"
    by code_simp
  show "unat (default_port ''com.kobra.stardrifter'' 41000 4000) < 45000"
    using default_port_in_window [of 41000 4000 "''com.kobra.stardrifter''"] by simp
qed

text \<open>
  \<open>Validate\<close> decides on every port: it accepts exactly the ports of the user range
  1024..49151 that the deny list does not hard-deny, and otherwise names the first reason in
  the order privileged, denied, ephemeral.
\<close>

theorem validate_port_spec:
  "(validate_port p d = None \<longleftrightarrow> 1024 \<le> unat p \<and> unat p \<le> 49151 \<and> \<not> contains_port d p)
   \<and> (validate_port p d = Some ErrPrivilegedPort \<longleftrightarrow> unat p < 1024)
   \<and> (validate_port p d = Some (DenyError p (deny_reason d p)) \<longleftrightarrow> 1024 \<le> unat p \<and> contains_port d p)
   \<and> (validate_port p d = Some ErrEphemeralPort \<longleftrightarrow> 49152 \<le> unat p \<and> \<not> contains_port d p)"
  by (auto simp: validate_port_def word_less_nat_alt word_le_nat_alt)

text \<open>
  A deny list that parses explains every refusal: \<open>Reason\<close> is non-empty for exactly the
  ports the list hard-denies or reserves, and these are the ports listed by themselves or
  inside a listed range of the document.
\<close>

theorem deny_list_explains:
  assumes "parse_deny_list (Some f) = Inr l"
  shows "(deny_reason (Some l) p \<noteq> [] \<longleftrightarrow> contains_port (Some l) p \<or> reserved_port (Some l) p)
    \<and> (contains_port (Some l) p \<longleftrightarrow> p \<in> fp_port ` set (file_ports f)
         \<or> (\<exists>r \<in> set (file_ranges f). fr_from r \<le> p \<and> p \<le> fr_to r))
    \<and> (reserved_port (Some l) p \<longleftrightarrow> (\<exists>r \<in> set (file_reserved f). fr_from r \<le> p \<and> p \<le> fr_to r))"
proof -
  note p = parse_deny_list_Inr [OF assms]
  show ?thesis
    using deny_reason_iff [OF parse_deny_list_ok [OF assms]] parse_ranges_bounds [OF p(1), of p]
      parse_ranges_bounds [OF p(2), of p] parse_ports_get [OF p(3), of p]
    by (auto simp: contains_port_def reserved_port_def)
qed

definition sample_deny_file :: deny_list_file where
  "sample_deny_file = \<lparr>file_schema = deny_list_schema,
     file_ranges = [\<lparr>fr_from = 6665, fr_to = 6669, fr_message = []\<rparr>],
     file_ports = [\<lparr>fp_port = 6000, fp_message = ''X11''\<rparr>], file_reserved = [],
     file_base = 41000, file_span = 4000\<rparr>"

theorem deny_list_explains_witness:
  "\<exists>l. parse_deny_list (Some sample_deny_file) = Inr l \<and> deny_reason (Some l) 6667 \<noteq> []
     \<and> deny_reason (Some l) 8080 = []"
proof -
  obtain l where l: "parse_deny_list (Some sample_deny_file) = Inr l"
    by (simp add: parse_deny_list_def sample_deny_file_def bad_range_def)
  show ?thesis
    using l deny_list_explains [OF l, of 6667] deny_list_explains [OF l, of 8080]
    by (auto simp: sample_deny_file_def)
qed

text \<open>
  A scan is sound and takes the first fit: the port it returns lies in the window, passes
  \<open>Validate\<close>, is neither reserved nor excluded, answered its probe as free or as this game,
  and no earlier port of the window would have been accepted.
\<close>

theorem scan_first_fit:
  assumes "scan late base span d exclude net ours = Inr p"
  shows "unat base \<le> unat p \<and> unat p < unat base + unat span
    \<and> validate_port p d = None \<and> \<not> reserved_port d p \<and> \<not> exclude p
    \<and> (probe (net p) ours = (ProbeFree, False) \<or> probe (net p) ours = (ProbeOurs, False))
    \<and> (\<forall>q. unat base \<le> unat q \<and> unat q < unat p \<longrightarrow>
         \<not> accepts d exclude (\<lambda>p. probe (net p) ours) q)"
proof -
  let ?pr = "\<lambda>p. probe (net p) ours"
  obtain i where i: "i < unat span" "unat p = unat base + i" "accepts d exclude ?pr p"
    "\<forall>j < i. \<not> accepts d exclude ?pr (at_offset base j)"
    using scan_window_Inr [of late base span d exclude ?pr p] assms by (auto simp: scan_def)
  have "\<not> accepts d exclude ?pr q" if q: "unat base \<le> unat q" "unat q < unat p" for q
    using i(2,4) q at_offset_diff [OF q(1)] by (metis less_diff_conv2 add.commute)
  with i accepts_validates [OF i(3)] show ?thesis
    by (cases "?pr p") (auto simp: accepts_def usable_def)
qed

definition sample_net :: "port \<Rightarrow> exchange" where
  "sample_net p = (if p = 41000 then Response 200 (Some (''other'', ''x'')) else Refused)"

lemmas scan_eval = candidate_usable_def contains_port_def reserved_port_def sample_net_def
  probe_def probe_app_name_def usable_def lowest_user_port_def reserved_ephemeral_low_def

theorem scan_first_fit_witness:
  "scan (\<lambda>_. False) 41000 10 None (\<lambda>_. False) sample_net ''g'' = Inr 41001
   \<and> validate_port 41001 None = None"
proof
  show scan: "scan (\<lambda>_. False) 41000 10 None (\<lambda>_. False) sample_net ''g'' = Inr 41001"
    by (simp add: scan_def scan_window_def upt_rec scan_eval)
  show "validate_port 41001 None = None"
    using scan_first_fit [OF scan] by simp
qed

text \<open>
  A scan that is not cut off by its deadline is complete: it finds a port exactly when
  some port of the window passes the filter and answers its probe as free or as this game.
\<close>

theorem scan_complete:
  assumes "\<And>i. i < unat span \<Longrightarrow> \<not> late i"
  shows "is_ok (scan late base span d exclude net ours) \<longleftrightarrow>
    (\<exists>p. unat base \<le> unat p \<and> unat p < unat base + unat span
       \<and> accepts d exclude (\<lambda>p. probe (net p) ours) p)" (is "_ \<longleftrightarrow> ?rhs")
proof
  assume "is_ok (scan late base span d exclude net ours)"
  then obtain p where "scan_window late base span d exclude (\<lambda>p. probe (net p) ours) = Inr p"
    by (auto simp: scan_def elim: is_okE)
  from scan_window_Inr [OF this] show ?rhs
    by (auto intro!: exI [of _ p])
next
  assume ?rhs
  then obtain p where p: "unat base \<le> unat p" "unat p < unat base + unat span"
    "accepts d exclude (\<lambda>p. probe (net p) ours) p" by blast
  let ?i = "unat p - unat base"
  have "?i < unat span" "unat base + ?i \<le> 65535"
    using p accepts_range [OF p(3)] by auto
  then obtain q where "scan_window late base span d exclude (\<lambda>p. probe (net p) ours) = Inr q"
    using scan_window_complete [of ?i late span base d exclude "\<lambda>p. probe (net p) ours"]
      p assms at_offset_diff [OF p(1)] by auto
  then show "is_ok (scan late base span d exclude net ours)"
    by (simp add: scan_def)
qed

theorem scan_complete_witness:
  "is_ok (scan (\<lambda>_. False) 41000 10 None (\<lambda>_. False) sample_net ''g'')"
proof -
  have "accepts None (\<lambda>_. False) (\<lambda>p. probe (sample_net p) ''g'') 41003"
    by (simp add: accepts_def scan_eval)
  then have "\<exists>p. unat (41000 :: port) \<le> unat p \<and> unat p < unat (41000 :: port) + unat (10 :: port)
     \<and> accepts None (\<lambda>_. False) (\<lambda>p. probe (sample_net p) ''g'') p"
    by (intro exI [of _ 41003]) simp
  then show ?thesis
    by (subst scan_complete) auto
qed

text \<open>
  Allocation binds before it answers. A port \<open>Available\<close> returns is bound; it is the
  candidate, or, only when the candidate's bind failed with EADDRINUSE, a different port that
  passes \<open>Validate\<close> and is neither reserved nor excluded. Any other bind error is returned
  as it is, and ErrNoPort is returned only after EADDRINUSE.
\<close>

theorem available_result_spec:
  "case snd (available env candidate d exclude ours) of
     Inr p \<Rightarrow> p = candidate \<and> bind_candidate env p = Bound
              \<or> p \<noteq> candidate \<and> bind_candidate env candidate = AddrInUse
                 \<and> (bind_window env p = Bound \<or> bind_wide env p = Bound)
                 \<and> validate_port p d = None \<and> \<not> reserved_port d p \<and> \<not> exclude p
   | Inl e \<Rightarrow> (\<exists>n. e = BindFailed n \<and> bind_candidate env candidate = BindError n)
              \<or> e = ErrNoPort \<and> bind_candidate env candidate = AddrInUse"
proof (cases "bind_candidate env candidate")
  case AddrInUse
  obtain base span where w: "default_window d = (base, span)" by fastforce
  let ?skip = "exclude(candidate := True)"
  define r where "r = scan_window (late_window env) base span d ?skip (\<lambda>p. probe (net_window env p) ours)"
  have res: "snd (available env candidate d exclude ours) =
     (if 0 < span \<and> is_ok r \<and> bind_window env (scan_found r) = Bound then r
      else snd (try_wide env candidate d ?skip ours))"
    using AddrInUse w by (simp add: available_result r_def Let_def)
  have win: "validate_port p d = None \<and> \<not> reserved_port d p \<and> \<not> ?skip p" if "r = Inr p" for p
    using that unfolding r_def by (rule scan_window_validates)
  show ?thesis
  proof (cases "0 < span \<and> is_ok r \<and> bind_window env (scan_found r) = Bound")
    case True
    then obtain p where "r = Inr p" by (auto elim: is_okE)
    with True res AddrInUse win [OF this] show ?thesis
      by (auto simp: scan_found_def split: if_splits)
  next
    case False
    then have s: "snd (available env candidate d exclude ours) = snd (try_wide env candidate d ?skip ours)"
      using res by argo
    show ?thesis
      using AddrInUse try_wide_Inr [of env candidate d ?skip ours] try_wide_Inl [of env candidate d ?skip ours]
      unfolding s by (cases "snd (try_wide env candidate d ?skip ours)") (auto split: if_splits)
  qed
qed (simp_all add: available_result)

end
