(* ===== verification/Json.thy ===== *)
theory Json
  imports Go_Map "HOL-Library.Char_ord" "HOL-Library.List_Lexorder"
begin

text \<open>
  JSON as the launcher uses Go's \<open>encoding/json\<close>: values, the canonical text
  \<open>storage.encodeCanonical\<close> and \<open>json.Marshal\<close> write (members sorted by key, no
  white space, HTML-safe string escapes), and the decoder. A number is kept as its literal, as
  \<open>json.Number\<close> does. A Go map is represented by its members sorted by key, so two
  decoded documents are equal exactly when the Go values are. Strings are byte strings; the
  replacement of invalid UTF-8 by U+FFFD is not modelled.
\<close>

datatype json =
    JNull
  | JBool bool
  | JNum string
  | JStr string
  | JArr "json list"
  | JObj "(string \<times> json) list"

definition quote :: char where "quote = CHR 0x22"

section \<open>Strings\<close>

definition hex_digit :: "nat \<Rightarrow> char" where
  "hex_digit n = (if n < 10 then char_of (48 + n) else char_of (87 + n))"

definition hex_val :: "char \<Rightarrow> nat option" where
  "hex_val c =
     (let n = of_char c :: nat
      in if 48 \<le> n \<and> n \<le> 57 then Some (n - 48)
         else if 97 \<le> n \<and> n \<le> 102 then Some (n - 87)
         else if 65 \<le> n \<and> n \<le> 70 then Some (n - 55)
         else None)"

definition u_escape :: "nat \<Rightarrow> string" where
  "u_escape n = [backslash, CHR ''u'', hex_digit (n div 4096 mod 16), hex_digit (n div 256 mod 16),
                 hex_digit (n div 16 mod 16), hex_digit (n mod 16)]"

text \<open>One byte of a string, as \<open>json.Marshal\<close> writes it.\<close>

definition escape_byte :: "char \<Rightarrow> string" where
  "escape_byte c =
     (let n = of_char c :: nat
      in if n = 34 then [backslash, quote]
         else if n = 92 then [backslash, backslash]
         else if n = 8 then [backslash, CHR ''b'']
         else if n = 12 then [backslash, CHR ''f'']
         else if n = 10 then [backslash, CHR ''n'']
         else if n = 13 then [backslash, CHR ''r'']
         else if n = 9 then [backslash, CHR ''t'']
         else if n < 32 \<or> n = 60 \<or> n = 62 \<or> n = 38 then u_escape n
         else [c])"

text \<open>U+2028 and U+2029 (bytes E2 80 A8 and E2 80 A9) are escaped as well.\<close>

fun escape :: "string \<Rightarrow> string" where
  "escape [] = []"
| "escape (c # cs) =
     (case cs of
        d # e # r \<Rightarrow>
          if c = CHR 0xE2 \<and> d = CHR 0x80 \<and> (e = CHR 0xA8 \<or> e = CHR 0xA9)
          then u_escape (if e = CHR 0xA8 then 8232 else 8233) @ escape r
          else escape_byte c @ escape cs
      | _ \<Rightarrow> escape_byte c @ escape cs)"

definition encode_string :: "string \<Rightarrow> string" where
  "encode_string s = quote # escape s @ [quote]"

definition utf8 :: "nat \<Rightarrow> string" where
  "utf8 n =
     (if n < 128 then [char_of n]
      else if n < 2048 then [char_of (192 + n div 64), char_of (128 + n mod 64)]
      else if n < 65536 then [char_of (224 + n div 4096), char_of (128 + n div 64 mod 64), char_of (128 + n mod 64)]
      else [char_of (240 + n div 262144), char_of (128 + n div 4096 mod 64),
            char_of (128 + n div 64 mod 64), char_of (128 + n mod 64)])"

definition take_hex4 :: "string \<Rightarrow> (nat \<times> string) option" where
  "take_hex4 s =
     (case s of
        a # b # c # d # r \<Rightarrow>
          (case (hex_val a, hex_val b, hex_val c, hex_val d) of
             (Some w, Some x, Some y, Some z) \<Rightarrow> Some (4096 * w + 256 * x + 16 * y + z, r)
           | _ \<Rightarrow> None)
      | _ \<Rightarrow> None)"

lemma take_hex4_length: "take_hex4 s = Some (n, r) \<Longrightarrow> length r < length s"
  by (auto simp: take_hex4_def split: list.splits option.splits)

text \<open>The low half of a surrogate pair, when one follows.\<close>

definition take_low :: "string \<Rightarrow> (nat \<times> string) option" where
  "take_low s =
     (case s of
        x # y # r \<Rightarrow>
          if x = backslash \<and> y = CHR ''u''
          then (case take_hex4 r of
                  Some (n, r') \<Rightarrow> if 56320 \<le> n \<and> n < 57344 then Some (n, r') else None
                | None \<Rightarrow> None)
          else None
      | _ \<Rightarrow> None)"

lemma take_low_length: "take_low s = Some (n, r) \<Longrightarrow> length r < length s"
  by (auto simp: take_low_def dest: take_hex4_length split: list.splits option.splits if_splits)

definition unescape :: "char \<Rightarrow> char option" where
  "unescape e =
     (if e = quote \<or> e = backslash \<or> e = slash then Some e
      else if e = CHR ''b'' then Some (CHR 0x08)
      else if e = CHR ''f'' then Some (CHR 0x0C)
      else if e = CHR ''n'' then Some (CHR 0x0A)
      else if e = CHR ''r'' then Some (CHR 0x0D)
      else if e = CHR ''t'' then Some (CHR 0x09)
      else None)"

definition prepend :: "string \<Rightarrow> (string \<times> string) option \<Rightarrow> (string \<times> string) option" where
  "prepend p r = map_option (\<lambda>(s, rest). (p @ s, rest)) r"

lemma prepend_simps [simp]: "prepend p None = None" "prepend p (Some (s, r)) = Some (p @ s, r)"
  by (simp_all add: prepend_def)

text \<open>
  A string after its opening quote, and what follows its closing one. An unpaired surrogate
  becomes U+FFFD; an unescaped control character is an error.
\<close>

function parse_str :: "string \<Rightarrow> (string \<times> string) option" where
  "parse_str [] = None"
| "parse_str (c # cs) =
     (if c = quote then Some ([], cs)
      else if c = backslash then
        (case cs of
           [] \<Rightarrow> None
         | e # r \<Rightarrow>
             if e = CHR ''u'' then
               (case take_hex4 r of
                  None \<Rightarrow> None
                | Some (n, r') \<Rightarrow>
                    if 55296 \<le> n \<and> n < 56320 then
                      (case take_low r' of
                         Some (m, r'') \<Rightarrow>
                           prepend (utf8 (65536 + (n - 55296) * 1024 + (m - 56320))) (parse_str r'')
                       | None \<Rightarrow> prepend (utf8 65533) (parse_str r'))
                    else if 56320 \<le> n \<and> n < 57344 then prepend (utf8 65533) (parse_str r')
                    else prepend (utf8 n) (parse_str r'))
             else (case unescape e of None \<Rightarrow> None | Some c' \<Rightarrow> prepend [c'] (parse_str r)))
      else if (of_char c :: nat) < 32 then None
      else prepend [c] (parse_str cs))"
  by pat_completeness auto
termination
  by (relation "measure length") (auto dest!: take_hex4_length take_low_length)

section \<open>Numbers\<close>

definition span_digits :: "string \<Rightarrow> string \<times> string" where
  "span_digits s = (takeWhile is_digit s, dropWhile is_digit s)"

definition parse_int_part :: "string \<Rightarrow> (string \<times> string) option" where
  "parse_int_part s =
     (case s of
        [] \<Rightarrow> None
      | c # cs \<Rightarrow> if c = CHR ''0'' then Some ([c], cs)
                  else if is_digit c then (let (ds, r) = span_digits cs in Some (c # ds, r))
                  else None)"

definition parse_frac :: "string \<Rightarrow> (string \<times> string) option" where
  "parse_frac s =
     (case s of
        [] \<Rightarrow> Some ([], [])
      | c # cs \<Rightarrow>
          if c = dot then (let (ds, r) = span_digits cs in if ds = [] then None else Some (c # ds, r))
          else Some ([], c # cs))"

definition parse_exp :: "string \<Rightarrow> (string \<times> string) option" where
  "parse_exp s =
     (case s of
        [] \<Rightarrow> Some ([], [])
      | c # cs \<Rightarrow>
          if c = CHR ''e'' \<or> c = CHR ''E'' then
            (let (sg, cs') = (case cs of [] \<Rightarrow> ([], [])
                              | d # ds \<Rightarrow> if d = CHR ''+'' \<or> d = CHR ''-'' then ([d], ds) else ([], d # ds));
                 (ds, r) = span_digits cs'
             in if ds = [] then None else Some (c # sg @ ds, r))
          else Some ([], c # cs))"

definition parse_number :: "string \<Rightarrow> (string \<times> string) option" where
  "parse_number s =
     (let (sg, s0) = (case s of [] \<Rightarrow> ([], [])
                      | c # cs \<Rightarrow> if c = CHR ''-'' then ([c], cs) else ([], c # cs))
      in case parse_int_part s0 of
           None \<Rightarrow> None
         | Some (ip, s1) \<Rightarrow>
             (case parse_frac s1 of
                None \<Rightarrow> None
              | Some (fp, s2) \<Rightarrow>
                  (case parse_exp s2 of
                     None \<Rightarrow> None
                   | Some (ep, s3) \<Rightarrow> Some (sg @ ip @ fp @ ep, s3))))"

text \<open>A literal of the JSON grammar.\<close>

definition number_lit :: "string \<Rightarrow> bool" where
  "number_lit s = (parse_number s = Some (s, []))"

section \<open>Encoding\<close>

definition join_comma :: "string list \<Rightarrow> string" where
  "join_comma xs = join_on (CHR '','') xs"

text \<open>\<open>encodeCanonical\<close>, which is also what \<open>json.Marshal\<close> writes for these values.\<close>

primrec encode :: "json \<Rightarrow> string" where
  "encode JNull = ''null''"
| "encode (JBool b) = (if b then ''true'' else ''false'')"
| "encode (JNum n) = n"
| "encode (JStr s) = encode_string s"
| "encode (JArr vs) = CHR ''['' # join_comma (map encode vs) @ '']''"
| "encode (JObj ms) =
     CHR ''{'' # join_comma (map (\<lambda>(k, e). encode_string k @ CHR '':'' # e)
                              (sort_key fst (map (map_prod id encode) ms))) @ ''}''"

section \<open>Decoding\<close>

text \<open>Setting a member of a Go map, in its sorted representation: a later member replaces an earlier one.\<close>

fun set_member :: "string \<Rightarrow> 'v \<Rightarrow> (string \<times> 'v) list \<Rightarrow> (string \<times> 'v) list" where
  "set_member k v [] = [(k, v)]"
| "set_member k v ((k', v') # ms) =
     (if k < k' then (k, v) # (k', v') # ms
      else if k = k' then (k, v) # ms
      else (k', v') # set_member k v ms)"

definition map_of_members :: "(string \<times> 'v) list \<Rightarrow> (string \<times> 'v) list" where
  "map_of_members ms = fold (\<lambda>(k, v). set_member k v) ms []"

definition json_space :: "char \<Rightarrow> bool" where
  "json_space c = (c = CHR 0x20 \<or> c = CHR 0x09 \<or> c = CHR 0x0A \<or> c = CHR 0x0D)"

definition skip_ws :: "string \<Rightarrow> string" where
  "skip_ws s = dropWhile json_space s"

definition head_is :: "char \<Rightarrow> string \<Rightarrow> bool" where
  "head_is c s = (s \<noteq> [] \<and> hd s = c)"

text \<open>
  The decoder, with fuel for the nesting and the number of elements. Each member carries the
  bytes of its value, which is what a \<open>json.RawMessage\<close> field receives.
\<close>

fun parse_value :: "nat \<Rightarrow> string \<Rightarrow> (json \<times> string) option"
  and parse_elems :: "nat \<Rightarrow> string \<Rightarrow> (json list \<times> string) option"
  and parse_members :: "nat \<Rightarrow> string \<Rightarrow> ((string \<times> json \<times> string) list \<times> string) option" where
  "parse_value 0 s = None"
| "parse_value (Suc n) s =
     (let t = skip_ws s
      in if head_is quote t then map_option (\<lambda>(x, r). (JStr x, r)) (parse_str (tl t))
         else if head_is (CHR ''{'') t then
           (let u = skip_ws (tl t)
            in if head_is (CHR ''}'') u then Some (JObj [], tl u)
               else map_option (\<lambda>(ms, r). (JObj (map_of_members (map (\<lambda>(k, v, _). (k, v)) ms)), r))
                      (parse_members n u))
         else if head_is (CHR ''['') t then
           (let u = skip_ws (tl t)
            in if head_is (CHR '']'') u then Some (JArr [], tl u)
               else map_option (\<lambda>(vs, r). (JArr vs, r)) (parse_elems n u))
         else if prefix ''null'' t then Some (JNull, drop 4 t)
         else if prefix ''true'' t then Some (JBool True, drop 4 t)
         else if prefix ''false'' t then Some (JBool False, drop 5 t)
         else map_option (\<lambda>(l, r). (JNum l, r)) (parse_number t))"
| "parse_elems 0 s = None"
| "parse_elems (Suc n) s =
     (case parse_value n s of
        None \<Rightarrow> None
      | Some (v, r) \<Rightarrow>
          (let t = skip_ws r
           in if head_is (CHR '']'') t then Some ([v], tl t)
              else if head_is (CHR '','') t
              then map_option (\<lambda>(vs, r'). (v # vs, r')) (parse_elems n (tl t))
              else None))"
| "parse_members 0 s = None"
| "parse_members (Suc n) s =
     (let t = skip_ws s
      in if \<not> head_is quote t then None
         else case parse_str (tl t) of
                None \<Rightarrow> None
              | Some (k, r) \<Rightarrow>
                  (let t1 = skip_ws r
                   in if \<not> head_is (CHR '':'') t1 then None
                      else let t2 = skip_ws (tl t1)
                           in case parse_value n t2 of
                                None \<Rightarrow> None
                              | Some (v, r1) \<Rightarrow>
                                  (let raw = take (length t2 - length r1) t2; t3 = skip_ws r1
                                   in if head_is (CHR ''}'') t3 then Some ([(k, v, raw)], tl t3)
                                      else if head_is (CHR '','') t3
                                      then map_option (\<lambda>(ms, r2). ((k, v, raw) # ms, r2))
                                             (parse_members n (tl t3))
                                      else None)))"

text \<open>\<open>Decoder.Decode\<close> reads one value; \<open>json.Unmarshal\<close> refuses what follows it.\<close>

definition decode_first :: "string \<Rightarrow> json option" where
  "decode_first s = map_option fst (parse_value (Suc (length s)) s)"

definition unmarshal :: "string \<Rightarrow> json option" where
  "unmarshal s =
     (case parse_value (Suc (length s)) s of
        None \<Rightarrow> None
      | Some (v, r) \<Rightarrow> if skip_ws r = [] then Some v else None)"

text \<open>The members of a top-level object in document order, with their raw bytes.\<close>

definition unmarshal_members :: "string \<Rightarrow> (string \<times> json \<times> string) list option" where
  "unmarshal_members s =
     (let t = skip_ws s; u = skip_ws (tl t)
      in if unmarshal s = None \<or> \<not> head_is (CHR ''{'') t then None
         else if head_is (CHR ''}'') u then Some []
         else map_option fst (parse_members (length s) u))"

section \<open>Strings round-trip\<close>

lemma hex_val_digit [simp]: "k < 16 \<Longrightarrow> hex_val (hex_digit k) = Some k"
  by (auto simp: hex_val_def hex_digit_def Let_def)

lemma hex_split: "n < 65536 \<Longrightarrow>
    4096 * (n div 4096 mod 16) + 256 * (n div 256 mod 16) + 16 * (n div 16 mod 16) + n mod (16 :: nat) = n"
proof -
  assume "n < 65536"
  then have "n div 4096 mod 16 = n div 4096" by simp
  moreover have "n = 16 * (n div 16) + n mod 16" "n div 16 = 16 * (n div 256) + n div 16 mod 16"
    "n div 256 = 16 * (n div 4096) + n div 256 mod 16"
    using mult_div_mod_eq [of 16 n] mult_div_mod_eq [of 16 "n div 16"] mult_div_mod_eq [of 16 "n div 256"]
    by (simp_all add: div_mult2_eq [symmetric])
  ultimately show ?thesis by linarith
qed

lemma byte_chars:
  "char_of (34 :: nat) = CHR 0x22" "char_of (92 :: nat) = CHR 0x5C" "char_of (8 :: nat) = CHR 0x08"
  "char_of (12 :: nat) = CHR 0x0C" "char_of (10 :: nat) = CHR 0x0A" "char_of (13 :: nat) = CHR 0x0D"
  "char_of (9 :: nat) = CHR 0x09" "char_of (226 :: nat) = CHR 0xE2" "char_of (128 :: nat) = CHR 0x80"
  "char_of (168 :: nat) = CHR 0xA8" "char_of (169 :: nat) = CHR 0xA9"
  by (simp_all flip: of_char_eq_iff [where 'a = nat])

lemma take_hex4_u_escape: "n < 65536 \<Longrightarrow> take_hex4 (tl (tl (u_escape n)) @ r) = Some (n, r)"
  using hex_split [of n] by (simp add: take_hex4_def u_escape_def)

lemma parse_str_u_escape:
  "n < 55296 \<Longrightarrow> parse_str (u_escape n @ r) = prepend (utf8 n) (parse_str r)"
  using take_hex4_u_escape [of n r] by (simp add: u_escape_def quote_def backslash_def)

lemma parse_str_escape_byte: "parse_str (escape_byte c @ r) = prepend [c] (parse_str r)"
proof -
  define n where "n = (of_char c :: nat)"
  have c: "c = char_of n" by (simp add: n_def)
  have quoted: "c = quote \<longleftrightarrow> n = 34" "c = backslash \<longleftrightarrow> n = 92"
    unfolding n_def by (simp_all add: quote_def backslash_def flip: of_char_eq_iff [where 'a = nat])
  consider "n = 34" | "n = 92" | "n = 8" | "n = 12" | "n = 10" | "n = 13" | "n = 9"
    | "n \<notin> {34, 92, 8, 12, 10, 13, 9}" "n < 32 \<or> n = 60 \<or> n = 62 \<or> n = 38"
    | "n \<notin> {34, 92, 8, 12, 10, 13, 9}" "\<not> (n < 32 \<or> n = 60 \<or> n = 62 \<or> n = 38)"
    by blast
  then show ?thesis
  proof cases
    case 8
    then have "escape_byte c = u_escape n" "n < 55296" "utf8 n = [c]"
      by (auto simp: escape_byte_def n_def [symmetric] utf8_def c)
    then show ?thesis by (simp add: parse_str_u_escape)
  next
    case 9
    then have "escape_byte c = [c]" by (simp add: escape_byte_def n_def [symmetric])
    with 9 show ?thesis by (simp add: quoted flip: n_def)
  qed (simp_all add: escape_byte_def n_def [symmetric] c,
       simp_all add: unescape_def quote_def backslash_def slash_def byte_chars)
qed

lemma parse_str_escape: "parse_str (escape s @ quote # r) = Some (s, r)"
proof (induction s rule: length_induct)
  case (1 s)
  then have IH: "parse_str (escape t @ quote # r) = Some (t, r)" if "length t < length s" for t
    using that by blast
  show ?case
  proof (cases s)
    case Nil
    then show ?thesis by simp
  next
    case (Cons c cs)
    show ?thesis
    proof (cases "\<exists>e q. cs = CHR 0x80 # e # q \<and> c = CHR 0xE2 \<and> (e = CHR 0xA8 \<or> e = CHR 0xA9)")
      case True
      then obtain e q where cs: "cs = CHR 0x80 # e # q" "c = CHR 0xE2" "e = CHR 0xA8 \<or> e = CHR 0xA9"
        by blast
      with Cons IH [of q] show ?thesis
        by (auto simp: parse_str_u_escape utf8_def byte_chars)
    next
      case False
      then have "escape s = escape_byte c @ escape cs"
        by (auto simp: Cons split: list.splits)
      with Cons IH [of cs] show ?thesis
        by (simp add: parse_str_escape_byte del: escape.simps)
    qed
  qed
qed

lemma parse_str_encode: "parse_str (tl (encode_string s) @ r) = Some (s, r)"
  using parse_str_escape [of s r] by (simp add: encode_string_def)

section \<open>Numbers and values round-trip\<close>

text \<open>What may follow a value without being read as part of it.\<close>

definition follows :: "string \<Rightarrow> bool" where
  "follows r = (r = [] \<or> hd r \<in> {CHR '','', CHR '']'', CHR ''}'', CHR 0x0A})"

lemma followsD: "follows (c # r) \<Longrightarrow> \<not> is_digit c \<and> c \<noteq> dot \<and> c \<noteq> CHR ''e'' \<and> c \<noteq> CHR ''E''"
  by (auto simp: follows_def is_digit_def dot_def)

lemma span_digits_append:
  assumes "follows r"
  shows "span_digits (s @ r) = (fst (span_digits s), snd (span_digits s) @ r)"
proof -
  have "takeWhile is_digit r = [] \<and> dropWhile is_digit r = r"
    using assms by (cases r) (auto dest: followsD)
  then have "takeWhile is_digit (s @ r) = takeWhile is_digit s
      \<and> dropWhile is_digit (s @ r) = dropWhile is_digit s @ r"
    by (induction s) auto
  then show ?thesis by (simp add: span_digits_def)
qed

lemma parse_int_part_append:
  "parse_int_part s = Some (a, s') \<Longrightarrow> follows r \<Longrightarrow> parse_int_part (s @ r) = Some (a, s' @ r)"
  by (cases s) (auto simp: parse_int_part_def span_digits_append Let_def split: prod.splits if_splits)

lemma parse_frac_append:
  "parse_frac s = Some (a, s') \<Longrightarrow> follows r \<Longrightarrow> parse_frac (s @ r) = Some (a, s' @ r)"
  by (cases s; cases r)
    (auto simp: parse_frac_def span_digits_append Let_def dest: followsD split: prod.splits if_splits)

lemma parse_exp_append:
  assumes "parse_exp s = Some (a, s')" and "follows r"
  shows "parse_exp (s @ r) = Some (a, s' @ r)"
proof (cases s)
  case Nil
  with assms show ?thesis by (cases r) (auto simp: parse_exp_def dest: followsD)
next
  case (Cons c cs)
  show ?thesis
  proof (cases cs)
    case Nil
    with Cons assms show ?thesis
      by (cases r) (auto simp: parse_exp_def span_digits_def Let_def dest: followsD split: if_splits)
  next
    case (Cons d ds)
    with \<open>s = c # cs\<close> assms show ?thesis
      using span_digits_append [OF assms(2), of "d # ds"] span_digits_append [OF assms(2), of ds]
      by (auto simp: parse_exp_def Let_def split: prod.splits if_splits)
  qed
qed

lemma parse_number_append:
  assumes "parse_number s = Some (a, s')" and "follows r"
  shows "parse_number (s @ r) = Some (a, s' @ r)"
proof -
  let ?sign = "\<lambda>s. case s of [] \<Rightarrow> ([], []) | c # cs \<Rightarrow> if c = CHR ''-'' then ([c], cs) else ([], c # cs)"
  obtain sg s0 where sg: "?sign s = (sg, s0)" by fastforce
  obtain ip s1 fp s2 ep where p: "parse_int_part s0 = Some (ip, s1)" "parse_frac s1 = Some (fp, s2)"
    "parse_exp s2 = Some (ep, s')" "a = sg @ ip @ fp @ ep"
    using assms(1) by (auto simp: parse_number_def sg split: option.splits)
  have "s \<noteq> []" using sg p(1) by (auto simp: parse_int_part_def)
  then have "?sign (s @ r) = (sg, s0 @ r)" using sg by (cases s) (auto split: if_splits)
  then show ?thesis
    using parse_int_part_append [OF p(1) assms(2)] parse_frac_append [OF p(2) assms(2)]
      parse_exp_append [OF p(3) assms(2)] p(4) by (simp add: parse_number_def)
qed

lemma number_lit_head:
  assumes "number_lit s"
  obtains c cs where "s = c # cs" and "c = CHR ''-'' \<or> is_digit c"
proof (cases s)
  case Nil
  with assms show ?thesis by (simp add: number_lit_def parse_number_def parse_int_part_def)
next
  case (Cons c cs)
  have "is_digit (CHR ''0'')" by (simp add: is_digit_def)
  with Cons assms have "c = CHR ''-'' \<or> is_digit c"
    by (auto simp: number_lit_def parse_number_def parse_int_part_def Let_def split: if_splits option.splits)
  with Cons that show ?thesis by blast
qed

text \<open>A canonical value: literals of the grammar, and members with increasing keys.\<close>

definition keys_sorted :: "(string \<times> 'v) list \<Rightarrow> bool" where
  "keys_sorted ms = sorted_wrt (<) (map fst ms)"

primrec canonical :: "json \<Rightarrow> bool" where
  "canonical JNull = True"
| "canonical (JBool b) = True"
| "canonical (JNum n) = number_lit n"
| "canonical (JStr s) = True"
| "canonical (JArr vs) = list_all id (map canonical vs)"
| "canonical (JObj ms) = (keys_sorted ms \<and> list_all snd (map (map_prod id canonical) ms))"

lemma sort_key_keys_sorted: "keys_sorted ms \<Longrightarrow> sort_key fst ms = ms"
  unfolding keys_sorted_def by (metis sort_key_id_if_sorted strict_sorted_imp_sorted)

lemma keys_sorted_map [simp]: "keys_sorted (map (map_prod id f) ms) = keys_sorted ms"
  by (simp add: keys_sorted_def comp_def)

lemma set_member_last:
  "\<forall>k' \<in> set (map fst ms). k' < k \<Longrightarrow> set_member k v ms = ms @ [(k, v)]"
  by (induction ms) (auto simp: not_less)

lemma map_of_members_sorted: "keys_sorted ms \<Longrightarrow> map_of_members ms = ms"
proof -
  have "keys_sorted (acc @ ms) \<Longrightarrow> fold (\<lambda>(k, v). set_member k v) ms acc = acc @ ms" for acc
  proof (induction ms arbitrary: acc)
    case (Cons m ms)
    have "set_member (fst m) (snd m) acc = acc @ [m]"
      using Cons.prems by (cases m) (auto simp: keys_sorted_def sorted_wrt_append intro!: set_member_last)
    with Cons show ?case by (simp add: case_prod_unfold)
  qed simp
  from this [of "[]"] show "keys_sorted ms \<Longrightarrow> map_of_members ms = ms"
    by (simp add: map_of_members_def)
qed

lemma set_member_keys: "fst ` set (set_member k v ms) = insert k (fst ` set ms)"
proof (induction ms)
  case (Cons m ms)
  then show ?case by (cases m) (simp add: insert_commute)
qed simp

lemma keys_sorted_set_member: "keys_sorted ms \<Longrightarrow> keys_sorted (set_member k v ms)"
proof (induction ms)
  case (Cons m ms)
  have "fst m < x" if "x \<in> fst ` set (set_member k v ms)" "fst m < k" for x
    using that Cons.prems by (auto simp: set_member_keys keys_sorted_def)
  with Cons show ?case
    by (cases m) (auto simp: keys_sorted_def dest: order.strict_trans)
qed (simp add: keys_sorted_def)

lemma keys_sorted_map_of_members: "keys_sorted (map_of_members ms)"
proof -
  have "keys_sorted acc \<Longrightarrow> keys_sorted (fold (\<lambda>(k, v). set_member k v) ms acc)" for acc :: "(string \<times> 'a) list"
    by (induction ms arbitrary: acc) (auto simp: keys_sorted_set_member)
  then show ?thesis
    by (simp add: map_of_members_def keys_sorted_def)
qed

text \<open>A member looked up by key; setting one member changes no other.\<close>

definition member :: "string \<Rightarrow> (string \<times> 'v) list \<Rightarrow> 'v option" where
  "member k ms = map_of ms k"

lemma member_set_member [simp]:
  "keys_sorted ms \<Longrightarrow> member k' (set_member k v ms) = (if k' = k then Some v else member k' ms)"
  by (induction ms) (auto simp: member_def keys_sorted_def)

lemma json_space_chars: "json_space c \<Longrightarrow> of_char c < (33 :: nat)"
  by (auto simp: json_space_def)

lemma skip_ws_id: "s \<noteq> [] \<Longrightarrow> \<not> json_space (hd s) \<Longrightarrow> skip_ws s = s"
  by (cases s) (simp_all add: skip_ws_def)

lemma digit_not_special:
  assumes "c = CHR ''-'' \<or> is_digit c"
  shows "\<not> json_space c" "c \<noteq> quote" "c \<noteq> CHR ''{''" "c \<noteq> CHR ''[''" "c \<noteq> CHR ''n''" "c \<noteq> CHR ''t''"
    "c \<noteq> CHR ''f''" "c \<noteq> CHR '']''" "c \<noteq> CHR ''}''"
  using assms by (auto simp: json_space_def quote_def is_digit_def)

text \<open>The first byte of an encoded value is neither white space nor a closing bracket.\<close>

lemma encode_head:
  assumes "canonical v"
  shows "\<exists>c cs. encode v = c # cs \<and> \<not> json_space c \<and> c \<noteq> CHR '']'' \<and> c \<noteq> CHR ''}''"
proof (cases v)
  case (JNum n)
  with assms have "number_lit n" by simp
  then obtain c cs where "n = c # cs" "c = CHR ''-'' \<or> is_digit c" by (rule number_lit_head)
  with JNum digit_not_special [of c] show ?thesis by simp
qed (simp_all add: json_space_def encode_string_def quote_def)

lemma encode_string_nonempty: "encode_string s = quote # tl (encode_string s)"
  by (simp add: encode_string_def)

lemma parse_members_encode:
  assumes "ms \<noteq> []"
    and "\<And>k v n r. (k, v) \<in> set ms \<Longrightarrow> follows r \<Longrightarrow> length (encode v) \<le> n
          \<Longrightarrow> parse_value n (encode v @ r) = Some (v, r)"
    and "\<And>k v. (k, v) \<in> set ms \<Longrightarrow> canonical v"
    and "length (join_comma (map (\<lambda>(k, v). encode_string k @ CHR '':'' # encode v) ms)) \<le> n"
  shows "parse_members (Suc n) (join_comma (map (\<lambda>(k, v). encode_string k @ CHR '':'' # encode v) ms) @ CHR ''}'' # r)
     = Some (map (\<lambda>(k, v). (k, v, encode v)) ms, r)"
  using assms
proof (induction ms arbitrary: n)
  case (Cons m ms)
  obtain k v where m: "m = (k, v)" by (cases m)
  obtain c cs where e: "encode v = c # cs" "\<not> json_space c"
    using Cons.prems(3) [of k v] m encode_head [of v] by auto
  have ws: "skip_ws (encode v @ t) = encode v @ t" for t
    using e by (simp add: skip_ws_id)
  have q: "\<not> json_space quote" "\<not> json_space (CHR '':'')" "\<not> json_space (CHR '','')" "\<not> json_space (CHR ''}'')"
    by (simp_all add: json_space_def quote_def)
  show ?case
  proof (cases ms)
    case Nil
    have "parse_value n (encode v @ CHR ''}'' # r) = Some (v, CHR ''}'' # r)"
      using Cons.prems(2) [of k v "CHR ''}'' # r" n] Cons.prems(4) m Nil
      by (simp add: follows_def join_comma_def)
    then show ?thesis
      using Nil m q ws parse_str_encode [of k "CHR '':'' # encode v @ CHR ''}'' # r"]
      by (simp add: join_comma_def encode_string_def skip_ws_id head_is_def)
  next
    case (Cons m' ms')
    let ?rest = "join_comma (map (\<lambda>(k, v). encode_string k @ CHR '':'' # encode v) ms)"
    let ?r = "?rest @ CHR ''}'' # r"
    have all: "join_comma (map (\<lambda>(k, v). encode_string k @ CHR '':'' # encode v) (m # ms))
        = encode_string k @ CHR '':'' # encode v @ CHR '','' # ?rest"
      using m Cons by (simp add: join_comma_def)
    obtain n' where n: "n = Suc n'" "length ?rest \<le> n'" "length (encode v) \<le> n"
      using Cons.prems(4) unfolding all by (cases n) (auto simp: encode_string_def)
    have v: "parse_value n (encode v @ CHR '','' # ?r) = Some (v, CHR '','' # ?r)"
      using Cons.prems(2) [of k v "CHR '','' # ?r" n] m n(3) by (simp add: follows_def)
    have ms: "parse_members n ?r = Some (map (\<lambda>(k, v). (k, v, encode v)) ms, r)"
      unfolding n(1)
    proof (rule Cons.IH)
      show "ms \<noteq> []" using Cons by simp
      show "length ?rest \<le> n'" by (fact n(2))
    qed (meson Cons.prems(2,3) list.set_intros(2))+
    show ?thesis
      unfolding all
      using m q ws v ms parse_str_encode [of k "CHR '':'' # encode v @ CHR '','' # ?r"]
      by (simp add: encode_string_def skip_ws_id head_is_def)
  qed
qed simp

lemma parse_elems_encode:
  assumes "vs \<noteq> []"
    and "\<And>v n r. v \<in> set vs \<Longrightarrow> follows r \<Longrightarrow> length (encode v) \<le> n
          \<Longrightarrow> parse_value n (encode v @ r) = Some (v, r)"
    and "length (join_comma (map encode vs)) \<le> n"
  shows "parse_elems (Suc n) (join_comma (map encode vs) @ CHR '']'' # r) = Some (vs, r)"
  using assms
proof (induction vs arbitrary: n)
  case (Cons v vs)
  have q: "\<not> json_space (CHR '','')" "\<not> json_space (CHR '']'')"
    by (simp_all add: json_space_def)
  show ?case
  proof (cases vs)
    case Nil
    have "parse_value n (encode v @ CHR '']'' # r) = Some (v, CHR '']'' # r)"
      using Cons.prems(2) [of v "CHR '']'' # r" n] Cons.prems(3) Nil
      by (simp add: follows_def join_comma_def)
    then show ?thesis
      using Nil q by (simp add: join_comma_def skip_ws_id head_is_def)
  next
    case (Cons v' vs')
    let ?rest = "join_comma (map encode vs)"
    let ?r = "?rest @ CHR '']'' # r"
    have all: "join_comma (map encode (v # vs)) = encode v @ CHR '','' # ?rest"
      using Cons by (simp add: join_comma_def)
    obtain n' where n: "n = Suc n'" "length ?rest \<le> n'" "length (encode v) \<le> n"
      using Cons.prems(3) unfolding all by (cases n) auto
    have v: "parse_value n (encode v @ CHR '','' # ?r) = Some (v, CHR '','' # ?r)"
      using Cons.prems(2) [of v "CHR '','' # ?r" n] n(3) by (simp add: follows_def)
    have "parse_elems n ?r = Some (vs, r)"
      unfolding n(1)
    proof (rule Cons.IH)
      show "vs \<noteq> []" using Cons by simp
      show "length ?rest \<le> n'" by (fact n(2))
    qed (meson Cons.prems(2) list.set_intros(2))
    with q v show ?thesis
      unfolding all by (simp add: skip_ws_id head_is_def)
  qed
qed simp

text \<open>The members of an encoded object, without the sorting a canonical object needs none of.\<close>

lemma encode_obj:
  assumes "keys_sorted ms"
  shows "encode (JObj ms) =
    CHR ''{'' # join_comma (map (\<lambda>(k, v). encode_string k @ CHR '':'' # encode v) ms) @ ''}''"
  using assms by (simp add: sort_key_keys_sorted case_prod_unfold comp_def)

lemma parse_value_encode:
  "canonical v \<Longrightarrow> follows r \<Longrightarrow> length (encode v) \<le> n \<Longrightarrow> parse_value n (encode v @ r) = Some (v, r)"
proof (induction v arbitrary: n r)
  case (JNum l)
  then have l: "number_lit l" by simp
  then obtain c cs where c: "l = c # cs" "c = CHR ''-'' \<or> is_digit c" by (rule number_lit_head)
  obtain n' where n: "n = Suc n'" using JNum c by (cases n) auto
  have "parse_number (l @ r) = Some (l, r)"
    using parse_number_append [of l l "[]" r] l JNum.prems(2) by (simp add: number_lit_def)
  then show ?case
    using c digit_not_special [OF c(2)] n
    by (simp add: skip_ws_id head_is_def prefix_Cons)
next
  case (JStr s)
  obtain n' where n: "n = Suc n'" using JStr by (cases n) (auto simp: encode_string_def)
  have "\<not> json_space quote" by (simp add: json_space_def quote_def)
  with n parse_str_encode [of s r] show ?case
    by (simp add: encode_string_def skip_ws_id head_is_def)
next
  case (JArr vs)
  show ?case
  proof (cases "vs = []")
    case True
    with JArr show ?thesis
      by (cases n) (auto simp: join_comma_def skip_ws_id head_is_def json_space_def quote_def)
  next
    case False
    obtain n' where n: "n = Suc (Suc n')" "length (join_comma (map encode vs)) \<le> n'"
      using JArr.prems(3) by (cases n; cases "n - 1") auto
    have "parse_elems (Suc n') (join_comma (map encode vs) @ CHR '']'' # r) = Some (vs, r)"
      using False JArr n(2) by (intro parse_elems_encode) (auto simp: list_all_iff)
    moreover obtain c cs where "join_comma (map encode vs) = c # cs" "\<not> json_space c" "c \<noteq> CHR '']''"
      using False JArr.prems(1) encode_head [of "hd vs"]
      by (cases vs; cases "tl vs") (auto simp: join_comma_def)
    ultimately show ?thesis
      using n(1) by (simp add: skip_ws_id head_is_def json_space_def quote_def)
  qed
next
  case (JObj ms)
  have sorted: "keys_sorted ms" using JObj.prems(1) by simp
  show ?case
  proof (cases "ms = []")
    case True
    with JObj.prems(3) show ?thesis
      by (cases n) (auto simp: join_comma_def skip_ws_id head_is_def json_space_def quote_def)
  next
    case False
    let ?body = "join_comma (map (\<lambda>(k, v). encode_string k @ CHR '':'' # encode v) ms)"
    obtain n' where n: "n = Suc (Suc n')" "length ?body \<le> n'"
      using JObj.prems(3) unfolding encode_obj [OF sorted] by (cases n; cases "n - 1") auto
    have p: "parse_members (Suc n') (?body @ CHR ''}'' # r) = Some (map (\<lambda>(k, v). (k, v, encode v)) ms, r)"
    proof (rule parse_members_encode)
      fix k v n r assume "(k, v) \<in> set ms" "follows r" "length (encode v) \<le> n"
      with JObj.prems(1) show "parse_value n (encode v @ r) = Some (v, r)"
        by (intro JObj.IH) (auto simp: list_all_iff)
    qed (use False JObj.prems(1) n(2) in \<open>auto simp: list_all_iff\<close>)
    obtain cs where "?body = quote # cs"
      using False by (cases ms; cases "tl ms") (auto simp: join_comma_def encode_string_def)
    moreover have "map_of_members (map (\<lambda>(k, v, _). (k, v)) (map (\<lambda>(k, v). (k, v, encode v)) ms)) = ms"
      by (simp add: comp_def case_prod_unfold map_of_members_sorted [OF sorted])
    ultimately show ?thesis
      unfolding encode_obj [OF sorted] using n(1) p
      by (simp add: skip_ws_id head_is_def json_space_def quote_def)
  qed
next
  case (JBool b)
  then show ?case
    by (cases n; cases b) (simp_all add: skip_ws_id head_is_def json_space_def quote_def)
next
  case JNull
  then show ?case
    by (cases n) (simp_all add: skip_ws_id head_is_def json_space_def quote_def)
qed

text \<open>Decoding inverts encoding, also when a line feed ends the document.\<close>

lemma decode_first_encode: "canonical v \<Longrightarrow> decode_first (encode v) = Some v"
  using parse_value_encode [of v "[]" "Suc (length (encode v))"] by (simp add: decode_first_def follows_def)

lemma unmarshal_encode:
  assumes "canonical v" and "r = [] \<or> r = [CHR 0x0A]"
  shows "unmarshal (encode v @ r) = Some v"
proof -
  have "follows r" "skip_ws r = []" using assms(2) by (auto simp: follows_def skip_ws_def json_space_def)
  then show ?thesis
    using parse_value_encode [of v r "Suc (length (encode v @ r))"] assms(1) by (simp add: unmarshal_def)
qed

lemma unmarshal_members_encode:
  assumes "canonical (JObj ms)" and "r = [] \<or> r = [CHR 0x0A]"
  shows "unmarshal_members (encode (JObj ms) @ r) = Some (map (\<lambda>(k, v). (k, v, encode v)) ms)"
proof -
  have sorted: "keys_sorted ms" using assms(1) by simp
  let ?body = "join_comma (map (\<lambda>(k, v). encode_string k @ CHR '':'' # encode v) ms)"
  have u: "unmarshal (encode (JObj ms) @ r) = Some (JObj ms)"
    by (rule unmarshal_encode [OF assms])
  have e: "encode (JObj ms) @ r = CHR ''{'' # ?body @ CHR ''}'' # r"
    by (simp only: encode_obj [OF sorted]) simp
  show ?thesis
  proof (cases "ms = []")
    case True
    with u show ?thesis
      unfolding unmarshal_members_def e
      by (simp add: join_comma_def skip_ws_id head_is_def json_space_def)
  next
    case False
    obtain n where n: "length (encode (JObj ms) @ r) = Suc n" "length ?body \<le> n"
      unfolding e by simp
    have "parse_members (Suc n) (?body @ CHR ''}'' # r) = Some (map (\<lambda>(k, v). (k, v, encode v)) ms, r)"
      by (rule parse_members_encode)
        (use False assms(1) n(2) in \<open>auto simp: list_all_iff intro!: parse_value_encode\<close>)
    moreover obtain cs where "?body = quote # cs"
      using False by (cases ms; cases "tl ms") (auto simp: join_comma_def encode_string_def)
    ultimately show ?thesis
      using u n(1) unfolding unmarshal_members_def e
      by (simp add: skip_ws_id head_is_def json_space_def quote_def)
  qed
qed

section \<open>What the decoder returns\<close>

definition no_digit :: "string \<Rightarrow> bool" where
  "no_digit t = (t = [] \<or> \<not> is_digit (hd t))"

lemma span_digits_stop: "list_all is_digit ds \<Longrightarrow> no_digit t \<Longrightarrow> span_digits (ds @ t) = (ds, t)"
  by (induction ds) (cases t; auto simp: span_digits_def no_digit_def)+

lemma span_digitsD: "span_digits s = (ds, r) \<Longrightarrow> s = ds @ r \<and> list_all is_digit ds \<and> no_digit r"
  by (induction s arbitrary: ds) (auto simp: span_digits_def no_digit_def split: if_splits)

lemma parse_int_part_lit:
  "parse_int_part s = Some (a, r) \<Longrightarrow> no_digit t \<Longrightarrow> parse_int_part (a @ t) = Some (a, t)"
  by (cases s) (auto simp: parse_int_part_def Let_def span_digits_stop dest!: span_digitsD
      split: prod.splits if_splits)

definition exp_head :: "string \<Rightarrow> bool" where
  "exp_head t = (t = [] \<or> hd t = CHR ''e'' \<or> hd t = CHR ''E'')"

lemma exp_head_no_digit: "exp_head t \<Longrightarrow> no_digit t"
  by (auto simp: exp_head_def no_digit_def is_digit_def)

lemma parse_frac_lit:
  assumes "parse_frac s = Some (a, r)" and "exp_head t"
  shows "parse_frac (a @ t) = Some (a, t) \<and> no_digit (a @ t)"
proof (cases "a = []")
  case True
  then show ?thesis using assms(2) exp_head_no_digit [OF assms(2)]
    by (cases t) (auto simp: parse_frac_def exp_head_def dot_def)
next
  case False
  then obtain ds where a: "a = dot # ds" "ds \<noteq> []" "list_all is_digit ds"
    using assms(1) by (cases s) (auto simp: parse_frac_def Let_def dest!: span_digitsD split: prod.splits if_splits)
  then show ?thesis
    using exp_head_no_digit [OF assms(2)]
    by (simp add: parse_frac_def span_digits_stop no_digit_def is_digit_def dot_def)
qed

lemma parse_exp_lit:
  assumes "parse_exp s = Some (a, r)"
  shows "parse_exp a = Some (a, []) \<and> exp_head a"
proof (cases "a = []")
  case False
  obtain c sg ds where a: "a = c # sg @ ds" "c = CHR ''e'' \<or> c = CHR ''E''" "ds \<noteq> []" "list_all is_digit ds"
    "sg = [] \<or> sg = ''+'' \<or> sg = ''-''"
    using assms False
    by (cases s) (auto simp: parse_exp_def Let_def dest!: span_digitsD
        split: prod.splits if_splits list.splits, (metis append_Nil)+)
  obtain d ds' where d: "ds = d # ds'" "is_digit d" using a by (cases ds) auto
  with a span_digits_stop [OF a(4), of "[]"] is_digit_sign [OF d(2)] show ?thesis
    by (auto simp: parse_exp_def exp_head_def no_digit_def)
qed (simp add: parse_exp_def exp_head_def)

lemma parse_number_lit:
  assumes "parse_number s = Some (l, r)"
  shows "number_lit l"
proof -
  let ?sign = "\<lambda>s. case s of [] \<Rightarrow> ([], []) | c # cs \<Rightarrow> if c = CHR ''-'' then ([c], cs) else ([], c # cs)"
  obtain sg s0 where sg: "?sign s = (sg, s0)" by fastforce
  obtain ip s1 fp s2 ep where p: "parse_int_part s0 = Some (ip, s1)" "parse_frac s1 = Some (fp, s2)"
    "parse_exp s2 = Some (ep, r)" "l = sg @ ip @ fp @ ep"
    using assms(1) by (auto simp: parse_number_def sg split: option.splits)
  note ep = parse_exp_lit [OF p(3)]
  note fp = parse_frac_lit [OF p(2) conjunct2 [OF ep]]
  note ip = parse_int_part_lit [OF p(1) conjunct2 [OF fp]]
  have "is_digit (CHR ''0'')" by (simp add: is_digit_def)
  then obtain d ds where "ip = d # ds" "is_digit d"
    using p(1) by (cases s0) (auto simp: parse_int_part_def Let_def split: if_splits prod.splits)
  then have d: "ip = d # ds" "d \<noteq> CHR ''-''" using is_digit_sign [of d] by simp_all
  have "?sign l = (sg, ip @ fp @ ep)"
    using sg p(4) d by (cases s) (auto split: if_splits)
  then show ?thesis
    using ip fp ep p(4) by (simp add: number_lit_def parse_number_def)
qed

lemma snd_map_of_members: "snd ` set (map_of_members ms) \<subseteq> snd ` set ms"
proof -
  have "snd ` set (set_member k v acc) \<subseteq> insert v (snd ` set acc)" for k v and acc :: "(string \<times> 'a) list"
  proof (induction acc)
    case (Cons m acc)
    then show ?case by (cases m) auto
  qed simp
  then have "snd ` set (fold (\<lambda>(k, v). set_member k v) ms acc) \<subseteq> snd ` set ms \<union> snd ` set acc"
    for acc :: "(string \<times> 'a) list"
  proof (induction ms arbitrary: acc)
    case (Cons m ms)
    obtain k v where m: "m = (k, v)" by (cases m)
    have "snd ` set (fold (\<lambda>(k, v). set_member k v) ms (set_member k v acc))
        \<subseteq> snd ` set ms \<union> snd ` set (set_member k v acc)"
      by (rule Cons.IH) (fact Cons.prems)
    also have "\<dots> \<subseteq> snd ` set (m # ms) \<union> snd ` set acc"
      using Cons.prems [of k v acc] m by auto
    finally show ?case by (simp add: m)
  qed simp
  from this [of "[]"] show ?thesis by (simp add: map_of_members_def)
qed

lemma all_members_canonical:
  "list_all snd (map (map_prod id canonical) ms) \<longleftrightarrow> snd ` set ms \<subseteq> Collect canonical"
  by (induction ms) auto

lemma canonical_members:
  assumes "list_all (\<lambda>(k, v, raw). canonical v) ms"
  shows "canonical (JObj (map_of_members (map (\<lambda>(k, v, _). (k, v)) ms)))"
proof -
  have "snd ` set (map (\<lambda>(k, v, _). (k, v)) ms) \<subseteq> Collect canonical"
    using assms by (auto simp: list_all_iff)
  then have "snd ` set (map_of_members (map (\<lambda>(k, v, _). (k, v)) ms)) \<subseteq> Collect canonical"
    by (rule subset_trans [OF snd_map_of_members])
  then show ?thesis
    by (simp only: canonical.simps all_members_canonical keys_sorted_map_of_members)
qed

lemma parse_value_canonical_all:
  "parse_value n s = Some (v, r) \<Longrightarrow> canonical v"
  "parse_elems n s = Some (vs, r) \<Longrightarrow> list_all canonical vs"
  "parse_members n s = Some (ms, r) \<Longrightarrow> list_all (\<lambda>(k, v, raw). canonical v) ms"
proof (induction n s and n s and n s arbitrary: v r and vs r and ms r
    rule: parse_value_parse_elems_parse_members.induct)
  case (2 n s)
  have arr: "list_all canonical vs \<Longrightarrow> canonical (JArr vs)" for vs by (simp add: list_all_iff)
  have "canonical (JObj [])" by (simp add: keys_sorted_def)
  with 2 show ?case
    by (auto simp: Let_def parse_number_lit
        intro: canonical_members arr simp del: canonical.simps(5,6) split: if_splits)
next
  case (4 n s)
  then show ?case by (auto simp: Let_def split: option.splits if_splits)
next
  case (6 n s)
  then show ?case by (auto simp: Let_def split: option.splits if_splits)
qed simp_all

declare parse_value.simps [simp del] parse_elems.simps [simp del] parse_members.simps [simp del]

lemma unmarshal_canonical: "unmarshal s = Some v \<Longrightarrow> canonical v"
  by (auto simp: unmarshal_def dest: parse_value_canonical_all(1) split: option.splits if_splits)

lemma decode_first_canonical: "decode_first s = Some v \<Longrightarrow> canonical v"
  by (auto simp: decode_first_def dest: parse_value_canonical_all(1))

text \<open>
  The fuel of the decoder is enough: a document any amount of fuel decodes is decoded with one
  unit per byte and one more.
\<close>

lemma parse_str_shorter: "parse_str s = Some (x, r) \<Longrightarrow> length r < length s"
proof (induction s arbitrary: x rule: length_induct)
  case (1 s)
  have IH: "parse_str t = Some (y, r) \<Longrightarrow> length t < length s \<Longrightarrow> length r < length t" for t y
    using "1.IH" by blast
  obtain c cs where s: "s = c # cs" using "1.prems" by (cases s) auto
  from "1.prems" show ?case
    unfolding s
    by (auto simp: prepend_def dest!: take_hex4_length take_low_length
        split: if_splits list.splits option.splits)
      (drule IH; simp add: s)+
qed

lemma parse_number_shorter:
  assumes "parse_number s = Some (l, r)"
  shows "length r < length s"
proof -
  let ?sign = "\<lambda>s. case s of [] \<Rightarrow> ([], []) | c # cs \<Rightarrow> if c = CHR ''-'' then ([c], cs) else ([], c # cs)"
  obtain sg s0 where sg: "?sign s = (sg, s0)" by fastforce
  obtain ip s1 fp s2 ep where p: "parse_int_part s0 = Some (ip, s1)" "parse_frac s1 = Some (fp, s2)"
    "parse_exp s2 = Some (ep, r)"
    using assms(1) by (auto simp: parse_number_def sg split: option.splits)
  have "length s0 \<le> length s" using sg by (cases s) (auto split: if_splits)
  moreover have "length s1 < length s0"
    using p(1) by (cases s0) (auto simp: parse_int_part_def Let_def dest!: span_digitsD split: if_splits prod.splits)
  moreover have "length s2 \<le> length s1"
    using p(2) by (cases s1) (auto simp: parse_frac_def Let_def dest!: span_digitsD split: if_splits prod.splits)
  moreover have "length r \<le> length s2"
    using p(3) by (cases s2) (auto simp: parse_exp_def Let_def dest!: span_digitsD
        arg_cong [where f = length] split: if_splits prod.splits list.splits)
  ultimately show ?thesis by simp
qed

lemma skip_ws_le: "length (skip_ws s) \<le> length s"
  by (simp add: skip_ws_def length_dropWhile_le)

lemma head_is_tl: "head_is c t \<Longrightarrow> Suc (length (tl t)) = length t"
  by (cases t) (simp_all add: head_is_def)

lemma prefix_drop_shorter: "prefix p t \<Longrightarrow> p \<noteq> [] \<Longrightarrow> length (drop (length p) t) < length t"
  by (auto simp: prefix_def)

definition raw_value :: "string \<Rightarrow> string \<Rightarrow> string" where
  "raw_value t r = take (length t - length r) t"

lemma parse_membersD:
  assumes "parse_members (Suc n) s = Some (ms, r)"
  shows "\<exists>k r0 v r1. parse_str (tl (skip_ws s)) = Some (k, r0) \<and> head_is quote (skip_ws s)
    \<and> head_is (CHR '':'') (skip_ws r0) \<and> parse_value n (skip_ws (tl (skip_ws r0))) = Some (v, r1)
    \<and> (head_is (CHR ''}'') (skip_ws r1) \<and> r = tl (skip_ws r1)
          \<and> ms = [(k, v, raw_value (skip_ws (tl (skip_ws r0))) r1)]
       \<or> \<not> head_is (CHR ''}'') (skip_ws r1) \<and> head_is (CHR '','') (skip_ws r1)
          \<and> (\<exists>ms'. parse_members n (tl (skip_ws r1)) = Some (ms', r)
                \<and> ms = (k, v, raw_value (skip_ws (tl (skip_ws r0))) r1) # ms'))"
  using assms unfolding parse_members.simps
  by (auto simp: Let_def raw_value_def split: if_splits option.splits)

lemma parse_members_last:
  assumes "head_is quote (skip_ws s)" and "parse_str (tl (skip_ws s)) = Some (k, r0)"
    and "head_is (CHR '':'') (skip_ws r0)" and "parse_value n (skip_ws (tl (skip_ws r0))) = Some (w, r1)"
    and "head_is (CHR ''}'') (skip_ws r1)"
  shows "parse_members (Suc n) s = Some ([(k, w, raw_value (skip_ws (tl (skip_ws r0))) r1)], tl (skip_ws r1))"
  using assms by (simp add: parse_members.simps Let_def raw_value_def)

lemma parse_members_more:
  assumes "head_is quote (skip_ws s)" and "parse_str (tl (skip_ws s)) = Some (k, r0)"
    and "head_is (CHR '':'') (skip_ws r0)" and "parse_value n (skip_ws (tl (skip_ws r0))) = Some (w, r1)"
    and "\<not> head_is (CHR ''}'') (skip_ws r1)" and "head_is (CHR '','') (skip_ws r1)"
    and "parse_members n (tl (skip_ws r1)) = Some (ms, r)"
  shows "parse_members (Suc n) s = Some ((k, w, raw_value (skip_ws (tl (skip_ws r0))) r1) # ms, r)"
  using assms by (simp add: parse_members.simps Let_def raw_value_def)

lemma tl_skip_ws_le: "length (tl (skip_ws s)) \<le> length s"
  using skip_ws_le [of s] by simp

lemma parse_elemsD:
  assumes "parse_elems (Suc n) s = Some (vs, r)"
  shows "\<exists>v r1. parse_value n s = Some (v, r1)
    \<and> (head_is (CHR '']'') (skip_ws r1) \<and> vs = [v] \<and> r = tl (skip_ws r1)
       \<or> \<not> head_is (CHR '']'') (skip_ws r1) \<and> head_is (CHR '','') (skip_ws r1)
          \<and> (\<exists>vs'. parse_elems n (tl (skip_ws r1)) = Some (vs', r) \<and> vs = v # vs'))"
  using assms unfolding parse_elems.simps
  by (auto simp: Let_def split: if_splits option.splits)

lemma parse_shorter_all:
  "(\<forall>s v r. parse_value m s = Some (v, r) \<longrightarrow> length r < length s)
   \<and> (\<forall>s vs r. parse_elems m s = Some (vs, r) \<longrightarrow> length r < length s)
   \<and> (\<forall>s ms r. parse_members m s = Some (ms, r) \<longrightarrow> length r < length s)"
proof (induction m)
  case 0
  show ?case by (simp add: parse_value.simps parse_elems.simps parse_members.simps)
next
  case (Suc n)
  then have v: "\<And>s v r. parse_value n s = Some (v, r) \<Longrightarrow> length r < length s"
    and e: "\<And>s vs r. parse_elems n s = Some (vs, r) \<Longrightarrow> length r < length s"
    and m: "\<And>s ms r. parse_members n s = Some (ms, r) \<Longrightarrow> length r < length s"
    by blast+
  have "length r < length s" if "parse_value (Suc n) s = Some (w, r)" for s w r
  proof -
    define t where "t = skip_ws s"
    have "length t \<le> length s" unfolding t_def by (rule skip_ws_le)
    moreover have "length r < length t"
      using that head_is_tl [of quote t] head_is_tl [of "CHR ''{''" t] head_is_tl [of "CHR ''[''" t]
        tl_skip_ws_le [of "tl t"] skip_ws_le [of "tl t"]
        prefix_drop_shorter [of "''null''" t] prefix_drop_shorter [of "''true''" t]
        prefix_drop_shorter [of "''false''" t]
      unfolding parse_value.simps t_def [symmetric]
      by (auto simp: Let_def dest!: parse_str_shorter parse_number_shorter e m split: if_splits)
    ultimately show ?thesis by simp
  qed
  moreover have "length r < length s" if pe: "parse_elems (Suc n) s = Some (vs, r)" for s vs r
  proof -
    obtain w r1 where p: "parse_value n s = Some (w, r1)"
      "r = tl (skip_ws r1) \<or> (\<exists>vs'. parse_elems n (tl (skip_ws r1)) = Some (vs', r))"
      using parse_elemsD [OF pe] by blast
    have "length r \<le> length (tl (skip_ws r1))"
      using p(2) by (metis e less_imp_le order_refl)
    then show ?thesis using v [OF p(1)] tl_skip_ws_le [of r1] by simp
  qed
  moreover have "length r < length s" if pm: "parse_members (Suc n) s = Some (ms, r)" for s ms r
  proof -
    obtain k r0 w r1 where p: "parse_str (tl (skip_ws s)) = Some (k, r0)"
      "parse_value n (skip_ws (tl (skip_ws r0))) = Some (w, r1)"
      "r = tl (skip_ws r1) \<or> (\<exists>ms'. parse_members n (tl (skip_ws r1)) = Some (ms', r))"
      using parse_membersD [OF pm] by blast
    have "length r1 < length s"
      using parse_str_shorter [OF p(1)] v [OF p(2)] tl_skip_ws_le [of s] tl_skip_ws_le [of r0]
        skip_ws_le [of "tl (skip_ws r0)"] by simp
    moreover have "length r \<le> length (tl (skip_ws r1))"
      using p(3) by (metis m less_imp_le order_refl)
    ultimately show ?thesis using tl_skip_ws_le [of r1] by simp
  qed
  ultimately show ?case by blast
qed

lemmas parse_value_shorter = parse_shorter_all [THEN conjunct1, rule_format]
lemmas parse_elems_shorter = parse_shorter_all [THEN conjunct2, THEN conjunct1, rule_format]
lemmas parse_members_shorter = parse_shorter_all [THEN conjunct2, THEN conjunct2, rule_format]

lemma decoder_fuel_all:
  "(\<forall>n s v r. parse_value m s = Some (v, r) \<longrightarrow> length s \<le> n + length r \<longrightarrow> parse_value n s = Some (v, r))
   \<and> (\<forall>n s vs r. parse_elems m s = Some (vs, r) \<longrightarrow> length s \<le> n + length r \<longrightarrow> parse_elems n s = Some (vs, r))
   \<and> (\<forall>n s ms r. parse_members m s = Some (ms, r) \<longrightarrow> length s \<le> n + length r \<longrightarrow> parse_members n s = Some (ms, r))"
proof (induction m)
  case 0
  show ?case by (simp add: parse_value.simps parse_elems.simps parse_members.simps)
next
  case (Suc m)
  then have v: "\<And>n s v r. parse_value m s = Some (v, r) \<Longrightarrow> length s \<le> n + length r \<Longrightarrow> parse_value n s = Some (v, r)"
    and e: "\<And>n s vs r. parse_elems m s = Some (vs, r) \<Longrightarrow> length s \<le> n + length r \<Longrightarrow> parse_elems n s = Some (vs, r)"
    and ms: "\<And>n s ms r. parse_members m s = Some (ms, r) \<Longrightarrow> length s \<le> n + length r \<Longrightarrow> parse_members n s = Some (ms, r)"
    by blast+
  have "parse_value n s = Some (w, r)"
    if p: "parse_value (Suc m) s = Some (w, r)" and n: "length s \<le> n + length r" for n s w r
  proof -
    obtain n' where n': "n = Suc n'" using parse_value_shorter [OF p] n by (cases n) auto
    define t where "t = skip_ws s"
    have t: "length t \<le> length s" unfolding t_def by (rule skip_ws_le)
    have u: "length (skip_ws (tl t)) \<le> n' + length r" if "head_is c t" for c
      using skip_ws_le [of "tl t"] head_is_tl [OF that] t n n' by simp
    have "parse_elems n' (skip_ws (tl t)) = Some (vs, r)" if "head_is c t" "parse_elems m (skip_ws (tl t)) = Some (vs, r)" for c vs
      using e [OF that(2)] u [OF that(1)] by blast
    moreover have "parse_members n' (skip_ws (tl t)) = Some (xs, r)" if "head_is c t" "parse_members m (skip_ws (tl t)) = Some (xs, r)" for c xs
      using ms [OF that(2)] u [OF that(1)] by blast
    ultimately show ?thesis
      using p unfolding n' parse_value.simps t_def [symmetric]
      by (auto simp: Let_def split: if_splits)
  qed
  moreover have "parse_elems n s = Some (vs, r)"
    if p: "parse_elems (Suc m) s = Some (vs, r)" and n: "length s \<le> n + length r" for n s vs r
  proof -
    obtain n' where n': "n = Suc n'" using parse_elems_shorter [OF p] n by (cases n) auto
    obtain w r1 where q: "parse_value m s = Some (w, r1)"
      "head_is (CHR '']'') (skip_ws r1) \<and> vs = [w] \<and> r = tl (skip_ws r1)
       \<or> \<not> head_is (CHR '']'') (skip_ws r1) \<and> head_is (CHR '','') (skip_ws r1)
          \<and> (\<exists>vs'. parse_elems m (tl (skip_ws r1)) = Some (vs', r) \<and> vs = w # vs')"
      using parse_elemsD [OF p] by blast
    have r1: "Suc (length (tl (skip_ws r1))) \<le> length r1"
      using q(2) skip_ws_le [of r1] by (auto dest: head_is_tl)
    have "length r \<le> length (tl (skip_ws r1))"
      using q(2) by (metis less_imp_le order_refl parse_elems_shorter)
    then have "parse_value n' s = Some (w, r1)"
      using v [OF q(1), of n'] n n' r1 by simp
    moreover have "parse_elems m (tl (skip_ws r1)) = Some (vs', r) \<Longrightarrow> parse_elems n' (tl (skip_ws r1)) = Some (vs', r)" for vs'
      using e [of "tl (skip_ws r1)" vs' r n'] n n' r1 parse_value_shorter [OF q(1)] by simp
    ultimately show ?thesis
      using q(2) unfolding n' by (auto simp: parse_elems.simps Let_def)
  qed
  moreover have "parse_members n s = Some (xs, r)"
    if p: "parse_members (Suc m) s = Some (xs, r)" and n: "length s \<le> n + length r" for n s xs r
  proof -
    obtain n' where n': "n = Suc n'" using parse_members_shorter [OF p] n by (cases n) auto
    obtain k r0 w r1 where q: "parse_str (tl (skip_ws s)) = Some (k, r0)" "head_is quote (skip_ws s)"
      "head_is (CHR '':'') (skip_ws r0)" "parse_value m (skip_ws (tl (skip_ws r0))) = Some (w, r1)"
      "head_is (CHR ''}'') (skip_ws r1) \<and> r = tl (skip_ws r1)
          \<and> xs = [(k, w, raw_value (skip_ws (tl (skip_ws r0))) r1)]
       \<or> \<not> head_is (CHR ''}'') (skip_ws r1) \<and> head_is (CHR '','') (skip_ws r1)
          \<and> (\<exists>ms'. parse_members m (tl (skip_ws r1)) = Some (ms', r)
                \<and> xs = (k, w, raw_value (skip_ws (tl (skip_ws r0))) r1) # ms')"
      using parse_membersD [OF p] by blast
    define t where "t = skip_ws (tl (skip_ws r0))"
    have t: "length t < length s"
      using parse_str_shorter [OF q(1)] tl_skip_ws_le [of s] tl_skip_ws_le [of r0]
        skip_ws_le [of "tl (skip_ws r0)"] by (simp add: t_def)
    have r1: "Suc (length (tl (skip_ws r1))) \<le> length r1"
      using q(5) skip_ws_le [of r1] by (auto dest: head_is_tl)
    have "length r \<le> length (tl (skip_ws r1))"
      using q(5) by (metis less_imp_le order_refl parse_members_shorter)
    then have w: "parse_value n' (skip_ws (tl (skip_ws r0))) = Some (w, r1)"
      using v [OF q(4), of n'] n n' r1 t by (simp add: t_def)
    have m': "parse_members n' (tl (skip_ws r1)) = Some (ms', r)"
      if "parse_members m (tl (skip_ws r1)) = Some (ms', r)" for ms'
      using ms [OF that, of n'] n n' r1 t parse_value_shorter [OF q(4)] by (simp add: t_def)
    show ?thesis
      using q(5)
    proof (elim disjE conjE exE)
      assume "head_is (CHR ''}'') (skip_ws r1)" "r = tl (skip_ws r1)"
        "xs = [(k, w, raw_value (skip_ws (tl (skip_ws r0))) r1)]"
      then show ?thesis unfolding n' by (simp only: parse_members_last [OF q(2,1,3) w])
    next
      fix ms'
      assume "\<not> head_is (CHR ''}'') (skip_ws r1)" "head_is (CHR '','') (skip_ws r1)"
        "parse_members m (tl (skip_ws r1)) = Some (ms', r)"
        "xs = (k, w, raw_value (skip_ws (tl (skip_ws r0))) r1) # ms'"
      then show ?thesis unfolding n' using parse_members_more [OF q(2,1,3) w] m' by metis
    qed
  qed
  ultimately show ?case by blast
qed

text \<open>So the decoder refuses a document only when no amount of fuel decodes it.\<close>

lemma decoder_fuel_enough: "parse_value m s = Some (v, r) \<Longrightarrow> parse_value (Suc (length s)) s = Some (v, r)"
  by (rule decoder_fuel_all [of m, THEN conjunct1, rule_format], assumption, linarith)

section \<open>Printed integers are literals\<close>

lemma fmt_nat_head: "0 < n \<Longrightarrow> \<exists>c cs. fmt_nat n = c # cs \<and> is_digit c \<and> c \<noteq> CHR ''0'' \<and> list_all is_digit cs"
proof (induction n rule: fmt_nat.induct)
  case (1 n)
  show ?case
  proof (cases "n < 10")
    case True
    have "digit_char n \<noteq> CHR ''0''"
      using digit_char_val [OF True] 1(2) by (auto simp: digit_val_def)
    with True digit_char_val [OF True] show ?thesis by (subst fmt_nat.simps) simp
  next
    case False
    then have "0 < n div 10" by (simp add: div_greater_zero_iff)
    with False obtain c cs where "fmt_nat (n div 10) = c # cs" "is_digit c" "c \<noteq> CHR ''0''" "list_all is_digit cs"
      using 1(1) by auto
    with False digit_char_val [of "n mod 10"] show ?thesis by (subst fmt_nat.simps) simp
  qed
qed

lemma parse_int_part_fmt_nat: "parse_int_part (fmt_nat n) = Some (fmt_nat n, [])"
proof (cases "n = 0")
  case True
  have "char_of (48 :: nat) = CHR ''0''" by (simp flip: of_char_eq_iff [where 'a = nat])
  then have "fmt_nat 0 = ''0''" by (subst fmt_nat.simps) (simp add: digit_char_def)
  with True show ?thesis by (simp add: parse_int_part_def)
next
  case False
  then obtain c cs where c: "fmt_nat n = c # cs" "is_digit c" "c \<noteq> CHR ''0''" "list_all is_digit cs"
    using fmt_nat_head by blast
  with span_digits_stop [of cs "[]"] show ?thesis
    by (simp add: parse_int_part_def no_digit_def)
qed

lemma number_lit_fmt_int [simp]: "number_lit (fmt_int i)"
proof -
  obtain c cs where c: "fmt_nat (nat i) = c # cs" "is_digit c"
    using fmt_nat_digits [of "nat i"] by (cases "fmt_nat (nat i)") auto
  show ?thesis
    using parse_int_part_fmt_nat [of "nat i"] parse_int_part_fmt_nat [of "nat (- i)"] is_digit_sign [OF c(2)] c
    by (auto simp: number_lit_def parse_number_def fmt_int_def parse_frac_def parse_exp_def Let_def)
qed

section \<open>Canonical text\<close>

text \<open>\<open>storage.canonicaliseJSON\<close>: \<^term>\<open>None\<close> is a document the decoder refuses.\<close>

definition canonicalise :: "string \<Rightarrow> string option" where
  "canonicalise raw = map_option encode (decode_first raw)"

lemma encode_inj: "canonical v \<Longrightarrow> canonical w \<Longrightarrow> encode v = encode w \<longleftrightarrow> v = w"
  by (metis decode_first_encode option.inject)

section \<open>Properties\<close>


definition sample_json :: json where
  "sample_json = JObj [(''a'', JArr [JNum ''-1.5e3'', JNull]), (''b'', JStr [quote, CHR 0x0A])]"


text \<open>
  The canonical form a save's checksum is taken of depends on the value alone: it is a
  fixed point of \<open>canonicaliseJSON\<close>, and two documents have the same canonical form exactly
  when they decode to the same value, whatever their white space, escapes and member order.
\<close>

theorem canonical_form_spec:
  "(canonicalise a = Some c \<longrightarrow> canonicalise c = Some c)
   \<and> (canonicalise a = canonicalise b \<longleftrightarrow> decode_first a = decode_first b)"
proof
  show "canonicalise a = Some c \<longrightarrow> canonicalise c = Some c"
    by (auto simp: canonicalise_def decode_first_canonical decode_first_encode)
  show "canonicalise a = canonicalise b \<longleftrightarrow> decode_first a = decode_first b"
    by (cases "decode_first a"; cases "decode_first b")
      (auto simp: canonicalise_def encode_inj decode_first_canonical)
qed

theorem canonical_form_spec_witness:
  "canonicalise ''{ \"b\" : 1, \"a\" : [ ] }'' = Some ''{\"a\":[],\"b\":1}''
   \<and> canonicalise ''{\"a\":[],\"b\":1}'' = Some ''{\"a\":[],\"b\":1}''"
proof -
  have "canonicalise ''{ \"b\" : 1, \"a\" : [ ] }'' = Some ''{\"a\":[],\"b\":1}''" by code_simp
  then show ?thesis
    using canonical_form_spec [of "''{ \"b\" : 1, \"a\" : [ ] }''" "''{\"a\":[],\"b\":1}''"] by blast
qed

end
