(* ===== verification/KobraErr.thy ===== *)
theory KobraErr
  imports Json
begin

text \<open>
  \<open>launcher/internal/kobraerr\<close>: the client-facing error taxonomy, the JSON envelope and the one
  function that writes it. A Go \<open>error\<close> is a plain error, an error wrapping another one, or a
  \<open>*KobraError\<close>, which may itself wrap its internal cause.
\<close>

datatype go_error =
    PlainError string
  | WrapError string go_error
  | Kobra kobra_error
and kobra_error =
  KobraError (ke_code: string) (ke_http: int) (ke_msg: string) (ke_detail: "(string, json) gmap")
    (ke_cause: "go_error option") (ke_retry: int) (ke_wire: "(string, json) gmap")

section \<open>Codes\<close>

definition CodeBadIdentifier :: string where "CodeBadIdentifier = ''bad_identifier''"
definition CodeMalformedBody :: string where "CodeMalformedBody = ''malformed_body''"
definition CodeNoSession :: string where "CodeNoSession = ''no_session''"
definition CodeBadOrigin :: string where "CodeBadOrigin = ''bad_origin''"
definition CodeBadCSRF :: string where "CodeBadCSRF = ''bad_csrf''"
definition CodeNotFound :: string where "CodeNotFound = ''not_found''"
definition CodeConflict :: string where "CodeConflict = ''conflict''"
definition CodeTooLarge :: string where "CodeTooLarge = ''too_large''"
definition CodeBadContentType :: string where "CodeBadContentType = ''bad_content_type''"
definition CodeRateLimited :: string where "CodeRateLimited = ''rate_limited''"
definition CodeIO :: string where "CodeIO = ''io_error''"
definition CodeReadOnly :: string where "CodeReadOnly = ''read_only''"

section \<open>The error value\<close>

fun error_text :: "go_error \<Rightarrow> string" and kobra_text :: "kobra_error \<Rightarrow> string" where
  "error_text (PlainError s) = s"
| "error_text (WrapError s e) = s @ '': '' @ error_text e"
| "error_text (Kobra k) = kobra_text k"
| "kobra_text (KobraError c h m d cause r w) =
     (case cause of
        Some e \<Rightarrow> c @ '': '' @ m @ '': '' @ error_text e
      | None \<Rightarrow> c @ '': '' @ m)"

definition unwrap :: "kobra_error \<Rightarrow> go_error option" where
  "unwrap k = ke_cause k"

text \<open>\<open>errors.As\<close> for \<open>*KobraError\<close>: the first one along the chain of wrapped errors.\<close>

primrec as_kobra :: "go_error \<Rightarrow> kobra_error option" where
  "as_kobra (PlainError s) = None"
| "as_kobra (WrapError s e) = as_kobra e"
| "as_kobra (Kobra k) = Some k"

section \<open>Constructors\<close>

definition BadIdentifier :: "string \<Rightarrow> go_error option \<Rightarrow> kobra_error" where
  "BadIdentifier field cause =
     KobraError CodeBadIdentifier 400
       ''That name is not allowed. Use lowercase letters, digits, dots, dashes and underscores, starting with a letter or digit.''
       [(''field'', JStr field)] cause 0 []"

definition MalformedBody :: "go_error option \<Rightarrow> kobra_error" where
  "MalformedBody cause =
     KobraError CodeMalformedBody 400 ''The request body was not valid JSON for this endpoint.'' [] cause 0 []"

definition MalformedField :: "string \<Rightarrow> string \<Rightarrow> go_error option \<Rightarrow> kobra_error" where
  "MalformedField field msg cause =
     KobraError CodeMalformedBody 400 msg [(''field'', JStr field)] cause 0 []"

definition NoSession :: "go_error option \<Rightarrow> kobra_error" where
  "NoSession cause =
     KobraError CodeNoSession 401 ''This page has no active session. Reload the game from the launcher.'' [] cause 0 []"

definition BadOrigin :: "string \<Rightarrow> go_error option \<Rightarrow> kobra_error" where
  "BadOrigin origin cause =
     KobraError CodeBadOrigin 403 ''The request came from a different origin.'' [] cause 0 []"

definition BadCSRF :: "go_error option \<Rightarrow> kobra_error" where
  "BadCSRF cause =
     KobraError CodeBadCSRF 403 ''The request was missing a valid CSRF token.'' [] cause 0 []"

definition NotFound :: "string \<Rightarrow> kobra_error" where
  "NotFound what =
     KobraError CodeNotFound 404 ''That item does not exist.'' [] (Some (PlainError (what @ '' not found''))) 0 []"

definition Conflict :: "string \<Rightarrow> (string, json) gmap \<Rightarrow> kobra_error" where
  "Conflict msg detail = KobraError CodeConflict 409 msg detail None 0 []"

definition WriterHeld :: "string \<Rightarrow> kobra_error" where
  "WriterHeld current = Conflict ''Another tab is currently saving.'' [(''current_writer'', JStr current)]"

definition TooLarge :: "int \<Rightarrow> kobra_error" where
  "TooLarge limit =
     KobraError CodeTooLarge 413 ''That request was larger than the launcher accepts.''
       [(''max_request_bytes'', JNum (fmt_int limit))] None 0 []"

definition LengthRequired :: kobra_error where
  "LengthRequired = KobraError CodeTooLarge 411 ''The request must declare its Content-Length.'' [] None 0 []"

definition BadContentType :: "string \<Rightarrow> kobra_error" where
  "BadContentType got =
     KobraError CodeBadContentType 415 ''That content type is not accepted here.''
       [(''expected'', JStr ''application/json'')] (Some (PlainError (''got content type '' @ got))) 0 []"

definition MethodNotAllowed :: "string \<Rightarrow> kobra_error" where
  "MethodNotAllowed allow =
     KobraError CodeBadIdentifier 405 ''That method is not allowed for this endpoint.''
       [(''allow'', JStr allow)] None 0 []"

definition RateLimited :: "string \<Rightarrow> int \<Rightarrow> kobra_error" where
  "RateLimited kind retry =
     KobraError CodeRateLimited 429
       ''Too many requests in a short time. The launcher is throttling this tab.''
       [(''kind'', JStr kind)] None retry []"

definition IO_error :: "string \<Rightarrow> (string, json) gmap \<Rightarrow> go_error option \<Rightarrow> kobra_error" where
  "IO_error msg detail cause = KobraError CodeIO 500 msg detail cause 0 []"

definition InsufficientSpace :: kobra_error where
  "InsufficientSpace =
     IO_error ''The disk is full. Free some space and try again.'' [(''reason'', JStr ''insufficient_space'')] None"

definition OutOfRoot :: "string \<Rightarrow> kobra_error" where
  "OutOfRoot what =
     IO_error ''The launcher refused to read or write that location.'' [(''reason'', JStr ''out_of_root'')]
       (Some (PlainError (''path escaped data root for '' @ what)))"

definition ReadOnly :: "string \<Rightarrow> kobra_error" where
  "ReadOnly reason =
     KobraError CodeReadOnly 503 ''The game cannot save because its data folder is read-only.''
       [(''reason'', JStr reason)] None 0 []"

definition Draining :: kobra_error where
  "Draining = KobraError CodeReadOnly 503 ''The launcher is shutting down.'' [] None 0 []"

section \<open>The envelope\<close>

definition reserved_key :: "string \<Rightarrow> bool" where
  "reserved_key k = (k \<in> {''error'', ''message'', ''detail'', ''retry_after_seconds''})"

definition put_wire :: "string \<times> json \<Rightarrow> (string, json) gmap \<Rightarrow> (string, json) gmap" where
  "put_wire kv out = (if reserved_key (fst kv) then out else put (fst kv) (snd kv) out)"

definition envelope :: "kobra_error \<Rightarrow> (string, json) gmap" where
  "envelope k =
     (let out0 = put ''message'' (JStr (ke_msg k)) (put ''error'' (JStr (ke_code k)) []);
          out1 = (if 0 < length (ke_detail k) then put ''detail'' (JObj (ke_detail k)) out0 else out0);
          out2 = fold put_wire (ke_wire k) out1
      in if 0 < ke_retry k then put ''retry_after_seconds'' (JNum (fmt_int (ke_retry k))) out2 else out2)"

text \<open>\<open>Envelope\<close>; every value the launcher puts in can be marshalled.\<close>

definition envelope_bytes :: "kobra_error \<Rightarrow> string" where
  "envelope_bytes k = encode (JObj (envelope k))"

definition from_error :: "go_error option \<Rightarrow> kobra_error option" where
  "from_error err =
     (case err of
        None \<Rightarrow> None
      | Some e \<Rightarrow>
          (case as_kobra e of
             Some k \<Rightarrow> Some k
           | None \<Rightarrow> Some (KobraError CodeIO 500 ''The launcher could not complete the request.'' [] (Some e) 0 [])))"

record http_response =
  resp_status :: int
  resp_headers :: "(string, string) gmap"
  resp_body :: string

definition write_envelope :: "(string, string) gmap \<Rightarrow> go_error option \<Rightarrow> http_response" where
  "write_envelope headers err =
     (let k = (case from_error err of
                 Some k \<Rightarrow> k
               | None \<Rightarrow> IO_error ''The launcher could not complete the request.'' [] None);
          status = (if ke_http k = 0 then 500 else ke_http k);
          h1 = put ''Content-Type'' ''application/json'' headers;
          h2 = (if 0 < ke_retry k then put ''Retry-After'' (fmt_int (ke_retry k)) h1 else h1)
      in \<lparr>resp_status = status, resp_headers = h2, resp_body = envelope_bytes k\<rparr>)"

lemmas constructor_defs = BadIdentifier_def MalformedBody_def MalformedField_def NoSession_def
  BadOrigin_def BadCSRF_def NotFound_def Conflict_def WriterHeld_def TooLarge_def LengthRequired_def
  BadContentType_def MethodNotAllowed_def RateLimited_def IO_error_def InsufficientSpace_def
  OutOfRoot_def ReadOnly_def Draining_def

lemma wf_map_envelope: "wf_map (envelope k)"
proof -
  have "wf_map m \<Longrightarrow> wf_map (fold put_wire ws m)" for ws m
    by (induction ws arbitrary: m) (auto simp: put_wire_def)
  then show ?thesis by (simp add: envelope_def Let_def)
qed

lemma get_fold_put_wire:
  "wf_map ws \<Longrightarrow> get (fold put_wire ws m) k =
     (if reserved_key k then get m k else case get ws k of Some v \<Rightarrow> Some v | None \<Rightarrow> get m k)"
proof (induction ws arbitrary: m)
  case (Cons a ws)
  then have "wf_map ws" and "get ws (fst a) = None"
    by (auto simp: wf_map_def get_def map_of_eq_None_iff)
  with Cons.IH show ?case
    by (cases a) (auto simp: put_wire_def split: option.splits)
qed simp

section \<open>Properties\<close>

text \<open>
  The envelope holds what its error says and nothing else: \<open>error\<close> and \<open>message\<close> are the
  code and message, \<open>detail\<close> and \<open>retry_after_seconds\<close> are present exactly when set, and every
  other key comes from \<open>Wire\<close>, which never overwrites one of the four. The internal cause has no
  influence on it.
\<close>

theorem envelope_spec:
  assumes "wf_map (ke_wire k)"
  shows "get (envelope k) key =
    (if key = ''error'' then Some (JStr (ke_code k))
     else if key = ''message'' then Some (JStr (ke_msg k))
     else if key = ''detail'' then (if ke_detail k = [] then None else Some (JObj (ke_detail k)))
     else if key = ''retry_after_seconds'' then (if 0 < ke_retry k then Some (JNum (fmt_int (ke_retry k))) else None)
     else get (ke_wire k) key)"
  using get_fold_put_wire [OF assms]
  by (simp add: envelope_def Let_def reserved_key_def split: option.splits)

theorem envelope_spec_witness:
  "get (envelope (KobraError CodeConflict 409 ''m'' [] (Some (PlainError ''/home/u'')) 0
      [(''error'', JStr ''x''), (''slot'', JStr ''a'')])) ''error'' = Some (JStr CodeConflict)"
  by (subst envelope_spec) (simp_all add: wf_map_def)

text \<open>
  An error outside the taxonomy leaks nothing: the response to any error that wraps no
  \<open>*KobraError\<close>, whatever its text, is the response to a nil error, a generic 500; and a
  \<open>*KobraError\<close> wrapped at any depth gives the same response as by itself.
\<close>

theorem write_envelope_no_leak:
  "(as_kobra e = None \<longrightarrow> write_envelope h (Some e) = write_envelope h None)
   \<and> (\<forall>k. as_kobra e = Some k \<longrightarrow> write_envelope h (Some e) = write_envelope h (Some (Kobra k)))"
  by (auto simp: write_envelope_def from_error_def IO_error_def envelope_bytes_def envelope_def)

theorem write_envelope_no_leak_witness:
  "write_envelope [] (Some (WrapError ''open'' (PlainError ''/home/u/secret''))) = write_envelope [] None"
  using write_envelope_no_leak [of "WrapError ''open'' (PlainError ''/home/u/secret'')" "[]"] by simp

definition taxonomy :: "string \<Rightarrow> string \<Rightarrow> go_error option \<Rightarrow> (string, json) gmap \<Rightarrow> int \<Rightarrow> kobra_error set" where
  "taxonomy s t c d n =
     {BadIdentifier s c, MalformedBody c, MalformedField s t c, NoSession c, BadOrigin s c, BadCSRF c,
      NotFound s, Conflict s d, WriterHeld s, TooLarge n, LengthRequired, BadContentType s,
      MethodNotAllowed s, RateLimited s n, IO_error s d c, InsufficientSpace, OutOfRoot s, ReadOnly s, Draining}"

text \<open>
  Every error the constructors build is a client or server error of HTTP whose \<open>Retry-After\<close>
  header is set exactly for a positive delay, with the delay the envelope carries.
\<close>

theorem taxonomy_response:
  assumes "k \<in> taxonomy s t c d n" and "get h ''Retry-After'' = None"
  shows "400 \<le> resp_status (write_envelope h (Some (Kobra k))) \<and> resp_status (write_envelope h (Some (Kobra k))) < 600
    \<and> get (resp_headers (write_envelope h (Some (Kobra k)))) ''Retry-After''
        = (if 0 < ke_retry k then Some (fmt_int (ke_retry k)) else None)
    \<and> (0 < ke_retry k \<longrightarrow> ke_http k = 429)"
proof -
  have "400 \<le> ke_http k \<and> ke_http k < 600 \<and> (0 < ke_retry k \<longrightarrow> ke_http k = 429)"
    using assms(1) unfolding taxonomy_def by (elim insertE emptyE) (simp_all add: constructor_defs)
  with assms(2) show ?thesis
    by (auto simp: write_envelope_def from_error_def Let_def)
qed

theorem taxonomy_response_witness:
  "get (resp_headers (write_envelope [] (Some (Kobra (RateLimited ''writes'' 12))))) ''Retry-After''
     = Some (fmt_int 12)"
  using taxonomy_response [of "RateLimited ''writes'' 12" "''writes''" "[]" None "[]" 12 "[]"]
  by (simp add: taxonomy_def RateLimited_def)

end
