(* ===== verification/Session.thy ===== *)
theory Session
  imports KobraErr
begin

text \<open>
  \<open>launcher/internal/session\<close>: bootstrap tokens, sessions, the CSRF check, the writer role and
  the per-session quota. The store's mutex makes every operation atomic, so an operation is a
  function on the store. Callers keep \<open>*Session\<close> pointers after a session is evicted: sessions
  live in a heap of references, and the table maps a cookie to a reference. Times and durations
  are nanoseconds; the clock and the random bytes are parameters of each operation.
\<close>

section \<open>Secrets\<close>

definition b64_char :: "nat \<Rightarrow> char" where
  "b64_char n =
     (if n < 26 then char_of (65 + n) else if n < 52 then char_of (71 + n)
      else if n < 62 then char_of (n - 4) else if n = 62 then CHR ''-'' else CHR ''_'')"

text \<open>\<open>base64.RawURLEncoding\<close>.\<close>

fun b64url :: "nat list \<Rightarrow> string" where
  "b64url [] = []"
| "b64url [a] = [b64_char (a div 4), b64_char (a mod 4 * 16)]"
| "b64url [a, b] = [b64_char (a div 4), b64_char (a mod 4 * 16 + b div 16), b64_char (b mod 16 * 4)]"
| "b64url (a # b # c # r) =
     b64_char (a div 4) # b64_char (a mod 4 * 16 + b div 16) # b64_char (b mod 16 * 4 + c div 64)
       # b64_char (c mod 64) # b64url r"

definition secret_bytes :: nat where "secret_bytes = 32"

text \<open>\<open>randomSecret\<close> on what \<open>crypto/rand\<close> returned: its bytes, or nothing when it failed.\<close>

definition random_secret :: "nat list option \<Rightarrow> string option" where
  "random_secret raw = map_option b64url raw"

definition rand_ok :: "nat list option \<Rightarrow> bool" where
  "rand_ok raw = (case raw of None \<Rightarrow> True | Some bs \<Rightarrow> length bs = secret_bytes \<and> (\<forall>b \<in> set bs. b < 256))"

definition short_id :: "string \<Rightarrow> string" where
  "short_id sid = (if length sid \<le> 4 then sid else take 4 sid)"

section \<open>State\<close>

type_synonym time = int

definition default_bootstrap_ttl :: int where "default_bootstrap_ttl = 120 * second"
definition default_session_ttl :: int where "default_session_ttl = 8 * 3600 * second"
definition default_inactivity :: int where "default_inactivity = 30 * 60 * second"
definition default_max_sessions :: int where "default_max_sessions = 16"
definition default_writes_per_minute :: int where "default_writes_per_minute = 100"
definition default_bytes_per_minute :: int where "default_bytes_per_minute = 64 * 1048576"
definition quota_window :: int where "quota_window = 60 * second"

text \<open>A \<open>Session\<close>; \<^term>\<open>None\<close> is the zero time of an unset quota window.\<close>

record session =
  sess_id :: string
  csrf :: string
  created :: time
  last_active :: time
  is_writer :: bool
  window_start :: "time option"
  writes :: int
  bytes :: int

record bootstrap_token =
  tok_created :: time
  tok_used :: bool

type_synonym sref = nat

datatype severity = Info | Warn

record event =
  ev_level :: severity
  ev_name :: string
  ev_fields :: "(string \<times> string) list"

record store =
  heap :: "session list"
  sessions :: "(string, sref) gmap"
  tokens :: "(string, bootstrap_token) gmap"
  writer_id :: string
  bootstrap_ttl :: int
  session_ttl :: int
  inactivity :: int
  max_sessions :: int
  logging :: bool
  events :: "event list"

record options =
  opt_bootstrap_ttl :: int
  opt_session_ttl :: int
  opt_inactivity :: int
  opt_max_sessions :: int
  opt_logger :: bool

definition default_if_zero :: "int \<Rightarrow> int \<Rightarrow> int" where
  "default_if_zero d v = (if v = 0 then d else v)"

definition new_store :: "options \<Rightarrow> store" where
  "new_store o' =
     \<lparr>heap = [], sessions = [], tokens = [], writer_id = [],
      bootstrap_ttl = default_if_zero default_bootstrap_ttl (opt_bootstrap_ttl o'),
      session_ttl = default_if_zero default_session_ttl (opt_session_ttl o'),
      inactivity = default_if_zero default_inactivity (opt_inactivity o'),
      max_sessions = (if opt_max_sessions o' \<le> 0 then default_max_sessions else opt_max_sessions o'),
      logging = opt_logger o', events = []\<rparr>"

definition emit :: "severity \<Rightarrow> string \<Rightarrow> (string \<times> string) list \<Rightarrow> store \<Rightarrow> store" where
  "emit lv name fs s =
     (if logging s then s\<lparr>events := events s @ [\<lparr>ev_level = lv, ev_name = name, ev_fields = fs\<rparr>]\<rparr> else s)"

definition deref :: "store \<Rightarrow> sref \<Rightarrow> session" where
  "deref s r = heap s ! r"

definition update_session :: "sref \<Rightarrow> (session \<Rightarrow> session) \<Rightarrow> store \<Rightarrow> store" where
  "update_session r f s = s\<lparr>heap := (heap s)[r := f (heap s ! r)]\<rparr>"

section \<open>Eviction\<close>

definition reason_expired :: string where "reason_expired = ''expired''"
definition reason_inactive :: string where "reason_inactive = ''inactive''"
definition reason_unknown :: string where "reason_unknown = ''unknown''"
definition reason_used :: string where "reason_used = ''used''"
definition reason_capacity :: string where "reason_capacity = ''capacity''"

definition dead_reason :: "store \<Rightarrow> time \<Rightarrow> session \<Rightarrow> string" where
  "dead_reason s now x =
     (if session_ttl s \<le> now - created x then reason_expired
      else if inactivity s \<le> now - last_active x then reason_inactive
      else [])"

definition live :: "store \<Rightarrow> time \<Rightarrow> session \<Rightarrow> bool" where
  "live s now x = (dead_reason s now x = [])"

definition delete_session :: "string \<Rightarrow> store \<Rightarrow> store" where
  "delete_session sid s =
     (let s' = s\<lparr>sessions := del sid (sessions s)\<rparr>
      in if writer_id s' = sid then s'\<lparr>writer_id := []\<rparr> else s')"

text \<open>The loop of \<open>evictDeadLocked\<close> over the entries of the table, and its evictions.\<close>

fun evict_loop :: "time \<Rightarrow> (string \<times> sref) list \<Rightarrow> store \<Rightarrow> (string \<times> string) list \<times> store" where
  "evict_loop now [] s = ([], s)"
| "evict_loop now ((sid, r) # rest) s =
     (let x = deref s r; reason = dead_reason s now x
      in if reason \<noteq> [] then
           (let (out, s') = evict_loop now rest (delete_session sid s)
            in ((short_id (sess_id x), reason) # out, s'))
         else evict_loop now rest s)"

definition evict_dead :: "time \<Rightarrow> store \<Rightarrow> (string \<times> string) list \<times> store" where
  "evict_dead now s = evict_loop now (sessions s) s"

definition log_evictions :: "(string \<times> string) list \<Rightarrow> store \<Rightarrow> store" where
  "log_evictions evs s =
     fold (\<lambda>(sid, reason). emit Info ''session.expired'' [(''sid'', sid), (''reason'', reason)]) evs s"

definition reject_bootstrap :: "string \<Rightarrow> string \<Rightarrow> store \<Rightarrow> store" where
  "reject_bootstrap origin reason =
     emit Warn ''session.bootstrap.rejected'' [(''origin'', origin), (''reason'', reason)]"

section \<open>Operations\<close>

definition new_bootstrap_token :: "time \<Rightarrow> nat list option \<Rightarrow> store \<Rightarrow> string option \<times> store" where
  "new_bootstrap_token now raw s =
     (case random_secret raw of
        None \<Rightarrow> (None, s)
      | Some tok \<Rightarrow>
          (Some tok, emit Info ''session.bootstrap.issued'' []
             (s\<lparr>tokens := put tok \<lparr>tok_created = now, tok_used = False\<rparr> (tokens s)\<rparr>)))"

definition err_bootstrap_rejected :: go_error where
  "err_bootstrap_rejected = PlainError ''bootstrap token is not usable''"

definition err_csrf_rejected :: go_error where
  "err_csrf_rejected = PlainError ''csrf token check failed''"

definition exchange :: "time \<Rightarrow> nat list option \<Rightarrow> nat list option \<Rightarrow> string \<Rightarrow> string \<Rightarrow> store
    \<Rightarrow> (kobra_error + sref) \<times> store" where
  "exchange now raw1 raw2 token origin s =
     (case get (tokens s) token of
        None \<Rightarrow> (Inl (NoSession (Some err_bootstrap_rejected)), reject_bootstrap origin reason_unknown s)
      | Some b \<Rightarrow>
          if tok_used b
          then (Inl (NoSession (Some err_bootstrap_rejected)), reject_bootstrap origin reason_used s)
          else if bootstrap_ttl s \<le> now - tok_created b
          then (Inl (NoSession (Some err_bootstrap_rejected)),
                reject_bootstrap origin reason_expired (s\<lparr>tokens := del token (tokens s)\<rparr>))
          else
            (let (evicted, s1) = evict_dead now s
             in if max_sessions s1 \<le> int (length (sessions s1))
                then (Inl (RateLimited ''sessions'' 1),
                      reject_bootstrap origin reason_capacity (log_evictions evicted s1))
                else
                  (case random_secret raw1 of
                     None \<Rightarrow> (Inl (IO_error ''The launcher could not create a session.'' [] (Some (PlainError ''rand''))),
                              log_evictions evicted s1)
                   | Some sid \<Rightarrow>
                       (case random_secret raw2 of
                          None \<Rightarrow> (Inl (IO_error ''The launcher could not create a session.'' [] (Some (PlainError ''rand''))),
                                   log_evictions evicted s1)
                        | Some csrf_tok \<Rightarrow>
                            (let r = length (heap s1);
                                 x = \<lparr>sess_id = sid, csrf = csrf_tok, created = now, last_active = now,
                                      is_writer = False, window_start = Some now, writes = 0, bytes = 0\<rparr>;
                                 s2 = s1\<lparr>tokens := put token (b\<lparr>tok_used := True\<rparr>) (tokens s1),
                                         heap := heap s1 @ [x], sessions := put sid r (sessions s1)\<rparr>
                             in (Inr r, emit Info ''session.established'' [(''sid'', short_id sid), (''origin'', origin)]
                                          (log_evictions evicted s2)))))))"

definition get_session :: "time \<Rightarrow> string \<Rightarrow> store \<Rightarrow> sref option \<times> store" where
  "get_session now cookie s =
     (case get (sessions s) cookie of
        None \<Rightarrow> (None, s)
      | Some r \<Rightarrow>
          (let reason = dead_reason s now (deref s r)
           in if reason \<noteq> []
              then (None, emit Info ''session.expired'' [(''sid'', short_id (sess_id (deref s r))), (''reason'', reason)]
                            (delete_session cookie s))
              else (Some r, update_session r (\<lambda>x. x\<lparr>last_active := now\<rparr>) s)))"

definition reap :: "time \<Rightarrow> store \<Rightarrow> store" where
  "reap now s =
     (let (evicted, s1) = evict_dead now s;
          s2 = s1\<lparr>tokens := keep (\<lambda>_ b. \<not> bootstrap_ttl s1 \<le> now - tok_created b) (tokens s1)\<rparr>
      in log_evictions evicted s2)"

definition len_sessions :: "time \<Rightarrow> store \<Rightarrow> nat" where
  "len_sessions now s = length (filter (\<lambda>(sid, r). live s now (deref s r)) (sessions s))"

definition clear :: "store \<Rightarrow> store" where
  "clear s = s\<lparr>sessions := [], tokens := [], writer_id := []\<rparr>"

definition check_csrf :: "string \<Rightarrow> string \<Rightarrow> sref option \<Rightarrow> string \<Rightarrow> store \<Rightarrow> kobra_error option \<times> store" where
  "check_csrf cookie header sess origin s =
     (let ok = (case sess of None \<Rightarrow> False
                | Some r \<Rightarrow> cookie \<noteq> [] \<and> header \<noteq> [] \<and> cookie = header \<and> cookie = csrf (deref s r))
      in if ok then (None, s)
         else (Some (BadCSRF (Some err_csrf_rejected)), emit Warn ''csrf.reject'' [(''origin'', origin)] s))"

definition claim_writer :: "sref option \<Rightarrow> store \<Rightarrow> kobra_error option \<times> store" where
  "claim_writer sess s =
     (case sess of
        None \<Rightarrow> (Some (NoSession (Some (PlainError ''no session''))), s)
      | Some r \<Rightarrow>
          if writer_id s = []
          then (None, update_session r (\<lambda>x. x\<lparr>is_writer := True\<rparr>) (s\<lparr>writer_id := sess_id (deref s r)\<rparr>))
          else if writer_id s = sess_id (deref s r)
          then (None, update_session r (\<lambda>x. x\<lparr>is_writer := True\<rparr>) s)
          else (Some (WriterHeld (writer_id s)), s))"

definition writer :: "store \<Rightarrow> string option" where
  "writer s = (if writer_id s = [] then None else Some (writer_id s))"

definition release_writer :: "string \<Rightarrow> store \<Rightarrow> store" where
  "release_writer sid s =
     (if sid = [] then s
      else if writer_id s \<noteq> sid then s
      else (let s' = s\<lparr>writer_id := []\<rparr>
            in case get (sessions s') sid of
                 Some r \<Rightarrow> update_session r (\<lambda>x. x\<lparr>is_writer := False\<rparr>) s'
               | None \<Rightarrow> s'))"

definition roll_window :: "time \<Rightarrow> session \<Rightarrow> session" where
  "roll_window now x =
     (if (case window_start x of None \<Rightarrow> True | Some w \<Rightarrow> quota_window \<le> now - w)
      then x\<lparr>window_start := Some now, writes := 0, bytes := 0\<rparr>
      else x)"

definition retry_after :: "time \<Rightarrow> session \<Rightarrow> int" where
  "retry_after now x =
     (let elapsed = (case window_start x of None \<Rightarrow> 0 | Some w \<Rightarrow> max 0 (now - w))
      in max 1 ((quota_window - elapsed + second - 1) div second))"

definition allow :: "time \<Rightarrow> sref option \<Rightarrow> int \<Rightarrow> int \<Rightarrow> int \<Rightarrow> store \<Rightarrow> kobra_error option \<times> store" where
  "allow now sess n wpm bpm s =
     (case sess of
        None \<Rightarrow> (Some (NoSession (Some (PlainError ''no session''))), s)
      | Some r \<Rightarrow>
          (let n = max 0 n;
               wpm = default_if_zero default_writes_per_minute wpm;
               bpm = default_if_zero default_bytes_per_minute bpm;
               s1 = update_session r (roll_window now) s;
               x = deref s1 r;
               retry = retry_after now x;
               sid = short_id (sess_id x)
           in if 0 < wpm \<and> wpm < wrap64 (writes x + 1)
              then (Some (RateLimited ''writes'' retry),
                    emit Warn ''quota.exceeded'' [(''sid'', sid), (''kind'', ''writes'')] s1)
              else if 0 < bpm \<and> bpm < wrap64 (bytes x + n)
              then (Some (RateLimited ''bytes'' retry),
                    emit Warn ''quota.exceeded'' [(''sid'', sid), (''kind'', ''bytes'')] s1)
              else (None, update_session r (\<lambda>x. x\<lparr>writes := wrap64 (writes x + 1), bytes := wrap64 (bytes x + n)\<rparr>) s1)))"

section \<open>Secrets are 43 characters and carry all the random bytes\<close>

definition b64_val :: "char \<Rightarrow> nat" where
  "b64_val c =
     (let n = of_char c
      in if n = 45 then 62 else if n = 95 then 63 else if n < 60 then n + 4 else if n < 95 then n - 65 else n - 71)"

lemma b64_val_char: "n < 64 \<Longrightarrow> b64_val (b64_char n) = n"
  by (auto simp: b64_val_def b64_char_def Let_def)

lemma b64_char_inj: "m < 64 \<Longrightarrow> n < 64 \<Longrightarrow> b64_char m = b64_char n \<longleftrightarrow> m = n"
  by (metis b64_val_char)

lemma length_b64url: "length (b64url bs) = (4 * length bs + 2) div 3"
proof (induction bs rule: b64url.induct)
  case (4 a b c r)
  have "(4 * (length r + 3) + 2) div 3 = (4 * length r + 2) div 3 + 4" by presburger
  with 4 show ?case by simp
qed simp_all

lemma secret_length: "rand_ok raw \<Longrightarrow> random_secret raw = Some tok \<Longrightarrow> length tok = 43"
  by (auto simp: rand_ok_def random_secret_def secret_bytes_def length_b64url)

lemma short_id_length: "length (short_id x) \<le> 4"
  by (simp add: short_id_def)

text \<open>The sextets of a group of bytes determine the bytes.\<close>

lemma sextet_high: "(a :: nat) < 256 \<Longrightarrow> a div 4 < 64"
  by simp

lemma sextet_mid: "(b :: nat) < 256 \<Longrightarrow> a mod 4 * 16 + b div 16 < 64"
proof -
  assume "b < 256"
  then have "b div 16 < 16" by simp
  moreover have "a mod 4 \<le> 3" by simp
  ultimately show ?thesis by linarith
qed

lemma sextet_low: "(c :: nat) < 256 \<Longrightarrow> b mod 16 * 4 + c div 64 < 64"
proof -
  assume "c < 256"
  then have "c div 64 < 4" by simp
  moreover have "b mod 16 \<le> 15" by simp
  ultimately show ?thesis by linarith
qed

lemma mix_eq: "x * (k :: nat) + u = y * k + v \<Longrightarrow> u < k \<Longrightarrow> v < k \<Longrightarrow> x = y \<and> u = v"
proof -
  assume eq: "x * k + u = y * k + v" and uv: "u < k" "v < k"
  have "x = (x * k + u) div k" "y = (y * k + v) div k" using uv by simp_all
  with eq show "x = y \<and> u = v" by simp
qed

lemma div_mod_cong: "a div k = b div k \<Longrightarrow> a mod k = b mod k \<Longrightarrow> a = (b :: nat)"
  by (metis div_mult_mod_eq)

lemma b64url_inj:
  "length bs = length bs' \<Longrightarrow> \<forall>b \<in> set bs. b < 256 \<Longrightarrow> \<forall>b \<in> set bs'. b < 256
     \<Longrightarrow> b64url bs = b64url bs' \<Longrightarrow> bs = bs'"
proof (induction bs arbitrary: bs' rule: b64url.induct)
  case (4 a b c r)
  have "length bs' = Suc (Suc (Suc (length r)))" using 4(2) by simp
  then obtain a' b' c' r' where bs': "bs' = a' # b' # c' # r'" "length r = length r'"
    by (auto simp: length_Suc_conv)
  from 4(3,4) bs' have lt: "a < 256" "b < 256" "c < 256" "a' < 256" "b' < 256" "c' < 256" by auto
  from 4(5) have eq: "a div 4 = a' div 4" "a mod 4 * 16 + b div 16 = a' mod 4 * 16 + b' div 16"
    "b mod 16 * 4 + c div 64 = b' mod 16 * 4 + c' div 64" "c mod 64 = c' mod 64" "b64url r = b64url r'"
    unfolding bs'(1) using lt by (simp_all add: b64_char_inj sextet_mid sextet_low)
  have "a mod 4 = a' mod 4 \<and> b div 16 = b' div 16" by (rule mix_eq [OF eq(2)]) (simp_all add: div_less_iff_less_mult lt)
  moreover have "b mod 16 = b' mod 16 \<and> c div 64 = c' div 64" by (rule mix_eq [OF eq(3)]) (simp_all add: div_less_iff_less_mult lt)
  ultimately have "a = a'" "b = b'" "c = c'"
    using eq(1,4) by (auto intro: div_mod_cong)
  moreover have "r = r'" using 4 bs' eq(5) by simp
  ultimately show ?case using bs' by simp
next
  case (3 a b)
  have "length bs' = Suc (Suc 0)" using 3(1) by simp
  then obtain a' b' where bs': "bs' = [a', b']" by (auto simp: length_Suc_conv)
  from 3 bs' have lt: "a < 256" "b < 256" "a' < 256" "b' < 256" by auto
  from 3 have eq: "a div 4 = a' div 4" "a mod 4 * 16 + b div 16 = a' mod 4 * 16 + b' div 16"
    "b mod 16 * 4 = b' mod 16 * 4"
    unfolding bs' using lt sextet_low [of 0 b] sextet_low [of 0 b']
    by (simp_all add: b64_char_inj sextet_mid)
  have "a mod 4 = a' mod 4 \<and> b div 16 = b' div 16" by (rule mix_eq [OF eq(2)]) (simp_all add: div_less_iff_less_mult lt)
  then show ?case using eq(1,3) bs' by (auto intro: div_mod_cong)
next
  case (2 a)
  then obtain a' where bs': "bs' = [a']" by (auto simp: Suc_length_conv)
  from 2 have "a div 4 = a' div 4" "a mod 4 = a' mod 4"
    unfolding bs' using sextet_mid [of 0 a] sextet_mid [of 0 a'] by (simp_all add: b64_char_inj)
  then show ?case using bs' by (auto intro: div_mod_cong)
qed simp

section \<open>Facts about the operations\<close>

lemma emit_simps [simp]:
  "heap (emit lv n fs s) = heap s" "sessions (emit lv n fs s) = sessions s" "tokens (emit lv n fs s) = tokens s"
  "writer_id (emit lv n fs s) = writer_id s" "bootstrap_ttl (emit lv n fs s) = bootstrap_ttl s"
  "session_ttl (emit lv n fs s) = session_ttl s" "inactivity (emit lv n fs s) = inactivity s"
  "max_sessions (emit lv n fs s) = max_sessions s"
  by (simp_all add: emit_def)

lemma log_evictions_simps [simp]:
  "heap (log_evictions es s) = heap s" "sessions (log_evictions es s) = sessions s"
  "tokens (log_evictions es s) = tokens s" "writer_id (log_evictions es s) = writer_id s"
  "bootstrap_ttl (log_evictions es s) = bootstrap_ttl s" "session_ttl (log_evictions es s) = session_ttl s"
  "inactivity (log_evictions es s) = inactivity s" "max_sessions (log_evictions es s) = max_sessions s"
  unfolding log_evictions_def by (induction es arbitrary: s) auto

lemma reject_bootstrap_simps [simp]:
  "heap (reject_bootstrap o' r s) = heap s" "sessions (reject_bootstrap o' r s) = sessions s"
  "tokens (reject_bootstrap o' r s) = tokens s" "writer_id (reject_bootstrap o' r s) = writer_id s"
  "bootstrap_ttl (reject_bootstrap o' r s) = bootstrap_ttl s" "session_ttl (reject_bootstrap o' r s) = session_ttl s"
  "inactivity (reject_bootstrap o' r s) = inactivity s" "max_sessions (reject_bootstrap o' r s) = max_sessions s"
  by (simp_all add: reject_bootstrap_def)

lemma delete_session_simps [simp]:
  "heap (delete_session x s) = heap s" "sessions (delete_session x s) = del x (sessions s)"
  "tokens (delete_session x s) = tokens s"
  "writer_id (delete_session x s) = (if writer_id s = x then [] else writer_id s)"
  "bootstrap_ttl (delete_session x s) = bootstrap_ttl s" "session_ttl (delete_session x s) = session_ttl s"
  "inactivity (delete_session x s) = inactivity s" "max_sessions (delete_session x s) = max_sessions s"
  "events (delete_session x s) = events s" "logging (delete_session x s) = logging s"
  by (simp_all add: delete_session_def Let_def)

lemma update_session_simps [simp]:
  "sessions (update_session r f s) = sessions s" "tokens (update_session r f s) = tokens s"
  "writer_id (update_session r f s) = writer_id s" "bootstrap_ttl (update_session r f s) = bootstrap_ttl s"
  "session_ttl (update_session r f s) = session_ttl s" "inactivity (update_session r f s) = inactivity s"
  "max_sessions (update_session r f s) = max_sessions s" "events (update_session r f s) = events s"
  "length (heap (update_session r f s)) = length (heap s)" "logging (update_session r f s) = logging s"
  by (simp_all add: update_session_def)

lemma deref_update_session:
  "r < length (heap s) \<Longrightarrow> deref (update_session r f s) q = (if q = r then f (deref s r) else deref s q)"
  by (simp add: deref_def update_session_def)

lemma deref_frame [simp]:
  "deref (emit lv n fs s) r = deref s r" "deref (log_evictions es s) r = deref s r"
  "deref (reject_bootstrap o' x s) r = deref s r" "deref (delete_session y s) r = deref s r"
  by (simp_all add: deref_def)

lemma dead_reason_frame:
  "session_ttl s' = session_ttl s \<Longrightarrow> inactivity s' = inactivity s \<Longrightarrow> dead_reason s' now x = dead_reason s now x"
  by (simp add: dead_reason_def)

text \<open>
  Eviction against its specification: the loop deletes the entries of the sessions that are
  dead, and nothing else.
\<close>

definition is_dead :: "time \<Rightarrow> store \<Rightarrow> string \<times> sref \<Rightarrow> bool" where
  "is_dead now s e = (\<not> live s now (deref s (snd e)))"

lemma evict_loop_spec:
  "evict_loop now es s =
     (map (\<lambda>(sid, r). (short_id (sess_id (deref s r)), dead_reason s now (deref s r))) (filter (is_dead now s) es),
      fold (\<lambda>(sid, r). delete_session sid) (filter (is_dead now s) es) s)"
proof (induction es arbitrary: s)
  case (Cons e es)
  obtain sid r where e: "e = (sid, r)" by (cases e)
  have f: "is_dead now (delete_session sid s) = is_dead now s"
    "\<And>x. dead_reason (delete_session sid s) now x = dead_reason s now x"
    by (auto simp: is_dead_def live_def dead_reason_def fun_eq_iff)
  show ?case
    using Cons.IH [of s] Cons.IH [of "delete_session sid s"] f
    by (simp add: e Let_def is_dead_def [of now s "(sid, r)"] live_def)
qed simp

lemma fold_delete_session_frame:
  "heap (fold (\<lambda>(sid, r). delete_session sid) es s) = heap s"
  "tokens (fold (\<lambda>(sid, r). delete_session sid) es s) = tokens s"
  "bootstrap_ttl (fold (\<lambda>(sid, r). delete_session sid) es s) = bootstrap_ttl s"
  "session_ttl (fold (\<lambda>(sid, r). delete_session sid) es s) = session_ttl s"
  "inactivity (fold (\<lambda>(sid, r). delete_session sid) es s) = inactivity s"
  "max_sessions (fold (\<lambda>(sid, r). delete_session sid) es s) = max_sessions s"
  "events (fold (\<lambda>(sid, r). delete_session sid) es s) = events s"
  "logging (fold (\<lambda>(sid, r). delete_session sid) es s) = logging s"
  by (induction es arbitrary: s) auto

lemma writer_id_fold_delete:
  "writer_id (fold (\<lambda>(sid, r). delete_session sid) es s) = (if writer_id s \<in> fst ` set es then [] else writer_id s)"
proof (induction es arbitrary: s)
  case (Cons e es)
  then show ?case by (cases e) simp
qed simp

lemma sessions_fold_delete:
  "sessions (fold (\<lambda>(sid, r). delete_session sid) es s) = filter (\<lambda>e. fst e \<notin> fst ` set es) (sessions s)"
proof (induction es arbitrary: s)
  case (Cons e es)
  have "filter (\<lambda>e. fst e \<notin> fst ` set es) (del (fst e) m) = filter (\<lambda>x. fst x \<notin> fst ` set (e # es)) m"
    for m :: "(string, sref) gmap"
    by (induction m) (auto simp: del_def AList.delete_eq)
  with Cons show ?case by (cases e) simp
qed simp

lemmas fold_delete_session = fold_delete_session_frame writer_id_fold_delete sessions_fold_delete

lemma wf_map_dead_keys:
  assumes "wf_map m" and "e \<in> set m"
  shows "fst e \<in> fst ` set (filter p m) \<longleftrightarrow> p e"
  using assms by (force simp: wf_map_def distinct_map inj_on_def)

lemma evict_dead_spec:
  assumes "wf_map (sessions s)"
  shows "sessions (snd (evict_dead now s)) = filter (\<lambda>e. \<not> is_dead now s e) (sessions s)"
    and "writer_id (snd (evict_dead now s)) =
      (if writer_id s \<in> fst ` set (filter (is_dead now s) (sessions s)) then [] else writer_id s)"
  using wf_map_dead_keys [OF assms]
  by (auto simp: evict_dead_def evict_loop_spec fold_delete_session intro!: filter_cong)

lemma evict_dead_frame [simp]:
  "heap (snd (evict_dead now s)) = heap s" "tokens (snd (evict_dead now s)) = tokens s"
  "bootstrap_ttl (snd (evict_dead now s)) = bootstrap_ttl s" "session_ttl (snd (evict_dead now s)) = session_ttl s"
  "inactivity (snd (evict_dead now s)) = inactivity s" "max_sessions (snd (evict_dead now s)) = max_sessions s"
  "events (snd (evict_dead now s)) = events s" "logging (snd (evict_dead now s)) = logging s"
  by (simp_all add: evict_dead_def evict_loop_spec fold_delete_session)

section \<open>Runs of the store\<close>

text \<open>
  The operations as steps. A caller holds references it got from \<open>Exchange\<close> or \<open>Get\<close>: any
  reference of the heap, evicted or not, except that the writer role is claimed for a session
  that is still in the table.
\<close>

datatype session_op =
    OpIssue time "nat list option"
  | OpExchange time "nat list option" "nat list option" string string
  | OpGet time string
  | OpReap time
  | OpClear
  | OpCheckCSRF string string sref string
  | OpClaim sref
  | OpRelease string
  | OpAllow time sref int int int

fun apply_op :: "session_op \<Rightarrow> store \<Rightarrow> store" where
  "apply_op (OpIssue now raw) s = snd (new_bootstrap_token now raw s)"
| "apply_op (OpExchange now raw1 raw2 token origin) s = snd (exchange now raw1 raw2 token origin s)"
| "apply_op (OpGet now cookie) s = snd (get_session now cookie s)"
| "apply_op (OpReap now) s = reap now s"
| "apply_op OpClear s = clear s"
| "apply_op (OpCheckCSRF c h r o') s = snd (check_csrf c h (Some r) o' s)"
| "apply_op (OpClaim r) s = snd (claim_writer (Some r) s)"
| "apply_op (OpRelease sid) s = release_writer sid s"
| "apply_op (OpAllow now r n w b) s = snd (allow now (Some r) n w b s)"

fun op_ok :: "session_op \<Rightarrow> store \<Rightarrow> bool" where
  "op_ok (OpIssue now raw) s = rand_ok raw"
| "op_ok (OpExchange now raw1 raw2 token origin) s = (rand_ok raw1 \<and> rand_ok raw2)"
| "op_ok (OpCheckCSRF c h r o') s = (r < length (heap s))"
| "op_ok (OpClaim r) s = (r \<in> snd ` set (sessions s))"
| "op_ok (OpAllow now r n w b) s = (r < length (heap s))"
| "op_ok _ s = True"

inductive store_step :: "store \<Rightarrow> session_op \<Rightarrow> store \<Rightarrow> bool" where
  step: "op_ok op s \<Longrightarrow> store_step s op (apply_op op s)"

inductive_cases store_stepE: "store_step s op s'"

inductive reachable :: "options \<Rightarrow> store \<Rightarrow> bool" for opts where
  reach_init: "reachable opts (new_store opts)"
| reach_step: "reachable opts s \<Longrightarrow> store_step s op s' \<Longrightarrow> reachable opts s'"

text \<open>
  The table's invariant: it holds at most \<open>MaxSessions\<close> sessions, each under its own id, and
  the writer is one of them.
\<close>

definition table_ok :: "store \<Rightarrow> bool" where
  "table_ok s \<longleftrightarrow> wf_map (sessions s)
     \<and> (\<forall>(sid, r) \<in> set (sessions s). r < length (heap s) \<and> sess_id (heap s ! r) = sid \<and> sid \<noteq> [])"

definition store_ok :: "store \<Rightarrow> bool" where
  "store_ok s \<longleftrightarrow> table_ok s \<and> wf_map (tokens s) \<and> 0 < max_sessions s
     \<and> int (length (sessions s)) \<le> max_sessions s
     \<and> (writer_id s = [] \<or> writer_id s \<in> fst ` set (sessions s))"

lemma store_ok_frame:
  "store_ok s \<Longrightarrow> heap s' = heap s \<Longrightarrow> sessions s' = sessions s \<Longrightarrow> wf_map (tokens s')
     \<Longrightarrow> max_sessions s' = max_sessions s \<Longrightarrow> writer_id s' = writer_id s \<Longrightarrow> store_ok s'"
  by (simp add: store_ok_def table_ok_def)

text \<open>Shrinking the table keeps the invariant when the writer's entry stays or the role is freed.\<close>

lemma store_ok_shrink:
  assumes "store_ok s" and "heap s' = heap s" and "sessions s' = filter p (sessions s)"
    and "wf_map (tokens s')" and "max_sessions s' = max_sessions s"
    and "writer_id s' = [] \<or> writer_id s' \<in> fst ` set (sessions s')"
  shows "store_ok s'"
proof -
  have "int (length (filter p (sessions s))) \<le> max_sessions s"
    using assms(1) order.trans [OF _ length_filter_le [of p "sessions s"]]
    unfolding store_ok_def by (meson length_filter_le of_nat_mono order_trans)
  with assms show ?thesis
    unfolding store_ok_def table_ok_def by (auto simp: wf_map_def distinct_map_filter)
qed

lemma store_ok_evict:
  assumes "store_ok s" shows "store_ok (snd (evict_dead now s))"
proof (rule store_ok_shrink [OF assms])
  have wf: "wf_map (sessions s)" using assms by (simp add: store_ok_def table_ok_def)
  note spec = evict_dead_spec [OF wf, of now]
  show "sessions (snd (evict_dead now s)) = filter (\<lambda>e. \<not> is_dead now s e) (sessions s)"
    by (rule spec(1))
  have "writer_id s = [] \<or> writer_id s \<in> fst ` set (sessions s)"
    using assms by (simp add: store_ok_def)
  then show "writer_id (snd (evict_dead now s)) = [] \<or>
      writer_id (snd (evict_dead now s)) \<in> fst ` set (sessions (snd (evict_dead now s)))"
    unfolding spec by (auto simp: image_iff)
qed (use assms in \<open>simp_all add: store_ok_def\<close>)

lemma store_ok_delete:
  assumes "store_ok s" shows "store_ok (delete_session sid s)"
proof (rule store_ok_shrink [OF assms])
  show "sessions (delete_session sid s) = filter (\<lambda>e. fst e \<noteq> sid) (sessions s)"
    by (auto simp: del_def AList.delete_eq intro!: filter_cong)
  show "writer_id (delete_session sid s) = [] \<or> writer_id (delete_session sid s) \<in> fst ` set (sessions (delete_session sid s))"
    using assms by (auto simp: store_ok_def del_def AList.delete_eq)
qed (use assms in \<open>simp_all add: store_ok_def\<close>)

lemma store_ok_update:
  assumes "store_ok s" and "\<And>x. sess_id (f x) = sess_id x"
  shows "store_ok (update_session r f s)"
proof -
  have "sess_id ((heap s)[r := f (heap s ! r)] ! q) = sess_id (heap s ! q)" for q
    using assms(2) by (cases "r < length (heap s)"; cases "q = r") (simp_all add: list_update_beyond)
  with assms(1) show ?thesis
    by (simp add: store_ok_def table_ok_def update_session_def)
qed

lemma put_set: "set (put k v m) \<subseteq> insert (k, v) (set m)"
  by (induction m) (auto simp: put_def)

lemma keys_put: "fst ` set (put k v m) = insert k (fst ` set m)"
  by (simp add: put_def dom_update)

lemma store_ok_add:
  assumes "store_ok s" and "sess_id x = sid" and "sid \<noteq> []"
    and "int (length (sessions s)) < max_sessions s" and "wf_map toks"
  shows "store_ok (s\<lparr>tokens := toks, heap := heap s @ [x], sessions := put sid (length (heap s)) (sessions s)\<rparr>)"
proof -
  have wf: "wf_map (sessions s)" using assms(1) by (simp add: store_ok_def table_ok_def)
  have "length (put sid (length (heap s)) (sessions s)) \<le> Suc (length (sessions s))"
    by (rule gm.size_store_le [OF wf])
  moreover have "\<forall>(k, r) \<in> set (put sid (length (heap s)) (sessions s)).
      r < length (heap s @ [x]) \<and> sess_id ((heap s @ [x]) ! r) = k \<and> k \<noteq> []"
    using assms(1-3) put_set [of sid "length (heap s)" "sessions s"]
    by (fastforce simp: store_ok_def table_ok_def nth_append)
  ultimately show ?thesis
    using assms wf by (auto simp: store_ok_def table_ok_def keys_put)
qed

lemma roll_window_id [simp]: "sess_id (roll_window now x) = sess_id x"
  by (simp add: roll_window_def)

lemma store_ok_exchange:
  assumes "store_ok s" and "rand_ok raw1"
  shows "store_ok (snd (exchange now raw1 raw2 token origin s))"
proof -
  have wt: "wf_map (tokens s)" using assms(1) by (simp add: store_ok_def)
  obtain evs s1 where ev: "evict_dead now s = (evs, s1)" by fastforce
  have ok1: "store_ok s1" and t1: "tokens s1 = tokens s"
    using store_ok_evict [OF assms(1), of now] evict_dead_frame(2) [of now s] ev by simp_all
  have add: "store_ok (s1\<lparr>tokens := put token b (tokens s1), heap := heap s1 @ [x],
      sessions := put sid (length (heap s1)) (sessions s1)\<rparr>)"
    if "random_secret raw1 = Some sid" "sess_id x = sid" "int (length (sessions s1)) < max_sessions s1" for b x sid
    by (rule store_ok_add [OF ok1 that(2) _ that(3)]) (use secret_length [OF assms(2) that(1)] wt t1 in auto)
  have keep: "store_ok s'" if "heap s' = heap s" "sessions s' = sessions s" "wf_map (tokens s')"
    "max_sessions s' = max_sessions s" "writer_id s' = writer_id s" for s'
    using that by (rule store_ok_frame [OF assms(1)])
  have evicted: "store_ok (log_evictions evs s1)"
    by (rule store_ok_frame [OF ok1]) (simp_all add: t1 wt)
  show ?thesis
  proof (cases "get (tokens s) token")
    case None
    then show ?thesis by (simp add: exchange_def keep wt)
  next
    case (Some b)
    consider "tok_used b" | "\<not> tok_used b" "bootstrap_ttl s \<le> now - tok_created b"
      | "\<not> tok_used b" "\<not> bootstrap_ttl s \<le> now - tok_created b" "max_sessions s1 \<le> int (length (sessions s1))"
      | "\<not> tok_used b" "\<not> bootstrap_ttl s \<le> now - tok_created b" "\<not> max_sessions s1 \<le> int (length (sessions s1))"
      by blast
    then show ?thesis
    proof cases
      case 1
      with Some show ?thesis by (simp add: exchange_def keep wt)
    next
      case 2
      with Some show ?thesis by (simp add: exchange_def keep wt)
    next
      case 3
      have "store_ok (reject_bootstrap origin reason_capacity (log_evictions evs s1))"
        by (rule store_ok_frame [OF evicted]) (simp_all add: t1 wt)
      with 3 Some show ?thesis by (simp add: exchange_def ev)
    next
      case 4
      show ?thesis
      proof (cases "random_secret raw1 = None \<or> random_secret raw2 = None")
        case True
        with 4 Some evicted show ?thesis by (auto simp: exchange_def ev split: option.splits)
      next
        case False
        then obtain sid csrf_tok where r: "random_secret raw1 = Some sid" "random_secret raw2 = Some csrf_tok" by auto
        let ?x = "\<lparr>sess_id = sid, csrf = csrf_tok, created = now, last_active = now,
          is_writer = False, window_start = Some now, writes = 0, bytes = 0\<rparr>"
        have "store_ok (s1\<lparr>tokens := put token (b\<lparr>tok_used := True\<rparr>) (tokens s1), heap := heap s1 @ [?x],
            sessions := put sid (length (heap s1)) (sessions s1)\<rparr>)"
          using 4 by (intro add [OF r(1)]) simp_all
        then show ?thesis
          using 4 Some r by (simp add: exchange_def ev Let_def store_ok_frame t1 wt)
      qed
    qed
  qed
qed

lemma store_ok_step:
  assumes "store_ok s" and "store_step s op s'"
  shows "store_ok s'"
proof -
  have op: "op_ok op s" "s' = apply_op op s" using assms(2) by (auto elim: store_stepE)
  have wt: "wf_map (tokens s)" using assms(1) by (simp add: store_ok_def)
  note frame = store_ok_frame [OF assms(1)]
  note upd = store_ok_update [OF assms(1)]
  show ?thesis
  proof (cases op)
    case (OpIssue now raw)
    then show ?thesis
      using op wt by (auto simp: new_bootstrap_token_def split: option.splits intro: assms(1) frame)
  next
    case (OpExchange now raw1 raw2 token origin)
    with op show ?thesis by (simp add: store_ok_exchange [OF assms(1)])
  next
    case (OpGet now cookie)
    then show ?thesis
      using op store_ok_frame [OF store_ok_delete [OF assms(1)]] wt
      by (auto simp: get_session_def Let_def assms(1) upd split: option.splits)
  next
    case (OpReap now)
    obtain evs s1 where ev: "evict_dead now s = (evs, s1)" by fastforce
    have "store_ok s1" "tokens s1 = tokens s"
      using store_ok_evict [OF assms(1), of now] evict_dead_frame(2) [of now s] ev by simp_all
    then show ?thesis
      using op OpReap wt by (auto simp: reap_def ev Let_def intro: store_ok_frame)
  next
    case OpClear
    with op assms(1) show ?thesis by (simp add: clear_def store_ok_def table_ok_def)
  next
    case (OpCheckCSRF c h r o')
    then show ?thesis
      using op wt by (auto simp: check_csrf_def Let_def assms(1) intro: frame)
  next
    case (OpClaim r)
    then obtain sid where r: "(sid, r) \<in> set (sessions s)" "sess_id (deref s r) = sid"
      using op assms(1) by (force simp: store_ok_def table_ok_def deref_def)
    have "store_ok (s\<lparr>writer_id := sid\<rparr>)"
      using assms(1) r(1) by (force simp: store_ok_def table_ok_def)
    then show ?thesis
      using op OpClaim r(2) by (auto simp: claim_writer_def assms(1) intro!: store_ok_update upd)
  next
    case (OpRelease sid)
    have "store_ok (s\<lparr>writer_id := []\<rparr>)"
      using assms(1) by (simp add: store_ok_def table_ok_def)
    then show ?thesis
      using op OpRelease by (auto simp: release_writer_def Let_def assms(1) split: option.splits intro!: store_ok_update)
  next
    case (OpAllow now r n w b)
    have "store_ok (update_session r (roll_window now) s)"
      by (rule upd) simp
    then show ?thesis
      using op OpAllow wt
      by (auto simp: allow_def Let_def intro!: store_ok_update intro: store_ok_frame)
  qed
qed

lemma reachable_ok: "reachable opts s \<Longrightarrow> store_ok s"
proof (induction rule: reachable.induct)
  case reach_init
  show ?case
    by (simp add: new_store_def store_ok_def table_ok_def default_max_sessions_def)
next
  case (reach_step s op s')
  then show ?case by (blast intro: store_ok_step)
qed

section \<open>Tokens\<close>

text \<open>A token nobody can exchange any more: unknown, or used.\<close>

definition spent :: "string \<Rightarrow> store \<Rightarrow> bool" where
  "spent tok s = (case get (tokens s) tok of None \<Rightarrow> True | Some b \<Rightarrow> tok_used b)"

fun issues :: "string \<Rightarrow> session_op \<Rightarrow> bool" where
  "issues tok (OpIssue now raw) = (random_secret raw = Some tok)"
| "issues tok _ = False"

lemma exchange_ok:
  assumes "fst (exchange now raw1 raw2 token origin s) = Inr r"
  shows "\<exists>b. get (tokens s) token = Some b \<and> \<not> tok_used b \<and> now - tok_created b < bootstrap_ttl s
    \<and> tokens (snd (exchange now raw1 raw2 token origin s)) = put token (b\<lparr>tok_used := True\<rparr>) (tokens s)"
proof -
  obtain evs s1 where ev: "evict_dead now s = (evs, s1)" by fastforce
  have "tokens s1 = tokens s" using evict_dead_frame(2) [of now s] ev by simp
  with assms show ?thesis
    by (auto simp: exchange_def ev Let_def not_le split: option.splits if_splits)
qed

lemma exchange_err_tokens:
  assumes "fst (exchange now raw1 raw2 token origin s) = Inl e" and "wf_map (tokens s)"
  shows "get (tokens (snd (exchange now raw1 raw2 token origin s))) tok = get (tokens s) tok
    \<or> get (tokens (snd (exchange now raw1 raw2 token origin s))) tok = None"
proof -
  obtain evs s1 where ev: "evict_dead now s = (evs, s1)" by fastforce
  have "tokens s1 = tokens s" using evict_dead_frame(2) [of now s] ev by simp
  with assms show ?thesis
    by (auto simp: exchange_def ev Let_def split: option.splits if_splits)
qed

lemma exchange_spent:
  "spent token s \<Longrightarrow> fst (exchange now raw1 raw2 token origin s) = Inl (NoSession (Some err_bootstrap_rejected))"
  by (auto simp: spent_def exchange_def split: option.splits)

lemma allow_tokens [simp]: "tokens (snd (allow now r n w b s)) = tokens s"
  by (cases r) (auto simp: allow_def Let_def)

lemma claim_tokens [simp]: "tokens (snd (claim_writer r s)) = tokens s"
  by (cases r) (auto simp: claim_writer_def)

lemma release_tokens [simp]: "tokens (release_writer sid s) = tokens s"
  by (auto simp: release_writer_def Let_def split: option.splits)

lemma csrf_tokens [simp]: "tokens (snd (check_csrf c h r o' s)) = tokens s"
  by (auto simp: check_csrf_def Let_def split: option.splits)

lemma get_session_tokens [simp]: "tokens (snd (get_session now cookie s)) = tokens s"
  by (auto simp: get_session_def Let_def split: option.splits)

lemma spent_step:
  assumes "store_ok s" and "spent tok s" and "\<not> issues tok op" and "store_step s op s'"
  shows "spent tok s'"
proof -
  have op: "s' = apply_op op s" using assms(4) by (auto elim: store_stepE)
  have wt: "wf_map (tokens s)" using assms(1) by (simp add: store_ok_def)
  show ?thesis
  proof (cases op)
    case (OpIssue now raw)
    then show ?thesis
      using op assms(2,3) by (auto simp: new_bootstrap_token_def spent_def split: option.splits)
  next
    case (OpExchange now raw1 raw2 token origin)
    then have s': "s' = snd (exchange now raw1 raw2 token origin s)" using op by simp
    show ?thesis
    proof (cases "fst (exchange now raw1 raw2 token origin s)")
      case (Inl e)
      from exchange_err_tokens [OF Inl wt, of tok] assms(2) show ?thesis
        unfolding s' spent_def by auto
    next
      case (Inr r)
      from exchange_ok [OF Inr] assms(2) show ?thesis
        unfolding s' spent_def by auto
    qed
  next
    case (OpReap now)
    obtain evs s1 where ev: "evict_dead now s = (evs, s1)" by fastforce
    have "tokens s1 = tokens s" using evict_dead_frame(2) [of now s] ev by simp
    then show ?thesis
      using op OpReap assms(2) wt
      by (auto simp: reap_def ev spent_def get_keep split: option.splits)
  qed (use op assms(2) in \<open>simp_all add: spent_def clear_def\<close>)
qed

text \<open>A run of operations, and what it does to a spent token.\<close>

inductive run :: "store \<Rightarrow> session_op list \<Rightarrow> store \<Rightarrow> bool" where
  run_nil: "run s [] s"
| run_cons: "store_step s op s1 \<Longrightarrow> run s1 ops s2 \<Longrightarrow> run s (op # ops) s2"

inductive_simps run_simps: "run s [] s'" "run s (op # ops) s'"

lemma run_spent:
  "run s ops s' \<Longrightarrow> store_ok s \<Longrightarrow> spent tok s \<Longrightarrow> \<forall>op \<in> set ops. \<not> issues tok op \<Longrightarrow> spent tok s'"
  by (induction rule: run.induct) (auto dest: spent_step store_ok_step)

section \<open>Quota\<close>

lemma retry_after_bounds:
  "(case window_start x of None \<Rightarrow> False | Some w \<Rightarrow> now - w < quota_window)
     \<Longrightarrow> 1 \<le> retry_after now x \<and> retry_after now x \<le> 60"
  by (auto simp: retry_after_def Let_def quota_window_def second_def split: option.splits)

lemma roll_window_within:
  "case window_start (roll_window now x) of None \<Rightarrow> False | Some w \<Rightarrow> now - w < quota_window"
  by (auto simp: roll_window_def quota_window_def second_def split: option.splits)

lemma allow_same_window:
  assumes "r < length (heap s)" and "window_start (deref s r) = Some t" and "now - t < quota_window"
    and "0 < w" "w < 2 ^ 62" "0 < b" "b < 2 ^ 62" "0 \<le> n" "n < 2 ^ 62"
    and "0 \<le> writes (deref s r)" "writes (deref s r) \<le> w" "0 \<le> bytes (deref s r)" "bytes (deref s r) \<le> b"
    and "allow now (Some r) n w b s = (e, s')"
  shows "length (heap s') = length (heap s)
    \<and> (if e = None
       then deref s' r = (deref s r)\<lparr>writes := writes (deref s r) + 1, bytes := bytes (deref s r) + n\<rparr>
            \<and> writes (deref s r) + 1 \<le> w \<and> bytes (deref s r) + n \<le> b
       else deref s' r = deref s r)"
proof -
  let ?x = "deref s r"
  have roll: "roll_window now ?x = ?x" using assms(2,3) by (simp add: roll_window_def)
  have id: "update_session r (roll_window now) s = s"
    using roll assms(1) by (simp add: update_session_def deref_def)
  have wrap: "wrap64 (writes ?x + 1) = writes ?x + 1" "wrap64 (bytes ?x + n) = bytes ?x + n"
    using assms by (auto intro!: wrap64_id)
  have pos: "max 0 n = n" "default_if_zero default_writes_per_minute w = w" "default_if_zero default_bytes_per_minute b = b"
    using assms by (auto simp: default_if_zero_def)
  have "allow now (Some r) n w b s =
      (if w < writes ?x + 1
       then (Some (RateLimited ''writes'' (retry_after now ?x)),
             emit Warn ''quota.exceeded'' [(''sid'', short_id (sess_id ?x)), (''kind'', ''writes'')] s)
       else if b < bytes ?x + n
       then (Some (RateLimited ''bytes'' (retry_after now ?x)),
             emit Warn ''quota.exceeded'' [(''sid'', short_id (sess_id ?x)), (''kind'', ''bytes'')] s)
       else (None, update_session r (\<lambda>x. x\<lparr>writes := wrap64 (writes x + 1), bytes := wrap64 (bytes x + n)\<rparr>) s))"
    using assms(4,6) by (simp add: allow_def id pos wrap Let_def)
  then show ?thesis
    using assms(1,14) by (auto simp: deref_update_session wrap split: if_splits)
qed

text \<open>A series of writes of one session, and which of them are let through.\<close>

fun allow_all :: "sref \<Rightarrow> int \<Rightarrow> int \<Rightarrow> (time \<times> int) list \<Rightarrow> store \<Rightarrow> bool list" where
  "allow_all r w b [] s = []"
| "allow_all r w b ((now, n) # reqs) s =
     (case allow now (Some r) n w b s of (e, s') \<Rightarrow> (e = None) # allow_all r w b reqs s')"

definition accepted :: "bool list \<Rightarrow> (time \<times> int) list \<Rightarrow> int list" where
  "accepted oks reqs = map (\<lambda>(ok, now, n). n) (filter fst (zip oks reqs))"

lemma allow_all_bound:
  assumes "r < length (heap s)" and "window_start (deref s r) = Some t"
    and "\<forall>(now, n) \<in> set reqs. now - t < quota_window \<and> 0 \<le> n \<and> n < 2 ^ 62"
    and "0 < w" "w < 2 ^ 62" "0 < b" "b < 2 ^ 62"
    and "0 \<le> writes (deref s r)" "writes (deref s r) \<le> w" "0 \<le> bytes (deref s r)" "bytes (deref s r) \<le> b"
  shows "writes (deref s r) + int (length (accepted (allow_all r w b reqs s) reqs)) \<le> w
    \<and> bytes (deref s r) + sum_list (accepted (allow_all r w b reqs s) reqs) \<le> b"
  using assms
proof (induction reqs arbitrary: s)
  case (Cons q reqs)
  obtain now n where q: "q = (now, n)" by (cases q)
  obtain e s' where a: "allow now (Some r) n w b s = (e, s')" by fastforce
  have step: "length (heap s') = length (heap s)
    \<and> (if e = None
       then deref s' r = (deref s r)\<lparr>writes := writes (deref s r) + 1, bytes := bytes (deref s r) + n\<rparr>
            \<and> writes (deref s r) + 1 \<le> w \<and> bytes (deref s r) + n \<le> b
       else deref s' r = deref s r)"
    by (rule allow_same_window [OF Cons.prems(1,2) _ Cons.prems(4-7) _ _ Cons.prems(8-11) a])
      (use Cons.prems(3) q in auto)
  have "writes (deref s' r) + int (length (accepted (allow_all r w b reqs s') reqs)) \<le> w
    \<and> bytes (deref s' r) + sum_list (accepted (allow_all r w b reqs s') reqs) \<le> b"
    by (rule Cons.IH) (use Cons.prems step q in \<open>auto split: if_splits\<close>)
  then show ?case
    using step by (cases "e = None") (auto simp: q a accepted_def)
qed (simp add: accepted_def)

section \<open>Events\<close>

definition event_ok :: "event \<Rightarrow> bool" where
  "event_ok e = (\<forall>(k, v) \<in> set (ev_fields e). k = ''origin'' \<or> length v \<le> 8)"

definition events_ok :: "store \<Rightarrow> bool" where
  "events_ok s = (\<forall>e \<in> set (events s). event_ok e)"

lemma events_ok_emit:
  "events_ok s \<Longrightarrow> \<forall>(k, v) \<in> set fs. k = ''origin'' \<or> length v \<le> 8 \<Longrightarrow> events_ok (emit lv n fs s)"
  by (auto simp: events_ok_def emit_def event_ok_def)

lemma short_fits: "length (short_id x) \<le> 8"
  using short_id_length [of x] by simp

lemma reason_fits: "length (dead_reason s now x) \<le> 8"
  by (simp add: dead_reason_def reason_expired_def reason_inactive_def)

lemma events_ok_log_evictions:
  "events_ok s \<Longrightarrow> \<forall>(sid, reason) \<in> set es. length sid \<le> 8 \<and> length reason \<le> 8 \<Longrightarrow> events_ok (log_evictions es s)"
  unfolding log_evictions_def
proof (induction es arbitrary: s)
  case (Cons e es)
  then show ?case by (cases e) (auto intro!: Cons.IH events_ok_emit)
qed simp

lemma evictions_fit: "\<forall>(sid, reason) \<in> set (fst (evict_dead now s)). length sid \<le> 8 \<and> length reason \<le> 8"
  by (auto simp: evict_dead_def evict_loop_spec short_fits reason_fits)

lemma events_ok_same: "events_ok s \<Longrightarrow> events s' = events s \<Longrightarrow> events_ok s'"
  by (simp add: events_ok_def)

lemma events_ok_reject:
  "events_ok s \<Longrightarrow> length reason \<le> 8 \<Longrightarrow> events_ok (reject_bootstrap origin reason s)"
  by (simp add: reject_bootstrap_def events_ok_emit)

lemmas reason_defs = reason_expired_def reason_inactive_def reason_unknown_def reason_used_def reason_capacity_def

lemma events_ok_exchange:
  assumes "events_ok s" shows "events_ok (snd (exchange now raw1 raw2 token origin s))"
proof -
  obtain evs s1 where ev: "evict_dead now s = (evs, s1)" by fastforce
  have s1: "events_ok s1" using assms evict_dead_frame(7) [of now s] ev by (simp add: events_ok_def)
  have fit: "\<forall>(sid, reason) \<in> set evs. length sid \<le> 8 \<and> length reason \<le> 8"
    using evictions_fit [of now s] ev by simp
  have log: "events_ok (log_evictions evs s')" if "events s' = events s1" for s'
    by (rule events_ok_log_evictions [OF events_ok_same [OF s1 that] fit])
  have del: "events_ok (s\<lparr>tokens := t\<rparr>)" for t using assms by (simp add: events_ok_def)
  show ?thesis
    unfolding exchange_def ev
    by (simp add: Let_def reason_defs assms del log events_ok_reject events_ok_emit short_fits
        split: option.splits)
qed

lemma events_ok_step:
  assumes "events_ok s" and "store_step s op s'"
  shows "events_ok s'"
proof -
  have op: "s' = apply_op op s" using assms(2) by (auto elim: store_stepE)
  have upd: "events_ok (update_session r f s)" for r f using assms(1) by (simp add: events_ok_def)
  show ?thesis
  proof (cases op)
    case (OpIssue now raw)
    then show ?thesis
      using op assms(1) by (auto simp: new_bootstrap_token_def events_ok_def emit_def event_ok_def split: option.splits)
  next
    case (OpExchange now raw1 raw2 token origin)
    with op assms(1) show ?thesis by (simp add: events_ok_exchange)
  next
    case (OpGet now cookie)
    have "events_ok (delete_session cookie s)" using assms(1) by (simp add: events_ok_def)
    then show ?thesis
      using op OpGet assms(1) upd
      by (auto simp: get_session_def Let_def short_fits reason_fits intro!: events_ok_emit split: option.splits)
  next
    case (OpReap now)
    obtain evs s1 where ev: "evict_dead now s = (evs, s1)" by fastforce
    have "events_ok (s1\<lparr>tokens := t\<rparr>)" for t
      using assms(1) evict_dead_frame(7) [of now s] ev by (simp add: events_ok_def)
    then show ?thesis
      using op OpReap evictions_fit [of now s] by (simp add: reap_def ev events_ok_log_evictions)
  next
    case OpClear
    with op assms(1) show ?thesis by (simp add: clear_def events_ok_def)
  next
    case (OpCheckCSRF c h r o')
    then show ?thesis
      using op assms(1) by (auto simp: check_csrf_def Let_def intro: events_ok_emit)
  next
    case (OpClaim r)
    then show ?thesis
      using op assms(1) by (auto simp: claim_writer_def events_ok_def)
  next
    case (OpRelease sid)
    then show ?thesis
      using op assms(1) by (auto simp: release_writer_def Let_def events_ok_def split: option.splits)
  next
    case (OpAllow now r n w b)
    have "events_ok (update_session q f (update_session r (roll_window now) s))" for q f
      using assms(1) by (simp add: events_ok_def)
    then show ?thesis
      using op OpAllow upd by (simp add: allow_def Let_def events_ok_emit short_fits)
  qed
qed

lemma reachable_events_ok: "reachable opts s \<Longrightarrow> events_ok s"
  by (induction rule: reachable.induct) (simp add: new_store_def events_ok_def, blast intro: events_ok_step)

text \<open>A sample run: one token issued and exchanged.\<close>

definition sample_options :: options where
  "sample_options = \<lparr>opt_bootstrap_ttl = 0, opt_session_ttl = 0, opt_inactivity = 0,
     opt_max_sessions = 0, opt_logger = True\<rparr>"

definition rand_of :: "nat \<Rightarrow> nat list option" where
  "rand_of k = Some (replicate 32 k)"

definition sample_secret :: "nat \<Rightarrow> string" where
  "sample_secret k = b64url (replicate 32 k)"

definition issued_store :: store where
  "issued_store = apply_op (OpIssue 0 (rand_of 7)) (new_store sample_options)"

definition exchanged_store :: store where
  "exchanged_store = apply_op (OpExchange 5 (rand_of 2) (rand_of 3) (sample_secret 7) ''http://127.0.0.1'') issued_store"

lemma rand_of_ok: "k < 256 \<Longrightarrow> rand_ok (rand_of k)"
  by (simp add: rand_ok_def rand_of_def secret_bytes_def)

lemma sample_reachable: "reachable sample_options issued_store" "reachable sample_options exchanged_store"
proof -
  show i: "reachable sample_options issued_store"
    unfolding issued_store_def
    by (rule reach_step [OF reach_init step]) (simp add: rand_of_ok)
  show "reachable sample_options exchanged_store"
    unfolding exchanged_store_def
    by (rule reach_step [OF i step]) (simp add: rand_of_ok)
qed

lemma random_secret_sample: "random_secret (rand_of k) = Some (sample_secret k)"
  by (simp add: random_secret_def rand_of_def sample_secret_def)

lemma length_sample_secret: "length (sample_secret k) = 43"
  by (simp add: sample_secret_def length_b64url)

lemma sample_secret_nonempty [simp]: "sample_secret k \<noteq> []"
  using length_sample_secret [of k] by auto

lemmas default_defs = default_if_zero_def default_bootstrap_ttl_def default_session_ttl_def
  default_inactivity_def default_max_sessions_def second_def

lemma issued_store_eq:
  "issued_store = (new_store sample_options)\<lparr>
     tokens := [(sample_secret 7, \<lparr>tok_created = 0, tok_used = False\<rparr>)],
     events := [\<lparr>ev_level = Info, ev_name = ''session.bootstrap.issued'', ev_fields = []\<rparr>]\<rparr>"
  by (simp add: issued_store_def new_bootstrap_token_def random_secret_sample emit_def new_store_def
      sample_options_def put_def)

lemma sample_exchange_eq:
  "exchange 5 (rand_of 2) (rand_of 3) (sample_secret 7) ''http://127.0.0.1'' issued_store =
   (Inr 0, issued_store\<lparr>
     heap := [\<lparr>sess_id = sample_secret 2, csrf = sample_secret 3, created = 5, last_active = 5,
               is_writer = False, window_start = Some 5, writes = 0, bytes = 0\<rparr>],
     sessions := [(sample_secret 2, 0)],
     tokens := [(sample_secret 7, \<lparr>tok_created = 0, tok_used = True\<rparr>)],
     events := events issued_store @ [\<lparr>ev_level = Info, ev_name = ''session.established'',
       ev_fields = [(''sid'', short_id (sample_secret 2)), (''origin'', ''http://127.0.0.1'')]\<rparr>]\<rparr>)"
  by (simp add: exchange_def issued_store_eq new_store_def sample_options_def default_defs evict_dead_def
      random_secret_sample log_evictions_def emit_def put_def Let_def)

lemma sample_exchange:
  "fst (exchange 5 (rand_of 2) (rand_of 3) (sample_secret 7) ''http://127.0.0.1'' issued_store) = Inr 0"
  by (simp only: sample_exchange_eq fst_conv)

lemmas exchanged_store_eq = exchanged_store_def [unfolded apply_op.simps sample_exchange_eq snd_conv]

lemmas sample_eqs = exchanged_store_eq issued_store_eq new_store_def sample_options_def default_defs

section \<open>Properties\<close>



text \<open>
  C16: A bootstrap token is single-use. Once \<open>Exchange\<close> has created a session from it, no
  later exchange of the same token succeeds, whatever operations run in between, unless the
  random generator draws the very same token again; every refusal is the same \<open>NoSession\<close>.
\<close>

theorem bootstrap_token_single_use:
  assumes "reachable opts s"
    and "fst (exchange now raw1 raw2 token origin s) = Inr r" and "rand_ok raw1" and "rand_ok raw2"
    and "run (snd (exchange now raw1 raw2 token origin s)) ops s'"
    and "\<forall>op \<in> set ops. \<not> issues token op"
  shows "fst (exchange now' raw1' raw2' token origin' s') = Inl (NoSession (Some err_bootstrap_rejected))"
proof (rule exchange_spent)
  let ?s = "snd (exchange now raw1 raw2 token origin s)"
  have "spent token ?s" using exchange_ok [OF assms(2)] by (auto simp: spent_def)
  moreover have "store_ok ?s"
    by (rule store_ok_exchange [OF reachable_ok [OF assms(1)] assms(3)])
  ultimately show "spent token s'" using run_spent [OF assms(5)] assms(6) by blast
qed

theorem bootstrap_token_single_use_witness:
  "fst (exchange 6 (rand_of 4) (rand_of 5) (sample_secret 7) ''x'' exchanged_store)
     = Inl (NoSession (Some err_bootstrap_rejected))"
proof -
  have "run (snd (exchange 5 (rand_of 2) (rand_of 3) (sample_secret 7) ''http://127.0.0.1'' issued_store)) [] exchanged_store"
    by (simp add: exchanged_store_def run_nil)
  from bootstrap_token_single_use [OF sample_reachable(1) sample_exchange rand_of_ok rand_of_ok this]
  show ?thesis by simp
qed

text \<open>
  The three ways a bootstrap token can be unusable look the same to the client: whether it
  is unknown, used or expired, \<open>Exchange\<close> returns one and the same error and creates no
  session; and a refusal for lack of capacity leaves the token as it was.
\<close>

theorem exchange_refusals:
  assumes "wf_map (tokens s)" and "fst (exchange now raw1 raw2 token origin s) = Inl e"
  shows "(spent token s \<or> (\<exists>b. get (tokens s) token = Some b \<and> bootstrap_ttl s \<le> now - tok_created b)
           \<longrightarrow> e = NoSession (Some err_bootstrap_rejected)
             \<and> sessions (snd (exchange now raw1 raw2 token origin s)) = sessions s)
    \<and> (e = RateLimited ''sessions'' 1
           \<longrightarrow> get (tokens (snd (exchange now raw1 raw2 token origin s))) token = get (tokens s) token)"
proof -
  obtain evs s1 where ev: "evict_dead now s = (evs, s1)" by fastforce
  have t1: "tokens s1 = tokens s" using evict_dead_frame(2) [of now s] ev by simp
  have ne: "NoSession c \<noteq> RateLimited k n" "IO_error m d c \<noteq> RateLimited k n" for c k n m d
    by (simp_all add: NoSession_def RateLimited_def IO_error_def)
  show ?thesis
  proof (cases "get (tokens s) token")
    case None
    with assms(2) show ?thesis by (auto simp: exchange_def ne)
  next
    case (Some b)
    show ?thesis
    proof (cases "tok_used b \<or> bootstrap_ttl s \<le> now - tok_created b")
      case True
      with Some assms(2) show ?thesis by (auto simp: exchange_def ne split: if_splits)
    next
      case False
      then have "tokens (snd (exchange now raw1 raw2 token origin s)) = tokens s"
        using Some assms(2) t1 by (auto simp: exchange_def ev Let_def split: option.splits if_splits)
      with Some False show ?thesis by (simp add: spent_def)
    qed
  qed
qed

theorem exchange_refusals_witness:
  "sessions (snd (exchange 0 None None ''x'' ''o'' issued_store)) = []"
proof -
  have "sample_secret 7 \<noteq> ''x''" using length_sample_secret [of 7] by auto
  then have "wf_map (tokens issued_store)" "sessions issued_store = []" "spent ''x'' issued_store"
    by (simp_all add: sample_eqs wf_map_def spent_def)
  moreover have "fst (exchange 0 None None ''x'' ''o'' issued_store) = Inl (NoSession (Some err_bootstrap_rejected))"
    using calculation(3) by (rule exchange_spent)
  ultimately show ?thesis using exchange_refusals by metis
qed

text \<open>
  \<open>Get\<close> returns a session exactly when the cookie names one that is within its lifetime
  and its inactivity limit; it refreshes that session's activity, and a dead session it finds
  is gone from the table, and from the writer role, before it answers.
\<close>

theorem get_session_spec:
  assumes "reachable opts s"
  shows "(\<forall>r. fst (get_session now cookie s) = Some r \<longleftrightarrow>
           get (sessions s) cookie = Some r \<and> now - created (deref s r) < session_ttl s
             \<and> now - last_active (deref s r) < inactivity s)
    \<and> (\<forall>r. fst (get_session now cookie s) = Some r \<longrightarrow>
           last_active (deref (snd (get_session now cookie s)) r) = now)
    \<and> (fst (get_session now cookie s) = None \<longrightarrow>
           get (sessions (snd (get_session now cookie s))) cookie = None
             \<and> (writer_id (snd (get_session now cookie s)) = [] \<or> writer_id (snd (get_session now cookie s)) \<noteq> cookie))"
proof -
  have ok: "store_ok s" by (rule reachable_ok [OF assms])
  have ref: "get (sessions s) cookie = Some r \<Longrightarrow> r < length (heap s)" for r
    using ok get_Some_in [of "sessions s" cookie r] by (auto simp: store_ok_def table_ok_def)
  have absent: "get (sessions s) cookie = None \<Longrightarrow> writer_id s = [] \<or> writer_id s \<noteq> cookie"
    using ok by (auto simp: store_ok_def table_ok_def dest: get_in)
  show ?thesis
    using ref absent
    by (auto simp: get_session_def Let_def dead_reason_def reason_defs deref_update_session not_le split: option.splits)
qed

theorem get_session_spec_witness:
  "fst (get_session 100 (sample_secret 2) exchanged_store) = Some 0
   \<and> last_active (deref (snd (get_session 100 (sample_secret 2) exchanged_store)) 0) = 100"
proof -
  have "fst (get_session 100 (sample_secret 2) exchanged_store) = Some 0"
    by (simp add: get_session_def sample_eqs dead_reason_def deref_def)
  with get_session_spec [OF sample_reachable(2)] show ?thesis by blast
qed

text \<open>
  C39: The quota holds over any series of writes of one session in one window: starting from
  the counters the session has, at most \<open>w\<close> writes of together at most \<open>b\<close> bytes are let
  through, however requests that are refused are mixed in; the byte counter does not overflow.
\<close>

theorem quota_bound:
  assumes "r < length (heap s)" and "window_start (deref s r) = Some t"
    and "\<forall>(now, n) \<in> set reqs. now - t < quota_window \<and> 0 \<le> n \<and> n < 2 ^ 62"
    and "0 < w" "w < 2 ^ 62" "0 < b" "b < 2 ^ 62"
    and "0 \<le> writes (deref s r)" "writes (deref s r) \<le> w" "0 \<le> bytes (deref s r)" "bytes (deref s r) \<le> b"
  shows "writes (deref s r) + int (length (accepted (allow_all r w b reqs s) reqs)) \<le> w
    \<and> bytes (deref s r) + sum_list (accepted (allow_all r w b reqs s) reqs) \<le> b"
  by (rule allow_all_bound [OF assms])

theorem quota_bound_witness:
  "allow_all 0 2 100 [(6, 60), (7, 60), (8, 40), (9, 0)] exchanged_store = [True, False, True, False]
   \<and> length (accepted (allow_all 0 2 100 [(6, 60), (7, 60), (8, 40), (9, 0)] exchanged_store)
         [(6, 60), (7, 60), (8, 40), (9, 0)]) \<le> 2"
proof
  show "allow_all 0 2 100 [(6, 60), (7, 60), (8, 40), (9, 0)] exchanged_store = [True, False, True, False]"
    by (simp add: sample_eqs allow_def deref_def update_session_def roll_window_def quota_window_def
        wrap64_def emit_def Let_def)
  have h: "length (heap exchanged_store) = 1" "window_start (deref exchanged_store 0) = Some 5"
    "writes (deref exchanged_store 0) = 0" "bytes (deref exchanged_store 0) = 0"
    by (simp_all add: sample_eqs deref_def)
  show "length (accepted (allow_all 0 2 100 [(6, 60), (7, 60), (8, 40), (9, 0)] exchanged_store)
         [(6, 60), (7, 60), (8, 40), (9, 0)]) \<le> 2"
    using quota_bound [of 0 exchanged_store 5 "[(6, 60), (7, 60), (8, 40), (9, 0)]" 2 100] h
    by (simp add: quota_window_def second_def)
qed

text \<open>
  A refused write tells the truth about when to come back: the error is \<open>RateLimited\<close>
  with a delay between one second and the whole minute of the window.
\<close>

theorem quota_retry_after:
  assumes "r < length (heap s)" and "fst (allow now (Some r) n w b s) = Some e"
  shows "ke_http e = 429 \<and> 1 \<le> ke_retry e \<and> ke_retry e \<le> 60"
proof -
  have "deref (update_session r (roll_window now) s) r = roll_window now (deref s r)"
    by (rule trans [OF deref_update_session [OF assms(1)]]) simp
  moreover have "1 \<le> retry_after now (roll_window now (deref s r)) \<and> retry_after now (roll_window now (deref s r)) \<le> 60"
    by (rule retry_after_bounds [OF roll_window_within])
  ultimately show ?thesis
    using assms(2) by (auto simp: allow_def Let_def RateLimited_def split: if_splits)
qed

theorem quota_retry_after_witness:
  "\<exists>e. fst (allow 6 (Some 0) 60 100 50 exchanged_store) = Some e \<and> ke_retry e = 60 \<and> ke_http e = 429"
proof -
  have h: "length (heap exchanged_store) = 1" by (simp add: sample_eqs)
  have e: "fst (allow 6 (Some 0) 60 100 50 exchanged_store) = Some (RateLimited ''bytes'' 60)"
    by (simp add: sample_eqs allow_def deref_def update_session_def roll_window_def quota_window_def
        retry_after_def wrap64_def Let_def)
  with quota_retry_after [OF _ e] h show ?thesis by (auto simp: RateLimited_def)
qed

text \<open>
  No secret reaches the log. Every secret is 43 characters long, and in every reachable
  state every field of every event the store has emitted, the request's own \<open>Origin\<close> apart,
  has at most 8 characters.
\<close>

theorem no_secret_in_events:
  assumes "reachable opts s" and "rand_ok raw" and "random_secret raw = Some secret"
  shows "length secret = 43 \<and> (\<forall>e \<in> set (events s). \<forall>(k, v) \<in> set (ev_fields e). k \<noteq> ''origin'' \<longrightarrow> length v \<le> 8 \<and> v \<noteq> secret)"
  using reachable_events_ok [OF assms(1)] secret_length [OF assms(2,3)]
  by (fastforce simp: events_ok_def event_ok_def)

theorem no_secret_in_events_witness:
  "map ev_name (events exchanged_store) = [''session.bootstrap.issued'', ''session.established'']
   \<and> length (sample_secret 2) = 43"
proof
  show "map ev_name (events exchanged_store) = [''session.bootstrap.issued'', ''session.established'']"
    by (simp add: sample_eqs)
  show "length (sample_secret 2) = 43"
    using no_secret_in_events [OF sample_reachable(2) rand_of_ok [of 2] random_secret_sample] by simp
qed

text \<open>
  \<open>randomSecret\<close> loses nothing: different random bytes give different secrets, so the
  43 characters carry all 256 bits.
\<close>

theorem secret_injective:
  assumes "rand_ok (Some bs)" and "rand_ok (Some bs')"
  shows "random_secret (Some bs) = random_secret (Some bs') \<longleftrightarrow> bs = bs'"
  using assms b64url_inj [of bs bs'] by (auto simp: rand_ok_def random_secret_def)

theorem secret_injective_witness:
  "random_secret (rand_of 1) \<noteq> random_secret (rand_of 2)"
proof -
  have "replicate 32 (1 :: nat) \<noteq> replicate 32 2" by simp
  then show ?thesis
    using secret_injective [of "replicate 32 1" "replicate 32 2"] rand_of_ok [of 1] rand_of_ok [of 2]
    by (simp add: rand_of_def)
qed

text \<open>
  The writer role can be stranded: \<open>ClaimWriter\<close> does not check that the session it is
  given is still in the table. Claimed through the pointer of an evicted session, the role is
  held by an id no session has, every session of the table is refused, and neither \<open>Reap\<close> nor
  \<open>Get\<close> frees it.
\<close>

theorem writer_stranded_by_dead_claim:
  assumes "reachable opts s" and "writer_id s = []" and "r < length (heap s)"
    and "sess_id (deref s r) \<noteq> []" and "get (sessions s) (sess_id (deref s r)) = None"
  defines "s' \<equiv> snd (claim_writer (Some r) s)"
  shows "fst (claim_writer (Some r) s) = None
    \<and> (\<forall>sid q. get (sessions s') sid = Some q \<longrightarrow> fst (claim_writer (Some q) s') = Some (WriterHeld (sess_id (deref s r))))
    \<and> writer_id (reap now s') = sess_id (deref s r)
    \<and> writer_id (snd (get_session now cookie s')) = sess_id (deref s r)"
proof -
  let ?sid = "sess_id (deref s r)"
  have ok: "store_ok s" by (rule reachable_ok [OF assms(1)])
  have s': "s' = update_session r (\<lambda>x. x\<lparr>is_writer := True\<rparr>) (s\<lparr>writer_id := ?sid\<rparr>)"
    using assms(2) by (simp add: s'_def claim_writer_def)
  have w: "writer_id s' = ?sid" "sessions s' = sessions s" by (simp_all add: s')
  have ids: "sess_id (deref s' q) = sess_id (deref s q)" for q
    using assms(3) by (simp add: s' deref_update_session deref_def nth_list_update update_session_def)
  have table: "q < length (heap s) \<and> sess_id (deref s q) = sid" if "get (sessions s) sid = Some q" for sid q
    using ok get_Some_in [OF that] by (auto simp: store_ok_def table_ok_def deref_def)
  have "?sid \<notin> fst ` set (sessions s)"
    using assms(5) ok by (auto simp: store_ok_def table_ok_def dest: get_in)
  then have reap: "writer_id (snd (evict_dead now s')) = ?sid"
    using evict_dead_spec(2) [of s' now] ok w by (auto simp: store_ok_def table_ok_def)
  show ?thesis
  proof (intro conjI allI impI)
    show "fst (claim_writer (Some r) s) = None" using assms(2) by (simp add: claim_writer_def)
    show "fst (claim_writer (Some q) s') = Some (WriterHeld ?sid)" if "get (sessions s') sid = Some q" for sid q
      using that table [of sid q] w ids [of q] assms(4,5) by (auto simp: claim_writer_def)
    show "writer_id (reap now s') = ?sid"
      using reap by (simp add: reap_def case_prod_unfold Let_def)
    show "writer_id (snd (get_session now cookie s')) = ?sid"
      using w assms(5) by (auto simp: get_session_def Let_def split: option.splits)
  qed
qed

text \<open>A run in which the session expires while a request still holds its pointer.\<close>

definition reaped_store :: store where
  "reaped_store = apply_op (OpReap (9 * 3600 * second)) exchanged_store"

theorem writer_stranded_by_dead_claim_witness:
  "writer_id (reap 0 (snd (claim_writer (Some 0) reaped_store))) = sample_secret 2"
proof -
  have "reachable sample_options reaped_store"
    unfolding reaped_store_def by (rule reach_step [OF sample_reachable(2) step]) simp
  moreover have "writer_id reaped_store = []" "length (heap reaped_store) = 1"
    "sess_id (deref reaped_store 0) = sample_secret 2" "sessions reaped_store = []"
    by (simp_all add: reaped_store_def reap_def evict_dead_def sample_eqs deref_def dead_reason_def
        reason_defs delete_session_def del_def log_evictions_def emit_def Let_def)
  ultimately show ?thesis
    using writer_stranded_by_dead_claim [of sample_options reaped_store 0] by simp
qed

end
