(* ===== verification/Paths.thy ===== *)
theory Paths
  imports Prelude "HOL-Library.Char_ord"
begin

text \<open>
  \<open>launcher/internal/paths\<close>: lexical path operations (Go's \<open>path.Clean\<close>,
  \<open>filepath.Join\<close> and \<open>filepath.Rel\<close> on a Unix system), the confinement check, the
  Windows device names, game ids, and the derivation of the game folder from the executable.
  What the operating system answers (absolute paths, symbolic links, \<open>os.Stat\<close>) is the
  parameter \<open>os_view\<close>.
\<close>

section \<open>Lexical paths\<close>

definition rooted :: "string \<Rightarrow> bool" where
  "rooted p = (case p of [] \<Rightarrow> False | c # _ \<Rightarrow> c = slash)"

text \<open>
  \<open>path.Clean\<close> over the segments of a path, with the output kept reversed: empty and dot
  segments are dropped, a dot-dot removes the segment before it, and one that has nothing
  before it is dropped in a rooted path and kept in a relative one.
\<close>

definition clean_step :: "bool \<Rightarrow> string list \<Rightarrow> string \<Rightarrow> string list" where
  "clean_step r out s =
     (if s = [] \<or> s = [dot] then out
      else if s = [dot, dot] then
        (case out of
           [] \<Rightarrow> if r then [] else [s]
         | t # ts \<Rightarrow> if t = [dot, dot] then s # out else ts)
      else s # out)"

definition clean_segs :: "bool \<Rightarrow> string list \<Rightarrow> string list \<Rightarrow> string list" where
  "clean_segs r out ss = rev (foldl (clean_step r) out ss)"

definition segs_of :: "string \<Rightarrow> string list" where
  "segs_of p = clean_segs (rooted p) [] (split_on slash p)"

definition clean :: "string \<Rightarrow> string" where
  "clean p =
     (if rooted p then slash # join_on slash (segs_of p)
      else if segs_of p = [] then [dot] else join_on slash (segs_of p))"

text \<open>\<open>filepath.Join\<close> of two elements: empty elements are ignored, the result is cleaned.\<close>

definition join_path :: "string \<Rightarrow> string \<Rightarrow> string" where
  "join_path a b =
     (if a = [] \<and> b = [] then []
      else if a = [] then clean b
      else if b = [] then clean a
      else clean (a @ slash # b))"

text \<open>
  A segment that a cleaned rooted path can hold: not empty, not a dot or dot-dot, and
  without a separator.
\<close>

definition plain_seg :: "string \<Rightarrow> bool" where
  "plain_seg s = (s \<noteq> [] \<and> s \<noteq> [dot] \<and> s \<noteq> [dot, dot] \<and> slash \<notin> set s)"

lemma clean_step_plain:
  "slash \<notin> set s \<Longrightarrow> \<forall>x \<in> set out. plain_seg x \<Longrightarrow> \<forall>x \<in> set (clean_step True out s). plain_seg x"
  by (cases out) (auto simp: clean_step_def plain_seg_def)

lemma clean_step_nonempty:
  "slash \<notin> set s \<Longrightarrow> \<forall>x \<in> set out. x \<noteq> [] \<and> slash \<notin> set x \<Longrightarrow>
   \<forall>x \<in> set (clean_step r out s). x \<noteq> [] \<and> slash \<notin> set x"
  by (cases out) (auto simp: clean_step_def)

lemma clean_step_id: "plain_seg s \<Longrightarrow> clean_step r out s = s # out"
  by (auto simp: clean_step_def plain_seg_def)

lemma clean_step_Nil [simp]: "clean_step r out [] = out"
  by (simp add: clean_step_def)

lemma clean_segs_plain:
  assumes "\<forall>s \<in> set ss. slash \<notin> set s" and "\<forall>s \<in> set out. plain_seg s"
  shows "\<forall>s \<in> set (clean_segs True out ss). plain_seg s"
  using assms
proof (induction ss arbitrary: out)
  case (Cons s ss)
  from Cons.prems have "\<forall>x \<in> set (clean_step True out s). plain_seg x"
    by (intro clean_step_plain) simp_all
  with Cons.IH [of "clean_step True out s"] Cons.prems(1) show ?case
    by (simp add: clean_segs_def)
qed (simp add: clean_segs_def)

lemma clean_segs_nonempty:
  assumes "\<forall>s \<in> set ss. slash \<notin> set s" and "\<forall>s \<in> set out. s \<noteq> [] \<and> slash \<notin> set s"
  shows "\<forall>s \<in> set (clean_segs r out ss). s \<noteq> [] \<and> slash \<notin> set s"
  using assms
proof (induction ss arbitrary: out)
  case (Cons s ss)
  from Cons.prems have "\<forall>x \<in> set (clean_step r out s). x \<noteq> [] \<and> slash \<notin> set x"
    by (intro clean_step_nonempty) simp_all
  with Cons.IH [of "clean_step r out s"] Cons.prems(1) show ?case
    by (simp add: clean_segs_def)
qed (simp add: clean_segs_def)

lemma split_segs_no_sep: "\<forall>f \<in> set (split_on slash p). slash \<notin> set f"
  by (blast dest: split_on_no_sep)

lemma segs_of_plain: "rooted p \<Longrightarrow> s \<in> set (segs_of p) \<Longrightarrow> plain_seg s"
  using clean_segs_plain [of "split_on slash p" "[]"] split_segs_no_sep [of p]
  by (simp add: segs_of_def)

lemma clean_segs_id:
  "\<forall>s \<in> set ss. plain_seg s \<Longrightarrow> clean_segs r out ss = rev out @ ss"
  by (induction ss arbitrary: out) (auto simp: clean_segs_def clean_step_id)

lemma clean_segs_append: "clean_segs r out (ss @ ts) = clean_segs r (rev (clean_segs r out ss)) ts"
  by (simp add: clean_segs_def)

lemma rooted_join_on:
  assumes "ss \<noteq> []" and ne: "\<forall>s \<in> set ss. s \<noteq> [] \<and> slash \<notin> set s"
  shows "\<not> rooted (join_on slash ss)"
proof -
  obtain s ts where ss: "ss = s # ts" using assms(1) by (cases ss) auto
  with ne obtain c cs where s: "s = c # cs" "c \<noteq> slash" by (cases s) auto
  show ?thesis by (cases ts) (simp_all add: ss s rooted_def)
qed

lemma segs_of_nonempty: "\<forall>s \<in> set (segs_of p). s \<noteq> [] \<and> slash \<notin> set s"
  unfolding segs_of_def by (rule clean_segs_nonempty [OF split_segs_no_sep]) simp

lemma rooted_simps [simp]: "rooted (slash # p)" "\<not> rooted [dot]" "\<not> rooted []"
  by (simp_all add: rooted_def)

lemma rooted_clean [simp]: "rooted (clean p) = rooted p"
  using segs_of_nonempty [of p] rooted_join_on [of "segs_of p"]
  by (cases "rooted p"; cases "segs_of p = []") (simp_all add: clean_def)

text \<open>Cleaning is idempotent on rooted paths, and the segments of a cleaned path are itself.\<close>

lemma segs_of_clean:
  assumes "rooted p"
  shows "segs_of (clean p) = segs_of p"
proof -
  have plain: "\<forall>x \<in> set (segs_of p). plain_seg x"
    by (blast intro: segs_of_plain assms)
  have c: "clean p = slash # join_on slash (segs_of p)"
    using assms by (simp add: clean_def)
  show ?thesis
  proof (cases "segs_of p")
    case Nil
    with c show ?thesis by (simp add: segs_of_def clean_segs_def)
  next
    case (Cons s ss)
    then have "split_on slash (join_on slash (segs_of p)) = segs_of p"
      using plain by (intro split_join_on) (auto simp: plain_seg_def)
    with c have "segs_of (clean p) = clean_segs True [] ([] # segs_of p)"
      by (simp add: segs_of_def)
    also have "\<dots> = segs_of p"
      using clean_segs_id [OF plain, of True "[]"] by (simp add: clean_segs_def)
    finally show ?thesis .
  qed
qed

lemma split_on_app_sep: "split_on c (a @ c # b) = split_on c a @ split_on c b"
proof (induction a)
  case Nil
  then show ?case by simp
next
  case (Cons x a)
  then show ?case
    by (cases "split_on c a") auto
qed

text \<open>
  The segments of \<open>Join(a, b)\<close> for a rooted \<open>a\<close>: those of \<open>a\<close>, continued by the
  segments of \<open>b\<close>, whose dot-dots can climb out of \<open>a\<close>.
\<close>

lemma segs_of_join:
  assumes "rooted a" and "b \<noteq> []"
  shows "segs_of (join_path a b) = clean_segs True (rev (segs_of a)) (split_on slash b)"
proof -
  have ne: "a \<noteq> []" and r: "rooted (a @ slash # b)"
    using assms(1) by (auto simp: rooted_def split: list.splits)
  have "segs_of (join_path a b) = segs_of (a @ slash # b)"
    using ne assms(2) r by (simp add: join_path_def segs_of_clean)
  also have "\<dots> = clean_segs True (rev (segs_of a)) (split_on slash b)"
    using r assms(1) by (simp add: segs_of_def split_on_app_sep clean_segs_append)
  finally show ?thesis .
qed

lemma rooted_append: "rooted a \<Longrightarrow> rooted (a @ b)"
  by (cases a) (auto simp: rooted_def)

lemma rooted_not_Nil: "rooted a \<Longrightarrow> a \<noteq> []"
  by (auto simp: rooted_def)

lemma rooted_join [simp]: "rooted a \<Longrightarrow> rooted (join_path a b)"
  by (simp add: join_path_def rooted_not_Nil rooted_append)

text \<open>Joining one plain segment appends it.\<close>

lemma segs_of_join_plain:
  assumes "rooted a" and "plain_seg s"
  shows "segs_of (join_path a s) = segs_of a @ [s]"
  using assms segs_of_join [OF assms(1), of s] clean_segs_id [of "[s]"]
  by (auto simp: plain_seg_def split_on_single)

section \<open>filepath.Rel and confinement\<close>

fun drop_common :: "string list \<Rightarrow> string list \<Rightarrow> string list \<times> string list" where
  "drop_common (b # bs) (t # ts) = (if b = t then drop_common bs ts else (b # bs, t # ts))"
| "drop_common bs ts = (bs, ts)"

text \<open>
  \<open>filepath.Rel\<close>: both paths are cleaned, their common leading segments are dropped, and
  the rest of the base is climbed with dot-dots. It fails when one path is rooted and the
  other is not, and when the base itself climbs.
\<close>

definition rel_segs :: "string \<Rightarrow> string \<Rightarrow> (string list) option" where
  "rel_segs base targ =
     (if rooted base \<noteq> rooted targ then None
      else
        let (bs, ts) = drop_common (segs_of base) (segs_of targ)
        in case bs of
             [] \<Rightarrow> Some ts
           | b # _ \<Rightarrow> if b = [dot, dot] then None
                      else Some (replicate (length bs) [dot, dot] @ ts))"

definition rel_path :: "string \<Rightarrow> string \<Rightarrow> string option" where
  "rel_path base targ =
     (case rel_segs base targ of
        None \<Rightarrow> None
      | Some [] \<Rightarrow> Some [dot]
      | Some ss \<Rightarrow> Some (join_on slash ss))"

text \<open>\<open>paths.Confine\<close>: whether \<open>full\<close> is inside \<open>root\<close>.\<close>

definition confine :: "string \<Rightarrow> string \<Rightarrow> bool" where
  "confine root full =
     (case rel_path root full of
        None \<Rightarrow> False
      | Some rel \<Rightarrow> \<not> (rel = [dot, dot] \<or> prefix [dot, dot, slash] rel \<or> rooted rel))"

lemma drop_common_prefix:
  "drop_common bs ts = ([], ts') \<longleftrightarrow> bs @ ts' = ts"
  by (induction bs ts rule: drop_common.induct) auto

lemma drop_common_parts:
  assumes "drop_common bs ts = (bs', ts')"
  shows "\<exists>pre. bs = pre @ bs' \<and> ts = pre @ ts'"
  using assms
proof (induction bs ts rule: drop_common.induct)
  case (1 b bs t ts)
  then show ?case
    by (metis append_Cons append_Nil drop_common.simps(1) prod.inject)
qed auto

lemma join_plain_head:
  assumes "plain_seg s" and "\<forall>x \<in> set ss. plain_seg x"
  shows "\<not> prefix [dot, dot, slash] (join_on slash (s # ss)) \<and> join_on slash (s # ss) \<noteq> [dot, dot]
    \<and> \<not> rooted (join_on slash (s # ss))"
proof -
  obtain rest where j: "join_on slash (s # ss) = s @ rest" "rest = [] \<or> hd rest = slash"
    by (cases ss) auto
  have s: "s \<noteq> []" "s \<noteq> [dot]" "s \<noteq> [dot, dot]" "slash \<notin> set s"
    using assms(1) by (auto simp: plain_seg_def)
  show ?thesis
    using s j(2) unfolding j(1) prefix_def rooted_def
    apply (cases s)
     apply simp
    subgoal for c cs
      apply (cases cs)
       apply (cases rest; auto)
      subgoal for d ds
        apply (cases ds)
         apply (cases rest; auto)
        apply (auto)
        done
      done
    done
qed

lemma climb_not_confined:
  "b \<noteq> [] \<Longrightarrow> join_on slash (replicate (length b) [dot, dot] @ ts) = [dot, dot]
    \<or> prefix [dot, dot, slash] (join_on slash (replicate (length b) [dot, dot] @ ts))"
  by (cases b; cases "tl b"; cases ts) (auto simp: prefix_def)

text \<open>
  For rooted paths the check is exactly containment: the cleaned segments of the root are a
  prefix of those of the path.
\<close>

lemma confine_iff_prefix:
  assumes "rooted root" and "rooted full"
  shows "confine root full \<longleftrightarrow> prefix (segs_of root) (segs_of full)"
proof -
  obtain bs ts where d: "drop_common (segs_of root) (segs_of full) = (bs, ts)"
    by (meson surj_pair)
  obtain pre where pre: "segs_of root = pre @ bs" "segs_of full = pre @ ts"
    using drop_common_parts [OF d] by blast
  have plain: "\<forall>x \<in> set bs. plain_seg x" "\<forall>x \<in> set ts. plain_seg x"
    using segs_of_plain assms pre by (metis Un_iff set_append)+
  show ?thesis
  proof (cases bs)
    case Nil
    then have p: "prefix (segs_of root) (segs_of full)"
      using pre by simp
    show ?thesis
    proof (cases ts)
      case Nil' : Nil
      with Nil d assms p show ?thesis
        by (simp add: confine_def rel_path_def rel_segs_def rooted_def)
    next
      case (Cons t ts')
      with Nil d assms p plain join_plain_head [of t ts'] show ?thesis
        by (simp add: confine_def rel_path_def rel_segs_def)
    qed
  next
    case (Cons b bs')
    have "\<not> prefix (segs_of root) (segs_of full)"
    proof
      assume "prefix (segs_of root) (segs_of full)"
      then obtain zs where "segs_of root @ zs = segs_of full" by (auto simp: prefix_def)
      then have "drop_common (segs_of root) (segs_of full) = ([], zs)"
        by (simp add: drop_common_prefix)
      with d Cons show False by simp
    qed
    moreover have "b \<noteq> [dot, dot]"
      using plain(1) Cons by (simp add: plain_seg_def)
    ultimately show ?thesis
      using Cons d assms climb_not_confined [of bs ts]
      by (auto simp: confine_def rel_path_def rel_segs_def split: list.splits)
  qed
qed

section \<open>Device names and game ids\<close>

text \<open>
  \<open>paths.ReservedName\<close>: the extension is cut at the first dot, trailing spaces are
  dropped, and the rest is compared without case.
\<close>

definition dot_or_space :: "char \<Rightarrow> bool" where
  "dot_or_space c = (c = dot \<or> c = CHR '' '')"

definition reserved_base :: "string \<Rightarrow> string" where
  "reserved_base seg =
     (let base = (case index_byte seg dot of None \<Rightarrow> seg | Some i \<Rightarrow> take i seg)
      in map to_upper_ascii (trim_right_by (\<lambda>c. c = CHR '' '') base))"

definition reserved_name :: "string \<Rightarrow> bool" where
  "reserved_name seg =
     (if seg = [] then False
      else if list_all dot_or_space seg then True
      else
        let base = reserved_base seg
        in if base = ''CON'' \<or> base = ''NUL'' \<or> base = ''AUX'' \<or> base = ''PRN'' then True
           else if length base = 4 \<and> (prefix ''COM'' base \<or> prefix ''LPT'' base)
           then CHR ''1'' \<le> base ! 3 \<and> base ! 3 \<le> CHR ''9''
           else False)"

text \<open>
  \<open>ValidateGameID\<close>: the pattern \<open>[a-z0-9]+(.[a-z0-9-]+)+\<close>, read as dot-separated
  parts: at least two, none empty, a dash only after the first dot.
\<close>

definition id_char :: "char \<Rightarrow> bool" where
  "id_char c = (is_digit c \<or> (97 \<le> (of_char c :: nat) \<and> (of_char c :: nat) \<le> 122))"

definition valid_game_id :: "string \<Rightarrow> bool" where
  "valid_game_id s =
     (case split_on dot s of
        [] \<Rightarrow> False
      | p # ps \<Rightarrow> p \<noteq> [] \<and> list_all id_char p \<and> ps \<noteq> [] \<and>
                  list_all (\<lambda>q. q \<noteq> [] \<and> list_all (\<lambda>c. id_char c \<or> c = CHR ''-'') q) ps)"

definition port_devices :: "string list" where
  "port_devices = map (\<lambda>d. ''COM'' @ [d]) ''123456789'' @ map (\<lambda>d. ''LPT'' @ [d]) ''123456789''"

definition device_names :: "string list" where
  "device_names = [''CON'', ''NUL'', ''AUX'', ''PRN''] @ port_devices"

lemma digit_1_9:
  "CHR ''1'' \<le> c \<and> c \<le> CHR ''9'' \<longleftrightarrow>
   c \<in> set ''123456789''"
proof -
  have range: "48 < n \<and> n < 58 \<longleftrightarrow> n \<in> {49, 50, 51, 52, 53, 54, 55, 56, 57}" for n :: nat
  proof -
    have "48 < n \<and> n < 58 \<longleftrightarrow> n \<in> set [49..<58]" by auto
    also have "[49..<58] = [49, 50, 51, 52, 53, 54, 55, 56, 57 :: nat]" by simp
    finally show ?thesis by simp
  qed
  have "CHR ''1'' \<le> c \<and> c \<le> CHR ''9'' \<longleftrightarrow> 48 < (of_char c :: nat) \<and> (of_char c :: nat) < 58"
    by (auto simp: less_eq_char_def)
  also have "\<dots> \<longleftrightarrow> (of_char c :: nat) \<in> {49, 50, 51, 52, 53, 54, 55, 56, 57}"
    by (rule range)
  finally show ?thesis
    by (simp flip: of_char_eq_iff [where 'a = nat])
qed

lemma image_snoc: "[a, b, c, d] \<in> (\<lambda>e. [x, y, z] @ [e]) ` D \<longleftrightarrow> [a, b, c] = [x, y, z] \<and> d \<in> D"
  by auto

lemma port_devices_iff:
  "[a, b, c, d] \<in> set port_devices \<longleftrightarrow>
   ([a, b, c] = ''COM'' \<or> [a, b, c] = ''LPT'')
   \<and> d \<in> set ''123456789''"
  unfolding port_devices_def set_append set_map Un_iff image_snoc by (simp add: conj_disj_distribR)

lemma port_devices_length: "base \<in> set port_devices \<Longrightarrow> length base = 4"
proof -
  show "base \<in> set port_devices \<Longrightarrow> length base = 4" by (auto simp: port_devices_def)
qed

lemma reserved_port_devices:
  "length base = 4 \<and> (prefix ''COM'' base \<or> prefix ''LPT'' base)
     \<and> CHR ''1'' \<le> base ! 3 \<and> base ! 3 \<le> CHR ''9'' \<longleftrightarrow> base \<in> set port_devices"
proof (cases "length base = 4")
  case True
  then obtain a b c d where base: "base = [a, b, c, d]"
    by (auto simp: numeral_eq_Suc length_Suc_conv)
  have "prefix ''COM'' base \<longleftrightarrow> [a, b, c] = ''COM''" "prefix ''LPT'' base \<longleftrightarrow> [a, b, c] = ''LPT''"
    by (auto simp: base)
  then show ?thesis
    unfolding base port_devices_iff using digit_1_9 [of d] by simp
next
  case False
  then show ?thesis using port_devices_length by blast
qed

lemma reserved_base_devices:
  "base = ''CON'' \<or> base = ''NUL'' \<or> base = ''AUX'' \<or> base = ''PRN''
    \<or> base \<in> set port_devices \<longleftrightarrow> base \<in> set device_names"
  by (simp add: device_names_def)

lemma valid_game_id_plain:
  assumes "valid_game_id s"
  shows "plain_seg s"
proof -
  obtain p q ps where sp: "split_on dot s = p # q # ps"
    and p: "p \<noteq> []" "list_all id_char p"
    and ps: "list_all (\<lambda>q. q \<noteq> [] \<and> list_all (\<lambda>c. id_char c \<or> c = CHR ''-'') q) (q # ps)"
    using assms by (cases "split_on dot s"; cases "tl (split_on dot s)") (simp_all add: valid_game_id_def)
  have s: "s = p @ dot # join_on dot (q # ps)"
    using join_split_on [of dot s] by (simp add: sp)
  have "slash \<notin> set f" if "f \<in> set (split_on dot s)" for f
  proof -
    have "\<forall>c \<in> set f. id_char c \<or> c = CHR ''-''"
      using that p ps by (auto simp: sp list_all_iff)
    moreover have "\<not> id_char slash" "slash \<noteq> CHR ''-''"
      by (simp_all add: id_char_def is_digit_def slash_def)
    ultimately show ?thesis by blast
  qed
  then have "slash \<notin> set (join_on dot (split_on dot s))"
    using set_join_on [of dot "split_on dot s"] by auto
  moreover have "dot \<notin> set p"
    using p by (auto simp: list_all_iff id_char_def is_digit_def dot_def)
  ultimately show ?thesis
    using p unfolding plain_seg_def join_split_on
    by (cases p) (auto simp: s)
qed

section \<open>The game folder\<close>

text \<open>\<open>filepath.Dir\<close>: everything up to the last separator, cleaned.\<close>

definition dir_of :: "string \<Rightarrow> string" where
  "dir_of p = clean (rev (dropWhile (\<lambda>c. c \<noteq> slash) (rev p)))"

text \<open>
  What the operating system answers: \<open>filepath.Abs\<close>, \<open>filepath.EvalSymlinks\<close> (failing
  is \<^term>\<open>None\<close>) and \<open>os.Stat\<close> (\<^term>\<open>Some d\<close> for an existing entry, \<open>d\<close>
  when it is a directory).
\<close>

record os_view =
  os_abs :: "string \<Rightarrow> string option"
  os_eval :: "string \<Rightarrow> string option"
  os_stat :: "string \<Rightarrow> bool option"

datatype path_error = ErrExecutable | ErrConfigMissing | ErrGameFilesMiss | ErrNoOverride | ErrDataDir

datatype folder_kind = Canonical | Nested | FolderOverride
datatype data_kind = DataGame | DataOverride

record root =
  game_folder :: string
  game_dir :: string
  data_dir :: string
  launcher_dir :: string
  config_path :: string
  data_dir_kind :: data_kind
  folder_kind :: folder_kind

definition config_rel_path :: string where
  "config_rel_path = ''launcher/launcher.config.json''"

definition user_message :: "path_error \<Rightarrow> string" where
  "user_message e =
     (case e of
        ErrExecutable \<Rightarrow> ''Couldn''@ CHR 0x27 # ''t determine where the launcher is running from. Try moving the game folder to a local drive.''
      | ErrConfigMissing \<Rightarrow> ''The launcher''@ CHR 0x27 # ''s configuration file is missing. Re-extract the game archive.''
      | ErrGameFilesMiss \<Rightarrow> ''The game files are missing. Re-extract the game archive, or apply the latest update.''
      | _ \<Rightarrow> ''The launcher could not start.'')"

definition looks_like_game_folder :: "os_view \<Rightarrow> string \<Rightarrow> bool" where
  "looks_like_game_folder v dir =
     (os_stat v (join_path dir config_rel_path) \<noteq> None
      \<and> os_stat v (join_path dir ''game'') = Some True)"

definition build_root :: "os_view \<Rightarrow> string \<Rightarrow> folder_kind \<Rightarrow> string \<Rightarrow> path_error + root" where
  "build_root v root kind data_override =
     (if os_stat v (join_path root config_rel_path) = None then Inl ErrConfigMissing
      else
        let gdir = join_path root ''game''
        in if os_stat v (join_path gdir ''index.html'') \<noteq> Some False then Inl ErrGameFilesMiss
           else
             let r = \<lparr>game_folder = root, game_dir = gdir,
                      data_dir = join_path root ''data'',
                      launcher_dir = join_path root ''launcher'',
                      config_path = join_path root config_rel_path,
                      data_dir_kind = DataGame, folder_kind = kind\<rparr>
             in if trim_space data_override \<noteq> [] then
                  (case os_abs v data_override of
                     None \<Rightarrow> Inl ErrDataDir
                   | Some d \<Rightarrow> Inr (r\<lparr>data_dir := clean d, data_dir_kind := DataOverride\<rparr>))
                else Inr r)"

definition real_executable :: "os_view \<Rightarrow> string \<Rightarrow> string option" where
  "real_executable v exec =
     (if exec = [] then None
      else case os_abs v exec of
             None \<Rightarrow> None
           | Some a \<Rightarrow> Some (case os_eval v a of None \<Rightarrow> a | Some t \<Rightarrow> t))"

definition resolve :: "os_view \<Rightarrow> string \<Rightarrow> string \<Rightarrow> path_error + root" where
  "resolve v exec data_override =
     (case real_executable v exec of
        None \<Rightarrow> Inl ErrExecutable
      | Some a \<Rightarrow>
          let root = dir_of (dir_of a); parent = dir_of root
          in if \<not> looks_like_game_folder v root \<and> parent \<noteq> root \<and> looks_like_game_folder v parent
             then build_root v parent Nested data_override
             else build_root v root Canonical data_override)"

definition resolve_with_override :: "os_view \<Rightarrow> string \<Rightarrow> string \<Rightarrow> path_error + root" where
  "resolve_with_override v folder data_override =
     (if trim_space folder = [] then Inl ErrNoOverride
      else case os_abs v folder of
             None \<Rightarrow> Inl ErrConfigMissing
           | Some a \<Rightarrow>
               build_root v (case os_eval v a of None \<Rightarrow> a | Some t \<Rightarrow> t) FolderOverride data_override)"

definition game_folder_from_executable :: "os_view \<Rightarrow> string \<Rightarrow> path_error + string" where
  "game_folder_from_executable v exec =
     (case real_executable v exec of
        None \<Rightarrow> Inl ErrExecutable
      | Some a \<Rightarrow>
          let root = dir_of (dir_of a)
          in if os_stat v (join_path root config_rel_path) = None then
               (let parent = dir_of root
                in if parent \<noteq> root \<and> os_stat v (join_path parent config_rel_path) \<noteq> None
                   then Inr parent else Inl ErrConfigMissing)
             else Inr root)"

section \<open>The sidecar directory\<close>

text \<open>
  The environment \<open>SidecarDirFor\<close> reads, on the two Unix families (Windows joins with
  another separator and is left out): \<open>XDG_STATE_HOME\<close> (empty when unset) and the home
  directory.
\<close>

datatype unix_os = Darwin | OtherUnix

record sidecar_env =
  env_os :: unix_os
  env_xdg_state :: string
  env_home :: "string option"

datatype sidecar_error = EmptyGameId | BadGameId | NoHome | NotWritable

text \<open>The directory the per-game directories live in: the elements joined before the id.\<close>

definition state_root :: "sidecar_env \<Rightarrow> string option" where
  "state_root env =
     (case env_os env of
        Darwin \<Rightarrow>
          map_option (\<lambda>home. join_path (join_path (join_path home ''Library'') ''Application Support'') ''KobraGames'')
            (env_home env)
      | OtherUnix \<Rightarrow>
          (if env_xdg_state env \<noteq> [] then Some (join_path (env_xdg_state env) ''kobra-games'')
           else map_option (\<lambda>home. join_path (join_path (join_path home ''.local'') ''state'') ''kobra-games'')
                  (env_home env)))"

definition sidecar_dir_for :: "sidecar_env \<Rightarrow> string \<Rightarrow> sidecar_error + string" where
  "sidecar_dir_for env gid =
     (if gid = [] then Inl EmptyGameId
      else if \<not> valid_game_id gid then Inl BadGameId
      else case state_root env of None \<Rightarrow> Inl NoHome | Some base \<Rightarrow> Inr (join_path base gid))"

lemma state_root_rooted:
  "state_root env = Some b \<Longrightarrow> \<forall>h. env_home env = Some h \<longrightarrow> rooted h \<Longrightarrow>
   env_xdg_state env = [] \<or> rooted (env_xdg_state env) \<Longrightarrow> rooted b"
  by (auto simp: state_root_def split: unix_os.splits if_splits)

definition fallback_sidecar_dir :: "string \<Rightarrow> string" where
  "fallback_sidecar_dir folder = join_path folder ''.kobra''"

datatype sidecar_kind = SidecarNative | SidecarFallback

record sidecar =
  sidecar_dir :: string
  sidecar_log_dir :: string
  sidecar_kind :: sidecar_kind

text \<open>
  \<open>Root.SetSidecar\<close>; \<open>writable\<close> is the probe \<open>dirWritable\<close> makes of a
  non-empty directory name (create it, create and remove a file in it).
\<close>

definition set_sidecar :: "(string \<Rightarrow> bool) \<Rightarrow> string \<Rightarrow> string \<Rightarrow> sidecar_error + sidecar" where
  "set_sidecar writable native fallback =
     (if native \<noteq> [] \<and> writable native
      then Inr \<lparr>sidecar_dir = native, sidecar_log_dir = join_path native ''logs'', sidecar_kind = SidecarNative\<rparr>
      else if fallback \<noteq> [] \<and> writable fallback
      then Inr \<lparr>sidecar_dir = fallback, sidecar_log_dir = join_path fallback ''logs'', sidecar_kind = SidecarFallback\<rparr>
      else Inl NotWritable)"

section \<open>Properties\<close>

text \<open>
  C28: On rooted paths \<open>paths.Confine\<close> is exactly containment: it accepts \<open>full\<close> if and
  only if the cleaned segments of \<open>full\<close> continue those of \<open>root\<close>, whatever dots,
  dot-dots and doubled separators either path is written with.
\<close>

theorem confine_is_containment:
  assumes "rooted root" and "rooted full"
  shows "confine root full \<longleftrightarrow> (\<exists>rest. segs_of full = segs_of root @ rest)"
  using confine_iff_prefix [OF assms] by (auto simp: prefix_def)

theorem confine_is_containment_witness:
  "confine ''/g/data'' ''/g//data/saves/../saves/a.json'' \<and> \<not> confine ''/g/data'' ''/g/data/../x''"
proof -
  have r: "rooted ''/g/data''" "rooted ''/g//data/saves/../saves/a.json''" "rooted ''/g/data/../x''"
    by (simp_all add: rooted_def slash_def)
  have "segs_of ''/g/data'' = [''g'', ''data'']"
    "segs_of ''/g//data/saves/../saves/a.json'' = [''g'', ''data'', ''saves'', ''a.json'']"
    "segs_of ''/g/data/../x'' = [''g'', ''x'']"
    by (simp_all add: segs_of_def clean_segs_def clean_step_def slash_def dot_def rooted_def)
  then show ?thesis
    using confine_is_containment [OF r(1) r(2)] confine_is_containment [OF r(1) r(3)] by simp
qed

text \<open>
  \<open>paths.ReservedName\<close> is the Windows rule: a non-empty segment is refused exactly when
  it is made of dots and spaces only, or when its part before the first dot, without trailing
  spaces and in upper case, is one of the 22 device names.
\<close>

theorem reserved_name_spec:
  "reserved_name seg \<longleftrightarrow>
     seg \<noteq> [] \<and> (list_all dot_or_space seg \<or> reserved_base seg \<in> set device_names)"
  using reserved_port_devices [of "reserved_base seg"] reserved_base_devices [of "reserved_base seg"]
  by (auto simp: reserved_name_def Let_def)

text \<open>
  \<open>Resolve\<close> derives the game folder from the executable alone: on success the folder is
  two levels above the (symlink-resolved) executable, or one more where only that one looks
  like a game folder; the configuration file exists there and \<open>game/index.html\<close> is a file.
\<close>

theorem resolve_game_folder:
  assumes "resolve v exec ov = Inr r"
  shows "\<exists>a. real_executable v exec = Some a
    \<and> (game_folder r = dir_of (dir_of a) \<and> folder_kind r = Canonical
       \<or> game_folder r = dir_of (dir_of (dir_of a)) \<and> folder_kind r = Nested
          \<and> \<not> looks_like_game_folder v (dir_of (dir_of a)) \<and> looks_like_game_folder v (game_folder r))
    \<and> os_stat v (config_path r) \<noteq> None
    \<and> os_stat v (join_path (game_dir r) ''index.html'') = Some False
    \<and> config_path r = join_path (game_folder r) config_rel_path
    \<and> game_dir r = join_path (game_folder r) ''game''"
  using assms
  by (auto simp: resolve_def build_root_def Let_def split: option.splits if_splits)

definition sample_view :: os_view where
  "sample_view = \<lparr>os_abs = Some, os_eval = (\<lambda>p. None),
     os_stat = map_of [(''/g/launcher/launcher.config.json'', False),
                       (''/g/game'', True), (''/g/game/index.html'', False)]\<rparr>"

lemma sample_view_paths:
  "dir_of ''/g/launcher/kobra'' = ''/g/launcher''" "dir_of ''/g/launcher'' = ''/g''" "dir_of ''/g'' = ''/''"
  "join_path ''/g'' config_rel_path = ''/g/launcher/launcher.config.json''"
  "join_path ''/g'' ''game'' = ''/g/game''" "join_path ''/g/game'' ''index.html'' = ''/g/game/index.html''"
  by (simp_all add: dir_of_def join_path_def clean_def segs_of_def clean_segs_def clean_step_def
        slash_def dot_def rooted_def config_rel_path_def)

lemma sample_view_stat:
  "os_stat sample_view ''/g/launcher/launcher.config.json'' = Some False"
  "os_stat sample_view ''/g/game'' = Some True" "os_stat sample_view ''/g/game/index.html'' = Some False"
  by (simp_all add: sample_view_def)

lemma sample_view_exe: "real_executable sample_view ''/g/launcher/kobra'' = Some ''/g/launcher/kobra''"
  by (simp add: real_executable_def sample_view_def)

theorem resolve_game_folder_witness:
  "\<exists>r. resolve sample_view ''/g/launcher/kobra'' [] = Inr r \<and> game_folder r = ''/g'' \<and> folder_kind r = Canonical"
proof -
  have "is_ok (resolve sample_view ''/g/launcher/kobra'' [])"
    by (simp add: resolve_def sample_view_exe sample_view_paths sample_view_stat Let_def
        looks_like_game_folder_def build_root_def trim_space_def trim_left_by_def trim_right_by_def)
  then obtain r where r: "resolve sample_view ''/g/launcher/kobra'' [] = Inr r"
    by (rule is_okE)
  have "looks_like_game_folder sample_view ''/g''"
    by (simp add: looks_like_game_folder_def sample_view_paths sample_view_stat)
  then have "game_folder r = ''/g'' \<and> folder_kind r = Canonical"
    using resolve_game_folder [OF r] sample_view_exe by (auto simp: sample_view_paths)
  with r show ?thesis by blast
qed

text \<open>
  The sidecar directory of a game is a direct child, named by the game id, of a directory
  that does not depend on the id: the id is one path segment, so two games never share a
  sidecar and no id reaches outside the launcher's state root.
\<close>

theorem sidecar_dir_injective:
  assumes "sidecar_dir_for env id1 = Inr d1" and "sidecar_dir_for env id2 = Inr d2"
    and "\<forall>h. env_home env = Some h \<longrightarrow> rooted h" and "env_xdg_state env = [] \<or> rooted (env_xdg_state env)"
  shows "(\<exists>base. segs_of d1 = base @ [id1] \<and> segs_of d2 = base @ [id2]) \<and> (d1 = d2 \<longrightarrow> id1 = id2)"
proof -
  have plain: "plain_seg id1" "plain_seg id2"
    using assms(1,2) by (auto simp: sidecar_dir_for_def valid_game_id_plain split: if_splits)
  obtain b where "state_root env = Some b" "d1 = join_path b id1" "d2 = join_path b id2"
    using assms(1,2) by (auto simp: sidecar_dir_for_def split: if_splits option.splits)
  moreover from this(1) have "rooted b" by (rule state_root_rooted) (use assms(3,4) in auto)
  ultimately show ?thesis
    using plain by (auto simp: segs_of_join_plain dest: arg_cong [where f = segs_of])
qed

theorem sidecar_dir_injective_witness:
  "let env = \<lparr>env_os = OtherUnix, env_xdg_state = ''/s'', env_home = None\<rparr>
   in \<exists>d. sidecar_dir_for env ''com.kobra'' = Inr d \<and> last (segs_of d) = ''com.kobra''"
proof -
  let ?env = "\<lparr>env_os = OtherUnix, env_xdg_state = ''/s'', env_home = None\<rparr>"
  have v: "valid_game_id ''com.kobra''"
    by (simp add: valid_game_id_def id_char_def is_digit_def dot_def)
  then have "is_ok (sidecar_dir_for ?env ''com.kobra'')"
    by (simp add: sidecar_dir_for_def state_root_def)
  then obtain d where d: "sidecar_dir_for ?env ''com.kobra'' = Inr d"
    by (rule is_okE)
  have "\<exists>base. segs_of d = base @ [''com.kobra'']"
    using sidecar_dir_injective [OF d d] by (auto simp: rooted_def slash_def)
  with d show ?thesis by auto
qed

end
