(* ===== verification/Fs.thy ===== *)
theory Fs
  imports Paths Go_Map "HOL-Library.Char_ord" "HOL-Library.List_Lexorder"
begin

text \<open>
  The file system as the launcher's writers see it through Go's \<open>os\<close> package: a map from
  paths to contents, one operation per system call. Every call can fail: the environment's
  decisions are a list of faults, one consumed per call. A write is not atomic: it passes
  through every prefix of its data, and one that fails leaves a prefix behind. The state keeps
  the snapshots of the disk it went through, so that a crash at any point leaves one of them.
  Directories are not represented, beyond the names of the files in them.
\<close>

datatype errno = ENOENT | EEXIST | ENOSPC | EROFS | EXDEV | EACCES | EIO | ENOTDIR | EISDIR

text \<open>A decision of the environment: the call runs, or fails, a write after some bytes.\<close>

datatype fault = Runs | Fails errno nat

type_synonym files = "(string, string) gmap"

record disk =
  files :: files
  history :: "files list"
  faults :: "fault list"

definition next_fault :: "'a disk_scheme \<Rightarrow> fault \<times> 'a disk_scheme" where
  "next_fault d = (case faults d of [] \<Rightarrow> (Runs, d) | f # fs \<Rightarrow> (f, d\<lparr>faults := fs\<rparr>))"

definition set_files :: "files \<Rightarrow> 'a disk_scheme \<Rightarrow> 'a disk_scheme" where
  "set_files m d = d\<lparr>history := history d @ [files d], files := m\<rparr>"

section \<open>System calls\<close>

text \<open>A call without effect on the contents: \<open>MkdirAll\<close>, \<open>Sync\<close>, \<open>Close\<close>.\<close>

definition sys_plain :: "'a disk_scheme \<Rightarrow> errno option \<times> 'a disk_scheme" where
  "sys_plain d = (case next_fault d of (Runs, d') \<Rightarrow> (None, d') | (Fails e _, d') \<Rightarrow> (Some e, d'))"

text \<open>\<open>os.OpenFile\<close> with \<open>O_CREATE|O_EXCL\<close>.\<close>

definition sys_create :: "string \<Rightarrow> 'a disk_scheme \<Rightarrow> errno option \<times> 'a disk_scheme" where
  "sys_create p d =
     (case next_fault d of
        (Fails e _, d') \<Rightarrow> (Some e, d')
      | (Runs, d') \<Rightarrow>
          if get (files d') p \<noteq> None then (Some EEXIST, d')
          else (None, set_files (put p [] (files d')) d'))"

text \<open>\<open>os.OpenFile\<close> with \<open>O_CREATE|O_TRUNC\<close>.\<close>

definition sys_truncate :: "string \<Rightarrow> 'a disk_scheme \<Rightarrow> errno option \<times> 'a disk_scheme" where
  "sys_truncate p d =
     (case next_fault d of
        (Fails e _, d') \<Rightarrow> (Some e, d')
      | (Runs, d') \<Rightarrow> (None, set_files (put p [] (files d')) d'))"

definition write_prefixes :: "string \<Rightarrow> string \<Rightarrow> nat \<Rightarrow> 'a disk_scheme \<Rightarrow> 'a disk_scheme" where
  "write_prefixes p data n d = fold (\<lambda>k. set_files (put p (take k data) (files d))) [0..<Suc n] d"

text \<open>Writing the whole of \<open>data\<close> to the empty, open file \<open>p\<close>.\<close>

definition sys_write :: "string \<Rightarrow> string \<Rightarrow> 'a disk_scheme \<Rightarrow> errno option \<times> 'a disk_scheme" where
  "sys_write p data d =
     (case next_fault d of
        (Fails e n, d') \<Rightarrow> (Some e, write_prefixes p data (min n (length data)) d')
      | (Runs, d') \<Rightarrow> (None, write_prefixes p data (length data) d'))"

definition sys_read :: "string \<Rightarrow> 'a disk_scheme \<Rightarrow> (errno + string) \<times> 'a disk_scheme" where
  "sys_read p d =
     (case next_fault d of
        (Fails e _, d') \<Rightarrow> (Inl e, d')
      | (Runs, d') \<Rightarrow> (case get (files d') p of None \<Rightarrow> (Inl ENOENT, d') | Some x \<Rightarrow> (Inr x, d')))"

text \<open>\<open>os.Stat\<close>: the size.\<close>

definition sys_stat :: "string \<Rightarrow> 'a disk_scheme \<Rightarrow> (errno + nat) \<times> 'a disk_scheme" where
  "sys_stat p d =
     (case next_fault d of
        (Fails e _, d') \<Rightarrow> (Inl e, d')
      | (Runs, d') \<Rightarrow> (case get (files d') p of None \<Rightarrow> (Inl ENOENT, d') | Some x \<Rightarrow> (Inr (length x), d')))"

definition sys_remove :: "string \<Rightarrow> 'a disk_scheme \<Rightarrow> errno option \<times> 'a disk_scheme" where
  "sys_remove p d =
     (case next_fault d of
        (Fails e _, d') \<Rightarrow> (Some e, d')
      | (Runs, d') \<Rightarrow>
          if get (files d') p = None then (Some ENOENT, d')
          else (None, set_files (del p (files d')) d'))"

text \<open>\<open>os.Rename\<close> replaces the destination in one step.\<close>

definition sys_rename :: "string \<Rightarrow> string \<Rightarrow> 'a disk_scheme \<Rightarrow> errno option \<times> 'a disk_scheme" where
  "sys_rename src dst d =
     (case next_fault d of
        (Fails e _, d') \<Rightarrow> (Some e, d')
      | (Runs, d') \<Rightarrow>
          (case get (files d') src of
             None \<Rightarrow> (Some ENOENT, d')
           | Some x \<Rightarrow> (None, set_files (if src = dst then files d' else put dst x (del src (files d'))) d')))"

text \<open>\<open>os.ReadDir\<close>: the names of the files in a directory, sorted as Go sorts them.\<close>

definition base_name :: "string \<Rightarrow> string" where
  "base_name p = last (split_on slash p)"

definition in_dir :: "string \<Rightarrow> string \<Rightarrow> bool" where
  "in_dir dir p = (prefix (dir @ [slash]) p \<and> slash \<notin> set (drop (Suc (length dir)) p) \<and> length dir + 1 < length p)"

definition dir_names :: "string \<Rightarrow> files \<Rightarrow> string list" where
  "dir_names dir m = sort (map (\<lambda>(p, _). drop (Suc (length dir)) p) (filter (\<lambda>(p, _). in_dir dir p) m))"

definition sys_readdir :: "string \<Rightarrow> 'a disk_scheme \<Rightarrow> (errno + string list) \<times> 'a disk_scheme" where
  "sys_readdir dir d =
     (case next_fault d of
        (Fails e _, d') \<Rightarrow> (Inl e, d')
      | (Runs, d') \<Rightarrow> (Inr (dir_names dir (files d')), d'))"

text \<open>The names of the temporary file and of the copy kept by the atomic writes.\<close>

definition temp_name :: "nat \<Rightarrow> nat \<Rightarrow> string \<Rightarrow> string" where
  "temp_name process sq target =
     join_path (dir_of target)
       (dot # base_name target @ ''.tmp-'' @ fmt_nat process @ ''-'' @ fmt_nat sq)"

definition bak_of :: "string \<Rightarrow> string" where
  "bak_of target = target @ ''.bak''"

section \<open>What the calls change\<close>

text \<open>
  The states a disk passes through: the snapshots its history gained, and where it stands.
\<close>

definition passes :: "'a disk_scheme \<Rightarrow> 'a disk_scheme \<Rightarrow> files set" where
  "passes d d' = set (drop (length (history d)) (history d')) \<union> {files d'}"

definition extends :: "'a disk_scheme \<Rightarrow> 'a disk_scheme \<Rightarrow> bool" where
  "extends d d' = (\<exists>h. history d' = history d @ h)"

text \<open>Every state passed through satisfies \<open>P\<close>: the way crash-safety is stated.\<close>

definition crash_inv :: "(files \<Rightarrow> bool) \<Rightarrow> 'a disk_scheme \<Rightarrow> 'a disk_scheme \<Rightarrow> bool" where
  "crash_inv P d d' = (extends d d' \<and> (\<forall>m \<in> passes d d'. P m))"

lemma crash_inv_refl: "P (files d) \<Longrightarrow> crash_inv P d d"
  by (simp add: crash_inv_def extends_def passes_def)

lemma crash_inv_trans:
  assumes "crash_inv P d d1" and "crash_inv P d1 d2"
  shows "crash_inv P d d2"
proof -
  obtain h1 h2 where "history d1 = history d @ h1" "history d2 = history d @ h1 @ h2"
    using assms by (auto simp: crash_inv_def extends_def)
  with assms show ?thesis
    by (auto simp: crash_inv_def extends_def passes_def)
qed

lemma crash_inv_mono: "crash_inv P d d' \<Longrightarrow> (\<And>m. P m \<Longrightarrow> Q m) \<Longrightarrow> crash_inv Q d d'"
  by (auto simp: crash_inv_def)

lemma crash_inv_last: "crash_inv P d d' \<Longrightarrow> P (files d')"
  by (simp add: crash_inv_def passes_def)

lemma crash_inv_set_files: "P (files d) \<Longrightarrow> P m \<Longrightarrow> crash_inv P d (set_files m d)"
  by (simp add: crash_inv_def extends_def passes_def set_files_def)

lemma set_files_simps [simp]: "files (set_files m d) = m" "faults (set_files m d) = faults d"
  by (simp_all add: set_files_def)

lemma next_fault_files:
  "next_fault d = (f, d') \<Longrightarrow> files d' = files d"
  "next_fault d = (f, d') \<Longrightarrow> history d' = history d"
  by (auto simp: next_fault_def split: list.splits)

lemma crash_inv_eq: "history d' = history d \<Longrightarrow> files d' = files d \<Longrightarrow> P (files d) \<Longrightarrow> crash_inv P d d'"
  by (simp add: crash_inv_def extends_def passes_def)

lemma crash_inv_cong: "history e = history d \<Longrightarrow> files e = files d \<Longrightarrow> crash_inv P e d' = crash_inv P d d'"
  by (simp add: crash_inv_def extends_def passes_def)

section \<open>The contract of a call\<close>

text \<open>
  What a client may assume of a system call: whatever the environment decides, the disk passes
  through the state it was in and the outcomes the call allows, and nothing else.
\<close>

locale disk_call =
  fixes call :: "'a disk_scheme \<Rightarrow> 'r \<times> 'a disk_scheme"
    and outcomes :: "files \<Rightarrow> files set"
  assumes passes_outcomes: "crash_inv (\<lambda>m. m = files d \<or> m \<in> outcomes (files d)) d (snd (call d))"
begin

lemma crash_call:
  assumes "P (files d)" and "\<And>m. m \<in> outcomes (files d) \<Longrightarrow> P m"
  shows "crash_inv P d (snd (call d))"
  using crash_inv_mono [OF passes_outcomes [of d], of P] assms by blast

lemma crash_call_seq:
  assumes "crash_inv P d0 d" and "\<And>m. P (files d) \<Longrightarrow> m \<in> outcomes (files d) \<Longrightarrow> P m"
  shows "crash_inv P d0 (snd (call d))"
  using assms by (meson crash_call crash_inv_last crash_inv_trans)

lemma files_call: "files (snd (call d)) = files d \<or> files (snd (call d)) \<in> outcomes (files d)"
  using crash_inv_last [OF passes_outcomes] by blast

end

lemma set_files_outcome:
  assumes "next_fault d = (f, d')" and "m \<in> M"
  shows "crash_inv (\<lambda>x. x = files d \<or> x \<in> M) d (set_files m d')"
proof -
  have "crash_inv (\<lambda>x. x = files d \<or> x \<in> M) d' (set_files m d')"
    using assms by (intro crash_inv_set_files) (simp_all add: next_fault_files)
  then show ?thesis using crash_inv_cong [OF next_fault_files(2,1) [OF assms(1)]] by simp
qed

lemma same_outcome: "next_fault d = (f, d') \<Longrightarrow> crash_inv (\<lambda>x. x = files d \<or> x \<in> M) d d'"
  by (rule crash_inv_eq) (simp_all add: next_fault_files)

lemma crash_write_prefixes:
  "n \<le> length data \<Longrightarrow> crash_inv (\<lambda>x. x = files d \<or> x \<in> {put p (take k data) (files d) | k. k \<le> length data}) d
     (write_prefixes p data n d)"
proof (induction n)
  case 0
  have "put p [] (files d) \<in> {put p (take k data) (files d) | k. k \<le> length data}"
    by (rule CollectI) (rule exI [of _ 0], simp)
  then show ?case
    by (simp add: write_prefixes_def crash_inv_set_files)
next
  case (Suc n)
  let ?P = "\<lambda>x. x = files d \<or> x \<in> {put p (take k data) (files d) | k. k \<le> length data}"
  have "write_prefixes p data (Suc n) d = set_files (put p (take (Suc n) data) (files d)) (write_prefixes p data n d)"
    by (simp add: write_prefixes_def)
  moreover have c: "crash_inv ?P d (write_prefixes p data n d)"
    by (rule Suc.IH) (use Suc.prems in simp)
  moreover have "crash_inv ?P (write_prefixes p data n d)
      (set_files (put p (take (Suc n) data) (files d)) (write_prefixes p data n d))"
  proof (rule crash_inv_set_files)
    show "?P (files (write_prefixes p data n d))" by (rule crash_inv_last [OF c])
    show "?P (put p (take (Suc n) data) (files d))"
      using Suc.prems by (intro disjI2 CollectI) (rule exI [of _ "Suc n"], simp)
  qed
  ultimately show ?case using crash_inv_trans [of ?P d] by simp
qed

lemma files_write_prefixes: "files (write_prefixes p data n d) = put p (take n data) (files d)"
  by (simp add: write_prefixes_def)

interpretation plain_call: disk_call sys_plain "\<lambda>m. {}"
proof
  fix d :: "'a disk_scheme"
  obtain f d' where f: "next_fault d = (f, d')" by fastforce
  show "crash_inv (\<lambda>m. m = files d \<or> m \<in> {}) d (snd (sys_plain d))"
    using same_outcome [OF f, of "{}"] by (cases f) (simp_all add: sys_plain_def f)
qed

interpretation create_call: disk_call "sys_create p" "\<lambda>m. {put p [] m}" for p
proof
  fix d :: "'a disk_scheme"
  obtain f d' where f: "next_fault d = (f, d')" by fastforce
  show "crash_inv (\<lambda>m. m = files d \<or> m \<in> {put p [] (files d)}) d (snd (sys_create p d))"
    using same_outcome [OF f, of "{put p [] (files d)}"] set_files_outcome [OF f, of "put p [] (files d)" "{put p [] (files d)}"]
      next_fault_files(1) [OF f]
    by (cases f) (simp_all add: sys_create_def f)
qed

interpretation trunc_call: disk_call "sys_truncate p" "\<lambda>m. {put p [] m}" for p
proof
  fix d :: "'a disk_scheme"
  obtain f d' where f: "next_fault d = (f, d')" by fastforce
  show "crash_inv (\<lambda>m. m = files d \<or> m \<in> {put p [] (files d)}) d (snd (sys_truncate p d))"
    using same_outcome [OF f, of "{put p [] (files d)}"] set_files_outcome [OF f, of "put p [] (files d)" "{put p [] (files d)}"]
      next_fault_files(1) [OF f]
    by (cases f) (simp_all add: sys_truncate_def f)
qed

interpretation write_call: disk_call "sys_write p data" "\<lambda>m. {put p (take k data) m | k. k \<le> length data}" for p data
proof
  fix d :: "'a disk_scheme"
  let ?Q = "\<lambda>m. m = files d \<or> m \<in> {put p (take k data) (files d) | k. k \<le> length data}"
  obtain f d' where f: "next_fault d = (f, d')" by fastforce
  have "crash_inv ?Q d (write_prefixes p data n d')" if "n \<le> length data" for n
    using crash_write_prefixes [OF that, of d' p] next_fault_files [OF f] crash_inv_cong [OF next_fault_files(2,1) [OF f]] by simp
  then show "crash_inv ?Q d (snd (sys_write p data d))"
    by (cases f) (simp_all add: sys_write_def f)
qed

interpretation remove_call: disk_call "sys_remove p" "\<lambda>m. {del p m}" for p
proof
  fix d :: "'a disk_scheme"
  obtain f d' where f: "next_fault d = (f, d')" by fastforce
  show "crash_inv (\<lambda>m. m = files d \<or> m \<in> {del p (files d)}) d (snd (sys_remove p d))"
    using same_outcome [OF f, of "{del p (files d)}"] set_files_outcome [OF f, of "del p (files d)" "{del p (files d)}"]
      next_fault_files(1) [OF f]
    by (cases f) (simp_all add: sys_remove_def f)
qed

interpretation rename_call: disk_call "sys_rename src dst"
  "\<lambda>m. case get m src of None \<Rightarrow> {} | Some x \<Rightarrow> {if src = dst then m else put dst x (del src m)}" for src dst
proof
  fix d :: "'a disk_scheme"
  let ?O = "case get (files d) src of None \<Rightarrow> {}
    | Some x \<Rightarrow> {if src = dst then files d else put dst x (del src (files d))}"
  obtain f d' where f: "next_fault d = (f, d')" by fastforce
  show "crash_inv (\<lambda>m. m = files d \<or> m \<in> ?O) d (snd (sys_rename src dst d))"
    using same_outcome [OF f, of ?O] set_files_outcome [OF f, of _ ?O] next_fault_files(1) [OF f]
    by (cases f; cases "get (files d) src"; cases "src = dst") (simp_all add: sys_rename_def f)
qed

interpretation read_call: disk_call "sys_read p" "\<lambda>m. {}" for p
proof
  fix d :: "'a disk_scheme"
  obtain f d' where f: "next_fault d = (f, d')" by fastforce
  show "crash_inv (\<lambda>m. m = files d \<or> m \<in> {}) d (snd (sys_read p d))"
    using same_outcome [OF f, of "{}"] by (cases f; cases "get (files d') p") (simp_all add: sys_read_def f)
qed

interpretation stat_call: disk_call "sys_stat p" "\<lambda>m. {}" for p
proof
  fix d :: "'a disk_scheme"
  obtain f d' where f: "next_fault d = (f, d')" by fastforce
  show "crash_inv (\<lambda>m. m = files d \<or> m \<in> {}) d (snd (sys_stat p d))"
    using same_outcome [OF f, of "{}"] by (cases f; cases "get (files d') p") (simp_all add: sys_stat_def f)
qed

interpretation readdir_call: disk_call "sys_readdir dir" "\<lambda>m. {}" for dir
proof
  fix d :: "'a disk_scheme"
  obtain f d' where f: "next_fault d = (f, d')" by fastforce
  show "crash_inv (\<lambda>m. m = files d \<or> m \<in> {}) d (snd (sys_readdir dir d))"
    using same_outcome [OF f, of "{}"] by (cases f) (simp_all add: sys_readdir_def f)
qed

text \<open>What a call that succeeds has done.\<close>

lemma sys_create_ok:
  "sys_create p d = (None, d') \<Longrightarrow> get (files d) p = None \<and> files d' = put p [] (files d)"
  by (auto simp: sys_create_def dest!: next_fault_files(1) split: prod.splits fault.splits if_splits)

lemma sys_write_ok: "sys_write p data d = (None, d') \<Longrightarrow> files d' = put p data (files d)"
  by (auto simp: sys_write_def files_write_prefixes dest!: next_fault_files(1) split: prod.splits fault.splits)

lemma sys_plain_files: "files (snd (sys_plain d)) = files d"
  using plain_call.files_call [of d] by simp

lemma sys_stat_files: "files (snd (sys_stat p d)) = files d"
  using stat_call.files_call [of p d] by simp

lemma sys_read_ok: "sys_read q e = (Inr x, e') \<Longrightarrow> get (files e) q = Some x"
  by (auto simp: sys_read_def dest!: next_fault_files(1) split: prod.splits fault.splits option.splits)

lemma sys_stat_ok: "sys_stat p d = (Inr n, d') \<Longrightarrow> \<exists>x. get (files d) p = Some x \<and> length x = n"
  by (auto simp: sys_stat_def dest!: next_fault_files(1) split: prod.splits fault.splits option.splits)

lemma sys_rename_ok:
  "sys_rename src dst d = (None, d') \<Longrightarrow> src \<noteq> dst \<Longrightarrow>
     \<exists>x. get (files d) src = Some x \<and> files d' = put dst x (del src (files d))"
  by (auto simp: sys_rename_def dest!: next_fault_files(1) split: prod.splits fault.splits option.splits if_splits)

lemma sys_rename_err: "sys_rename src dst d = (Some e, d') \<Longrightarrow> files d' = files d"
  by (auto simp: sys_rename_def dest!: next_fault_files(1) split: prod.splits fault.splits option.splits if_splits)

text \<open>No decision of the environment reports a rename across devices.\<close>

definition no_exdev :: "'a disk_scheme \<Rightarrow> bool" where
  "no_exdev d = (\<forall>f \<in> set (faults d). \<forall>n. f \<noteq> Fails EXDEV n)"

lemma no_exdev_next: "next_fault d = (f, d') \<Longrightarrow> no_exdev d \<Longrightarrow> no_exdev d'"
  by (auto simp: next_fault_def no_exdev_def split: list.splits)

lemma next_fault_exdev: "next_fault d = (Fails EXDEV n, d') \<Longrightarrow> \<not> no_exdev d"
  by (auto simp: next_fault_def no_exdev_def split: list.splits)

lemma no_exdev_set_files [simp]: "no_exdev (set_files m d) = no_exdev d"
  by (simp add: no_exdev_def)

lemma no_exdev_write_prefixes [simp]: "no_exdev (write_prefixes p data n d) = no_exdev d"
proof -
  have "no_exdev (fold (\<lambda>k. set_files (g k)) ks d) = no_exdev d" for g ks
    by (induction ks arbitrary: d) auto
  then show ?thesis by (simp add: write_prefixes_def)
qed

lemma no_exdev_calls [intro]:
  assumes "no_exdev d"
  shows "no_exdev (snd (sys_plain d))" "no_exdev (snd (sys_create p d))" "no_exdev (snd (sys_truncate p d))"
    "no_exdev (snd (sys_write p data d))" "no_exdev (snd (sys_read p d))" "no_exdev (snd (sys_stat p d))"
    "no_exdev (snd (sys_remove p d))" "no_exdev (snd (sys_rename p q d))"
proof -
  obtain f d' where f: "next_fault d = (f, d')" by fastforce
  note d' = no_exdev_next [OF f assms]
  show "no_exdev (snd (sys_plain d))" using d' by (cases f) (simp_all add: sys_plain_def f)
  show "no_exdev (snd (sys_create p d))" using d' by (cases f) (simp_all add: sys_create_def f)
  show "no_exdev (snd (sys_truncate p d))" using d' by (cases f) (simp_all add: sys_truncate_def f)
  show "no_exdev (snd (sys_write p data d))" using d' by (cases f) (simp_all add: sys_write_def f)
  show "no_exdev (snd (sys_read p d))"
    using d' by (cases f; cases "get (files d') p") (simp_all add: sys_read_def f)
  show "no_exdev (snd (sys_stat p d))"
    using d' by (cases f; cases "get (files d') p") (simp_all add: sys_stat_def f)
  show "no_exdev (snd (sys_remove p d))" using d' by (cases f) (simp_all add: sys_remove_def f)
  show "no_exdev (snd (sys_rename p q d))"
    using d' by (cases f; cases "get (files d') p") (simp_all add: sys_rename_def f)
qed

lemma sys_rename_exdev: "sys_rename src dst d = (Some EXDEV, d') \<Longrightarrow> \<not> no_exdev d"
  by (auto simp: sys_rename_def dest: next_fault_exdev split: prod.splits fault.splits option.splits if_splits)

section \<open>Steps on one file\<close>

text \<open>A predicate a change to the file \<open>p\<close> does not affect.\<close>

definition ignores :: "string \<Rightarrow> (files \<Rightarrow> bool) \<Rightarrow> bool" where
  "ignores p P = (\<forall>m x. P m \<longrightarrow> P (put p x m) \<and> P (del p m))"

text \<open>
  An invariant of the steps on one file: both the states passed through and the decisions left are
  carried by one argument.
\<close>

definition temp_inv :: "string \<Rightarrow> ('a disk_scheme \<Rightarrow> bool) \<Rightarrow> bool" where
  "temp_inv tmp J \<longleftrightarrow>
     (\<forall>e x q. J e \<longrightarrow> J (snd (sys_plain e)) \<and> J (snd (sys_create tmp e)) \<and> J (snd (sys_write tmp x e))
        \<and> J (snd (sys_remove tmp e)) \<and> J (snd (sys_stat q e)) \<and> J (snd (sys_truncate tmp e)))"

lemma temp_invD:
  assumes "temp_inv tmp J" and "J e"
  shows "J (snd (sys_plain e))" "J (snd (sys_create tmp e))" "J (snd (sys_write tmp x e))"
    "J (snd (sys_remove tmp e))" "J (snd (sys_stat q e))" "J (snd (sys_truncate tmp e))"
  using assms by (simp_all add: temp_inv_def)

lemma temp_inv_crash: "ignores tmp P \<Longrightarrow> temp_inv tmp (crash_inv P d)"
  unfolding temp_inv_def
  by (auto intro!: plain_call.crash_call_seq create_call.crash_call_seq write_call.crash_call_seq
      remove_call.crash_call_seq stat_call.crash_call_seq trunc_call.crash_call_seq simp: ignores_def)

lemma temp_inv_no_exdev: "temp_inv tmp no_exdev"
  by (simp add: temp_inv_def no_exdev_calls)

section \<open>Calls on a disk where nothing fails\<close>

lemma quiet_all:
  assumes "faults d = []"
  shows "next_fault d = (Runs, d)"
    "sys_create q d = (if get (files d) q \<noteq> None then (Some EEXIST, d) else (None, set_files (put q [] (files d)) d))"
    "sys_write q x d = (None, write_prefixes q x (length x) d)"
    "sys_stat q d = (case get (files d) q of None \<Rightarrow> (Inl ENOENT, d) | Some x \<Rightarrow> (Inr (length x), d))"
    "sys_remove q d = (if get (files d) q = None then (Some ENOENT, d) else (None, set_files (del q (files d)) d))"
    "sys_rename q r d = (case get (files d) q of None \<Rightarrow> (Some ENOENT, d)
       | Some x \<Rightarrow> (None, set_files (if q = r then files d else put r x (del q (files d))) d))"
  using assms
  by (simp_all add: next_fault_def sys_create_def sys_write_def sys_stat_def sys_remove_def sys_rename_def)

lemma faults_write_prefixes [simp]: "faults (write_prefixes p x n d) = faults d"
proof -
  have "faults (fold (\<lambda>k. set_files (g k)) ks d) = faults d" for g ks
    by (induction ks arbitrary: d) auto
  then show ?thesis by (simp add: write_prefixes_def)
qed

lemma quiet_remove: "faults d = [] \<Longrightarrow> faults (snd (sys_remove q d)) = []
    \<and> (\<forall>t. t \<noteq> q \<longrightarrow> get (files (snd (sys_remove q d))) t = get (files d) t)"
  by (simp add: quiet_all)

section \<open>Paths made of plain segments\<close>

definition path_of :: "string list \<Rightarrow> string" where
  "path_of ss = slash # join_on slash ss"

lemma join_path_of: "rooted a \<Longrightarrow> plain_seg s \<Longrightarrow> join_path a s = path_of (segs_of a @ [s])"
proof -
  assume a: "rooted a" "plain_seg s"
  then have ne: "a \<noteq> []" "s \<noteq> []" by (auto simp: rooted_def plain_seg_def)
  have r: "rooted (a @ slash # s)" using a(1) by (rule rooted_append)
  have "segs_of (a @ slash # s) = segs_of a @ [s]"
    using segs_of_join_plain [OF a] segs_of_clean [OF r] ne by (simp add: join_path_def)
  with r ne show ?thesis by (simp add: join_path_def clean_def path_of_def)
qed

lemma rooted_path_of [simp]: "rooted (path_of ss)"
  by (simp add: path_of_def)

lemma plain_no_sep: "list_all plain_seg ss \<Longrightarrow> \<forall>x \<in> set ss. slash \<notin> set x"
  by (auto simp: list_all_iff plain_seg_def)

lemma split_path_of:
  "list_all plain_seg ss \<Longrightarrow> split_on slash (path_of ss) = [] # (if ss = [] then [[]] else ss)"
  using split_join_on [OF _ plain_no_sep] by (simp add: path_of_def)

lemma segs_of_path_of: "list_all plain_seg ss \<Longrightarrow> segs_of (path_of ss) = ss"
  using clean_segs_id [of ss True "[]"]
  by (auto simp: segs_of_def split_path_of clean_segs_def list_all_iff)

lemma path_of_inj: "list_all plain_seg ss \<Longrightarrow> list_all plain_seg ts \<Longrightarrow> path_of ss = path_of ts \<longleftrightarrow> ss = ts"
  by (metis segs_of_path_of)

lemma list_all_segs_of: "rooted p \<Longrightarrow> list_all plain_seg (segs_of p)"
  by (simp add: list_all_iff segs_of_plain)

lemma last_split_no_sep: "c \<notin> set b \<Longrightarrow> last (split_on c (a @ c # b)) = b"
  by (simp add: split_on_app_sep split_on_single)

lemma join_snoc: "ss \<noteq> [] \<Longrightarrow> join_on c (ss @ [s]) = join_on c ss @ c # s"
  by (induction c ss rule: join_on.induct) auto

lemma path_of_snoc: "path_of (ss @ [s]) = (if ss = [] then [] else path_of ss) @ slash # s"
  by (simp add: path_of_def join_snoc)

lemma base_name_path_of: "slash \<notin> set s \<Longrightarrow> base_name (path_of (ss @ [s])) = s"
  unfolding base_name_def path_of_snoc by (rule last_split_no_sep)

lemma dropWhile_to_sep: "slash \<notin> set s \<Longrightarrow> dropWhile (\<lambda>c. c \<noteq> slash) (rev (p @ slash # s)) = slash # rev p"
  by (auto simp: dropWhile_append)

lemma clean_path_of: "list_all plain_seg ss \<Longrightarrow> clean (path_of ss) = path_of ss"
  by (simp add: clean_def segs_of_path_of) (simp add: path_of_def)

lemma clean_trailing:
  assumes "list_all plain_seg ss" and "ss \<noteq> []"
  shows "clean (path_of ss @ [slash]) = path_of ss"
proof -
  have r: "rooted (path_of ss @ [slash])" by (rule rooted_append) simp
  have "segs_of (path_of ss @ [slash]) = clean_segs True (rev []) ([] # ss @ [[]])"
    using r assms split_path_of [OF assms(1)] by (simp add: segs_of_def split_on_app_sep)
  also have "\<dots> = ss"
    using clean_segs_id [of ss True "[]"] assms(1)
    by (simp add: clean_segs_def list_all_iff)
  finally show ?thesis using r by (simp add: clean_def) (simp add: path_of_def)
qed

lemma dir_of_path_of:
  assumes "list_all plain_seg ss" and "slash \<notin> set s"
  shows "dir_of (path_of (ss @ [s])) = path_of ss"
proof (cases "ss = []")
  case True
  then show ?thesis
    using dropWhile_to_sep [OF assms(2), of "[]"] clean_path_of [of "[]"]
    by (simp add: dir_of_def path_of_snoc) (simp add: path_of_def)
next
  case False
  then show ?thesis
    using dropWhile_to_sep [OF assms(2), of "path_of ss"] clean_trailing [OF assms(1)]
    by (simp add: dir_of_def path_of_snoc)
qed

lemma path_of_append_name: "path_of (ss @ [s]) @ x = path_of (ss @ [s @ x])"
  by (simp add: path_of_snoc)

text \<open>A name with a further part is a plain segment.\<close>

lemma plain_seg_long: "slash \<notin> set s \<Longrightarrow> 3 \<le> length s \<Longrightarrow> plain_seg s"
  by (auto simp: plain_seg_def)

section \<open>Temporary names are apart\<close>

lemma bak_neq [simp]: "bak_of t \<noteq> t" "t \<noteq> bak_of t"
  by (simp_all add: bak_of_def)

definition temp_apart :: "string \<Rightarrow> bool" where
  "temp_apart t = (\<forall>p n. temp_name p n t \<noteq> t \<and> temp_name p n t \<noteq> bak_of t)"

lemma digits_no_slash: "slash \<notin> set (fmt_nat n)"
  using fmt_nat_digits [of n] is_digit_sign by (force simp: list_all_iff)

lemma temp_apart_path:
  assumes "list_all plain_seg ss" and "plain_seg s"
  shows "temp_apart (path_of (ss @ [s]))"
proof -
  have s: "slash \<notin> set s" using assms(2) by (simp add: plain_seg_def)
  have "temp_name p n (path_of (ss @ [s])) \<noteq> path_of (ss @ [s])
      \<and> temp_name p n (path_of (ss @ [s])) \<noteq> bak_of (path_of (ss @ [s]))" for p n
  proof -
    let ?t = "dot # s @ ''.tmp-'' @ fmt_nat p @ ''-'' @ fmt_nat n"
    have "slash \<notin> set ?t" using s digits_no_slash by (auto simp: slash_def dot_def)
    then have t: "plain_seg ?t" by (rule plain_seg_long) simp
    have "temp_name p n (path_of (ss @ [s])) = path_of (ss @ [?t])"
      using join_path_of [OF rooted_path_of t, of ss] assms(1) s
      by (simp add: temp_name_def base_name_path_of dir_of_path_of segs_of_path_of)
    moreover have "plain_seg (s @ ''.bak'')"
      using s by (intro plain_seg_long) (auto simp: slash_def)
    moreover have "?t \<noteq> s" "?t \<noteq> s @ ''.bak''"
      by (auto dest: arg_cong [where f = length])
    ultimately show ?thesis
      using path_of_inj [of "ss @ [?t]" "ss @ [s]"] path_of_inj [of "ss @ [?t]" "ss @ [s @ ''.bak'']"] assms t
      by (simp add: bak_of_def path_of_append_name)
  qed
  then show ?thesis by (simp add: temp_apart_def)
qed

end
