(* ===== verification/Sha256.thy ===== *)
theory Sha256
  imports Prelude "HOL-Library.Word"
begin

unbundle bit_operations_syntax

text \<open>
  SHA-256 and its hexadecimal text, as \<open>crypto/sha256\<close> and \<open>encoding/hex\<close> compute them. The
  launcher uses it for the checksum of a save and to verify downloads.
\<close>

definition sha_k :: "32 word list" where
  "sha_k =
    [1116352408, 1899447441, 3049323471, 3921009573, 961987163, 1508970993, 2453635748, 2870763221,
     3624381080, 310598401, 607225278, 1426881987, 1925078388, 2162078206, 2614888103, 3248222580,
     3835390401, 4022224774, 264347078, 604807628, 770255983, 1249150122, 1555081692, 1996064986,
     2554220882, 2821834349, 2952996808, 3210313671, 3336571891, 3584528711, 113926993, 338241895,
     666307205, 773529912, 1294757372, 1396182291, 1695183700, 1986661051, 2177026350, 2456956037,
     2730485921, 2820302411, 3259730800, 3345764771, 3516065817, 3600352804, 4094571909, 275423344,
     430227734, 506948616, 659060556, 883997877, 958139571, 1322822218, 1537002063, 1747873779,
     1955562222, 2024104815, 2227730452, 2361852424, 2428436474, 2756734187, 3204031479, 3329325298]"

definition sha_init :: "32 word list" where
  "sha_init =
    [1779033703, 3144134277, 1013904242, 2773480762, 1359893119, 2600822924, 528734635, 1541459225]"

definition rotr :: "nat \<Rightarrow> 32 word \<Rightarrow> 32 word" where
  "rotr n w = (drop_bit n w) OR (push_bit (32 - n) w)"

definition sha_pad :: "string \<Rightarrow> string" where
  "sha_pad s =
     (let n = length s;
          zeros = (119 - n mod 64) mod 64;
          bits = 8 * n
      in s @ char_of (128 :: nat) # replicate zeros (char_of (0 :: nat))
         @ map (\<lambda>i. char_of (bits div 256 ^ i mod 256)) [7, 6, 5, 4, 3, 2, 1, 0])"

fun word_blocks :: "string \<Rightarrow> 32 word list" where
  "word_blocks (a # b # c # d # r) =
     (of_nat (of_char a * 16777216 + of_char b * 65536 + of_char c * 256 + of_char d)) # word_blocks r"
| "word_blocks _ = []"

text \<open>The message schedule, newest word first.\<close>

definition sched_step :: "32 word list \<Rightarrow> 32 word list" where
  "sched_step ws =
     (let w15 = ws ! 14; w2 = ws ! 1;
          s0 = rotr 7 w15 XOR rotr 18 w15 XOR drop_bit 3 w15;
          s1 = rotr 17 w2 XOR rotr 19 w2 XOR drop_bit 10 w2
      in (ws ! 15 + s0 + ws ! 6 + s1) # ws)"

definition sched :: "32 word list \<Rightarrow> 32 word list" where
  "sched block = rev ((sched_step ^^ 48) (rev block))"

definition sha_round :: "32 word \<times> 32 word \<Rightarrow> 32 word list \<Rightarrow> 32 word list" where
  "sha_round kw st =
     (case st of
        [a, b, c, d, e, f, g, h] \<Rightarrow>
          (let s1 = rotr 6 e XOR rotr 11 e XOR rotr 25 e;
               ch = (e AND f) XOR (NOT e AND g);
               t1 = h + s1 + ch + fst kw + snd kw;
               s0 = rotr 2 a XOR rotr 13 a XOR rotr 22 a;
               maj = (a AND b) XOR (a AND c) XOR (b AND c);
               t2 = s0 + maj
           in [t1 + t2, a, b, c, d + t1, e, f, g])
      | _ \<Rightarrow> st)"

definition sha_block :: "32 word list \<Rightarrow> 32 word list \<Rightarrow> 32 word list" where
  "sha_block block st = map2 (+) st (fold sha_round (zip sha_k (sched block)) st)"

fun sha_blocks :: "nat \<Rightarrow> 32 word list \<Rightarrow> 32 word list \<Rightarrow> 32 word list" where
  "sha_blocks 0 ws st = st"
| "sha_blocks (Suc n) ws st = sha_blocks n (drop 16 ws) (sha_block (take 16 ws) st)"

definition hex_lower :: "nat \<Rightarrow> char" where
  "hex_lower n = (if n < 10 then char_of (48 + n) else char_of (87 + n))"

definition hex_word :: "32 word \<Rightarrow> string" where
  "hex_word w = map (\<lambda>i. hex_lower (unat w div 16 ^ i mod 16)) [7, 6, 5, 4, 3, 2, 1, 0]"

text \<open>\<open>hex.EncodeToString(sha256.Sum256(s))\<close>.\<close>

definition sha256_hex :: "string \<Rightarrow> string" where
  "sha256_hex s =
     (let p = sha_pad s in concat (map hex_word (sha_blocks (length p div 64) (word_blocks p) sha_init)))"

lemma length_sha_round [simp]: "length (sha_round kw st) = length st"
  by (simp add: sha_round_def Let_def split: list.splits)

lemma length_sha_block [simp]: "length (sha_block b st) = length st"
proof -
  have "length (fold sha_round kws st) = length st" for kws
    by (induction kws arbitrary: st) auto
  then show ?thesis by (simp add: sha_block_def)
qed

lemma length_sha_blocks [simp]: "length (sha_blocks n ws st) = length st"
  by (induction n arbitrary: ws st) auto

lemma length_sha256_hex: "length (sha256_hex s) = 64"
  by (simp add: sha256_hex_def Let_def length_concat comp_def hex_word_def sum_list_triv sha_init_def)

lemma sha256_hex_chars: "c \<in> set (sha256_hex s) \<Longrightarrow> \<exists>n < 16. c = hex_lower n"
  by (auto simp: sha256_hex_def Let_def hex_word_def intro: exI [of _ "_ mod 16"])

end
