(* ===== verification/Storage.thy ===== *)
theory Storage
  imports Fs KobraErr Sha256
begin

text \<open>
  \<open>launcher/internal/storage\<close>: the launcher's only writer of game data. The engine extends the
  disk with its own fields; every operation holds the write lock from its first system call to
  its last, so operations do not interleave with each other, only with a crash. The clock enters
  as formatted text. A check of a context and a query of the free space are decisions of the
  environment, taken from the same list as the outcomes of the system calls.
\<close>

section \<open>State and errors\<close>

record engine = disk +
  eng_dir :: string
  keep_revisions :: int
  trash_days :: int
  max_request :: int
  release :: string
  engine_ver :: string
  save_ver :: int
  revisions :: "(string, int) gmap"
  eng_writer :: string
  writable :: bool
  probe_reason :: string
  degraded :: bool
  pid :: nat
  seq_no :: nat
  elog :: "string list"

text \<open>
  The errors of the package. \<open>SpaceGuard\<close> is \<open>errInsufficientSpace\<close>, the answer of the
  pre-flight check; \<open>Panic\<close> is a Go panic.
\<close>

datatype store_error =
    SysErr errno
  | SpaceGuard
  | CtxErr
  | TempVerify
  | StoreErr kobra_error
  | ConflictError string int string
  | Panic

record engine_options =
  o_data_dir :: string
  o_keep_revisions :: int
  o_trash_days :: int
  o_max_request :: int
  o_release :: string
  o_engine_version :: string
  o_save_version :: int

text \<open>\<open>New\<close>; \<^term>\<open>None\<close>: the data directory is required.\<close>

definition new_engine :: "engine_options \<Rightarrow> nat \<Rightarrow> files \<Rightarrow> fault list \<Rightarrow> engine option" where
  "new_engine o' p m fs =
     (if o_data_dir o' = [] then None
      else Some \<lparr>files = m, history = [], faults = fs, eng_dir = o_data_dir o',
        keep_revisions = max 0 (o_keep_revisions o'), trash_days = o_trash_days o', max_request = o_max_request o',
        release = o_release o',
        engine_ver = (if o_engine_version o' = [] then ''0.0.0'' else o_engine_version o'),
        save_ver = (if o_save_version o' < 1 then 1 else o_save_version o'),
        revisions = [], eng_writer = [], writable = False, probe_reason = [], degraded = False,
        pid = p, seq_no = 0, elog = []\<rparr>)"

definition log_event :: "string \<Rightarrow> engine \<Rightarrow> engine" where
  "log_event ev e = e\<lparr>elog := elog e @ [ev]\<rparr>"

definition mark_degraded :: "engine \<Rightarrow> engine" where
  "mark_degraded e = log_event ''storage.atomicity.degraded'' (e\<lparr>degraded := True\<rparr>)"

section \<open>Identifiers and paths\<close>

definition ident_head :: "char \<Rightarrow> bool" where
  "ident_head c = (is_digit c \<or> (97 \<le> (of_char c :: nat) \<and> (of_char c :: nat) \<le> 122))"

definition ident_char :: "char \<Rightarrow> bool" where
  "ident_char c = (ident_head c \<or> c = dot \<or> c = CHR ''_'' \<or> c = CHR ''-'')"

text \<open>The pattern \<open>[a-z0-9][a-z0-9._-]{0,63}\<close>.\<close>

definition identifier_re :: "string \<Rightarrow> bool" where
  "identifier_re s = (case s of [] \<Rightarrow> False | c # cs \<Rightarrow> ident_head c \<and> length cs \<le> 63 \<and> list_all ident_char cs)"

definition validate_identifier :: "string \<Rightarrow> kobra_error option" where
  "validate_identifier s =
     (if \<not> identifier_re s then Some (BadIdentifier ''identifier'' None)
      else if slash \<in> set s \<or> backslash \<in> set s \<or> s = [dot] \<or> s = [dot, dot] then Some (BadIdentifier ''identifier'' None)
      else if reserved_name s then Some (BadIdentifier ''identifier'' None)
      else if suffix [dot] s \<or> suffix '' '' s then Some (BadIdentifier ''identifier'' None)
      else None)"

definition dir_for :: "engine \<Rightarrow> string \<Rightarrow> string" where
  "dir_for e area = join_path (eng_dir e) area"

definition confine_path :: "engine \<Rightarrow> string \<Rightarrow> store_error option" where
  "confine_path e full = (if confine (eng_dir e) full then None else Some (StoreErr (OutOfRoot (base_name full))))"

definition save_path :: "engine \<Rightarrow> string \<Rightarrow> store_error + string" where
  "save_path e slot =
     (case validate_identifier slot of
        Some k \<Rightarrow> Inl (StoreErr k)
      | None \<Rightarrow>
          (let full = join_path (dir_for e ''saves'') (slot @ ''.json'')
           in case confine_path e full of Some err \<Rightarrow> Inl err | None \<Rightarrow> Inr full))"

definition config_file :: "engine \<Rightarrow> string" where
  "config_file e = join_path (dir_for e ''config'') ''settings.json''"

definition mods_file :: "engine \<Rightarrow> string" where
  "mods_file e = join_path (dir_for e ''config'') ''mods.json''"

section \<open>The write probe\<close>

definition classify_mkdir_err :: "errno \<Rightarrow> string" where
  "classify_mkdir_err x =
     (if x = EACCES then ''permission_denied'' else if x = EROFS then ''read_only_filesystem'' else ''unknown'')"

definition classify_open_err :: "errno \<Rightarrow> string" where
  "classify_open_err x =
     (if x = EACCES then ''permission_denied'' else if x = EROFS then ''read_only_filesystem''
      else if x = ENOENT then ''not_a_directory'' else ''unknown'')"

text \<open>\<open>probeWriteLocked\<close>: the error, the reason, and the engine.\<close>

definition probe_write_locked :: "engine \<Rightarrow> errno option \<times> string \<times> engine" where
  "probe_write_locked e0 =
     (case sys_plain e0 of
        (Some x, e1) \<Rightarrow> (Some x, classify_mkdir_err x, e1)
      | (None, e1) \<Rightarrow>
          (let base = join_path (eng_dir e1) (''.write-probe-'' @ fmt_nat (pid e1)) in
           case sys_create base e1 of
             (Some x, e2) \<Rightarrow> (Some x, classify_open_err x, e2)
           | (None, e2) \<Rightarrow>
               (case sys_write base ''ok'' e2 of
                  (Some x, e3) \<Rightarrow> (Some x, ''unknown'', snd (sys_remove base (snd (sys_plain e3))))
                | (None, e3) \<Rightarrow>
                    (case sys_plain e3 of
                       (Some x, e4) \<Rightarrow> (Some x, ''unknown'', snd (sys_remove base (snd (sys_plain e4))))
                     | (None, e4) \<Rightarrow>
                         (case sys_plain e4 of
                            (Some x, e5) \<Rightarrow> (Some x, ''unknown'', snd (sys_remove base e5))
                          | (None, e5) \<Rightarrow>
                              (let renamed = base @ ''.renamed'' in
                               case sys_rename base renamed e5 of
                                 (Some x, e6) \<Rightarrow>
                                   (let e7 = snd (sys_remove base e6)
                                    in if x = EXDEV then (None, [], snd (sys_remove base (mark_degraded e7)))
                                       else (Some x, ''unknown'', e7))
                               | (None, e6) \<Rightarrow>
                                   (None, [], snd (sys_remove renamed (snd (sys_remove base e6))))))))))"

definition probe_write :: "engine \<Rightarrow> errno option \<times> engine" where
  "probe_write e =
     (case probe_write_locked e of
        (err, reason, e1) \<Rightarrow>
          (err, log_event ''storage.write.probe''
             (e1\<lparr>probe_reason := reason, writable := (err = None \<and> reason = [])\<rparr>)))"

section \<open>The atomic write\<close>

definition ctx_err :: "engine \<Rightarrow> bool \<times> engine" where
  "ctx_err e = (case sys_plain e of (x, e') \<Rightarrow> (x \<noteq> None, e'))"

text \<open>
  \<open>checkSpace\<close>: the environment answers the free space, or that it cannot be queried
  (\<open>Runs\<close>).
\<close>

definition check_space :: "nat \<Rightarrow> engine \<Rightarrow> store_error option \<times> engine" where
  "check_space payload e =
     (case next_fault e of
        (Runs, e') \<Rightarrow> (None, e')
      | (Fails _ free, e') \<Rightarrow>
          (let need = wrap64 (max_request e * 2); need = (if need \<le> 0 then 2 * int payload else need)
           in if int free < need then (Some SpaceGuard, e') else (None, e')))"

definition rename_cross_device :: "string \<Rightarrow> string \<Rightarrow> engine \<Rightarrow> errno option \<times> engine" where
  "rename_cross_device src dst e0 =
     (case sys_read src (mark_degraded e0) of
        (Inl x, e1) \<Rightarrow> (Some x, e1)
      | (Inr data, e1) \<Rightarrow>
          (case sys_truncate dst e1 of
             (Some x, e2) \<Rightarrow> (Some x, e2)
           | (None, e2) \<Rightarrow>
               (case sys_write dst data e2 of
                  (Some x, e3) \<Rightarrow> (Some x, snd (sys_remove dst (snd (sys_plain e3))))
                | (None, e3) \<Rightarrow>
                    (case sys_plain e3 of
                       (Some x, e4) \<Rightarrow> (Some x, snd (sys_remove dst (snd (sys_plain e4))))
                     | (None, e4) \<Rightarrow>
                         (case sys_plain e4 of
                            (Some x, e5) \<Rightarrow> (Some x, e5)
                          | (None, e5) \<Rightarrow> sys_remove src e5)))))"

text \<open>Filling the temporary file: create, write, sync, close and the check of its size.\<close>

definition write_temp :: "string \<Rightarrow> string \<Rightarrow> engine \<Rightarrow> store_error option \<times> engine" where
  "write_temp tmp data e0 =
     (case sys_create tmp e0 of
        (Some x, e1) \<Rightarrow> (Some (SysErr x), e1)
      | (None, e1) \<Rightarrow>
          (case sys_write tmp data e1 of
             (Some x, e2) \<Rightarrow> (Some (SysErr x), snd (sys_remove tmp (snd (sys_plain e2))))
           | (None, e2) \<Rightarrow>
               (case sys_plain e2 of
                  (Some x, e3) \<Rightarrow> (Some (SysErr x), snd (sys_remove tmp (snd (sys_plain e3))))
                | (None, e3) \<Rightarrow>
                    (case sys_plain e3 of
                       (Some x, e4) \<Rightarrow> (Some (SysErr x), snd (sys_remove tmp e4))
                     | (None, e4) \<Rightarrow>
                         (case sys_stat tmp e4 of
                            (Inl x, e5) \<Rightarrow> (Some TempVerify, snd (sys_remove tmp e5))
                          | (Inr n, e5) \<Rightarrow>
                              if n \<noteq> length data then (Some TempVerify, snd (sys_remove tmp e5))
                              else (None, e5))))))"

text \<open>Rotating the live file to its \<open>.bak\<close>.\<close>

definition rotate_bak :: "string \<Rightarrow> string \<Rightarrow> engine \<Rightarrow> store_error option \<times> engine" where
  "rotate_bak tmp target e0 =
     (case sys_stat target e0 of
        (Inl _, e1) \<Rightarrow> (None, e1)
      | (Inr _, e1) \<Rightarrow>
          (let e2 = snd (sys_remove (bak_of target) e1)
           in case sys_rename target (bak_of target) e2 of
                (Some x, e3) \<Rightarrow> (Some (SysErr x), snd (sys_remove tmp e3))
              | (None, e3) \<Rightarrow> (None, e3)))"

text \<open>Moving the temporary file into place, by a copy where the rename crosses devices.\<close>

definition promote_temp :: "string \<Rightarrow> string \<Rightarrow> engine \<Rightarrow> store_error option \<times> engine" where
  "promote_temp tmp target e0 =
     (case sys_rename tmp target e0 of
        (None, e1) \<Rightarrow> (None, e1)
      | (Some x, e1) \<Rightarrow>
          if x \<noteq> EXDEV then (Some (SysErr x), snd (sys_remove tmp e1))
          else (case rename_cross_device tmp target e1 of
                  (Some _, e2) \<Rightarrow> (Some (SysErr x), snd (sys_remove tmp e2))
                | (None, e2) \<Rightarrow> (None, e2)))"

text \<open>\<open>writeAtomic\<close>. Its last step, the sync of the directory, cannot fail it.\<close>

definition write_atomic :: "string \<Rightarrow> string \<Rightarrow> engine \<Rightarrow> store_error option \<times> engine" where
  "write_atomic target data e0 =
     (case ctx_err e0 of
        (True, e1) \<Rightarrow> (Some CtxErr, e1)
      | (False, e1) \<Rightarrow>
          (case check_space (length data) e1 of
             (Some err, e2) \<Rightarrow> (Some err, e2)
           | (None, e2) \<Rightarrow>
               (case sys_plain e2 of
                  (Some x, e3) \<Rightarrow> (Some (SysErr x), e3)
                | (None, e3) \<Rightarrow>
                    (let e4 = e3\<lparr>seq_no := Suc (seq_no e3)\<rparr>; tmp = temp_name (pid e4) (seq_no e4) target in
                     case write_temp tmp data e4 of
                       (Some err, e5) \<Rightarrow> (Some err, e5)
                     | (None, e5) \<Rightarrow>
                         (case rotate_bak tmp target e5 of
                            (Some err, e6) \<Rightarrow> (Some err, e6)
                          | (None, e6) \<Rightarrow>
                              (case promote_temp tmp target e6 of
                                 (Some err, e7) \<Rightarrow> (Some err, e7)
                               | (None, e7) \<Rightarrow> (None, snd (sys_plain e7))))))))"

section \<open>The atomic write passes through safe states only\<close>

text \<open>
  What a reader can rely on: the live file is the old one or the new one, or it is absent and
  the \<open>.bak\<close> is the old one.
\<close>

definition safe_view :: "string option \<Rightarrow> string \<Rightarrow> string \<Rightarrow> files \<Rightarrow> bool" where
  "safe_view old data target m \<longleftrightarrow>
     get m target = old \<or> get m target = Some data \<or> (get m target = None \<and> get m (bak_of target) = old)"

lemma engine_frame [simp]:
  "files (log_event ev e) = files e" "history (log_event ev e) = history e" "faults (log_event ev e) = faults e"
  "files (mark_degraded e) = files e" "history (mark_degraded e) = history e" "faults (mark_degraded e) = faults e"
  by (simp_all add: log_event_def mark_degraded_def)

lemma inv_write_temp:
  assumes "temp_inv tmp J" and "J e"
  shows "J (snd (write_temp tmp data e))"
proof -
  note st = temp_invD [OF assms(1)]
  obtain r1 e1 where c1: "sys_create tmp e = (r1, e1)" by fastforce
  note i1 = st(2) [OF assms(2), unfolded c1 snd_conv]
  obtain r2 e2 where c2: "sys_write tmp data e1 = (r2, e2)" by fastforce
  note i2 = st(3) [OF i1, of data, unfolded c2 snd_conv]
  obtain r3 e3 where c3: "sys_plain e2 = (r3, e3)" by fastforce
  note i3 = st(1) [OF i2, unfolded c3 snd_conv]
  obtain r4 e4 where c4: "sys_plain e3 = (r4, e4)" by fastforce
  note i4 = st(1) [OF i3, unfolded c4 snd_conv]
  obtain r5 e5 where c5: "sys_stat tmp e4 = (r5, e5)" by fastforce
  note i5 = st(5) [OF i4, of tmp, unfolded c5 snd_conv]
  show ?thesis
    using i1 st(4) [OF i3] st(4) [OF i4] st(4) [OF i5] i5 st(4) [OF st(1) [OF i2]] st(4) [OF st(1) [OF i3]]
    by (simp add: write_temp_def c1 c2 c3 c4 c5 split: option.splits sum.splits)
qed

lemma write_temp_ok:
  assumes "write_temp tmp data e = (None, e')"
  shows "get (files e') tmp = Some data"
proof -
  obtain e1 e2 e3 e4 n e5 where c: "sys_create tmp e = (None, e1)" "sys_write tmp data e1 = (None, e2)"
    "sys_plain e2 = (None, e3)" "sys_plain e3 = (None, e4)" "sys_stat tmp e4 = (Inr n, e5)" "e' = e5"
    using assms by (auto simp: write_temp_def split: prod.splits option.splits sum.splits if_splits)
  have "files e5 = put tmp data (files e1)"
    using sys_write_ok [OF c(2)] sys_plain_files [of e2] sys_plain_files [of e3] sys_stat_files [of tmp e4] c
    by simp
  then show ?thesis by (simp add: c(6))
qed

text \<open>The rotation: the old file moves to the \<open>.bak\<close>, or stays.\<close>

definition rotated :: "string option \<Rightarrow> string \<Rightarrow> files \<Rightarrow> bool" where
  "rotated old target m \<longleftrightarrow> get m target = old \<or> (get m target = None \<and> get m (bak_of target) = old)"

lemma rotated_safe: "rotated old target m \<Longrightarrow> safe_view old data target m"
  by (auto simp: rotated_def safe_view_def)

lemma ignores_rotated: "tmp \<noteq> t \<Longrightarrow> tmp \<noteq> bak_of t \<Longrightarrow> ignores tmp (rotated old t)"
  by (auto simp: ignores_def rotated_def)

lemma ignores_safe: "tmp \<noteq> t \<Longrightarrow> tmp \<noteq> bak_of t \<Longrightarrow> ignores tmp (safe_view old data t)"
  by (auto simp: ignores_def safe_view_def)

lemma crash_rotate_bak:
  assumes "tmp \<noteq> t" and "tmp \<noteq> bak_of t" and "get (files e) t = old" and "crash_inv (rotated old t) d e"
  shows "crash_inv (rotated old t) d (snd (rotate_bak tmp t e))"
proof -
  obtain r1 e1 where c1: "sys_stat t e = (r1, e1)" by fastforce
  have i1: "crash_inv (rotated old t) d e1" and f1: "get (files e1) t = old"
    using temp_invD(5) [OF temp_inv_crash [OF ignores_rotated [OF assms(1,2)]] assms(4), of t]
      sys_stat_files [of t e] assms(3) c1 by simp_all
  obtain r2 e2 where c2: "sys_remove (bak_of t) e1 = (r2, e2)" by fastforce
  have i2: "crash_inv (rotated old t) d (snd (sys_remove (bak_of t) e1))"
    by (rule remove_call.crash_call_seq [OF i1]) (use f1 in \<open>auto simp: rotated_def\<close>)
  have f2: "get (files e2) t = old"
    using remove_call.files_call [of "bak_of t" e1] f1 c2 by auto
  obtain r3 e3 where c3: "sys_rename t (bak_of t) e2 = (r3, e3)" by fastforce
  have i3: "crash_inv (rotated old t) d (snd (sys_rename t (bak_of t) e2))"
    by (rule rename_call.crash_call_seq [OF i2 [unfolded c2 snd_conv]])
      (use f2 in \<open>auto simp: rotated_def split: option.splits\<close>)
  have "crash_inv (rotated old t) d (snd (sys_remove tmp e3))"
    by (rule temp_invD(4) [OF temp_inv_crash [OF ignores_rotated [OF assms(1,2)]] i3 [unfolded c3 snd_conv]])
  then show ?thesis
    using i1 i3 by (simp add: rotate_bak_def c1 c2 c3 split: option.splits sum.splits)
qed

lemma rotate_bak_tmp:
  assumes "rotate_bak tmp t e = (None, e')" and "tmp \<noteq> t" and "tmp \<noteq> bak_of t"
  shows "get (files e') tmp = get (files e) tmp"
proof -
  obtain r1 e1 where c1: "sys_stat t e = (r1, e1)" by fastforce
  have f1: "files e1 = files e" using sys_stat_files [of t e] c1 by simp
  obtain r2 e2 where c2: "sys_remove (bak_of t) e1 = (r2, e2)" by fastforce
  have f2: "get (files e2) tmp = get (files e) tmp"
    using remove_call.files_call [of "bak_of t" e1] f1 c2 assms(3) by auto
  obtain r3 e3 where c3: "sys_rename t (bak_of t) e2 = (r3, e3)" by fastforce
  have "get (files e3) tmp = get (files e) tmp"
    using rename_call.files_call [of t "bak_of t" e2] f2 c3 assms(2,3) by (auto split: option.splits)
  then show ?thesis
    using assms(1) f1 by (auto simp: rotate_bak_def c1 c2 c3 split: sum.splits option.splits)
qed

lemma no_exdev_rotate_bak: "no_exdev e \<Longrightarrow> no_exdev (snd (rotate_bak tmp t e))"
proof -
  assume n: "no_exdev e"
  obtain r1 e1 where c1: "sys_stat t e = (r1, e1)" by fastforce
  obtain r2 e2 where c2: "sys_remove (bak_of t) e1 = (r2, e2)" by fastforce
  obtain r3 e3 where c3: "sys_rename t (bak_of t) e2 = (r3, e3)" by fastforce
  have n1: "no_exdev e1" using no_exdev_calls(6) [OF n, of t] c1 by simp
  have n2: "no_exdev e2" using no_exdev_calls(7) [OF n1, of "bak_of t"] c2 by simp
  have n3: "no_exdev e3" using no_exdev_calls(8) [OF n2, of t "bak_of t"] c3 by simp
  show ?thesis
    using n1 n3 no_exdev_calls(7) [OF n3, of tmp]
    by (simp add: rotate_bak_def c1 c2 c3 split: sum.splits option.splits)
qed

lemma crash_promote_temp:
  assumes "tmp \<noteq> t" and "tmp \<noteq> bak_of t" and "get (files e) tmp = Some data" and "rotated old t (files e)"
    and "crash_inv (safe_view old data t) d e" and "no_exdev e"
  shows "crash_inv (safe_view old data t) d (snd (promote_temp tmp t e))"
    and "promote_temp tmp t e = (None, e') \<Longrightarrow> get (files e') t = Some data"
    and "promote_temp tmp t e = (Some err, e') \<Longrightarrow> rotated old t (files e')"
proof -
  obtain r e1 where c: "sys_rename tmp t e = (r, e1)" by fastforce
  have i: "crash_inv (safe_view old data t) d (snd (sys_rename tmp t e))"
    by (rule rename_call.crash_call_seq [OF assms(5)])
      (use assms(1,3) in \<open>auto simp: safe_view_def split: option.splits\<close>)
  have x: "r = Some x \<Longrightarrow> x \<noteq> EXDEV" for x
    using sys_rename_exdev [of tmp t e e1] c assms(6) by auto
  have rm: "crash_inv (safe_view old data t) d (snd (sys_remove tmp e1))"
    by (rule temp_invD(4) [OF temp_inv_crash [OF ignores_safe [OF assms(1,2)]] i [unfolded c snd_conv]])
  show "crash_inv (safe_view old data t) d (snd (promote_temp tmp t e))"
    using i rm x by (auto simp: promote_temp_def c split: option.splits)
  show "get (files e') t = Some data" if "promote_temp tmp t e = (None, e')"
  proof -
    have "r = None" "e' = e1" using that x by (auto simp: promote_temp_def c split: option.splits if_splits)
    with sys_rename_ok [of tmp t e e1] c assms(1,3) show ?thesis by auto
  qed
  show "rotated old t (files e')" if p: "promote_temp tmp t e = (Some err, e')"
  proof -
    obtain y where y: "r = Some y" using p by (cases r) (auto simp: promote_temp_def c)
    then have y2: "e' = snd (sys_remove tmp e1)" using p x [OF y] by (simp add: promote_temp_def c)
    have "files e1 = files e" using sys_rename_err [of tmp t e y e1] c y by simp
    then show ?thesis
      using remove_call.files_call [of tmp e1] assms(1,2,4) unfolding y2
      by (auto simp: rotated_def)
  qed
qed

text \<open>
  The whole write. The steps before the temporary file is filled do not touch the disk's files.
\<close>

lemma ctx_err_frame:
  "ctx_err e = (b, e') \<Longrightarrow> files e' = files e \<and> crash_inv (\<lambda>m. m = files e) e e' \<and> (no_exdev e \<longrightarrow> no_exdev e')"
  using plain_call.passes_outcomes [of e] sys_plain_files [of e] no_exdev_calls(1) [of e]
  by (auto simp: ctx_err_def split: prod.splits)

lemma check_space_frame:
  assumes "check_space n e = (r, e')"
  shows "files e' = files e \<and> crash_inv (\<lambda>m. m = files e) e e' \<and> (no_exdev e \<longrightarrow> no_exdev e')"
proof -
  obtain f e1 where f: "next_fault e = (f, e1)" by fastforce
  have "e' = e1" using assms f by (auto simp: check_space_def Let_def split: fault.splits if_splits)
  then show ?thesis
    using next_fault_files [OF f] same_outcome [OF f, of "{}"] no_exdev_next [OF f] by simp
qed

lemma crash_same: "crash_inv (\<lambda>m. m = files d) d e \<Longrightarrow> P (files d) \<Longrightarrow> crash_inv P d e"
  by (erule crash_inv_mono) simp

lemma write_atomic_crash:
  assumes apart: "temp_apart t" and old: "get (files e) t = old" and nx: "no_exdev e"
  shows "crash_inv (safe_view old data t) e (snd (write_atomic t data e))
    \<and> (fst (write_atomic t data e) = None \<longrightarrow> get (files (snd (write_atomic t data e))) t = Some data)
    \<and> (fst (write_atomic t data e) \<noteq> None \<longrightarrow> rotated old t (files (snd (write_atomic t data e))))"
proof -
  let ?S = "safe_view old data t"
  have S0: "?S (files e)" and R0: "rotated old t (files e)" using old by (simp_all add: safe_view_def rotated_def)
  obtain b e1 where c1: "ctx_err e = (b, e1)" by fastforce
  note f1 = ctx_err_frame [OF c1]
  obtain r2 e2 where c2: "check_space (length data) e1 = (r2, e2)" by fastforce
  note f2 = check_space_frame [OF c2]
  obtain r3 e3 where c3: "sys_plain e2 = (r3, e3)" by fastforce
  define e4 where "e4 = e3\<lparr>seq_no := Suc (seq_no e3)\<rparr>"
  have files: "files e1 = files e" "files e2 = files e" "files e3 = files e" "files e4 = files e"
    using f1 f2 sys_plain_files [of e2] c3 by (simp_all add: e4_def)
  have i1: "crash_inv ?S e e1" using f1 S0 by (auto intro: crash_same)
  have i2: "crash_inv ?S e e2"
    by (rule crash_inv_trans [OF i1 crash_same]) (use f2 S0 files in simp_all)
  have i3: "crash_inv ?S e e3" using plain_call.crash_call_seq [OF i2] c3 by auto
  have i4: "crash_inv ?S e e4" using i3 by (simp add: e4_def crash_inv_def extends_def passes_def)
  have n3: "no_exdev e3" using no_exdev_calls(1) [of e2] f1 f2 nx c3 by simp
  then have n4: "no_exdev e4" by (simp add: e4_def no_exdev_def)
  define tmp where "tmp = temp_name (pid e4) (seq_no e4) t"
  have apart: "tmp \<noteq> t" "tmp \<noteq> bak_of t" using apart by (simp_all add: tmp_def temp_apart_def)
  obtain r5 e5 where c5: "write_temp tmp data e4 = (r5, e5)" by fastforce
  have i5: "crash_inv ?S e e5"
    using inv_write_temp [OF temp_inv_crash [OF ignores_safe [OF apart]] i4] c5 by (metis snd_conv)
  have "crash_inv (\<lambda>m. get m t = old) e4 e5"
    using inv_write_temp [OF temp_inv_crash [of tmp "\<lambda>m. get m t = old"] crash_inv_refl [of "\<lambda>m. get m t = old" e4], of data]
      apart files(4) old c5 by (simp add: ignores_def)
  then have o5: "get (files e5) t = old" by (rule crash_inv_last)
  have n5: "no_exdev e5" using inv_write_temp [OF temp_inv_no_exdev n4] c5 by (metis snd_conv)
  obtain r6 e6 where c6: "rotate_bak tmp t e5 = (r6, e6)" by fastforce
  have r5: "crash_inv (rotated old t) e5 e5" by (rule crash_inv_refl) (simp add: rotated_def o5)
  have r6: "crash_inv (rotated old t) e5 e6" using crash_rotate_bak [OF apart o5 r5] c6 by simp
  have i6: "crash_inv ?S e e6"
    by (rule crash_inv_trans [OF i5 crash_inv_mono [OF r6 rotated_safe]])
  have n6: "no_exdev e6" using no_exdev_rotate_bak [OF n5, of tmp t] c6 by simp
  obtain r7 e7 where c7: "promote_temp tmp t e6 = (r7, e7)" by fastforce
  have p: "crash_inv ?S e e7" "r7 = None \<Longrightarrow> get (files e7) t = Some data"
    "r7 = Some err \<Longrightarrow> rotated old t (files e7)" if "r5 = None" "r6 = None" for err
  proof -
    have t6: "get (files e6) tmp = Some data"
      using write_temp_ok c5 rotate_bak_tmp [OF _ apart] c6 that by metis
    note pr = crash_promote_temp [OF apart t6 crash_inv_last [OF r6] i6 n6]
    show "crash_inv ?S e e7" "r7 = None \<Longrightarrow> get (files e7) t = Some data"
      "r7 = Some err \<Longrightarrow> rotated old t (files e7)"
      using pr c7 by auto
  qed
  have last: "files (snd (sys_plain e7)) = files e7" by (rule sys_plain_files)
  have i8: "crash_inv ?S e (snd (sys_plain e7))" if "r5 = None" "r6 = None"
    by (rule plain_call.crash_call_seq [OF p(1) [OF that]]) simp
  have ro: "rotated old t (files e5)" using o5 by (simp add: rotated_def)
  have w: "write_atomic t data e =
     (if b then (Some CtxErr, e1)
      else case r2 of Some err \<Rightarrow> (Some err, e2)
      | None \<Rightarrow> (case r3 of Some x \<Rightarrow> (Some (SysErr x), e3)
        | None \<Rightarrow> (case r5 of Some err \<Rightarrow> (Some err, e5)
          | None \<Rightarrow> (case r6 of Some err \<Rightarrow> (Some err, e6)
            | None \<Rightarrow> (case r7 of Some err \<Rightarrow> (Some err, e7) | None \<Rightarrow> (None, snd (sys_plain e7)))))))"
    by (simp add: write_atomic_def c1 c2 c3 e4_def [symmetric] tmp_def [symmetric] c5 c6 c7 Let_def
        split: option.splits bool.splits)
  show ?thesis
    unfolding w
    using i1 i2 i3 i5 i6 i8 p R0 files ro crash_inv_last [OF r6] last
    by (simp split: option.splits)
qed

end
