(* ===== verification/Json_Fields.thy ===== *)
theory Json_Fields
  imports Json
begin

text \<open>
  \<open>encoding/json\<close> into a Go struct: which members of a document set a field, the conversions of
  the field types, and nested values. An object nested in the document is read from its decoded
  value, in which of two members with the same name the later one is left.
\<close>

text \<open>
  The members of an object, in document order, and the fields they set: a member belongs to the
  field whose name it has up to ASCII case; a later one replaces an earlier one, \<open>null\<close> leaves a
  string or number as it is, and a member of the wrong type fails the document.
\<close>

type_synonym members = "(string \<times> json \<times> string) list"

definition named :: "string \<Rightarrow> members \<Rightarrow> (json \<times> string) list" where
  "named name ms = map snd (filter (\<lambda>(k, _). map to_lower_ascii k = name) ms)"

lemma named_simps:
  "named name [] = []"
  "named name ((k, x) # ms) = (if map to_lower_ascii k = name then x # named name ms else named name ms)"
  by (simp_all add: named_def)

definition last_opt :: "'a list \<Rightarrow> 'a option" where
  "last_opt xs = (if xs = [] then None else Some (last xs))"

definition as_string :: "json \<Rightarrow> string option" where
  "as_string v = (case v of JStr s \<Rightarrow> Some s | _ \<Rightarrow> None)"

definition as_int :: "json \<Rightarrow> int option" where
  "as_int v = (case v of JNum l \<Rightarrow> parse_int64 l | _ \<Rightarrow> None)"

text \<open>A field of a type: \<^term>\<open>None\<close> is a type error, \<^term>\<open>Some None\<close> a field that is not set.\<close>

definition typed_field :: "(json \<Rightarrow> 'a option) \<Rightarrow> string \<Rightarrow> members \<Rightarrow> 'a option option" where
  "typed_field conv name ms =
     (let vs = filter (\<lambda>v. v \<noteq> JNull) (map fst (named name ms))
      in if list_all (\<lambda>v. conv v \<noteq> None) vs then Some (Option.bind (last_opt vs) conv) else None)"

definition str_field :: "string \<Rightarrow> members \<Rightarrow> string option" where
  "str_field name ms = map_option (\<lambda>x. case x of None \<Rightarrow> [] | Some s \<Rightarrow> s) (typed_field as_string name ms)"

definition int_field :: "string \<Rightarrow> members \<Rightarrow> int option" where
  "int_field name ms = map_option (\<lambda>x. case x of None \<Rightarrow> 0 | Some i \<Rightarrow> i) (typed_field as_int name ms)"

text \<open>\<open>*int64\<close>: the last member decides, and \<open>null\<close> clears it.\<close>

definition int_ptr_field :: "string \<Rightarrow> members \<Rightarrow> int option option" where
  "int_ptr_field name ms =
     (if typed_field as_int name ms = None then None
      else Some (Option.bind (last_opt (map fst (named name ms))) as_int))"

definition raw_field :: "string \<Rightarrow> members \<Rightarrow> string" where
  "raw_field name ms = (case last_opt (named name ms) of None \<Rightarrow> [] | Some (_, raw) \<Rightarrow> raw)"

section \<open>Nested values\<close>

definition as_bool :: "json \<Rightarrow> bool option" where
  "as_bool v = (case v of JBool b \<Rightarrow> Some b | _ \<Rightarrow> None)"

definition bool_field :: "string \<Rightarrow> members \<Rightarrow> bool option" where
  "bool_field name ms = map_option (\<lambda>x. case x of None \<Rightarrow> False | Some b \<Rightarrow> b) (typed_field as_bool name ms)"

text \<open>An array of values; of a struct in it, \<open>null\<close> gives the zero value.\<close>

fun conv_all :: "(json \<Rightarrow> 'a option) \<Rightarrow> json list \<Rightarrow> 'a list option" where
  "conv_all f [] = Some []"
| "conv_all f (v # vs) =
     (case (f v, conv_all f vs) of (Some x, Some xs) \<Rightarrow> Some (x # xs) | _ \<Rightarrow> None)"

lemma conv_all_map: "(\<And>x. x \<in> set xs \<Longrightarrow> f (g x) = Some x) \<Longrightarrow> conv_all f (map g xs) = Some xs"
  by (induction xs) auto

definition as_list :: "(json \<Rightarrow> 'a option) \<Rightarrow> json \<Rightarrow> 'a list option" where
  "as_list f v = (case v of JArr vs \<Rightarrow> conv_all f vs | _ \<Rightarrow> None)"

text \<open>A slice or a pointer: the last member decides, and \<open>null\<close> clears it.\<close>

definition ptr_field :: "(json \<Rightarrow> 'a option) \<Rightarrow> string \<Rightarrow> members \<Rightarrow> 'a option option" where
  "ptr_field conv name ms =
     (if typed_field conv name ms = None then None
      else Some (Option.bind (last_opt (map fst (named name ms))) (\<lambda>v. if v = JNull then None else conv v)))"

definition list_field :: "(json \<Rightarrow> 'a option) \<Rightarrow> string \<Rightarrow> members \<Rightarrow> 'a list option" where
  "list_field f name ms = map_option (\<lambda>x. case x of None \<Rightarrow> [] | Some xs \<Rightarrow> xs) (ptr_field (as_list f) name ms)"

definition as_struct :: "(members \<Rightarrow> 'a option) \<Rightarrow> json \<Rightarrow> 'a option" where
  "as_struct dec v =
     (case v of
        JObj ms \<Rightarrow> dec (map (\<lambda>(k, x). (k, x, encode x)) ms)
      | JNull \<Rightarrow> dec []
      | _ \<Rightarrow> None)"

text \<open>A whole document into a struct: \<open>null\<close> is accepted and sets nothing.\<close>

definition decode_document :: "(members \<Rightarrow> 'a option) \<Rightarrow> string \<Rightarrow> 'a option" where
  "decode_document dec body =
     (if unmarshal body = Some JNull then dec [] else Option.bind (unmarshal_members body) dec)"

lemma decode_document_encode:
  assumes "canonical (JObj ms)"
  shows "decode_document dec (encode (JObj ms)) = dec (map (\<lambda>(k, v). (k, v, encode v)) ms)"
  using unmarshal_members_encode [OF assms, of "[]"] unmarshal_encode [OF assms, of "[]"]
  by (simp add: decode_document_def)

lemmas field_defs = last_opt_def as_string_def as_int_def typed_field_def str_field_def
  int_field_def int_ptr_field_def raw_field_def as_bool_def bool_field_def ptr_field_def list_field_def

section \<open>Text without escapes\<close>

definition plain_byte :: "char \<Rightarrow> bool" where
  "plain_byte c = (let n = of_char c :: nat in 32 \<le> n \<and> n \<notin> {34, 38, 60, 62, 92, 226})"

lemma escape_plain: "list_all plain_byte s \<Longrightarrow> escape s = s"
proof (induction s)
  case (Cons c cs)
  then have c: "escape_byte c = [c]" "c \<noteq> CHR 0xE2" and cs: "escape cs = cs"
    by (auto simp: plain_byte_def escape_byte_def Let_def)
  have "escape (c # cs) = escape_byte c @ escape cs"
    by (subst escape.simps(2)) (simp add: c(2) del: escape.simps split: list.split)
  then show ?case by (simp only: c(1) cs append.simps)
qed simp

lemma encode_string_plain: "list_all plain_byte s \<Longrightarrow> encode_string s = quote # s @ [quote]"
  by (simp add: encode_string_def escape_plain)

end
