(* ===== verification/Saves.thy ===== *)
theory Saves
  imports Storage Json_Fields
begin

text \<open>
  The save operations of \<open>storage.Engine\<close>: the save file and its checksum, revisions, writing,
  reading, listing and deleting a slot, the trash and the quarantine, the writer role, and the
  settings document.
\<close>

section \<open>The save file\<close>

record save_header =
  sh_schema :: string
  sh_version :: int
  sh_game_version :: string
  sh_release :: string
  sh_created :: string
  sh_modified :: string
  sh_revision :: int
  sh_playtime :: "int option"
  sh_checksum :: string
  sh_compression :: string
  sh_payload :: string

definition schema_save :: string where "schema_save = ''kobra.save/1''"

definition decode_header :: "members \<Rightarrow> save_header option" where
  "decode_header ms =
     (case (str_field ''schema'' ms, int_field ''save_version'' ms, str_field ''game_version'' ms,
            str_field ''release'' ms, str_field ''created'' ms, str_field ''modified'' ms) of
        (Some sc, Some sv, Some gv, Some rl, Some cr, Some md) \<Rightarrow>
          (case (int_field ''revision'' ms, int_ptr_field ''playtime_seconds'' ms,
                 str_field ''checksum'' ms, str_field ''compression'' ms) of
             (Some rn, Some pt, Some ck, Some co) \<Rightarrow>
               Some \<lparr>sh_schema = sc, sh_version = sv, sh_game_version = gv, sh_release = rl, sh_created = cr,
                     sh_modified = md, sh_revision = rn, sh_playtime = pt, sh_checksum = ck,
                     sh_compression = co, sh_payload = raw_field ''payload'' ms\<rparr>
           | _ \<Rightarrow> None)
      | _ \<Rightarrow> None)"

definition parse_save :: "string \<Rightarrow> save_header option" where
  "parse_save raw =
     (case Option.bind (unmarshal_members raw) decode_header of
        None \<Rightarrow> None
      | Some h \<Rightarrow>
          if sh_schema h \<noteq> schema_save then None
          else if sh_version h < 1 then None
          else if length (sh_payload h) = 0 then None
          else Some h)"

definition checksum_of :: "string \<Rightarrow> string" where
  "checksum_of canon = ''sha256:'' @ sha256_hex canon"

definition verify_checksum :: "save_header \<Rightarrow> bool" where
  "verify_checksum h =
     (if sh_checksum h = [] then True
      else case canonicalise (sh_payload h) of
             None \<Rightarrow> False
           | Some c \<Rightarrow> sh_checksum h = checksum_of c)"

definition read_save_header :: "string \<Rightarrow> engine \<Rightarrow> save_header option \<times> engine" where
  "read_save_header path e =
     (case sys_read path e of (Inl _, e') \<Rightarrow> (None, e') | (Inr raw, e') \<Rightarrow> (parse_save raw, e'))"

definition map_io_error :: "store_error \<Rightarrow> kobra_error" where
  "map_io_error err =
     (case err of
        StoreErr k \<Rightarrow> k
      | SysErr x \<Rightarrow>
          if x = ENOSPC then InsufficientSpace
          else if x = EROFS then ReadOnly ''read_only_filesystem''
          else IO_error ''The launcher could not complete the file operation.'' [] (Some (PlainError ''errno''))
      | _ \<Rightarrow> IO_error ''The launcher could not complete the file operation.'' [] (Some (PlainError ''error'')))"

definition io_err :: "store_error \<Rightarrow> store_error" where
  "io_err err = StoreErr (map_io_error err)"

section \<open>Revisions\<close>

definition slot_key :: "string \<Rightarrow> string" where
  "slot_key slot = join_path ''saves'' (slot @ ''.json'')"

definition revision_of :: "string \<Rightarrow> engine \<Rightarrow> int" where
  "revision_of key e = (case get (revisions e) key of None \<Rightarrow> 0 | Some v \<Rightarrow> v)"

definition set_revision :: "string \<Rightarrow> int \<Rightarrow> engine \<Rightarrow> engine" where
  "set_revision key rv e = e\<lparr>revisions := put key rv (revisions e)\<rparr>"

definition revision_sidecar :: "string \<Rightarrow> int \<Rightarrow> string" where
  "revision_sidecar target rv = target @ dot # fmt_int rv"

text \<open>The largest number among the sidecars of a file, 0 when there is none.\<close>

definition max_sidecar :: "string \<Rightarrow> string list \<Rightarrow> int" where
  "max_sidecar name names =
     fold (\<lambda>on m. if prefix (name @ [dot]) on
                  then (case parse_int64 (trim_prefix (name @ [dot]) on) of
                          Some v \<Rightarrow> if m < v then v else m
                        | None \<Rightarrow> m)
                  else m) names 0"

definition init_slot :: "string list \<Rightarrow> string \<Rightarrow> string list \<times> engine \<Rightarrow> string list \<times> engine" where
  "init_slot names name st =
     (case st of (rebuilt, e) \<Rightarrow>
        (let slot = trim_suffix ''.json'' name
         in if \<not> suffix ''.json'' name \<or> validate_identifier slot \<noteq> None then (rebuilt, e)
            else (let m = max_sidecar name names
                  in if m = 0
                     then (case read_save_header (join_path (dir_for e ''saves'') name) e of
                             (h, e1) \<Rightarrow>
                               (let m' = (case h of Some h' \<Rightarrow> if 0 < sh_revision h' then sh_revision h' else 1 | None \<Rightarrow> 1)
                                in (List.insert slot rebuilt, set_revision (slot_key slot) m' e1)))
                     else (rebuilt, set_revision (slot_key slot) m e))))"

definition init_revisions :: "engine \<Rightarrow> store_error option \<times> engine" where
  "init_revisions e0 =
     (case sys_readdir (dir_for e0 ''saves'') e0 of
        (Inl x, e1) \<Rightarrow> (if x = ENOENT then None else Some (SysErr x), e1)
      | (Inr names, e1) \<Rightarrow>
          (case fold (init_slot names) names ([], e1) of
             (rebuilt, e2) \<Rightarrow>
               (case ctx_err (fold (\<lambda>_. log_event ''storage.revision.rebuilt'') rebuilt e2) of
                  (b, e3) \<Rightarrow> (if b then Some CtxErr else None, e3))))"

definition modified_of :: "string \<Rightarrow> engine \<Rightarrow> string \<times> engine" where
  "modified_of slot e =
     (case save_path e slot of
        Inl _ \<Rightarrow> ([], e)
      | Inr p \<Rightarrow> (case read_save_header p e of (None, e') \<Rightarrow> ([], e') | (Some h, e') \<Rightarrow> (sh_modified h, e')))"

definition check_revision :: "string \<Rightarrow> int option \<Rightarrow> engine \<Rightarrow> store_error option \<times> engine" where
  "check_revision key if_rev e =
     (case if_rev of
        None \<Rightarrow> (None, e)
      | Some r \<Rightarrow>
          (let cur = revision_of key e
           in if r = cur then (None, e)
              else (let slot = trim_suffix ''.json'' (base_name key)
                    in case modified_of slot e of (m, e') \<Rightarrow> (Some (ConflictError slot cur m), e'))))"

text \<open>\<open>AsKobra\<close>.\<close>

definition as_kobra_conflict :: "string \<Rightarrow> int \<Rightarrow> string \<Rightarrow> kobra_error" where
  "as_kobra_conflict slot cur modified =
     (let w = [(''current_revision'', JNum (fmt_int cur)), (''slot'', JStr slot)];
          w = (if modified \<noteq> [] then put ''modified'' (JStr modified) w else w)
      in case Conflict ''This slot was changed by another tab since you loaded it.'' [] of
           KobraError c h m d cause r _ \<Rightarrow> KobraError c h m d cause r w)"

definition sidecar_revs :: "string \<Rightarrow> string list \<Rightarrow> int list" where
  "sidecar_revs pre names = List.map_filter (\<lambda>n. if prefix pre n then parse_int64 (trim_prefix pre n) else None) names"

definition evicted_revs :: "nat \<Rightarrow> int list \<Rightarrow> int list" where
  "evicted_revs n revs = (if length revs \<le> n then [] else take (length revs - n) (sort revs))"

definition prune_revisions :: "string \<Rightarrow> engine \<Rightarrow> engine" where
  "prune_revisions slot e0 =
     (if keep_revisions e0 \<le> 0 then e0
      else
        let dir = dir_for e0 ''saves''; pre = slot @ ''.json.''
        in case sys_readdir dir e0 of
             (Inl _, e1) \<Rightarrow> e1
           | (Inr names, e1) \<Rightarrow>
               fold (\<lambda>v e. snd (sys_remove (join_path dir (pre @ fmt_int v)) e))
                 (evicted_revs (nat (keep_revisions e0)) (sidecar_revs pre names)) e1)"

definition write_revision_sidecar :: "string \<Rightarrow> int \<Rightarrow> engine \<Rightarrow> store_error option \<times> engine" where
  "write_revision_sidecar target rv e =
     write_atomic (revision_sidecar target rv) (fmt_int rv @ [CHR 0x0A]) e"

section \<open>The writer role\<close>

definition claim_engine_writer :: "string \<Rightarrow> engine \<Rightarrow> store_error option \<times> engine" where
  "claim_engine_writer sid e =
     (if eng_writer e = sid then (None, e)
      else if eng_writer e = [] then (None, e\<lparr>eng_writer := sid\<rparr>)
      else (Some (StoreErr (WriterHeld (eng_writer e))), e))"

definition release_engine_writer :: "string \<Rightarrow> engine \<Rightarrow> engine" where
  "release_engine_writer sid e = (if eng_writer e = sid then e\<lparr>eng_writer := []\<rparr> else e)"

section \<open>Writing a save\<close>

record save_write =
  sw_slot :: string
  sw_if_revision :: "int option"
  sw_claim :: bool
  sw_compression :: string
  sw_payload :: string
  sw_playtime :: "int option"
  sw_session :: string

record save_result =
  sr_slot :: string
  sr_revision :: int
  sr_modified :: string
  sr_bytes :: nat

definition opt_member :: "bool \<Rightarrow> string \<Rightarrow> json \<Rightarrow> (string \<times> json) list" where
  "opt_member b k v = (if b then [(k, v)] else [])"

text \<open>The header map, with its members in the order \<open>json.Marshal\<close> writes them.\<close>

definition save_members :: "engine \<Rightarrow> save_write \<Rightarrow> string \<Rightarrow> string \<Rightarrow> int \<Rightarrow> json \<Rightarrow> (string \<times> json) list" where
  "save_members e w now crtd rv v =
     [(''checksum'', JStr (checksum_of (encode v)))]
     @ opt_member (sw_compression w \<noteq> []) ''compression'' (JStr (sw_compression w))
     @ [(''created'', JStr crtd), (''game_version'', JStr (engine_ver e)), (''modified'', JStr now), (''payload'', v)]
     @ opt_member (sw_playtime w \<noteq> None) ''playtime_seconds'' (JNum (fmt_int (case sw_playtime w of Some p \<Rightarrow> p | None \<Rightarrow> 0)))
     @ opt_member (release e \<noteq> []) ''release'' (JStr (release e))
     @ [(''revision'', JNum (fmt_int rv)), (''save_version'', JNum (fmt_int (save_ver e))), (''schema'', JStr schema_save)]"

definition save_body :: "engine \<Rightarrow> save_write \<Rightarrow> string \<Rightarrow> string \<Rightarrow> int \<Rightarrow> json \<Rightarrow> string" where
  "save_body e w now crtd rv v = encode (JObj (save_members e w now crtd rv v)) @ [CHR 0x0A]"

text \<open>What \<open>WriteSave\<close> does under the lock, once the revision has been checked.\<close>

definition write_save_locked :: "string \<Rightarrow> string \<Rightarrow> save_write \<Rightarrow> engine \<Rightarrow> (store_error + save_result) \<times> engine" where
  "write_save_locked now target w e0 =
     (case decode_first (sw_payload w) of
        None \<Rightarrow> (Inl (StoreErr (MalformedBody (Some (PlainError ''json'')))), e0)
      | Some v \<Rightarrow>
          (case read_save_header target e0 of
             (prev, e1) \<Rightarrow>
               (let crtd = (case prev of Some h \<Rightarrow> if sh_created h \<noteq> [] then sh_created h else now | None \<Rightarrow> now);
                    key = slot_key (sw_slot w);
                    rv = wrap64 (revision_of key e1 + 1);
                    body = save_body e1 w now crtd rv v
                in case write_atomic target body e1 of
                     (Some err, e2) \<Rightarrow> (Inl (io_err err), log_event ''save.write.failed'' e2)
                   | (None, e2) \<Rightarrow>
                       (let e3 = prune_revisions (sw_slot w) (set_revision key rv e2)
                        in case write_revision_sidecar target rv e3 of
                             (err, e4) \<Rightarrow>
                               (let e5 = (if err = None then e4 else log_event ''save.revision.sidecar'' e4)
                                in (Inr \<lparr>sr_slot = sw_slot w, sr_revision = rv, sr_modified = now,
                                         sr_bytes = length (encode v)\<rparr>,
                                    log_event ''save.write'' e5))))))"

definition write_save :: "string \<Rightarrow> save_write \<Rightarrow> engine \<Rightarrow> (store_error + save_result) \<times> engine" where
  "write_save now w e0 =
     (case ctx_err e0 of
        (True, e1) \<Rightarrow> (Inl CtxErr, e1)
      | (False, e1) \<Rightarrow>
          if \<not> writable e1 then (Inl (StoreErr (ReadOnly (probe_reason e1))), e1)
          else
            case save_path e1 (sw_slot w) of
              Inl err \<Rightarrow> (Inl err, e1)
            | Inr target \<Rightarrow>
                (case (if sw_claim w then claim_engine_writer (sw_session w) e1 else (None, e1)) of
                   (Some err, e2) \<Rightarrow> (Inl err, e2)
                 | (None, e2) \<Rightarrow>
                     (case check_revision (slot_key (sw_slot w)) (sw_if_revision w) e2 of
                        (Some err, e3) \<Rightarrow> (Inl err, e3)
                      | (None, e3) \<Rightarrow> write_save_locked now target w e3)))"

section \<open>Reading a save\<close>

text \<open>The fallback to the \<open>.bak\<close>, checked or not against its checksum.\<close>

definition read_bak :: "bool \<Rightarrow> string \<Rightarrow> engine \<Rightarrow> string option \<times> engine" where
  "read_bak checked p e =
     (case sys_read (bak_of p) e of
        (Inl _, e1) \<Rightarrow> (None, e1)
      | (Inr bak, e1) \<Rightarrow>
          (case parse_save bak of
             None \<Rightarrow> (None, e1)
           | Some h \<Rightarrow>
               if checked \<and> \<not> verify_checksum h then (None, e1)
               else (Some (sh_payload h), log_event ''save.recover'' e1)))"

definition slot_detail :: "string \<Rightarrow> (string, json) gmap" where
  "slot_detail slot = [(''slot'', JStr slot)]"

definition read_save :: "string \<Rightarrow> engine \<Rightarrow> (store_error + string) \<times> engine" where
  "read_save slot e0 =
     (case save_path e0 slot of
        Inl err \<Rightarrow> (Inl err, e0)
      | Inr p \<Rightarrow>
          (case ctx_err e0 of
             (True, e1) \<Rightarrow> (Inl CtxErr, e1)
           | (False, e1) \<Rightarrow>
               (case sys_read p e1 of
                  (Inl x, e2) \<Rightarrow>
                    if x = ENOENT
                    then (case read_bak True p e2 of
                            (Some payload, e3) \<Rightarrow> (Inr payload, e3)
                          | (None, e3) \<Rightarrow> (Inl (StoreErr (NotFound ''save slot'')), e3))
                    else (Inl (io_err (SysErr x)), e2)
                | (Inr raw, e2) \<Rightarrow>
                    (case parse_save raw of
                       None \<Rightarrow>
                         (case read_bak False p e2 of
                            (Some payload, e3) \<Rightarrow> (Inr payload, e3)
                          | (None, e3) \<Rightarrow>
                              (Inl (StoreErr (IO_error ''That save file could not be read.'' (slot_detail slot)
                                      (Some (PlainError ''header'')))), log_event ''save.corrupt'' e3))
                     | Some h \<Rightarrow>
                         if \<not> verify_checksum h
                         then (case read_bak True p e2 of
                                 (Some payload, e3) \<Rightarrow> (Inr payload, e3)
                               | (None, e3) \<Rightarrow>
                                   (Inl (StoreErr (IO_error ''That save file failed its integrity check.''
                                           (slot_detail slot) None)), log_event ''save.corrupt'' e3))
                         else (Inr (sh_payload h), e2)))))"

section \<open>Listing\<close>

record save_summary =
  ss_slot :: string
  ss_save_version :: int
  ss_game_version :: string
  ss_modified :: string
  ss_revision :: int
  ss_playtime :: "int option"
  ss_size :: nat
  ss_corrupt :: bool

text \<open>\<open>readIndex\<close>: the modification times of the advisory index, when it decodes.\<close>

definition index_entry :: "json \<Rightarrow> string option" where
  "index_entry v =
     (case v of
        JObj ms \<Rightarrow> (case member ''modified'' ms of None \<Rightarrow> Some [] | Some JNull \<Rightarrow> Some [] | Some w \<Rightarrow> as_string w)
      | JNull \<Rightarrow> Some []
      | _ \<Rightarrow> None)"

definition parse_index :: "string \<Rightarrow> (string, string) gmap option" where
  "parse_index raw =
     (case unmarshal raw of
        Some (JObj ms) \<Rightarrow>
          (case member ''saves'' ms of
             None \<Rightarrow> Some []
           | Some JNull \<Rightarrow> Some []
           | Some (JObj es) \<Rightarrow>
               (if list_all (\<lambda>(k, v). index_entry v \<noteq> None) es
                then Some (map (\<lambda>(k, v). (k, case index_entry v of Some m \<Rightarrow> m | None \<Rightarrow> [])) es)
                else None)
           | Some _ \<Rightarrow> None)
      | Some JNull \<Rightarrow> Some []
      | _ \<Rightarrow> None)"

definition read_index :: "string \<Rightarrow> engine \<Rightarrow> (string, string) gmap option \<times> engine" where
  "read_index dir e =
     (case sys_read (join_path dir ''index.json'') e of
        (Inl _, e1) \<Rightarrow> (None, e1)
      | (Inr raw, e1) \<Rightarrow>
          (case parse_index raw of
             None \<Rightarrow> (None, log_event ''storage.index.corrupt'' e1)
           | Some idx \<Rightarrow> (Some idx, e1)))"

definition summary_of :: "(string, string) gmap \<Rightarrow> string \<Rightarrow> nat \<Rightarrow> string \<Rightarrow> int \<Rightarrow> save_header option \<Rightarrow> save_summary" where
  "summary_of index mtime sz slot rv h =
     (let sum = (case h of
            None \<Rightarrow> \<lparr>ss_slot = slot, ss_save_version = 0, ss_game_version = [], ss_modified = [],
                     ss_revision = (if rv = 0 then 1 else rv), ss_playtime = None, ss_size = sz, ss_corrupt = True\<rparr>
          | Some h \<Rightarrow>
              (let r1 = (if 0 < sh_revision h then sh_revision h else rv)
               in \<lparr>ss_slot = slot, ss_save_version = sh_version h, ss_game_version = sh_game_version h,
                   ss_modified = sh_modified h, ss_revision = (if r1 = 0 then 1 else r1),
                   ss_playtime = sh_playtime h, ss_size = sz, ss_corrupt = \<not> verify_checksum h\<rparr>));
          sum = (if ss_modified sum = []
                 then (case get index slot of Some m \<Rightarrow> sum\<lparr>ss_modified := m\<rparr> | None \<Rightarrow> sum) else sum)
      in if ss_modified sum = [] then sum\<lparr>ss_modified := mtime\<rparr> else sum)"

text \<open>The loop over the directory; \<open>mt\<close> gives a file's modification time.\<close>

fun list_loop :: "(string \<Rightarrow> string) \<Rightarrow> string \<Rightarrow> (string, string) gmap \<Rightarrow> string list \<Rightarrow> engine
    \<Rightarrow> save_summary list \<times> engine" where
  "list_loop mt dir index [] e = ([], e)"
| "list_loop mt dir index (name # names) e =
     (let slot = trim_suffix ''.json'' name; p = join_path dir name
      in if \<not> suffix ''.json'' name \<or> validate_identifier slot \<noteq> None then list_loop mt dir index names e
         else case sys_stat p e of
                (Inl _, e1) \<Rightarrow> list_loop mt dir index names e1
              | (Inr sz, e1) \<Rightarrow>
                  (case read_save_header p e1 of
                     (h, e2) \<Rightarrow>
                       (let sum = summary_of index (mt p) sz slot (revision_of (join_path ''saves'' name) e2) h
                        in case list_loop mt dir index names e2 of (sums, e3) \<Rightarrow> (sum # sums, e3))))"

definition newer_first :: "save_summary \<Rightarrow> save_summary \<Rightarrow> bool" where
  "newer_first a b =
     (if ss_modified a \<noteq> ss_modified b then ss_modified b < ss_modified a else ss_slot a < ss_slot b)"

text \<open>\<open>sort.SliceStable\<close>: each element goes before the first one it is less than.\<close>

fun insert_by :: "('a \<Rightarrow> 'a \<Rightarrow> bool) \<Rightarrow> 'a \<Rightarrow> 'a list \<Rightarrow> 'a list" where
  "insert_by lt x [] = [x]"
| "insert_by lt x (y # ys) = (if lt x y then x # y # ys else y # insert_by lt x ys)"

definition sort_stable :: "('a \<Rightarrow> 'a \<Rightarrow> bool) \<Rightarrow> 'a list \<Rightarrow> 'a list" where
  "sort_stable lt xs = fold (insert_by lt) xs []"

text \<open>\<open>ListSaves\<close>: the summaries and whether the index had to be rebuilt.\<close>

definition list_saves :: "(string \<Rightarrow> string) \<Rightarrow> engine \<Rightarrow> (store_error + save_summary list \<times> bool) \<times> engine" where
  "list_saves mt e0 =
     (case ctx_err e0 of
        (True, e1) \<Rightarrow> (Inl CtxErr, e1)
      | (False, e1) \<Rightarrow>
          (let dir = dir_for e1 ''saves'' in
           case sys_readdir dir e1 of
             (Inl x, e2) \<Rightarrow> (if x = ENOENT then Inr ([], False) else Inl (io_err (SysErr x)), e2)
           | (Inr names, e2) \<Rightarrow>
               (case read_index dir e2 of
                  (idx, e3) \<Rightarrow>
                    (case list_loop mt dir (case idx of None \<Rightarrow> [] | Some i \<Rightarrow> i) names e3 of
                       (sums, e4) \<Rightarrow> (Inr (sort_stable newer_first sums, idx = None), e4)))))"

section \<open>Trash\<close>

definition new_trash_dir :: "string \<Rightarrow> string \<Rightarrow> engine \<Rightarrow> string" where
  "new_trash_dir ts area e = join_path (eng_dir e) (''.trash-'' @ ts @ slash # area)"

definition move_to_trash :: "string \<Rightarrow> string \<Rightarrow> engine \<Rightarrow> errno option \<times> engine" where
  "move_to_trash src trash e0 =
     (case sys_plain e0 of
        (Some x, e1) \<Rightarrow> (Some x, e1)
      | (None, e1) \<Rightarrow>
          (let dst = join_path trash (base_name src) in
           case sys_rename src dst e1 of
             (None, e2) \<Rightarrow> (None, e2)
           | (Some x, e2) \<Rightarrow>
               if x \<noteq> EXDEV then (Some x, e2) else rename_cross_device src dst e2))"

definition delete_save :: "string \<Rightarrow> string \<Rightarrow> engine \<Rightarrow> store_error option \<times> engine" where
  "delete_save ts slot e0 =
     (case save_path e0 slot of
        Inl err \<Rightarrow> (Some err, e0)
      | Inr p \<Rightarrow>
          (case sys_stat p e0 of
             (Inl x, e1) \<Rightarrow>
               (if x = ENOENT then Some (StoreErr (NotFound ''save slot'')) else Some (io_err (SysErr x)), e1)
           | (Inr _, e1) \<Rightarrow>
               (let trash = new_trash_dir ts ''saves'' e1 in
                case move_to_trash p trash e1 of
                  (Some x, e2) \<Rightarrow> (Some (io_err (SysErr x)), e2)
                | (None, e2) \<Rightarrow>
                    (let e4 = (case sys_stat (bak_of p) e2 of
                                 (Inl _, e3) \<Rightarrow> e3
                               | (Inr _, e3) \<Rightarrow> snd (move_to_trash (bak_of p) trash e3))
                     in case ctx_err (set_revision (slot_key slot) 0 e4) of
                          (b, e5) \<Rightarrow> (if b then Some CtxErr else None, e5)))))"

definition contains_sub :: "string \<Rightarrow> string \<Rightarrow> bool" where
  "contains_sub x s = sublist x s"

definition is_write_temp_name :: "string \<Rightarrow> bool" where
  "is_write_temp_name name = (prefix [dot] name \<and> contains_sub ''.tmp-'' name)"

text \<open>\<open>QuarantineStrayTemps\<close>: the loop over one area, and over both.\<close>

fun quarantine_loop :: "string \<Rightarrow> string \<Rightarrow> string \<Rightarrow> string list \<Rightarrow> nat \<Rightarrow> engine \<Rightarrow> (store_error + nat) \<times> engine" where
  "quarantine_loop ts area dir [] n e = (Inr n, e)"
| "quarantine_loop ts area dir (name # names) n e =
     (case ctx_err e of
        (True, e1) \<Rightarrow> (Inl CtxErr, e1)
      | (False, e1) \<Rightarrow>
          if \<not> is_write_temp_name name then quarantine_loop ts area dir names n e1
          else case move_to_trash (join_path dir name) (new_trash_dir ts area e1) e1 of
                 (Some x, e2) \<Rightarrow> quarantine_loop ts area dir names n (log_event ''storage.quarantine.failed'' e2)
               | (None, e2) \<Rightarrow>
                   quarantine_loop ts area dir names (Suc n)
                     (log_event (if area = ''config'' then ''config.recover'' else ''save.recover'') e2))"

fun quarantine_areas :: "string \<Rightarrow> string list \<Rightarrow> nat \<Rightarrow> engine \<Rightarrow> (store_error + nat) \<times> engine" where
  "quarantine_areas ts [] n e = (Inr n, e)"
| "quarantine_areas ts (area # areas) n e =
     (case sys_readdir (dir_for e area) e of
        (Inl x, e1) \<Rightarrow> if x = ENOENT then quarantine_areas ts areas n e1 else (Inl (SysErr x), e1)
      | (Inr names, e1) \<Rightarrow>
          (case quarantine_loop ts area (dir_for e1 area) names n e1 of
             (Inl err, e2) \<Rightarrow> (Inl err, e2)
           | (Inr n', e2) \<Rightarrow> quarantine_areas ts areas n' e2))"

definition quarantine_stray_temps :: "string \<Rightarrow> engine \<Rightarrow> (store_error + nat) \<times> engine" where
  "quarantine_stray_temps ts e =
     (case quarantine_areas ts [''saves'', ''config''] 0 e of
        (Inr n, e1) \<Rightarrow> (Inr n, if 0 < n then log_event ''storage.quarantine'' e1 else e1)
      | (Inl err, e1) \<Rightarrow> (Inl err, e1))"

section \<open>The settings document\<close>

definition read_config_bytes :: "engine \<Rightarrow> (errno + string \<times> bool) \<times> engine" where
  "read_config_bytes e0 =
     (case sys_read (config_file e0) e0 of
        (Inr b, e1) \<Rightarrow> (Inr (b, False), e1)
      | (Inl x, e1) \<Rightarrow>
          if x \<noteq> ENOENT then (Inl x, e1)
          else case sys_read (bak_of (config_file e0)) e1 of
                 (Inr bak, e2) \<Rightarrow> (Inr (bak, True), e2)
               | (Inl _, e2) \<Rightarrow> (Inr (''{}'' @ [CHR 0x0A], False), e2))"

definition read_config :: "engine \<Rightarrow> (store_error + string) \<times> engine" where
  "read_config e0 =
     (case ctx_err e0 of
        (True, e1) \<Rightarrow> (Inl CtxErr, e1)
      | (False, e1) \<Rightarrow>
          (case read_config_bytes e1 of
             (Inl x, e2) \<Rightarrow> (Inl (io_err (SysErr x)), e2)
           | (Inr (raw, recovered), e2) \<Rightarrow> (Inr raw, if recovered then log_event ''config.recover'' e2 else e2)))"

definition config_key :: string where "config_key = ''config/settings.json''"

text \<open>
  The current settings as a Go map: \<^term>\<open>None\<close> is the nil map a \<open>null\<close> document leaves; a
  document that does not decode counts as empty.
\<close>

definition current_settings :: "string \<Rightarrow> (string \<times> json) list option" where
  "current_settings raw =
     (case unmarshal raw of
        Some (JObj ms) \<Rightarrow> Some ms
      | Some JNull \<Rightarrow> None
      | _ \<Rightarrow> Some [])"

text \<open>
  \<open>MergeConfig\<close>; assigning to the nil map panics. The document is modelled as a value: the
  code writes the members' own bytes, compacted, the model their canonical text.
\<close>

definition merge_config :: "string \<Rightarrow> int option \<Rightarrow> (string \<times> json) list \<Rightarrow> engine \<Rightarrow> (store_error + int \<times> string) \<times> engine" where
  "merge_config now if_rev merge e0 =
     (if \<not> writable e0 then (Inl (StoreErr (ReadOnly (probe_reason e0))), e0)
      else case check_revision config_key if_rev e0 of
        (Some err, e1) \<Rightarrow> (Inl err, e1)
      | (None, e1) \<Rightarrow>
          (case read_config_bytes e1 of
             (Inl x, e2) \<Rightarrow> (Inl (io_err (SysErr x)), e2)
           | (Inr (raw, recovered), e2) \<Rightarrow>
               (let e3 = (if recovered then log_event ''config.recover'' e2 else e2) in
                case (current_settings raw, merge) of
                  (None, _ # _) \<Rightarrow> (Inl Panic, e3)
                | (cur, _) \<Rightarrow>
                    (let doc = (case cur of
                           None \<Rightarrow> JNull
                         | Some ms \<Rightarrow> JObj (fold (\<lambda>(k, v). set_member k v) merge ms));
                         body = encode doc @ [CHR 0x0A]
                     in case write_atomic (config_file e3) body e3 of
                          (Some err, e4) \<Rightarrow> (Inl (io_err err), e4)
                        | (None, e4) \<Rightarrow>
                            (let rv = wrap64 (revision_of config_key e4 + 1)
                             in (Inr (rv, now), log_event ''config.write'' (set_revision config_key rv e4)))))))"

section \<open>The save file round-trips\<close>

lemma keys_sorted_Cons: "keys_sorted ((k, v) # ms) \<longleftrightarrow> (\<forall>k' \<in> fst ` set ms. k < k') \<and> keys_sorted ms"
  by (auto simp: keys_sorted_def)

lemma canonical_save_members:
  assumes "canonical v"
  shows "canonical (JObj (save_members e w now crtd rv v))"
  using assms
  by (cases "sw_compression w = []"; cases "sw_playtime w"; cases "release e = []")
    (simp_all add: save_members_def opt_member_def keys_sorted_def)

definition written_header :: "engine \<Rightarrow> save_write \<Rightarrow> string \<Rightarrow> string \<Rightarrow> int \<Rightarrow> json \<Rightarrow> save_header" where
  "written_header e w now crtd rv v =
     \<lparr>sh_schema = schema_save, sh_version = save_ver e, sh_game_version = engine_ver e,
      sh_release = release e, sh_created = crtd, sh_modified = now, sh_revision = rv,
      sh_playtime = sw_playtime w, sh_checksum = checksum_of (encode v),
      sh_compression = sw_compression w, sh_payload = encode v\<rparr>"

definition int64 :: "int \<Rightarrow> bool" where
  "int64 i = (int64_min \<le> i \<and> i \<le> int64_max)"

lemma parse_int64_fmt [simp]: "int64 i \<Longrightarrow> parse_int64 (fmt_int i) = Some i"
  by (simp add: int64_def parse_fmt_int)

lemma encode_nonempty: "canonical v \<Longrightarrow> encode v \<noteq> []"
  using encode_head [of v] by auto

lemmas field_defs = str_field_def int_field_def int_ptr_field_def raw_field_def typed_field_def named_def
  last_opt_def as_string_def as_int_def

lemma named_members:
  "named name (map (\<lambda>(k, v). (k, v, encode v)) ms)
     = map (\<lambda>(k, v). (v, encode v)) (filter (\<lambda>(k, v). map to_lower_ascii k = name) ms)"
  by (induction ms) (auto simp: named_def)

lemma lower_names:
  "map to_lower_ascii ''checksum'' = ''checksum''" "map to_lower_ascii ''compression'' = ''compression''"
  "map to_lower_ascii ''created'' = ''created''" "map to_lower_ascii ''game_version'' = ''game_version''"
  "map to_lower_ascii ''modified'' = ''modified''" "map to_lower_ascii ''payload'' = ''payload''"
  "map to_lower_ascii ''playtime_seconds'' = ''playtime_seconds''" "map to_lower_ascii ''release'' = ''release''"
  "map to_lower_ascii ''revision'' = ''revision''" "map to_lower_ascii ''save_version'' = ''save_version''"
  "map to_lower_ascii ''schema'' = ''schema''"
  by (simp_all add: to_lower_ascii_def)

lemma save_member_named:
  "filter (\<lambda>(k, v'). map to_lower_ascii k = ''payload'') (save_members e w now crtd rv v) = [(''payload'', v)]"
  "filter (\<lambda>(k, v'). map to_lower_ascii k = ''schema'') (save_members e w now crtd rv v) = [(''schema'', JStr schema_save)]"
  "filter (\<lambda>(k, v'). map to_lower_ascii k = ''save_version'') (save_members e w now crtd rv v)
     = [(''save_version'', JNum (fmt_int (save_ver e)))]"
  "filter (\<lambda>(k, v'). map to_lower_ascii k = ''game_version'') (save_members e w now crtd rv v)
     = [(''game_version'', JStr (engine_ver e))]"
  "filter (\<lambda>(k, v'). map to_lower_ascii k = ''created'') (save_members e w now crtd rv v) = [(''created'', JStr crtd)]"
  "filter (\<lambda>(k, v'). map to_lower_ascii k = ''modified'') (save_members e w now crtd rv v) = [(''modified'', JStr now)]"
  "filter (\<lambda>(k, v'). map to_lower_ascii k = ''revision'') (save_members e w now crtd rv v)
     = [(''revision'', JNum (fmt_int rv))]"
  "filter (\<lambda>(k, v'). map to_lower_ascii k = ''checksum'') (save_members e w now crtd rv v)
     = [(''checksum'', JStr (checksum_of (encode v)))]"
  "filter (\<lambda>(k, v'). map to_lower_ascii k = ''release'') (save_members e w now crtd rv v)
     = opt_member (release e \<noteq> []) ''release'' (JStr (release e))"
  "filter (\<lambda>(k, v'). map to_lower_ascii k = ''compression'') (save_members e w now crtd rv v)
     = opt_member (sw_compression w \<noteq> []) ''compression'' (JStr (sw_compression w))"
  "filter (\<lambda>(k, v'). map to_lower_ascii k = ''playtime_seconds'') (save_members e w now crtd rv v)
     = opt_member (sw_playtime w \<noteq> None) ''playtime_seconds''
         (JNum (fmt_int (case sw_playtime w of Some p \<Rightarrow> p | None \<Rightarrow> 0)))"
  unfolding save_members_def opt_member_def
  by (simp_all add: lower_names del: list.map)

lemma decode_save_members:
  assumes "int64 (save_ver e)" and "int64 rv" and "\<And>p. sw_playtime w = Some p \<Longrightarrow> int64 p"
  shows "decode_header (map (\<lambda>(k, v). (k, v, encode v)) (save_members e w now crtd rv v))
    = Some (written_header e w now crtd rv v)"
  using assms
  by (cases "sw_playtime w")
    (simp_all add: decode_header_def field_defs named_members [unfolded named_def] save_member_named opt_member_def written_header_def)

text \<open>
  The file \<open>WriteSave\<close> writes is read back with the header it was given, and its checksum
  verifies.
\<close>

lemma parse_save_body:
  assumes "canonical v" and "int64 (save_ver e)" and "1 \<le> save_ver e" and "int64 rv"
    and "\<And>p. sw_playtime w = Some p \<Longrightarrow> int64 p"
  shows "parse_save (save_body e w now crtd rv v) = Some (written_header e w now crtd rv v)"
    and "verify_checksum (written_header e w now crtd rv v)"
proof -
  have "unmarshal_members (save_body e w now crtd rv v)
      = Some (map (\<lambda>(k, v). (k, v, encode v)) (save_members e w now crtd rv v))"
    unfolding save_body_def by (rule unmarshal_members_encode [OF canonical_save_members [OF assms(1)]]) simp
  then show "parse_save (save_body e w now crtd rv v) = Some (written_header e w now crtd rv v)"
    using assms(3) decode_save_members [OF assms(2,4,5)] encode_nonempty [OF assms(1)]
    by (simp add: parse_save_def written_header_def)
  show "verify_checksum (written_header e w now crtd rv v)"
    by (simp add: verify_checksum_def written_header_def canonicalise_def decode_first_encode [OF assms(1)])
qed

end
