(* ===== verification/Save_Safety.thy ===== *)
theory Save_Safety
  imports Saves
begin

text \<open>
  The promises of the save engine: slots stay in their directory, a write is crash-safe and is
  read back, revisions count the writes and guard them, pruning keeps the newest sidecars, a
  deletion keeps the data, a settings merge keeps the other settings; and the places where the
  code falls short of them.
\<close>

section \<open>Paths of slots\<close>

lemma identifier_chars:
  assumes "validate_identifier s = None"
  shows "s \<noteq> []" and "slash \<notin> set s" and "length s \<le> 64"
proof -
  have re: "identifier_re s" "slash \<notin> set s" using assms by (auto simp: validate_identifier_def split: if_splits)
  then show "s \<noteq> []" "slash \<notin> set s" "length s \<le> 64"
    by (auto simp: identifier_re_def split: list.splits)
qed

lemma plain_json: "slash \<notin> set s \<Longrightarrow> plain_seg (s @ ''.json'')"
  by (rule plain_seg_long) (auto simp: slash_def)

lemma plain_areas: "plain_seg ''saves''" "plain_seg ''config''" "plain_seg ''settings.json''"
  by (rule plain_seg_long; simp add: slash_def)+

lemma dir_for_path:
  "rooted (eng_dir e) \<Longrightarrow> plain_seg area \<Longrightarrow> dir_for e area = path_of (segs_of (eng_dir e) @ [area])"
  by (simp add: dir_for_def join_path_of)

lemma in_dir_path:
  assumes "rooted (eng_dir e)" and "plain_seg area" and "plain_seg name"
  shows "join_path (dir_for e area) name = path_of (segs_of (eng_dir e) @ [area, name])"
proof -
  have "list_all plain_seg (segs_of (eng_dir e) @ [area])"
    using assms list_all_segs_of [OF assms(1)] by simp
  then show ?thesis
    using assms join_path_of [of "dir_for e area" name] dir_for_path [OF assms(1,2)]
    by (simp add: segs_of_path_of)
qed

lemma save_path_Inr:
  assumes "rooted (eng_dir e)" and "save_path e slot = Inr p"
  shows "p = path_of (segs_of (eng_dir e) @ [''saves'', slot @ ''.json''])"
    and "validate_identifier slot = None"
proof -
  show v: "validate_identifier slot = None"
    using assms(2) by (auto simp: save_path_def split: option.splits)
  have "p = join_path (dir_for e ''saves'') (slot @ ''.json'')"
    using assms(2) by (auto simp: save_path_def confine_path_def Let_def split: option.splits if_splits)
  then show "p = path_of (segs_of (eng_dir e) @ [''saves'', slot @ ''.json''])"
    using in_dir_path [OF assms(1) plain_areas(1) plain_json] identifier_chars [OF v] by simp
qed

lemma save_path_ok:
  assumes "rooted (eng_dir e)" and "validate_identifier slot = None"
  shows "save_path e slot = Inr (path_of (segs_of (eng_dir e) @ [''saves'', slot @ ''.json'']))"
proof -
  note n = identifier_chars [OF assms(2)]
  have p: "join_path (dir_for e ''saves'') (slot @ ''.json'') = path_of (segs_of (eng_dir e) @ [''saves'', slot @ ''.json''])"
    by (rule in_dir_path [OF assms(1) plain_areas(1) plain_json [OF n(2)]])
  have "list_all plain_seg (segs_of (eng_dir e) @ [''saves'', slot @ ''.json''])"
    using list_all_segs_of [OF assms(1)] plain_areas(1) plain_json [OF n(2)] by simp
  then have "confine (eng_dir e) (path_of (segs_of (eng_dir e) @ [''saves'', slot @ ''.json'']))"
    using confine_iff_prefix [OF assms(1) rooted_path_of] by (simp add: segs_of_path_of)
  then show ?thesis
    using assms(2) p by (simp add: save_path_def confine_path_def)
qed

lemma temp_apart_save: "rooted (eng_dir e) \<Longrightarrow> save_path e slot = Inr p \<Longrightarrow> temp_apart p"
  using temp_apart_path [of "segs_of (eng_dir e) @ [''saves'']" "slot @ ''.json''"]
    save_path_Inr [of e slot p] identifier_chars [of slot] list_all_segs_of [of "eng_dir e"] plain_areas(1) plain_json
  by simp

section \<open>Invariants of the operations\<close>

text \<open>
  A predicate on the engine that the system calls keep as long as those that change the disk
  stay on the paths of a set. The operations compose such calls, so they keep it too: one lemma
  per operation serves for what a crash may leave and for the fields no call touches.
\<close>

definition stable :: "string set \<Rightarrow> (engine \<Rightarrow> bool) \<Rightarrow> bool" where
  "stable A J \<longleftrightarrow>
     (\<forall>e. J e \<longrightarrow>
        J (snd (sys_plain e)) \<and> J (snd (next_fault e)) \<and> (\<forall>q. J (snd (sys_read q e)))
        \<and> (\<forall>q. J (snd (sys_stat q e))) \<and> (\<forall>q. J (snd (sys_readdir q e)))
        \<and> (\<forall>q \<in> A. J (snd (sys_create q e)) \<and> J (snd (sys_truncate q e)) \<and> J (snd (sys_remove q e)))
        \<and> (\<forall>q \<in> A. \<forall>x. J (snd (sys_write q x e)))
        \<and> (\<forall>q \<in> A. \<forall>r \<in> A. J (snd (sys_rename q r e)))
        \<and> (\<forall>ev. J (log_event ev e)) \<and> J (e\<lparr>degraded := True\<rparr>) \<and> (\<forall>n. J (e\<lparr>seq_no := n\<rparr>)))"

lemma stableD:
  assumes "stable A J" and "J e"
  shows "J (snd (sys_plain e))" "J (snd (next_fault e))" "J (snd (sys_read q e))" "J (snd (sys_stat q e))"
    "J (snd (sys_readdir q e))" "q \<in> A \<Longrightarrow> J (snd (sys_create q e))" "q \<in> A \<Longrightarrow> J (snd (sys_truncate q e))"
    "q \<in> A \<Longrightarrow> J (snd (sys_remove q e))" "q \<in> A \<Longrightarrow> J (snd (sys_write q x e))"
    "q \<in> A \<Longrightarrow> r \<in> A \<Longrightarrow> J (snd (sys_rename q r e))" "J (log_event ev e)" "J (mark_degraded e)"
    "J (e\<lparr>seq_no := n\<rparr>)"
  using assms by (simp_all add: stable_def mark_degraded_def)

text \<open>The same for a call whose result is known.\<close>

lemma stable_step:
  assumes "stable A J" and "J e"
  shows "sys_plain e = (r, e') \<Longrightarrow> J e'" "next_fault e = (f, e') \<Longrightarrow> J e'" "sys_read q e = (rr, e') \<Longrightarrow> J e'"
    "sys_stat q e = (rs, e') \<Longrightarrow> J e'" "sys_readdir q e = (rd, e') \<Longrightarrow> J e'"
    "sys_create q e = (r, e') \<Longrightarrow> q \<in> A \<Longrightarrow> J e'" "sys_truncate q e = (r, e') \<Longrightarrow> q \<in> A \<Longrightarrow> J e'"
    "sys_remove q e = (r, e') \<Longrightarrow> q \<in> A \<Longrightarrow> J e'" "sys_write q x e = (r, e') \<Longrightarrow> q \<in> A \<Longrightarrow> J e'"
    "sys_rename q t e = (r, e') \<Longrightarrow> q \<in> A \<Longrightarrow> t \<in> A \<Longrightarrow> J e'"
  using stableD [OF assms] by (metis snd_conv)+

lemma stable_ctx: "stable A J \<Longrightarrow> J e \<Longrightarrow> ctx_err e = (b, e') \<Longrightarrow> J e'"
  using stableD(1) [of A J e] by (auto simp: ctx_err_def split: prod.splits)

lemma stable_space: "stable A J \<Longrightarrow> J e \<Longrightarrow> check_space n e = (r, e') \<Longrightarrow> J e'"
  using stableD(2) [of A J e] by (auto simp: check_space_def Let_def split: prod.splits fault.splits if_splits)

lemma stable_write_temp:
  assumes st: "stable A J" and "J e" and t: "tmp \<in> A" and "write_temp tmp data e = (r, e')"
  shows "J e'"
proof -
  have "temp_inv tmp J" using st t by (simp add: temp_inv_def stable_def)
  from inv_write_temp [OF this assms(2), of data] show ?thesis using assms(4) by simp
qed

lemma stable_rotate_bak:
  assumes st: "stable A J" and J: "J e" and A: "tmp \<in> A" "t \<in> A" "bak_of t \<in> A" and c: "rotate_bak tmp t e = (r, e')"
  shows "J e'"
proof -
  obtain r1 e1 where c1: "sys_stat t e = (r1, e1)" by fastforce
  note j1 = stable_step(4) [OF st J c1]
  note j2 = stableD(8) [OF st j1 A(3)]
  obtain r3 e3 where c3: "sys_rename t (bak_of t) (snd (sys_remove (bak_of t) e1)) = (r3, e3)" by fastforce
  note j3 = stable_step(10) [OF st j2 c3 A(2,3)]
  show ?thesis
    using c j1 j3 stableD(8) [OF st j3 A(1)]
    by (auto simp: rotate_bak_def c1 c3 Let_def split: sum.splits option.splits)
qed

lemma stable_cross_device:
  assumes st: "stable A J" and J: "J e" and A: "src \<in> A" "dst \<in> A" and c: "rename_cross_device src dst e = (r, e')"
  shows "J e'"
proof -
  note j0 = stableD(12) [OF st J]
  obtain r1 e1 where c1: "sys_read src (mark_degraded e) = (r1, e1)" by fastforce
  note j1 = stable_step(3) [OF st j0 c1]
  obtain r2 e2 where c2: "sys_truncate dst e1 = (r2, e2)" by fastforce
  note j2 = stable_step(7) [OF st j1 c2 A(2)]
  have "J e'" if d: "(case sys_write dst data e2 of
                  (Some x, e3) \<Rightarrow> (Some x, snd (sys_remove dst (snd (sys_plain e3))))
                | (None, e3) \<Rightarrow>
                    (case sys_plain e3 of
                       (Some x, e4) \<Rightarrow> (Some x, snd (sys_remove dst (snd (sys_plain e4))))
                     | (None, e4) \<Rightarrow>
                         (case sys_plain e4 of
                            (Some x, e5) \<Rightarrow> (Some x, e5)
                          | (None, e5) \<Rightarrow> sys_remove src e5))) = (r, e')" for data
  proof -
    obtain r3 e3 where c3: "sys_write dst data e2 = (r3, e3)" by fastforce
    note j3 = stable_step(9) [OF st j2 c3 A(2)]
    obtain r4 e4 where c4: "sys_plain e3 = (r4, e4)" by fastforce
    note j4 = stable_step(1) [OF st j3 c4]
    obtain r5 e5 where c5: "sys_plain e4 = (r5, e5)" by fastforce
    note j5 = stable_step(1) [OF st j4 c5]
    show ?thesis
      using d stableD(8) [OF st j4 A(2)] stableD(8) [OF st j5 A(2)] stableD(8) [OF st j5 A(1)] j5
      by (auto simp: c3 c4 c5 split: option.splits)
  qed
  then show ?thesis
    using c j1 j2 by (auto simp: rename_cross_device_def c1 c2 split: sum.splits option.splits)
qed

lemma stable_promote_temp:
  assumes st: "stable A J" and J: "J e" and A: "tmp \<in> A" "t \<in> A" and c: "promote_temp tmp t e = (r, e')"
  shows "J e'"
proof -
  obtain r1 e1 where c1: "sys_rename tmp t e = (r1, e1)" by fastforce
  note j1 = stable_step(10) [OF st J c1 A]
  obtain r2 e2 where c2: "rename_cross_device tmp t e1 = (r2, e2)" by fastforce
  note j2 = stable_cross_device [OF st j1 A c2]
  show ?thesis
    using c j1 j2 stableD(8) [OF st j1 A(1)] stableD(8) [OF st j2 A(1)]
    by (auto simp: promote_temp_def c1 c2 split: option.splits if_splits)
qed

text \<open>The paths a write of \<open>t\<close> changes: the file, its \<open>.bak\<close> and the temporary files beside it.\<close>

definition write_paths :: "string \<Rightarrow> string set" where
  "write_paths t = {t, bak_of t} \<union> {temp_name p n t | p n. True}"

lemma stable_write_atomic:
  assumes st: "stable A J" and J: "J e" and A: "write_paths t \<subseteq> A" and c: "write_atomic t data e = (r, e')"
  shows "J e'"
proof -
  have a: "t \<in> A" "bak_of t \<in> A" "\<And>p n. temp_name p n t \<in> A" using A by (auto simp: write_paths_def)
  obtain b e1 where c1: "ctx_err e = (b, e1)" by fastforce
  note j1 = stable_ctx [OF st J c1]
  obtain r2 e2 where c2: "check_space (length data) e1 = (r2, e2)" by fastforce
  note j2 = stable_space [OF st j1 c2]
  obtain r3 e3 where c3: "sys_plain e2 = (r3, e3)" by fastforce
  note j3 = stable_step(1) [OF st j2 c3]
  define e4 where "e4 = e3\<lparr>seq_no := Suc (seq_no e3)\<rparr>"
  have j4: "J e4" unfolding e4_def by (rule stableD(13) [OF st j3])
  define tmp where "tmp = temp_name (pid e4) (seq_no e4) t"
  have tm: "tmp \<in> A" using a by (simp add: tmp_def)
  obtain r5 e5 where c5: "write_temp tmp data e4 = (r5, e5)" by fastforce
  note j5 = stable_write_temp [OF st j4 tm c5]
  obtain r6 e6 where c6: "rotate_bak tmp t e5 = (r6, e6)" by fastforce
  note j6 = stable_rotate_bak [OF st j5 tm a(1,2) c6]
  obtain r7 e7 where c7: "promote_temp tmp t e6 = (r7, e7)" by fastforce
  note j7 = stable_promote_temp [OF st j6 tm a(1) c7]
  show ?thesis
    using c j1 j2 j3 j5 j6 j7 stableD(1) [OF st j7]
    by (auto simp: write_atomic_def c1 c2 c3 e4_def [symmetric] tmp_def [symmetric] c5 c6 c7 Let_def
        split: option.splits bool.splits)
qed

lemma stable_prune:
  assumes st: "stable A J" and J: "J e"
    and A: "\<And>v. join_path (dir_for e ''saves'') (slot @ ''.json.'' @ fmt_int v) \<in> A"
  shows "J (prune_revisions slot e)"
proof -
  obtain r e1 where c: "sys_readdir (dir_for e ''saves'') e = (r, e1)" by fastforce
  note j1 = stable_step(5) [OF st J c]
  have "J (fold (\<lambda>v e'. snd (sys_remove (join_path (dir_for e ''saves'') ((slot @ ''.json.'') @ fmt_int v)) e')) vs e')"
    if "J e'" for vs e'
    using that A by (induction vs arbitrary: e') (auto intro: stableD(8) [OF st])
  then show ?thesis
    using J j1 by (simp add: prune_revisions_def Let_def c split: sum.splits)
qed

lemma stable_read_header: "stable A J \<Longrightarrow> J e \<Longrightarrow> read_save_header p e = (h, e') \<Longrightarrow> J e'"
  using stableD(3) [of A J e p] by (auto simp: read_save_header_def split: prod.splits sum.splits)

lemma stable_check_revision: "stable A J \<Longrightarrow> J e \<Longrightarrow> check_revision key x e = (r, e') \<Longrightarrow> J e'"
  using stable_read_header [of A J e]
  by (auto simp: check_revision_def modified_of_def Let_def split: option.splits if_splits prod.splits sum.splits)

text \<open>What no call changes: the engine's fields other than the disk, the log, the writer and the counters.\<close>

definition frame :: "engine \<Rightarrow> engine \<Rightarrow> bool" where
  "frame e e' \<longleftrightarrow> eng_dir e' = eng_dir e \<and> revisions e' = revisions e
     \<and> writable e' = writable e \<and> probe_reason e' = probe_reason e \<and> keep_revisions e' = keep_revisions e
     \<and> save_ver e' = save_ver e \<and> engine_ver e' = engine_ver e \<and> release e' = release e
     \<and> max_request e' = max_request e"

lemma frame_refl: "frame e e"
  by (simp add: frame_def)

lemma frame_set_files [simp]: "frame e (set_files m e') = frame e e'"
  by (simp add: frame_def set_files_def)

lemma frame_write_prefixes [simp]: "frame e (write_prefixes p x n e') = frame e e'"
proof -
  have "frame e (fold (\<lambda>k. set_files (g k)) ks e') = frame e e'" for g ks
    by (induction ks arbitrary: e') auto
  then show ?thesis by (simp add: write_prefixes_def)
qed

lemma frame_next: "next_fault e' = (f, e'') \<Longrightarrow> frame e e'' = frame e e'"
  by (auto simp: next_fault_def frame_def split: list.splits)

lemma stable_frame: "stable A (frame e)"
proof -
  have "frame e (snd (sys_plain d)) \<and> frame e (snd (next_fault d)) \<and> frame e (snd (sys_read q d))
      \<and> frame e (snd (sys_stat q d)) \<and> frame e (snd (sys_readdir q d)) \<and> frame e (snd (sys_create q d))
      \<and> frame e (snd (sys_truncate q d)) \<and> frame e (snd (sys_remove q d)) \<and> frame e (snd (sys_write q x d))
      \<and> frame e (snd (sys_rename q r d))" if "frame e d" for d q r x
  proof -
    obtain f d' where f: "next_fault d = (f, d')" by fastforce
    have "frame e d'" using that frame_next [OF f] by simp
    then show ?thesis
      using f by (cases f; cases "get (files d') q")
        (simp_all add: sys_plain_def sys_read_def sys_stat_def sys_readdir_def sys_create_def sys_truncate_def
          sys_remove_def sys_write_def sys_rename_def)
  qed
  then show ?thesis
    unfolding stable_def by (simp add: log_event_def) (simp add: frame_def)
qed

text \<open>What a crash may leave: a predicate on the disk none of the paths matters to.\<close>

lemma stable_crash:
  assumes "\<And>q. q \<in> A \<Longrightarrow> ignores q P"
  shows "stable A (crash_inv P d)"
proof -
  have ig: "P (put q x m)" "P (del q m)" if "q \<in> A" "P m" for q x m
    using assms [OF that(1)] that(2) by (simp_all add: ignores_def)
  have fr: "crash_inv P d (snd (next_fault e))" if c: "crash_inv P d e" for e :: engine
  proof -
    obtain f e' where f: "next_fault e = (f, e')" by fastforce
    show ?thesis
      using c by (simp add: f next_fault_files [OF f] crash_inv_def extends_def passes_def)
  qed
  have rn: "crash_inv P d (snd (sys_rename q r e))" if "q \<in> A" "r \<in> A" "crash_inv P d e" for q r and e :: engine
    by (rule rename_call.crash_call_seq [OF that(3)]) (use that ig in \<open>auto split: option.splits if_splits\<close>)
  have calls: "crash_inv P d (snd (sys_plain e)) \<and> crash_inv P d (snd (sys_read q e))
      \<and> crash_inv P d (snd (sys_stat q e)) \<and> crash_inv P d (snd (sys_readdir q e))"
    if c: "crash_inv P d e" for q and e :: engine
  proof (intro conjI)
    show "crash_inv P d (snd (sys_plain e))" by (rule plain_call.crash_call_seq [OF c]) simp
    show "crash_inv P d (snd (sys_read q e))" by (rule read_call.crash_call_seq [OF c]) simp
    show "crash_inv P d (snd (sys_stat q e))" by (rule stat_call.crash_call_seq [OF c]) simp
    show "crash_inv P d (snd (sys_readdir q e))" by (rule readdir_call.crash_call_seq [OF c]) simp
  qed
  have muts: "crash_inv P d (snd (sys_create q e)) \<and> crash_inv P d (snd (sys_truncate q e))
      \<and> crash_inv P d (snd (sys_remove q e)) \<and> crash_inv P d (snd (sys_write q x e))"
    if c: "crash_inv P d e" and q: "q \<in> A" for q x and e :: engine
  proof (intro conjI)
    show "crash_inv P d (snd (sys_create q e))" by (rule create_call.crash_call_seq [OF c]) (simp add: ig(1) [OF q])
    show "crash_inv P d (snd (sys_truncate q e))" by (rule trunc_call.crash_call_seq [OF c]) (simp add: ig(1) [OF q])
    show "crash_inv P d (snd (sys_remove q e))" by (rule remove_call.crash_call_seq [OF c]) (simp add: ig(2) [OF q])
    show "crash_inv P d (snd (sys_write q x e))"
      by (rule write_call.crash_call_seq [OF c]) (use ig(1) [OF q] in auto)
  qed
  have flds: "crash_inv P d (log_event ev e)" "crash_inv P d (e\<lparr>degraded := True\<rparr>)"
    "crash_inv P d (e\<lparr>seq_no := n\<rparr>)" if "crash_inv P d e" for ev n and e :: engine
    using that by (simp_all add: log_event_def crash_inv_def extends_def passes_def)
  show ?thesis
    unfolding stable_def by (simp add: calls fr muts rn flds)
qed

lemma stable_no_exdev: "stable A no_exdev"
proof -
  have "no_exdev (snd (next_fault e)) \<and> no_exdev (snd (sys_readdir q e))" if "no_exdev e" for e :: engine and q
  proof -
    obtain f e' where f: "next_fault e = (f, e')" by fastforce
    show ?thesis using no_exdev_next [OF f that] by (cases f) (simp_all add: f sys_readdir_def)
  qed
  moreover have "no_exdev (log_event ev e) \<and> no_exdev (e\<lparr>degraded := True\<rparr>) \<and> no_exdev (e\<lparr>seq_no := n\<rparr>)"
    if "no_exdev e" for e ev n
    using that by (simp add: no_exdev_def)
  ultimately show ?thesis unfolding stable_def by (simp add: no_exdev_calls)
qed

lemma stable_conj: "stable A J \<Longrightarrow> stable A K \<Longrightarrow> stable A (\<lambda>e. J e \<and> K e)"
  by (simp add: stable_def)

lemma stable_crash_none: "stable {} (crash_inv P d)"
  by (rule stable_crash) simp

section \<open>A save is written\<close>

text \<open>The operations that only look: the disk, the revisions and the settings stay as they were.\<close>

definition looked :: "engine \<Rightarrow> engine \<Rightarrow> bool" where
  "looked e d \<longleftrightarrow> crash_inv (\<lambda>m. m = files e) e d \<and> frame e d \<and> (no_exdev e \<longrightarrow> no_exdev d)"

lemma stable_looked: "stable {} (looked e)"
proof (cases "no_exdev e")
  case True
  then have "looked e = (\<lambda>d. (crash_inv (\<lambda>m. m = files e) e d \<and> frame e d) \<and> no_exdev d)"
    by (simp add: looked_def fun_eq_iff)
  then show ?thesis
    using stable_conj [OF stable_conj [OF stable_crash_none stable_frame] stable_no_exdev] by simp
next
  case False
  then have "looked e = (\<lambda>d. crash_inv (\<lambda>m. m = files e) e d \<and> frame e d)"
    by (simp add: looked_def fun_eq_iff)
  then show ?thesis
    using stable_conj [OF stable_crash_none stable_frame] by simp
qed

lemma looked_refl: "looked e e"
  by (simp add: looked_def frame_refl crash_inv_refl)

lemma looked_claim: "looked e d \<Longrightarrow> claim_engine_writer sid d = (r, d') \<Longrightarrow> looked e d'"
  by (auto simp: claim_engine_writer_def looked_def frame_def crash_inv_def extends_def passes_def no_exdev_def
      split: if_splits)

lemma frame_save_path: "frame e d \<Longrightarrow> save_path d slot = save_path e slot"
proof -
  assume "frame e d"
  then have "dir_for d = dir_for e" "confine_path d = confine_path e"
    by (simp_all add: frame_def confine_path_def dir_for_def fun_eq_iff)
  then show ?thesis by (auto simp: save_path_def Let_def split: option.splits)
qed

lemma check_revision_ok: "check_revision key x e = (None, e') \<Longrightarrow> e' = e \<and> (x = None \<or> x = Some (revision_of key e))"
  by (auto simp: check_revision_def Let_def split: option.splits if_splits prod.splits)

text \<open>
  \<open>WriteSave\<close> either refuses before it has touched the disk, or its path is the slot's, the
  revision it was given is the current one, and it goes on under the lock.
\<close>

lemma write_save_enters:
  "(\<exists>err. fst (write_save now w e) = Inl err \<and> looked e (snd (write_save now w e)))
   \<or> (\<exists>p d. save_path e (sw_slot w) = Inr p \<and> looked e d
        \<and> (sw_if_revision w = None \<or> sw_if_revision w = Some (revision_of (slot_key (sw_slot w)) e))
        \<and> write_save now w e = write_save_locked now p w d)"
proof -
  obtain b e1 where c1: "ctx_err e = (b, e1)" by fastforce
  note l1 = stable_ctx [OF stable_looked looked_refl c1]
  obtain r2 e2 where c2: "(if sw_claim w then claim_engine_writer (sw_session w) e1 else (None, e1)) = (r2, e2)"
    by fastforce
  have l2: "looked e e2" using c2 l1 looked_claim by (auto split: if_splits)
  obtain r3 e3 where c3: "check_revision (slot_key (sw_slot w)) (sw_if_revision w) e2 = (r3, e3)" by fastforce
  note l3 = stable_check_revision [OF stable_looked l2 c3]
  have rv: "revision_of k e2 = revision_of k e" for k
    using l2 by (simp add: looked_def frame_def revision_of_def)
  have sp: "save_path e1 (sw_slot w) = save_path e (sw_slot w)"
    using l1 by (intro frame_save_path) (simp add: looked_def)
  have w: "write_save now w e =
     (if b then (Inl CtxErr, e1) else if \<not> writable e1 then (Inl (StoreErr (ReadOnly (probe_reason e1))), e1)
      else case save_path e (sw_slot w) of Inl err \<Rightarrow> (Inl err, e1)
           | Inr p \<Rightarrow> (case r2 of Some err \<Rightarrow> (Inl err, e2)
             | None \<Rightarrow> (case r3 of Some err \<Rightarrow> (Inl err, e3) | None \<Rightarrow> write_save_locked now p w e3)))"
    by (cases "save_path e (sw_slot w)"; cases b; cases r2) (simp_all add: write_save_def c1 sp c2 c3)
  consider "r3 = None" "r2 = None" "\<not> b" "writable e1" | err d where "write_save now w e = (Inl err, d)" "looked e d"
    using l1 l2 l3 unfolding w by (cases b; cases "writable e1"; cases "save_path e (sw_slot w)"; cases r2; cases r3) auto
  then show ?thesis
  proof cases
    case 1
    have "sw_if_revision w = None \<or> sw_if_revision w = Some (revision_of (slot_key (sw_slot w)) e)"
      using check_revision_ok [of _ _ e2 e3] c3 rv 1 by auto
    moreover have "write_save now w e = (case save_path e (sw_slot w) of Inl err \<Rightarrow> (Inl err, e1)
        | Inr p \<Rightarrow> write_save_locked now p w e3)"
      using 1 by (cases "save_path e (sw_slot w)") (simp_all add: w)
    ultimately show ?thesis using l1 l3 by (cases "save_path e (sw_slot w)") auto
  next
    case 2
    then show ?thesis by auto
  qed
qed

text \<open>The names a successful write touches after the save is in place: sidecars of the slot.\<close>

lemma sidecar_paths:
  assumes "rooted (eng_dir e)" and "save_path e slot = Inr p"
  shows "revision_sidecar p rv = path_of (segs_of (eng_dir e) @ [''saves'', slot @ ''.json.'' @ fmt_int rv])"
    and "join_path (dir_for e ''saves'') (slot @ ''.json.'' @ fmt_int rv) = revision_sidecar p rv"
    and "plain_seg (slot @ ''.json.'' @ fmt_int rv)"
proof -
  note p = save_path_Inr [OF assms] and n = identifier_chars [OF save_path_Inr(2) [OF assms]]
  show s: "revision_sidecar p rv = path_of (segs_of (eng_dir e) @ [''saves'', slot @ ''.json.'' @ fmt_int rv])"
    using p(1) path_of_append_name [of "segs_of (eng_dir e) @ [''saves'']" "slot @ ''.json''"]
    by (simp add: revision_sidecar_def dot_def)
  have "slash \<notin> set (fmt_int rv)"
    using digits_no_slash by (auto simp: fmt_int_def slash_def)
  then show q: "plain_seg (slot @ ''.json.'' @ fmt_int rv)"
    using n by (intro plain_seg_long) (auto simp: slash_def)
  show "join_path (dir_for e ''saves'') (slot @ ''.json.'' @ fmt_int rv) = revision_sidecar p rv"
    using in_dir_path [OF assms(1) plain_areas(1) q] s by simp
qed

lemma fmt_int_not_bak: "fmt_int v \<noteq> ''bak''"
proof -
  have "fmt_nat n \<noteq> ''bak''" for n
    using fmt_nat_digits [of n] by (auto simp: is_digit_def)
  then show ?thesis by (simp add: fmt_int_def)
qed

lemma fmt_int_nonempty: "fmt_int v \<noteq> []"
  using fmt_nat_digits by (simp add: fmt_int_def)

lemma sidecar_apart:
  assumes r: "rooted (eng_dir e)" and sp: "save_path e slot = Inr p" and q: "q \<in> write_paths (revision_sidecar p rv)"
  shows "q \<noteq> p" and "q \<noteq> bak_of p"
proof -
  let ?ss = "segs_of (eng_dir e) @ [''saves'']"
  note p = save_path_Inr(1) [OF r sp] and n = identifier_chars [OF save_path_Inr(2) [OF r sp]]
    and s = sidecar_paths [OF r sp]
  have ss: "list_all plain_seg ?ss" using list_all_segs_of [OF r] plain_areas(1) by simp
  have pj: "plain_seg (slot @ ''.json'')" "plain_seg (slot @ ''.json.bak'')"
    using n by (auto intro!: plain_seg_long simp: slash_def)
  have p': "p = path_of (?ss @ [slot @ ''.json''])" using p by simp
  have b': "bak_of p = path_of (?ss @ [slot @ ''.json.bak''])"
    using p' path_of_append_name [of ?ss "slot @ ''.json''"] by (simp add: bak_of_def)
  have "\<exists>x. q = path_of (?ss @ [x]) \<and> plain_seg x \<and> x \<noteq> slot @ ''.json'' \<and> x \<noteq> slot @ ''.json.bak''"
  proof -
    let ?r = "slot @ ''.json.'' @ fmt_int rv"
    have sl: "slash \<notin> set ?r" using s(3) [of rv] by (simp add: plain_seg_def)
    consider "q = revision_sidecar p rv" | "q = bak_of (revision_sidecar p rv)"
      | k l where "q = temp_name k l (revision_sidecar p rv)"
      using q by (auto simp: write_paths_def)
    then show ?thesis
    proof cases
      case 1
      then show ?thesis using s(1,3) fmt_int_not_bak by (intro exI [of _ ?r]) auto
    next
      case 2
      have "plain_seg (?r @ ''.bak'')" using sl by (intro plain_seg_long) (auto simp: slash_def)
      moreover have "q = path_of (?ss @ [?r @ ''.bak''])"
        using 2 s(1) path_of_append_name [of ?ss ?r] by (simp add: bak_of_def)
      moreover have "?r @ ''.bak'' \<noteq> slot @ ''.json''" "?r @ ''.bak'' \<noteq> slot @ ''.json.bak''"
        using fmt_int_nonempty [of rv] by (auto dest: arg_cong [where f = length])
      ultimately show ?thesis by blast
    next
      case 3
      let ?t = "dot # ?r @ ''.tmp-'' @ fmt_nat k @ ''-'' @ fmt_nat l"
      have "slash \<notin> set ?t" using sl digits_no_slash by (auto simp: slash_def dot_def)
      then have t: "plain_seg ?t" by (rule plain_seg_long) simp
      have "q = path_of (?ss @ [?t])"
        using 3 s(1) join_path_of [OF rooted_path_of t, of ?ss] ss sl
        by (simp add: temp_name_def base_name_path_of [of _ ?ss, simplified] dir_of_path_of [of ?ss, simplified] segs_of_path_of)
      moreover have "?t \<noteq> slot @ ''.json''" "?t \<noteq> slot @ ''.json.bak''"
        by (auto dest: arg_cong [where f = length])
      ultimately show ?thesis using t by blast
    qed
  qed
  then obtain x where x: "q = path_of (?ss @ [x])" "plain_seg x" "x \<noteq> slot @ ''.json''" "x \<noteq> slot @ ''.json.bak''"
    by blast
  have ne: "q \<noteq> path_of (?ss @ [y])" if "plain_seg y" "x \<noteq> y" for y
    unfolding x(1) using path_of_inj [of "?ss @ [x]" "?ss @ [y]"] that x(2) ss by simp
  show "q \<noteq> p" unfolding p' by (rule ne [OF pj(1) x(3)])
  show "q \<noteq> bak_of p" unfolding b' by (rule ne [OF pj(2) x(4)])
qed

text \<open>The steps after the save is in place touch neither it nor its \<open>.bak\<close>.\<close>

definition aside :: "string \<Rightarrow> string set" where
  "aside p = - {p, bak_of p}"

lemma stable_slot_crash:
  assumes "\<And>m m'. get m p = get m' p \<Longrightarrow> get m (bak_of p) = get m' (bak_of p) \<Longrightarrow> P m \<longleftrightarrow> P m'"
  shows "stable (aside p) (crash_inv P d)"
proof (rule stable_crash)
  fix q assume "q \<in> aside p"
  then have "q \<noteq> p" "q \<noteq> bak_of p" by (auto simp: aside_def)
  then have "P (put q x m) \<longleftrightarrow> P m" "P (del q m) \<longleftrightarrow> P m" for x m
    by (intro assms; simp)+
  then show "ignores q P" by (simp add: ignores_def)
qed

lemma stable_after:
  assumes r: "rooted (eng_dir e)" and sp: "save_path e slot = Inr p" and fr: "eng_dir d = eng_dir e"
    and st: "stable (aside p) J" and J: "J d"
    and w: "write_revision_sidecar p rv (prune_revisions slot d) = (err, d')"
  shows "J d'"
proof -
  have s: "revision_sidecar p v \<in> aside p" for v
    using sidecar_apart [OF r sp, of "revision_sidecar p v" v] by (auto simp: aside_def write_paths_def)
  have "J (prune_revisions slot d)"
    by (rule stable_prune [OF st J]) (use s sidecar_paths(2) [OF r sp] fr in \<open>simp add: dir_for_def\<close>)
  moreover have "write_paths (revision_sidecar p rv) \<subseteq> aside p"
    using sidecar_apart [OF r sp] by (auto simp: aside_def)
  ultimately show ?thesis
    using stable_write_atomic [OF st] w by (simp add: write_revision_sidecar_def)
qed

text \<open>The payload of a save that is intact.\<close>

definition intact :: "string \<Rightarrow> string option" where
  "intact raw = (case parse_save raw of None \<Rightarrow> None | Some h \<Rightarrow> if verify_checksum h then Some (sh_payload h) else None)"

lemma intactD: "intact raw = Some x \<Longrightarrow> \<exists>h. parse_save raw = Some h \<and> verify_checksum h \<and> sh_payload h = x"
  by (auto simp: intact_def split: option.splits if_splits)

lemma intact_body:
  assumes "decode_first pl = Some v" and "int64 (save_ver e)" and "1 \<le> save_ver e" and "int64 rv"
    and "\<And>p. sw_playtime w = Some p \<Longrightarrow> int64 p"
  shows "intact (save_body e w now crtd rv v) = Some (encode v)"
  using parse_save_body [OF decode_first_canonical [OF assms(1)] assms(2-5)]
  by (simp add: intact_def written_header_def)

lemma int64_wrap64: "int64 (wrap64 i)"
  by (simp add: int64_def wrap64_def int64_min_def int64_max_def)

text \<open>The engine a later start opens on what a crash left, with nothing failing.\<close>

definition restart :: "engine \<Rightarrow> files \<Rightarrow> engine" where
  "restart e m = e\<lparr>files := m, history := [], faults := []\<rparr>"

lemma quiet_calls:
  assumes "faults d = []"
  shows "sys_plain d = (None, d)" "ctx_err d = (False, d)"
    "sys_read q d = (case get (files d) q of None \<Rightarrow> (Inl ENOENT, d) | Some x \<Rightarrow> (Inr x, d))"
    "sys_readdir q d = (Inr (dir_names q (files d)), d)"
  using assms by (simp_all add: sys_plain_def ctx_err_def sys_read_def sys_readdir_def next_fault_def split: option.splits)

lemma restart_simps [simp]: "files (restart e m) = m" "faults (restart e m) = []" "frame e (restart e m)"
  by (simp_all add: restart_def frame_def)

lemma read_save_live:
  assumes "save_path e slot = Inr p" and "get m p = Some raw" and "intact raw = Some x"
  shows "fst (read_save slot (restart e m)) = Inr x"
proof -
  obtain h where "parse_save raw = Some h" "verify_checksum h" "sh_payload h = x" using intactD [OF assms(3)] by blast
  then show ?thesis
    using assms(1,2) by (simp add: read_save_def frame_save_path [OF restart_simps(3)] quiet_calls)
qed

lemma read_save_bak:
  assumes "save_path e slot = Inr p" and "get m p = None" and "get m (bak_of p) = Some raw" and "intact raw = Some x"
  shows "fst (read_save slot (restart e m)) = Inr x"
proof -
  obtain h where "parse_save raw = Some h" "verify_checksum h" "sh_payload h = x" using intactD [OF assms(4)] by blast
  then show ?thesis
    using assms(1-3) by (simp add: read_save_def read_bak_def frame_save_path [OF restart_simps(3)] quiet_calls)
qed

lemma read_save_view:
  assumes "save_path e slot = Inr p" and "safe_view (Some raw) data p m"
    and "intact raw = Some x" and "intact data = Some y"
  shows "fst (read_save slot (restart e m)) \<in> {Inr x, Inr y}"
  using assms read_save_live [OF assms(1)] read_save_bak [OF assms(1)] unfolding safe_view_def by blast

lemma read_save_rotated:
  assumes "save_path e slot = Inr p" and "rotated (Some raw) p m" and "intact raw = Some x"
  shows "fst (read_save slot (restart e m)) = Inr x"
  using assms read_save_live [OF assms(1)] read_save_bak [OF assms(1)] unfolding rotated_def by blast

lemma crash_files_trans:
  "crash_inv (\<lambda>m. m = files e) e d \<Longrightarrow> P (files e) \<Longrightarrow> crash_inv P d d' \<Longrightarrow> crash_inv P e d'"
  by (erule crash_inv_trans [OF crash_same]) simp_all

text \<open>
  The part of \<open>WriteSave\<close> under the lock: what it leaves at each step, and when it returns.
\<close>

lemma write_save_locked_crash:
  assumes r: "rooted (eng_dir d)" and sp: "save_path d (sw_slot w) = Inr p" and nx: "no_exdev d"
    and raw: "get (files d) p = prior" and dec: "decode_first (sw_payload w) = Some v"
    and sv: "int64 (save_ver d)" "1 \<le> save_ver d" and pt: "\<And>t. sw_playtime w = Some t \<Longrightarrow> int64 t"
    and w: "write_save_locked now p w d = (res, d')"
  shows "\<exists>data. intact data = Some (encode v) \<and> crash_inv (safe_view prior data p) d d'
    \<and> (\<forall>x. res = Inr x \<longrightarrow> get (files d') p = Some data) \<and> (\<forall>x. res = Inl x \<longrightarrow> rotated prior p (files d'))"
proof -
  obtain prev d1 where c1: "read_save_header p d = (prev, d1)" by fastforce
  have l1: "looked d d1" by (rule stable_read_header [OF stable_looked looked_refl c1])
  then have f1: "files d1 = files d" and fr1: "frame d d1" and nx1: "no_exdev d1"
    using nx crash_inv_last by (auto simp: looked_def)
  define rv where "rv = wrap64 (revision_of (slot_key (sw_slot w)) d1 + 1)"
  define crtd where "crtd = (case prev of Some h \<Rightarrow> if sh_created h \<noteq> [] then sh_created h else now | None \<Rightarrow> now)"
  define data where "data = save_body d1 w now crtd rv v"
  have "intact data = Some (encode v)"
    unfolding data_def using intact_body [OF dec _ _ _ pt] sv fr1 int64_wrap64 by (simp add: frame_def rv_def)
  moreover obtain r2 d2 where c2: "write_atomic p data d1 = (r2, d2)" by fastforce
  note wa = write_atomic_crash [OF temp_apart_save [OF r sp], of d1 prior data, unfolded c2 f1, OF raw nx1]
  have cr: "crash_inv (safe_view prior data p) d d2"
    using crash_files_trans [of d d1] l1 wa raw by (simp add: looked_def safe_view_def)
  obtain err d4 where c4: "write_revision_sidecar p rv (prune_revisions (sw_slot w)
      (set_revision (slot_key (sw_slot w)) rv d2)) = (err, d4)" by fastforce
  have fr2: "eng_dir (set_revision k rv d2) = eng_dir d" for k
    using stable_write_atomic [OF stable_frame frame_refl subset_UNIV c2] fr1 by (simp add: set_revision_def frame_def)
  have after: "J d4" if "stable (aside p) J" "J (set_revision (slot_key (sw_slot w)) rv d2)" for J
    by (rule stable_after [OF r sp fr2 that c4])
  have sr: "files (set_revision k z x) = files x" "crash_inv P d (set_revision k z x) = crash_inv P d x" for k z x P
    by (simp_all add: set_revision_def crash_inv_def extends_def passes_def)
  have i4: "crash_inv (safe_view prior data p) d d4"
    by (rule after [OF stable_slot_crash]) (simp_all add: safe_view_def sr cr)
  have g4: "get (files d4) p = Some data" if "r2 = None"
  proof -
    have "crash_inv (\<lambda>m. get m p = Some data) d2 d4"
      by (rule after [OF stable_slot_crash])
        (use wa that in \<open>simp_all add: set_revision_def crash_inv_def extends_def passes_def\<close>)
    then show ?thesis by (rule crash_inv_last)
  qed
  have "(res, d') = (case r2 of Some x \<Rightarrow> (Inl (io_err x), log_event ''save.write.failed'' d2)
      | None \<Rightarrow> (Inr \<lparr>sr_slot = sw_slot w, sr_revision = rv, sr_modified = now, sr_bytes = length (encode v)\<rparr>,
                 log_event ''save.write'' (if err = None then d4 else log_event ''save.revision.sidecar'' d4)))"
    unfolding w [symmetric]
    by (simp add: write_save_locked_def dec c1 rv_def [symmetric] crtd_def [symmetric] data_def [symmetric] c2 c4 Let_def
        split: option.splits)
  then have "crash_inv (safe_view prior data p) d d' \<and> (\<forall>x. res = Inr x \<longrightarrow> get (files d') p = Some data)
      \<and> (\<forall>x. res = Inl x \<longrightarrow> rotated prior p (files d'))"
    using wa cr i4 g4 by (cases r2) (simp_all add: crash_inv_def extends_def passes_def)
  ultimately show ?thesis by blast
qed

text \<open>What a successful \<open>WriteSave\<close> leaves in the slot.\<close>

lemma write_save_stored:
  assumes r: "rooted (eng_dir e)" and nx: "no_exdev e" and w: "write_save now w e = (Inr x, e')"
    and sv: "int64 (save_ver e)" "1 \<le> save_ver e" and pt: "\<And>t. sw_playtime w = Some t \<Longrightarrow> int64 t"
  shows "\<exists>p v data. save_path e (sw_slot w) = Inr p \<and> decode_first (sw_payload w) = Some v
    \<and> intact data = Some (encode v) \<and> get (files e') p = Some data"
proof -
  obtain p d where p: "save_path e (sw_slot w) = Inr p" and l: "looked e d" and c: "write_save_locked now p w d = (Inr x, e')"
    using write_save_enters [of now w e] w by auto
  have fr: "frame e d" and nx': "no_exdev d" using l nx by (simp_all add: looked_def)
  obtain v where v: "decode_first (sw_payload w) = Some v"
    using c by (cases "decode_first (sw_payload w)") (simp_all add: write_save_locked_def)
  have "\<exists>data. intact data = Some (encode v) \<and> get (files e') p = Some data"
    using write_save_locked_crash [of d w p _ v now, OF _ _ nx' refl v _ _ pt c] r p sv fr frame_save_path [OF fr]
    by (auto simp: frame_def)
  with p v show ?thesis by blast
qed

text \<open>
  C1: A save survives a crash at any point of \<open>WriteSave\<close>. Let the slot hold an intact save and
  let no rename cross devices. Whatever system calls fail, and whichever of the states the disk
  goes through a crash leaves, a later start reads from the slot the old payload or the new one
  in its canonical form, complete; it reads the new one once \<open>WriteSave\<close> has returned a result,
  and the old one when it has returned an error. The steps after the save is in place, the
  pruning and the revision sidecar, cannot undo it.
\<close>

theorem write_save_crash_recovers:
  assumes "rooted (eng_dir e)" and "no_exdev e" and "save_path e (sw_slot w) = Inr p"
    and "get (files e) p = Some raw" and "intact raw = Some old"
    and "decode_first (sw_payload w) = Some v" and "int64 (save_ver e)" and "1 \<le> save_ver e"
    and "case sw_playtime w of Some t \<Rightarrow> int64 t | None \<Rightarrow> True"
    and "write_save now w e = (res, e')"
  shows "(\<forall>m \<in> passes e e'. fst (read_save (sw_slot w) (restart e m)) \<in> {Inr old, Inr (encode v)})
    \<and> fst (read_save (sw_slot w) (restart e (files e'))) = (case res of Inr _ \<Rightarrow> Inr (encode v) | Inl _ \<Rightarrow> Inr old)"
proof -
  note old = assms(4,5)
  consider (refuse) err where "fst (write_save now w e) = Inl err" "looked e (snd (write_save now w e))"
    | (enter) q d where "save_path e (sw_slot w) = Inr q" "looked e d" "write_save now w e = write_save_locked now q w d"
    using write_save_enters [of now w e] by blast
  then show ?thesis
  proof cases
    case refuse
    then have "res = Inl err" "\<forall>m \<in> passes e e'. m = files e" "files e' = files e"
      using assms(10) crash_inv_last by (auto simp: looked_def crash_inv_def)
    then show ?thesis
      using read_save_live [OF assms(3) old] by auto
  next
    case enter
    note q = enter(1) and l = enter(2) and c = enter(3)
    have fr: "frame e d" and f: "files d = files e" and nx: "no_exdev d"
      using l assms(2) crash_inv_last by (auto simp: looked_def)
    have "\<exists>data. intact data = Some (encode v) \<and> crash_inv (safe_view (Some raw) data p) d e'
      \<and> (\<forall>x. res = Inr x \<longrightarrow> get (files e') p = Some data) \<and> (\<forall>x. res = Inl x \<longrightarrow> rotated (Some raw) p (files e'))"
      by (rule write_save_locked_crash [of d w p "Some raw" v now])
        (use assms fr f nx q c frame_save_path [OF fr] in \<open>auto simp: frame_def split: option.splits\<close>)
    then obtain data where d: "intact data = Some (encode v)" "crash_inv (safe_view (Some raw) data p) d e'"
      "\<And>x. res = Inr x \<Longrightarrow> get (files e') p = Some data" "\<And>x. res = Inl x \<Longrightarrow> rotated (Some raw) p (files e')"
      by auto
    have "crash_inv (safe_view (Some raw) data p) e e'"
      using l d(2) crash_files_trans [of e d] old(1) by (simp add: looked_def safe_view_def)
    then have "\<forall>m \<in> passes e e'. fst (read_save (sw_slot w) (restart e m)) \<in> {Inr old, Inr (encode v)}"
      using read_save_view [OF assms(3) _ assms(5) d(1)] by (auto simp: crash_inv_def)
    then show ?thesis
      using read_save_live [OF assms(3) d(3) d(1)] read_save_rotated [OF assms(3) d(4) assms(5)]
      by (cases res) auto
  qed
qed

definition sample_engine :: "files \<Rightarrow> engine" where
  "sample_engine m = \<lparr>files = m, history = [], faults = [], eng_dir = ''/g'', keep_revisions = 2, trash_days = 7,
     max_request = 1000, release = [], engine_ver = ''1.0.0'', save_ver = 1, revisions = [], eng_writer = [],
     writable = True, probe_reason = [], degraded = False, pid = 7, seq_no = 0, elog = []\<rparr>"

definition sample_write :: "json \<Rightarrow> int option \<Rightarrow> save_write" where
  "sample_write v r = \<lparr>sw_slot = ''a'', sw_if_revision = r, sw_claim = False, sw_compression = [],
     sw_payload = encode v, sw_playtime = None, sw_session = []\<rparr>"

definition sample_path :: string where
  "sample_path = ''/g/saves/a.json''"

definition sample_raw :: string where
  "sample_raw = save_body (sample_engine []) (sample_write (JNum ''1'') None) ''t0'' ''t0'' 1 (JNum ''1'')"

lemma sample_save_path: "save_path (sample_engine m) ''a'' = Inr sample_path"
proof -
  have "validate_identifier ''a'' = None" by code_simp
  moreover have "path_of (segs_of ''/g'' @ [''saves'', ''a.json'']) = sample_path"
    unfolding sample_path_def by code_simp
  ultimately show ?thesis
    using save_path_ok [of "sample_engine m" "''a''"] by (simp add: sample_engine_def rooted_def slash_def)
qed

lemma sample_numbers: "number_lit ''1''" "number_lit ''2''"
  by code_simp+

lemma sample_facts:
  "canonical (JNum ''1'')" "canonical (JNum ''2'')" "rooted (eng_dir (sample_engine m))" "no_exdev (sample_engine m)"
  "int64 (save_ver (sample_engine m))" "save_ver (sample_engine m) = 1"
proof -
  show "canonical (JNum ''1'')" "canonical (JNum ''2'')" using sample_numbers by simp_all
qed (simp_all add: sample_engine_def rooted_def slash_def no_exdev_def int64_def int64_min_def int64_max_def)

lemma sample_intact: "intact sample_raw = Some (encode (JNum ''1''))"
  unfolding sample_raw_def
  by (rule intact_body [OF decode_first_encode]) (simp_all add: sample_facts sample_numbers sample_write_def int64_def int64_min_def int64_max_def)

theorem write_save_crash_recovers_witness:
  "fst (read_save ''a'' (restart (sample_engine [(sample_path, sample_raw)])
     (files (snd (write_save ''t1'' (sample_write (JNum ''2'') (Some 0)) (sample_engine [(sample_path, sample_raw)]))))))
   = (case fst (write_save ''t1'' (sample_write (JNum ''2'') (Some 0)) (sample_engine [(sample_path, sample_raw)])) of
        Inr _ \<Rightarrow> Inr (encode (JNum ''2'')) | Inl _ \<Rightarrow> Inr (encode (JNum ''1'')))"
proof -
  let ?e = "sample_engine [(sample_path, sample_raw)]" and ?w = "sample_write (JNum ''2'') (Some 0)"
  obtain res e' where c: "write_save ''t1'' ?w ?e = (res, e')" by fastforce
  have w: "sw_slot ?w = ''a''" "sw_payload ?w = encode (JNum ''2'')" "sw_playtime ?w = None"
    by (simp_all add: sample_write_def)
  have f: "get (files ?e) sample_path = Some sample_raw" by (simp add: sample_engine_def get_def)
  have "fst (read_save (sw_slot ?w) (restart ?e (files e')))
      = (case res of Inr _ \<Rightarrow> Inr (encode (JNum ''2'')) | Inl _ \<Rightarrow> Inr (encode (JNum ''1'')))"
    by (rule write_save_crash_recovers [OF _ _ _ f sample_intact _ _ _ _ c, THEN conjunct2])
      (simp_all only: w sample_facts sample_save_path decode_first_encode [OF sample_facts(2)] option.case,
        simp_all add: int64_def int64_min_def int64_max_def)
  then show ?thesis by (simp add: c w)
qed

end
