(* ===== verification/Save_Laws.thy ===== *)
theory Save_Laws
  imports Save_Safety
begin

text \<open>
  What the operations of the save engine promise their clients, beyond surviving a crash: a write
  that is not hindered succeeds, revisions guard against lost updates, a read serves what its
  checksum vouches for, a deletion keeps the data, a settings merge keeps the other settings.
\<close>

section \<open>Writes\<close>

text \<open>An atomic write succeeds when nothing fails and its temporary name is free.\<close>

lemma quiet_write_atomic:
  assumes q: "faults e = []" and free: "get (files e) (temp_name (pid e) (Suc (seq_no e)) t) = None"
    and ap: "temp_apart t"
  shows "fst (write_atomic t data e) = None \<and> faults (snd (write_atomic t data e)) = []"
proof -
  define tmp where "tmp = temp_name (pid e) (Suc (seq_no e)) t"
  have apart: "tmp \<noteq> t" "tmp \<noteq> bak_of t" using ap by (simp_all add: tmp_def temp_apart_def)
  define e4 where "e4 = e\<lparr>seq_no := Suc (seq_no e)\<rparr>"
  define e5 where "e5 = write_prefixes tmp data (length data) (set_files (put tmp [] (files e4)) e4)"
  have q5: "faults e5 = []" and f5: "get (files e5) tmp = Some data"
    using q by (simp_all add: e5_def e4_def files_write_prefixes)
  have wt: "write_temp tmp data e4 = (None, e5)"
    using q free f5 q5 by (simp add: write_temp_def quiet_all quiet_calls e5_def e4_def tmp_def files_write_prefixes)
  obtain e6 where rb: "rotate_bak tmp t e5 = (None, e6)" "faults e6 = []" "get (files e6) tmp = Some data"
  proof (cases "get (files e5) t")
    case None
    then show ?thesis using that [of e5] q5 f5 by (simp add: rotate_bak_def quiet_all)
  next
    case (Some x)
    define d where "d = snd (sys_remove (bak_of t) e5)"
    have d: "faults d = []" "get (files d) t = Some x" "get (files d) tmp = Some data"
      using quiet_remove [OF q5, of "bak_of t"] Some f5 apart by (simp_all add: d_def)
    have "rotate_bak tmp t e5 = (None, set_files (put (bak_of t) x (del t (files d))) d)"
      using q5 Some d by (simp add: rotate_bak_def quiet_all(4,6) d_def [symmetric])
    then show ?thesis using that d apart by simp
  qed
  have pr: "promote_temp tmp t e6 = (None, set_files (put t data (del tmp (files e6))) e6)"
    using rb apart by (simp add: promote_temp_def quiet_all)
  show ?thesis
    using q rb by (simp add: write_atomic_def quiet_calls check_space_def quiet_all e4_def [symmetric] tmp_def [symmetric]
        wt rb(1) pr)
qed

lemma quiet_check_revision:
  "x = None \<or> x = Some (revision_of key e) \<Longrightarrow> check_revision key x e = (None, e)"
  by (auto simp: check_revision_def)

lemma quiet_read_header:
  assumes "faults d = []"
  shows "read_save_header q d = (case get (files d) q of None \<Rightarrow> None | Some x \<Rightarrow> parse_save x, d)"
  using assms by (simp add: read_save_header_def quiet_calls split: option.splits)

text \<open>What the part of \<open>WriteSave\<close> under the lock answers, and what it leaves of the engine's fields.\<close>

lemma write_save_locked_ok:
  assumes "write_save_locked now p w d = (Inr x, d')"
  shows "sr_slot x = sw_slot w \<and> sr_revision x = wrap64 (revision_of (slot_key (sw_slot w)) d + 1)
    \<and> sr_modified x = now
    \<and> frame (set_revision (slot_key (sw_slot w)) (sr_revision x) d) d'"
proof -
  obtain v where dec: "decode_first (sw_payload w) = Some v"
    using assms by (cases "decode_first (sw_payload w)") (auto simp: write_save_locked_def)
  obtain prev d1 where c1: "read_save_header p d = (prev, d1)" by fastforce
  note f1 = stable_read_header [OF stable_frame frame_refl c1]
  define rv where "rv = wrap64 (revision_of (slot_key (sw_slot w)) d1 + 1)"
  define crtd where "crtd = (case prev of Some h \<Rightarrow> if sh_created h \<noteq> [] then sh_created h else now | None \<Rightarrow> now)"
  obtain r2 d2 where c2: "write_atomic p (save_body d1 w now crtd rv v) d1 = (r2, d2)" by fastforce
  have f2: "frame d1 d2" by (rule stable_write_atomic [OF stable_frame frame_refl subset_UNIV c2])
  define d3 where "d3 = set_revision (slot_key (sw_slot w)) rv d2"
  have f3: "frame d3 (prune_revisions (sw_slot w) d3)"
    by (rule stable_prune [OF stable_frame [of UNIV] frame_refl]) simp
  obtain err d4 where c4: "write_revision_sidecar p rv (prune_revisions (sw_slot w) d3) = (err, d4)" by fastforce
  have f4: "frame d3 d4"
    by (rule stable_write_atomic [OF stable_frame f3 subset_UNIV c4 [unfolded write_revision_sidecar_def]])
  have x: "r2 = None \<and> x = \<lparr>sr_slot = sw_slot w, sr_revision = rv, sr_modified = now, sr_bytes = length (encode v)\<rparr>
    \<and> d' = log_event ''save.write'' (if err = None then d4 else log_event ''save.revision.sidecar'' d4)"
    using assms
    by (auto simp: write_save_locked_def dec c1 rv_def [symmetric] crtd_def [symmetric] c2 d3_def [symmetric] c4 Let_def
        split: option.splits)
  then show ?thesis
    using f1 f2 f4 by (auto simp: frame_def d3_def set_revision_def rv_def revision_of_def log_event_def)
qed

lemma write_save_ok:
  assumes "write_save now w e = (Inr x, e')"
  shows "(sw_if_revision w = None \<or> sw_if_revision w = Some (revision_of (slot_key (sw_slot w)) e))
    \<and> sr_revision x = wrap64 (revision_of (slot_key (sw_slot w)) e + 1)
    \<and> (\<forall>k. revision_of k e' = (if k = slot_key (sw_slot w) then sr_revision x else revision_of k e))"
proof -
  obtain p d where l: "looked e d" and w: "write_save now w e = write_save_locked now p w d"
    and r: "sw_if_revision w = None \<or> sw_if_revision w = Some (revision_of (slot_key (sw_slot w)) e)"
    using write_save_enters [of now w e] assms by auto
  note ok = write_save_locked_ok [of now p w d x e'] 
  have "revisions d = revisions e" using l by (simp add: looked_def frame_def)
  then show ?thesis
    using ok assms w r by (auto simp: frame_def set_revision_def revision_of_def)
qed

lemma wrap64_Suc: "wrap64 (i + 1) \<noteq> i"
proof
  assume "wrap64 (i + 1) = i"
  define j where "j = i + 2 ^ 63"
  have j: "(j + 1) mod 2 ^ 64 = j"
    using \<open>wrap64 (i + 1) = i\<close> by (simp add: wrap64_def j_def algebra_simps)
  have "0 \<le> (j + 1) mod 2 ^ 64" "(j + 1) mod 2 ^ 64 < 2 ^ 64"
    by (rule pos_mod_sign pos_mod_bound; simp)+
  then have "0 \<le> j" "j < 2 ^ 64" unfolding j .
  then consider "j + 1 < 2 ^ 64" "0 \<le> j" | "j + 1 = 2 ^ 64" by linarith
  then show False using j by cases (simp_all add: mod_pos_pos_trivial)
qed

lemma write_save_unhindered:
  assumes q: "faults e = []" and "writable e" and r: "rooted (eng_dir e)"
    and "validate_identifier (sw_slot w) = None" and "decode_first (sw_payload w) \<noteq> None"
    and "\<not> sw_claim w \<or> eng_writer e \<in> {[], sw_session w}"
    and "sw_if_revision w \<in> {None, Some (revision_of (slot_key (sw_slot w)) e)}"
    and free: "\<And>p. save_path e (sw_slot w) = Inr p \<Longrightarrow> get (files e) (temp_name (pid e) (Suc (seq_no e)) p) = None"
  shows "\<exists>x. fst (write_save now w e) = Inr x"
proof -
  obtain p where p: "save_path e (sw_slot w) = Inr p" using save_path_ok [OF r assms(4)] by simp
  obtain v where v: "decode_first (sw_payload w) = Some v" using assms(5) by auto
  define d where "d = (if sw_claim w then e\<lparr>eng_writer := sw_session w\<rparr> else e)"
  have d: "faults d = []" "files d = files e" "pid d = pid e" "seq_no d = seq_no e" "revisions d = revisions e"
    using q by (simp_all add: d_def)
  have cl: "(if sw_claim w then claim_engine_writer (sw_session w) e else (None, e)) = (None, d)"
    using assms(6) by (auto simp: claim_engine_writer_def d_def)
  have "check_revision (slot_key (sw_slot w)) (sw_if_revision w) d = (None, d)"
    using assms(7) d(5) by (intro quiet_check_revision) (auto simp: revision_of_def)
  then have w: "write_save now w e = write_save_locked now p w d"
    using q assms(2) p cl by (simp add: write_save_def quiet_calls)
  have "fst (write_atomic p data d) = None" for data
    using quiet_write_atomic [of d p data] d free [OF p] temp_apart_save [OF r p] by simp
  then show ?thesis
    unfolding w using d(1)
    by (simp add: write_save_locked_def v quiet_read_header Let_def split: prod.splits option.splits) (metis fst_conv option.distinct(1))
qed

lemma validate_a: "validate_identifier ''a'' = None"
  by code_simp

lemma sample_unhindered:
  "\<exists>x. fst (write_save now (sample_write (JNum ''2'') (Some 0)) (sample_engine [])) = Inr x"
  by (rule write_save_unhindered)
    (simp_all add: sample_engine_def sample_write_def get_def rooted_def slash_def revision_of_def
      decode_first_encode [OF sample_facts(2), simplified] validate_a)



text \<open>
  An unhindered write succeeds. When no call fails, the engine is writable, the slot is a valid
  identifier, the revision is the current one, the payload is JSON and the names of the temporary
  files are free, \<open>WriteSave\<close> returns a result.
\<close>

theorem write_save_succeeds:
  assumes q: "faults e = []" and "writable e" and r: "rooted (eng_dir e)"
    and "validate_identifier (sw_slot w) = None" and "decode_first (sw_payload w) \<noteq> None"
    and "\<not> sw_claim w \<or> eng_writer e \<in> {[], sw_session w}"
    and "sw_if_revision w \<in> {None, Some (revision_of (slot_key (sw_slot w)) e)}"
    and free: "\<And>p. save_path e (sw_slot w) = Inr p \<Longrightarrow> get (files e) (temp_name (pid e) (Suc (seq_no e)) p) = None"
  shows "\<exists>x. fst (write_save now w e) = Inr x"
  using assms by (rule write_save_unhindered)

theorem write_save_succeeds_witness:
  "\<exists>x. fst (write_save ''t1'' (sample_write (JNum ''2'') (Some 0)) (sample_engine [])) = Inr x"
  by (rule write_save_succeeds)
    (simp_all add: sample_engine_def sample_write_def get_def rooted_def slash_def revision_of_def
      decode_first_encode [OF sample_facts(2), simplified] validate_a)

section \<open>Reading\<close>

lemma read_bak_ok:
  assumes "read_bak b p d = (Some x, d')"
  shows "\<exists>raw h. get (files d) (bak_of p) = Some raw \<and> parse_save raw = Some h \<and> x = sh_payload h \<and> (b \<longrightarrow> verify_checksum h)"
  using assms by (auto simp: read_bak_def dest!: sys_read_ok split: prod.splits sum.splits option.splits if_splits)

lemma stable_read_bak: "stable A J \<Longrightarrow> J d \<Longrightarrow> read_bak b p d = (r, d') \<Longrightarrow> J d'"
  using stableD(3) [of A J d] stableD(11) [of A J]
  by (auto simp: read_bak_def split: prod.splits sum.splits option.splits if_splits) (metis snd_conv)+

lemma stable_read_save:
  assumes st: "stable A J" and J: "J e"
  shows "J (snd (read_save slot e))"
proof -
  obtain b e1 where c1: "ctx_err e = (b, e1)" by fastforce
  note j1 = stable_ctx [OF st J c1]
  show ?thesis
  proof (cases "save_path e slot")
    case (Inl err)
    then show ?thesis using J by (simp add: read_save_def)
  next
    case (Inr p)
    obtain r e2 where c2: "sys_read p e1 = (r, e2)" by fastforce
    note j2 = stable_step(3) [OF st j1 c2]
    obtain t d3 where t: "read_bak True p e2 = (t, d3)" by fastforce
    note j3 = stable_read_bak [OF st j2 t]
    obtain u d4 where u: "read_bak False p e2 = (u, d4)" by fastforce
    note j4 = stable_read_bak [OF st j2 u]
    show ?thesis
      using Inr j1 j2 j3 j4 stableD(11) [OF st j3] stableD(11) [OF st j4]
      by (cases b; cases r; cases t; cases u) (simp_all add: read_save_def c1 c2 t u split: option.splits)
  qed
qed

text \<open>
  C17: What a read serves. A payload \<open>ReadSave\<close> returns is that of the slot's live file or of its
  \<open>.bak\<close>, of a save that parses, and it passes that save's checksum unless it comes from the
  \<open>.bak\<close> of a live file that does not parse at all: in that case the \<open>.bak\<close> is served as soon
  as it parses, whatever its checksum says. A read changes nothing.
\<close>

theorem read_save_integrity:
  shows "(case fst (read_save slot e) of
       Inl _ \<Rightarrow> True
     | Inr x \<Rightarrow> (case save_path e slot of
         Inl _ \<Rightarrow> False
       | Inr p \<Rightarrow> (\<exists>raw h. parse_save raw = Some h \<and> x = sh_payload h
           \<and> (get (files e) p = Some raw \<and> verify_checksum h
              \<or> get (files e) (bak_of p) = Some raw
                 \<and> (verify_checksum h \<or> (\<exists>live. get (files e) p = Some live \<and> parse_save live = None))))))
    \<and> (\<forall>m \<in> passes e (snd (read_save slot e)). m = files e)"
proof
  show "\<forall>m \<in> passes e (snd (read_save slot e)). m = files e"
  proof -
    have "looked e (snd (read_save slot e))" by (rule stable_read_save [OF stable_looked looked_refl])
    then show ?thesis by (simp add: looked_def crash_inv_def)
  qed
  obtain b e1 where c1: "ctx_err e = (b, e1)" by fastforce
  have f1: "files e1 = files e" using ctx_err_frame [OF c1] by simp
  show "case fst (read_save slot e) of
       Inl _ \<Rightarrow> True
     | Inr x \<Rightarrow> (case save_path e slot of
         Inl _ \<Rightarrow> False
       | Inr p \<Rightarrow> (\<exists>raw h. parse_save raw = Some h \<and> x = sh_payload h
           \<and> (get (files e) p = Some raw \<and> verify_checksum h
              \<or> get (files e) (bak_of p) = Some raw
                 \<and> (verify_checksum h \<or> (\<exists>live. get (files e) p = Some live \<and> parse_save live = None)))))"
  proof (cases "save_path e slot")
    case (Inl err)
    then show ?thesis by (simp add: read_save_def)
  next
    case (Inr p)
    obtain r e2 where c2: "sys_read p e1 = (r, e2)" by fastforce
    have f2: "files e2 = files e" using read_call.files_call [of p e1] c2 f1 by simp
    obtain t d3 where t: "read_bak True p e2 = (t, d3)" by fastforce
    obtain u d4 where u: "read_bak False p e2 = (u, d4)" by fastforce
    have l: "r = Inr raw \<Longrightarrow> get (files e) p = Some raw" for raw using sys_read_ok [of p e1 raw e2] c2 f1 by simp
    have tb: "t = Some x \<Longrightarrow> \<exists>raw h. get (files e) (bak_of p) = Some raw \<and> parse_save raw = Some h \<and> x = sh_payload h
        \<and> verify_checksum h" for x
      using read_bak_ok [of True p e2 x d3] t f2 by auto
    have ub: "u = Some x \<Longrightarrow> \<exists>raw h. get (files e) (bak_of p) = Some raw \<and> parse_save raw = Some h \<and> x = sh_payload h" for x
      using read_bak_ok [of False p e2 x d4] u f2 by auto
    have v: "read_save slot e = (if b then (Inl CtxErr, e1) else case r of
        Inl x \<Rightarrow> if x = ENOENT then (case t of Some y \<Rightarrow> (Inr y, d3) | None \<Rightarrow> (Inl (StoreErr (NotFound ''save slot'')), d3))
                  else (Inl (io_err (SysErr x)), e2)
      | Inr raw \<Rightarrow> (case parse_save raw of
          None \<Rightarrow> (case u of Some y \<Rightarrow> (Inr y, d4)
            | None \<Rightarrow> (Inl (StoreErr (IO_error ''That save file could not be read.'' (slot_detail slot)
                         (Some (PlainError ''header'')))), log_event ''save.corrupt'' d4))
        | Some h \<Rightarrow> if \<not> verify_checksum h then (case t of Some y \<Rightarrow> (Inr y, d3)
              | None \<Rightarrow> (Inl (StoreErr (IO_error ''That save file failed its integrity check.'' (slot_detail slot) None)),
                          log_event ''save.corrupt'' d3))
            else (Inr (sh_payload h), e2)))"
      using Inr by (cases b; cases r) (simp_all add: read_save_def c1 c2 t u split: option.splits)
    show ?thesis
    proof (cases "fst (read_save slot e)")
      case (Inr y)
      then have "t = Some y \<or> (u = Some y \<and> (\<exists>raw. r = Inr raw \<and> parse_save raw = None))
          \<or> (\<exists>raw h. r = Inr raw \<and> parse_save raw = Some h \<and> verify_checksum h \<and> y = sh_payload h)"
        unfolding v by (cases b; cases r) (auto split: option.splits if_splits)
      then have "\<exists>raw h. parse_save raw = Some h \<and> y = sh_payload h
           \<and> (get (files e) p = Some raw \<and> verify_checksum h
              \<or> get (files e) (bak_of p) = Some raw
                 \<and> (verify_checksum h \<or> (\<exists>live. get (files e) p = Some live \<and> parse_save live = None)))"
        by (elim disjE exE conjE) (use tb ub l in blast)+
      then show ?thesis using Inr \<open>save_path e slot = Inr p\<close> by simp
    qed simp
  qed
qed

theorem read_save_integrity_witness:
  "let e = sample_engine [(sample_path, sample_raw)]
   in fst (read_save ''a'' e) = Inr (encode (JNum ''1'')) \<and> files (snd (read_save ''a'' e)) = [(sample_path, sample_raw)]"
proof -
  let ?e = "sample_engine [(sample_path, sample_raw)]"
  have f: "files ?e = [(sample_path, sample_raw)]" by (simp add: sample_engine_def)
  have "files (snd (read_save ''a'' ?e)) = files ?e"
    using read_save_integrity [of ?e "''a''"] by (simp add: passes_def)
  moreover have "restart ?e (files ?e) = ?e" by (simp add: restart_def sample_engine_def)
  ultimately show ?thesis
    using read_save_live [OF sample_save_path, of "files ?e" sample_raw "encode (JNum ''1'')" "files ?e"] sample_intact f
    by (simp add: get_def Let_def)
qed

text \<open>The exception is real: a \<open>.bak\<close> that fails its checksum is served.\<close>

lemma unverified_bak_served:
  assumes "faults e = []" and "save_path e slot = Inr p" and "get (files e) p = Some live" and "parse_save live = None"
    and "get (files e) (bak_of p) = Some raw" and "parse_save raw = Some h"
  shows "fst (read_save slot e) = Inr (sh_payload h)"
  using assms by (simp add: read_save_def read_bak_def quiet_calls)

section \<open>Deleting\<close>

lemma join_path_two:
  assumes "rooted a" and "plain_seg s" and "plain_seg t"
  shows "join_path a (s @ slash # t) = path_of (segs_of a @ [s, t])"
proof -
  have n: "a \<noteq> []" "s @ slash # t \<noteq> []" using assms(1) by (auto simp: rooted_def)
  have r: "rooted (a @ slash # s)" "rooted (a @ slash # s @ slash # t)" using assms(1) by (simp_all add: rooted_append)
  have "segs_of (a @ slash # s) = segs_of a @ [s]"
    using segs_of_join_plain [OF assms(1,2)] segs_of_clean [OF r(1)] assms(2) n(1) by (simp add: join_path_def plain_seg_def)
  then have "segs_of ((a @ slash # s) @ slash # t) = segs_of a @ [s, t]"
    using segs_of_join_plain [OF r(1) assms(3)] segs_of_clean [of "(a @ slash # s) @ slash # t"] r(2) assms(3)
    by (simp add: join_path_def plain_seg_def)
  then show ?thesis using r(2) n by (simp add: join_path_def clean_def path_of_def)
qed

definition trash_path :: "engine \<Rightarrow> string \<Rightarrow> string \<Rightarrow> string" where
  "trash_path e ts name = join_path (new_trash_dir ts ''saves'' e) name"

lemma trash_path_of:
  assumes "rooted (eng_dir e)" and "slash \<notin> set ts" and "plain_seg name"
  shows "trash_path e ts name = path_of (segs_of (eng_dir e) @ [''.trash-'' @ ts, ''saves'', name])"
proof -
  have t: "plain_seg (''.trash-'' @ ts)" using assms(2) by (intro plain_seg_long) (auto simp: slash_def)
  have d: "new_trash_dir ts ''saves'' e = path_of (segs_of (eng_dir e) @ [''.trash-'' @ ts, ''saves''])"
    using join_path_two [OF assms(1) t plain_areas(1)] by (simp add: new_trash_dir_def)
  show ?thesis
    using join_path_of [OF rooted_path_of assms(3), of "segs_of (eng_dir e) @ [''.trash-'' @ ts, ''saves'']"]
      list_all_segs_of [OF assms(1)] t plain_areas(1)
    by (simp add: trash_path_def d segs_of_path_of)
qed

lemma move_to_trash_ok:
  assumes "no_exdev d" and "move_to_trash src trash d = (r, d')" and "src \<noteq> join_path trash (base_name src)"
  shows "no_exdev d' \<and> (if r = None then (\<exists>x. get (files d) src = Some x
       \<and> files d' = put (join_path trash (base_name src)) x (del src (files d))) else files d' = files d)"
proof -
  obtain r1 d1 where c1: "sys_plain d = (r1, d1)" by fastforce
  have f1: "files d1 = files d" "no_exdev d1"
    using sys_plain_files [of d] no_exdev_calls(1) [OF assms(1)] c1 by simp_all
  obtain r2 d2 where c2: "sys_rename src (join_path trash (base_name src)) d1 = (r2, d2)" by fastforce
  have n2: "no_exdev d2" "r2 \<noteq> Some EXDEV"
    using no_exdev_calls(8) [OF f1(2), of src "join_path trash (base_name src)"] sys_rename_exdev c2 f1(2) by auto
  have "r2 = None \<Longrightarrow> \<exists>x. get (files d) src = Some x \<and> files d2 = put (join_path trash (base_name src)) x (del src (files d))"
    "r2 = Some y \<Longrightarrow> files d2 = files d" for y
    using sys_rename_ok [of src "join_path trash (base_name src)" d1 d2] assms(3)
      sys_rename_err [of src "join_path trash (base_name src)" d1 y d2] c2 f1(1) by simp_all
  then show ?thesis
    using assms(2) f1 n2 by (cases r1; cases r2) (auto simp: move_to_trash_def c1 c2 Let_def)
qed

text \<open>
  C27: A deletion moves the data, it never destroys it. When \<open>DeleteSave\<close> has returned without an
  error (and no rename crosses devices), the slot's file is gone from the saves, its content is in the
  trash of that second, whatever the trash held under that name before, the old \<open>.bak\<close> is in
  the trash too or still in its place, no other file has changed, and the slot's revision is 0.
  Two deletions of one slot in the same second share the trash file: the second one replaces
  what the first one put there.
\<close>

theorem delete_save_moves_to_trash:
  assumes r: "rooted (eng_dir e)" and nx: "no_exdev e" and ts: "slash \<notin> set ts"
    and p: "save_path e slot = Inr p" and d: "delete_save ts slot e = (None, e')"
  shows "get (files e') p = None
    \<and> get (files e) p \<noteq> None \<and> get (files e') (trash_path e ts (slot @ ''.json'')) = get (files e) p
    \<and> (get (files e) (bak_of p) \<noteq> None \<longrightarrow> get (files e) (bak_of p)
         \<in> {get (files e') (bak_of p), get (files e') (trash_path e ts (slot @ ''.json.bak''))})
    \<and> (\<forall>q. q \<notin> {p, bak_of p, trash_path e ts (slot @ ''.json''), trash_path e ts (slot @ ''.json.bak'')}
          \<longrightarrow> get (files e') q = get (files e) q)
    \<and> revision_of (slot_key slot) e' = 0"
proof -
  let ?ss = "segs_of (eng_dir e)" and ?j = "slot @ ''.json''" and ?b = "slot @ ''.json.bak''"
  note pv = save_path_Inr [OF r p]
  have n: "plain_seg ?j" "plain_seg ?b" "slash \<notin> set ?j" "slash \<notin> set ?b"
    using identifier_chars [OF pv(2)] by (auto intro!: plain_seg_long simp: slash_def)
  have tj: "plain_seg (''.trash-'' @ ts)" using ts by (intro plain_seg_long) (auto simp: slash_def)
  have ss: "list_all plain_seg ?ss" using list_all_segs_of [OF r] .
  have paths: "p = path_of (?ss @ [''saves'', ?j])" "bak_of p = path_of (?ss @ [''saves'', ?b])"
    "trash_path e ts ?j = path_of (?ss @ [''.trash-'' @ ts, ''saves'', ?j])"
    "trash_path e ts ?b = path_of (?ss @ [''.trash-'' @ ts, ''saves'', ?b])"
    using pv(1) path_of_append_name [of "?ss @ [''saves'']" ?j] trash_path_of [OF r ts n(1)] trash_path_of [OF r ts n(2)]
    by (simp_all add: bak_of_def)
  have neq: "path_of (?ss @ xs) = path_of (?ss @ ys) \<longleftrightarrow> xs = ys" if "list_all plain_seg xs" "list_all plain_seg ys" for xs ys
    using path_of_inj [of "?ss @ xs" "?ss @ ys"] ss that by simp
  have apart: "p \<noteq> trash_path e ts ?j" "p \<noteq> trash_path e ts ?b" "bak_of p \<noteq> trash_path e ts ?j"
    "bak_of p \<noteq> trash_path e ts ?b" "trash_path e ts ?j \<noteq> trash_path e ts ?b"
    unfolding paths(2) unfolding paths(1,3,4) using n tj plain_areas by (simp_all add: neq)
  have bn: "base_name p = ?j" "base_name (bak_of p) = ?b"
    unfolding paths(2) unfolding paths(1) using base_name_path_of [of ?j "?ss @ [''saves'']"] base_name_path_of [of ?b "?ss @ [''saves'']"] n by simp_all
  obtain r1 e1 where c1: "sys_stat p e = (r1, e1)" by fastforce
  have f1: "files e1 = files e" and n1: "no_exdev e1" and fr1: "frame e e1"
    using sys_stat_files [of p e] no_exdev_calls(6) [OF nx, of p] stable_step(4) [OF stable_frame frame_refl c1] c1 by simp_all
  have tr: "join_path (new_trash_dir ts ''saves'' e1) x = trash_path e ts x" for x
    using fr1 by (simp add: trash_path_def new_trash_dir_def frame_def)
  obtain r2 e2 where c2: "move_to_trash p (new_trash_dir ts ''saves'' e1) e1 = (r2, e2)" by fastforce
  note m2 = move_to_trash_ok [OF n1 c2, unfolded tr bn, OF apart(1)]
  obtain r3 e3 where c3: "sys_stat (bak_of p) e2 = (r3, e3)" by fastforce
  have f3: "files e3 = files e2" and n3: "no_exdev e3"
    using sys_stat_files [of "bak_of p" e2] no_exdev_calls(6) [of e2 "bak_of p"] m2 c3 by simp_all
  obtain r4 e4 where c4: "move_to_trash (bak_of p) (new_trash_dir ts ''saves'' e1) e3 = (r4, e4)" by fastforce
  note m4 = move_to_trash_ok [OF n3 c4, unfolded tr bn, OF apart(4)]
  define e5 where "e5 = (case r3 of Inl _ \<Rightarrow> e3 | Inr _ \<Rightarrow> e4)"
  obtain b e6 where c6: "ctx_err (set_revision (slot_key slot) 0 e5) = (b, e6)" by fastforce
  have ok: "r2 = None" "e' = e6"
    using d c6 unfolding e5_def
    by (cases r1; cases r2; cases r3; simp add: delete_save_def p c1 c2 c3 c4 Let_def split: if_splits)+
  obtain x where x: "get (files e) p = Some x" "files e2 = put (trash_path e ts ?j) x (del p (files e))"
    using m2 ok(1) f1 by auto
  have f6: "files e' = files e5" and "revision_of (slot_key slot) e' = 0"
    using ctx_err_frame [OF c6] stable_ctx [OF stable_frame frame_refl c6] ok(2)
    by (simp_all add: set_revision_def frame_def revision_of_def)
  moreover have "files e5 = files e2 \<or> (\<exists>y. get (files e) (bak_of p) = Some y
      \<and> files e5 = put (trash_path e ts ?b) y (del (bak_of p) (files e2)))"
    using m4 f3 x apart by (auto simp: e5_def split: sum.splits if_splits)
  ultimately show ?thesis
    using x apart by auto
qed

theorem delete_save_moves_to_trash_witness:
  "let e = sample_engine [(sample_path, ''x'')]; e' = snd (delete_save ''t'' ''a'' e)
   in get (files e') sample_path = None \<and> get (files e') (trash_path e ''t'' ''a.json'') = Some ''x''"
proof -
  let ?e = "sample_engine [(sample_path, ''x'')]"
  obtain err e' where c: "delete_save ''t'' ''a'' ?e = (err, e')" by fastforce
  have q: "faults ?e = []" "get (files ?e) sample_path = Some ''x''" by (simp_all add: sample_engine_def get_def)
  have "faults (set_revision k v d) = faults d" for k v d by (simp add: set_revision_def)
  then have "err = None"
    using c q by (auto simp: delete_save_def sample_save_path quiet_all quiet_calls move_to_trash_def Let_def
        split: option.splits)
  then show ?thesis
    using delete_save_moves_to_trash [OF sample_facts(3,4) _ sample_save_path c [unfolded \<open>err = None\<close>]] c q
    by (simp add: slash_def Let_def)
qed

section \<open>Settings\<close>

lemma member_fold_set:
  "keys_sorted ms \<Longrightarrow> member k (fold (\<lambda>(k, v). set_member k v) kvs ms)
     = (case map_of (rev kvs) k of Some v \<Rightarrow> Some v | None \<Rightarrow> member k ms)"
proof (induction kvs arbitrary: ms)
  case (Cons kv kvs)
  obtain k' v' where kv: "kv = (k', v')" by fastforce
  show ?case
    using Cons.IH [of "set_member k' v' ms"] Cons.prems
    by (auto simp: kv keys_sorted_set_member map_add_def split: option.splits)
qed (simp add: member_def)

lemma canonical_fold_set:
  "canonical (JObj ms) \<Longrightarrow> list_all (\<lambda>(k, v). canonical v) kvs \<Longrightarrow> canonical (JObj (fold (\<lambda>(k, v). set_member k v) kvs ms))"
proof (induction kvs arbitrary: ms)
  case (Cons kv kvs)
  obtain k' v' where kv: "kv = (k', v')" by fastforce
  have "x \<in> set (set_member k' v' xs) \<Longrightarrow> x = (k', v') \<or> x \<in> set xs" for x xs
    by (induction xs) (auto split: if_splits)
  then have "canonical (JObj (set_member k' v' ms))"
    using Cons.prems by (fastforce simp: kv keys_sorted_set_member list_all_iff)
  then show ?case using Cons.IH Cons.prems by (simp add: kv)
qed simp

lemma temp_apart_config:
  assumes "rooted (eng_dir e)"
  shows "temp_apart (config_file e)"
proof -
  have "config_file e = path_of ((segs_of (eng_dir e) @ [''config'']) @ [''settings.json''])"
    using in_dir_path [OF assms plain_areas(2,3)] by (simp add: config_file_def)
  then show ?thesis
    using temp_apart_path [OF _ plain_areas(3), of "segs_of (eng_dir e) @ [''config'']"] list_all_segs_of [OF assms] plain_areas(2)
    by simp
qed

text \<open>
  A settings merge keeps the settings it does not mention. When nothing fails and
  \<open>MergeConfig\<close> has returned a result, the settings file decodes to an object in which every key
  of the request has its last value from the request and every other key the value it had; the
  revision it was given was the current one, and it has gone up by one.
\<close>

theorem merge_config_keeps_settings:
  assumes q: "faults e = []" and r: "rooted (eng_dir e)"
    and raw: "get (files e) (config_file e) = Some raw" and ms: "unmarshal raw = Some (JObj ms)"
    and m: "list_all (\<lambda>(k, v). canonical v) merge" and c: "merge_config now if_rev merge e = (Inr (rv, n), e')"
  shows "\<exists>out doc. get (files e') (config_file e) = Some out \<and> unmarshal out = Some (JObj doc)
    \<and> (\<forall>k. member k doc = (case map_of (rev merge) k of Some v \<Rightarrow> Some v | None \<Rightarrow> member k ms))
    \<and> (if_rev = None \<or> if_rev = Some (revision_of config_key e))
    \<and> rv = wrap64 (revision_of config_key e + 1) \<and> revision_of config_key e' = rv"
proof -
  let ?doc = "fold (\<lambda>(k, v). set_member k v) merge ms"
  define body where "body = encode (JObj ?doc) @ [CHR 0x0A]"
  have w: "writable e" using c by (simp add: merge_config_def split: if_splits)
  have cr: "check_revision config_key if_rev e = (None, e)" and ir: "if_rev = None \<or> if_rev = Some (revision_of config_key e)"
    using c check_revision_ok [of config_key if_rev e]
    by (auto simp: merge_config_def split: if_splits prod.splits option.splits)
  have rd: "read_config_bytes e = (Inr (raw, False), e)" by (simp add: read_config_bytes_def quiet_calls q raw)
  obtain r2 e2 where c2: "write_atomic (config_file e) body e = (r2, e2)" by fastforce
  have x: "r2 = None" "rv = wrap64 (revision_of config_key e2 + 1)"
    "e' = log_event ''config.write'' (set_revision config_key rv e2)"
    using c c2 unfolding body_def
    by (cases r2; cases merge; simp add: merge_config_def w cr rd current_settings_def ms Let_def)+
  have nx: "no_exdev e" using q by (simp add: no_exdev_def)
  have g: "get (files e2) (config_file e) = Some body"
    using write_atomic_crash [OF temp_apart_config [OF r] raw nx, of body] c2 x(1) by simp
  have "canonical (JObj ms)" by (rule unmarshal_canonical [OF ms])
  then have "unmarshal body = Some (JObj ?doc)" "keys_sorted ms"
    using unmarshal_encode [OF canonical_fold_set [OF _ m]] by (simp_all add: body_def)
  moreover have "revision_of config_key e2 = revision_of config_key e"
    using stable_write_atomic [OF stable_frame frame_refl subset_UNIV c2] by (simp add: frame_def revision_of_def)
  ultimately show ?thesis
    using g x ir member_fold_set [of ms _ merge] by (auto simp: set_revision_def revision_of_def log_event_def)
qed

lemma quiet_merge_config:
  assumes "faults e = []" and "writable e" and "rooted (eng_dir e)" and "get (files e) (config_file e) = Some raw"
    and "unmarshal raw = Some (JObj ms)"
    and "get (files e) (temp_name (pid e) (Suc (seq_no e)) (config_file e)) = None"
  shows "\<exists>x e'. merge_config now None merge e = (Inr x, e')"
proof -
  obtain e2 where w: "write_atomic (config_file e) (encode (JObj (fold (\<lambda>(k, v). set_member k v) merge ms)) @ [CHR 0x0A]) e = (None, e2)"
    using quiet_write_atomic [OF assms(1,6) temp_apart_config [OF assms(3)]] by (metis eq_fst_iff)
  show ?thesis
    using assms(1-5) w
    by (cases merge) (simp_all add: merge_config_def check_revision_def read_config_bytes_def quiet_calls current_settings_def Let_def)
qed

theorem merge_config_keeps_settings_witness:
  "let e = sample_engine [(''/g/config/settings.json'', encode (JObj [(''a'', JBool True), (''b'', JNull)]))];
       e' = snd (merge_config ''t'' None [(''b'', JBool False)] e)
   in \<exists>out doc. get (files e') (config_file e) = Some out \<and> unmarshal out = Some (JObj doc)
        \<and> member ''a'' doc = Some (JBool True) \<and> member ''b'' doc = Some (JBool False)"
proof -
  let ?ms = "[(''a'', JBool True), (''b'', JNull)]"
  let ?e = "sample_engine [(''/g/config/settings.json'', encode (JObj ?ms))]"
  have cf: "config_file ?e = ''/g/config/settings.json''"
    unfolding config_file_def dir_for_def sample_engine_def by simp code_simp
  have q: "faults ?e = []" "writable ?e" "files ?e = [(''/g/config/settings.json'', encode (JObj ?ms))]"
    by (simp_all add: sample_engine_def)
  have raw: "get (files ?e) (config_file ?e) = Some (encode (JObj ?ms))" unfolding cf q(3) by (simp add: get_def)
  have tmp: "get (files ?e) (temp_name (pid ?e) (Suc (seq_no ?e)) (config_file ?e)) = None"
    using temp_apart_config [OF sample_facts(3), of "[(''/g/config/settings.json'', encode (JObj ?ms))]"]
    unfolding temp_apart_def cf q(3) by (auto simp: get_def)
  have "keys_sorted ?ms" by (simp add: keys_sorted_def)
  then have ms: "unmarshal (encode (JObj ?ms)) = Some (JObj ?ms)"
    using unmarshal_encode [of "JObj ?ms" "[]"] by simp
  obtain rv n e' where c: "merge_config ''t'' None [(''b'', JBool False)] ?e = (Inr (rv, n), e')"
    using quiet_merge_config [OF q(1,2) sample_facts(3) raw ms tmp] by (metis surj_pair)
  have "list_all (\<lambda>(k, v). canonical v) [(''b'', JBool False)]" by simp
  then obtain out doc where d: "get (files e') (config_file ?e) = Some out" "unmarshal out = Some (JObj doc)"
    "\<And>k. member k doc = (case map_of (rev [(''b'', JBool False)]) k of Some v \<Rightarrow> Some v | None \<Rightarrow> member k ?ms)"
    using merge_config_keeps_settings [OF q(1) sample_facts(3) raw ms _ c] by blast
  have "member ''a'' doc = Some (JBool True)" "member ''b'' doc = Some (JBool False)"
    unfolding d(3) by (simp_all add: member_def)
  then show ?thesis using d(1,2) unfolding c Let_def snd_conv by blast
qed

text \<open>Two limits of the merge: settings that are \<open>null\<close> make it panic, and a full disk is not named.\<close>

lemma merge_config_null_panics:
  assumes "faults e = []" and "writable e" and "get (files e) (config_file e) = Some raw" and "unmarshal raw = Some JNull"
    and "merge \<noteq> []"
  shows "fst (merge_config now None merge e) = Inl Panic"
  using assms
  by (cases merge) (simp_all add: merge_config_def check_revision_def read_config_bytes_def quiet_calls current_settings_def Let_def)

lemma space_guard_masked:
  "\<exists>c. io_err SpaceGuard = StoreErr c \<and> c \<noteq> InsufficientSpace"
  by (simp add: io_err_def map_io_error_def InsufficientSpace_def IO_error_def)

end
