(* ===== verification/Release.thy ===== *)
theory Release
  imports Json_Fields KobraErr "HOL-Library.Option_ord"
begin

text \<open>
  \<open>update/manifest.go\<close>, \<open>check.go\<close> and \<open>http.go\<close>: the documents an update is decided from, how
  they are fetched and checked, the order of releases, and the launcher floor. The network and
  \<open>net/url\<close> are arguments: \<open>url_parse\<close> gives scheme and host, \<open>http_get\<close> the answer of the
  server, \<open>resolve_url\<close> an address relative to another.
\<close>

section \<open>Versions\<close>

text \<open>\<open>parseVersion\<close>: the loop over the components, and the whole function.\<close>

fun parse_components :: "string list \<Rightarrow> int list option" where
  "parse_components [] = Some []"
| "parse_components (p # ps) =
     (if p = [] then None
      else case parse_int64 p of
        None \<Rightarrow> None
      | Some n \<Rightarrow> if n < 0 then None else map_option ((#) n) (parse_components ps))"

definition parse_version :: "string \<Rightarrow> int list option" where
  "parse_version s =
     (let t = trim_prefix ''v'' (trim_space s)
      in if t = [] then None else parse_components (split_on dot t))"

text \<open>\<open>compareVersions\<close>: a missing component counts as zero.\<close>

fun compare_loop :: "int list \<Rightarrow> int list \<Rightarrow> int" where
  "compare_loop [] [] = 0"
| "compare_loop (a # as) [] = (if a \<noteq> 0 then (if a < 0 then -1 else 1) else compare_loop as [])"
| "compare_loop [] (b # bs) = (if 0 \<noteq> b then (if 0 < b then -1 else 1) else compare_loop [] bs)"
| "compare_loop (a # as) (b # bs) = (if a \<noteq> b then (if a < b then -1 else 1) else compare_loop as bs)"

definition compare_versions :: "string \<Rightarrow> string \<Rightarrow> int" where
  "compare_versions a b =
     (case (parse_version a, parse_version b) of
        (None, None) \<Rightarrow> 0
      | (None, Some _) \<Rightarrow> -1
      | (Some _, None) \<Rightarrow> 1
      | (Some as, Some bs) \<Rightarrow> compare_loop as bs)"

definition valid_release :: "string \<Rightarrow> bool" where
  "valid_release s =
     (let parts = split_on dot s
      in length parts = 3 \<and> length (parts ! 0) = 4 \<and> length (parts ! 1) = 2
         \<and> list_all (\<lambda>p. p \<noteq> [] \<and> list_all is_digit p) parts)"

definition release_newer :: "string \<Rightarrow> string \<Rightarrow> bool" where
  "release_newer a b =
     (if \<not> valid_release a then False
      else if \<not> valid_release b then True
      else compare_versions a b > 0)"

section \<open>Documents\<close>

record file_entry =
  fe_path :: string
  fe_size :: int
  fe_hash :: string
  fe_mode :: string

record archive_ref =
  ar_name :: string
  ar_url :: string
  ar_size :: int
  ar_hash :: string
  ar_format :: string

record migration =
  mg_from :: int
  mg_to :: int
  mg_fn :: string
  mg_reversible :: bool

record schema_migration =
  sm_manifest :: string
  sm_from :: int
  sm_to :: int

record min_browser =
  mb_chrome :: int
  mb_edge :: int
  mb_opera :: int

record signatures =
  sg_gpg :: string
  sg_fingerprint :: string
  sg_sigstore :: string

record manifest =
  mf_schema :: string
  mf_release :: string
  mf_previous :: "string option"
  mf_published :: string
  mf_launcher_min :: string
  mf_engine_version :: string
  mf_save_version :: int
  mf_channel :: string
  mf_scope :: string
  mf_total_size :: int
  mf_files :: "file_entry list"
  mf_migrations :: "migration list"
  mf_schema_migrations :: "schema_migration list"
  mf_min_browser :: "min_browser option"
  mf_signatures :: "signatures option"
  mf_notes :: string
  mf_notes_url :: string
  mf_archive :: "archive_ref option"
  mf_archive_sha256 :: string
  mf_raw :: string

definition declared_archive_hash :: "manifest option \<Rightarrow> string" where
  "declared_archive_hash mo =
     (case mo of
        None \<Rightarrow> []
      | Some m \<Rightarrow>
          if mf_archive_sha256 m \<noteq> [] then mf_archive_sha256 m
          else (case mf_archive m of Some a \<Rightarrow> ar_hash a | None \<Rightarrow> []))"

definition declared_archive_size :: "manifest option \<Rightarrow> int" where
  "declared_archive_size mo =
     (case Option.bind mo mf_archive of None \<Rightarrow> 0 | Some a \<Rightarrow> ar_size a)"

definition decode_file :: "members \<Rightarrow> file_entry option" where
  "decode_file ms =
     (case (str_field ''path'' ms, int_field ''size'' ms, str_field ''hash'' ms, str_field ''mode'' ms) of
        (Some p, Some n, Some h, Some m) \<Rightarrow> Some \<lparr>fe_path = p, fe_size = n, fe_hash = h, fe_mode = m\<rparr>
      | _ \<Rightarrow> None)"

definition decode_archive :: "members \<Rightarrow> archive_ref option" where
  "decode_archive ms =
     (case (str_field ''name'' ms, str_field ''url'' ms, int_field ''size'' ms, str_field ''hash'' ms,
            str_field ''format'' ms) of
        (Some n, Some u, Some z, Some h, Some f) \<Rightarrow>
          Some \<lparr>ar_name = n, ar_url = u, ar_size = z, ar_hash = h, ar_format = f\<rparr>
      | _ \<Rightarrow> None)"

definition decode_migration :: "members \<Rightarrow> migration option" where
  "decode_migration ms =
     (case (int_field ''from'' ms, int_field ''to'' ms, str_field ''fn'' ms, bool_field ''reversible'' ms) of
        (Some a, Some b, Some f, Some r) \<Rightarrow> Some \<lparr>mg_from = a, mg_to = b, mg_fn = f, mg_reversible = r\<rparr>
      | _ \<Rightarrow> None)"

definition decode_schema_migration :: "members \<Rightarrow> schema_migration option" where
  "decode_schema_migration ms =
     (case (str_field ''manifest'' ms, int_field ''from'' ms, int_field ''to'' ms) of
        (Some m, Some a, Some b) \<Rightarrow> Some \<lparr>sm_manifest = m, sm_from = a, sm_to = b\<rparr>
      | _ \<Rightarrow> None)"

definition decode_min_browser :: "members \<Rightarrow> min_browser option" where
  "decode_min_browser ms =
     (case (int_field ''chrome'' ms, int_field ''edge'' ms, int_field ''opera'' ms) of
        (Some c, Some e, Some p) \<Rightarrow> Some \<lparr>mb_chrome = c, mb_edge = e, mb_opera = p\<rparr>
      | _ \<Rightarrow> None)"

definition decode_signatures :: "members \<Rightarrow> signatures option" where
  "decode_signatures ms =
     (case (str_field ''gpg'' ms, str_field ''gpg_key_fingerprint'' ms, str_field ''sigstore_bundle'' ms) of
        (Some g, Some f, Some s) \<Rightarrow> Some \<lparr>sg_gpg = g, sg_fingerprint = f, sg_sigstore = s\<rparr>
      | _ \<Rightarrow> None)"

text \<open>\<open>json.Unmarshal\<close> into a \<open>Manifest\<close>; the raw document is kept by \<open>FetchManifest\<close>.\<close>

definition decode_manifest :: "members \<Rightarrow> manifest option" where
  "decode_manifest ms =
     (case (str_field ''schema'' ms, str_field ''release'' ms, ptr_field as_string ''previous_release'' ms,
            str_field ''published'' ms, str_field ''launcher_min'' ms, str_field ''engine_version'' ms,
            int_field ''save_version'' ms) of
        (Some sc, Some rl, Some pr, Some pb, Some lm, Some ev, Some sv) \<Rightarrow>
     (case (str_field ''channel'' ms, str_field ''scope'' ms, int_field ''total_size'' ms,
            list_field (as_struct decode_file) ''files'' ms,
            list_field (as_struct decode_migration) ''migrations'' ms,
            list_field (as_struct decode_schema_migration) ''schema_migrations'' ms) of
        (Some ch, Some sp, Some ts, Some fs, Some mg, Some sm) \<Rightarrow>
     (case (ptr_field (as_struct decode_min_browser) ''min_browser'' ms,
            ptr_field (as_struct decode_signatures) ''signatures'' ms, str_field ''notes'' ms,
            str_field ''release_notes_url'' ms, ptr_field (as_struct decode_archive) ''archive'' ms,
            str_field ''archive_sha256'' ms) of
        (Some mb, Some sg, Some nt, Some nu, Some ar, Some ah) \<Rightarrow>
          Some \<lparr>mf_schema = sc, mf_release = rl, mf_previous = pr, mf_published = pb, mf_launcher_min = lm,
                mf_engine_version = ev, mf_save_version = sv, mf_channel = ch, mf_scope = sp,
                mf_total_size = ts, mf_files = fs, mf_migrations = mg, mf_schema_migrations = sm,
                mf_min_browser = mb, mf_signatures = sg, mf_notes = nt, mf_notes_url = nu,
                mf_archive = ar, mf_archive_sha256 = ah, mf_raw = []\<rparr>
      | _ \<Rightarrow> None) | _ \<Rightarrow> None) | _ \<Rightarrow> None)"

record latest =
  lt_release :: string
  lt_manifest_url :: string
  lt_notes_url :: string

definition decode_latest :: "members \<Rightarrow> latest option" where
  "decode_latest ms =
     (case (str_field ''release'' ms, str_field ''manifest_url'' ms, str_field ''notes_url'' ms) of
        (Some r, Some m, Some n) \<Rightarrow> Some \<lparr>lt_release = r, lt_manifest_url = m, lt_notes_url = n\<rparr>
      | _ \<Rightarrow> None)"

section \<open>Fetching\<close>

text \<open>
  The answer of the server: an error of the transport, or a status with the bytes of the body and
  whether reading them ends in an error.
\<close>

record network =
  url_parse :: "string \<Rightarrow> (string \<times> string) option"
  http_get :: "string \<Rightarrow> go_error + nat \<times> string \<times> bool"
  resolve_url :: "string \<Rightarrow> string \<Rightarrow> string option"

definition max_document_bytes :: nat where "max_document_bytes = 8 * 1024 * 1024"
definition max_redirects :: nat where "max_redirects = 3"

text \<open>The redirect policy of the client: whether one more hop is refused.\<close>

definition redirect_refused :: "string list \<Rightarrow> bool" where
  "redirect_refused via = (max_redirects \<le> length via)"

definition reason :: "string \<Rightarrow> (string, json) gmap" where
  "reason r = [(''reason'', JStr r)]"

definition update_io :: "string \<Rightarrow> string \<Rightarrow> kobra_error" where
  "update_io msg r = IO_error msg (reason r) (Some (PlainError r))"

definition msg_bad_address :: string where "msg_bad_address = ''The update address could not be understood.''"
definition msg_unchecked :: string where "msg_unchecked = ''The update could not be checked.''"

definition fetch_document :: "network \<Rightarrow> string \<Rightarrow> nat \<Rightarrow> kobra_error + string" where
  "fetch_document net raw limit =
     (case url_parse net raw of
        None \<Rightarrow> Inl (update_io msg_bad_address ''bad_url'')
      | Some (scheme, host) \<Rightarrow>
          if scheme \<noteq> ''http'' \<and> scheme \<noteq> ''https'' then Inl (update_io msg_bad_address ''bad_scheme'')
          else if host = [] then Inl (update_io msg_bad_address ''bad_url'')
          else case http_get net raw of
            Inl x \<Rightarrow> Inl (IO_error ''The update could not be checked. The launcher may be offline.'' (reason ''network'') (Some x))
          | Inr (status, body, broken) \<Rightarrow>
              if status \<noteq> 200
              then Inl (IO_error msg_unchecked [(''reason'', JStr ''status''), (''status'', JNum (fmt_nat status))]
                         (Some (PlainError ''status'')))
              else (let got = take (limit + 1) body in
                    if broken \<and> length body \<le> limit then Inl (update_io msg_unchecked ''read'')
                    else if limit < length got then Inl (update_io msg_unchecked ''too_large'')
                    else Inr got))"

definition msg_latest_unreadable :: string where
  "msg_latest_unreadable = ''The update information was not readable.''"
definition manifest_unreadable_message :: string where
  "manifest_unreadable_message = ''The update manifest was not readable.''"
definition launcher_too_old_message :: string where
  "launcher_too_old_message = ''This update needs a newer launcher.''"

definition release_manifest_schema :: string where
  "release_manifest_schema = ''kobra.release-manifest/1''"

definition fetch_latest :: "network \<Rightarrow> string \<Rightarrow> kobra_error + latest" where
  "fetch_latest net base =
     (if trim_space base = [] then Inl (MalformedField ''patch_base_url'' ''The update address is not configured.'' None)
      else case resolve_url net base ''latest.json'' of
        None \<Rightarrow> Inl (update_io msg_bad_address ''bad_url'')
      | Some doc_url \<Rightarrow>
          (case fetch_document net doc_url max_document_bytes of
             Inl err \<Rightarrow> Inl err
           | Inr body \<Rightarrow>
               (case decode_document decode_latest body of
                  None \<Rightarrow> Inl (update_io msg_latest_unreadable ''malformed_latest'')
                | Some l \<Rightarrow>
                    if \<not> valid_release (lt_release l) then Inl (MalformedField ''release'' msg_latest_unreadable None)
                    else if trim_space (lt_manifest_url l) = []
                    then Inl (MalformedField ''manifest_url'' msg_latest_unreadable None)
                    else Inr (case resolve_url net doc_url (lt_manifest_url l) of
                                None \<Rightarrow> l | Some u \<Rightarrow> l\<lparr>lt_manifest_url := u\<rparr>))))"

definition fetch_manifest :: "network \<Rightarrow> string \<Rightarrow> kobra_error + manifest" where
  "fetch_manifest net url =
     (if trim_space url = []
      then Inl (MalformedField ''manifest_url'' ''The update manifest address is missing.'' None)
      else case fetch_document net url max_document_bytes of
        Inl err \<Rightarrow> Inl err
      | Inr body \<Rightarrow>
          (case decode_document decode_manifest body of
             None \<Rightarrow> Inl (update_io manifest_unreadable_message ''malformed_manifest'')
           | Some m \<Rightarrow>
               if \<not> valid_release (mf_release m)
               then Inl (MalformedField ''release'' manifest_unreadable_message None)
               else if trim_space (mf_launcher_min m) \<noteq> [] \<and> parse_version (trim_space (mf_launcher_min m)) = None
               then Inl (MalformedField ''launcher_min'' manifest_unreadable_message None)
               else if mf_total_size m < 0
               then Inl (MalformedField ''total_size'' manifest_unreadable_message None)
               else if mf_schema m \<noteq> [] \<and> mf_schema m \<noteq> release_manifest_schema
               then Inl (MalformedField ''schema'' manifest_unreadable_message None)
               else Inr (m\<lparr>mf_raw := body\<rparr>)))"

section \<open>The launcher floor\<close>

definition launcher_min_refusal :: "manifest option \<Rightarrow> string \<Rightarrow> (kobra_error \<times> string) option" where
  "launcher_min_refusal mo launcher =
     (case mo of
        None \<Rightarrow> None
      | Some m \<Rightarrow>
          if trim_space (mf_launcher_min m) = [] then None
          else if parse_version (mf_launcher_min m) = None
          then Some (MalformedField ''launcher_min'' manifest_unreadable_message None, ''launcher_min_unreadable'')
          else if 0 \<le> compare_versions launcher (mf_launcher_min m) then None
          else Some (IO_error launcher_too_old_message (reason ''launcher_min'') None, ''launcher_min''))"

definition meets_launcher_min :: "manifest option \<Rightarrow> string \<Rightarrow> kobra_error option" where
  "meets_launcher_min mo launcher = map_option fst (launcher_min_refusal mo launcher)"

text \<open>\<open>GuardApply\<close>: the refusal, and the release and reason it logs.\<close>

definition guard_apply :: "manifest \<Rightarrow> string \<Rightarrow> kobra_error option \<times> (string \<times> string) list" where
  "guard_apply m launcher =
     (case launcher_min_refusal (Some m) launcher of
        None \<Rightarrow> (None, [])
      | Some (err, why) \<Rightarrow> (Some err, [(mf_release m, why)]))"

section \<open>The check\<close>

record check_result =
  ck_current :: string
  ck_latest :: string
  ck_available :: bool
  ck_notes_url :: string
  ck_detail :: string

text \<open>\<open>Check\<close>: its answer, and what it logs: the two releases and whether one is available.\<close>

definition check :: "network \<Rightarrow> string \<Rightarrow> string \<Rightarrow> (kobra_error + check_result) \<times> (string \<times> string \<times> bool)" where
  "check net base installed =
     (case fetch_latest net base of
        Inl err \<Rightarrow> (Inl err, (installed, [], False))
      | Inr l \<Rightarrow>
          (let newer = release_newer (lt_release l) installed in
           (Inr \<lparr>ck_current = installed, ck_latest = lt_release l, ck_available = newer,
                 ck_notes_url = lt_notes_url l,
                 ck_detail = (if newer then ''A newer release is available.''
                              else ''The installed release is up to date.'')\<rparr>,
            (installed, lt_release l, newer))))"

text \<open>\<open>InstalledRelease\<close>, from what reading the manifest in the game folder gave.\<close>

definition installed_release :: "bool + string \<Rightarrow> string option" where
  "installed_release file =
     (case file of
        Inl absent \<Rightarrow> (if absent then Some [] else None)
      | Inr raw \<Rightarrow> decode_document (str_field ''release'') raw)"

section \<open>The order of versions\<close>

text \<open>A version up to trailing zeros; such lists are ordered lexicographically, and nothing is least.\<close>

fun strip_zeros :: "int list \<Rightarrow> int list" where
  "strip_zeros [] = []"
| "strip_zeros (n # ns) = (let r = strip_zeros ns in if n = 0 \<and> r = [] then [] else n # r)"

definition version_key :: "string \<Rightarrow> int list option" where
  "version_key s = map_option strip_zeros (parse_version s)"

definition sign_of_order :: "'a::linorder \<Rightarrow> 'a \<Rightarrow> int" where
  "sign_of_order x y = (if x < y then -1 else if x = y then 0 else 1)"

lemma parse_components_nonneg: "parse_components ps = Some ns \<Longrightarrow> list_all (\<lambda>n. 0 \<le> n) ns"
  by (induction ps arbitrary: ns) (auto split: if_splits option.splits)

lemma parse_version_nonneg: "parse_version s = Some ns \<Longrightarrow> list_all (\<lambda>n. 0 \<le> n) ns"
  by (auto simp: parse_version_def Let_def parse_components_nonneg split: if_splits)

lemma Nil_less_list [simp]: "([] :: int list) < xs \<longleftrightarrow> xs \<noteq> []"
  by (cases xs) auto

lemma compare_loop_order:
  "list_all (\<lambda>n. 0 \<le> n) as \<Longrightarrow> list_all (\<lambda>n. 0 \<le> n) bs \<Longrightarrow>
     compare_loop as bs = sign_of_order (strip_zeros as) (strip_zeros bs)"
  by (induction as bs rule: compare_loop.induct) (auto simp: sign_of_order_def Let_def split: if_splits)

lemma compare_versions_sign: "compare_versions a b = sign_of_order (version_key a) (version_key b)"
proof (cases "parse_version a")
  case None
  then show ?thesis
    by (cases "parse_version b") (simp_all add: compare_versions_def version_key_def sign_of_order_def)
next
  case a: (Some as)
  show ?thesis
  proof (cases "parse_version b")
    case None
    with a show ?thesis by (simp add: compare_versions_def version_key_def sign_of_order_def)
  next
    case b: (Some bs)
    with a have "compare_loop as bs = sign_of_order (strip_zeros as) (strip_zeros bs)"
      by (intro compare_loop_order parse_version_nonneg)
    with a b show ?thesis
      by (simp add: compare_versions_def version_key_def sign_of_order_def)
  qed
qed

section \<open>Releases\<close>

datatype release_id = Release nat nat nat

instantiation release_id :: linorder
begin

fun less_eq_release_id :: "release_id \<Rightarrow> release_id \<Rightarrow> bool" where
  "less_eq_release_id (Release y m n) (Release y' m' n') =
     (y < y' \<or> y = y' \<and> (m < m' \<or> m = m' \<and> n \<le> n'))"

definition less_release_id :: "release_id \<Rightarrow> release_id \<Rightarrow> bool" where
  "less_release_id r s = (r \<le> s \<and> \<not> s \<le> r)"

instance
proof
  fix x y z :: release_id
  show "x < y \<longleftrightarrow> x \<le> y \<and> \<not> y \<le> x" by (simp add: less_release_id_def)
  show "x \<le> x" by (cases x) simp
  show "x \<le> y \<Longrightarrow> y \<le> z \<Longrightarrow> x \<le> z" by (cases x; cases y; cases z) auto
  show "x \<le> y \<Longrightarrow> y \<le> x \<Longrightarrow> x = y" by (cases x; cases y) auto
  show "x \<le> y \<or> y \<le> x" by (cases x; cases y) auto
qed

end

lemma less_release [simp]:
  "Release y m n < Release y' m' n' \<longleftrightarrow> y < y' \<or> y = y' \<and> (m < m' \<or> m = m' \<and> n < n')"
  by (auto simp: less_release_id_def)

text \<open>The release a string names: the pattern of the schema, with a last component a Go \<open>int\<close> can hold.\<close>

definition release_of :: "string \<Rightarrow> release_id option" where
  "release_of s =
     (if valid_release s
      then (case map (nat_of_digits 0) (split_on dot s) of
              [y, m, n] \<Rightarrow> if int n \<le> int64_max then Some (Release y m n) else None
            | _ \<Rightarrow> None)
      else None)"

lemma digit_val_le: "is_digit c \<Longrightarrow> digit_val c \<le> 9"
  by (auto simp: is_digit_def digit_val_def)

lemma nat_of_digits_bound:
  "list_all is_digit p \<Longrightarrow> nat_of_digits a p < (a + 1) * 10 ^ length p"
proof (induction p arbitrary: a)
  case Nil
  then show ?case by simp
next
  case (Cons c p)
  then have "nat_of_digits (10 * a + digit_val c) p < (10 * a + digit_val c + 1) * 10 ^ length p" by simp
  also have "\<dots> \<le> (10 * (a + 1)) * 10 ^ length p"
    using digit_val_le [of c] Cons.prems by (intro mult_right_mono) auto
  finally show ?case by (simp add: algebra_simps)
qed

lemma parse_int64_digits:
  assumes "list_all is_digit p" "p \<noteq> []"
  shows "parse_int64 p =
    (if int (nat_of_digits 0 p) \<le> int64_max then Some (int (nat_of_digits 0 p)) else None)"
proof -
  obtain c cs where p: "p = c # cs" using assms(2) by (cases p) auto
  with assms(1) is_digit_sign [of c] have "c \<noteq> CHR ''-''" "c \<noteq> CHR ''+''" by auto
  with p assms show ?thesis
    by (simp add: parse_int64_def parse_digits_def int64_min_def)
qed

lemma trim_space_id: "(\<And>c. c \<in> set s \<Longrightarrow> \<not> is_space c) \<Longrightarrow> trim_space s = s"
proof -
  assume n: "\<And>c. c \<in> set s \<Longrightarrow> \<not> is_space c"
  have d: "dropWhile is_space t = t" if "set t \<subseteq> set s" for t
    using that n by (cases t) auto
  show ?thesis by (simp add: trim_space_def trim_left_by_def trim_right_by_def d)
qed

lemma valid_release_version:
  assumes "valid_release s"
  obtains y m n where "split_on dot s = [y, m, n]" "length y = 4" "length m = 2"
    "list_all is_digit y" "list_all is_digit m" "list_all is_digit n" "n \<noteq> []"
    "parse_version s = parse_components [y, m, n]"
proof -
  from assms obtain y m n where sp: "split_on dot s = [y, m, n]"
    by (auto simp: valid_release_def Let_def length_Suc_conv numeral_3_eq_3)
  with assms have d: "length y = 4" "length m = 2" "list_all is_digit y" "list_all is_digit m"
    "list_all is_digit n" "n \<noteq> []"
    by (auto simp: valid_release_def Let_def)
  have s: "s = y @ dot # m @ dot # n"
    using join_split_on [of dot s] by (simp add: sp)
  have "is_digit c \<or> c = dot" if "c \<in> set s" for c
    using that d by (auto simp: s list_all_iff)
  moreover have "\<not> is_space c \<and> c \<noteq> CHR ''v''" if "is_digit c \<or> c = dot" for c
    using that by (auto simp: is_digit_def is_space_def dot_def)
  ultimately have n: "\<not> is_space c \<and> c \<noteq> CHR ''v''" if "c \<in> set s" for c
    using that by blast
  then have "trim_space s = s" by (intro trim_space_id) blast
  moreover have "\<not> prefix ''v'' s" using n [of "CHR ''v''"] by (auto simp: prefix_def)
  moreover have "s \<noteq> []" by (simp add: s)
  ultimately have "parse_version s = parse_components [y, m, n]"
    by (simp add: parse_version_def trim_prefix_def sp)
  with that sp d show thesis by blast
qed

lemma release_version:
  assumes "valid_release s"
  shows "parse_version s = (case release_of s of None \<Rightarrow> None | Some (Release y m n) \<Rightarrow> Some [int y, int m, int n])"
  using assms
proof (rule valid_release_version)
  fix y m n
  assume sp: "split_on dot s = [y, m, n]" and l: "length y = 4" "length m = 2"
    and d: "list_all is_digit y" "list_all is_digit m" "list_all is_digit n" "n \<noteq> []"
    and pv: "parse_version s = parse_components [y, m, n]"
  have b: "int (nat_of_digits 0 y) \<le> int64_max" "int (nat_of_digits 0 m) \<le> int64_max"
    using nat_of_digits_bound [OF d(1), of 0] nat_of_digits_bound [OF d(2), of 0] l
    by (simp_all add: int64_max_def)
  have ne: "y \<noteq> []" "m \<noteq> []" using l by auto
  show ?thesis
    using assms b ne d by (simp add: pv release_of_def sp parse_int64_digits)
qed

lemma compare_releases:
  assumes "release_of a = Some x" and "release_of b = Some y"
  shows "compare_versions a b > 0 \<longleftrightarrow> y < x"
proof -
  have v: "valid_release a" "valid_release b"
    using assms by (auto simp: release_of_def split: if_splits)
  show ?thesis
    using release_version [OF v(1)] release_version [OF v(2)] assms
    by (cases x; cases y) (auto simp: compare_versions_def)
qed

text \<open>
  \<open>ReleaseNewer\<close> is the date order. It refines the linear order of releases (year, month,
  number): a release is newer than another exactly when it is greater. A string that does not match
  the pattern is never newer, and everything that matches is newer than it. A last component
  beyond the range of a Go \<open>int\<close> matches the pattern and names no release: such a string is never
  newer than another that matches, and every release is newer than it.
\<close>

theorem release_newer_refines:
  "release_newer a b =
     (if valid_release b
      then (case (release_of a, release_of b) of
              (None, _) \<Rightarrow> False
            | (Some x, None) \<Rightarrow> True
            | (Some x, Some y) \<Rightarrow> y < x)
      else valid_release a)"
proof (cases "valid_release a \<and> valid_release b")
  case False
  then show ?thesis by (auto simp: release_newer_def release_of_def)
next
  case True
  then have "release_newer a b \<longleftrightarrow> compare_versions a b > 0" by (simp add: release_newer_def)
  moreover have "compare_versions a b > 0 \<longleftrightarrow>
      (case (release_of a, release_of b) of
         (None, _) \<Rightarrow> False | (Some x, None) \<Rightarrow> True | (Some x, Some y) \<Rightarrow> y < x)"
    using True release_version [of a] release_version [of b]
    by (cases "release_of a"; cases "release_of b")
      (auto simp: compare_versions_def compare_releases split: release_id.splits)
  ultimately show ?thesis using True by simp
qed

text \<open>
  \<open>compareVersions\<close> is a total order of what the versions mean: the sign of the lexicographic
  comparison of the components without trailing zeros, where a string that does not parse is below
  every version. So it is antisymmetric and transitive, and versions that differ in trailing zeros
  are equal.
\<close>

theorem compare_versions_order:
  "compare_versions a b = sign_of_order (version_key a) (version_key b)"
  by (rule compare_versions_sign)

section \<open>The documents an update trusts\<close>

text \<open>
  A fetched document is whole. \<open>fetchDocument\<close> returns exactly the body of a 200 answer of an
  http or https server that was read to its end and is not longer than the limit: nothing is cut
  off, and no other answer is taken.
\<close>

theorem fetch_document_whole:
  "fetch_document net raw limit = Inr body \<longleftrightarrow>
     (\<exists>scheme host. url_parse net raw = Some (scheme, host) \<and> scheme \<in> {''http'', ''https''} \<and> host \<noteq> []
        \<and> http_get net raw = Inr (200, body, False) \<and> length body \<le> limit)"
  by (auto simp: fetch_document_def Let_def split: option.splits sum.splits if_splits)

lemma dropWhile_idem: "dropWhile p (dropWhile p xs) = dropWhile p xs"
  by (induction xs) auto

lemma trim_right_left:
  "dropWhile p (trim_right_by p (dropWhile p s)) = trim_right_by p (dropWhile p s)"
proof (cases "dropWhile p s")
  case Nil
  show ?thesis by (simp only: Nil trim_right_by_def) simp
next
  case (Cons c cs)
  then have c: "\<not> p c" using hd_dropWhile [of p s] by simp
  have "trim_right_by p (c # cs) = c # trim_right_by p cs"
    using c by (simp add: trim_right_by_def dropWhile_append)
  with c Cons show ?thesis by simp
qed

lemma trim_space_idem: "trim_space (trim_space s) = trim_space s"
  unfolding trim_space_def trim_left_by_def
  by (simp add: trim_right_left) (simp add: trim_right_by_def dropWhile_idem)

lemma parse_version_trim: "parse_version (trim_space s) = parse_version s"
  by (simp add: parse_version_def trim_space_idem)

lemma fetched_manifest:
  assumes "fetch_manifest net url = Inr m"
  shows "valid_release (mf_release m)" "0 \<le> mf_total_size m" "mf_schema m \<in> {[], release_manifest_schema}"
    "trim_space (mf_launcher_min m) = [] \<or> (\<exists>v. parse_version (mf_launcher_min m) = Some v)"
  using assms
  by (auto simp: fetch_manifest_def parse_version_trim split: if_splits sum.splits option.splits)

lemma floor_met:
  "meets_launcher_min (Some m) launcher = None \<longleftrightarrow>
     trim_space (mf_launcher_min m) = []
     \<or> (\<exists>f v. version_key (mf_launcher_min m) = Some f \<and> version_key launcher = Some v \<and> f \<le> v)"
proof (cases "parse_version (mf_launcher_min m)")
  case None
  then show ?thesis by (simp add: meets_launcher_min_def launcher_min_refusal_def version_key_def)
next
  case (Some f)
  then have k: "version_key (mf_launcher_min m) = Some (strip_zeros f)" by (simp add: version_key_def)
  show ?thesis
    by (cases "version_key launcher")
      (auto simp: meets_launcher_min_def launcher_min_refusal_def Some k compare_versions_sign sign_of_order_def)
qed

text \<open>
  The launcher floor fails closed. A manifest \<open>FetchManifest\<close> has accepted passes the gate of the
  apply path exactly when it states no floor, or both its floor and the version of the launcher can
  be read and the floor is not above; otherwise the refusal is the one of a launcher that is too
  old, logged with the release, and never the one of an unreadable manifest.
\<close>

theorem fetched_manifest_gate:
  assumes "fetch_manifest net url = Inr m"
  shows "guard_apply m launcher =
    (if trim_space (mf_launcher_min m) = []
        \<or> (\<exists>f v. version_key (mf_launcher_min m) = Some f \<and> version_key launcher = Some v \<and> f \<le> v)
     then (None, [])
     else (Some (IO_error launcher_too_old_message (reason ''launcher_min'') None),
           [(mf_release m, ''launcher_min'')]))"
proof (cases "meets_launcher_min (Some m) launcher")
  case None
  then have "trim_space (mf_launcher_min m) = []
      \<or> (\<exists>f v. version_key (mf_launcher_min m) = Some f \<and> version_key launcher = Some v \<and> f \<le> v)"
    by (simp add: floor_met)
  with None show ?thesis
    by (simp add: guard_apply_def meets_launcher_min_def)
next
  case (Some err)
  then have "\<not> (trim_space (mf_launcher_min m) = []
      \<or> (\<exists>f v. version_key (mf_launcher_min m) = Some f \<and> version_key launcher = Some v \<and> f \<le> v))"
    using floor_met [of m launcher] by simp
  with Some fetched_manifest(4) [OF assms] show ?thesis
    by (auto simp: guard_apply_def meets_launcher_min_def launcher_min_refusal_def split: if_splits)
qed

text \<open>A server that publishes one document, for the witnesses.\<close>

definition sample_net :: "string \<Rightarrow> network" where
  "sample_net body = \<lparr>url_parse = \<lambda>u. Some (''https'', ''example.org''), http_get = \<lambda>u. Inr (200, body, False),
     resolve_url = \<lambda>b r. Some (b @ r)\<rparr>"

definition sample_doc :: "(string \<times> json) list" where
  "sample_doc = [(''launcher_min'', JStr ''1.2''), (''manifest_url'', JStr ''m''), (''release'', JStr ''2026.10.1'')]"

definition sample_manifest :: manifest where
  "sample_manifest = \<lparr>mf_schema = [], mf_release = ''2026.10.1'', mf_previous = None, mf_published = [],
     mf_launcher_min = ''1.2'', mf_engine_version = [], mf_save_version = 0, mf_channel = [], mf_scope = [],
     mf_total_size = 0, mf_files = [], mf_migrations = [], mf_schema_migrations = [], mf_min_browser = None,
     mf_signatures = None, mf_notes = [], mf_notes_url = [], mf_archive = None, mf_archive_sha256 = [],
     mf_raw = encode (JObj sample_doc)\<rparr>"

lemma sample_fields:
  defines "ms \<equiv> map (\<lambda>(k, v). (k, v, encode v)) sample_doc"
  shows "str_field n ms = Some (if n = ''launcher_min'' then ''1.2'' else if n = ''manifest_url'' then ''m''
      else if n = ''release'' then ''2026.10.1'' else [])"
    and "n \<notin> {''launcher_min'', ''manifest_url'', ''release''} \<Longrightarrow> int_field n ms = Some 0"
    and "n \<notin> {''launcher_min'', ''manifest_url'', ''release''} \<Longrightarrow> ptr_field f n ms = Some None"
    and "n \<notin> {''launcher_min'', ''manifest_url'', ''release''} \<Longrightarrow> list_field g n ms = Some []"
proof -
  define r1 r2 r3 where r: "r1 = encode (JStr ''1.2'')" "r2 = encode (JStr ''2026.10.1'')" "r3 = encode (JStr ''m'')"
  have nm: "named n ms = (if n = ''launcher_min'' then [(JStr ''1.2'', r1)] else [])
      @ (if n = ''manifest_url'' then [(JStr ''m'', r3)] else [])
      @ (if n = ''release'' then [(JStr ''2026.10.1'', r2)] else [])" for n
    by (auto simp: named_def ms_def r sample_doc_def to_lower_ascii_def)
  show "str_field n ms = Some (if n = ''launcher_min'' then ''1.2'' else if n = ''manifest_url'' then ''m''
      else if n = ''release'' then ''2026.10.1'' else [])"
    by (simp add: str_field_def typed_field_def nm last_opt_def as_string_def)
  assume n: "n \<notin> {''launcher_min'', ''manifest_url'', ''release''}"
  show "int_field n ms = Some 0" "ptr_field f n ms = Some None" "list_field g n ms = Some []"
    using n by (simp_all add: int_field_def ptr_field_def list_field_def typed_field_def nm last_opt_def)
qed

lemma sample_canonical: "canonical (JObj sample_doc)"
  by code_simp

lemma sample_document: "fetch_document (sample_net (encode (JObj sample_doc))) url max_document_bytes
    = Inr (encode (JObj sample_doc))"
proof -
  have "length (encode (JObj sample_doc)) \<le> 100"
    by (simp add: sample_doc_def encode_string_plain plain_byte_def join_comma_def sort_key_def)
  then show ?thesis by (simp add: fetch_document_def sample_net_def max_document_bytes_def)
qed

lemma sample_texts: "valid_release ''2026.10.1''" "parse_version (trim_space ''1.2'') \<noteq> None"
    "trim_space ''1.2'' \<noteq> []" "trim_space ''m'' \<noteq> []"
  by code_simp+

lemma sample_fetch:
  assumes "trim_space url \<noteq> []"
  shows "fetch_manifest (sample_net (encode (JObj sample_doc))) url = Inr sample_manifest"
proof -
  have d: "decode_document decode_manifest (encode (JObj sample_doc)) = Some (sample_manifest\<lparr>mf_raw := []\<rparr>)"
    unfolding decode_document_encode [OF sample_canonical]
    by (simp add: decode_manifest_def sample_fields sample_manifest_def)
  show ?thesis
    using d assms sample_texts by (simp add: fetch_manifest_def sample_document sample_manifest_def del: encode.simps)
qed

lemma sample_latest:
  assumes "trim_space base \<noteq> []"
  shows "fetch_latest (sample_net (encode (JObj sample_doc))) base
    = Inr \<lparr>lt_release = ''2026.10.1'', lt_manifest_url = (base @ ''latest.json'') @ ''m'', lt_notes_url = []\<rparr>"
proof -
  have d: "decode_document decode_latest (encode (JObj sample_doc))
      = Some \<lparr>lt_release = ''2026.10.1'', lt_manifest_url = ''m'', lt_notes_url = []\<rparr>"
    unfolding decode_document_encode [OF sample_canonical]
    by (simp add: decode_latest_def sample_fields)
  have "resolve_url (sample_net x) a b = Some (a @ b)" for x a b by (simp add: sample_net_def)
  with d assms sample_texts show ?thesis by (simp add: fetch_latest_def sample_document del: encode.simps)
qed

theorem fetched_manifest_gate_witness:
  "guard_apply sample_manifest ''1.1.9''
     = (Some (IO_error launcher_too_old_message (reason ''launcher_min'') None), [(''2026.10.1'', ''launcher_min'')])
   \<and> guard_apply sample_manifest ''1.10'' = (None, [])
   \<and> fetch_manifest (sample_net (encode (JObj sample_doc))) ''https://example.org'' = Inr sample_manifest"
proof -
  have u: "trim_space ''https://example.org'' \<noteq> []" by code_simp
  have k: "version_key ''1.2'' = Some [1, 2]" "version_key ''1.1.9'' = Some [1, 1, 9]"
    "version_key ''1.10'' = Some [1, 10]" "trim_space ''1.2'' \<noteq> []"
    by code_simp+
  show ?thesis
    using fetched_manifest_gate [OF sample_fetch [OF u], of "''1.1.9''"]
      fetched_manifest_gate [OF sample_fetch [OF u], of "''1.10''"] k sample_fetch [OF u]
    by (simp add: sample_manifest_def)
qed

end
