(* ===== verification/Update_Records.thy ===== *)
theory Update_Records
  imports Release
begin

text \<open>
  The records of an update: the pending marker (\<open>update/runtime.go\<close>), how it is written and
  reconciled with a manifest (\<open>intent.go\<close>, \<open>apply.go\<close>), the progress record (\<open>progress.go\<close>), the
  space an update needs, and the counter that retires the rollback copy (\<open>retention.go\<close>).
  Timestamps are left out: no decision reads them.
\<close>

section \<open>The pending marker\<close>

definition pending_schema :: string where "pending_schema = ''kobra.update-pending/1''"
definition progress_schema :: string where "progress_schema = ''kobra.update-progress/1''"
definition retry_budget :: int where "retry_budget = 3"

record pending =
  pn_schema :: string
  pn_from :: string
  pn_target :: string
  pn_manifest_url :: string
  pn_archive_url :: string
  pn_archive_size :: int
  pn_archive_hash :: string
  pn_launcher_version :: string
  pn_retry_count :: int
  pn_last_reason :: string

definition pending_valid :: "pending option \<Rightarrow> bool" where
  "pending_valid po =
     (case po of
        None \<Rightarrow> False
      | Some p \<Rightarrow>
          if pn_schema p \<noteq> pending_schema then False
          else if \<not> valid_release (pn_target p) then False
          else if pn_manifest_url p = [] then False
          else True)"

definition resolve_archive_url :: "network \<Rightarrow> pending option \<Rightarrow> manifest option \<Rightarrow> string" where
  "resolve_archive_url net po mo =
     (case po of
        Some p \<Rightarrow>
          if pn_archive_url p \<noteq> [] then
            (case resolve_url net (pn_manifest_url p) (pn_archive_url p) of
               Some u \<Rightarrow> u | None \<Rightarrow> pn_archive_url p)
          else
            (case Option.bind mo mf_archive of
               None \<Rightarrow> []
             | Some a \<Rightarrow>
                 if ar_url a = [] then []
                 else (case resolve_url net (pn_manifest_url p) (ar_url a) of
                         Some u \<Rightarrow> u | None \<Rightarrow> ar_url a))
      | None \<Rightarrow> [])"

text \<open>\<open>reconcilePending\<close>: the field that no longer agrees.\<close>

definition reconcile_pending :: "network \<Rightarrow> pending \<Rightarrow> manifest option \<Rightarrow> string option" where
  "reconcile_pending net p mo =
     (case mo of
        None \<Rightarrow> Some ''manifest''
      | Some m \<Rightarrow>
          if pn_target p \<noteq> mf_release m then Some ''release''
          else if 0 < pn_archive_size p \<and> declared_archive_size mo \<noteq> pn_archive_size p then Some ''archive_size''
          else if pn_archive_hash p \<noteq> [] \<and> declared_archive_hash mo \<noteq> pn_archive_hash p then Some ''archive_hash''
          else if pn_archive_url p \<noteq> [] then
            (let want = (case resolve_url net (pn_manifest_url p) (pn_archive_url p) of
                           Some u \<Rightarrow> u | None \<Rightarrow> pn_archive_url p);
                 got = resolve_archive_url net (Some p) mo
             in if got \<noteq> [] \<and> want \<noteq> got then Some ''archive_url'' else None)
          else None)"

definition archive_reference :: "manifest option \<Rightarrow> string" where
  "archive_reference mo =
     (case Option.bind mo mf_archive of
        None \<Rightarrow> []
      | Some a \<Rightarrow> if ar_url a \<noteq> [] then ar_url a else ar_name a)"

text \<open>
  \<open>RecordUpdateIntent\<close>: the marker that is written, if any. \<open>dir_ok\<close> and \<open>write_ok\<close> say whether
  the update directory and the marker could be written.
\<close>

record intent_result =
  in_recorded :: bool
  in_target :: string
  in_archive_size :: int
  in_notes_url :: string
  in_detail :: string

definition record_update_intent :: "network \<Rightarrow> bool \<Rightarrow> bool \<Rightarrow> string \<Rightarrow> string \<Rightarrow> string
    \<Rightarrow> kobra_error option \<times> intent_result \<times> pending option" where
  "record_update_intent net dir_ok write_ok base installed launcher =
     (let none = \<lparr>in_recorded = False, in_target = [], in_archive_size = 0, in_notes_url = [], in_detail = []\<rparr> in
      case fetch_latest net base of
        Inl err \<Rightarrow> (Some err, none, None)
      | Inr l \<Rightarrow>
          (let out = none\<lparr>in_notes_url := lt_notes_url l\<rparr> in
           if \<not> release_newer (lt_release l) installed then (None, out\<lparr>in_detail := ''already current''\<rparr>, None)
           else
             (case fetch_manifest net (lt_manifest_url l) of
                Inl err \<Rightarrow> (Some err, out, None)
              | Inr m \<Rightarrow>
                  if \<not> dir_ok \<or> \<not> write_ok then (Some (update_io [] ''io''), out, None)
                  else
                    (None,
                     out\<lparr>in_recorded := True, in_target := mf_release m,
                         in_archive_size := declared_archive_size (Some m),
                         in_detail := ''The update will be applied the next time the launcher starts.''\<rparr>,
                     Some \<lparr>pn_schema = pending_schema, pn_from = installed, pn_target = mf_release m,
                           pn_manifest_url = lt_manifest_url l, pn_archive_url = archive_reference (Some m),
                           pn_archive_size = declared_archive_size (Some m),
                           pn_archive_hash = declared_archive_hash (Some m),
                           pn_launcher_version = launcher, pn_retry_count = 0, pn_last_reason = []\<rparr>))))"

section \<open>Space\<close>

definition mib :: int where "mib = 1048576"

definition required_bytes :: "int \<Rightarrow> int \<Rightarrow> int" where
  "required_bytes archive_size total_size =
     (let a = (if archive_size < 0 then 0 else archive_size);
          t = (if total_size < 0 then 0 else total_size);
          base = wrap64 (wrap64 (a + t) + t);
          headroom = (if 64 * mib < t div 20 then t div 20 else 64 * mib)
      in wrap64 (base + headroom))"

section \<open>Progress\<close>

record progress =
  pg_seq :: int
  pg_phase :: string
  pg_from :: string
  pg_target :: string
  pg_bytes :: int
  pg_total_bytes :: int
  pg_percent :: int
  pg_cancellable :: bool
  pg_message :: string

text \<open>The writer: the record, whether it has been written once, the last phase, and what was written.\<close>

record progress_writer =
  pw_record :: progress
  pw_last_phase :: string
  pw_written :: bool
  pw_file :: "progress list"

definition phase_idle :: string where "phase_idle = ''idle''"
definition phase_download :: string where "phase_download = ''downloading''"
definition phase_verify :: string where "phase_verify = ''verifying''"
definition phase_extract :: string where "phase_extract = ''extracting''"
definition phase_swap :: string where "phase_swap = ''swapping''"
definition phase_complete :: string where "phase_complete = ''complete''"
definition phase_failed :: string where "phase_failed = ''failed''"
definition phase_cancelled :: string where "phase_cancelled = ''cancelled''"

definition initial_progress :: "pending option \<Rightarrow> progress" where
  "initial_progress po =
     (case po of
        None \<Rightarrow> \<lparr>pg_seq = 0, pg_phase = phase_idle, pg_from = [], pg_target = [], pg_bytes = 0,
                 pg_total_bytes = 0, pg_percent = 0, pg_cancellable = True, pg_message = []\<rparr>
      | Some p \<Rightarrow> \<lparr>pg_seq = 0, pg_phase = phase_idle, pg_from = pn_from p, pg_target = pn_target p, pg_bytes = 0,
                   pg_total_bytes = pn_archive_size p, pg_percent = 0, pg_cancellable = True,
                   pg_message = ''The update is waiting to be installed.''\<rparr>)"

definition new_progress_writer :: "pending option \<Rightarrow> progress_writer" where
  "new_progress_writer po =
     \<lparr>pw_record = (initial_progress po)\<lparr>pg_seq := 0\<rparr>, pw_last_phase = [], pw_written = False, pw_file = []\<rparr>"

definition flush :: "progress_writer \<Rightarrow> progress_writer" where
  "flush w =
     (let r = (pw_record w)\<lparr>pg_seq := pg_seq (pw_record w) + 1\<rparr>
      in w\<lparr>pw_record := r, pw_written := True, pw_file := pw_file w @ [r],
           pw_last_phase := (if pg_phase r \<noteq> phase_idle then pg_phase r else pw_last_phase w)\<rparr>)"

text \<open>Division of \<open>int64\<close> values rounds towards zero.\<close>

definition go_div :: "int \<Rightarrow> int \<Rightarrow> int" where
  "go_div a b = (if a < 0 then - (- a div b) else a div b)"

definition percent_of :: "int \<Rightarrow> int \<Rightarrow> int" where
  "percent_of written total_bytes =
     (if total_bytes \<le> 0 then 0
      else if written \<le> 0 then 0
      else if total_bytes \<le> written then 100
      else let p = go_div (wrap64 (written * 100)) total_bytes in if 100 < p then 100 else p)"

definition set_phase :: "string \<Rightarrow> string \<Rightarrow> progress_writer \<Rightarrow> progress_writer" where
  "set_phase phase message w =
     (let r = (pw_record w)\<lparr>pg_phase := phase, pg_message := message, pg_cancellable := (phase = phase_download)\<rparr>;
          r = (if phase = phase_complete then r\<lparr>pg_percent := 100\<rparr> else r)
      in flush (w\<lparr>pw_record := r\<rparr>))"

definition set_bytes :: "int \<Rightarrow> int \<Rightarrow> progress_writer \<Rightarrow> progress_writer" where
  "set_bytes n total_bytes w =
     (let r = pw_record w in
      if pg_phase r = phase_download \<and> pg_bytes r = n \<and> pg_total_bytes r = total_bytes then w
      else flush (w\<lparr>pw_record := r\<lparr>pg_phase := phase_download, pg_bytes := n, pg_total_bytes := total_bytes,
                                   pg_percent := percent_of n total_bytes, pg_cancellable := True\<rparr>\<rparr>))"

section \<open>Retention of the rollback copy\<close>

definition started_retire_count :: int where "started_retire_count = 2"

record started =
  sd_release :: string
  sd_count :: int

text \<open>What the counter reads: the two directories of the game folder, and the record in the sidecar.\<close>

record retention =
  rt_game :: bool
  rt_backup :: bool
  rt_started :: "started option"

definition has_retained_backup :: "retention \<Rightarrow> bool" where
  "has_retained_backup s = (rt_backup s \<and> rt_game s)"

text \<open>
  \<open>NoteSuccessfulStart\<close>; the flags say whether the update directory could be made, the record be
  written, and the backup be removed. The event is the one that is logged.
\<close>

definition note_successful_start :: "bool \<Rightarrow> bool \<Rightarrow> bool \<Rightarrow> string \<Rightarrow> retention \<Rightarrow> string option \<times> retention" where
  "note_successful_start dir_ok write_ok remove_ok installed s =
     (if installed = [] then (None, s)
      else if \<not> dir_ok then (None, s)
      else if \<not> has_retained_backup s then (None, s)
      else
        let count = (case rt_started s of
                       Some prev \<Rightarrow> if sd_release prev = installed \<and> 0 < sd_count prev then wrap64 (sd_count prev + 1) else 1
                     | None \<Rightarrow> 1)
        in if \<not> write_ok then (Some ''update.backup.retained'', s)
           else
             let s1 = s\<lparr>rt_started := Some \<lparr>sd_release = installed, sd_count = count\<rparr>\<rparr>
             in if count < started_retire_count then (Some ''update.backup.retained'', s1)
                else if \<not> remove_ok then (Some ''update.backup.retained'', s1)
                else (Some ''update.backup.retired'', s1\<lparr>rt_backup := False, rt_started := None\<rparr>))"

definition clear_started :: "retention \<Rightarrow> retention" where
  "clear_started s = s\<lparr>rt_started := None\<rparr>"

section \<open>The records agree\<close>

text \<open>
  The comparison of the archive address never refuses anything. \<open>reconcilePending\<close> resolves the
  address in the marker and compares it with \<open>resolveArchiveURL\<close>, which prefers the address in the
  marker: the manifest's address is not looked at, and a release whose archive has moved to another
  address is accepted when release, size and hash agree.
\<close>

theorem reconcile_ignores_archive_address:
  "reconcile_pending net p (Some m) =
     (if pn_target p \<noteq> mf_release m then Some ''release''
      else if 0 < pn_archive_size p \<and> declared_archive_size (Some m) \<noteq> pn_archive_size p then Some ''archive_size''
      else if pn_archive_hash p \<noteq> [] \<and> declared_archive_hash (Some m) \<noteq> pn_archive_hash p then Some ''archive_hash''
      else None)"
  by (auto simp: reconcile_pending_def resolve_archive_url_def Let_def split: option.splits)

lemma trim_space_Nil: "trim_space [] = []"
  by (simp add: trim_space_def trim_left_by_def trim_right_by_def)

text \<open>
  A recorded intent can be applied. The marker that \<open>RecordUpdateIntent\<close> writes is valid, and the
  manifest its address gives is one it agrees with: if nothing is published in between, the next
  start does not refuse it as invalid or drifted.
\<close>

theorem recorded_intent_applies:
  assumes "record_update_intent net dir_ok write_ok base installed launcher = (err, out, Some p)"
  shows "pending_valid (Some p)
    \<and> (\<exists>m. fetch_manifest net (pn_manifest_url p) = Inr m \<and> reconcile_pending net p (Some m) = None)"
proof -
  obtain l where l: "fetch_latest net base = Inr l" "release_newer (lt_release l) installed"
    using assms by (auto simp: record_update_intent_def Let_def split: sum.splits if_splits)
  obtain m where lm: "fetch_manifest net (lt_manifest_url l) = Inr m"
    using assms l by (auto simp: record_update_intent_def Let_def split: sum.splits if_splits)
  have p: "p = \<lparr>pn_schema = pending_schema, pn_from = installed, pn_target = mf_release m,
                pn_manifest_url = lt_manifest_url l, pn_archive_url = archive_reference (Some m),
                pn_archive_size = declared_archive_size (Some m), pn_archive_hash = declared_archive_hash (Some m),
                pn_launcher_version = launcher, pn_retry_count = 0, pn_last_reason = []\<rparr>"
    using assms l lm by (auto simp: record_update_intent_def Let_def split: if_splits)
  have "lt_manifest_url l \<noteq> []" using lm by (auto simp: fetch_manifest_def trim_space_Nil)
  moreover have "reconcile_pending net p (Some m) = None"
    by (simp add: p reconcile_pending_def resolve_archive_url_def split: option.splits)
  ultimately show ?thesis using lm fetched_manifest(1) [OF lm] by (simp add: p pending_valid_def)
qed

text \<open>
  The percentage is honest. As long as the total times one hundred fits in an \<open>int64\<close>, it is
  between 0 and 100, and 100 exactly when everything is there.
\<close>

theorem percent_of_complete:
  assumes "t \<le> int64_max div 100"
  shows "percent_of n t \<in> {0..100} \<and> (percent_of n t = 100 \<longleftrightarrow> 0 < t \<and> t \<le> n)"
proof (cases "0 < t \<and> 0 < n \<and> n < t")
  case False
  then show ?thesis by (auto simp: percent_of_def)
next
  case True
  then have n: "0 \<le> n * 100" "n * 100 < t * 100" "t * 100 \<le> int64_max" using assms by (auto simp: int64_max_def)
  then have w: "wrap64 (n * 100) = n * 100" by (intro wrap64_id) (auto simp: int64_max_def)
  have "n * 100 div t < 100"
  proof (rule ccontr)
    assume "\<not> n * 100 div t < 100"
    then have "100 * t \<le> (n * 100 div t) * t" using True by (intro mult_right_mono) auto
    also have "\<dots> \<le> n * 100"
      using True pos_mod_sign [of t "n * 100"] by (simp add: minus_mod_eq_div_mult [symmetric])
    finally show False using n by simp
  qed
  moreover have "0 \<le> n * 100 div t" using n True by (simp add: pos_imp_zdiv_nonneg_iff)
  ultimately show ?thesis using True n by (auto simp: percent_of_def go_div_def w Let_def)
qed

section \<open>The counter\<close>

datatype retention_op =
    Start bool bool bool string
  | Install
  | Revert
  | RolledBack

fun retention_step :: "retention_op \<Rightarrow> retention \<Rightarrow> retention" where
  "retention_step (Start d w r rel) s = snd (note_successful_start d w r rel s)"
| "retention_step Install s = s\<lparr>rt_game := True, rt_backup := True\<rparr>"
| "retention_step Revert s = s\<lparr>rt_game := True, rt_backup := False\<rparr>"
| "retention_step RolledBack s = clear_started (s\<lparr>rt_backup := False\<rparr>)"

fun starts_of :: "string \<Rightarrow> retention_op list \<Rightarrow> nat" where
  "starts_of rel [] = 0"
| "starts_of rel (Start d w r rel' # ops) = (if rel' = rel then 1 else 0) + starts_of rel ops"
| "starts_of rel (_ # ops) = starts_of rel ops"

lemma starts_of_append: "starts_of rel (xs @ ys) = starts_of rel xs + starts_of rel ys"
  by (induction rel xs rule: starts_of.induct) auto

lemma started_counted:
  assumes "rt_started s = None" and "rt_started (fold retention_step ops s) = Some y"
  shows "0 < starts_of (sd_release y) ops"
  using assms(2)
proof (induction ops arbitrary: y rule: rev_induct)
  case Nil
  with assms(1) show ?case by simp
next
  case (snoc op ops)
  then show ?case
    by (cases op)
      (auto simp: starts_of_append clear_started_def note_successful_start_def Let_def split: if_splits option.splits)
qed

text \<open>
  The rollback copy outlives the first start. From a state without a record, whatever is
  installed, reverted, rolled back or started in between, a start that removes the copy is at
  least the second recorded start of that release. (It need not be the second one since the copy
  was made: the counter is kept across a revert by hand and a new install of the same release.)
\<close>

theorem backup_retired_after_two_starts:
  assumes "rt_started s = None"
    and "fst (note_successful_start d w r rel (fold retention_step ops s)) = Some ''update.backup.retired''"
  shows "2 \<le> starts_of rel (ops @ [Start d w r rel])"
proof -
  obtain y where "rt_started (fold retention_step ops s) = Some y" "sd_release y = rel"
    using assms(2) by (auto simp: note_successful_start_def Let_def started_retire_count_def
        split: if_splits option.splits)
  then have "0 < starts_of rel ops" using started_counted [OF assms(1)] by blast
  then show ?thesis by (simp add: starts_of_append)
qed

definition fresh_retention :: retention where
  "fresh_retention = \<lparr>rt_game = True, rt_backup = True, rt_started = None\<rparr>"

theorem backup_retired_after_two_starts_witness:
  "fst (note_successful_start True True True ''b'' (fold retention_step [Start True True True ''b'', Revert, Install] fresh_retention))
     = Some ''update.backup.retired''
   \<and> starts_of ''b'' ([Start True True True ''b'', Revert, Install] @ [Start True True True ''b'']) \<ge> 2"
proof -
  have r: "fst (note_successful_start True True True ''b'' (fold retention_step [Start True True True ''b'', Revert, Install] fresh_retention))
     = Some ''update.backup.retired''"
    by (simp add: fresh_retention_def note_successful_start_def has_retained_backup_def started_retire_count_def wrap64_def)
  show ?thesis
    using r backup_retired_after_two_starts [OF _ r] by (simp add: fresh_retention_def)
qed

theorem percent_of_complete_witness:
  "percent_of 999 1000 \<in> {0..100} \<and> \<not> percent_of 999 1000 = 100"
  using percent_of_complete [of 1000 999] by (simp add: int64_max_def)

theorem recorded_intent_applies_witness:
  "\<exists>err out p. record_update_intent (sample_net (encode (JObj sample_doc))) True True ''https://x/'' ''2026.09.4'' ''1.2''
     = (err, out, Some p) \<and> pn_target p = ''2026.10.1'' \<and> pending_valid (Some p)"
proof -
  let ?net = "sample_net (encode (JObj sample_doc))"
  have t: "trim_space ''https://x/'' \<noteq> []" "trim_space ''https://x/latest.jsonm'' \<noteq> []"
    "release_newer ''2026.10.1'' ''2026.09.4''"
    by code_simp+
  have "\<exists>err out p. record_update_intent ?net True True ''https://x/'' ''2026.09.4'' ''1.2'' = (err, out, Some p)
      \<and> pn_target p = ''2026.10.1''"
    using t sample_latest [OF t(1)] sample_fetch [OF t(2)]
    by (simp add: record_update_intent_def sample_manifest_def del: encode.simps)
  then show ?thesis using recorded_intent_applies by blast
qed

end
