(* ===== verification/Update_Download.thy ===== *)
theory Update_Download
  imports Update_Records Sha256
begin

text \<open>
  \<open>update/download.go\<close> and the watchdog of \<open>stall.go\<close>: the resumable download of an archive. The
  answer of the server is an argument: its status and headers, the bytes it sends in the pieces they
  arrive in, and how the stream ends. So are the polls of the cancel flag and the outcomes of the
  writes, each a list that is consumed from the front. The state is the partial file and the record
  beside it.
\<close>

section \<open>The record of a partial download\<close>

definition meta_schema :: string where "meta_schema = ''kobra.update-download/1''"

record download_meta =
  dm_schema :: string
  dm_url :: string
  dm_hash :: string
  dm_size :: int
  dm_written :: int
  dm_etag :: string
  dm_last_modified :: string

definition meta_matches :: "download_meta option \<Rightarrow> string \<Rightarrow> string \<Rightarrow> int \<Rightarrow> bool" where
  "meta_matches dmo url hash want =
     (case dmo of
        None \<Rightarrow> False
      | Some dm \<Rightarrow>
          if dm_schema dm \<noteq> meta_schema then False
          else if dm_url dm \<noteq> url \<or> dm_size dm \<noteq> want then False
          else if hash \<noteq> [] \<and> dm_hash dm \<noteq> hash then False
          else 0 < dm_written dm \<and> dm_written dm < want)"

section \<open>Limits and refusals\<close>

text \<open>\<open>DlRange\<close> is an error of \<open>validateContentRange\<close>, which wraps no sentinel.\<close>

datatype download_error = DlCancelled | DlNoSize | DlTooLarge | DlInsecure | DlFailed | DlRange

definition gib :: int where "gib = 1073741824"
definition default_max_archive_bytes :: int where "default_max_archive_bytes = 8 * gib"
definition min_download_timeout :: int where "min_download_timeout = 300 * second"
definition min_download_rate :: int where "min_download_rate = 65536"
definition dl_stall_timeout :: int where "dl_stall_timeout = 30 * second"

definition download_timeout :: "int \<Rightarrow> int" where
  "download_timeout want =
     (if 0 < want then
        (let rate = wrap64 (go_div want min_download_rate * second)
         in if min_download_timeout < rate then rate else min_download_timeout)
      else min_download_timeout)"

definition stall_timeout :: "int \<Rightarrow> int" where
  "stall_timeout t = (if t \<le> 0 then dl_stall_timeout else t)"

text \<open>The redirect policy of the archive client, on the schemes of the hops so far and the next one.\<close>

definition download_redirect_refused :: "string list \<Rightarrow> string \<Rightarrow> bool" where
  "download_redirect_refused via next_scheme =
     (if max_redirects \<le> length via then True
      else via \<noteq> [] \<and> hd via = ''https'' \<and> next_scheme \<noteq> ''https'')"

text \<open>\<open>net/url\<close> and \<open>net.ParseIP\<close>: scheme, host and host name of an address; whether a host is a loopback IP.\<close>

record url_env =
  ue_parse :: "string \<Rightarrow> (string \<times> string \<times> string) option"
  ue_loopback_ip :: "string \<Rightarrow> bool"

definition is_loopback_host :: "url_env \<Rightarrow> string \<Rightarrow> bool" where
  "is_loopback_host ue h = (h = ''localhost'' \<or> ue_loopback_ip ue h)"

definition check_archive_url :: "url_env \<Rightarrow> string \<Rightarrow> bool \<Rightarrow> download_error option" where
  "check_archive_url ue url allow_insecure =
     (case ue_parse ue url of
        None \<Rightarrow> Some DlFailed
      | Some (scheme, host, hostname) \<Rightarrow>
          if host = [] then Some DlFailed
          else if scheme = ''https'' then None
          else if scheme = ''http'' then
            (if allow_insecure \<or> is_loopback_host ue hostname then None else Some DlInsecure)
          else Some DlInsecure)"

section \<open>The transfer\<close>

text \<open>How the context of the request stands: it runs, its deadline has passed, or it was cancelled.\<close>

datatype ctx_state = CtxLive | CtxDeadline | CtxCanceled

datatype body_event = Bytes string | Broken

record response =
  rs_status :: nat
  rs_content_length :: int
  rs_content_range :: string
  rs_etag :: string
  rs_last_modified :: string
  rs_body :: "body_event list"

text \<open>
  What the run meets: the answer (\<open>None\<close> when the request fails), the state of the context when an error is
  examined, the polls of \<open>ShouldCancel\<close>, the writes (\<open>Some k\<close> fails after \<open>k\<close> bytes), and whether the old
  part can be read again, the file opened and synced, the record written and files removed.
\<close>

record transfer_env =
  te_answer :: "response option"
  te_ctx :: ctx_state
  te_polls :: "bool list"
  te_writes :: "nat option list"
  te_preamble_ok :: bool
  te_open_ok :: bool
  te_sync_ok :: bool
  te_meta_ok :: bool
  te_remove_ok :: bool

record partial =
  pt_file :: "string option"
  pt_meta :: "download_meta option"

definition poll :: "bool list \<Rightarrow> bool" where
  "poll bs = (case bs of [] \<Rightarrow> False | b # _ \<Rightarrow> b)"

definition next_write :: "nat option list \<Rightarrow> nat option" where
  "next_write ws = (case ws of [] \<Rightarrow> None | w # _ \<Rightarrow> w)"

definition cancel_or_timeout :: "ctx_state \<Rightarrow> bool list \<Rightarrow> download_error" where
  "cancel_or_timeout ctx polls =
     (if poll polls then DlCancelled
      else if ctx = CtxDeadline then DlFailed
      else DlCancelled)"

text \<open>What an error of the client or of the body turns into.\<close>

definition stream_error :: "ctx_state \<Rightarrow> bool list \<Rightarrow> download_error" where
  "stream_error ctx polls = (if ctx = CtxLive then DlFailed else cancel_or_timeout ctx polls)"

definition content_range_start :: "string \<Rightarrow> int option" where
  "content_range_start cr =
     (if cr = [] then None
      else let spec = trim_prefix ''bytes '' cr
           in case index_byte spec slash of
                None \<Rightarrow> None
              | Some i \<Rightarrow>
                  (let span = take i spec
                   in case index_byte span (CHR ''-'') of
                        None \<Rightarrow> None
                      | Some j \<Rightarrow> parse_int64 (trim_space (take j span))))"

definition validate_content_range :: "response \<Rightarrow> nat \<Rightarrow> bool" where
  "validate_content_range rs existing = (content_range_start (rs_content_range rs) = Some (int existing))"

definition record_partial ::
    "transfer_env \<Rightarrow> string \<Rightarrow> string \<Rightarrow> nat \<Rightarrow> nat \<Rightarrow> response \<Rightarrow> partial \<Rightarrow> partial" where
  "record_partial te url hash want written rs p =
     (if written = 0 \<or> \<not> te_meta_ok te then p
      else p\<lparr>pt_meta := Some \<lparr>dm_schema = meta_schema, dm_url = url, dm_hash = hash, dm_size = int want,
              dm_written = int written, dm_etag = rs_etag rs, dm_last_modified = rs_last_modified rs\<rparr>\<rparr>)"

definition buffer_size :: nat where "buffer_size = 262144"

text \<open>Why the read loop stops; a failed write names the bytes it left behind.\<close>

datatype loop_end = LoopDone | LoopCancelled | LoopWriteFailed string | LoopBroken

text \<open>
  The read loop: \<open>content\<close> is the file so far. A piece longer than the buffer, or than what is still
  wanted, is read in several turns.
\<close>

function read_loop ::
    "nat \<Rightarrow> bool list \<Rightarrow> nat option list \<Rightarrow> body_event list \<Rightarrow> string \<Rightarrow> loop_end \<times> string \<times> bool list" where
  "read_loop want polls writes body content =
     (if want \<le> length content then (LoopDone, content, polls)
      else if poll polls then (LoopCancelled, content, tl polls)
      else case body of
        [] \<Rightarrow> (LoopDone, content, tl polls)
      | Broken # _ \<Rightarrow> (LoopBroken, content, tl polls)
      | Bytes s # later \<Rightarrow>
          (let n = min buffer_size (want - length content)
           in if s = [] then read_loop want (tl polls) writes later content
              else case next_write writes of
                Some k \<Rightarrow> (LoopWriteFailed (take k (take n s)), content, tl polls)
              | None \<Rightarrow> read_loop want (tl polls) (tl writes)
                         (if drop n s = [] then later else Bytes (drop n s) # later) (content @ take n s)))"
  by pat_completeness auto
termination
  by (relation "measure (\<lambda>(want, polls, writes, body, content).
        sum_list (map (\<lambda>e. case e of Bytes s \<Rightarrow> Suc (length s) | Broken \<Rightarrow> 1) body))")
    (auto simp: buffer_size_def)

declare read_loop.simps [simp del]

text \<open>\<open>tr_reported\<close> says that the progress callback got the final count; the ticks before it are left out.\<close>

record transferred =
  tr_error :: "download_error option"
  tr_written :: nat
  tr_sum :: string
  tr_resumed :: bool
  tr_reported :: bool

definition refused_transfer :: "download_error \<Rightarrow> nat \<Rightarrow> partial \<Rightarrow> transferred \<times> partial" where
  "refused_transfer e n p = (\<lparr>tr_error = Some e, tr_written = n, tr_sum = [], tr_resumed = False, tr_reported = False\<rparr>, p)"

definition remove_file :: "transfer_env \<Rightarrow> partial \<Rightarrow> partial" where
  "remove_file te p = (if te_remove_ok te then p\<lparr>pt_file := None\<rparr> else p)"

definition remove_meta :: "transfer_env \<Rightarrow> partial \<Rightarrow> partial" where
  "remove_meta te p = (if te_remove_ok te then p\<lparr>pt_meta := None\<rparr> else p)"

text \<open>The part of \<open>transfer\<close> after the answer is accepted: \<open>start\<close> bytes are kept and the rest is appended.\<close>

definition receive ::
    "transfer_env \<Rightarrow> string \<Rightarrow> string \<Rightarrow> nat \<Rightarrow> nat \<Rightarrow> bool \<Rightarrow> response \<Rightarrow> partial \<Rightarrow> transferred \<times> partial" where
  "receive te url hash want start resumed rs p =
     (if 0 < start \<and> \<not> te_preamble_ok te then refused_transfer DlFailed 0 (remove_file te p)
      else if \<not> te_open_ok te then refused_transfer DlFailed start p
      else
        let kept = (if 0 < start then (case pt_file p of Some c \<Rightarrow> c | None \<Rightarrow> []) else []);
            result = (\<lambda>e content sum.
              \<lparr>tr_error = e, tr_written = length content, tr_sum = sum, tr_resumed = resumed, tr_reported = False\<rparr>);
            noted = (\<lambda>content. record_partial te url hash want (length content) rs (p\<lparr>pt_file := Some content\<rparr>))
        in case read_loop want (te_polls te) (te_writes te) (rs_body rs) kept of
             (LoopCancelled, content, _) \<Rightarrow> (result (Some DlCancelled) content [], noted content)
           | (LoopWriteFailed junk, content, _) \<Rightarrow>
               (result (Some DlFailed) content [], p\<lparr>pt_file := Some (content @ junk)\<rparr>)
           | (LoopBroken, content, polls) \<Rightarrow>
               (result (Some (stream_error (te_ctx te) polls)) content [], noted content)
           | (LoopDone, content, _) \<Rightarrow>
               if \<not> te_sync_ok te then (result (Some DlFailed) content [], p\<lparr>pt_file := Some content\<rparr>)
               else if length content < want then
                 (result (Some DlFailed) content (sha256_hex content), noted content)
               else (result None content (sha256_hex content), noted content))"

definition transfer ::
    "transfer_env \<Rightarrow> string \<Rightarrow> string \<Rightarrow> nat \<Rightarrow> nat \<Rightarrow> partial \<Rightarrow> transferred \<times> partial" where
  "transfer te url hash want existing p =
     (case te_answer te of
        None \<Rightarrow> refused_transfer (stream_error (te_ctx te) (te_polls te)) existing p
      | Some rs \<Rightarrow>
          if rs_status rs \<noteq> 200 \<and> rs_status rs \<noteq> 206 then refused_transfer DlFailed existing p
          else if 0 < rs_content_length rs \<and> rs_status rs = 200 \<and> int want < rs_content_length rs then
            refused_transfer DlFailed existing p
          else if rs_status rs = 206 \<and> existing = 0 then refused_transfer DlFailed 0 p
          else if rs_status rs = 206 then
            (if validate_content_range rs existing then receive te url hash want existing True rs p
             else refused_transfer DlRange existing p)
          else receive te url hash want 0 False rs p)"

section \<open>The download\<close>

record download_options =
  do_max_bytes :: int
  do_expected_hash :: string
  do_allow_insecure :: bool
  do_no_resume :: bool

text \<open>The partial that a run continues, and what is cleared when there is none.\<close>

definition resumable :: "string \<Rightarrow> string \<Rightarrow> int \<Rightarrow> partial \<Rightarrow> nat option" where
  "resumable url hash want p =
     (if meta_matches (pt_meta p) url hash want then
        (case (pt_meta p, pt_file p) of
           (Some dm, Some c) \<Rightarrow> if int (length c) = dm_written dm then Some (length c) else None
         | _ \<Rightarrow> None)
      else None)"

definition prepare_partial :: "transfer_env \<Rightarrow> string \<Rightarrow> string \<Rightarrow> int \<Rightarrow> bool \<Rightarrow> partial \<Rightarrow> nat \<times> partial" where
  "prepare_partial te url hash want no_resume p =
     (if no_resume then (0, remove_meta te (remove_file te p))
      else case resumable url hash want p of
        Some n \<Rightarrow> (n, p)
      | None \<Rightarrow>
          if meta_matches (pt_meta p) url hash want then (0, remove_meta te (remove_file te p))
          else (0, remove_meta te p))"

definition refused_download :: "download_error \<Rightarrow> partial \<Rightarrow> transferred \<times> partial" where
  "refused_download e p = refused_transfer e 0 p"

definition download_archive ::
    "url_env \<Rightarrow> download_options \<Rightarrow> transfer_env \<Rightarrow> string \<Rightarrow> string \<Rightarrow> int \<Rightarrow> partial \<Rightarrow> transferred \<times> partial" where
  "download_archive ue opts te url dest want p =
     (case check_archive_url ue url (do_allow_insecure opts) of
        Some e \<Rightarrow> refused_download e p
      | None \<Rightarrow>
          if want \<le> 0 then refused_download DlNoSize p
          else if (if do_max_bytes opts \<le> 0 then default_max_archive_bytes else do_max_bytes opts) < want then
            refused_download DlTooLarge p
          else if trim_space dest = [] then refused_download DlFailed p
          else
            let (existing, p1) = prepare_partial te url (do_expected_hash opts) want (do_no_resume opts) p;
                (tr, p2) = transfer te url (do_expected_hash opts) (nat want) existing p1
            in if tr_error tr = None \<and> int (tr_written tr) \<noteq> want
               then (tr\<lparr>tr_error := Some DlFailed\<rparr>, p2) else (tr\<lparr>tr_reported := True\<rparr>, p2))"

section \<open>The read loop\<close>

text \<open>The bytes a body sends before it breaks.\<close>

fun sent :: "body_event list \<Rightarrow> string" where
  "sent [] = []"
| "sent (Bytes s # es) = s @ sent es"
| "sent (Broken # es) = []"

definition after_loop :: "loop_end \<times> string \<times> bool list \<Rightarrow> string" where
  "after_loop r = (case r of (LoopWriteFailed junk, content, _) \<Rightarrow> content @ junk | (_, content, _) \<Rightarrow> content)"

lemma read_loop_empty:
  "\<not> want \<le> length content \<Longrightarrow> \<not> poll polls \<Longrightarrow>
    read_loop want polls writes (Bytes [] # later) content = read_loop want (tl polls) writes later content"
  by (subst read_loop.simps) simp

lemma read_loop_put:
  "\<not> want \<le> length content \<Longrightarrow> \<not> poll polls \<Longrightarrow> s \<noteq> [] \<Longrightarrow> next_write writes = None \<Longrightarrow>
    n = min buffer_size (want - length content) \<Longrightarrow>
    read_loop want polls writes (Bytes s # later) content
      = read_loop want (tl polls) (tl writes) (if drop n s = [] then later else Bytes (drop n s) # later)
          (content @ take n s)"
  by (subst read_loop.simps) (simp add: Let_def)

lemma read_loop_fail:
  "\<not> want \<le> length content \<Longrightarrow> \<not> poll polls \<Longrightarrow> s \<noteq> [] \<Longrightarrow> next_write writes = Some k \<Longrightarrow>
    read_loop want polls writes (Bytes s # later) content
      = (LoopWriteFailed (take k (take (want - length content) (take buffer_size s))), content, tl polls)"
  by (subst read_loop.simps) (simp add: Let_def min.commute)

lemma sent_left: "sent (if drop n s = [] then later else Bytes (drop n s) # later) = drop n s @ sent later"
  by auto

text \<open>The loop only adds bytes the body sent, in order, and never more than the wanted size.\<close>

definition loop_adds :: "nat \<Rightarrow> string \<Rightarrow> string \<Rightarrow> string \<Rightarrow> bool" where
  "loop_adds want content source after =
     (prefix content after \<and> prefix after (content @ source) \<and> (length content \<le> want \<longrightarrow> length after \<le> want))"

lemma read_loop_adds: "loop_adds want content (sent body) (after_loop (read_loop want polls writes body content))"
proof (induction want polls writes body content rule: read_loop.induct)
  case (1 want polls writes body content)
  show ?case
  proof (cases "\<not> want \<le> length content \<and> \<not> poll polls \<and> (\<exists>s later. body = Bytes s # later)")
    case False
    then have "after_loop (read_loop want polls writes body content) = content"
      by (auto simp: read_loop.simps [of want polls writes body content] after_loop_def
          split: list.splits body_event.splits)
    then show ?thesis by (simp add: loop_adds_def)
  next
    case True
    then obtain s later where b: "body = Bytes s # later" by blast
    define n where "n = min buffer_size (want - length content)"
    consider (empty) "s = []" | (failed) k where "s \<noteq> []" "next_write writes = Some k"
      | (put) "s \<noteq> []" "next_write writes = None"
      by (cases "next_write writes") auto
    then show ?thesis
    proof cases
      case empty
      with True b "1.IH"(1) [of "Bytes s" later s n] show ?thesis
        by (simp add: n_def read_loop_empty)
    next
      case failed
      then show ?thesis
        using True b
        by (auto simp: read_loop_fail loop_adds_def after_loop_def take_is_prefix
            intro: prefix_order.trans [of _ s])
    next
      case put
      have "loop_adds want (content @ take n s) (drop n s @ sent later)
              (after_loop (read_loop want polls writes body content))"
        using "1.IH"(2) [OF _ _ b refl n_def put] True
        unfolding b read_loop_put [OF conjunct1 [OF True] conjunct1 [OF conjunct2 [OF True]] put n_def] sent_left
        by blast
      moreover have "take n s @ drop n s @ sent later = s @ sent later"
        by (simp flip: append_assoc)
      moreover have "length content \<le> want \<Longrightarrow> length (content @ take n s) \<le> want"
        by (simp add: n_def)
      ultimately show ?thesis
        using append_prefixD unfolding loop_adds_def b by auto
    qed
  qed
qed

section \<open>What a download leaves on disk\<close>

definition kept_part :: "nat \<Rightarrow> partial \<Rightarrow> string" where
  "kept_part start p = (if 0 < start then (case pt_file p of Some c \<Rightarrow> c | None \<Rightarrow> []) else [])"

lemma record_partial_file [simp]: "pt_file (record_partial te url hash want n rs p) = pt_file p"
  by (simp add: record_partial_def)

text \<open>Either the file is as the transfer found it, removed, or the kept part with bytes of the body behind it.\<close>

definition grown :: "nat \<Rightarrow> string \<Rightarrow> string \<Rightarrow> transferred \<Rightarrow> partial \<Rightarrow> bool" where
  "grown want kept source tr q =
     (case pt_file q of None \<Rightarrow> False
      | Some c \<Rightarrow> loop_adds want kept source c
          \<and> (tr_error tr = None \<longrightarrow> tr_written tr = length c \<and> want \<le> length c \<and> tr_sum tr = sha256_hex c))"

lemma receive_grows:
  assumes "receive te url hash want start resumed rs p = (tr, q)"
  shows "(tr_error tr \<noteq> None \<and> (q = p \<or> pt_file q = None))
    \<or> grown want (kept_part start p) (sent (rs_body rs)) tr q"
proof -
  obtain e content polls where r: "read_loop want (te_polls te) (te_writes te) (rs_body rs) (kept_part start p)
      = (e, content, polls)" by (cases "read_loop want (te_polls te) (te_writes te) (rs_body rs) (kept_part start p)")
  have a: "loop_adds want (kept_part start p) (sent (rs_body rs)) (after_loop (e, content, polls))"
    using read_loop_adds [of want "kept_part start p"] r by metis
  show ?thesis
    using assms a
    by (cases e) (auto simp: receive_def kept_part_def [symmetric] r Let_def refused_transfer_def remove_file_def
        grown_def after_loop_def split: if_splits)
qed

lemma transfer_grows:
  assumes "transfer te url hash want existing p = (tr, q)"
  shows "(tr_error tr \<noteq> None \<and> (q = p \<or> pt_file q = None))
    \<or> (\<exists>rs. te_answer te = Some rs \<and> (rs_status rs = 206 \<longrightarrow> validate_content_range rs existing)
         \<and> grown want (if rs_status rs = 206 then kept_part existing p else []) (sent (rs_body rs)) tr q)"
proof (cases "\<exists>rs start resumed. te_answer te = Some rs \<and> (rs_status rs = 206 \<longrightarrow> validate_content_range rs existing)
      \<and> start = (if rs_status rs = 206 then existing else 0)
      \<and> receive te url hash want start resumed rs p = (tr, q)")
  case True
  then obtain rs start resumed where t: "te_answer te = Some rs" "rs_status rs = 206 \<longrightarrow> validate_content_range rs existing"
    "start = (if rs_status rs = 206 then existing else 0)"
    "receive te url hash want start resumed rs p = (tr, q)" by blast
  have "kept_part 0 p = []" by (simp add: kept_part_def)
  then show ?thesis using receive_grows [OF t(4)] t(1-3) by auto
next
  case False
  then have "tr_error tr \<noteq> None \<and> q = p"
    using assms by (auto simp: transfer_def refused_transfer_def split: option.splits if_splits)
  then show ?thesis by blast
qed

lemma resumable_SomeD:
  "resumable url hash want p = Some n \<Longrightarrow>
    \<exists>c. pt_file p = Some c \<and> length c = n \<and> 0 < n \<and> int n < want"
  by (auto simp: resumable_def meta_matches_def split: if_splits option.splits)

lemma prepare_partial_file:
  assumes "prepare_partial te url hash want no_resume p = (existing, p1)"
  shows "(resumable url hash want p = Some existing \<and> p1 = p)
    \<or> (existing = 0 \<and> (pt_file p1 = pt_file p \<or> pt_file p1 = None) \<and> (pt_meta p1 = pt_meta p \<or> pt_meta p1 = None))"
  using assms
  by (auto simp: prepare_partial_def remove_meta_def remove_file_def split: if_splits option.splits)

text \<open>A download either is refused, leaving the file alone or clearing it, or grows the part it prepared.\<close>

lemma download_cases:
  assumes "download_archive ue opts te url dest want p = (tr, q)"
  shows "(tr_error tr \<noteq> None \<and> q = p)
    \<or> (\<exists>existing p1. prepare_partial te url (do_expected_hash opts) want (do_no_resume opts) p = (existing, p1)
         \<and> 0 < want
         \<and> ((tr_error tr \<noteq> None \<and> (q = p1 \<or> pt_file q = None))
            \<or> (\<exists>rs. te_answer te = Some rs \<and> (rs_status rs = 206 \<longrightarrow> validate_content_range rs existing)
                 \<and> grown (nat want) (if rs_status rs = 206 then kept_part existing p1 else []) (sent (rs_body rs)) tr q
                 \<and> (tr_error tr = None \<longrightarrow> int (tr_written tr) = want))))"
proof -
  obtain existing p1 where p1: "prepare_partial te url (do_expected_hash opts) want (do_no_resume opts) p = (existing, p1)"
    by fastforce
  obtain t q' where t: "transfer te url (do_expected_hash opts) (nat want) existing p1 = (t, q')" by fastforce
  define tr' where "tr' = (if tr_error t = None \<and> int (tr_written t) \<noteq> want then t\<lparr>tr_error := Some DlFailed\<rparr>
    else t\<lparr>tr_reported := True\<rparr>)"
  have early: "(tr_error tr \<noteq> None \<and> q = p) \<or> (0 < want \<and> tr = tr' \<and> q = q')"
    using assms
    by (auto simp: download_archive_def p1 t tr'_def refused_download_def refused_transfer_def
        split: option.splits if_splits)
  have later: "grown n k src t q' \<Longrightarrow> grown n k src tr' q'" for n k src
    by (auto simp: grown_def tr'_def split: option.splits)
  have "tr_error t \<noteq> None \<Longrightarrow> tr_error tr' \<noteq> None" "tr_error tr' = None \<longrightarrow> int (tr_written tr') = want"
    by (auto simp: tr'_def)
  with early later transfer_grows [OF t] p1 show ?thesis by metis
qed

text \<open>
  What a finished or failed download leaves: a success is a file of exactly the declared size whose digest
  is the one returned; a failure leaves the file it found, no file, or at most the declared size.
\<close>

definition download_result_ok :: "int \<Rightarrow> partial \<Rightarrow> transferred \<times> partial \<Rightarrow> bool" where
  "download_result_ok want p r =
     (case tr_error (fst r) of
        None \<Rightarrow>
          (case pt_file (snd r) of
             None \<Rightarrow> False
           | Some c \<Rightarrow> int (length c) = want \<and> tr_written (fst r) = length c \<and> tr_sum (fst r) = sha256_hex c)
      | Some _ \<Rightarrow>
          pt_file (snd r) = pt_file p
          \<or> (case pt_file (snd r) of None \<Rightarrow> True | Some c \<Rightarrow> int (length c) \<le> want))"

text \<open>
  Whatever the server, the network and the disk do, a download that succeeds leaves a file of exactly
  the declared size and returns the SHA-256 digest of that file, and one that fails leaves the file it
  found, removes it, or leaves at most the declared number of bytes.
\<close>
theorem download_bounded:
  "download_result_ok want p (download_archive ue opts te url dest want p)"
proof -
  obtain tr q where d: "download_archive ue opts te url dest want p = (tr, q)" by fastforce
  from download_cases [OF d] show ?thesis
  proof (elim disjE exE conjE)
    fix existing p1 rs
    assume p1: "prepare_partial te url (do_expected_hash opts) want (do_no_resume opts) p = (existing, p1)"
      and g: "grown (nat want) (if rs_status rs = 206 then kept_part existing p1 else []) (sent (rs_body rs)) tr q"
      and w: "tr_error tr = None \<longrightarrow> int (tr_written tr) = want" and pos: "0 < want"
    have k: "length (kept_part existing p1) \<le> nat want"
      using prepare_partial_file [OF p1] resumable_SomeD
      by (fastforce simp: kept_part_def split: option.splits)
    show ?thesis
      using g w k pos
      by (auto simp: d download_result_ok_def grown_def loop_adds_def nat_le_iff split: option.splits if_splits)
  next
    fix existing p1
    assume p1: "prepare_partial te url (do_expected_hash opts) want (do_no_resume opts) p = (existing, p1)"
      and "tr_error tr \<noteq> None" "q = p1"
    then show ?thesis
      using prepare_partial_file [OF p1] by (auto simp: d download_result_ok_def split: option.splits)
  qed (auto simp: d download_result_ok_def)
qed

section \<open>Resuming a download\<close>

text \<open>The server sends the archive itself: all of it, or for a range the archive from where the range starts.\<close>

definition serves :: "string \<Rightarrow> response option \<Rightarrow> bool" where
  "serves archive answer =
     (case answer of
        None \<Rightarrow> True
      | Some rs \<Rightarrow>
          if rs_status rs = 206 then
            (case content_range_start (rs_content_range rs) of
               None \<Rightarrow> True | Some n \<Rightarrow> prefix (sent (rs_body rs)) (drop (nat n) archive))
          else prefix (sent (rs_body rs)) archive)"

text \<open>A partial that would be continued holds the archive as far as it goes.\<close>

definition part_of :: "string \<Rightarrow> string \<Rightarrow> string \<Rightarrow> partial \<Rightarrow> bool" where
  "part_of archive url hash p =
     (case resumable url hash (int (length archive)) p of
        None \<Rightarrow> True | Some n \<Rightarrow> pt_file p = Some (take n archive))"

lemma part_of_prefix:
  assumes "pt_file p = Some c" "prefix c archive" shows "part_of archive url hash p"
  using assms by (auto simp: part_of_def prefix_def dest!: resumable_SomeD split: option.splits)

lemma part_of_refused:
  assumes "part_of archive url hash p" "pt_file q = pt_file p \<or> pt_file q = None"
    "pt_meta q = pt_meta p \<or> pt_meta q = None"
  shows "part_of archive url hash q"
proof -
  have "resumable url hash (int (length archive)) q = None
      \<or> (resumable url hash (int (length archive)) q = resumable url hash (int (length archive)) p
          \<and> pt_file q = pt_file p)"
  proof (cases "pt_file q = None \<or> pt_meta q = None")
    case True
    then show ?thesis by (auto simp: resumable_def meta_matches_def split: option.split)
  next
    case False
    then show ?thesis using assms(2,3) by (auto simp: resumable_def)
  qed
  then show ?thesis using assms(1) by (auto simp: part_of_def split: option.splits)
qed

text \<open>
  C15: Let the server always send bytes of one archive, whose size the manifest declares. A download,
  however it ends, leaves a partial file that the next download continues only where it holds the archive
  as far as it goes, and a download that succeeds, in one run or resumed, has assembled the archive.
\<close>
theorem download_assembles_archive:
  assumes "part_of archive url (do_expected_hash opts) p" "serves archive (te_answer te)"
  shows "let (tr, q) = download_archive ue opts te url dest (int (length archive)) p
         in part_of archive url (do_expected_hash opts) q
            \<and> (tr_error tr = None \<longrightarrow> pt_file q = Some archive \<and> tr_sum tr = sha256_hex archive)"
proof -
  obtain tr q where d: "download_archive ue opts te url dest (int (length archive)) p = (tr, q)" by fastforce
  from download_cases [OF d]
  have "part_of archive url (do_expected_hash opts) q
      \<and> (tr_error tr = None \<longrightarrow> pt_file q = Some archive \<and> tr_sum tr = sha256_hex archive)"
  proof (elim disjE exE conjE)
    fix existing p1 rs
    assume p1: "prepare_partial te url (do_expected_hash opts) (int (length archive)) (do_no_resume opts) p = (existing, p1)"
      and rs: "te_answer te = Some rs" "rs_status rs = 206 \<longrightarrow> validate_content_range rs existing"
      and g: "grown (nat (int (length archive))) (if rs_status rs = 206 then kept_part existing p1 else []) (sent (rs_body rs)) tr q"
      and w: "tr_error tr = None \<longrightarrow> int (tr_written tr) = int (length archive)"
    have k: "kept_part existing p1 = take existing archive"
      using prepare_partial_file [OF p1] assms(1) by (auto simp: kept_part_def part_of_def)
    have pre: "prefix ((if rs_status rs = 206 then kept_part existing p1 else []) @ sent (rs_body rs)) archive"
    proof (cases "rs_status rs = 206")
      case True
      then have "prefix (sent (rs_body rs)) (drop existing archive)"
        using assms(2) rs by (auto simp: serves_def validate_content_range_def)
      then have "prefix (take existing archive @ sent (rs_body rs)) (take existing archive @ drop existing archive)"
        by (simp only: same_prefix_prefix)
      then show ?thesis using True by (simp add: k)
    qed (use assms(2) rs in \<open>auto simp: serves_def\<close>)
    obtain c where c: "pt_file q = Some c" "prefix c archive"
      "tr_error tr = None \<longrightarrow> tr_written tr = length c \<and> tr_sum tr = sha256_hex c"
      using g prefix_order.trans [OF _ pre] by (auto simp: grown_def loop_adds_def split: option.splits)
    then show ?thesis
      using w part_of_prefix [OF c(1,2)] by (auto simp: prefix_def)
  next
    fix existing p1
    assume p1: "prepare_partial te url (do_expected_hash opts) (int (length archive)) (do_no_resume opts) p = (existing, p1)"
      and "tr_error tr \<noteq> None" "q = p1"
    then show ?thesis
      using prepare_partial_file [OF p1] assms(1) part_of_refused by blast
  next
    assume "tr_error tr \<noteq> None" "pt_file q = None"
    then show ?thesis by (simp add: part_of_def resumable_def split: option.splits)
  qed (use assms(1) in auto)
  then show ?thesis by (simp add: d)
qed

definition sample_part :: partial where
  "sample_part = \<lparr>pt_file = Some ''kob'',
     pt_meta = Some \<lparr>dm_schema = meta_schema, dm_url = ''u'', dm_hash = ''h'', dm_size = 5, dm_written = 3,
       dm_etag = ''e'', dm_last_modified = []\<rparr>\<rparr>"

definition sample_answer :: response where
  "sample_answer = \<lparr>rs_status = 206, rs_content_length = 2, rs_content_range = ''bytes 3-4/5'', rs_etag = ''e'',
     rs_last_modified = [], rs_body = [Bytes ''r'', Bytes ''a'']\<rparr>"

definition sample_run :: transfer_env where
  "sample_run = \<lparr>te_answer = Some sample_answer, te_ctx = CtxLive, te_polls = [], te_writes = [],
     te_preamble_ok = True, te_open_ok = True, te_sync_ok = True, te_meta_ok = True, te_remove_ok = True\<rparr>"

definition sample_download_options :: download_options where
  "sample_download_options = \<lparr>do_max_bytes = 0, do_expected_hash = ''h'', do_allow_insecure = True, do_no_resume = False\<rparr>"

definition sample_urls :: url_env where
  "sample_urls = \<lparr>ue_parse = (\<lambda>u. Some (''https'', ''h'', ''h'')), ue_loopback_ip = (\<lambda>h. False)\<rparr>"

theorem download_assembles_archive_witness:
  "resumable ''u'' ''h'' 5 sample_part = Some 3
   \<and> (let (tr, q) = download_archive sample_urls sample_download_options sample_run ''u'' ''d'' (int (length ''kobra'')) sample_part
      in part_of ''kobra'' ''u'' (do_expected_hash sample_download_options) q
         \<and> (tr_error tr = None \<longrightarrow> pt_file q = Some ''kobra'' \<and> tr_sum tr = sha256_hex ''kobra''))"
proof
  show "resumable ''u'' ''h'' 5 sample_part = Some 3" by code_simp
  have "part_of ''kobra'' ''u'' (do_expected_hash sample_download_options) sample_part" by code_simp
  moreover have "serves ''kobra'' (te_answer sample_run)" by code_simp
  ultimately show "let (tr, q) = download_archive sample_urls sample_download_options sample_run ''u'' ''d''
          (int (length ''kobra'')) sample_part
      in part_of ''kobra'' ''u'' (do_expected_hash sample_download_options) q
         \<and> (tr_error tr = None \<longrightarrow> pt_file q = Some ''kobra'' \<and> tr_sum tr = sha256_hex ''kobra'')"
    by (rule download_assembles_archive)
qed

text \<open>The run of the sample does end well: its last two bytes complete the archive.\<close>

lemma sample_run_completes:
  "read_loop 5 (te_polls sample_run) (te_writes sample_run) (rs_body sample_answer) ''kob'' = (LoopDone, ''kobra'', [])"
  by (simp add: sample_run_def sample_answer_def read_loop.simps poll_def next_write_def buffer_size_def Let_def)

text \<open>The watchdog ends a stalled transfer by cancelling the context, and that is reported as a cancellation.\<close>

lemma stall_reads_as_cancellation: "stream_error CtxCanceled [] = DlCancelled"
  by (simp add: stream_error_def cancel_or_timeout_def)

lemma complete_partial_not_resumed: "resumable url hash want p = Some n \<Longrightarrow> int n < want"
  by (drule resumable_SomeD) auto

end
