(* ===== verification/Update_Archive.thy ===== *)
theory Update_Archive
  imports Release Fs Sha256
begin

text \<open>
  \<open>update/archive.go\<close>, \<open>verify.go\<close> and \<open>extract.go\<close>: what the updater accepts of a release archive
  and where it writes it. Decompression and the tar reader are third-party code: an archive is the
  list of members the reader yields, each with the bytes it delivers, and whether the list ends
  cleanly. A body shorter than its header says is a read error. Extraction runs on the disk of
  \<open>Fs\<close>, where every call can fail and every intermediate state is recorded.
\<close>

section \<open>Members\<close>

record tar_header =
  th_flag :: char
  th_name :: string
  th_size :: int
  th_mode :: nat

type_synonym tar_member = "tar_header \<times> string"

datatype entry_kind = KindRegular | KindDir

record violation =
  vi_reason :: string
  vi_entry :: string

definition violation :: "string \<Rightarrow> string \<Rightarrow> violation" where
  "violation r e = \<lparr>vi_reason = r, vi_entry = e\<rparr>"

definition data_dir_name :: string where "data_dir_name = ''data''"

definition is_reserved_component :: "string \<Rightarrow> bool" where
  "is_reserved_component s =
     (let seg = trim_right_by dot_or_space s
      in if seg = [] then False
         else let stem = (case index_byte seg dot of None \<Rightarrow> seg | Some i \<Rightarrow> take i seg)
              in map to_upper_ascii stem \<in> set device_names)"

definition reserved_chars :: "char list" where
  "reserved_chars = [CHR ''<'', CHR ''>'', CHR '':'', CHR 0x22, CHR ''|'', CHR ''?'', CHR ''*'']"

text \<open>The checks of one segment of a name: the reason it is refused for.\<close>

definition bad_segment :: "string \<Rightarrow> string option" where
  "bad_segment seg =
     (if seg = [] \<or> seg = [dot] \<or> seg = [dot, dot] then Some ''path''
      else if is_reserved_component seg then Some ''device''
      else if list_ex (\<lambda>c. c \<in> set reserved_chars) seg then Some ''path''
      else if suffix [dot] seg \<or> suffix '' '' seg then Some ''path''
      else None)"

fun first_bad :: "string list \<Rightarrow> string option" where
  "first_bad [] = None"
| "first_bad (s # ss) = (case bad_segment s of Some r \<Rightarrow> Some r | None \<Rightarrow> first_bad ss)"

definition equal_fold :: "string \<Rightarrow> string \<Rightarrow> bool" where
  "equal_fold a b = (map to_lower_ascii a = map to_lower_ascii b)"

text \<open>\<open>checkEntry\<close>: the relative path, empty for the root of the archive, and the kind.\<close>

definition check_entry :: "tar_header \<Rightarrow> violation + string \<times> entry_kind" where
  "check_entry h =
     (case (if th_flag h = CHR ''0'' \<or> th_flag h = CHR 0x00 then Some KindRegular
            else if th_flag h = CHR ''5'' then Some KindDir else None) of
        None \<Rightarrow> Inl (violation ''entry_type'' (th_name h))
      | Some kind \<Rightarrow>
          (let name = th_name h; cl = clean name; segs = split_on slash cl in
           if name = [] then Inl (violation ''path'' name)
           else if CHR 0x00 \<in> set name then Inl (violation ''path'' name)
           else if backslash \<in> set name then Inl (violation ''path'' name)
           else if rooted name then Inl (violation ''path'' name)
           else if 2 \<le> length name \<and> name ! 1 = CHR '':'' then Inl (violation ''path'' name)
           else if cl = [dot] \<or> cl = [slash] then Inr ([], kind)
           else if cl = [dot, dot] \<or> prefix [dot, dot, slash] cl \<or> rooted cl
           then Inl (violation ''path'' name)
           else case first_bad segs of
             Some r \<Rightarrow> Inl (violation r name)
           | None \<Rightarrow>
               if equal_fold (hd segs) data_dir_name then Inl (violation ''data'' name)
               else Inr (cl, kind)))"

text \<open>Why the walk over an archive stops: a refused member, or an error of another kind.\<close>

datatype walk_error = Violation violation | WalkIo | WalkMismatch

text \<open>
  \<open>walkArchive\<close>, over the state \<open>'s\<close> of the callback; \<open>clean_end\<close> tells whether the reader reports
  the end of the archive after the last member, or an error.
\<close>

fun walk_archive :: "(string \<Rightarrow> entry_kind \<Rightarrow> tar_member \<Rightarrow> 's \<Rightarrow> walk_error option \<times> 's) \<Rightarrow> bool
    \<Rightarrow> tar_member list \<Rightarrow> 's \<Rightarrow> walk_error option \<times> 's" where
  "walk_archive f clean_end [] s = (if clean_end then None else Some WalkIo, s)"
| "walk_archive f clean_end (m # ms) s =
     (case check_entry (fst m) of
        Inl v \<Rightarrow> (Some (Violation v), s)
      | Inr (rel, kind) \<Rightarrow>
          if rel = [] then walk_archive f clean_end ms s
          else case f rel kind m s of
            (Some e, s') \<Rightarrow> (Some e, s')
          | (None, s') \<Rightarrow> walk_archive f clean_end ms s')"

section \<open>Hashes and the file index\<close>

definition is_hex :: "char \<Rightarrow> bool" where
  "is_hex c = (let n = of_char c :: nat in 48 \<le> n \<and> n \<le> 57 \<or> 97 \<le> n \<and> n \<le> 102 \<or> 65 \<le> n \<and> n \<le> 70)"

definition parse_hash :: "string \<Rightarrow> string option" where
  "parse_hash s =
     (let lower = map to_lower_ascii (trim_space s)
      in case index_byte lower (CHR '':'') of
           None \<Rightarrow> None
         | Some i \<Rightarrow>
             (let algo = take i lower; hex_part = drop (Suc i) lower
              in if algo \<noteq> ''sha256'' then None
                 else if length hex_part \<noteq> 64 then None
                 else if \<not> list_all is_hex hex_part then None
                 else Some hex_part))"

definition hash_matches :: "string \<Rightarrow> string \<Rightarrow> bool option" where
  "hash_matches declared actual =
     (case (parse_hash declared, parse_hash actual) of
        (Some d, Some a) \<Rightarrow> Some (d = a)
      | _ \<Rightarrow> None)"

definition content_hash :: "string \<Rightarrow> string" where
  "content_hash x = ''sha256:'' @ sha256_hex x"

definition index_files :: "file_entry list \<Rightarrow> (string, file_entry) gmap" where
  "index_files fs = fold (\<lambda>f. put (clean (fe_path f)) f) fs []"

definition release_manifest_name :: string where
  "release_manifest_name = ''game/release.manifest.json''"

definition is_release_manifest_path :: "string \<Rightarrow> bool" where
  "is_release_manifest_path entry = (clean (trim_prefix ''./'' entry) = release_manifest_name)"

section \<open>Verify\<close>

definition declares_signature :: "manifest option \<Rightarrow> bool" where
  "declares_signature mo =
     (case mo of
        None \<Rightarrow> False
      | Some m \<Rightarrow> (case mf_signatures m of None \<Rightarrow> False | Some sg \<Rightarrow> sg_gpg sg \<noteq> [] \<or> sg_sigstore sg \<noteq> []))"

text \<open>The callback of \<open>Verify\<close>; the state is the number of bytes read so far.\<close>

definition verify_member :: "(string, file_entry) gmap \<Rightarrow> string \<Rightarrow> entry_kind \<Rightarrow> tar_member \<Rightarrow> int
    \<Rightarrow> walk_error option \<times> int" where
  "verify_member index rel kind m seen =
     (let (h, body) = m; whole = (int (length body) = th_size h) in
      if kind = KindDir then (if whole then None else Some WalkIo, seen)
      else if index \<noteq> [] then
        (case get index rel of
           None \<Rightarrow> (Some (Violation (violation ''unlisted_entry'' rel)), seen)
         | Some want \<Rightarrow>
             if fe_size want \<noteq> th_size h then (Some WalkMismatch, seen)
             else if \<not> whole then (Some WalkIo, seen)
             else (case hash_matches (fe_hash want) (content_hash body) of
                     None \<Rightarrow> (Some WalkMismatch, wrap64 (seen + int (length body)))
                   | Some ok \<Rightarrow> (if ok then None else Some WalkMismatch, wrap64 (seen + int (length body)))))
      else (if whole then None else Some WalkIo, wrap64 (seen + int (length body))))"

text \<open>
  The archive file: its bytes, unless it cannot be read, and what the tar reader makes of them.
\<close>

record archive_file =
  af_bytes :: "string option"
  af_members :: "tar_member list"
  af_clean_end :: bool

text \<open>What \<open>Verify\<close> returns: the reason in the error, and the events it logs.\<close>

definition verify_failed :: "string \<Rightarrow> string option \<times> string list" where
  "verify_failed r = (Some r, [''update.verify.fail''])"

definition verify_entry_violation :: "violation \<Rightarrow> string option \<times> string list" where
  "verify_entry_violation v =
     (if vi_reason v = ''data'' then (Some ''data_dir'', [''update.data.rejected''])
      else if vi_reason v = ''unlisted_entry'' \<and> is_release_manifest_path (vi_entry v)
      then (Some ''release_manifest_in_archive'', [''update.manifest.rejected''])
      else (Some (vi_reason v), [''update.verify.fail'']))"

definition verify :: "(manifest \<Rightarrow> bool) option \<Rightarrow> archive_file \<Rightarrow> manifest option \<Rightarrow> string option \<times> string list" where
  "verify verifier a mo =
     (case mo of
        None \<Rightarrow> (Some ''no_manifest'', [])
      | Some m \<Rightarrow>
          (case (if declares_signature mo
                 then (case verifier of
                         None \<Rightarrow> Some ''signature_unavailable''
                       | Some v \<Rightarrow> if v m then None else Some ''signature_invalid'')
                 else None) of
             Some r \<Rightarrow> verify_failed r
           | None \<Rightarrow>
               (case af_bytes a of
                  None \<Rightarrow> verify_failed ''archive_unreadable''
                | Some bytes \<Rightarrow>
                    if 0 < declared_archive_size mo \<and> int (length bytes) \<noteq> declared_archive_size mo
                    then verify_failed ''archive_size''
                    else if declared_archive_hash mo = [] then verify_failed ''archive_hash_missing''
                    else if hash_matches (declared_archive_hash mo) (content_hash bytes) \<noteq> Some True
                    then verify_failed ''archive_hash''
                    else
                      (case walk_archive (verify_member (index_files (mf_files m))) (af_clean_end a) (af_members a) 0 of
                         (Some (Violation v), _) \<Rightarrow> verify_entry_violation v
                       | (Some _, _) \<Rightarrow> verify_failed ''entry_content''
                       | (None, seen) \<Rightarrow>
                           if seen \<noteq> mf_total_size m then verify_failed ''total_size''
                           else (None, [''update.verify.ok''])))))"

section \<open>Extract\<close>

definition staging_dir_name :: string where "staging_dir_name = ''game.new''"
definition launcher_staging_dir_name :: string where "launcher_staging_dir_name = ''launcher.new''"

text \<open>\<open>stagedTarget\<close>: where a member lands.\<close>

definition staged_target :: "string \<Rightarrow> string \<Rightarrow> violation + string" where
  "staged_target root rel =
     (case index_byte rel slash of
        None \<Rightarrow> Inl (violation ''unlisted_entry'' rel)
      | Some i \<Rightarrow>
          if i = 0 then Inl (violation ''unlisted_entry'' rel)
          else let pre = take i rel; rest = drop (Suc i) rel
               in if rest = [] then Inl (violation ''path'' rel)
                  else if pre = data_dir_name then Inl (violation ''data'' rel)
                  else if pre = ''game'' then Inr (join_path (join_path root staging_dir_name) rest)
                  else if pre = ''launcher'' then Inr (join_path (join_path root launcher_staging_dir_name) rest)
                  else Inl (violation ''unlisted_entry'' rel))"

fun octal_value :: "nat \<Rightarrow> string \<Rightarrow> nat option" where
  "octal_value acc [] = Some acc"
| "octal_value acc (c # cs) = (if is_digit c \<and> digit_val c < 8 then octal_value (8 * acc + digit_val c) cs else None)"

definition parse_mode :: "string \<Rightarrow> nat option" where
  "parse_mode s =
     (if s = [] then Some 0
      else case octal_value 0 s of
        None \<Rightarrow> None
      | Some n \<Rightarrow> if n < 2 ^ 32 then Some (n mod 512) else None)"

text \<open>What extraction keeps between members: the bytes written and the number of files.\<close>

record extraction =
  ex_written :: int
  ex_count :: nat

text \<open>
  Filling one staged file: create or truncate it, copy the body, sync, close, and check the hash;
  whatever fails after the file was opened removes it again.
\<close>

definition fill_file :: "string \<Rightarrow> string \<Rightarrow> tar_member \<Rightarrow> file_entry option \<Rightarrow> 'a disk_scheme
    \<Rightarrow> walk_error option \<times> 'a disk_scheme" where
  "fill_file target rel m want d0 =
     (let (h, body) = m; undo = (\<lambda>err d. (Some err, snd (sys_remove target d))) in
      case sys_truncate target d0 of
        (Some _, d1) \<Rightarrow> (Some WalkIo, d1)
      | (None, d1) \<Rightarrow>
          (case sys_write target body d1 of
             (Some _, d2) \<Rightarrow> undo WalkIo (snd (sys_plain d2))
           | (None, d2) \<Rightarrow>
               if int (length body) \<noteq> th_size h then undo WalkIo (snd (sys_plain d2))
               else
                 (case sys_plain d2 of
                    (Some _, d3) \<Rightarrow> undo WalkIo (snd (sys_plain d3))
                  | (None, d3) \<Rightarrow>
                      (case sys_plain d3 of
                         (Some _, d4) \<Rightarrow> undo WalkIo d4
                       | (None, d4) \<Rightarrow>
                           (case want of
                              None \<Rightarrow> (None, d4)
                            | Some f \<Rightarrow>
                                (case hash_matches (fe_hash f) (content_hash body) of
                                   None \<Rightarrow> undo WalkMismatch d4
                                 | Some ok \<Rightarrow>
                                     if ok then (None, d4)
                                     else undo (Violation (violation ''entry_hash'' rel)) d4))))))"

text \<open>The callback of \<open>Extract\<close>.\<close>

definition extract_member :: "string \<Rightarrow> (string, file_entry) gmap \<Rightarrow> int \<Rightarrow> string \<Rightarrow> entry_kind \<Rightarrow> tar_member
    \<Rightarrow> extraction \<times> 'a disk_scheme \<Rightarrow> walk_error option \<times> (extraction \<times> 'a disk_scheme)" where
  "extract_member root index budget rel kind m s =
     (let (x, d0) = s; (h, body) = m in
      case staged_target root rel of
        Inl v \<Rightarrow> (Some (Violation v), s)
      | Inr target \<Rightarrow>
          if \<not> confine root target then (Some (Violation (violation ''path'' rel)), s)
          else if kind = KindDir then
            (if int (length body) \<noteq> th_size h then (Some WalkIo, s)
             else case sys_plain d0 of
               (Some _, d1) \<Rightarrow> (Some WalkIo, (x, d1))
             | (None, d1) \<Rightarrow> (None, (x, d1)))
          else
            (case (if index = [] then Inr None
                   else case get index rel of
                     None \<Rightarrow> Inl (violation ''unlisted_entry'' rel)
                   | Some f \<Rightarrow>
                       if fe_size f \<noteq> th_size h then Inl (violation ''entry_size'' rel) else Inr (Some f)) of
               Inl v \<Rightarrow> (Some (Violation v), s)
             | Inr want \<Rightarrow>
                 if wrap64 (ex_written x + th_size h) > budget
                 then (Some (Violation (violation ''size_budget'' rel)), s)
                 else if (case want of None \<Rightarrow> False | Some f \<Rightarrow> fe_mode f \<noteq> [] \<and> parse_mode (fe_mode f) = None)
                 then (Some (Violation (violation ''entry_mode'' rel)), s)
                 else
                   (case sys_plain d0 of
                      (Some _, d1) \<Rightarrow> (Some WalkIo, (x, d1))
                    | (None, d1) \<Rightarrow>
                        (case fill_file target rel m want d1 of
                           (Some err, d2) \<Rightarrow> (Some err, (x, d2))
                         | (None, d2) \<Rightarrow>
                             (None, (x\<lparr>ex_written := wrap64 (ex_written x + th_size h),
                                       ex_count := Suc (ex_count x)\<rparr>, d2))))))"

text \<open>The mode a staged file is created with.\<close>

definition file_mode :: "file_entry option \<Rightarrow> tar_header \<Rightarrow> nat option" where
  "file_mode want h =
     (case want of
        Some f \<Rightarrow> if fe_mode f \<noteq> [] then parse_mode (fe_mode f)
                  else Some (if th_mode h mod 512 \<noteq> 0 then th_mode h mod 512 else 420)
      | None \<Rightarrow> Some (if th_mode h mod 512 \<noteq> 0 then th_mode h mod 512 else 420))"

definition extract_violation :: "violation \<Rightarrow> string \<times> string list" where
  "extract_violation v =
     (if vi_reason v = ''data'' then (''data_dir'', [''update.data.rejected''])
      else if vi_reason v = ''size_budget'' then (''size_budget'', [''update.verify.fail''])
      else if vi_reason v = ''unlisted_entry'' then
        (if is_release_manifest_path (vi_entry v)
         then (''release_manifest_in_archive'', [''update.manifest.rejected''])
         else (vi_reason v, []))
      else (vi_reason v, []))"

definition extract_archive :: "archive_file \<Rightarrow> string \<Rightarrow> manifest option \<Rightarrow> 'a disk_scheme
    \<Rightarrow> (string option \<times> string list) \<times> 'a disk_scheme" where
  "extract_archive a root mo d0 =
     (case mo of
        None \<Rightarrow> ((Some ''no_manifest'', []), d0)
      | Some m \<Rightarrow>
          if trim_space root = [] then ((Some ''bad_destination'', []), d0)
          else if equal_fold (base_name (clean root)) data_dir_name
          then ((Some ''data_dir'', [''update.data.rejected'']), d0)
          else
            (case sys_plain d0 of
               (Some _, d1) \<Rightarrow> ((Some ''destination'', []), d1)
             | (None, d1) \<Rightarrow>
                 (case walk_archive (extract_member root (index_files (mf_files m)) (mf_total_size m))
                         (af_clean_end a) (af_members a) (\<lparr>ex_written = 0, ex_count = 0\<rparr>, d1) of
                    (Some (Violation v), (_, d2)) \<Rightarrow>
                      (case extract_violation v of (r, ev) \<Rightarrow> ((Some r, ev), d2))
                  | (Some _, (_, d2)) \<Rightarrow> ((Some ''extract'', []), d2)
                  | (None, (x, d2)) \<Rightarrow> ((None, [''update.extract'']), d2))))"

section \<open>Where members land\<close>

lemma bad_segment_plain: "bad_segment s = None \<Longrightarrow> slash \<notin> set s \<Longrightarrow> plain_seg s"
  by (auto simp: bad_segment_def plain_seg_def split: if_splits)

lemma first_bad_None: "first_bad ss = None \<longleftrightarrow> list_all (\<lambda>s. bad_segment s = None) ss"
  by (induction ss) (auto split: option.splits)

lemma check_entry_ok:
  assumes "check_entry h = Inr (rel, kind)" and "rel \<noteq> []"
  shows "rel = clean (th_name h)" "list_all plain_seg (split_on slash rel)"
    "\<not> equal_fold (hd (split_on slash rel)) data_dir_name"
proof -
  have r: "rel = clean (th_name h) \<and> first_bad (split_on slash rel) = None
      \<and> \<not> equal_fold (hd (split_on slash rel)) data_dir_name"
    using assms by (auto simp: check_entry_def Let_def split: if_splits option.splits)
  then show "rel = clean (th_name h)" "\<not> equal_fold (hd (split_on slash rel)) data_dir_name" by blast+
  show "list_all plain_seg (split_on slash rel)"
    using r split_on_no_sep [of _ slash rel] bad_segment_plain by (auto simp: first_bad_None list_all_iff)
qed

text \<open>A path below one of the two staging directories of a root.\<close>

definition staged_under :: "string \<Rightarrow> string \<Rightarrow> bool" where
  "staged_under root p \<longleftrightarrow>
     (\<exists>d \<in> {staging_dir_name, launcher_staging_dir_name}. \<exists>s ss. segs_of p = segs_of root @ d # s # ss)"

lemma staging_names_plain: "plain_seg staging_dir_name" "plain_seg launcher_staging_dir_name"
  by (simp_all add: plain_seg_def staging_dir_name_def launcher_staging_dir_name_def dot_def slash_def)

lemma segs_of_join_segs:
  assumes "rooted a" and "list_all plain_seg (split_on slash b)"
  shows "segs_of (join_path a b) = segs_of a @ split_on slash b"
proof -
  have "b \<noteq> []" using assms(2) by (auto simp: plain_seg_def)
  then show ?thesis
    using segs_of_join [OF assms(1), of b] clean_segs_id [of "split_on slash b" True "rev (segs_of a)"] assms(2)
    by (simp add: list_all_iff)
qed

lemma staged_target_under:
  assumes root: "rooted root" and ps: "list_all plain_seg (split_on slash rel)" and t: "staged_target root rel = Inr t"
  shows "staged_under root t"
proof -
  obtain i where i: "index_byte rel slash = Some i" "i \<noteq> 0"
    using t by (auto simp: staged_target_def split: option.splits if_splits)
  define pre rest where pr: "pre = take i rel" "rest = drop (Suc i) rel"
  have rel: "rel = pre @ slash # rest" "slash \<notin> set pre"
    using index_byte_Some [OF i(1)] id_take_nth_drop [of i rel] by (simp_all add: pr)
  have rest: "list_all plain_seg (split_on slash rest)"
    using ps rel by (simp add: split_on_append)
  obtain s ss where s: "split_on slash rest = s # ss"
    by (metis list.exhaust split_on_not_Nil)
  have "\<exists>d \<in> {staging_dir_name, launcher_staging_dir_name}. t = join_path (join_path root d) rest"
    using t i by (auto simp: staged_target_def Let_def pr split: if_splits)
  then obtain d where d: "d \<in> {staging_dir_name, launcher_staging_dir_name}" "t = join_path (join_path root d) rest"
    by blast
  have "plain_seg d" using d(1) staging_names_plain by auto
  then have "segs_of t = segs_of root @ d # s # ss"
    using segs_of_join_segs [OF rooted_join [OF root] rest, of d] segs_of_join_plain [OF root, of d] d(2) s
    by simp
  with d(1) show ?thesis by (auto simp: staged_under_def)
qed

section \<open>Extraction stays in the staging directories\<close>

lemma inv_fill_file:
  assumes "temp_inv target J" and "J d0"
  shows "J (snd (fill_file target rel m want d0))"
proof -
  note st = temp_invD [OF assms(1)]
  obtain h body where m: "m = (h, body)" by fastforce
  obtain r1 d1 where c1: "sys_truncate target d0 = (r1, d1)" by fastforce
  note i1 = st(6) [OF assms(2), unfolded c1 snd_conv]
  obtain r2 d2 where c2: "sys_write target body d1 = (r2, d2)" by fastforce
  note i2 = st(3) [OF i1, of body, unfolded c2 snd_conv]
  obtain r3 d3 where c3: "sys_plain d2 = (r3, d3)" by fastforce
  note i3 = st(1) [OF i2, unfolded c3 snd_conv]
  obtain r4 d4 where c4: "sys_plain d3 = (r4, d4)" by fastforce
  note i4 = st(1) [OF i3, unfolded c4 snd_conv]
  show ?thesis
    using i1 i3 i4 st(4) [OF i3] st(4) [OF i4] st(4) [OF st(1) [OF i3]]
    by (auto simp: fill_file_def m c1 c2 c3 c4 split: option.splits)
qed

lemma walk_archive_inv:
  assumes "\<And>rel kind m s. check_entry (fst m) = Inr (rel, kind) \<Longrightarrow> rel \<noteq> [] \<Longrightarrow> P s \<Longrightarrow> P (snd (f rel kind m s))"
    and "P s"
  shows "P (snd (walk_archive f e ms s))"
  using assms(2)
proof (induction ms arbitrary: s)
  case (Cons m ms)
  show ?case
  proof (cases "check_entry (fst m)")
    case (Inr r)
    obtain rel kind where r: "r = (rel, kind)" by fastforce
    obtain x s' where f: "f rel kind m s = (x, s')" by fastforce
    have "rel \<noteq> [] \<Longrightarrow> P s'" using assms(1) [of m rel kind s] Inr r Cons.prems f by simp
    with Inr r f Cons show ?thesis by (cases x) auto
  qed (use Cons in simp)
qed simp

lemma walk_archive_step:
  assumes "walk_archive f e (m # ms) s = (None, s')"
  obtains rel kind s1 where "check_entry (fst m) = Inr (rel, kind)"
    "(if rel = [] then (None, s) else f rel kind m s) = (None, s1)" "walk_archive f e ms s1 = (None, s')"
proof -
  obtain rel kind where r: "check_entry (fst m) = Inr (rel, kind)"
    using assms by (cases "check_entry (fst m)") auto
  obtain x s1 where f: "f rel kind m s = (x, s1)" by fastforce
  show thesis
    using assms r f that [of rel kind s] that [of rel kind s1] by (cases x) (auto split: if_splits)
qed

lemma walk_archive_ok:
  assumes step: "\<And>rel kind m s s'. m \<in> M \<Longrightarrow> check_entry (fst m) = Inr (rel, kind) \<Longrightarrow> rel \<noteq> [] \<Longrightarrow>
      f rel kind m s = (None, s') \<Longrightarrow> P s \<Longrightarrow> P s'"
  shows "walk_archive f e ms s = (None, s') \<Longrightarrow> P s \<Longrightarrow> set ms \<subseteq> M \<Longrightarrow> P s'"
proof (induction ms arbitrary: s)
  case (Cons m ms)
  from Cons.prems(1) show ?case
  proof (rule walk_archive_step)
    fix rel kind s1
    assume c: "check_entry (fst m) = Inr (rel, kind)" "(if rel = [] then (None, s) else f rel kind m s) = (None, s1)"
      and w: "walk_archive f e ms s1 = (None, s')"
    have "P s1" using c step [of m rel kind s s1] Cons.prems(2,3) by (auto split: if_splits)
    with Cons.IH [OF w] Cons.prems(3) show ?case by simp
  qed
qed (simp split: if_splits)

definition only_staged :: "string \<Rightarrow> files \<Rightarrow> files \<Rightarrow> bool" where
  "only_staged root m0 m \<longleftrightarrow> (\<forall>p. staged_under root p \<or> get m p = get m0 p)"

lemma only_staged_ignores: "staged_under root t \<Longrightarrow> ignores t (only_staged root m0)"
  by (auto simp: only_staged_def ignores_def)

lemma inv_extract_member:
  assumes "rooted root" and "check_entry (fst m) = Inr (rel, kind)" and "rel \<noteq> []"
    and "crash_inv (only_staged root m0) d (snd s)"
  shows "crash_inv (only_staged root m0) d (snd (snd (extract_member root index budget rel kind m s)))"
proof (cases "staged_target root rel")
  case (Inl v)
  with assms(4) show ?thesis by (simp add: extract_member_def split: prod.split)
next
  case (Inr t)
  let ?P = "crash_inv (only_staged root m0) d"
  obtain x d0 h body where s: "s = (x, d0)" "m = (h, body)" by fastforce
  have u: "temp_inv t ?P"
    by (rule temp_inv_crash [OF only_staged_ignores
          [OF staged_target_under [OF assms(1) check_entry_ok(2) [OF assms(2,3)] Inr]]])
  obtain r1 d1 where c1: "sys_plain d0 = (r1, d1)" by fastforce
  have i0: "?P d0" using assms(4) s by simp
  have i1: "?P d1" using temp_invD(1) [OF u i0] c1 by simp
  have i2: "?P (snd (fill_file t rel m want d1))" for want by (rule inv_fill_file [OF u i1])
  show ?thesis
    using i0 i1 i2 unfolding s
    by (auto simp: extract_member_def Inr c1 split: option.splits sum.splits prod.splits)
      (metis snd_conv)+
qed

lemma extract_only_staged:
  assumes "rooted root"
  shows "crash_inv (only_staged root (files d)) d (snd (extract_archive a root mo d))"
proof -
  let ?P = "crash_inv (only_staged root (files d)) d"
  have i0: "?P d" by (rule crash_inv_refl) (simp add: only_staged_def)
  obtain r1 d1 where c1: "sys_plain d = (r1, d1)" by fastforce
  have i1: "?P d1" using plain_call.crash_call_seq [OF i0] c1 by simp
  have w: "?P (snd (snd (walk_archive (extract_member root index budget) e ms (x, d1))))" for index budget e ms x
    by (rule walk_archive_inv [where P = "\<lambda>s. ?P (snd s)"]) (use inv_extract_member [OF assms] i1 in auto)
  show ?thesis
  proof (cases mo)
    case None
    with i0 show ?thesis by (simp add: extract_archive_def)
  next
    case (Some m)
    obtain r x d2 where c2: "walk_archive (extract_member root (index_files (mf_files m)) (mf_total_size m))
        (af_clean_end a) (af_members a) (\<lparr>ex_written = 0, ex_count = 0\<rparr>, d1) = (r, x, d2)"
      by (metis prod.exhaust)
    have "?P d2" using w [of "index_files (mf_files m)" "mf_total_size m" "af_clean_end a" "af_members a"
          "\<lparr>ex_written = 0, ex_count = 0\<rparr>"] c2 by simp
    with i0 i1 show ?thesis
      by (auto simp: extract_archive_def Some c1 c2 split: option.splits walk_error.splits prod.splits)
  qed
qed

text \<open>
  C18: Extraction writes into the staging directories only. Whatever members an archive holds and in
  whatever order, whatever calls fail and wherever a crash falls, every file that is not below
  \<open>game.new\<close> or \<open>launcher.new\<close> of the staging root is as it was: no member can reach the game, the
  launcher, the saves, or anything outside.
\<close>

theorem extraction_stays_in_staging:
  assumes "rooted root"
  shows "crash_inv (only_staged root (files d)) d (snd (extract_archive a root mo d))"
  using assms by (rule extract_only_staged)

section \<open>What a successful extraction leaves\<close>

lemma fill_file_ok:
  assumes "fill_file t rel (h, body) want d = (None, d')"
  shows "get (files d') p = (if p = t then Some body else get (files d) p) \<and> int (length body) = th_size h
    \<and> (\<forall>f. want = Some f \<longrightarrow> hash_matches (fe_hash f) (content_hash body) = Some True)"
proof -
  obtain d1 d2 d3 d4 where c: "sys_truncate t d = (None, d1)" "sys_write t body d1 = (None, d2)"
      "sys_plain d2 = (None, d3)" "sys_plain d3 = (None, d4)" "d' = d4" "int (length body) = th_size h"
      "\<forall>f. want = Some f \<longrightarrow> hash_matches (fe_hash f) (content_hash body) = Some True"
    using assms by (auto simp: fill_file_def split: prod.splits option.splits if_splits)
  have "files d4 = files d2"
    using sys_plain_files [of d2] sys_plain_files [of d3] c(3,4) by simp
  moreover have "files d2 = put t body (files d1)" by (rule sys_write_ok [OF c(2)])
  moreover have "files d1 = put t [] (files d)"
    using c(1) by (auto simp: sys_truncate_def dest: next_fault_files(1) split: prod.splits fault.splits)
  ultimately show ?thesis using c(5-7) by simp
qed

text \<open>The content of a listed file, at the place its path is staged at.\<close>

definition listed_at :: "string \<Rightarrow> (string, file_entry) gmap \<Rightarrow> string \<Rightarrow> string \<Rightarrow> bool" where
  "listed_at root index p x \<longleftrightarrow>
     (\<exists>rel f. get index rel = Some f \<and> staged_target root rel = Inr p \<and> int (length x) = fe_size f
        \<and> hash_matches (fe_hash f) (content_hash x) = Some True)"

definition staged_listed :: "string \<Rightarrow> (string, file_entry) gmap \<Rightarrow> files \<Rightarrow> files \<Rightarrow> bool" where
  "staged_listed root index m0 m \<longleftrightarrow>
     (\<forall>p. get m p = get m0 p \<or> (\<exists>x. get m p = Some x \<and> listed_at root index p x))"

definition member_staged :: "string \<Rightarrow> (string, file_entry) gmap \<Rightarrow> files \<Rightarrow> tar_member \<Rightarrow> bool" where
  "member_staged root index m e =
     (case check_entry (fst e) of
        Inr (rel, KindRegular) \<Rightarrow>
          rel = [] \<or> (\<exists>p x. staged_target root rel = Inr p \<and> get m p = Some x \<and> listed_at root index p x)
      | Inr (_, KindDir) \<Rightarrow> True
      | Inl _ \<Rightarrow> False)"

lemma extract_member_ok:
  assumes "extract_member root index budget rel kind m (x, d) = (None, (x', d'))" and "index \<noteq> []"
  shows "kind = KindDir \<and> files d' = files d
    \<or> (\<exists>t f. kind = KindRegular \<and> staged_target root rel = Inr t \<and> listed_at root index t (snd m)
        \<and> (\<forall>p. get (files d') p = (if p = t then Some (snd m) else get (files d) p)))"
proof -
  obtain h body where m: "m = (h, body)" by fastforce
  obtain t where t: "staged_target root rel = Inr t" "confine root t"
    using assms(1) by (auto simp: extract_member_def m split: sum.splits if_splits)
  show ?thesis
  proof (cases kind)
    case KindDir
    then show ?thesis
      using assms(1) t sys_plain_files [of d]
      by (auto simp: extract_member_def m split: if_splits prod.splits option.splits)
  next
    case KindRegular
    then obtain f d1 where f: "get index rel = Some f" "fe_size f = th_size h" "sys_plain d = (None, d1)"
        "fill_file t rel (h, body) (Some f) d1 = (None, d')"
      using assms t by (auto simp: extract_member_def m split: if_splits prod.splits option.splits sum.splits)
    have "files d1 = files d" using sys_plain_files [of d] f(3) by simp
    moreover have "listed_at root index t body"
      unfolding listed_at_def using fill_file_ok [OF f(4)] f t by (intro exI [of _ rel] exI [of _ f]) simp
    ultimately show ?thesis using fill_file_ok [OF f(4)] t KindRegular by (auto simp: m)
  qed
qed

text \<open>A change that only puts listed content where it belongs.\<close>

definition stages :: "string \<Rightarrow> (string, file_entry) gmap \<Rightarrow> files \<Rightarrow> files \<Rightarrow> bool" where
  "stages root index m m' \<longleftrightarrow> (\<forall>p. get m' p = get m p \<or> (\<exists>x. get m' p = Some x \<and> listed_at root index p x))"

lemma stages_listed: "stages root index m m' \<Longrightarrow> staged_listed root index m0 m \<Longrightarrow> staged_listed root index m0 m'"
  unfolding stages_def staged_listed_def by metis

lemma stages_member: "stages root index m m' \<Longrightarrow> member_staged root index m e \<Longrightarrow> member_staged root index m' e"
proof (cases "check_entry (fst e)")
  case (Inr r)
  assume a: "stages root index m m'" "member_staged root index m e"
  obtain rel kind where r: "r = (rel, kind)" by fastforce
  show ?thesis
  proof (cases "kind = KindRegular \<and> rel \<noteq> []")
    case True
    then obtain p x where p: "staged_target root rel = Inr p" "get m p = Some x" "listed_at root index p x"
      using a(2) Inr r by (auto simp: member_staged_def)
    have "\<exists>x. get m' p = Some x \<and> listed_at root index p x"
      using a(1) p(2,3) unfolding stages_def by metis
    with p(1) Inr r True show ?thesis by (auto simp: member_staged_def)
  next
    case False
    with Inr r show ?thesis by (cases kind) (auto simp: member_staged_def)
  qed
qed (simp add: member_staged_def)

lemma extract_member_stages:
  assumes "extract_member root index budget rel kind m (x, d) = (None, (x', d'))" and "index \<noteq> []"
    and "check_entry (fst m) = Inr (rel, kind)"
  shows "stages root index (files d) (files d') \<and> member_staged root index (files d') m"
  using extract_member_ok [OF assms(1,2)] assms(3)
  by (auto simp: stages_def member_staged_def)

lemma walk_extract_ok:
  assumes "walk_archive (extract_member root index budget) e ms (x, d) = (None, (x', d'))" and "index \<noteq> []"
  shows "staged_listed root index m0 (files d) \<longrightarrow> staged_listed root index m0 (files d')"
    and "\<forall>m. member_staged root index (files d) m \<longrightarrow> member_staged root index (files d') m"
    and "\<forall>m \<in> set ms. member_staged root index (files d') m"
proof -
  have "(staged_listed root index m0 (files d) \<longrightarrow> staged_listed root index m0 (files d'))
      \<and> (\<forall>m. member_staged root index (files d) m \<longrightarrow> member_staged root index (files d') m)
      \<and> (\<forall>m \<in> set ms. member_staged root index (files d') m)"
    using assms(1)
  proof (induction ms arbitrary: x d)
    case (Cons m ms)
    from Cons.prems show ?case
    proof (rule walk_archive_step)
      fix rel kind s1
      assume c: "check_entry (fst m) = Inr (rel, kind)"
        "(if rel = [] then (None, (x, d)) else extract_member root index budget rel kind m (x, d)) = (None, s1)"
        and w: "walk_archive (extract_member root index budget) e ms s1 = (None, (x', d'))"
      obtain x1 d1 where s1: "s1 = (x1, d1)" by fastforce
      have st: "stages root index (files d) (files d1) \<and> member_staged root index (files d1) m"
      proof (cases "rel = []")
        case True
        with c s1 show ?thesis by (cases kind) (auto simp: stages_def member_staged_def)
      next
        case False
        with c s1 have "extract_member root index budget rel kind m (x, d) = (None, (x1, d1))" by simp
        then show ?thesis by (rule extract_member_stages [OF _ assms(2) c(1)])
      qed
      from Cons.IH [OF w [unfolded s1]] st stages_listed stages_member show ?thesis by fastforce
    qed
  qed (simp split: if_splits)
  then show "staged_listed root index m0 (files d) \<longrightarrow> staged_listed root index m0 (files d')"
    and "\<forall>m. member_staged root index (files d) m \<longrightarrow> member_staged root index (files d') m"
    and "\<forall>m \<in> set ms. member_staged root index (files d') m" by blast+
qed

lemma extract_listed:
  assumes "extract_archive a root (Some m) d = ((None, ev), d')" and "index_files (mf_files m) \<noteq> []"
  shows "staged_listed root (index_files (mf_files m)) (files d) (files d')"
    and "\<forall>e \<in> set (af_members a). member_staged root (index_files (mf_files m)) (files d') e"
proof -
  obtain d1 x' where c: "sys_plain d = (None, d1)"
    "walk_archive (extract_member root (index_files (mf_files m)) (mf_total_size m)) (af_clean_end a)
       (af_members a) (\<lparr>ex_written = 0, ex_count = 0\<rparr>, d1) = (None, (x', d'))"
    using assms(1) by (auto simp: extract_archive_def split: prod.splits option.splits if_splits walk_error.splits)
  have "staged_listed root (index_files (mf_files m)) (files d) (files d1)"
    using sys_plain_files [of d] c(1) by (simp add: staged_listed_def)
  with walk_extract_ok [OF c(2) assms(2)]
  show "staged_listed root (index_files (mf_files m)) (files d) (files d')"
    and "\<forall>e \<in> set (af_members a). member_staged root (index_files (mf_files m)) (files d') e" by blast+
qed

text \<open>
  What a successful extraction leaves is what the manifest lists. When \<open>Extract\<close> returns without
  an error for a manifest with a file index, every file that has changed holds content of the size
  and SHA-256 the index gives for the path it is staged from, and every regular member of the archive
  is there with such content: nothing unlisted, nothing partial.
\<close>

theorem extraction_installs_listed_files:
  assumes "extract_archive a root (Some m) d = ((None, ev), d')" and "index_files (mf_files m) \<noteq> []"
  shows "staged_listed root (index_files (mf_files m)) (files d) (files d')
    \<and> (\<forall>e \<in> set (af_members a). member_staged root (index_files (mf_files m)) (files d') e)"
  using extract_listed [OF assms] by blast

section \<open>What a verified archive is\<close>

text \<open>A member \<open>Verify\<close> accepts, and the bytes it counts.\<close>

definition member_verified :: "(string, file_entry) gmap \<Rightarrow> tar_member \<Rightarrow> bool" where
  "member_verified index m =
     (case check_entry (fst m) of
        Inl _ \<Rightarrow> False
      | Inr (rel, kind) \<Rightarrow>
          if rel = [] then True
          else int (length (snd m)) = th_size (fst m)
            \<and> (if kind = KindDir \<or> index = [] then True
               else case get index rel of
                 None \<Rightarrow> False
               | Some f \<Rightarrow> fe_size f = th_size (fst m)
                   \<and> hash_matches (fe_hash f) (content_hash (snd m)) = Some True))"

definition counted :: "tar_member \<Rightarrow> int" where
  "counted m =
     (case check_entry (fst m) of
        Inr (rel, KindRegular) \<Rightarrow> if rel = [] then 0 else int (length (snd m))
      | _ \<Rightarrow> 0)"

lemma wrap64_add: "wrap64 (wrap64 a + b) = wrap64 (a + b)"
  by (simp add: wrap64_def algebra_simps mod_simps)

lemma walk_verify_ok:
  assumes "walk_archive (verify_member index) e ms (wrap64 n) = (None, r)"
  shows "e \<and> list_all (member_verified index) ms \<and> r = wrap64 (n + sum_list (map counted ms))"
  using assms
proof (induction ms arbitrary: n)
  case Nil
  then show ?case by (simp split: if_splits)
next
  case (Cons m ms)
  from Cons.prems show ?case
  proof (rule walk_archive_step)
    fix rel kind s1
    assume c: "check_entry (fst m) = Inr (rel, kind)"
      "(if rel = [] then (None, wrap64 n) else verify_member index rel kind m (wrap64 n)) = (None, s1)"
      and w: "walk_archive (verify_member index) e ms s1 = (None, r)"
    have m: "member_verified index m \<and> s1 = wrap64 (n + counted m)"
    proof (cases "rel = []")
      case True
      with c show ?thesis by (cases kind) (simp_all add: member_verified_def counted_def)
    next
      case False
      with c show ?thesis
        by (cases m; cases kind)
          (auto simp: member_verified_def counted_def verify_member_def Let_def wrap64_add
            split: if_splits option.splits)
    qed
    from Cons.IH [of "n + counted m"] w m show ?thesis by (simp add: add.assoc)
  qed
qed

text \<open>
  C26: What \<open>Verify\<close> accepts. Only an archive whose bytes have the hash the manifest declares, whose
  reader comes to a clean end, each member of which is safe, complete and (with a file index) listed
  with its size and SHA-256, and the regular members of which have together, as an \<open>int64\<close>, exactly
  the declared total size; and if the manifest carries a signature, only one a verifier accepts.
\<close>

theorem verified_archive_matches_manifest:
  assumes "verify verifier a (Some m) = (None, ev)"
  shows "\<exists>bytes. af_bytes a = Some bytes
    \<and> hash_matches (declared_archive_hash (Some m)) (content_hash bytes) = Some True
    \<and> af_clean_end a \<and> list_all (member_verified (index_files (mf_files m))) (af_members a)
    \<and> wrap64 (sum_list (map counted (af_members a))) = mf_total_size m
    \<and> (if declares_signature (Some m) then \<exists>v. verifier = Some v \<and> v m else True)"
proof -
  obtain bytes where b: "af_bytes a = Some bytes"
      "hash_matches (declared_archive_hash (Some m)) (content_hash bytes) = Some True"
      "walk_archive (verify_member (index_files (mf_files m))) (af_clean_end a) (af_members a) 0
         = (None, mf_total_size m)"
      "if declares_signature (Some m) then \<exists>v. verifier = Some v \<and> v m else True"
    using assms
    by (auto simp: verify_def verify_failed_def verify_entry_violation_def
        split: option.splits if_splits prod.splits walk_error.splits)
  have "wrap64 0 = 0" by (simp add: wrap64_def)
  with walk_verify_ok [of "index_files (mf_files m)" "af_clean_end a" "af_members a" 0] b show ?thesis
    by auto
qed

text \<open>
  Two weaknesses. The budget check of the extraction adds two \<open>int64\<close> values: after one byte, a member
  that claims the largest size passes any budget. And the check of device names differs from the one
  of package \<open>paths\<close>: a space before the extension hides a device.
\<close>

lemma budget_check_wraps: "0 \<le> budget \<Longrightarrow> \<not> wrap64 (1 + int64_max) > budget"
  by (simp add: wrap64_def int64_max_def)

lemma reserved_checks_differ: "reserved_name ''CON .txt'' \<and> \<not> is_reserved_component ''CON .txt''"
  by code_simp

section \<open>A sample archive\<close>

lemma parse_hash_content: "parse_hash (content_hash x) = Some (sha256_hex x)"
proof -
  have sp: "is_space c \<longleftrightarrow> (of_char c :: nat) \<in> {9, 10, 11, 12, 13, 32}" for c
    by (simp add: is_space_def flip: of_char_eq_iff [where 'a = nat])
  have h: "to_lower_ascii (hex_lower n) = hex_lower n \<and> is_hex (hex_lower n) \<and> \<not> is_space (hex_lower n)"
    if "n < 16" for n
    using that by (simp add: hex_lower_def to_lower_ascii_def is_hex_def sp)
  have l: "map to_lower_ascii (sha256_hex x) = sha256_hex x" "list_all is_hex (sha256_hex x)"
    using sha256_hex_chars [of _ x] h by (auto simp: list_all_iff intro!: map_idI)
  have "\<not> is_space c" if "c \<in> set (content_hash x)" for c
  proof (cases "c \<in> set (sha256_hex x)")
    case True
    then show ?thesis using sha256_hex_chars h by blast
  next
    case False
    with that show ?thesis by (auto simp: content_hash_def is_space_def)
  qed
  then have t: "trim_space (content_hash x) = content_hash x" by (rule trim_space_id)
  have m: "map to_lower_ascii (content_hash x) = content_hash x"
    by (simp add: content_hash_def l) (simp add: to_lower_ascii_def)
  have i: "index_byte (content_hash x) (CHR '':'') = Some 6" by (simp add: content_hash_def)
  show ?thesis
    using l length_sha256_hex [of x] by (simp add: parse_hash_def t m i) (simp add: content_hash_def)
qed

lemma hash_matches_content: "hash_matches (content_hash y) (content_hash x) = Some (sha256_hex y = sha256_hex x)"
  by (simp add: hash_matches_def parse_hash_content)

definition sample_header :: "string \<Rightarrow> tar_header" where
  "sample_header n = \<lparr>th_flag = CHR ''0'', th_name = n, th_size = 1, th_mode = 420\<rparr>"

definition sample_archive :: archive_file where
  "sample_archive = \<lparr>af_bytes = Some ''z'',
     af_members = [(sample_header ''game/a'', ''x''), (sample_header ''./game/a'', ''x'')], af_clean_end = True\<rparr>"

definition sample_entry :: "string \<Rightarrow> file_entry" where
  "sample_entry n = \<lparr>fe_path = n, fe_size = 1, fe_hash = content_hash ''x'', fe_mode = []\<rparr>"

text \<open>The manifest lists a second file, which the archive does not have: its first member occurs twice.\<close>

definition sample_release :: manifest where
  "sample_release = sample_manifest\<lparr>mf_total_size := 2, mf_archive_sha256 := content_hash ''z'',
     mf_files := [sample_entry ''game/a'', sample_entry ''game/b'']\<rparr>"

lemma sample_paths:
  "clean ''game/a'' = ''game/a''" "clean ''game/b'' = ''game/b''" "trim_space ''/s'' = ''/s''"
  "equal_fold (base_name (clean ''/s'')) data_dir_name = False"
  "staged_target ''/s'' ''game/a'' = Inr ''/s/game.new/a''" "confine ''/s'' ''/s/game.new/a''"
  by code_simp+

lemma sample_check: "check_entry (sample_header ''game/a'') = Inr (''game/a'', KindRegular)"
  "check_entry (sample_header ''./game/a'') = Inr (''game/a'', KindRegular)"
  by code_simp+

lemma sample_index: "index_files (mf_files sample_release) =
    [(''game/a'', sample_entry ''game/a''), (''game/b'', sample_entry ''game/b'')]"
  by (simp add: sample_release_def index_files_def sample_entry_def sample_paths put_def)

lemma sample_manifest_facts:
  "mf_signatures sample_release = None" "mf_total_size sample_release = 2"
  "declared_archive_hash (Some sample_release) = content_hash ''z''"
  "declared_archive_size (Some sample_release) = 0" "content_hash x \<noteq> []"
  by (simp_all add: sample_release_def sample_manifest_def declared_archive_hash_def declared_archive_size_def
      content_hash_def)

lemma sample_verify_member:
  "verify_member [(''game/a'', sample_entry ''game/a''), (''game/b'', sample_entry ''game/b'')] ''game/a''
     KindRegular (sample_header n, ''x'') k = (None, wrap64 (k + 1))"
  by (simp add: verify_member_def sample_entry_def sample_header_def hash_matches_content)

theorem verified_archive_matches_manifest_witness:
  "fst (verify None sample_archive (Some sample_release)) = None
   \<and> list_all (member_verified (index_files (mf_files sample_release))) (af_members sample_archive)"
proof -
  have "verify None sample_archive (Some sample_release) = (None, [''update.verify.ok''])"
    by (simp add: verify_def sample_index sample_archive_def sample_check sample_verify_member
        declares_signature_def sample_manifest_facts hash_matches_content)
      (simp add: wrap64_def)
  from verified_archive_matches_manifest [OF this] this show ?thesis by (elim exE) simp
qed

definition sample_disk :: disk where
  "sample_disk = \<lparr>files = [(''/g/data/a'', ''old'')], history = [], faults = []\<rparr>"

lemma sample_not_staged: "\<not> staged_under ''/s'' ''/g/data/a''"
proof -
  have "segs_of ''/g/data/a'' = [''g'', ''data'', ''a'']" "segs_of ''/s'' = [''s'']" by code_simp+
  then show ?thesis by (simp add: staged_under_def)
qed

theorem extraction_stays_in_staging_witness:
  "get (files (snd (extract_archive sample_archive ''/s'' (Some sample_release) sample_disk))) ''/g/data/a'' = Some ''old''"
proof -
  have "rooted ''/s''" by (simp add: rooted_def slash_def)
  then have "only_staged ''/s'' (files sample_disk)
      (files (snd (extract_archive sample_archive ''/s'' (Some sample_release) sample_disk)))"
    by (rule crash_inv_last [OF extraction_stays_in_staging])
  then show ?thesis using sample_not_staged by (simp add: only_staged_def sample_disk_def) metis
qed

theorem extraction_installs_listed_files_witness:
  "get (files (snd (extract_archive sample_archive ''/s'' (Some sample_release) sample_disk))) ''/s/game.new/a'' = Some ''x''
   \<and> staged_listed ''/s'' (index_files (mf_files sample_release)) (files sample_disk)
       (files (snd (extract_archive sample_archive ''/s'' (Some sample_release) sample_disk)))"
proof -
  have m: "extract_member ''/s'' [(''game/a'', sample_entry ''game/a''), (''game/b'', sample_entry ''game/b'')] 2 ''game/a''
       KindRegular (sample_header n, ''x'') (y, d)
     = (None, (y\<lparr>ex_written := wrap64 (ex_written y + 1), ex_count := Suc (ex_count y)\<rparr>,
        write_prefixes ''/s/game.new/a'' ''x'' 1 (set_files (put ''/s/game.new/a'' [] (files d)) d)))"
    if "faults d = []" "wrap64 (ex_written y + 1) \<le> 2" for n y and d :: disk
    using that
    by (simp add: extract_member_def sample_paths sample_entry_def sample_header_def fill_file_def sys_plain_def
        sys_truncate_def sys_write_def next_fault_def write_prefixes_def hash_matches_content)
  obtain ev d' where e: "extract_archive sample_archive ''/s'' (Some sample_release) sample_disk = ((None, ev), d')"
      and g: "get (files d') ''/s/game.new/a'' = Some ''x''"
  proof -
    let ?d = "write_prefixes ''/s/game.new/a'' ''x'' 1 (set_files (put ''/s/game.new/a'' [] (files sample_disk)) sample_disk)"
    let ?d' = "write_prefixes ''/s/game.new/a'' ''x'' 1 (set_files (put ''/s/game.new/a'' [] (files ?d)) ?d)"
    have f: "faults sample_disk = []" "faults ?d = []"
      by (simp_all add: sample_disk_def write_prefixes_def)
    have "extract_archive sample_archive ''/s'' (Some sample_release) sample_disk = ((None, [''update.extract'']), ?d')"
      using f by (simp add: extract_archive_def sample_paths sample_index sample_manifest_facts sample_archive_def
          sample_check m sys_plain_def next_fault_def wrap64_def)
    then show thesis by (rule that) (simp add: files_write_prefixes)
  qed
  have "index_files (mf_files sample_release) \<noteq> []" by (simp add: sample_index)
  from extraction_installs_listed_files [OF e this] e g show ?thesis by simp
qed

end
