(* ===== verification/Launcher_Merge.thy ===== *)
theory Launcher_Merge
  imports Update_Archive
begin

text \<open>
  \<open>MergeLauncherInto\<close> of \<open>update/extract.go\<close>: the staged \<open>launcher.new\<close> is copied file by file over
  the live \<open>launcher\<close>. Directories are not represented, so a staged launcher without files counts
  as absent; permission bits are left out.
\<close>

section \<open>Copying one file\<close>

text \<open>\<open>copyFilePreservingMode\<close>: the temporary file is created, written, given its mode, synced and closed.\<close>

definition fill_copy :: "string \<Rightarrow> string \<Rightarrow> 'a disk_scheme \<Rightarrow> errno option \<times> 'a disk_scheme" where
  "fill_copy tmp body d3 =
     (case sys_create tmp d3 of
        (Some e, d4) \<Rightarrow> (Some e, d4)
      | (None, d4) \<Rightarrow>
          (case sys_write tmp body d4 of
             (Some e, d5) \<Rightarrow> (Some e, snd (sys_remove tmp (snd (sys_plain d5))))
           | (None, d5) \<Rightarrow>
               (case sys_plain d5 of
                  (Some e, d6) \<Rightarrow> (Some e, snd (sys_remove tmp (snd (sys_plain d6))))
                | (None, d6) \<Rightarrow>
                    (case sys_plain d6 of
                       (Some e, d7) \<Rightarrow> (Some e, snd (sys_remove tmp (snd (sys_plain d7))))
                     | (None, d7) \<Rightarrow>
                         (case sys_plain d7 of
                            (Some e, d8) \<Rightarrow> (Some e, snd (sys_remove tmp d8))
                          | (None, d8) \<Rightarrow> (None, d8))))))"

text \<open>Before that the source is examined and read, and the directory of the destination made.\<close>

definition write_copy :: "string \<Rightarrow> string \<Rightarrow> 'a disk_scheme \<Rightarrow> errno option \<times> 'a disk_scheme" where
  "write_copy src tmp d0 =
     (case sys_stat src d0 of
        (Inl e, d1) \<Rightarrow> (Some e, d1)
      | (Inr _, d1) \<Rightarrow>
          (case sys_read src d1 of
             (Inl e, d2) \<Rightarrow> (Some e, d2)
           | (Inr body, d2) \<Rightarrow>
               (case sys_plain d2 of
                  (Some e, d3) \<Rightarrow> (Some e, d3)
                | (None, d3) \<Rightarrow> fill_copy tmp body d3)))"

definition aside_of :: "string \<Rightarrow> string" where
  "aside_of dst = dst @ ''.replaced''"

text \<open>The rest of it: the rename, and where the system refuses to replace a file the way around.\<close>

definition replace_file :: "string \<Rightarrow> string \<Rightarrow> 'a disk_scheme \<Rightarrow> errno option \<times> 'a disk_scheme" where
  "replace_file tmp dst d0 =
     (case sys_rename tmp dst d0 of
        (None, d1) \<Rightarrow> (None, d1)
      | (Some e, d1) \<Rightarrow>
          (case sys_stat dst d1 of
             (Inl _, d2) \<Rightarrow> (Some e, snd (sys_remove tmp d2))
           | (Inr _, d2) \<Rightarrow>
               (case sys_rename dst (aside_of dst) (snd (sys_remove (aside_of dst) d2)) of
                  (Some e', d3) \<Rightarrow> (Some e', snd (sys_remove tmp d3))
                | (None, d3) \<Rightarrow>
                    (case sys_rename tmp dst d3 of
                       (Some e', d4) \<Rightarrow> (Some e', snd (sys_remove tmp (snd (sys_rename (aside_of dst) dst d4))))
                     | (None, d4) \<Rightarrow> (None, snd (sys_remove (aside_of dst) d4))))))"

definition copy_file :: "string \<Rightarrow> string \<Rightarrow> string \<Rightarrow> 'a disk_scheme \<Rightarrow> errno option \<times> 'a disk_scheme" where
  "copy_file tmp src dst d0 =
     (case write_copy src tmp d0 of
        (Some e, d1) \<Rightarrow> (Some e, d1)
      | (None, d1) \<Rightarrow> replace_file tmp dst d1)"

section \<open>The merge\<close>

text \<open>The files below a directory, by their path in it, in the order \<open>WalkDir\<close> visits them.\<close>

definition below :: "string \<Rightarrow> string \<Rightarrow> bool" where
  "below dir p = prefix (dir @ [slash]) p"

definition files_under :: "string \<Rightarrow> files \<Rightarrow> string list" where
  "files_under dir m = sort_key (split_on slash) (map (\<lambda>(p, _). drop (Suc (length dir)) p) (filter (\<lambda>(p, _). below dir p) m))"

definition launcher_dir_name :: string where "launcher_dir_name = ''launcher''"

fun merge_files :: "(string \<Rightarrow> string) \<Rightarrow> string \<Rightarrow> string \<Rightarrow> string list \<Rightarrow> 'a disk_scheme \<Rightarrow> bool \<times> 'a disk_scheme" where
  "merge_files temp staged live [] d = (True, d)"
| "merge_files temp staged live (r # rs) d =
     (let target = join_path live r in
      if \<not> confine live target then (False, d)
      else case copy_file (temp target) (staged @ slash # r) target d of
        (Some _, d1) \<Rightarrow> (False, d1)
      | (None, d1) \<Rightarrow> merge_files temp staged live rs d1)"

text \<open>\<open>temp\<close> names the temporary file \<open>CreateTemp\<close> makes beside a target. The result is the reason of the error.\<close>

definition merge_launcher_into ::
    "(string \<Rightarrow> string) \<Rightarrow> string \<Rightarrow> string \<Rightarrow> 'a disk_scheme \<Rightarrow> string option \<times> 'a disk_scheme" where
  "merge_launcher_into temp root folder d0 =
     (let staged = join_path root launcher_staging_dir_name; live = join_path folder launcher_dir_name in
      if files_under staged (files d0) = [] then (None, d0)
      else case sys_plain d0 of
        (Some _, d1) \<Rightarrow> (Some ''launcher_target'', d1)
      | (None, d1) \<Rightarrow>
          (case merge_files temp staged live (files_under staged (files d1)) d1 of
             (False, d2) \<Rightarrow> (Some ''launcher_merge'', d2)
           | (True, d2) \<Rightarrow> (None, d2)))"

section \<open>A launcher file survives its replacement\<close>

text \<open>The old content, or the new one, at its place; or the old one moved aside.\<close>

definition kept_somewhere :: "string \<Rightarrow> string \<Rightarrow> string \<Rightarrow> files \<Rightarrow> bool" where
  "kept_somewhere dst old new m =
     (get m dst = Some old \<or> get m dst = Some new \<or> get m (aside_of dst) = Some old)"

lemma aside_other [simp]: "aside_of dst \<noteq> dst" "dst \<noteq> aside_of dst"
  by (simp_all add: aside_of_def)

lemma inv_fill_copy:
  assumes "temp_inv tmp J" and "J e"
  shows "J (snd (fill_copy tmp body e))"
proof -
  note st = temp_invD [OF assms(1)]
  obtain r1 e1 where c1: "sys_create tmp e = (r1, e1)" by fastforce
  note i1 = st(2) [OF assms(2), unfolded c1 snd_conv]
  obtain r2 e2 where c2: "sys_write tmp body e1 = (r2, e2)" by fastforce
  note i2 = st(3) [OF i1, of body, unfolded c2 snd_conv]
  obtain r3 e3 where c3: "sys_plain e2 = (r3, e3)" by fastforce
  note i3 = st(1) [OF i2, unfolded c3 snd_conv]
  obtain r4 e4 where c4: "sys_plain e3 = (r4, e4)" by fastforce
  note i4 = st(1) [OF i3, unfolded c4 snd_conv]
  obtain r5 e5 where c5: "sys_plain e4 = (r5, e5)" by fastforce
  note i5 = st(1) [OF i4, unfolded c5 snd_conv]
  show ?thesis
    using i1 i2 i3 i4 i5 st(4) [OF i3] st(4) [OF i5] st(4) [OF st(1) [OF i2]] st(4) [OF st(1) [OF i3]] st(4) [OF st(1) [OF i4]]
    by (simp add: fill_copy_def c1 c2 c3 c4 c5 split: option.splits)
qed

lemma fill_copy_ok:
  assumes "fill_copy tmp body e = (None, e')"
  shows "get (files e') tmp = Some body"
proof -
  obtain e1 e2 e3 e4 where c: "sys_create tmp e = (None, e1)" "sys_write tmp body e1 = (None, e2)"
      "sys_plain e2 = (None, e3)" "sys_plain e3 = (None, e4)" "sys_plain e4 = (None, e')"
    using assms by (auto simp: fill_copy_def split: prod.splits option.splits)
  have "files e' = files e2"
    using sys_plain_files [of e2] sys_plain_files [of e3] sys_plain_files [of e4] c by simp
  then show ?thesis using sys_write_ok [OF c(2)] by simp
qed

lemma sys_read_files: "files (snd (sys_read q e)) = files e"
  using read_call.files_call [of q e] by simp

lemma inv_write_copy:
  assumes "ignores tmp P" and "crash_inv P d e"
  shows "crash_inv P d (snd (write_copy src tmp e))"
proof -
  obtain r1 e1 where c1: "sys_stat src e = (r1, e1)" by fastforce
  have i1: "crash_inv P d e1" using stat_call.crash_call_seq [OF assms(2), of src] c1 by simp
  obtain r2 e2 where c2: "sys_read src e1 = (r2, e2)" by fastforce
  have i2: "crash_inv P d e2" using read_call.crash_call_seq [OF i1, of src] c2 by simp
  obtain r3 e3 where c3: "sys_plain e2 = (r3, e3)" by fastforce
  have i3: "crash_inv P d e3" using plain_call.crash_call_seq [OF i2] c3 by simp
  show ?thesis
    using i1 i2 i3 inv_fill_copy [OF temp_inv_crash [OF assms(1)] i3]
    by (simp add: write_copy_def c1 c2 c3 split: sum.splits option.splits)
qed

lemma write_copy_ok:
  assumes "write_copy src tmp e = (None, e')"
  shows "\<exists>body. get (files e) src = Some body \<and> get (files e') tmp = Some body"
proof -
  obtain n e1 body e2 e3 where c: "sys_stat src e = (Inr n, e1)" "sys_read src e1 = (Inr body, e2)"
      "sys_plain e2 = (None, e3)" "fill_copy tmp body e3 = (None, e')"
    using assms by (auto simp: write_copy_def split: sum.splits option.splits prod.splits)
  have "get (files e) src = Some body"
    using sys_read_ok [OF c(2)] sys_stat_files [of src e] c(1) by simp
  with fill_copy_ok [OF c(4)] show ?thesis by blast
qed

lemma crash_rename_seq:
  assumes "crash_inv P d e" and "sys_rename src dst e = (r, e')" and "src \<noteq> dst"
    and "\<And>x. get (files e) src = Some x \<Longrightarrow> P (put dst x (del src (files e)))"
  shows "crash_inv P d e'"
proof -
  have "crash_inv P d (snd (sys_rename src dst e))"
    by (rule rename_call.crash_call_seq [OF assms(1)]) (use assms(3,4) in \<open>auto split: option.splits\<close>)
  with assms(2) show ?thesis by simp
qed

text \<open>The second half: the file aside is dealt with first, the destination is renamed over it, and back on failure.\<close>

lemma crash_replace_file:
  assumes n: "tmp \<noteq> dst" "tmp \<noteq> aside_of dst"
    and m: "get (files e) dst = Some old" "get (files e) tmp = Some new"
    and i: "crash_inv (kept_somewhere dst old new) d e"
  shows "crash_inv (kept_somewhere dst old new) d (snd (replace_file tmp dst e))"
proof -
  let ?K = "kept_somewhere dst old new"
  have ig: "ignores tmp ?K" using n by (auto simp: ignores_def kept_somewhere_def)
  have gone: "crash_inv ?K d (snd (sys_remove tmp x))" if "crash_inv ?K d x" for x
    using temp_invD(4) [OF temp_inv_crash [OF ig] that] .
  obtain r1 e1 where c1: "sys_rename tmp dst e = (r1, e1)" by fastforce
  have i1: "crash_inv ?K d e1"
    by (rule crash_rename_seq [OF i c1 n(1)]) (use n m in \<open>auto simp: kept_somewhere_def\<close>)
  show ?thesis
  proof (cases r1)
    case None
    with i1 show ?thesis by (simp add: replace_file_def c1)
  next
    case (Some x1)
    have f1: "files e1 = files e" using sys_rename_err c1 Some by blast
    obtain r2 e2 where c2: "sys_stat dst e1 = (r2, e2)" by fastforce
    have i2: "crash_inv ?K d e2" and f2: "files e2 = files e"
      using stat_call.crash_call_seq [OF i1, of dst] sys_stat_files [of dst e1] c2 f1 by simp_all
    obtain r3 e3 where c3: "sys_remove (aside_of dst) e2 = (r3, e3)" by fastforce
    have i3: "crash_inv ?K d e3"
      using remove_call.crash_call_seq [OF i2, of "aside_of dst"] c3 m by (simp add: f2 kept_somewhere_def)
    have g3: "get (files e3) dst = Some old" "get (files e3) tmp = Some new"
      using remove_call.files_call [of "aside_of dst" e2] c3 m n f2 by auto
    obtain r4 e4 where c4: "sys_rename dst (aside_of dst) e3 = (r4, e4)" by fastforce
    have i4: "crash_inv ?K d e4"
      by (rule crash_rename_seq [OF i3 c4]) (use g3 in \<open>simp_all add: kept_somewhere_def\<close>)
    obtain r5 e5 where c5: "sys_rename tmp dst e4 = (r5, e5)" by fastforce
    obtain r6 e6 where c6: "sys_rename (aside_of dst) dst e5 = (r6, e6)" by fastforce
    have late: "crash_inv ?K d e5 \<and> crash_inv ?K d (if r5 = None then snd (sys_remove (aside_of dst) e5) else e6)"
      if "r4 = None"
    proof -
      have f4: "files e4 = put (aside_of dst) old (del dst (files e3))"
        using sys_rename_ok [of dst "aside_of dst" e3 e4] c4 that g3 by auto
      have i5: "crash_inv ?K d e5"
        by (rule crash_rename_seq [OF i4 c5 n(1)]) (use n g3 f4 in \<open>auto simp: kept_somewhere_def\<close>)
      show ?thesis
      proof (cases r5)
        case None
        then have "get (files e5) dst = Some new"
          using sys_rename_ok [of tmp dst e4 e5] c5 n f4 g3 by auto
        with None i5 show ?thesis
          using remove_call.crash_call_seq [OF i5, of "aside_of dst"] by (simp add: kept_somewhere_def)
      next
        case (Some x)
        then have "files e5 = files e4" using sys_rename_err c5 by blast
        then have "crash_inv ?K d e6"
          by (intro crash_rename_seq [OF i5 c6]) (simp_all add: f4 kept_somewhere_def)
        with Some i5 show ?thesis by simp
      qed
    qed
    show ?thesis
      using gone [OF i2] gone [OF i4] gone [of e6] late
      by (auto simp: replace_file_def c1 Some c2 c3 c4 c5 c6 split: sum.splits option.splits)
  qed
qed

lemma replace_file_ok:
  assumes "tmp \<noteq> dst" "tmp \<noteq> aside_of dst" "get (files e) tmp = Some new" "replace_file tmp dst e = (None, e')"
  shows "get (files e') dst = Some new"
proof (cases "sys_rename tmp dst e")
  case (Pair r1 e1)
  show ?thesis
  proof (cases r1)
    case None
    then show ?thesis
      using assms Pair sys_rename_ok [of tmp dst e e1] by (auto simp: replace_file_def)
  next
    case (Some x)
    then have f1: "files e1 = files e" using Pair sys_rename_err by blast
    obtain n e2 e3 e4 where c: "sys_stat dst e1 = (Inr n, e2)"
        "sys_rename dst (aside_of dst) (snd (sys_remove (aside_of dst) e2)) = (None, e3)"
        "sys_rename tmp dst e3 = (None, e4)" "e' = snd (sys_remove (aside_of dst) e4)"
      using assms(4) Pair Some by (auto simp: replace_file_def split: sum.splits option.splits prod.splits)
    have "get (files (snd (sys_remove (aside_of dst) e2))) tmp = Some new"
      using remove_call.files_call [of "aside_of dst" e2] sys_stat_files [of dst e1] c(1) f1 assms(2,3) by auto
    then have "get (files e3) tmp = Some new"
      using sys_rename_ok [OF c(2)] assms(1,2) by auto
    then have "get (files e4) dst = Some new"
      using sys_rename_ok [OF c(3) assms(1)] assms(1) by auto
    then show ?thesis
      using remove_call.files_call [of "aside_of dst" e4] c(4) by auto
  qed
qed

text \<open>
  C31: Replacing a launcher file never loses it. Whatever calls fail and wherever a crash falls, the file
  holds its old content or the whole new one, or the old content stands beside it under the name with
  \<open>.replaced\<close>; and when the copy reports success the file holds the content of the staged one. The
  temporary name is the only thing assumed: \<open>CreateTemp\<close> picks one of no other file.
\<close>
theorem launcher_file_survives:
  assumes "tmp \<noteq> dst" "tmp \<noteq> aside_of dst" "tmp \<noteq> src"
    and "get (files d) dst = Some old" "get (files d) src = Some new"
  shows "crash_inv (kept_somewhere dst old new) d (snd (copy_file tmp src dst d))
    \<and> (fst (copy_file tmp src dst d) = None
        \<longrightarrow> get (files (snd (copy_file tmp src dst d))) dst = Some new)"
proof -
  obtain r1 d1 where c1: "write_copy src tmp d = (r1, d1)" by fastforce
  let ?H = "\<lambda>m. get m dst = Some old \<and> get m src = Some new"
  have "ignores tmp ?H" using assms(1,3) by (auto simp: ignores_def)
  then have h: "crash_inv ?H d d1"
    using inv_write_copy [of tmp ?H d d src] crash_inv_refl [of ?H d] assms(4,5) c1 by simp
  have i: "crash_inv (kept_somewhere dst old new) d d1"
    by (rule crash_inv_mono [OF h]) (simp add: kept_somewhere_def)
  show ?thesis
  proof (cases r1)
    case (Some e)
    with i show ?thesis by (simp add: copy_file_def c1)
  next
    case None
    have t: "get (files d1) tmp = Some new"
      using write_copy_ok [of src tmp d d1] c1 None assms(5) by auto
    obtain r2 d2 where c2: "replace_file tmp dst d1 = (r2, d2)" by fastforce
    have "crash_inv (kept_somewhere dst old new) d d2"
      using crash_replace_file [OF assms(1,2) _ t i] crash_inv_last [OF h] c2 by simp
    moreover have "r2 = None \<longrightarrow> get (files d2) dst = Some new"
      using replace_file_ok [OF assms(1,2) t] c2 by blast
    ultimately show ?thesis by (simp add: copy_file_def c1 None c2)
  qed
qed

definition sample_launcher :: disk where
  "sample_launcher = \<lparr>files = [(''/u/l'', ''new''), (''/g/l'', ''old'')], history = [], faults = [Runs, Runs, Runs, Runs, Runs, Runs, Runs, Runs, Fails EEXIST 0]\<rparr>"

theorem launcher_file_survives_witness:
  "get (files (snd (copy_file ''/g/l.tmp-1'' ''/u/l'' ''/g/l'' sample_launcher))) ''/g/l'' = Some ''new''"
proof -
  have e: "fst (copy_file ''/g/l.tmp-1'' ''/u/l'' ''/g/l'' sample_launcher) = None" by code_simp
  have "get (files sample_launcher) ''/g/l'' = Some ''old''" "get (files sample_launcher) ''/u/l'' = Some ''new''"
    by code_simp+
  from launcher_file_survives [OF _ _ _ this, of "''/g/l.tmp-1''"] e show ?thesis
    by (simp add: aside_of_def)
qed

end
