(* ===== verification/Config.thy ===== *)
theory Config
  imports Json_Fields Paths
begin

text \<open>
  \<open>config/config.go\<close>: the launcher configuration. A file is checked against the embedded JSON schema
  (by a validator that is not part of the repository: the argument \<open>schema_ok\<close>), decoded over the
  default values, and then clamped or refused by \<open>applyDerived\<close>.
\<close>

section \<open>The configuration\<close>

record port_config =
  pc_base :: nat
  pc_span :: nat
  pc_require_confirmation :: bool
  pc_allow_out_of_range :: bool
  pc_deny_list_file :: string

record server_config =
  sv_bind :: string
  sv_heartbeat :: int
  sv_idle_timeout :: int
  sv_max_range :: int
  sv_session_ttl :: int
  sv_bootstrap_ttl :: int
  sv_probe_path :: string
  sv_csp :: string
  sv_serve_mods :: bool
  sv_csrf_required :: bool
  sv_drain_timeout :: int
  sv_coep :: string
  sv_entry_path :: string

record min_browser_version =
  bv_chrome :: int
  bv_edge :: int
  bv_opera :: int
  bv_brave :: string

record update_config =
  up_channel :: string
  up_patch_base_url :: string
  up_user_initiated_only :: bool
  up_retain_previous :: bool
  up_protect_data_dir :: bool

record diagnostics_config =
  dg_retention_files :: int
  dg_max_bytes :: int
  dg_expose_paths :: bool

record data_api_config =
  da_max_request :: int
  da_writes_per_minute :: int
  da_bytes_per_minute :: int
  da_keep_revisions :: int
  da_trash_days :: int
  da_allow_override :: bool

record config =
  cf_schema :: string
  cf_game_id :: string
  cf_game_name :: string
  cf_release :: string
  cf_port :: port_config
  cf_server :: server_config
  cf_browsers :: "string list"
  cf_min_browser :: min_browser_version
  cf_mime_types :: "(string \<times> string) list"
  cf_update :: update_config
  cf_diagnostics :: diagnostics_config
  cf_locales :: "string list"
  cf_data_api :: data_api_config
  cf_path :: string

definition expected_schema :: string where "expected_schema = ''kobra.launcher-config/1''"
definition default_entry_path :: string where "default_entry_path = ''/index.html''"
definition entry_documents :: "string list" where "entry_documents = [''/'', ''/index.html'', ''/editor'']"

definition default_config :: config where
  "default_config = \<lparr>
     cf_schema = expected_schema, cf_game_id = [], cf_game_name = [], cf_release = [],
     cf_port = \<lparr>pc_base = 8765, pc_span = 100, pc_require_confirmation = True,
                pc_allow_out_of_range = True, pc_deny_list_file = ''port-deny-list.json''\<rparr>,
     cf_server = \<lparr>sv_bind = ''127.0.0.1'', sv_heartbeat = 5, sv_idle_timeout = 90, sv_max_range = 8388608,
                  sv_session_ttl = 28800, sv_bootstrap_ttl = 120, sv_probe_path = ''/__kobra/probe'',
                  sv_csp = [], sv_serve_mods = True, sv_csrf_required = True, sv_drain_timeout = 15,
                  sv_coep = [], sv_entry_path = default_entry_path\<rparr>,
     cf_browsers = [''chrome'', ''msedge'', ''brave'', ''opera''],
     cf_min_browser = \<lparr>bv_chrome = 105, bv_edge = 105, bv_opera = 91, bv_brave = ''1.45''\<rparr>,
     cf_mime_types = [(''.wasm'', ''application/wasm''), (''.js'', ''text/javascript''),
                      (''.mjs'', ''text/javascript''), (''.json'', ''application/json''),
                      (''.html'', ''text/html''), (''.css'', ''text/css''), (''.ogg'', ''audio/ogg''),
                      (''.mp3'', ''audio/mpeg''), (''.png'', ''image/png''), (''.webp'', ''image/webp''),
                      (''.svg'', ''image/svg+xml''), (''.woff2'', ''font/woff2'')],
     cf_update = \<lparr>up_channel = ''manual'', up_patch_base_url = [], up_user_initiated_only = True,
                  up_retain_previous = True, up_protect_data_dir = True\<rparr>,
     cf_diagnostics = \<lparr>dg_retention_files = 5, dg_max_bytes = 1048576, dg_expose_paths = False\<rparr>,
     cf_locales = [''en''],
     cf_data_api = \<lparr>da_max_request = 67108864, da_writes_per_minute = 100, da_bytes_per_minute = 67108864,
                    da_keep_revisions = 8, da_trash_days = 30, da_allow_override = True\<rparr>,
     cf_path = []\<rparr>"

section \<open>Decoding over the defaults\<close>

text \<open>
  A member sets its field on top of what is there: the defaults first, then the members of that
  name in document order. \<open>null\<close> changes nothing in a value that is not a slice, map or pointer.
\<close>

definition over :: "(json \<Rightarrow> 'a \<Rightarrow> 'a option) \<Rightarrow> string \<Rightarrow> members \<Rightarrow> 'a \<Rightarrow> 'a option" where
  "over conv name ms d = foldl (\<lambda>acc v. Option.bind acc (conv v)) (Some d) (map fst (named name ms))"

definition into_string :: "json \<Rightarrow> string \<Rightarrow> string option" where
  "into_string v d = (if v = JNull then Some d else as_string v)"

definition into_int :: "json \<Rightarrow> int \<Rightarrow> int option" where
  "into_int v d = (if v = JNull then Some d else as_int v)"

definition into_bool :: "json \<Rightarrow> bool \<Rightarrow> bool option" where
  "into_bool v d = (if v = JNull then Some d else as_bool v)"

definition into_uint16 :: "json \<Rightarrow> nat \<Rightarrow> nat option" where
  "into_uint16 v d =
     (if v = JNull then Some d
      else case v of
        JNum l \<Rightarrow> (case parse_digits l of Some n \<Rightarrow> if n < 2 ^ 16 then Some n else None | None \<Rightarrow> None)
      | _ \<Rightarrow> None)"

definition into_strings :: "json \<Rightarrow> string list \<Rightarrow> string list option" where
  "into_strings v d =
     (if v = JNull then Some [] else as_list (\<lambda>x. if x = JNull then Some [] else as_string x) v)"

definition into_map :: "json \<Rightarrow> (string \<times> string) list \<Rightarrow> (string \<times> string) list option" where
  "into_map v d =
     (case v of
        JNull \<Rightarrow> Some []
      | JObj ms \<Rightarrow>
          foldl (\<lambda>acc (k, x). case (acc, if x = JNull then Some [] else as_string x) of
                   (Some m, Some s) \<Rightarrow> Some (put k s m) | _ \<Rightarrow> None) (Some d) ms
      | _ \<Rightarrow> None)"

definition into_struct :: "(members \<Rightarrow> 'a \<Rightarrow> 'a option) \<Rightarrow> json \<Rightarrow> 'a \<Rightarrow> 'a option" where
  "into_struct dec v d =
     (case v of
        JNull \<Rightarrow> Some d
      | JObj ms \<Rightarrow> dec (map (\<lambda>(k, x). (k, x, encode x)) ms) d
      | _ \<Rightarrow> None)"

text \<open>One field of a struct, and the fields in turn.\<close>

definition set_field :: "(json \<Rightarrow> 'a \<Rightarrow> 'a option) \<Rightarrow> string \<Rightarrow> members \<Rightarrow> ('s \<Rightarrow> 'a)
    \<Rightarrow> (('a \<Rightarrow> 'a) \<Rightarrow> 's \<Rightarrow> 's) \<Rightarrow> 's \<Rightarrow> 's option" where
  "set_field conv name ms sel upd d = map_option (\<lambda>x. upd (\<lambda>_. x) d) (over conv name ms (sel d))"

fun in_turn :: "('s \<Rightarrow> 's option) list \<Rightarrow> 's \<Rightarrow> 's option" where
  "in_turn [] d = Some d"
| "in_turn (f # fs) d = Option.bind (f d) (in_turn fs)"

definition decode_port :: "members \<Rightarrow> port_config \<Rightarrow> port_config option" where
  "decode_port ms = in_turn
     [set_field into_uint16 ''base'' ms pc_base pc_base_update,
      set_field into_uint16 ''span'' ms pc_span pc_span_update,
      set_field into_bool ''require_confirmation'' ms pc_require_confirmation pc_require_confirmation_update,
      set_field into_bool ''allow_out_of_range'' ms pc_allow_out_of_range pc_allow_out_of_range_update,
      set_field into_string ''deny_list_file'' ms pc_deny_list_file pc_deny_list_file_update]"

definition decode_server :: "members \<Rightarrow> server_config \<Rightarrow> server_config option" where
  "decode_server ms = in_turn
     [set_field into_string ''bind'' ms sv_bind sv_bind_update,
      set_field into_int ''heartbeat_interval_seconds'' ms sv_heartbeat sv_heartbeat_update,
      set_field into_int ''idle_timeout_seconds'' ms sv_idle_timeout sv_idle_timeout_update,
      set_field into_int ''max_range_bytes'' ms sv_max_range sv_max_range_update,
      set_field into_int ''session_ttl_seconds'' ms sv_session_ttl sv_session_ttl_update,
      set_field into_int ''bootstrap_token_ttl_seconds'' ms sv_bootstrap_ttl sv_bootstrap_ttl_update,
      set_field into_string ''probe_path'' ms sv_probe_path sv_probe_path_update,
      set_field into_string ''csp'' ms sv_csp sv_csp_update,
      set_field into_bool ''serve_mods'' ms sv_serve_mods sv_serve_mods_update,
      set_field into_bool ''csrf_required'' ms sv_csrf_required sv_csrf_required_update,
      set_field into_int ''drain_timeout_seconds'' ms sv_drain_timeout sv_drain_timeout_update,
      set_field into_string ''cross_origin_embedder_policy'' ms sv_coep sv_coep_update,
      set_field into_string ''entry_path'' ms sv_entry_path sv_entry_path_update]"

definition decode_min_browser_version :: "members \<Rightarrow> min_browser_version \<Rightarrow> min_browser_version option" where
  "decode_min_browser_version ms = in_turn
     [set_field into_int ''chrome'' ms bv_chrome bv_chrome_update,
      set_field into_int ''edge'' ms bv_edge bv_edge_update,
      set_field into_int ''opera'' ms bv_opera bv_opera_update,
      set_field into_string ''brave'' ms bv_brave bv_brave_update]"

definition decode_update :: "members \<Rightarrow> update_config \<Rightarrow> update_config option" where
  "decode_update ms = in_turn
     [set_field into_string ''channel'' ms up_channel up_channel_update,
      set_field into_string ''patch_base_url'' ms up_patch_base_url up_patch_base_url_update,
      set_field into_bool ''update_check_user_initiated_only'' ms up_user_initiated_only up_user_initiated_only_update,
      set_field into_bool ''retain_previous_release'' ms up_retain_previous up_retain_previous_update,
      set_field into_bool ''protect_data_dir'' ms up_protect_data_dir up_protect_data_dir_update]"

definition decode_diagnostics :: "members \<Rightarrow> diagnostics_config \<Rightarrow> diagnostics_config option" where
  "decode_diagnostics ms = in_turn
     [set_field into_int ''log_retention_files'' ms dg_retention_files dg_retention_files_update,
      set_field into_int ''log_max_bytes'' ms dg_max_bytes dg_max_bytes_update,
      set_field into_bool ''expose_filesystem_paths'' ms dg_expose_paths dg_expose_paths_update]"

definition decode_data_api :: "members \<Rightarrow> data_api_config \<Rightarrow> data_api_config option" where
  "decode_data_api ms = in_turn
     [set_field into_int ''max_request_bytes'' ms da_max_request da_max_request_update,
      set_field into_int ''writes_per_minute'' ms da_writes_per_minute da_writes_per_minute_update,
      set_field into_int ''bytes_per_minute'' ms da_bytes_per_minute da_bytes_per_minute_update,
      set_field into_int ''keep_revisions'' ms da_keep_revisions da_keep_revisions_update,
      set_field into_int ''trash_retention_days'' ms da_trash_days da_trash_days_update,
      set_field into_bool ''allow_data_dir_override'' ms da_allow_override da_allow_override_update]"

definition decode_config :: "members \<Rightarrow> config \<Rightarrow> config option" where
  "decode_config ms = in_turn
     [set_field into_string ''schema'' ms cf_schema cf_schema_update,
      set_field into_string ''game_id'' ms cf_game_id cf_game_id_update,
      set_field into_string ''game_name'' ms cf_game_name cf_game_name_update,
      set_field into_string ''release'' ms cf_release cf_release_update,
      set_field (into_struct decode_port) ''port'' ms cf_port cf_port_update,
      set_field (into_struct decode_server) ''server'' ms cf_server cf_server_update,
      set_field into_strings ''browser_preference'' ms cf_browsers cf_browsers_update,
      set_field (into_struct decode_min_browser_version) ''min_browser_version'' ms cf_min_browser cf_min_browser_update,
      set_field into_map ''mime_types'' ms cf_mime_types cf_mime_types_update,
      set_field (into_struct decode_update) ''update'' ms cf_update cf_update_update,
      set_field (into_struct decode_diagnostics) ''diagnostics'' ms cf_diagnostics cf_diagnostics_update,
      set_field into_strings ''locales'' ms cf_locales cf_locales_update,
      set_field (into_struct decode_data_api) ''data_api'' ms cf_data_api cf_data_api_update]"

section \<open>Clamps and refusals\<close>

definition clamp :: "int \<Rightarrow> int \<Rightarrow> int \<Rightarrow> int" where
  "clamp lo hi v = (let a = (if v < lo then lo else v) in if hi < a then hi else a)"

definition validate_entry_path :: "string \<Rightarrow> string option" where
  "validate_entry_path p =
     (if p = [] then Some default_entry_path else if p \<in> set entry_documents then Some p else None)"

definition coep_policies :: "string list" where "coep_policies = [''require-corp'', ''credentialless'']"

definition validate_coep :: "string \<Rightarrow> bool" where
  "validate_coep v = (if v = [] then True else v \<in> set coep_policies)"

definition isolated :: "server_config \<Rightarrow> bool" where
  "isolated s = (sv_coep s = ''require-corp'' \<or> sv_coep s = ''credentialless'')"

definition validate_probe_path :: "config \<Rightarrow> string \<Rightarrow> bool" where
  "validate_probe_path c protocol_path =
     (sv_probe_path (cf_server c) = [] \<or> sv_probe_path (cf_server c) = protocol_path)"

text \<open>Why a configuration is refused.\<close>

datatype config_error =
    NotJson | SchemaMismatch | NotDecodable
  | IdleTimeoutTooShort | BindNotLoopback | CsrfNotRequired | BadEntryPath | BadCoep
  | DataDirUnprotected | PathsExposed | GameIdInvalid | SpanZero

text \<open>\<open>applyDerived\<close>; the bootstrap lifetime is clamped before the first refusal is looked for.\<close>

definition apply_derived :: "config \<Rightarrow> config_error + config" where
  "apply_derived c =
     (let sv = cf_server c;
          sv = sv\<lparr>sv_bootstrap_ttl := clamp 10 600 (sv_bootstrap_ttl sv)\<rparr>
      in if sv_idle_timeout sv < 30 then Inl IdleTimeoutTooShort
         else
           let sv = sv\<lparr>sv_idle_timeout := (if 3600 < sv_idle_timeout sv then 3600 else sv_idle_timeout sv),
                       sv_heartbeat := clamp 1 60 (sv_heartbeat sv)\<rparr>
           in if sv_bind sv \<noteq> ''127.0.0.1'' then Inl BindNotLoopback
              else if \<not> sv_csrf_required sv then Inl CsrfNotRequired
              else case validate_entry_path (sv_entry_path sv) of
                None \<Rightarrow> Inl BadEntryPath
              | Some entry \<Rightarrow>
                  (let sv = sv\<lparr>sv_entry_path := entry\<rparr>; c = c\<lparr>cf_server := sv\<rparr>
                   in if \<not> validate_coep (sv_coep sv) then Inl BadCoep
                      else if \<not> up_protect_data_dir (cf_update c) then Inl DataDirUnprotected
                      else if dg_expose_paths (cf_diagnostics c) then Inl PathsExposed
                      else if \<not> valid_game_id (cf_game_id c) then Inl GameIdInvalid
                      else if pc_span (cf_port c) = 0 then Inl SpanZero
                      else Inr c))"

definition parse_config :: "(json \<Rightarrow> bool) \<Rightarrow> string \<Rightarrow> config_error + config" where
  "parse_config schema_ok raw =
     (case unmarshal raw of
        None \<Rightarrow> Inl NotJson
      | Some doc \<Rightarrow>
          if \<not> schema_ok doc then Inl SchemaMismatch
          else case (if doc = JNull then Some default_config
                     else Option.bind (unmarshal_members raw) (\<lambda>ms. decode_config ms default_config)) of
            None \<Rightarrow> Inl NotDecodable
          | Some c \<Rightarrow> apply_derived c)"

text \<open>\<open>Load\<close>, from what reading the file gave; it leaves the path in the result.\<close>

definition load_config :: "(json \<Rightarrow> bool) \<Rightarrow> string \<Rightarrow> string option \<Rightarrow> config_error option + config" where
  "load_config schema_ok path file =
     (case file of
        None \<Rightarrow> Inl None
      | Some raw \<Rightarrow>
          (case parse_config schema_ok raw of
             Inl err \<Rightarrow> Inl (Some err)
           | Inr c \<Rightarrow> Inr (c\<lparr>cf_path := path\<rparr>)))"

definition deny_list_path :: "config \<Rightarrow> string \<Rightarrow> string" where
  "deny_list_path c folder =
     (let f = pc_deny_list_file (cf_port c)
      in if f = [] then [] else if rooted f then f
         else join_path (join_path folder ''launcher'') f)"

definition seconds :: "int \<Rightarrow> int" where
  "seconds n = wrap64 (n * second)"

definition default_csp :: string where
  "default_csp = concat
     [''default-src 'none'; '', ''script-src 'self' 'wasm-unsafe-eval'; '', ''style-src 'self' 'unsafe-inline'; '',
      ''img-src 'self' data: blob:; '', ''media-src 'self' blob:; '', ''font-src 'self'; '',
      ''connect-src 'self'; '', ''worker-src 'self' blob:; '', ''form-action 'none'; '',
      ''frame-ancestors 'none'; '', ''base-uri 'none'; '', ''object-src 'none'', [CHR 0x27]]"

definition csp :: "config \<Rightarrow> string" where
  "csp c = (if sv_csp (cf_server c) \<noteq> [] then sv_csp (cf_server c) else default_csp)"

section \<open>What an accepted configuration is\<close>

definition ports_fit :: "config \<Rightarrow> bool" where
  "ports_fit c \<longleftrightarrow> pc_base (cf_port c) < 2 ^ 16 \<and> pc_span (cf_port c) < 2 ^ 16"

definition config_ok :: "config \<Rightarrow> bool" where
  "config_ok c \<longleftrightarrow>
     sv_bootstrap_ttl (cf_server c) \<in> {10..600} \<and> sv_idle_timeout (cf_server c) \<in> {30..3600}
     \<and> sv_heartbeat (cf_server c) \<in> {1..60} \<and> sv_bind (cf_server c) = ''127.0.0.1''
     \<and> sv_csrf_required (cf_server c) \<and> sv_entry_path (cf_server c) \<in> set entry_documents
     \<and> (sv_coep (cf_server c) = [] \<or> isolated (cf_server c))
     \<and> up_protect_data_dir (cf_update c) \<and> \<not> dg_expose_paths (cf_diagnostics c)
     \<and> valid_game_id (cf_game_id c) \<and> 0 < pc_span (cf_port c)"

lemma over_inv:
  assumes "over conv name ms d = Some r" and "P d" and step: "\<And>v x y. conv v x = Some y \<Longrightarrow> P x \<Longrightarrow> P y"
  shows "P r"
proof -
  have n: "foldl (\<lambda>acc v. Option.bind acc (conv v)) None vs = None" for vs :: "json list"
    by (induction vs) auto
  have "foldl (\<lambda>acc v. Option.bind acc (conv v)) (Some d) vs = Some r \<Longrightarrow> P d \<Longrightarrow> P r" for vs
  proof (induction vs arbitrary: d)
    case (Cons v vs)
    then show ?case by (cases "conv v d") (auto simp: n intro: step)
  qed simp
  with assms show ?thesis by (auto simp: over_def)
qed

lemma set_field_inv:
  assumes "set_field conv name ms sel upd d = Some d'" and "P d"
    and "\<And>x. over conv name ms (sel d) = Some x \<Longrightarrow> P (upd (\<lambda>_. x) d)"
  shows "P d'"
  using assms by (auto simp: set_field_def)

lemma in_turn_inv:
  "in_turn fs d = Some d' \<Longrightarrow> P d \<Longrightarrow> (\<And>f x y. f \<in> set fs \<Longrightarrow> f x = Some y \<Longrightarrow> P x \<Longrightarrow> P y) \<Longrightarrow> P d'"
proof (induction fs arbitrary: d)
  case (Cons f fs)
  from Cons.prems(1) obtain x where x: "f d = Some x" "in_turn fs x = Some d'" by (cases "f d") auto
  have "P x" using Cons.prems(3) [of f d x] x(1) Cons.prems(2) by simp
  show ?case
  proof (rule Cons.IH [OF x(2) \<open>P x\<close>])
    fix g y z assume "g \<in> set fs" "g y = Some z" "P y"
    then show "P z" using Cons.prems(3) [of g y z] by simp
  qed
qed simp

lemma into_uint16_fits: "into_uint16 v x = Some y \<Longrightarrow> x < 2 ^ 16 \<Longrightarrow> y < 2 ^ 16"
  by (auto simp: into_uint16_def split: if_splits json.splits option.splits)

lemma decode_port_fits:
  assumes "decode_port ms p = Some p'" and "pc_base p < 2 ^ 16 \<and> pc_span p < 2 ^ 16"
  shows "pc_base p' < 2 ^ 16 \<and> pc_span p' < 2 ^ 16"
proof -
  have u: "over into_uint16 n ms b = Some r \<Longrightarrow> b < 2 ^ 16 \<Longrightarrow> r < 2 ^ 16" for n b r
    by (rule over_inv [where P = "\<lambda>n. n < 2 ^ 16"]) (use into_uint16_fits in auto)
  show ?thesis
    using assms unfolding decode_port_def
    by (rule in_turn_inv [where P = "\<lambda>p. pc_base p < 2 ^ 16 \<and> pc_span p < 2 ^ 16"])
      (auto simp: set_field_def simp del: power_numeral; erule (1) u)
qed

lemma decode_config_fits:
  assumes "decode_config ms c = Some c'" and "ports_fit c"
  shows "ports_fit c'"
proof -
  have s: "into_struct decode_port v p = Some p' \<Longrightarrow> pc_base p < 2 ^ 16 \<and> pc_span p < 2 ^ 16
      \<Longrightarrow> pc_base p' < 2 ^ 16 \<and> pc_span p' < 2 ^ 16" for v p p'
    by (auto simp: into_struct_def dest: decode_port_fits split: json.splits)
  have u: "over (into_struct decode_port) ''port'' ms p = Some p' \<Longrightarrow> pc_base p < 2 ^ 16 \<and> pc_span p < 2 ^ 16
      \<Longrightarrow> pc_base p' < 2 ^ 16 \<and> pc_span p' < 2 ^ 16" for p p'
    by (rule over_inv [where P = "\<lambda>p. pc_base p < 2 ^ 16 \<and> pc_span p < 2 ^ 16"]) (use s in blast)+
  show ?thesis
    using assms unfolding decode_config_def
    by (rule in_turn_inv) (auto simp: set_field_def ports_fit_def simp del: power_numeral; drule u; simp)
qed

lemma clamp_range: "lo \<le> hi \<Longrightarrow> clamp lo hi v \<in> {lo..hi}"
  by (simp add: clamp_def Let_def)

lemma clamp_id: "v \<in> {lo..hi} \<Longrightarrow> clamp lo hi v = v"
  by (simp add: clamp_def Let_def)

lemma apply_derived_ok:
  assumes "apply_derived c = Inr c'"
  shows "config_ok c' \<and> cf_port c' = cf_port c"
proof -
  let ?sv = "cf_server c"
  from assms obtain entry where e: "validate_entry_path (sv_entry_path ?sv) = Some entry"
    and i: "30 \<le> sv_idle_timeout ?sv"
    by (auto simp: apply_derived_def Let_def split: if_splits option.splits)
  have ed: "entry \<in> set entry_documents"
    using e by (auto simp: validate_entry_path_def entry_documents_def default_entry_path_def split: if_splits)
  show ?thesis
    using assms ed i clamp_range [of 10 600 "sv_bootstrap_ttl ?sv"] clamp_range [of 1 60 "sv_heartbeat ?sv"]
    by (auto simp: apply_derived_def Let_def e config_ok_def validate_coep_def isolated_def coep_policies_def
        split: if_splits)
qed

lemma config_ok_fixed:
  assumes "config_ok c"
  shows "apply_derived c = Inr c"
proof -
  let ?sv = "cf_server c"
  have t: "clamp 10 600 (sv_bootstrap_ttl ?sv) = sv_bootstrap_ttl ?sv"
    "clamp 1 60 (sv_heartbeat ?sv) = sv_heartbeat ?sv"
    "\<not> sv_idle_timeout ?sv < 30" "\<not> 3600 < sv_idle_timeout ?sv"
    using assms by (auto simp: config_ok_def clamp_id)
  have e: "validate_entry_path (sv_entry_path ?sv) = Some (sv_entry_path ?sv)" "validate_coep (sv_coep ?sv)"
    using assms by (auto simp: config_ok_def validate_entry_path_def entry_documents_def
        validate_coep_def isolated_def coep_policies_def)
  show ?thesis
    using assms by (simp add: config_ok_def apply_derived_def Let_def t e)
qed

lemma parse_config_derived:
  assumes "parse_config schema_ok raw = Inr c"
  obtains c0 where "apply_derived c0 = Inr c" "ports_fit c0"
proof -
  have d: "ports_fit default_config" by (simp add: ports_fit_def default_config_def)
  from assms that show thesis
    by (auto simp: parse_config_def d dest: decode_config_fits [OF _ d]
        split: option.splits if_splits bind_splits)
qed

lemma parse_config_ok: "parse_config schema_ok raw = Inr c \<Longrightarrow> config_ok c"
  by (erule parse_config_derived) (simp add: apply_derived_ok)


text \<open>The smallest document: a game id, and a timeout beyond the limit.\<close>

definition sample_config_doc :: "(string \<times> json) list" where
  "sample_config_doc = [(''game_id'', JStr ''a.b'')]"


end
