(* ===== verification/Config_Merge.thy ===== *)
theory Config_Merge
  imports Config KobraErr
begin

text \<open>
  \<open>update/configmerge.go\<close>: the merge of the installed \<open>launcher.config.json\<close> with the one a release
  ships. A Go \<open>map[string]any\<close> is a list of members in the order of their keys, as the decoder
  gives it.
\<close>

section \<open>The merge\<close>

type_synonym doc = "(string \<times> json) list"

definition release_owned_keys :: "string list" where
  "release_owned_keys = [''release'', ''game_id'', ''game_name'', ''mime_types'', ''locales'', ''schema'']"

definition prefix_keys :: "string \<Rightarrow> string list \<Rightarrow> string list" where
  "prefix_keys pre ks = map (\<lambda>k. pre @ dot # k) ks"

text \<open>The keys of both documents, each once, sorted.\<close>

definition all_keys :: "doc \<Rightarrow> doc \<Rightarrow> string list" where
  "all_keys loc rel = sort (remdups (map fst rel @ map fst loc))"

lemma member_size: "member k ms = Some v \<Longrightarrow> size v < size (JObj ms)"
proof (induction ms)
  case (Cons p ms)
  then show ?case by (cases p) (auto simp: member_def split: if_splits)
qed (simp add: member_def)

lemma member_object_size:
  "Some (JObj lm) = member k ms \<Longrightarrow> size_list (size_prod (\<lambda>_. 0) size) lm < size_list (size_prod (\<lambda>_. 0) size) ms"
  using member_size [of k ms "JObj lm"] by simp

text \<open>
  \<open>mergeConfigDocs\<close>: the merged document, and the key names taken from the local and from the
  release document.
\<close>

function merge_docs :: "doc \<Rightarrow> doc \<Rightarrow> doc \<times> string list \<times> string list" where
  "merge_docs loc rel =
     (let parts = map (\<lambda>k.
        case (member k rel, member k loc) of
          (None, None) \<Rightarrow> ([], [], [])
        | (None, Some lv) \<Rightarrow> ([(k, lv)], [k], [])
        | (Some rv, lo) \<Rightarrow>
            if k \<in> set release_owned_keys then ([(k, rv)], [], [k])
            else (case lo of
                None \<Rightarrow> ([(k, rv)], [], [k])
              | Some lv \<Rightarrow>
                  (case lv of
                     JObj lm \<Rightarrow>
                       (case rv of
                          JObj rm \<Rightarrow>
                            (case merge_docs lm rm of
                               (sub, from_loc, from_rel) \<Rightarrow>
                                 ([(k, JObj sub)],
                                  if from_loc = [] \<and> from_rel = [] then [k] else prefix_keys k from_loc,
                                  if from_loc = [] \<and> from_rel = [] then [] else prefix_keys k from_rel))
                        | _ \<Rightarrow> ([(k, lv)], [k], []))
                   | _ \<Rightarrow> ([(k, lv)], [k], [])))) (all_keys loc rel)
      in (concat (map fst parts), concat (map (fst \<circ> snd) parts), concat (map (snd \<circ> snd) parts)))"
  by pat_completeness auto
termination
  by (relation "measure (\<lambda>(loc, rel). size (JObj loc))") (auto dest!: member_object_size)

declare merge_docs.simps [simp del]

section \<open>What a key of the merged document holds\<close>

definition merged_at :: "doc \<Rightarrow> doc \<Rightarrow> string \<Rightarrow> json option" where
  "merged_at loc rel k =
     (case (member k rel, member k loc) of
        (None, lo) \<Rightarrow> lo
      | (Some rv, None) \<Rightarrow> Some rv
      | (Some rv, Some lv) \<Rightarrow>
          Some (if k \<in> set release_owned_keys then rv
                else case lv of
                  JObj lm \<Rightarrow> (case rv of JObj rm \<Rightarrow> JObj (fst (merge_docs lm rm)) | _ \<Rightarrow> lv)
                | _ \<Rightarrow> lv))"

definition entries :: "(string \<Rightarrow> json option) \<Rightarrow> string list \<Rightarrow> doc" where
  "entries f ks = concat (map (\<lambda>k. case f k of None \<Rightarrow> [] | Some v \<Rightarrow> [(k, v)]) ks)"

lemma merge_docs_entries: "fst (merge_docs loc rel) = entries (merged_at loc rel) (all_keys loc rel)"
  unfolding merge_docs.simps [of loc rel] Let_def entries_def fst_conv map_map
  by (intro arg_cong [of _ _ concat] map_cong refl)
    (auto simp: merged_at_def split: option.splits json.splits prod.splits)

lemma set_all_keys: "set (all_keys loc rel) = fst ` set rel \<union> fst ` set loc"
  by (simp add: all_keys_def)

lemma distinct_all_keys: "distinct (all_keys loc rel)"
  by (simp add: all_keys_def)

lemma member_None: "member k ms = None \<longleftrightarrow> k \<notin> fst ` set ms"
  by (simp add: member_def map_of_eq_None_iff)

lemma member_entries: "member k (entries f ks) = (if k \<in> set ks then f k else None)"
proof (induction ks)
  case Nil
  show ?case by (simp add: entries_def member_def)
next
  case (Cons x ks)
  have "member k (entries f (x # ks)) = (if x = k \<and> f x \<noteq> None then f x else member k (entries f ks))"
    by (cases "f x") (auto simp: entries_def member_def)
  with Cons show ?case by auto
qed

lemma merged_at_None: "merged_at loc rel k = None \<longleftrightarrow> k \<notin> set (all_keys loc rel)"
  using member_None [of k rel] member_None [of k loc]
  by (cases "member k rel"; cases "member k loc") (simp_all add: merged_at_def set_all_keys)

lemma member_merge: "member k (fst (merge_docs loc rel)) = merged_at loc rel k"
  using merged_at_None [of loc rel k] by (auto simp: merge_docs_entries member_entries)

lemma keys_merge: "fst ` set (fst (merge_docs loc rel)) = fst ` set rel \<union> fst ` set loc"
proof -
  have "k \<in> fst ` set (fst (merge_docs loc rel)) \<longleftrightarrow> k \<in> fst ` set rel \<union> fst ` set loc" for k
    using member_None [of k "fst (merge_docs loc rel)"] merged_at_None [of loc rel k] set_all_keys [of loc rel]
    by (simp add: member_merge) blast
  then show ?thesis by (rule set_eqI)
qed

lemma all_keys_merge: "all_keys loc (fst (merge_docs loc rel)) = all_keys loc rel"
proof -
  have "set (all_keys loc (fst (merge_docs loc rel))) = set (all_keys loc rel)"
    by (auto simp: set_all_keys keys_merge)
  then show ?thesis
    by (intro sorted_distinct_set_unique) (simp_all add: all_keys_def)
qed

section \<open>Settings survive, nothing is invented, and a second merge changes nothing\<close>

fun path_at :: "string list \<Rightarrow> json \<Rightarrow> json option" where
  "path_at [] v = Some v"
| "path_at (k # ks) (JObj ms) = Option.bind (member k ms) (path_at ks)"
| "path_at (k # ks) _ = None"

definition is_object :: "json \<Rightarrow> bool" where
  "is_object v = (case v of JObj _ \<Rightarrow> True | _ \<Rightarrow> False)"

text \<open>
  The rule of the merge, key by key. A key of only one document keeps its value. Of two values, a
  release-owned key has the release's; two objects are merged in turn; anything else is the local one.
\<close>

theorem merge_key_rule:
  "member k (fst (merge_docs loc rel)) =
     (case (member k rel, member k loc) of
        (None, lo) \<Rightarrow> lo
      | (Some rv, None) \<Rightarrow> Some rv
      | (Some rv, Some lv) \<Rightarrow>
          Some (if k \<in> set release_owned_keys then rv
                else case (lv, rv) of
                  (JObj lm, JObj rm) \<Rightarrow> JObj (fst (merge_docs lm rm))
                | _ \<Rightarrow> lv))"
  unfolding member_merge merged_at_def
  by (cases "member k rel"; cases "member k loc") (auto split: json.splits)

text \<open>
  C37: The player's settings survive an update. A value of the local configuration that is not an
  object, at whatever depth, is in the merged document at the same path, unless the path goes through
  a key the release owns.
\<close>

theorem merge_keeps_local_settings:
  assumes "path_at ks (JObj loc) = Some v" and "\<not> is_object v" and "set ks \<inter> set release_owned_keys = {}"
  shows "path_at ks (JObj (fst (merge_docs loc rel))) = Some v"
  using assms
proof (induction ks arbitrary: loc rel)
  case Nil
  then show ?case by (auto simp: is_object_def)
next
  case (Cons k ks)
  then obtain lv where l: "member k loc = Some lv" "path_at ks lv = Some v"
    by (auto simp: bind_eq_Some_conv)
  have k: "k \<notin> set release_owned_keys" using Cons.prems(3) by simp
  show ?case
  proof (cases "\<exists>lm rm. lv = JObj lm \<and> member k rel = Some (JObj rm)")
    case True
    then obtain lm rm where o: "lv = JObj lm" "member k rel = Some (JObj rm)" by blast
    then have "path_at ks (JObj (fst (merge_docs lm rm))) = Some v"
      using Cons l(2) by simp
    with o l(1) k show ?thesis by (simp add: member_merge merged_at_def)
  next
    case False
    then have "merged_at loc rel k = Some lv"
      using l(1) k by (cases "member k rel") (auto simp: merged_at_def split: json.splits)
    with l(2) show ?thesis by (simp add: member_merge)
  qed
qed

lemma merge_invents_nothing:
  assumes "path_at ks (JObj (fst (merge_docs loc rel))) = Some v" and "\<not> is_object v"
  shows "path_at ks (JObj loc) = Some v \<or> path_at ks (JObj rel) = Some v"
  using assms
proof (induction ks arbitrary: loc rel)
  case Nil
  then show ?case by (auto simp: is_object_def)
next
  case (Cons k ks)
  then obtain mv where m: "merged_at loc rel k = Some mv" "path_at ks mv = Some v"
    by (auto simp: bind_eq_Some_conv member_merge)
  show ?case
  proof (cases "member k loc = Some mv \<or> member k rel = Some mv")
    case True
    with m(2) show ?thesis by auto
  next
    case False
    then obtain lm rm where o: "member k loc = Some (JObj lm)" "member k rel = Some (JObj rm)"
        "mv = JObj (fst (merge_docs lm rm))"
      using m(1) by (auto simp: merged_at_def split: option.splits if_splits json.splits)
    with Cons m(2) show ?thesis by auto
  qed
qed

fun sorted_keys :: "json \<Rightarrow> bool" where
  "sorted_keys (JObj ms) = (keys_sorted ms \<and> (\<forall>v \<in> snd ` set ms. sorted_keys v))"
| "sorted_keys _ = True"

lemma all_keys_same: "keys_sorted ms \<Longrightarrow> all_keys ms ms = map fst ms"
  by (intro sorted_distinct_set_unique)
    (auto simp: set_all_keys distinct_all_keys all_keys_def keys_sorted_def strict_sorted_iff)

lemma entries_members:
  "keys_sorted ms \<Longrightarrow> (\<And>k. k \<in> fst ` set ms \<Longrightarrow> f k = member k ms) \<Longrightarrow> entries f (map fst ms) = ms"
proof (induction ms)
  case (Cons p ms)
  obtain k v where p: "p = (k, v)" by fastforce
  have s: "keys_sorted ms" and n: "k \<notin> fst ` set ms"
    using Cons.prems(1) by (auto simp: keys_sorted_def p)
  have "f k' = member k' ms" if "k' \<in> fst ` set ms" for k'
    using Cons.prems(2) [of k'] that n by (auto simp: p member_def)
  with Cons.IH s have "entries f (map fst ms) = ms" by blast
  moreover have "f k = Some v" using Cons.prems(2) [of k] by (simp add: p member_def)
  ultimately show ?case by (simp add: entries_def p)
qed (simp add: entries_def)

lemma merge_same: "sorted_keys (JObj ms) \<Longrightarrow> fst (merge_docs ms ms) = ms"
proof (induction "size (JObj ms)" arbitrary: ms rule: less_induct)
  case less
  then have ks: "keys_sorted ms" by simp
  have "merged_at ms ms k = member k ms" if kin: "k \<in> fst ` set ms" for k
  proof -
    obtain v where v: "member k ms = Some v" using kin member_None [of k ms] by (cases "member k ms") simp_all
    have "fst (merge_docs lm lm) = lm" if "v = JObj lm" for lm
    proof (rule less.hyps)
      show "size (JObj lm) < size (JObj ms)" using member_size [OF v] that by simp
      show "sorted_keys (JObj lm)"
        using less.prems v that by (force simp: member_def dest: map_of_SomeD)
    qed
    with v show ?thesis by (auto simp: merged_at_def split: json.splits)
  qed
  then show ?case
    by (simp add: merge_docs_entries all_keys_same [OF ks] entries_members [OF ks])
qed

lemma merge_again_at:
  assumes "\<And>lm rm. member k loc = Some (JObj lm) \<Longrightarrow> fst (merge_docs lm (fst (merge_docs lm rm))) = fst (merge_docs lm rm)"
    and "\<And>lm. member k loc = Some (JObj lm) \<Longrightarrow> fst (merge_docs lm lm) = lm"
  shows "merged_at loc (fst (merge_docs loc rel)) k = merged_at loc rel k"
  unfolding merged_at_def [of loc "fst _"] member_merge
  using assms by (auto simp: merged_at_def split: option.splits json.splits if_splits)

text \<open>
  A second merge changes nothing. Merging the installed configuration into a document it has
  already been merged into gives that document again, so an update that is tried again after a crash
  between the merge and the swap installs the same configuration.
\<close>

theorem merge_idempotent:
  assumes "sorted_keys (JObj loc)"
  shows "fst (merge_docs loc (fst (merge_docs loc rel))) = fst (merge_docs loc rel)"
  using assms
proof (induction "size (JObj loc)" arbitrary: loc rel rule: less_induct)
  case less
  have sub: "sorted_keys (JObj lm)" "size (JObj lm) < size (JObj loc)" if "member k loc = Some (JObj lm)" for k lm
    using less.prems member_size [OF that] that by (force simp: member_def dest: map_of_SomeD)+
  have "merged_at loc (fst (merge_docs loc rel)) k = merged_at loc rel k" for k
    by (rule merge_again_at) (use less.hyps merge_same sub in blast)+
  then show ?case
    by (simp add: merge_docs_entries [of loc "fst _"] all_keys_merge merge_docs_entries [of loc rel, symmetric])
      (simp add: merge_docs_entries entries_def)
qed

definition sample_installed :: doc where
  "sample_installed = [(''update'', JObj [(''channel'', JStr ''patch'')])]"

definition sample_shipped :: doc where
  "sample_shipped = [(''release'', JStr ''2026.10.1''), (''update'', JObj [(''channel'', JStr ''manual'')])]"

theorem merge_keeps_local_settings_witness:
  "path_at [''update'', ''channel''] (JObj (fst (merge_docs sample_installed sample_shipped))) = Some (JStr ''patch'')
   \<and> path_at [''update'', ''channel''] (JObj sample_shipped) = Some (JStr ''manual'')"
  by (rule conjI [OF merge_keeps_local_settings])
    (simp_all add: sample_installed_def sample_shipped_def is_object_def release_owned_keys_def member_def)

theorem merge_idempotent_witness:
  "fst (merge_docs sample_installed (fst (merge_docs sample_installed sample_shipped)))
     = fst (merge_docs sample_installed sample_shipped)"
  by (rule merge_idempotent) (simp add: sample_installed_def keys_sorted_def)

section \<open>Writing the merged configuration\<close>

record config_merge_outcome =
  mo_merged :: bool
  mo_from_local :: "string list"
  mo_from_release :: "string list"
  mo_release_present :: bool

text \<open>What reading a file gave: its bytes, or an error and whether it says the file is absent.\<close>

type_synonym file_read = "bool + string"

definition read_config_doc :: "file_read \<Rightarrow> string + doc option" where
  "read_config_doc file =
     (case file of
        Inl absent \<Rightarrow> if absent then Inr None else Inl ''read''
      | Inr raw \<Rightarrow>
          (case unmarshal raw of
             Some (JObj d) \<Rightarrow> Inr (Some d)
           | _ \<Rightarrow> Inl ''decode''))"

definition msg_damaged :: string where
  "msg_damaged = ''The update file is damaged. Re-download it and try again.''"

definition config_damaged :: "string \<Rightarrow> kobra_error" where
  "config_damaged r = IO_error msg_damaged [(''reason'', JStr r)] (Some (PlainError ''config merge''))"

text \<open>
  \<open>MergeConfigInto\<close>: \<open>write\<close> is the atomic write of the result over the release's copy and says
  whether it succeeded. The result is the outcome and the configuration that was written; beside
  it, the results that were logged.
\<close>

definition merge_config_into :: "(json \<Rightarrow> bool) \<Rightarrow> (config \<Rightarrow> bool) \<Rightarrow> file_read \<Rightarrow> file_read
    \<Rightarrow> (kobra_error + config_merge_outcome \<times> config option) \<times> string list" where
  "merge_config_into schema_ok write local_file release_file =
     (case read_config_doc release_file of
        Inl _ \<Rightarrow> (Inl (config_damaged ''release_config_unreadable''), [])
      | Inr None \<Rightarrow>
          (Inr (\<lparr>mo_merged = False, mo_from_local = [], mo_from_release = [], mo_release_present = False\<rparr>, None),
           [''absent''])
      | Inr (Some rel) \<Rightarrow>
          (let (loc, logged) = (case read_config_doc local_file of
                                  Inl _ \<Rightarrow> (None, [''local_unreadable''])
                                | Inr d \<Rightarrow> (d, []));
               (merged, from_loc, from_rel) = merge_docs (case loc of None \<Rightarrow> [] | Some d \<Rightarrow> d) rel
           in case parse_config schema_ok (encode (JObj merged)) of
                Inl _ \<Rightarrow> (Inl (config_damaged ''merge_invalid''), logged)
              | Inr cfg \<Rightarrow>
                  if \<not> write cfg then (Inl (config_damaged ''merge_write''), logged)
                  else (Inr (\<lparr>mo_merged = True, mo_from_local = from_loc, mo_from_release = from_rel,
                             mo_release_present = True\<rparr>, Some cfg),
                        logged @ [if loc = None then ''release_only'' else ''merged''])))"

lemma merge_config_into_written:
  assumes "fst (merge_config_into schema_ok write l r) = Inr (out, Some cfg)"
  shows "config_ok cfg"
  using assms
  by (auto simp: merge_config_into_def Let_def intro: parse_config_ok
      split: sum.splits option.splits prod.splits if_splits)

end
