(* ===== verification/Swap.thy ===== *)
theory Swap
  imports Fs KobraErr
begin

text \<open>
  \<open>launcher/internal/update\<close>, files \<open>swap.go\<close> and \<open>movedir.go\<close>: the directory swap that installs a
  staged release, and the recovery that runs at every start. The layout is what the two look at:
  the trees in \<open>game\<close>, \<open>game.new\<close> and \<open>game.old\<close>, the promotion copies beside \<open>game\<close>, and the marker
  \<open>update.state\<close>. A tree is the list of its files in the order the directory yields them: removing
  a tree passes through its suffixes, copying one through its prefixes; a rename is one step. The
  world keeps the layouts it went through, so that a crash leaves one of them, and takes the
  outcome of each call from a list of decisions.
\<close>

section \<open>The layout and the world\<close>

type_synonym tree = "(string \<times> string) list"

datatype place = Game | Staging | Backup

record update_state =
  st_release :: string
  st_step :: string

record layout =
  l_game :: "tree option"
  l_staging :: "tree option"
  l_backup :: "tree option"
  l_copies :: "tree list"
  l_marker :: "update_state option"
  l_marker_tmp :: bool

text \<open>
  \<open>stat_err\<close> and \<open>marker_err\<close> say what cannot be examined: a directory whose \<open>Stat\<close> fails, a marker
  whose \<open>Lstat\<close> and \<open>ReadFile\<close> fail for another reason than its absence.
\<close>

record world =
  now_at :: layout
  past :: "layout list"
  decisions :: "fault list"
  stat_err :: "place \<Rightarrow> bool"
  marker_err :: bool
  wlog :: "string list"

definition tree_at :: "place \<Rightarrow> layout \<Rightarrow> tree option" where
  "tree_at p m = (case p of Game \<Rightarrow> l_game m | Staging \<Rightarrow> l_staging m | Backup \<Rightarrow> l_backup m)"

definition put_tree :: "place \<Rightarrow> tree option \<Rightarrow> layout \<Rightarrow> layout" where
  "put_tree p t m =
     (case p of Game \<Rightarrow> m\<lparr>l_game := t\<rparr> | Staging \<Rightarrow> m\<lparr>l_staging := t\<rparr> | Backup \<Rightarrow> m\<lparr>l_backup := t\<rparr>)"

definition decide :: "world \<Rightarrow> fault \<times> world" where
  "decide w = (case decisions w of [] \<Rightarrow> (Runs, w) | f # fs \<Rightarrow> (f, w\<lparr>decisions := fs\<rparr>))"

definition become :: "layout \<Rightarrow> world \<Rightarrow> world" where
  "become m w = w\<lparr>past := past w @ [now_at w], now_at := m\<rparr>"

definition note_event :: "string \<Rightarrow> world \<Rightarrow> world" where
  "note_event ev w = w\<lparr>wlog := wlog w @ [ev]\<rparr>"

section \<open>Calls\<close>

text \<open>\<open>os.Rename\<close> of a directory: refused onto one that is not empty.\<close>

definition rename_dir :: "place \<Rightarrow> place \<Rightarrow> world \<Rightarrow> errno option \<times> world" where
  "rename_dir src dst w =
     (case decide w of
        (Fails e _, w') \<Rightarrow> (Some e, w')
      | (Runs, w') \<Rightarrow>
          (case (tree_at src (now_at w'), tree_at dst (now_at w')) of
             (None, _) \<Rightarrow> (Some ENOENT, w')
           | (Some t, Some (_ # _)) \<Rightarrow> (Some EEXIST, w')
           | (Some t, _) \<Rightarrow> (None, become (put_tree dst (Some t) (put_tree src None (now_at w'))) w')))"

text \<open>\<open>os.RemoveAll\<close>: file after file, and the directory last.\<close>

definition remove_all :: "place \<Rightarrow> world \<Rightarrow> errno option \<times> world" where
  "remove_all p w =
     (case (tree_at p (now_at w), decide w) of
        (None, (Fails e _, w')) \<Rightarrow> (Some e, w')
      | (None, (Runs, w')) \<Rightarrow> (None, w')
      | (Some t, (Fails e n, w')) \<Rightarrow>
          (Some e, fold (\<lambda>k. become (put_tree p (Some (drop k t)) (now_at w))) [1..<Suc (min n (length t))] w')
      | (Some t, (Runs, w')) \<Rightarrow>
          (None, become (put_tree p None (now_at w))
                   (fold (\<lambda>k. become (put_tree p (Some (drop k t)) (now_at w))) [1..<Suc (length t)] w')))"

definition dir_exists :: "place \<Rightarrow> world \<Rightarrow> bool" where
  "dir_exists p w = (\<not> stat_err w p \<and> tree_at p (now_at w) \<noteq> None)"

definition file_exists :: "place \<Rightarrow> world \<Rightarrow> bool" where
  "file_exists p w = (stat_err w p \<or> tree_at p (now_at w) \<noteq> None)"

section \<open>The marker\<close>

definition step_begin :: string where "step_begin = ''begin''"
definition step_promoted :: string where "step_promoted = ''promoted''"

text \<open>\<open>writeState\<close>: the temporary file is created, written, synced, closed and renamed.\<close>

definition plain_call :: "world \<Rightarrow> errno option \<times> world" where
  "plain_call w = (case decide w of (Runs, w') \<Rightarrow> (None, w') | (Fails e _, w') \<Rightarrow> (Some e, w'))"

definition set_marker_tmp :: "bool \<Rightarrow> world \<Rightarrow> world" where
  "set_marker_tmp b w = become ((now_at w)\<lparr>l_marker_tmp := b\<rparr>) w"

definition drop_marker_tmp :: "world \<Rightarrow> world" where
  "drop_marker_tmp w = (case plain_call w of (Some _, w') \<Rightarrow> w' | (None, w') \<Rightarrow> set_marker_tmp False w')"

definition write_state :: "update_state \<Rightarrow> world \<Rightarrow> errno option \<times> world" where
  "write_state st w0 =
     (case plain_call w0 of
        (Some e, w1) \<Rightarrow> (Some e, w1)
      | (None, w1) \<Rightarrow>
          (case plain_call (set_marker_tmp True w1) of
             (Some e, w2) \<Rightarrow> (Some e, drop_marker_tmp w2)
           | (None, w2) \<Rightarrow>
               (case plain_call w2 of
                  (Some e, w3) \<Rightarrow> (Some e, drop_marker_tmp w3)
                | (None, w3) \<Rightarrow>
                    (case plain_call w3 of
                       (Some e, w4) \<Rightarrow> (Some e, drop_marker_tmp w4)
                     | (None, w4) \<Rightarrow>
                         (case plain_call w4 of
                            (Some e, w5) \<Rightarrow> (Some e, drop_marker_tmp w5)
                          | (None, w5) \<Rightarrow>
                              (None, become ((now_at w5)\<lparr>l_marker := Some st, l_marker_tmp := False\<rparr>) w5))))))"

definition marker_present :: "world \<Rightarrow> bool" where
  "marker_present w = (marker_err w \<or> l_marker (now_at w) \<noteq> None)"

definition read_state :: "world \<Rightarrow> update_state option" where
  "read_state w = (if marker_err w then None else l_marker (now_at w))"

definition clear_state :: "world \<Rightarrow> world" where
  "clear_state w0 =
     (case plain_call w0 of
        (Some e, w1) \<Rightarrow>
          (if e = ENOENT then drop_marker_tmp w1
           else note_event ''update.swap.state.remove_failed'' (drop_marker_tmp w1))
      | (None, w1) \<Rightarrow> drop_marker_tmp (become ((now_at w1)\<lparr>l_marker := None\<rparr>) w1))"

section \<open>Promotion\<close>

text \<open>\<open>os.RemoveAll\<close> of the \<open>i\<close>-th promotion copy, and whether it is gone.\<close>

definition remove_copy :: "nat \<Rightarrow> world \<Rightarrow> bool \<times> world" where
  "remove_copy i w =
     (let cs = l_copies (now_at w); c = cs ! i;
          left = (\<lambda>k. (now_at w)\<lparr>l_copies := cs[i := drop k c]\<rparr>)
      in case decide w of
           (Fails _ n, w') \<Rightarrow> (False, fold (\<lambda>k. become (left k)) [1..<Suc (min n (length c))] w')
         | (Runs, w') \<Rightarrow>
             (True, become ((now_at w)\<lparr>l_copies := take i cs @ drop (Suc i) cs\<rparr>)
                (fold (\<lambda>k. become (left k)) [1..<Suc (length c)] w')))"

text \<open>\<open>copyTree\<close> into the copy \<open>MkdirTemp\<close> has made; a file is there once it is synced.\<close>

definition copy_tree :: "tree \<Rightarrow> world \<Rightarrow> errno option \<times> world" where
  "copy_tree t w =
     (let cs = tl (l_copies (now_at w)); m = now_at w in
      case decide w of
        (Fails e n, w') \<Rightarrow>
          (Some e, fold (\<lambda>k. become (m\<lparr>l_copies := take k t # cs\<rparr>)) [1..<Suc (min n (length t))] w')
      | (Runs, w') \<Rightarrow>
          (None, fold (\<lambda>k. become (m\<lparr>l_copies := take k t # cs\<rparr>)) [1..<Suc (length t)] w'))"

text \<open>The rename of the finished copy to its destination.\<close>

definition rename_copy :: "place \<Rightarrow> world \<Rightarrow> errno option \<times> world" where
  "rename_copy dst w =
     (case decide w of
        (Fails e _, w') \<Rightarrow> (Some e, w')
      | (Runs, w') \<Rightarrow>
          (case (l_copies (now_at w'), tree_at dst (now_at w')) of
             ([], _) \<Rightarrow> (Some ENOENT, w')
           | (c # cs, Some (_ # _)) \<Rightarrow> (Some EEXIST, w')
           | (c # cs, _) \<Rightarrow> (None, become (put_tree dst (Some c) ((now_at w')\<lparr>l_copies := cs\<rparr>)) w')))"

text \<open>\<open>promoteDir\<close>: whether it was degraded to a copy, and its error.\<close>

definition promote_dir :: "place \<Rightarrow> place \<Rightarrow> world \<Rightarrow> (bool \<times> errno option) \<times> world" where
  "promote_dir src dst w0 =
     (case rename_dir src dst w0 of
        (None, w1) \<Rightarrow> ((False, None), w1)
      | (Some x, w1) \<Rightarrow>
          if x \<noteq> EXDEV then ((False, Some x), w1)
          else
            (case plain_call w1 of
               (Some e, w2) \<Rightarrow> ((True, Some e), w2)
             | (None, w2) \<Rightarrow>
                 (let w3 = become ((now_at w2)\<lparr>l_copies := [] # l_copies (now_at w2)\<rparr>) w2 in
                  case (case tree_at src (now_at w3) of None \<Rightarrow> (Some ENOENT, w3) | Some t \<Rightarrow> copy_tree t w3) of
                    (Some e, w4) \<Rightarrow> ((True, Some e), snd (remove_copy 0 w4))
                  | (None, w4) \<Rightarrow>
                      (case rename_copy dst w4 of
                         (Some e, w5) \<Rightarrow> ((True, Some e), snd (remove_copy 0 w5))
                       | (None, w5) \<Rightarrow>
                           (case remove_all src w5 of
                              (Some _, w6) \<Rightarrow> ((True, None), note_event ''update.swap.promote.debris'' w6)
                            | (None, w6) \<Rightarrow> ((True, None), w6))))))"

text \<open>\<open>removePromoteDebris\<close>: each copy found by the glob is removed, failures are logged.\<close>

fun remove_debris :: "nat \<Rightarrow> nat \<Rightarrow> world \<Rightarrow> world" where
  "remove_debris 0 i w = w"
| "remove_debris (Suc n) i w =
     (case remove_copy i w of
        (True, w') \<Rightarrow> remove_debris n i w'
      | (False, w') \<Rightarrow> remove_debris n (Suc i) (note_event ''update.swap.promote.debris'' w'))"

definition remove_promote_debris :: "world \<Rightarrow> world" where
  "remove_promote_debris w =
     (case plain_call w of (Some _, w') \<Rightarrow> w' | (None, w') \<Rightarrow> remove_debris (length (l_copies (now_at w'))) 0 w')"

section \<open>Swap\<close>

text \<open>The rollback copy of an earlier update is superseded.\<close>

definition discard_backup :: "world \<Rightarrow> errno option \<times> world" where
  "discard_backup w = (if file_exists Backup w then remove_all Backup w else (None, w))"

text \<open>
  \<open>Swap\<close>, with both roots given; the error is the reason of its response. The refusals of an
  empty game folder or staging root come first in the code and touch nothing.
\<close>

definition swap :: "string \<Rightarrow> world \<Rightarrow> string option \<times> world" where
  "swap rel w0 =
     (if \<not> dir_exists Staging w0 then (Some ''no_staging'', w0)
      else if \<not> dir_exists Game w0 then (Some ''no_game'', w0)
      else
        let w1 = note_event ''update.swap.begin'' w0 in
        case write_state \<lparr>st_release = rel, st_step = step_begin\<rparr> w1 of
          (Some _, w2) \<Rightarrow> (Some ''state_write'', w2)
        | (None, w2) \<Rightarrow>
            (case discard_backup w2 of
               (Some _, w3) \<Rightarrow> (Some ''stale_backup'', clear_state w3)
             | (None, w3) \<Rightarrow>
                 (case rename_dir Game Backup w3 of
                    (Some _, w4) \<Rightarrow> (Some ''backup_move'', note_event ''update.swap.rollback'' (clear_state w4))
                  | (None, w4) \<Rightarrow>
                      (case promote_dir Staging Game w4 of
                         ((_, Some _), w5) \<Rightarrow>
                           (case rename_dir Backup Game w5 of
                              (r, w6) \<Rightarrow>
                                (Some ''promote_move'',
                                 note_event ''update.swap.rollback'' (if r = None then clear_state w6 else w6)))
                       | ((degraded, None), w5) \<Rightarrow>
                           (let w6 = (if degraded then note_event ''update.swap.cross_device'' w5 else w5) in
                            case write_state \<lparr>st_release = rel, st_step = step_promoted\<rparr> w6 of
                              (r, w7) \<Rightarrow>
                                (None, note_event ''update.swap.complete''
                                   (clear_state (if r = None then w7 else note_event ''update.swap.state.promoted'' w7))))))))"

section \<open>Recover\<close>

datatype recovery = RecoveryNone | RecoveryRolledForward | RecoveryRolledBack | RecoveryCleanedStray

definition recover_forward :: "world \<Rightarrow> (string + recovery) \<times> world" where
  "recover_forward w0 =
     (case remove_all Backup w0 of
        (Some _, w1) \<Rightarrow> (Inl ''roll_forward'', w1)
      | (None, w1) \<Rightarrow>
          (case rename_dir Game Backup w1 of
             (Some _, w2) \<Rightarrow> (Inl ''roll_forward'', w2)
           | (None, w2) \<Rightarrow>
               (case promote_dir Staging Game w2 of
                  ((_, Some _), w3) \<Rightarrow> (Inl ''roll_forward'', snd (rename_dir Backup Game w3))
                | ((_, None), w3) \<Rightarrow>
                    (Inr RecoveryRolledForward, note_event ''update.swap.complete'' (clear_state w3)))))"

definition recover_back :: "world \<Rightarrow> (string + recovery) \<times> world" where
  "recover_back w0 =
     (case remove_all Game w0 of
        (Some _, w1) \<Rightarrow> (Inl ''roll_back'', w1)
      | (None, w1) \<Rightarrow>
          (case promote_dir Backup Game w1 of
             ((_, Some _), w2) \<Rightarrow> (Inl ''roll_back'', w2)
           | ((_, None), w2) \<Rightarrow>
               (Inr RecoveryRolledBack, note_event ''update.swap.rollback'' (clear_state w2))))"

definition clean_staging :: "(world \<Rightarrow> world) \<Rightarrow> bool \<Rightarrow> world \<Rightarrow> (string + recovery) \<times> world" where
  "clean_staging fin new_ok w0 =
     (if new_ok then
        (case remove_all Staging w0 of
           (Some _, w1) \<Rightarrow> (Inl ''clean_staging'', w1)
         | (None, w1) \<Rightarrow> (Inr RecoveryCleanedStray, fin w1))
      else (Inr RecoveryNone, fin w0))"

definition recover :: "world \<Rightarrow> (string + recovery) \<times> world" where
  "recover w =
     (let w0 = remove_promote_debris w;
          present = marker_present w0;
          game_ok = dir_exists Game w0; new_ok = dir_exists Staging w0; old_ok = dir_exists Backup w0;
          promoted = (case read_state w0 of Some st \<Rightarrow> st_step st = step_promoted | None \<Rightarrow> False)
      in if new_ok \<and> \<not> game_ok then
           (case promote_dir Staging Game w0 of
              ((_, Some _), w1) \<Rightarrow> (Inl ''recovery_complete'', w1)
            | ((_, None), w1) \<Rightarrow> (Inr RecoveryRolledForward, note_event ''update.swap.complete'' (clear_state w1)))
         else if old_ok \<and> \<not> game_ok then
           (case promote_dir Backup Game w0 of
              ((_, Some _), w1) \<Rightarrow> (Inl ''interrupted'', w1)
            | ((_, None), w1) \<Rightarrow> (Inr RecoveryRolledBack, note_event ''update.swap.rollback'' (clear_state w1)))
         else if game_ok \<and> old_ok \<and> present then
           (if new_ok then recover_forward w0
            else if promoted then (Inr RecoveryRolledForward, note_event ''update.swap.complete'' (clear_state w0))
            else recover_back w0)
         else if present \<and> \<not> game_ok \<and> \<not> new_ok \<and> \<not> old_ok then (Inl ''unrecoverable'', w0)
         else if present then clean_staging clear_state new_ok w0
         else clean_staging (\<lambda>x. x) new_ok w0)"

section \<open>What the calls do to the view\<close>

text \<open>
  The part of a layout recovery decides from: the three trees and the marker. The promotion copies
  and the marker's temporary file are not in it.
\<close>

type_synonym view = "tree option \<times> tree option \<times> tree option \<times> update_state option"

definition view :: "layout \<Rightarrow> view" where
  "view m = (l_game m, l_staging m, l_backup m, l_marker m)"

definition no_cross :: "world \<Rightarrow> bool" where
  "no_cross w \<longleftrightarrow> (\<forall>n. Fails EXDEV n \<notin> set (decisions w))"

definition same_env :: "world \<Rightarrow> world \<Rightarrow> bool" where
  "same_env w w' \<longleftrightarrow> stat_err w' = stat_err w \<and> marker_err w' = marker_err w
     \<and> (no_cross w \<longrightarrow> no_cross w') \<and> (decisions w = [] \<longrightarrow> decisions w' = [])"

text \<open>Every layout on the way from \<open>w\<close> to \<open>w'\<close> has a view that satisfies \<open>Q\<close>.\<close>

definition passed :: "world \<Rightarrow> world \<Rightarrow> layout set" where
  "passed w w' = set (drop (length (past w)) (past w')) \<union> {now_at w'}"

definition goes :: "(view \<Rightarrow> bool) \<Rightarrow> world \<Rightarrow> world \<Rightarrow> bool" where
  "goes Q w w' \<longleftrightarrow> (\<exists>h. past w' = past w @ h \<and> (\<forall>m \<in> set h. Q (view m))) \<and> Q (view (now_at w')) \<and> same_env w w'"

lemma goes_passed: "goes Q w w' \<Longrightarrow> m \<in> passed w w' \<Longrightarrow> Q (view m)"
  by (auto simp: goes_def passed_def)

lemma goes_refl: "Q (view (now_at w)) \<Longrightarrow> goes Q w w"
  by (simp add: goes_def same_env_def)

lemma goes_trans: "goes Q w w1 \<Longrightarrow> goes Q w1 w2 \<Longrightarrow> goes Q w w2"
  by (auto simp: goes_def same_env_def)

lemma goes_now: "goes Q w w' \<Longrightarrow> Q (view (now_at w'))"
  by (simp add: goes_def)

lemma goes_env: "goes Q w w' \<Longrightarrow> same_env w w'"
  by (simp add: goes_def)

lemma goes_become: "goes Q w w1 \<Longrightarrow> Q (view m) \<Longrightarrow> goes Q w (become m w1)"
  by (auto simp: goes_def become_def same_env_def no_cross_def)

lemma goes_become_fold:
  "goes Q w w1 \<Longrightarrow> (\<And>k. k \<in> set ks \<Longrightarrow> Q (view (f k))) \<Longrightarrow> goes Q w (fold (\<lambda>k. become (f k)) ks w1)"
  by (induction ks arbitrary: w1) (auto intro: goes_become)

lemma goes_note [simp]: "goes Q w (note_event ev w') = goes Q w w'"
  by (simp add: goes_def note_event_def same_env_def no_cross_def)

lemma now_note [simp]: "now_at (note_event ev w) = now_at w" "now_at (become m w) = m"
  by (simp_all add: note_event_def become_def)

lemma now_fold_become: "now_at (fold (\<lambda>k. become (f k)) ks w) = (if ks = [] then now_at w else f (last ks))"
  by (induction ks arbitrary: w) auto

lemma goes_decide: "goes Q w0 w \<Longrightarrow> decide w = (f, w') \<Longrightarrow> goes Q w0 w'"
  by (auto simp: decide_def goes_def same_env_def no_cross_def split: list.splits)

lemma now_decide: "decide w = (f, w') \<Longrightarrow> now_at w' = now_at w"
  by (auto simp: decide_def split: list.splits)

lemma decide_runs: "decisions w = [] \<Longrightarrow> decide w = (Runs, w)"
  by (simp add: decide_def)

lemma view_put [simp]:
  "view (put_tree Game t m) = (t, l_staging m, l_backup m, l_marker m)"
  "view (put_tree Staging t m) = (l_game m, t, l_backup m, l_marker m)"
  "view (put_tree Backup t m) = (l_game m, l_staging m, t, l_marker m)"
  "view (m\<lparr>l_marker := mk\<rparr>) = (l_game m, l_staging m, l_backup m, mk)"
  "view (m\<lparr>l_marker := mk, l_marker_tmp := b\<rparr>) = (l_game m, l_staging m, l_backup m, mk)"
  "view (m\<lparr>l_marker_tmp := b\<rparr>) = view m" "view (m\<lparr>l_copies := cs\<rparr>) = view m"
  by (simp_all add: view_def put_tree_def)

lemma view_fields:
  "view m = (g, s, b, k) \<longleftrightarrow> l_game m = g \<and> l_staging m = s \<and> l_backup m = b \<and> l_marker m = k"
  by (auto simp: view_def)

lemma tree_at_simps [simp]:
  "tree_at Game m = l_game m" "tree_at Staging m = l_staging m" "tree_at Backup m = l_backup m"
  by (simp_all add: tree_at_def)

lemma put_fields [simp]:
  "l_game (put_tree Game t m) = t" "l_staging (put_tree Game t m) = l_staging m"
  "l_backup (put_tree Game t m) = l_backup m" "l_marker (put_tree p t m) = l_marker m"
  "l_game (put_tree Staging t m) = l_game m" "l_staging (put_tree Staging t m) = t"
  "l_backup (put_tree Staging t m) = l_backup m" "l_game (put_tree Backup t m) = l_game m"
  "l_staging (put_tree Backup t m) = l_staging m" "l_backup (put_tree Backup t m) = t"
  by (cases p; simp add: put_tree_def)+

end
