(* ===== verification/Update_Apply.thy ===== *)
theory Update_Apply
  imports Update_Records Update_Download Launcher_Merge Config_Merge Swap
begin

text \<open>
  \<open>update/apply.go\<close>, \<open>startup.go\<close> and \<open>InstalledReleaseIn\<close> of \<open>retention.go\<close>: the pipeline that installs
  a pending update, composed of the models of its steps. The stages follow the code: the marker, the
  manifest, the download, the staging, the installation. A stage either ends the run or hands on.

  The state is the pending marker, the cancel flag, the partial download, the files of the staging root
  and of the live launcher, the layout of the game folder, the progress record and the results written.
  Extraction fills files under the staging root; the staged game is then handed to the layout, where the
  swap works on it. Events, timestamps and the switch of the tests that skips the space check are left out.
\<close>

section \<open>State, environment and result\<close>

datatype apply_outcome = NoPending | Applied | AlreadyCurrent | Skipped | Cancelled | Failed

record apply_result =
  ax_outcome :: apply_outcome
  ax_from :: string
  ax_target :: string
  ax_installed :: string
  ax_reason :: string
  ax_message :: string
  ax_bytes :: int
  ax_retained :: bool
  ax_retryable :: bool

text \<open>The record \<open>WriteResult\<close> leaves for the user.\<close>

record update_record =
  uo_outcome :: string
  uo_target :: string
  uo_installed :: string
  uo_reason :: string
  uo_message :: string
  uo_bytes :: int
  uo_required :: int
  uo_available :: int
  uo_retained :: bool

record apply_state =
  ap_pending :: "pending option"
  ap_cancel :: bool
  ap_part :: partial
  ap_disk :: disk
  ap_world :: world
  ap_progress :: progress_writer
  ap_results :: "update_record list"

datatype lock_outcome = LockTaken | LockHeld | LockFailed

text \<open>
  What a run meets: whether the update directory can be made, the lock, whether files of that directory
  can be removed and the marker rewritten, the network, the transfer, the reader of archives, the
  verifier, the free space, the cancel flag once all is staged, \<open>data\<close> before and after extraction (its
  entries and times), the schema and the text of a configuration and whether it can be written, and
  the names of temporary files.
\<close>

record apply_env =
  en_dir_ok :: bool
  en_lock :: lock_outcome
  en_remove_ok :: bool
  en_marker_ok :: bool
  en_network :: network
  en_urls :: url_env
  en_transfer :: transfer_env
  en_reader :: "string \<Rightarrow> tar_member list \<times> bool"
  en_verifier :: "(manifest \<Rightarrow> bool) option"
  en_space :: "int option"
  en_cancel_late :: bool
  en_data_before :: "(string, int) gmap option"
  en_data_after :: "(string, int) gmap option"
  en_schema_ok :: "json \<Rightarrow> bool"
  en_render :: "config \<Rightarrow> string"
  en_config_write_ok :: bool
  en_temp :: "string \<Rightarrow> string"
  en_launcher_version :: string
  en_max_archive :: int

definition msg_insufficient_space :: string where
  "msg_insufficient_space = ''There isn't enough free space to install this update.''"
definition msg_cannot_download :: string where
  "msg_cannot_download = ''This update cannot be downloaded.''"
definition msg_cancelled :: string where
  "msg_cancelled = ''The update was cancelled.''"
definition msg_drift_mismatch :: string where
  "msg_drift_mismatch = ''The update changed since you confirmed it. Check for updates again.''"
definition msg_download_failed :: string where
  "msg_download_failed = ''The update could not be downloaded. The launcher may be offline.''"
definition msg_damaged_short :: string where
  "msg_damaged_short = ''The update file is damaged.''"
definition msg_staging_unavailable :: string where
  "msg_staging_unavailable = ''The update could not be prepared for installation.''"
definition msg_launcher_merge :: string where
  "msg_launcher_merge = ''The update was installed, but the launcher could not be updated. It will be retried on the next start.''"
definition msg_data :: string where
  "msg_data = ''The update was rejected because it would modify your saves.''"
definition msg_swap_failed :: string where
  "msg_swap_failed = ''The update could not be applied. The previous version is still intact.''"

definition no_result :: apply_result where
  "no_result = \<lparr>ax_outcome = NoPending, ax_from = [], ax_target = [], ax_installed = [], ax_reason = [],
     ax_message = [], ax_bytes = 0, ax_retained = False, ax_retryable = False\<rparr>"

definition plain_record :: "string \<Rightarrow> pending \<Rightarrow> string \<Rightarrow> string \<Rightarrow> update_record" where
  "plain_record oc p rsn msg =
     \<lparr>uo_outcome = oc, uo_target = pn_target p, uo_installed = [], uo_reason = rsn, uo_message = msg,
      uo_bytes = 0, uo_required = 0, uo_available = 0, uo_retained = False\<rparr>"

section \<open>Effects on the update directory\<close>

definition clear_pending :: "apply_env \<Rightarrow> apply_state \<Rightarrow> apply_state" where
  "clear_pending en s = (if en_remove_ok en then s\<lparr>ap_pending := None\<rparr> else s)"

definition clear_cancel :: "apply_env \<Rightarrow> apply_state \<Rightarrow> apply_state" where
  "clear_cancel en s = (if en_remove_ok en then s\<lparr>ap_cancel := False\<rparr> else s)"

definition remove_archive :: "apply_env \<Rightarrow> apply_state \<Rightarrow> apply_state" where
  "remove_archive en s = (if en_remove_ok en then s\<lparr>ap_part := \<lparr>pt_file = None, pt_meta = None\<rparr>\<rparr> else s)"

definition write_result :: "update_record \<Rightarrow> apply_state \<Rightarrow> apply_state" where
  "write_result r s = s\<lparr>ap_results := ap_results s @ [r]\<rparr>"

definition note_phase :: "string \<Rightarrow> string \<Rightarrow> apply_state \<Rightarrow> apply_state" where
  "note_phase phase msg s = s\<lparr>ap_progress := set_phase phase msg (ap_progress s)\<rparr>"

section \<open>How a run ends\<close>

definition ended :: "apply_outcome \<Rightarrow> string \<Rightarrow> string \<Rightarrow> apply_result \<Rightarrow> apply_result" where
  "ended oc rsn msg res = res\<lparr>ax_outcome := oc, ax_reason := rsn, ax_message := msg\<rparr>"

text \<open>\<open>failRetryable\<close>: one attempt is counted, and the last one clears the marker.\<close>

definition fail_retryable :: "apply_env \<Rightarrow> pending \<Rightarrow> apply_result \<Rightarrow> string \<Rightarrow> string \<Rightarrow> apply_state
    \<Rightarrow> apply_result \<times> apply_state" where
  "fail_retryable en p res rsn msg s =
     (let p' = p\<lparr>pn_retry_count := pn_retry_count p + 1, pn_last_reason := rsn\<rparr>;
          s1 = (if en_marker_ok en then s\<lparr>ap_pending := Some p'\<rparr> else s);
          exhausted = (retry_budget \<le> pn_retry_count p');
          s2 = (if exhausted then clear_pending en s1 else s1)
      in ((ended Failed rsn msg res)\<lparr>ax_retryable := \<not> exhausted\<rparr>,
          write_result (plain_record ''failed'' p rsn msg) (note_phase phase_failed msg s2)))"

text \<open>\<open>failTerminal\<close>, and the refusals that are spelled out in \<open>Apply\<close> with the same effect.\<close>

definition fail_terminal :: "apply_env \<Rightarrow> pending \<Rightarrow> apply_result \<Rightarrow> string \<Rightarrow> string \<Rightarrow> apply_state
    \<Rightarrow> apply_result \<times> apply_state" where
  "fail_terminal en p res rsn msg s =
     (ended Failed rsn msg res,
      write_result (plain_record ''failed'' p rsn msg) (note_phase phase_failed msg (clear_pending en s)))"

text \<open>A cancellation, wherever it is honoured.\<close>

definition end_cancelled :: "apply_env \<Rightarrow> pending \<Rightarrow> apply_result \<Rightarrow> apply_state \<Rightarrow> apply_result \<times> apply_state" where
  "end_cancelled en p res s =
     (ended Cancelled ''cancelled'' msg_cancelled res,
      write_result (plain_record ''cancelled'' p ''cancelled'' msg_cancelled)
        (note_phase phase_cancelled msg_cancelled (clear_cancel en (clear_pending en s))))"

section \<open>The installed release\<close>

definition read_file :: "string \<Rightarrow> files \<Rightarrow> file_read" where
  "read_file p m = (case get m p of None \<Rightarrow> Inl True | Some x \<Rightarrow> Inr x)"

definition release_from_config :: "file_read \<Rightarrow> string" where
  "release_from_config file =
     (case read_config_doc file of
        Inr (Some d) \<Rightarrow> (case member ''release'' d of Some (JStr r) \<Rightarrow> r | _ \<Rightarrow> [])
      | _ \<Rightarrow> [])"

definition game_manifest :: "world \<Rightarrow> file_read" where
  "game_manifest w =
     (case l_game (now_at w) of
        None \<Rightarrow> Inl True
      | Some t \<Rightarrow> (case map_of t ''release.manifest.json'' of None \<Rightarrow> Inl True | Some x \<Rightarrow> Inr x))"

definition installed_release_in :: "string \<Rightarrow> apply_state \<Rightarrow> string" where
  "installed_release_in folder s =
     (case installed_release (game_manifest (ap_world s)) of
        Some r \<Rightarrow>
          if r \<noteq> [] then r
          else release_from_config (read_file (join_path folder config_rel_path) (files (ap_disk s)))
      | None \<Rightarrow> release_from_config (read_file (join_path folder config_rel_path) (files (ap_disk s))))"

section \<open>The marker\<close>

text \<open>Up to the creation of the progress writer: the lock, the marker, a cancellation, the retry budget.\<close>

type_synonym run_end = "apply_result \<times> apply_state"

definition open_update :: "apply_env \<Rightarrow> string \<Rightarrow> string \<Rightarrow> apply_state \<Rightarrow> run_end + pending \<times> apply_result \<times> apply_state" where
  "open_update en folder sidecar s =
     (let skipped = (\<lambda>rsn. Inl (ended Skipped rsn [] no_result, s)) in
      if trim_space folder = [] \<or> trim_space sidecar = [] then skipped ''no_folder''
      else if \<not> en_dir_ok en then skipped ''sidecar_unwritable''
      else case en_lock en of
        LockHeld \<Rightarrow> skipped ''locked''
      | LockFailed \<Rightarrow> skipped ''lock_failed''
      | LockTaken \<Rightarrow>
          (case ap_pending s of
             None \<Rightarrow> Inl (no_result, s)
           | Some p \<Rightarrow>
               (let res = no_result\<lparr>ax_from := pn_from p, ax_target := pn_target p\<rparr> in
                if \<not> pending_valid (Some p) then
                  Inl (ended Failed ''invalid_marker'' msg_damaged res, clear_pending en s)
                else if pn_from p \<noteq> [] \<and> \<not> release_newer (pn_target p) (pn_from p) then
                  Inl (ended Failed ''not_newer'' ''The update is not newer than the installed release.'' res,
                       clear_pending en s)
                else if ap_cancel s then
                  Inl (end_cancelled en p res (s\<lparr>ap_progress := new_progress_writer (Some p)\<rparr>))
                else if retry_budget \<le> pn_retry_count p then
                  Inl (ended Failed ''retries_exhausted'' msg_download_failed res,
                       write_result (plain_record ''failed'' p ''retries_exhausted'' msg_download_failed)
                         (clear_pending en s))
                else
                  let installed = installed_release_in folder s; res1 = res\<lparr>ax_installed := installed\<rparr> in
                  if installed \<noteq> [] \<and> installed = pn_target p then
                    Inl (ended AlreadyCurrent ''already_current'' ''The update was already installed.'' res1,
                         write_result ((plain_record ''skipped'' p ''already_current'' ''The update was already installed.'')
                             \<lparr>uo_installed := installed\<rparr>)
                           (clear_pending en s))
                  else
                    Inr (p, res1, note_phase phase_verify ''Starting the update.''
                           (s\<lparr>ap_progress := new_progress_writer (Some p)\<rparr>)))))"

section \<open>The manifest\<close>

definition check_manifest :: "apply_env \<Rightarrow> pending \<Rightarrow> apply_result \<Rightarrow> apply_state \<Rightarrow> run_end + manifest \<times> string" where
  "check_manifest en p res s =
     (case fetch_manifest (en_network en) (pn_manifest_url p) of
        Inl _ \<Rightarrow> Inl (fail_retryable en p res ''manifest_unreachable'' msg_download_failed s)
      | Inr m \<Rightarrow>
          if reconcile_pending (en_network en) p (Some m) \<noteq> None then
            Inl (fail_terminal en p res ''manifest_drift'' msg_drift_mismatch s)
          else if fst (guard_apply m (en_launcher_version en)) \<noteq> None then
            Inl (fail_terminal en p res ''launcher_min'' launcher_too_old_message s)
          else
            let archive_size = declared_archive_size (Some m);
                url = resolve_archive_url (en_network en) (Some p) (Some m);
                required = required_bytes archive_size (mf_total_size m)
            in if (case en_space en of None \<Rightarrow> False | Some free \<Rightarrow> free < required) then
                 Inl ((ended Failed ''insufficient_space'' msg_insufficient_space res)\<lparr>ax_retryable := True\<rparr>,
                      write_result ((plain_record ''failed'' p ''insufficient_space'' msg_insufficient_space)
                          \<lparr>uo_required := required, uo_available := the (en_space en)\<rparr>)
                        (note_phase phase_failed msg_insufficient_space s))
               else if archive_size \<le> 0 then
                 Inl (fail_terminal en p res ''no_archive_size'' msg_cannot_download s)
               else if url = [] then
                 Inl (fail_terminal en p res ''no_archive_url'' msg_cannot_download s)
               else Inr (m, url))"

section \<open>The archive\<close>

definition reason_for_download_policy :: "download_error \<Rightarrow> string" where
  "reason_for_download_policy e =
     (case e of
        DlInsecure \<Rightarrow> ''insecure_scheme''
      | DlTooLarge \<Rightarrow> ''archive_too_large''
      | DlNoSize \<Rightarrow> ''no_archive_size''
      | _ \<Rightarrow> ''download_refused'')"

text \<open>\<open>msgForDataViolation\<close>, on the reason: the wording about the saves goes with the reason \<open>data_dir\<close>.\<close>

definition msg_for_data_violation :: "string \<Rightarrow> string" where
  "msg_for_data_violation rsn = (if rsn = ''data_dir'' then msg_data else msg_damaged_short)"

definition archive_at :: "apply_env \<Rightarrow> partial \<Rightarrow> archive_file" where
  "archive_at en p =
     (case pt_file p of
        None \<Rightarrow> \<lparr>af_bytes = None, af_members = [], af_clean_end = False\<rparr>
      | Some c \<Rightarrow> \<lparr>af_bytes = Some c, af_members = fst (en_reader en c), af_clean_end = snd (en_reader en c)\<rparr>)"

definition update_dir :: "string \<Rightarrow> string" where
  "update_dir sidecar = join_path sidecar ''update''"

definition download_target :: "string \<Rightarrow> string" where
  "download_target sidecar = join_path (update_dir sidecar) ''download.part''"

definition obtain_archive :: "apply_env \<Rightarrow> string \<Rightarrow> pending \<Rightarrow> manifest \<Rightarrow> string \<Rightarrow> apply_result \<Rightarrow> apply_state
    \<Rightarrow> run_end + archive_file \<times> apply_result \<times> apply_state" where
  "obtain_archive en sidecar p m url res s =
     (let want = declared_archive_size (Some m);
          s1 = note_phase phase_download ''Downloading the update.'' s;
          (tr, part) = download_archive (en_urls en)
             \<lparr>do_max_bytes = en_max_archive en, do_expected_hash = pn_archive_hash p,
              do_allow_insecure = False, do_no_resume = False\<rparr>
             (en_transfer en) url (download_target sidecar) want (ap_part s1);
          s2 = s1\<lparr>ap_part := part,
                  ap_progress := (if tr_reported tr then set_bytes (int (tr_written tr)) want (ap_progress s1)
                                  else ap_progress s1)\<rparr>;
          res1 = res\<lparr>ax_bytes := int (tr_written tr)\<rparr>
      in case tr_error tr of
           Some e \<Rightarrow>
             if e = DlCancelled then Inl (end_cancelled en p res1 s2)
             else if e = DlInsecure \<or> e = DlTooLarge \<or> e = DlNoSize then
               Inl (fail_terminal en p res1 (reason_for_download_policy e) msg_cannot_download s2)
             else Inl (fail_retryable en p res1 ''download_failed'' msg_download_failed s2)
         | None \<Rightarrow>
             (let s3 = note_phase phase_verify ''Checking the update.'' s2; a = archive_at en part in
              case fst (verify (en_verifier en) a (Some m)) of
                Some rsn \<Rightarrow>
                  Inl (fail_terminal en p res1 ''verify_failed'' (msg_for_data_violation rsn) (remove_archive en s3))
              | None \<Rightarrow> Inr (a, res1, s3)))"

section \<open>Staging\<close>

text \<open>\<open>os.RemoveAll\<close> of a directory of the staging root: file after file.\<close>

definition remove_under :: "string \<Rightarrow> 'a disk_scheme \<Rightarrow> errno option \<times> 'a disk_scheme" where
  "remove_under dir d =
     (let drop_all = (\<lambda>ps d. fold (\<lambda>p d. set_files (del p (files d)) d) ps d);
          ps = map (\<lambda>r. dir @ slash # r) (files_under dir (files d))
      in case next_fault d of
           (Fails e n, d') \<Rightarrow> (Some e, drop_all (take n ps) d')
         | (Runs, d') \<Rightarrow> (None, drop_all ps d'))"

definition staged_launcher :: "string \<Rightarrow> string" where
  "staged_launcher root = join_path root launcher_staging_dir_name"

definition staged_game :: "string \<Rightarrow> string" where
  "staged_game root = join_path root staging_dir_name"

text \<open>The staging directories of an earlier attempt are removed where they exist; an error ends the run.\<close>

definition clear_staging :: "string \<Rightarrow> apply_state \<Rightarrow> errno option \<times> apply_state" where
  "clear_staging root s =
     (case (if dir_exists Staging (ap_world s) then remove_all Staging (ap_world s) else (None, ap_world s)) of
        (Some e, w) \<Rightarrow> (Some e, s\<lparr>ap_world := w\<rparr>)
      | (None, w) \<Rightarrow>
          (case (if files_under (staged_launcher root) (files (ap_disk s)) = [] then (None, ap_disk s)
                 else remove_under (staged_launcher root) (ap_disk s)) of
             (r, d) \<Rightarrow> (r, s\<lparr>ap_world := w, ap_disk := d\<rparr>)))"

text \<open>Both directories are removed, and what could not be removed stays.\<close>

definition discard_staging :: "string \<Rightarrow> apply_state \<Rightarrow> apply_state" where
  "discard_staging root s =
     s\<lparr>ap_world := snd (remove_all Staging (ap_world s)),
       ap_disk := snd (remove_under (staged_launcher root) (ap_disk s))\<rparr>"

text \<open>The staged game becomes the staging tree of the layout.\<close>

definition tree_under :: "string \<Rightarrow> files \<Rightarrow> tree" where
  "tree_under dir m = map (\<lambda>r. (r, case get m (dir @ slash # r) of Some x \<Rightarrow> x | None \<Rightarrow> [])) (files_under dir m)"

definition hand_over :: "string \<Rightarrow> apply_state \<Rightarrow> apply_state" where
  "hand_over root s =
     (let t = tree_under (staged_game root) (files (ap_disk s)) in
      if t = [] then s
      else s\<lparr>ap_world := become (put_tree Staging (Some t) (now_at (ap_world s))) (ap_world s),
             ap_disk := set_files (keep (\<lambda>p _. \<not> below (staged_game root) p) (files (ap_disk s))) (ap_disk s)\<rparr>)"

text \<open>\<open>assertDataUnchanged\<close>, on the second snapshot of \<open>data\<close>.\<close>

definition data_unchanged :: "(string, int) gmap \<Rightarrow> (string, int) gmap option \<Rightarrow> bool" where
  "data_unchanged before after =
     (case after of
        None \<Rightarrow> False
      | Some a \<Rightarrow> length a = length before \<and> list_all (\<lambda>(n, t). get before n = Some t) a)"

definition config_path_in :: "string \<Rightarrow> string" where
  "config_path_in root = join_path (staged_launcher root) ''launcher.config.json''"

text \<open>The merge of the configuration: its result replaces the staged one.\<close>

definition merge_staged_config :: "apply_env \<Rightarrow> string \<Rightarrow> string \<Rightarrow> apply_state \<Rightarrow> bool \<times> apply_state" where
  "merge_staged_config en folder root s =
     (let m = files (ap_disk s) in
      case fst (merge_config_into (en_schema_ok en) (\<lambda>_. en_config_write_ok en)
               (read_file (join_path folder config_rel_path) m) (read_file (config_path_in root) m)) of
        Inl _ \<Rightarrow> (False, s)
      | Inr (_, None) \<Rightarrow> (True, s)
      | Inr (_, Some cfg) \<Rightarrow>
          (True, s\<lparr>ap_disk := set_files (put (config_path_in root) (en_render en cfg) m) (ap_disk s)\<rparr>))"

definition stage_release :: "apply_env \<Rightarrow> string \<Rightarrow> string \<Rightarrow> pending \<Rightarrow> manifest \<Rightarrow> archive_file \<Rightarrow> apply_result
    \<Rightarrow> apply_state \<Rightarrow> run_end + apply_state" where
  "stage_release en folder sidecar p m a res s =
     (let root = update_dir sidecar in
      case clear_staging root s of
        (Some _, s1) \<Rightarrow> Inl (fail_retryable en p res ''staging_unwritable'' msg_staging_unavailable s1)
      | (None, s1) \<Rightarrow>
          (let s2 = note_phase phase_extract ''Installing the update.'' s1 in
           case extract_archive a root (Some m) (ap_disk s2) of
             ((r, _), d) \<Rightarrow>
               (let s3 = hand_over root (s2\<lparr>ap_disk := d\<rparr>) in
                case r of
                  Some rsn \<Rightarrow>
                    Inl (fail_terminal en p res ''extract_failed'' (msg_for_data_violation rsn)
                           (remove_archive en (discard_staging root s3)))
                | None \<Rightarrow>
                    (let s4 = remove_archive en s3 in
                     if (case en_data_before en of None \<Rightarrow> False | Some b \<Rightarrow> \<not> data_unchanged b (en_data_after en)) then
                       Inl (fail_terminal en p res ''data_touched'' msg_data (discard_staging root s4))
                     else
                       (case merge_staged_config en folder root s4 of
                          (False, s5) \<Rightarrow>
                            Inl (fail_terminal en p res ''config_merge_failed'' msg_damaged_short (discard_staging root s5))
                        | (True, s5) \<Rightarrow>
                            if ap_cancel s5 \<or> en_cancel_late en then
                              Inl (end_cancelled en p res (remove_archive en (discard_staging root s5)))
                            else Inr s5)))))"

section \<open>Installation\<close>

definition drop_staged_launcher :: "string \<Rightarrow> apply_state \<Rightarrow> apply_state" where
  "drop_staged_launcher root s = s\<lparr>ap_disk := snd (remove_under (staged_launcher root) (ap_disk s))\<rparr>"

definition install_release :: "apply_env \<Rightarrow> string \<Rightarrow> string \<Rightarrow> pending \<Rightarrow> apply_result \<Rightarrow> apply_state \<Rightarrow> run_end" where
  "install_release en folder sidecar p res s =
     (let root = update_dir sidecar; s1 = note_phase phase_swap ''Finishing the update.'' s in
      case swap (pn_target p) (ap_world s1) of
        (Some _, w) \<Rightarrow> fail_terminal en p res ''swap_failed'' msg_swap_failed (s1\<lparr>ap_world := w\<rparr>)
      | (None, w) \<Rightarrow>
          (let s2 = s1\<lparr>ap_world := w\<rparr> in
           case merge_launcher_into (en_temp en) root folder (ap_disk s2) of
             (Some _, d) \<Rightarrow>
               fail_retryable en p res ''launcher_merge_failed'' msg_launcher_merge
                 (drop_staged_launcher root (s2\<lparr>ap_disk := d\<rparr>))
           | (None, d) \<Rightarrow>
               (let s3 = drop_staged_launcher root (s2\<lparr>ap_disk := d\<rparr>);
                    installed = installed_release_in folder s3;
                    kept = (dir_exists Backup (ap_world s3) \<and> dir_exists Game (ap_world s3));
                    res1 = (ended Applied [] ''The update was installed.'' res)
                             \<lparr>ax_installed := installed, ax_retained := kept\<rparr>
                in (res1,
                    clear_cancel en (clear_pending en
                      (write_result ((plain_record ''complete'' p ''applied'' ''The update was installed.'')
                          \<lparr>uo_installed := installed, uo_bytes := ax_bytes res, uo_retained := kept\<rparr>)
                        (note_phase phase_complete ''The update was installed.'' s3)))))))"

text \<open>\<open>Apply\<close>.\<close>

definition apply_update :: "apply_env \<Rightarrow> string \<Rightarrow> string \<Rightarrow> apply_state \<Rightarrow> run_end" where
  "apply_update en folder sidecar s =
     (case open_update en folder sidecar s of
        Inl r \<Rightarrow> r
      | Inr (p, res, s1) \<Rightarrow>
          (case check_manifest en p res s1 of
             Inl r \<Rightarrow> r
           | Inr (m, url) \<Rightarrow>
               (case obtain_archive en sidecar p m url res s1 of
                  Inl r \<Rightarrow> r
                | Inr (a, res1, s2) \<Rightarrow>
                    (case stage_release en folder sidecar p m a res1 s2 of
                       Inl r \<Rightarrow> r
                     | Inr s3 \<Rightarrow> install_release en folder sidecar p res1 s3))))"

section \<open>The start of the launcher\<close>

record startup_result =
  su_recovered :: recovery
  su_recovery_err :: "string option"
  su_applied :: apply_result

definition startup :: "apply_env \<Rightarrow> string \<Rightarrow> string \<Rightarrow> apply_state \<times> retention \<Rightarrow> startup_result \<times> apply_state \<times> retention" where
  "startup en folder sidecar st =
     (let (s, rt) = st in
      if trim_space folder = [] then
        (\<lparr>su_recovered = RecoveryNone, su_recovery_err = None, su_applied = ended Skipped ''no_folder'' [] no_result\<rparr>, s, rt)
      else
        let (r, w) = recover (ap_world s);
            action = (case r of Inl _ \<Rightarrow> RecoveryNone | Inr x \<Rightarrow> x);
            err = (case r of Inl e \<Rightarrow> Some e | Inr _ \<Rightarrow> None);
            s1 = s\<lparr>ap_world := w\<rparr>;
            rt1 = (if action = RecoveryRolledBack \<and> sidecar \<noteq> [] then clear_started rt else rt);
            result = (\<lambda>x. \<lparr>su_recovered = action, su_recovery_err = err, su_applied = x\<rparr>)
        in if sidecar = [] then (result (ended Skipped ''no_sidecar'' [] no_result), s1, rt1)
           else if ap_pending s1 = None then (result no_result, s1, rt1)
           else
             let (x, s2) = apply_update en folder sidecar s1 in (result x, s2, rt1))"

end
