(* ===== verification/Swap_Safety.thy ===== *)
theory Swap_Safety
  imports Swap
begin

text \<open>
  What the swap and the recovery promise: on one file system, whatever calls fail and wherever a
  crash interrupts either of them, a later undisturbed recovery ends with the old release or the
  new one in \<open>game\<close>, complete, and no marker. Across file systems the promise is broken.
\<close>

section \<open>The calls\<close>

lemma plain_call_goes:
  assumes g: "goes Q w0 w" and c: "plain_call w = (r, w')"
  shows "goes Q w0 w'" and "now_at w' = now_at w"
proof -
  obtain f w1 where d: "decide w = (f, w1)" by fastforce
  have "w' = w1" using c by (cases f) (simp_all add: plain_call_def d)
  then show "goes Q w0 w'" "now_at w' = now_at w"
    using goes_decide [OF g d] now_decide [OF d] by simp_all
qed

lemma rename_dir_goes:
  assumes g: "goes Q w0 w" and c: "rename_dir src dst w = (r, w')"
    and q: "\<And>t. tree_at src (now_at w) = Some t \<Longrightarrow> Q (view (put_tree dst (Some t) (put_tree src None (now_at w))))"
  shows "goes Q w0 w'"
proof -
  obtain f w1 where d: "decide w = (f, w1)" by fastforce
  note g1 = goes_decide [OF g d] and n1 = now_decide [OF d]
  show ?thesis
    using c g1 goes_become [OF g1] q
    by (cases f; cases "tree_at src (now_at w)"; cases "tree_at dst (now_at w)")
      (auto simp: rename_dir_def d n1 split: list.splits)
qed

lemma rename_dir_err:
  assumes "rename_dir src dst w = (Some x, w')"
  shows "now_at w' = now_at w" and "no_cross w \<Longrightarrow> x \<noteq> EXDEV"
proof -
  obtain f w1 where d: "decide w = (f, w1)" by fastforce
  have "w' = w1 \<and> (x = ENOENT \<or> x = EEXIST \<or> (\<exists>n. f = Fails x n))"
    using assms now_decide [OF d]
    by (cases f; cases "tree_at src (now_at w)"; cases "tree_at dst (now_at w)")
      (auto simp: rename_dir_def d split: list.splits)
  then show "now_at w' = now_at w" "no_cross w \<Longrightarrow> x \<noteq> EXDEV"
    using d now_decide [OF d] by (auto simp: no_cross_def decide_def split: list.splits)
qed

lemma rename_dir_ok:
  assumes "rename_dir src dst w = (None, w')"
  shows "\<exists>t. tree_at src (now_at w) = Some t \<and> now_at w' = put_tree dst (Some t) (put_tree src None (now_at w))"
proof -
  obtain f w1 where d: "decide w = (f, w1)" by fastforce
  show ?thesis
    using assms now_decide [OF d]
    by (cases f; cases "tree_at src (now_at w)"; cases "tree_at dst (now_at w)")
      (auto simp: rename_dir_def d split: list.splits)
qed

lemma rename_dir_quiet:
  assumes "decisions w = []" and "tree_at src (now_at w) = Some t" and "tree_at dst (now_at w) = None"
  shows "\<exists>w'. rename_dir src dst w = (None, w') \<and> now_at w' = put_tree dst (Some t) (put_tree src None (now_at w))
    \<and> decisions w' = []"
  using assms by (simp add: rename_dir_def decide_runs become_def)

text \<open>A removal passes through the suffixes of the tree.\<close>

lemma remove_all_goes:
  assumes "goes Q w0 w" and "remove_all p w = (r, w')"
    and "\<And>t k. tree_at p (now_at w) = Some t \<Longrightarrow> Q (view (put_tree p (Some (drop k t)) (now_at w)))"
    and "Q (view (put_tree p None (now_at w)))"
  shows "goes Q w0 w'"
proof -
  obtain f w1 where d: "decide w = (f, w1)" by fastforce
  note g = goes_decide [OF assms(1) d]
  show ?thesis
    using assms(2) d g assms(3,4)
    by (cases f; cases "tree_at p (now_at w)")
      (auto simp: remove_all_def intro!: goes_become goes_become_fold)
qed

lemma put_tree_None: "tree_at p m = None \<Longrightarrow> put_tree p None m = m"
  by (cases p) (simp_all add: put_tree_def)

lemma remove_all_ok:
  assumes "remove_all p w = (None, w')"
  shows "now_at w' = put_tree p None (now_at w)"
  using assms now_decide [of w] put_tree_None [of p "now_at w"]
  by (auto simp: remove_all_def split: option.splits prod.splits fault.splits)

lemma remove_all_quiet:
  assumes "decisions w = []"
  shows "\<exists>w'. remove_all p w = (None, w') \<and> decisions w' = []"
proof -
  have "decisions (fold (\<lambda>k. become (f k)) ks w) = []" for f ks
    using assms by (induction ks arbitrary: w) (simp_all add: become_def)
  moreover have "decisions (become m v) = decisions v" for m v by (simp add: become_def)
  ultimately show ?thesis
    using assms by (cases "tree_at p (now_at w)") (simp_all add: remove_all_def decide_runs del: upt_Suc)
qed

section \<open>The marker\<close>

lemma drop_marker_tmp_goes:
  assumes "goes Q w0 w"
  shows "goes Q w0 (drop_marker_tmp w)" and "view (now_at (drop_marker_tmp w)) = view (now_at w)"
proof -
  obtain r w1 where c: "plain_call w = (r, w1)" by fastforce
  note p = plain_call_goes [OF assms c]
  show "goes Q w0 (drop_marker_tmp w)" "view (now_at (drop_marker_tmp w)) = view (now_at w)"
    using p goes_now [OF p(1)] goes_become [OF p(1)]
    by (auto simp: drop_marker_tmp_def c set_marker_tmp_def split: option.splits)
qed

lemma clear_state_goes:
  assumes g: "goes Q w0 w" and v: "view (now_at w) = (a, b, c, mk)" and n: "Q (a, b, c, None)"
  shows "goes Q w0 (clear_state w)" and "view (now_at (clear_state w)) \<in> {(a, b, c, mk), (a, b, c, None)}"
proof -
  obtain r w1 where c: "plain_call w = (r, w1)" by fastforce
  note p = plain_call_goes [OF g c]
  have v1: "view ((now_at w1)\<lparr>l_marker := None\<rparr>) = (a, b, c, None)" using v p(2) by (simp add: view_def)
  then have b: "goes Q w0 (become ((now_at w1)\<lparr>l_marker := None\<rparr>) w1)"
    using goes_become [OF p(1)] n by simp
  note d1 = drop_marker_tmp_goes [OF p(1)] and d2 = drop_marker_tmp_goes [OF b]
  show "goes Q w0 (clear_state w)" "view (now_at (clear_state w)) \<in> {(a, b, c, mk), (a, b, c, None)}"
    using d1 d2 v p(2) v1 by (auto simp: clear_state_def c split: option.splits)
qed

lemma write_state_goes:
  assumes g: "goes Q w0 w" and c: "write_state st w = (r, w')"
    and v: "view (now_at w) = (a, b, c, mk)" and n: "Q (a, b, c, Some st)"
  shows "goes Q w0 w'" and "view (now_at w') = (a, b, c, if r = None then Some st else mk)"
proof -
  obtain r1 w1 where c1: "plain_call w = (r1, w1)" by fastforce
  note p1 = plain_call_goes [OF g c1]
  define w1' where "w1' = set_marker_tmp True w1"
  have g1: "goes Q w0 w1'" "view (now_at w1') = (a, b, c, mk)"
    using goes_become [OF p1(1)] goes_now [OF g] v p1(2) by (simp_all add: w1'_def set_marker_tmp_def)
  obtain r2 w2 where c2: "plain_call w1' = (r2, w2)" by fastforce
  note p2 = plain_call_goes [OF g1(1) c2]
  obtain r3 w3 where c3: "plain_call w2 = (r3, w3)" by fastforce
  note p3 = plain_call_goes [OF p2(1) c3]
  obtain r4 w4 where c4: "plain_call w3 = (r4, w4)" by fastforce
  note p4 = plain_call_goes [OF p3(1) c4]
  obtain r5 w5 where c5: "plain_call w4 = (r5, w5)" by fastforce
  note p5 = plain_call_goes [OF p4(1) c5]
  have v5: "l_game (now_at w5) = a \<and> l_staging (now_at w5) = b \<and> l_backup (now_at w5) = c"
    using g1(2) p2 p3 p4 p5 by (simp add: view_def)
  then have b: "goes Q w0 (become ((now_at w5)\<lparr>l_marker := Some st, l_marker_tmp := False\<rparr>) w5)"
    using goes_become [OF p5(1)] n by simp
  show "goes Q w0 w'" "view (now_at w') = (a, b, c, if r = None then Some st else mk)"
    using c g1 p1 p2 p3 p4 p5 b v v5 drop_marker_tmp_goes [OF p2(1)] drop_marker_tmp_goes [OF p3(1)]
      drop_marker_tmp_goes [OF p4(1)] drop_marker_tmp_goes [OF p5(1)]
    by (auto simp: write_state_def c1 w1'_def [symmetric] c2 c3 c4 c5 split: option.splits)
qed

section \<open>Promotion on one file system\<close>

lemma promote_dir_local:
  assumes "no_cross w"
  shows "promote_dir src dst w = (case rename_dir src dst w of (r, w') \<Rightarrow> ((False, r), w'))"
  using rename_dir_err(2) [of src dst w] assms
  by (auto simp: promote_dir_def split: prod.splits option.splits)

text \<open>The promotion copies are not in the view.\<close>

lemma remove_copy_goes:
  assumes g: "goes Q w0 w"
  shows "goes Q w0 (snd (remove_copy i w))" and "view (now_at (snd (remove_copy i w))) = view (now_at w)"
proof -
  obtain f w1 where d: "decide w = (f, w1)" by fastforce
  note g1 = goes_decide [OF g d] and q = goes_now [OF g]
  show "goes Q w0 (snd (remove_copy i w))"
    using g1 q by (cases f) (auto simp: remove_copy_def d Let_def intro!: goes_become goes_become_fold)
  show "view (now_at (snd (remove_copy i w))) = view (now_at w)"
    using now_decide [OF d] by (cases f) (simp_all add: remove_copy_def d Let_def now_fold_become)
qed

lemma remove_debris_goes:
  "goes Q w0 w \<Longrightarrow> goes Q w0 (remove_debris n i w) \<and> view (now_at (remove_debris n i w)) = view (now_at w)"
proof (induction n arbitrary: i w)
  case (Suc n)
  obtain b w1 where c: "remove_copy i w = (b, w1)" by fastforce
  have "goes Q w0 w1" "view (now_at w1) = view (now_at w)"
    using remove_copy_goes [OF Suc.prems, of i] c by simp_all
  then show ?case
    using Suc.IH [of w1 i] Suc.IH [of "note_event ''update.swap.promote.debris'' w1" "Suc i"] by (cases b) (simp_all add: c)
qed simp

lemma remove_promote_debris_goes:
  assumes "goes Q w0 w"
  shows "goes Q w0 (remove_promote_debris w)" and "view (now_at (remove_promote_debris w)) = view (now_at w)"
proof -
  obtain r w1 where c: "plain_call w = (r, w1)" by fastforce
  note p = plain_call_goes [OF assms c]
  show "goes Q w0 (remove_promote_debris w)" "view (now_at (remove_promote_debris w)) = view (now_at w)"
    using p remove_debris_goes [OF p(1)] by (simp_all add: remove_promote_debris_def c split: option.splits)
qed

section \<open>The safe layouts\<close>

definition begun :: "update_state option \<Rightarrow> bool" where
  "begun mk = (case mk of None \<Rightarrow> False | Some st \<Rightarrow> st_step st \<noteq> step_promoted)"

text \<open>
  The views the swap and the recovery pass through, when no rename crosses file systems: the old
  release is in place; or it has been moved aside; or it is aside and a recovery is taking the new
  one down; or the new one is in place.
\<close>

definition safe :: "tree \<Rightarrow> tree \<Rightarrow> view \<Rightarrow> bool" where
  "safe old new v =
     (case v of (g, s, b, mk) \<Rightarrow>
        g = Some old \<and> (mk = None \<or> b = None \<or> s = Some new)
        \<or> g = None \<and> b = Some old \<and> (s = Some new \<or> s = None)
        \<or> (\<exists>k. g = Some (drop k new)) \<and> s = None \<and> b = Some old \<and> begun mk
        \<or> g = Some new \<and> s = None \<and> (mk = None \<or> b = Some old))"

lemma safe_simps:
  "safe old new (Some old, s, b, None)" "safe old new (Some old, s, None, mk)" "safe old new (Some old, Some new, b, mk)"
  "safe old new (None, Some new, Some old, mk)" "safe old new (None, None, Some old, mk)"
  "begun mk \<Longrightarrow> safe old new (Some (drop k new), None, Some old, mk)"
  "safe old new (Some new, None, b, None)" "safe old new (Some new, None, Some old, mk)"
  by (auto simp: safe_def)

lemma safe_cases:
  assumes "safe old new (g, s, b, mk)"
  obtains (old_unmarked) "g = Some old" "mk = None"
  | (old_alone) "g = Some old" "mk \<noteq> None" "b = None"
  | (old_staged) "g = Some old" "mk \<noteq> None" "b \<noteq> None" "s = Some new"
  | (aside_staged) "g = None" "b = Some old" "s = Some new"
  | (aside) "g = None" "b = Some old" "s = None"
  | (backing_out) k where "g = Some (drop k new)" "s = None" "b = Some old" "begun mk"
  | (new_marked) "g = Some new" "s = None" "b = Some old" "mk \<noteq> None" "\<not> begun mk"
  | (new_unmarked) "g = Some new" "s = None" "mk = None"
proof -
  have "g = Some new \<and> s = None \<and> b = Some old \<and> begun mk \<Longrightarrow> \<exists>k. g = Some (drop k new)"
    by (rule exI [of _ 0]) simp
  then show ?thesis using assms that unfolding safe_def by (cases mk; cases b) auto
qed

text \<open>The pieces of the recovery keep to the safe layouts.\<close>

definition settled :: "tree \<Rightarrow> tree \<Rightarrow> (string + recovery) \<Rightarrow> layout \<Rightarrow> bool" where
  "settled old new res m =
     (\<exists>a. res = Inr a \<and> l_marker m = None
        \<and> l_game m \<in> (if a = RecoveryRolledForward then {Some new} else if a = RecoveryRolledBack then {Some old}
                       else {Some old, Some new}))"

text \<open>A run of a recovery: safe layouts throughout, and settled at the end when nothing fails.\<close>

definition recovers :: "tree \<Rightarrow> tree \<Rightarrow> world \<Rightarrow> (string + recovery) \<times> world \<Rightarrow> bool" where
  "recovers old new w out =
     (goes (safe old new) w (snd out) \<and> (decisions w = [] \<longrightarrow> settled old new (fst out) (now_at (snd out))))"

lemma quiet_plain: "decisions w = [] \<Longrightarrow> plain_call w = (None, w)"
  by (simp add: plain_call_def decide_runs)

lemma quiet_become: "decisions (become m w) = decisions w"
  by (simp add: become_def)

lemma clear_state_quiet:
  assumes "decisions w = []"
  shows "l_marker (now_at (clear_state w)) = None" "decisions (clear_state w) = []"
  using assms
  by (simp_all add: clear_state_def quiet_plain drop_marker_tmp_def quiet_become set_marker_tmp_def)

lemma promote_ok_step:
  assumes g: "goes Q w0 w" and nc: "no_cross w"
    and c: "promote_dir src Game w = ((x, r), w')" and v: "view (now_at w) = (None, s, b, mk)"
    and src: "src = Staging \<and> s = Some t \<and> Q (Some t, None, b, mk) \<or> src = Backup \<and> b = Some t \<and> Q (Some t, s, None, mk)"
  shows "goes Q w0 w'"
    and "r \<noteq> None \<Longrightarrow> view (now_at w') = (None, s, b, mk)"
    and "r = None \<Longrightarrow> view (now_at w') = (Some t, if src = Staging then None else s, if src = Backup then None else b, mk)"
    and "decisions w = [] \<Longrightarrow> r = None \<and> decisions w' = []"
proof -
  have rn: "rename_dir src Game w = (r, w')"
    using c promote_dir_local [OF nc, of src Game] by (auto split: prod.splits)
  have f: "l_game (now_at w) = None" "l_staging (now_at w) = s" "l_backup (now_at w) = b" "l_marker (now_at w) = mk"
    using v by (simp_all add: view_def)
  have vt: "view (put_tree Game (Some t) (put_tree src None (now_at w)))
      = (Some t, if src = Staging then None else s, if src = Backup then None else b, mk)"
    using src f by (auto simp: view_def)
  have st: "tree_at src (now_at w) = Some t" using src f by auto
  show "goes Q w0 w'" by (rule rename_dir_goes [OF g rn]) (use st vt src in auto)
  show "view (now_at w') = (None, s, b, mk)" if "r \<noteq> None" using rename_dir_err(1) [of src Game w] rn that v by auto
  show "view (now_at w') = (Some t, if src = Staging then None else s, if src = Backup then None else b, mk)" if "r = None"
    using rename_dir_ok [of src Game w w'] rn that st vt by auto
  show "r = None \<and> decisions w' = []" if "decisions w = []"
    using rename_dir_quiet [OF that st, of Game] f rn by auto
qed

text \<open>Clearing the marker at the end of a branch.\<close>

lemma finish:
  assumes "goes (safe old new) w0 w" and "view (now_at w) = (g, s, b, mk)" and "safe old new (g, s, b, None)"
  shows "goes (safe old new) w0 (clear_state w)" and "l_game (now_at (clear_state w)) = g"
    and "decisions w = [] \<Longrightarrow> l_marker (now_at (clear_state w)) = None"
  using clear_state_goes [OF assms] clear_state_quiet [of w] by (auto simp: view_def)

lemma recovers_clean:
  assumes g: "goes (safe old new) w w0" and v: "view (now_at w0) = (x, s, b, mk)"
    and ok: "\<And>s. safe old new (x, s, b, mk)" "\<And>s. safe old new (x, s, b, None)"
    and x: "x \<in> {Some old, Some new}" and fin: "fin = clear_state \<or> fin = (\<lambda>w. w) \<and> mk = None"
  shows "recovers old new w (clean_staging fin ok' w0)"
proof -
  obtain r w1 where c: "remove_all Staging w0 = (r, w1)" by fastforce
  have f: "l_game (now_at w0) = x" "l_staging (now_at w0) = s" "l_backup (now_at w0) = b" "l_marker (now_at w0) = mk"
    using v by (simp_all add: view_def)
  have g1: "goes (safe old new) w w1"
    by (rule remove_all_goes [OF g c]) (simp_all add: f ok)
  have v1: "r = None \<Longrightarrow> view (now_at w1) = (x, None, b, mk)"
    using remove_all_ok [of Staging w0 w1] c f by simp
  have env: "decisions w = [] \<Longrightarrow> decisions w0 = []" "decisions w = [] \<Longrightarrow> decisions w1 = []"
    using goes_env [OF g] goes_env [OF g1] by (simp_all add: same_env_def)
  have q: "decisions w = [] \<Longrightarrow> r = None" using remove_all_quiet [OF env(1), of Staging] c by auto
  have fins: "goes (safe old new) w (fin u) \<and> l_game (now_at (fin u)) = x \<and> (decisions u = [] \<longrightarrow> l_marker (now_at (fin u)) = None)"
    if "goes (safe old new) w u" "view (now_at u) = (x, s', b, mk)" for u s'
    using fin finish [OF that] ok(2) that by (auto simp: view_def)
  show ?thesis
    using fins [OF g v] fins [OF g1 v1] g1 env q x
    by (cases ok'; cases r) (auto simp: clean_staging_def c recovers_def settled_def)
qed

text \<open>The branch that moves a tree into an absent \<open>game\<close>.\<close>

lemma recovers_promote:
  assumes g: "goes (safe old new) w w0" and nc: "no_cross w0" and v: "view (now_at w0) = (None, s, b, mk)"
    and c: "promote_dir src Game w0 = ((x, r), w1)"
    and src: "src = Staging \<and> s = Some new \<and> b = Some old \<and> t = new \<and> a = RecoveryRolledForward
       \<or> src = Backup \<and> b = Some old \<and> s = None \<and> t = old \<and> a = RecoveryRolledBack"
  shows "recovers old new w (case r of Some _ \<Rightarrow> (Inl reason, w1) | None \<Rightarrow> (Inr a, note_event ev (clear_state w1)))"
proof -
  have ok: "src = Staging \<and> s = Some t \<and> safe old new (Some t, None, b, mk)
      \<or> src = Backup \<and> b = Some t \<and> safe old new (Some t, s, None, mk)"
    using src by (auto simp: safe_simps)
  note p = promote_ok_step [OF g nc c v ok]
  have env: "decisions w = [] \<Longrightarrow> decisions w0 = []" using goes_env [OF g] by (simp add: same_env_def)
  have fin: "goes (safe old new) w (clear_state w1)" "l_game (now_at (clear_state w1)) = Some t"
      "decisions w1 = [] \<Longrightarrow> l_marker (now_at (clear_state w1)) = None" if "r = None"
    using finish [OF p(1) p(3) [OF that]] src by (auto simp: safe_simps)
  show ?thesis
    using p(1,4) env fin src by (cases r) (auto simp: recovers_def settled_def)
qed

lemma recovers_forward:
  assumes g: "goes (safe old new) w w0" and nc: "no_cross w0" and v: "view (now_at w0) = (Some old, Some new, b, mk)"
  shows "recovers old new w (recover_forward w0)"
proof -
  have f: "l_game (now_at w0) = Some old" "l_staging (now_at w0) = Some new" "l_marker (now_at w0) = mk"
    using v by (simp_all add: view_def)
  obtain r1 w1 where c1: "remove_all Backup w0 = (r1, w1)" by fastforce
  have g1: "goes (safe old new) w w1"
    by (rule remove_all_goes [OF g c1]) (simp_all add: f safe_simps)
  have e1: "no_cross w1"
    using goes_env [OF g1] goes_env [OF g] nc goes_env [OF remove_all_goes [OF goes_refl [of "\<lambda>_. True"] c1]]
    by (auto simp: same_env_def)
  have v1: "r1 = None \<Longrightarrow> view (now_at w1) = (Some old, Some new, None, mk)"
    using remove_all_ok [of Backup w0 w1] c1 f by simp
  obtain r2 w2 where c2: "rename_dir Game Backup w1 = (r2, w2)" by fastforce
  have g2: "goes (safe old new) w w2" if "r1 = None"
    by (rule rename_dir_goes [OF g1 c2]) (use v1 [OF that] in \<open>auto simp: view_fields safe_simps\<close>)
  have v2: "view (now_at w2) = (None, Some new, Some old, mk)" if "r1 = None" "r2 = None"
    using rename_dir_ok [of Game Backup w1 w2] c2 that v1 by (auto simp: view_fields)
  have e2: "no_cross w2"
    using goes_env [OF rename_dir_goes [OF goes_refl [of "\<lambda>_. True"] c2]] e1 by (auto simp: same_env_def)
  obtain x r3 w3 where c3: "promote_dir Staging Game w2 = ((x, r3), w3)" by (metis surj_pair)
  have ok: "Staging = Staging \<and> Some new = Some new \<and> safe old new (Some new, None, Some old, mk)
      \<or> Staging = Backup \<and> Some old = Some new \<and> safe old new (Some new, Some new, None, mk)"
    by (simp add: safe_simps)
  note p = promote_ok_step [OF g2 e2 c3 v2 ok]
  have g4: "goes (safe old new) w (snd (rename_dir Backup Game w3))" if "r1 = None" "r2 = None" "r3 = Some y" for y
    using rename_dir_goes [OF p(1) [OF that(1,1,2)], of Backup Game "fst (rename_dir Backup Game w3)"] p(2) [OF that(1,1,2)] that(3)
    by (auto simp: view_fields safe_simps)
  have fin: "goes (safe old new) w (clear_state w3)" "l_game (now_at (clear_state w3)) = Some new"
      "decisions w3 = [] \<Longrightarrow> l_marker (now_at (clear_state w3)) = None" if "r1 = None" "r2 = None" "r3 = None"
    using finish [OF p(1) [OF that(1,1,2)] p(3) [OF that(1,1,2,3)]] by (auto simp: safe_simps)
  have q: "r1 = None \<and> r2 = None \<and> r3 = None \<and> decisions w3 = []" if "decisions w = []"
  proof -
    have "decisions w0 = []" using goes_env [OF g] that by (simp add: same_env_def)
    then have 1: "r1 = None" "decisions w1 = []" using remove_all_quiet [of w0 Backup] c1 by auto
    then have 2: "r2 = None" "decisions w2 = []"
      using rename_dir_quiet [of w1 Game old Backup] v1 c2 by (auto simp: view_fields)
    then show ?thesis using 1 p(4) [OF 1(1) 1(1) 2(1) 2(2)] by simp
  qed
  show ?thesis
    using g1 g2 g4 fin q
    by (cases r1; cases r2; cases r3) (auto simp: recover_forward_def c1 c2 c3 recovers_def settled_def)
qed

lemma recovers_back:
  assumes g: "goes (safe old new) w w0" and nc: "no_cross w0"
    and v: "view (now_at w0) = (Some (drop k new), None, Some old, mk)" and mk: "begun mk"
  shows "recovers old new w (recover_back w0)"
proof -
  have f: "l_game (now_at w0) = Some (drop k new)" "l_staging (now_at w0) = None" "l_backup (now_at w0) = Some old"
      "l_marker (now_at w0) = mk"
    using v by (simp_all add: view_def)
  obtain r1 w1 where c1: "remove_all Game w0 = (r1, w1)" by fastforce
  have g1: "goes (safe old new) w w1"
    by (rule remove_all_goes [OF g c1]) (use f mk in \<open>auto simp: safe_simps\<close>)
  have e1: "no_cross w1"
    using goes_env [OF remove_all_goes [OF goes_refl [of "\<lambda>_. True"] c1]] nc by (auto simp: same_env_def)
  have v1: "r1 = None \<Longrightarrow> view (now_at w1) = (None, None, Some old, mk)"
    using remove_all_ok [of Game w0 w1] c1 f by simp
  obtain x r2 w2 where c2: "promote_dir Backup Game w1 = ((x, r2), w2)" by (metis surj_pair)
  have "recovers old new w (case r2 of Some _ \<Rightarrow> (Inl ''roll_back'', w2)
      | None \<Rightarrow> (Inr RecoveryRolledBack, note_event ''update.swap.rollback'' (clear_state w2)))" if "r1 = None"
    by (rule recovers_promote [OF g1 e1 v1 [OF that] c2]) simp
  moreover have "r1 = None" if "decisions w = []"
    using remove_all_quiet [of w0 Game] c1 goes_env [OF g] that by (auto simp: same_env_def)
  ultimately show ?thesis
    using g1 by (cases r1; cases r2) (auto simp: recover_back_def c1 c2 recovers_def)
qed

text \<open>The recovery, from any safe layout.\<close>

lemma recover_safe:
  assumes safe: "safe old new (view (now_at w))" and nc: "no_cross w"
    and seen: "\<And>p. \<not> stat_err w p" "\<not> marker_err w"
  shows "recovers old new w (recover w)"
proof -
  define w0 where "w0 = remove_promote_debris w"
  note d = remove_promote_debris_goes [OF goes_refl, of "safe old new", OF safe, folded w0_def]
  have env: "no_cross w0" "\<And>p. \<not> stat_err w0 p" "\<not> marker_err w0"
    using goes_env [OF d(1)] nc seen by (simp_all add: same_env_def)
  obtain g s b mk where v: "view (now_at w0) = (g, s, b, mk)" by (metis surj_pair)
  then have sf: "safe old new (g, s, b, mk)" using safe d(2) by simp
  have f: "l_game (now_at w0) = g" "l_staging (now_at w0) = s" "l_backup (now_at w0) = b" "l_marker (now_at w0) = mk"
    using v by (simp_all add: view_def)
  have ex: "dir_exists Game w0 = (g \<noteq> None)" "dir_exists Staging w0 = (s \<noteq> None)" "dir_exists Backup w0 = (b \<noteq> None)"
    "marker_present w0 = (mk \<noteq> None)" "read_state w0 = mk"
    using env f by (simp_all add: dir_exists_def marker_present_def read_state_def)
  obtain x1 r1 w1 where c1: "promote_dir Staging Game w0 = ((x1, r1), w1)" by (metis surj_pair)
  obtain x2 r2 w2 where c2: "promote_dir Backup Game w0 = ((x2, r2), w2)" by (metis surj_pair)
  note defs = recover_def w0_def [symmetric] Let_def ex c1 c2
  from sf show ?thesis
  proof (cases rule: safe_cases)
    case old_unmarked
    have "recovers old new w (clean_staging (\<lambda>x. x) (s \<noteq> None) w0)"
      by (rule recovers_clean [OF d(1) v]) (simp_all add: old_unmarked safe_simps)
    then show ?thesis using old_unmarked by (simp add: defs)
  next
    case old_alone
    have "recovers old new w (clean_staging clear_state (s \<noteq> None) w0)"
      by (rule recovers_clean [OF d(1) v]) (simp_all add: old_alone safe_simps)
    then show ?thesis using old_alone by (simp add: defs)
  next
    case old_staged
    then show ?thesis using recovers_forward [OF d(1) env(1)] v by (simp add: defs)
  next
    case aside_staged
    have "recovers old new w (case r1 of Some _ \<Rightarrow> (Inl ''recovery_complete'', w1)
        | None \<Rightarrow> (Inr RecoveryRolledForward, note_event ''update.swap.complete'' (clear_state w1)))"
      by (rule recovers_promote [OF d(1) env(1) _ c1]) (use v aside_staged in auto)
    then show ?thesis using aside_staged by (cases r1) (simp_all add: defs)
  next
    case aside
    have "recovers old new w (case r2 of Some _ \<Rightarrow> (Inl ''interrupted'', w2)
        | None \<Rightarrow> (Inr RecoveryRolledBack, note_event ''update.swap.rollback'' (clear_state w2)))"
      by (rule recovers_promote [OF d(1) env(1) _ c2]) (use v aside in auto)
    then show ?thesis using aside by (cases r2) (simp_all add: defs)
  next
    case (backing_out k)
    then show ?thesis
      using recovers_back [OF d(1) env(1), of k] v by (auto simp: defs begun_def split: option.splits)
  next
    case new_marked
    have "decisions w = [] \<Longrightarrow> decisions w0 = []" using goes_env [OF d(1)] by (simp add: same_env_def)
    then show ?thesis
      using new_marked finish [OF d(1) v] 
      by (auto simp: defs begun_def recovers_def settled_def safe_simps split: option.splits)
  next
    case new_unmarked
    have "recovers old new w (clean_staging (\<lambda>x. x) False w0)"
      using d(1) new_unmarked f by (simp add: clean_staging_def recovers_def settled_def)
    then show ?thesis using new_unmarked by (simp add: defs)
  qed
qed

section \<open>The swap\<close>

lemma no_cross_step: "goes (\<lambda>_. True) w w' \<Longrightarrow> no_cross w \<Longrightarrow> no_cross w'"
  by (simp add: goes_def same_env_def)

text \<open>The swap, from the layout it is called in, keeps to the safe layouts.\<close>

lemma swap_safe:
  assumes v: "view (now_at w) = (Some old, Some new, b, None)" and nc: "no_cross w"
  shows "goes (safe old new) w (snd (swap rel w))"
    and "fst (swap rel w) = None \<Longrightarrow> l_game (now_at (snd (swap rel w))) = Some new
       \<and> l_backup (now_at (snd (swap rel w))) = Some old"
    and "decisions w = [] \<Longrightarrow> \<not> stat_err w Game \<Longrightarrow> \<not> stat_err w Staging
       \<Longrightarrow> fst (swap rel w) = None \<and> l_marker (now_at (snd (swap rel w))) = None"
proof -
  let ?b = "\<lparr>st_release = rel, st_step = step_begin\<rparr>" and ?p = "\<lparr>st_release = rel, st_step = step_promoted\<rparr>"
  define w1 where "w1 = note_event ''update.swap.begin'' w"
  have g1: "goes (safe old new) w w1" "view (now_at w1) = (Some old, Some new, b, None)"
    using v by (simp_all add: w1_def goes_refl safe_simps)
  obtain r2 w2 where c2: "write_state ?b w1 = (r2, w2)" by fastforce
  note g2 = write_state_goes [OF g1(1) c2 g1(2) safe_simps(3)]
  define mk where "mk = (if r2 = None then Some ?b else None)"
  have v2: "view (now_at w2) = (Some old, Some new, b, mk)" using g2(2) by (simp add: mk_def)
  have f2: "l_game (now_at w2) = Some old" "l_staging (now_at w2) = Some new" "l_marker (now_at w2) = mk"
    using v2 by (simp_all add: view_def)
  obtain r3 w3 where d3: "discard_backup w2 = (r3, w3)" by fastforce
  then have c3: "(if file_exists Backup w2 then remove_all Backup w2 else (None, w2)) = (r3, w3)"
    by (simp add: discard_backup_def)
  have g3: "goes (safe old new) w w3"
    using c3 remove_all_goes [OF g2(1), of Backup r3 w3] g2(1) f2 by (auto simp: safe_simps split: if_splits)
  have v3: "\<exists>b'. view (now_at w3) = (Some old, Some new, b', mk)" 
    using goes_now [OF remove_all_goes [OF goes_refl [of "\<lambda>u. \<exists>b'. u = (Some old, Some new, b', mk)"], of w2 Backup r3 w3]]
      c3 v2 f2 by (auto split: if_splits)
  have v3': "r3 = None \<Longrightarrow> view (now_at w3) = (Some old, Some new, None, mk)"
    using c3 remove_all_ok [of Backup w2 w3] v2 f2 by (auto simp: file_exists_def view_def split: if_splits)
  then obtain b3 where b3: "view (now_at w3) = (Some old, Some new, b3, mk)" using v3 by auto
  have cl3: "goes (safe old new) w (clear_state w3)"
    by (rule clear_state_goes(1) [OF g3 b3]) (rule safe_simps)
  obtain r4 w4 where c4: "rename_dir Game Backup w3 = (r4, w4)" by fastforce
  have g4: "goes (safe old new) w w4" if "r3 = None"
    by (rule rename_dir_goes [OF g3 c4]) (use v3' [OF that] in \<open>auto simp: view_fields safe_simps\<close>)
  have v4: "r4 = None \<Longrightarrow> view (now_at w4) = (None, Some new, Some old, mk)"
    "r4 \<noteq> None \<Longrightarrow> view (now_at w4) = (Some old, Some new, b3, mk)"
    using rename_dir_ok [of Game Backup w3 w4] rename_dir_err(1) [of Game Backup w3 _ w4] c4 b3
    by (auto simp: view_fields)
  have cl4: "goes (safe old new) w (clear_state w4)" if "r3 = None" "r4 \<noteq> None"
    by (rule clear_state_goes(1) [OF g4 [OF that(1)] v4(2) [OF that(2)]]) (rule safe_simps)
  have nc4: "no_cross w4"
  proof -
    have "no_cross w2"
      using no_cross_step [OF write_state_goes(1) [OF goes_refl c2 g1(2)]] nc by (simp add: w1_def no_cross_def note_event_def)
    then have "no_cross w3"
      using no_cross_step [OF remove_all_goes [OF goes_refl, of "\<lambda>_. True" w2 Backup r3 w3]] c3 by (auto split: if_splits)
    then show ?thesis using no_cross_step [OF rename_dir_goes [OF goes_refl c4]] by simp
  qed
  obtain x r5 w5 where c5: "promote_dir Staging Game w4 = ((x, r5), w5)" by (metis surj_pair)
  have ok: "Staging = Staging \<and> Some new = Some new \<and> safe old new (Some new, None, Some old, mk)
      \<or> Staging = Backup \<and> Some old = Some new \<and> safe old new (Some new, Some new, None, mk)"
    by (simp add: safe_simps)
  note p5 = promote_ok_step [OF g4 nc4 c5 v4(1) ok]
  have x: "x = False" using c5 promote_dir_local [OF nc4, of Staging Game] by (auto split: prod.splits)
  obtain r6 w6 where c6: "rename_dir Backup Game w5 = (r6, w6)" by fastforce
  have g6: "goes (safe old new) w w6" if "r3 = None" "r4 = None" "r5 \<noteq> None"
    by (rule rename_dir_goes [OF p5(1) [OF that(1,2)] c6])
      (use p5(2) [OF that(1,2,3)] in \<open>auto simp: view_fields safe_simps\<close>)
  have v6: "view (now_at w6) = (Some old, Some new, None, mk)" if "r3 = None" "r4 = None" "r5 \<noteq> None" "r6 = None"
    using rename_dir_ok [of Backup Game w5 w6] c6 p5(2) [OF that(1,2,3)] that(4) by (auto simp: view_fields)
  have cl6: "goes (safe old new) w (clear_state w6)" if "r3 = None" "r4 = None" "r5 \<noteq> None" "r6 = None"
    by (rule clear_state_goes(1) [OF g6 [OF that(1-3)] v6 [OF that]]) (rule safe_simps)
  obtain r7 w7 where c7: "write_state ?p w5 = (r7, w7)" by fastforce
  have p7: "goes (safe old new) w w7" "view (now_at w7) = (Some new, None, Some old, if r7 = None then Some ?p else mk)"
    if "r3 = None" "r4 = None" "r5 = None"
    using write_state_goes [OF p5(1) [OF that(1,2)] c7, of "Some new" None "Some old" mk] p5(3) [OF that(1,2,3)]
    by (simp_all add: safe_simps)
  define w8 where "w8 = (if r7 = None then w7 else note_event ''update.swap.state.promoted'' w7)"
  have p8: "goes (safe old new) w w8" "view (now_at w8) = (Some new, None, Some old, if r7 = None then Some ?p else mk)"
    if "r3 = None" "r4 = None" "r5 = None"
    using p7 [OF that] by (simp_all add: w8_def)
  note cl8 = clear_state_goes [OF p8(1) p8(2) safe_simps(7)]
  have sw: "swap rel w = (if \<not> dir_exists Staging w then (Some ''no_staging'', w) else if \<not> dir_exists Game w then (Some ''no_game'', w)
      else case r2 of Some _ \<Rightarrow> (Some ''state_write'', w2)
      | None \<Rightarrow> (case r3 of Some _ \<Rightarrow> (Some ''stale_backup'', clear_state w3)
        | None \<Rightarrow> (case r4 of Some _ \<Rightarrow> (Some ''backup_move'', note_event ''update.swap.rollback'' (clear_state w4))
          | None \<Rightarrow> (case r5 of Some _ \<Rightarrow> (Some ''promote_move'', note_event ''update.swap.rollback'' (if r6 = None then clear_state w6 else w6))
            | None \<Rightarrow> (None, note_event ''update.swap.complete'' (clear_state w8))))))"
    by (simp add: swap_def Let_def w1_def [symmetric] c2 d3 c4 c5 x c6 c7 w8_def [symmetric] split: option.splits)
  show "goes (safe old new) w (snd (swap rel w))"
    unfolding sw using g2(1) cl3 cl4 g6 cl6 cl8(1) v
    by (auto simp: goes_refl safe_simps split: option.splits)
  show "l_game (now_at (snd (swap rel w))) = Some new \<and> l_backup (now_at (snd (swap rel w))) = Some old"
    if "fst (swap rel w) = None"
    using that cl8(2) unfolding sw by (auto simp: view_fields split: option.splits if_splits)
  show "fst (swap rel w) = None \<and> l_marker (now_at (snd (swap rel w))) = None"
    if q: "decisions w = []" and st: "\<not> stat_err w Game" "\<not> stat_err w Staging"
  proof -
    have "dir_exists Staging w" "dir_exists Game w" using v st by (simp_all add: dir_exists_def view_def)
    moreover have 1: "decisions w1 = []" using q by (simp add: w1_def note_event_def)
    then have 2: "r2 = None" "decisions w2 = []"
      using c2 by (auto simp: write_state_def quiet_plain quiet_become set_marker_tmp_def)
    then have 3: "r3 = None" "decisions w3 = []"
      using c3 remove_all_quiet [of w2 Backup] by (auto split: if_splits)
    then have 4: "r4 = None" "decisions w4 = []"
      using rename_dir_quiet [of w3 Game old Backup] v3' c4 by (auto simp: view_fields)
    have 5: "r5 = None" "decisions w5 = []" using p5(4) [OF 3(1) 4(1) 4(2)] by auto
    then have "decisions w8 = []"
      using c7 by (auto simp: w8_def write_state_def quiet_plain quiet_become set_marker_tmp_def note_event_def)
    ultimately show ?thesis
      using 2 3 4 5 clear_state_quiet [of w8] by (simp add: sw)
  qed
qed

section \<open>Starts, crashes and recoveries\<close>

text \<open>A start of the launcher on a layout a crash has left, when everything can be examined.\<close>

definition boot :: "layout \<Rightarrow> fault list \<Rightarrow> world" where
  "boot m ds = \<lparr>now_at = m, past = [], decisions = ds, stat_err = \<lambda>_. False, marker_err = False, wlog = []\<rparr>"

definition one_fs :: "fault list \<Rightarrow> bool" where
  "one_fs ds \<longleftrightarrow> (\<forall>n. Fails EXDEV n \<notin> set ds)"

text \<open>
  The layouts an update can leave behind: those the swap passes through, and from any of them those
  a further start's recovery passes through, whatever calls fail in either.
\<close>

inductive left_behind :: "string \<Rightarrow> layout \<Rightarrow> layout \<Rightarrow> bool" for rel m0 where
  swapping: "one_fs ds \<Longrightarrow> m \<in> passed (boot m0 ds) (snd (swap rel (boot m0 ds))) \<Longrightarrow> left_behind rel m0 m"
| recovering: "left_behind rel m0 m \<Longrightarrow> one_fs ds \<Longrightarrow> m' \<in> passed (boot m ds) (snd (recover (boot m ds)))
    \<Longrightarrow> left_behind rel m0 m'"

lemma boot_simps [simp]:
  "now_at (boot m ds) = m" "stat_err (boot m ds) p = False" "marker_err (boot m ds) = False"
  "decisions (boot m ds) = ds" "no_cross (boot m ds) = one_fs ds"
  by (simp_all add: boot_def no_cross_def one_fs_def)

lemma left_behind_safe:
  assumes "view m0 = (Some old, Some new, b, None)" and "left_behind rel m0 m"
  shows "safe old new (view m)"
  using assms(2)
proof induction
  case (swapping ds m)
  have "goes (safe old new) (boot m0 ds) (snd (swap rel (boot m0 ds)))"
    by (rule swap_safe(1)) (simp_all add: assms(1) swapping.hyps(1))
  then show ?case using goes_passed swapping.hyps(2) by blast
next
  case (recovering m ds m')
  have "recovers old new (boot m ds) (recover (boot m ds))"
    by (rule recover_safe) (simp_all add: recovering)
  then show ?case using goes_passed recovering.hyps(3) by (auto simp: recovers_def)
qed


definition sample_layout :: "tree \<Rightarrow> tree \<Rightarrow> layout" where
  "sample_layout old new = \<lparr>l_game = Some old, l_staging = Some new, l_backup = None, l_copies = [],
     l_marker = None, l_marker_tmp = False\<rparr>"




section \<open>Where the promise breaks\<close>

lemma past_become: "past (become m w) = past w @ [now_at w]"
  by (simp add: become_def)

lemma past_become_fold: "past (become m (fold (\<lambda>k. become (f k)) ks w)) = past w @ now_at w # map f ks"
  by (induction ks arbitrary: w) (simp_all add: past_become)

text \<open>A removal that runs has each proper suffix behind it.\<close>

lemma remove_all_suffix:
  assumes "remove_all p w = (None, w')" and "tree_at p (now_at w) = Some t" and "0 < k" and "k \<le> length t"
  shows "put_tree p (Some (drop k t)) (now_at w) \<in> set (past w')"
proof -
  obtain f w1 where d: "decide w = (f, w1)" by fastforce
  let ?f = "\<lambda>k. put_tree p (Some (drop k t)) (now_at w)" and ?ks = "[1..<Suc (length t)]"
  have "f = Runs" using assms(1,2) d by (cases f) (auto simp: remove_all_def)
  then have w': "w' = become (put_tree p None (now_at w)) (fold (\<lambda>k. become (?f k)) ?ks w1)"
    using assms(1,2) d by (simp add: remove_all_def del: upt_Suc)
  have "past w' = past w1 @ now_at w1 # map ?f ?ks"
    unfolding w' by (rule past_become_fold)
  then show ?thesis using assms(3,4) by (auto simp del: upt_Suc)
qed

lemma past_kept: "goes (\<lambda>_. True) w w' \<Longrightarrow> set (past w) \<subseteq> set (past w')"
  by (auto simp: goes_def)

text \<open>What a promotion across file systems passes through.\<close>

lemma promote_cross_device:
  assumes d: "decisions w = [Fails EXDEV n]" and g: "l_game (now_at w) = None" and s: "l_staging (now_at w) = Some t"
    and c: "l_copies (now_at w) = []" and k: "0 < k" "k \<le> length t"
  shows "\<exists>w'. promote_dir Staging Game w = ((True, None), w') \<and> decisions w' = [] \<and> goes (\<lambda>_. True) w w'
    \<and> (now_at w)\<lparr>l_game := Some t, l_staging := Some (drop k t)\<rparr> \<in> set (past w')"
proof -
  define w1 where "w1 = w\<lparr>decisions := []\<rparr>"
  have rn: "rename_dir Staging Game w = (Some EXDEV, w1)" using d by (simp add: rename_dir_def decide_def w1_def)
  have g1: "goes (\<lambda>_. True) w w1" using rename_dir_goes [OF goes_refl rn, of "\<lambda>_. True"] by simp
  define w3 where "w3 = become ((now_at w1)\<lparr>l_copies := [] # l_copies (now_at w1)\<rparr>) w1"
  have g3: "goes (\<lambda>_. True) w w3" unfolding w3_def by (rule goes_become [OF g1]) simp
  define w4 where "w4 = fold (\<lambda>k. become ((now_at w3)\<lparr>l_copies := [take k t]\<rparr>)) [1..<Suc (length t)] w3"
  have q: "decisions (fold (\<lambda>k. become (f k)) ks v) = decisions v" for f ks v
    by (induction ks arbitrary: v) (simp_all add: quiet_become)
  have n3: "now_at w3 = (now_at w)\<lparr>l_copies := [[]]\<rparr>" "decisions w3 = []"
    using c by (simp_all add: w3_def w1_def quiet_become)
  have cp: "copy_tree t w3 = (None, w4)"
    using n3 by (simp add: copy_tree_def decide_runs w4_def Let_def del: upt_Suc)
  have g4: "goes (\<lambda>_. True) w w4" unfolding w4_def by (rule goes_become_fold [OF g3]) simp
  have n4: "now_at w4 = (now_at w)\<lparr>l_copies := [t]\<rparr>" "decisions w4 = []"
    using k n3 by (simp_all add: w4_def now_fold_become q del: upt_Suc)
  define w5 where "w5 = become (put_tree Game (Some t) ((now_at w4)\<lparr>l_copies := []\<rparr>)) w4"
  have rc: "rename_copy Game w4 = (None, w5)"
    using n4 g by (simp add: rename_copy_def decide_runs w5_def)
  have g5: "goes (\<lambda>_. True) w w5" unfolding w5_def by (rule goes_become [OF g4]) simp
  have n5: "now_at w5 = (now_at w)\<lparr>l_game := Some t\<rparr>" "decisions w5 = []"
    using n4 c by (simp_all add: w5_def put_tree_def quiet_become)
  obtain w6 where rm: "remove_all Staging w5 = (None, w6)" "decisions w6 = []"
    using remove_all_quiet [OF n5(2)] by blast
  have g6: "goes (\<lambda>_. True) w w6" by (rule remove_all_goes [OF g5 rm(1)]) simp_all
  have "put_tree Staging (Some (drop k t)) (now_at w5) \<in> set (past w6)"
    by (rule remove_all_suffix [OF rm(1) _ k]) (simp add: n5 s)
  moreover have "promote_dir Staging Game w = ((True, None), w6)"
  proof -
    have n1: "now_at w1 = now_at w" "decisions w1 = []" by (simp_all add: w1_def)
    then have w3: "become ((now_at w)\<lparr>l_copies := [] # l_copies (now_at w)\<rparr>) w1 = w3" by (simp add: w3_def)
    have "l_staging (now_at w3) = Some t" using n3 s by simp
    then show ?thesis
      using rm(1) by (simp add: promote_dir_def rn quiet_plain n1 Let_def w3 cp rc s)
  qed
  ultimately show ?thesis using rm(2) g6 n5 by (auto simp: put_tree_def)
qed

text \<open>
  Across file systems a crash can damage the install. When the staging directory is on another
  file system, the promotion copies the tree into \<open>game\<close> and then removes the staged one file by
  file, with the marker still at its first step. A crash in between leaves a layout from which the
  next recovery, undisturbed, discards the old release, moves the complete new one aside and
  puts what is left of the staged tree into \<open>game\<close>: it reports that it has rolled forward, and
  \<open>game\<close> lacks files of the new release.
\<close>

theorem cross_device_crash_damages_install:
  assumes "view m0 = (Some old, Some (x # y # zs), None, None)" and "l_copies m0 = []"
  shows "\<exists>ds. \<exists>m \<in> passed (boot m0 ds) (snd (swap rel (boot m0 ds))).
    \<exists>w. recover (boot m []) = (Inr RecoveryRolledForward, w) \<and> l_game (now_at w) = Some (y # zs)
      \<and> l_backup (now_at w) = Some (x # y # zs)"
proof -
  let ?new = "x # y # zs" and ?ds = "replicate 6 Runs @ [Fails EXDEV 0]"
  let ?b = "\<lparr>st_release = rel, st_step = step_begin\<rparr>"
  define w where "w = boot m0 ?ds"
  have f0: "l_game m0 = Some old" "l_staging m0 = Some ?new" "l_backup m0 = None" "l_marker m0 = None"
    using assms(1) by (simp_all add: view_def)
  have six: "?ds = [Runs, Runs, Runs, Runs, Runs, Runs, Fails EXDEV 0]" by (simp add: numeral_eq_Suc)
  define w1 where "w1 = note_event ''update.swap.begin'' w"
  obtain w2 where w2: "write_state ?b w1 = (None, w2)" "decisions w2 = [Runs, Fails EXDEV 0]"
    "now_at w2 = m0\<lparr>l_marker := Some ?b, l_marker_tmp := False\<rparr>"
    unfolding w1_def w_def six
    by (simp add: write_state_def plain_call_def decide_def boot_def note_event_def set_marker_tmp_def become_def)
  have bk: "discard_backup w2 = (None, w2)"
  proof -
    have "stat_err w2 = stat_err w1"
      using goes_env [OF write_state_goes(1) [OF goes_refl [of "\<lambda>_. True"] w2(1), of "Some old" "Some ?new" None None]] f0
      by (simp add: same_env_def view_def w1_def w_def note_event_def)
    then show ?thesis using f0 w2(3) by (simp add: discard_backup_def file_exists_def w1_def w_def note_event_def)
  qed
  obtain w3 where w3: "rename_dir Game Backup w2 = (None, w3)" "decisions w3 = [Fails EXDEV 0]"
    "now_at w3 = put_tree Backup (Some old) (put_tree Game None (now_at w2))"
    using w2 f0 by (simp add: rename_dir_def decide_def become_def)
  have "l_game (now_at w3) = None" "l_staging (now_at w3) = Some ?new" "l_copies (now_at w3) = []"
    using w2 w3 f0 assms(2) by (simp_all add: put_tree_def)
  then obtain w4 where w4: "promote_dir Staging Game w3 = ((True, None), w4)" "decisions w4 = []"
    "(now_at w3)\<lparr>l_game := Some ?new, l_staging := Some (y # zs)\<rparr> \<in> set (past w4)"
    using promote_cross_device [OF w3(2), of ?new 1] by auto
  define m where "m = (now_at w3)\<lparr>l_game := Some ?new, l_staging := Some (y # zs)\<rparr>"
  have m: "l_game m = Some ?new" "l_staging m = Some (y # zs)" "l_backup m = Some old" "l_marker m = Some ?b" "l_copies m = []"
    using w2 w3 assms(2) by (simp_all add: m_def put_tree_def)
  have in_past: "m \<in> passed w (snd (swap rel w))"
  proof -
    define w5 where "w5 = note_event ''update.swap.cross_device'' w4"
    obtain r w6 where w6: "write_state \<lparr>st_release = rel, st_step = step_promoted\<rparr> w5 = (r, w6)" by fastforce
    have g6: "goes (\<lambda>_. True) w5 w6" by (rule write_state_goes(1) [OF goes_refl w6]) (auto simp: view_def)
    define w7 where "w7 = (if r = None then w6 else note_event ''update.swap.state.promoted'' w6)"
    have g7: "goes (\<lambda>_. True) w5 w7" using g6 by (simp add: w7_def)
    have "goes (\<lambda>_. True) w5 (clear_state w7)"
      by (rule clear_state_goes(1) [OF g7]) (auto simp: view_def)
    then have "m \<in> set (past (clear_state w7))"
      using past_kept w4(3) by (fastforce simp: w5_def note_event_def m_def)
    moreover have "dir_exists Staging w" "dir_exists Game w" using f0 by (simp_all add: w_def dir_exists_def)
    then have "snd (swap rel w) = note_event ''update.swap.complete'' (clear_state w7)"
      by (simp add: swap_def w1_def [symmetric] w2 bk w3 w4 w5_def [symmetric] w6 w7_def Let_def)
    ultimately show ?thesis by (simp add: passed_def w_def boot_def note_event_def)
  qed
  obtain v where "recover (boot m []) = (Inr RecoveryRolledForward, v)" "l_game (now_at v) = Some (y # zs)"
    "l_backup (now_at v) = Some ?new"
  proof -
    let ?r = "remove_promote_debris (boot m [])"
    have r: "?r = boot m []" using m by (simp add: remove_promote_debris_def quiet_plain)
    obtain v1 where v1: "remove_all Backup (boot m []) = (None, v1)" "decisions v1 = []"
      using remove_all_quiet [of "boot m []"] by auto
    have n1: "now_at v1 = put_tree Backup None m" using remove_all_ok [OF v1(1)] by simp
    obtain v2 where v2: "rename_dir Game Backup v1 = (None, v2)" "decisions v2 = []"
      "now_at v2 = put_tree Backup (Some ?new) (put_tree Game None (now_at v1))"
      using rename_dir_quiet [OF v1(2), of Game ?new Backup] n1 m by auto
    obtain v3 where v3: "rename_dir Staging Game v2 = (None, v3)" "decisions v3 = []"
      "now_at v3 = put_tree Game (Some (y # zs)) (put_tree Staging None (now_at v2))"
      using rename_dir_quiet [OF v2(2), of Staging "y # zs" Game] v2(3) n1 m by auto
    have "recover_forward (boot m []) = (Inr RecoveryRolledForward, note_event ''update.swap.complete'' (clear_state v3))"
      by (simp add: recover_forward_def v1 v2 v3 promote_dir_def)
    moreover have "recover (boot m []) = recover_forward (boot m [])"
      using m by (simp add: recover_def r Let_def dir_exists_def marker_present_def)
    moreover have "l_game (now_at (clear_state v3)) = Some (y # zs)" "l_backup (now_at (clear_state v3)) = Some ?new"
      using clear_state_goes(2) [OF goes_refl [of "\<lambda>_. True" v3], of "Some (y # zs)" None "Some ?new" "l_marker (now_at v3)"]
        v3(3) v2(3) n1 by (auto simp: view_def)
    ultimately show ?thesis using that by simp
  qed
  then show ?thesis using in_past unfolding w_def by blast
qed

theorem cross_device_crash_damages_install_witness:
  "\<exists>ds m w. m \<in> passed (boot (sample_layout [(''a'', ''1'')] [(''a'', ''2''), (''b'', ''2'')]) ds)
       (snd (swap ''r'' (boot (sample_layout [(''a'', ''1'')] [(''a'', ''2''), (''b'', ''2'')]) ds)))
     \<and> recover (boot m []) = (Inr RecoveryRolledForward, w) \<and> l_game (now_at w) = Some [(''b'', ''2'')]"
proof -
  have "view (sample_layout [(''a'', ''1'')] [(''a'', ''2''), (''b'', ''2'')])
      = (Some [(''a'', ''1'')], Some [(''a'', ''2''), (''b'', ''2'')], None, None)"
    by (simp add: view_def sample_layout_def)
  moreover have "l_copies (sample_layout [(''a'', ''1'')] [(''a'', ''2''), (''b'', ''2'')]) = []" by (simp add: sample_layout_def)
  ultimately show ?thesis using cross_device_crash_damages_install [of _ _ _ _ _ "''r''"] by blast
qed

text \<open>
  A directory that cannot be examined counts as missing. So when \<open>Stat\<close> of the staged tree fails at
  the start after a crash between the marker and the first move, the recovery deletes the installed
  release and puts the one before it, which was still in \<open>game.old\<close>, in its place.
\<close>

lemma unexamined_staging_rolls_back:
  assumes v: "view (now_at w) = (Some old, Some new, Some older, Some st)" and "st_step st = step_begin"
    and q: "decisions w = []" and "l_copies (now_at w) = []"
    and "stat_err w = (\<lambda>p. p = Staging)" and "\<not> marker_err w"
  shows "\<exists>v. recover w = (Inr RecoveryRolledBack, v) \<and> l_game (now_at v) = Some older"
proof -
  have f: "l_game (now_at w) = Some old" "l_backup (now_at w) = Some older" "l_marker (now_at w) = Some st"
    using v by (simp_all add: view_def)
  have r: "remove_promote_debris w = w" using assms(4) q by (simp add: remove_promote_debris_def quiet_plain)
  obtain v1 where v1: "remove_all Game w = (None, v1)" "decisions v1 = []" using remove_all_quiet [OF q] by blast
  have n1: "now_at v1 = put_tree Game None (now_at w)" by (rule remove_all_ok [OF v1(1)])
  obtain v2 where v2: "rename_dir Backup Game v1 = (None, v2)"
    "now_at v2 = put_tree Game (Some older) (put_tree Backup None (now_at v1))"
    using rename_dir_quiet [OF v1(2), of Backup older Game] n1 f by auto
  have "recover w = recover_back w"
    using assms f by (simp add: recover_def r Let_def dir_exists_def marker_present_def read_state_def step_begin_def step_promoted_def)
  moreover have "l_game (now_at (clear_state v2)) = Some older"
    using clear_state_goes(2) [OF goes_refl [of "\<lambda>_. True" v2], of "Some older" _ _ "l_marker (now_at v2)"] v2(2)
    by (auto simp: view_def)
  ultimately show ?thesis by (simp add: recover_back_def v1 promote_dir_def v2)
qed

end
