(* ===== verification/Update_Safety.thy ===== *)
theory Update_Safety
  imports Update_Apply Swap_Safety
begin

text \<open>
  What holds of a whole update run: nothing is touched before the swap, what an applied update has
  installed, what becomes of the marker, and that retries end. Each stage has a lemma for its quiet end,
  for what it hands on and for the marker; \<open>apply_update_rule\<close> puts them together.
\<close>

section \<open>What a run may touch before the swap\<close>

definition in_staging :: "string \<Rightarrow> string \<Rightarrow> bool" where
  "in_staging root p \<longleftrightarrow> staged_under root p \<or> below (staged_game root) p \<or> below (staged_launcher root) p"

definition outside_same :: "string \<Rightarrow> files \<Rightarrow> files \<Rightarrow> bool" where
  "outside_same root m0 m \<longleftrightarrow> (\<forall>p. in_staging root p \<or> get m p = get m0 p)"

definition same_install :: "layout \<Rightarrow> view \<Rightarrow> bool" where
  "same_install l v = (fst v = l_game l \<and> fst (snd (snd v)) = l_backup l \<and> snd (snd (snd v)) = l_marker l)"

text \<open>
  Every layout passed through has the game, the rollback copy and the marker of the swap as they were, and
  every state of the files agrees with the first outside the staging directories.
\<close>

definition install_untouched :: "string \<Rightarrow> apply_state \<Rightarrow> apply_state \<Rightarrow> bool" where
  "install_untouched root s s' =
     (goes (same_install (now_at (ap_world s))) (ap_world s) (ap_world s')
      \<and> crash_inv (outside_same root (files (ap_disk s))) (ap_disk s) (ap_disk s'))"

lemma untouched_refl: "install_untouched root s s"
  by (auto simp: install_untouched_def same_install_def view_def outside_same_def intro!: goes_refl crash_inv_refl)

lemma untouched_eq:
  "install_untouched root s0 s \<Longrightarrow> ap_world s' = ap_world s \<Longrightarrow> ap_disk s' = ap_disk s \<Longrightarrow> install_untouched root s0 s'"
  by (simp add: install_untouched_def)

lemma effects_world [simp]:
  "ap_world (clear_pending en s) = ap_world s" "ap_world (clear_cancel en s) = ap_world s"
  "ap_world (remove_archive en s) = ap_world s" "ap_world (write_result r s) = ap_world s"
  "ap_world (note_phase ph msg s) = ap_world s" "ap_world (snd (fail_retryable en p res rsn msg s)) = ap_world s"
  "ap_world (snd (fail_terminal en p res rsn msg s)) = ap_world s" "ap_world (snd (end_cancelled en p res s)) = ap_world s"
  by (simp_all add: clear_pending_def clear_cancel_def remove_archive_def write_result_def note_phase_def
      fail_retryable_def fail_terminal_def end_cancelled_def Let_def)

lemma effects_disk [simp]:
  "ap_disk (clear_pending en s) = ap_disk s" "ap_disk (clear_cancel en s) = ap_disk s"
  "ap_disk (remove_archive en s) = ap_disk s" "ap_disk (write_result r s) = ap_disk s"
  "ap_disk (note_phase ph msg s) = ap_disk s" "ap_disk (snd (fail_retryable en p res rsn msg s)) = ap_disk s"
  "ap_disk (snd (fail_terminal en p res rsn msg s)) = ap_disk s" "ap_disk (snd (end_cancelled en p res s)) = ap_disk s"
  by (simp_all add: clear_pending_def clear_cancel_def remove_archive_def write_result_def note_phase_def
      fail_retryable_def fail_terminal_def end_cancelled_def Let_def)

lemma remove_staging_same:
  assumes "goes (same_install l) w0 w"
  shows "goes (same_install l) w0 (snd (remove_all Staging w))"
proof -
  obtain r w' where c: "remove_all Staging w = (r, w')" by fastforce
  have q: "same_install l (view (now_at w))" using goes_now [OF assms] .
  have "goes (same_install l) w0 w'"
    by (rule remove_all_goes [OF assms c]) (use q in \<open>simp_all add: same_install_def view_def put_tree_def\<close>)
  then show ?thesis by (simp add: c)
qed

lemma crash_set_files: "crash_inv P d e \<Longrightarrow> P m \<Longrightarrow> crash_inv P d (set_files m e)"
  by (rule crash_inv_trans, assumption, rule crash_inv_set_files [OF crash_inv_last])

lemma crash_next_fault: "crash_inv P d e \<Longrightarrow> next_fault e = (f, e') \<Longrightarrow> crash_inv P d e'"
  by (rule crash_inv_trans, assumption, rule crash_inv_eq [OF next_fault_files(2) next_fault_files(1) crash_inv_last])

lemma drop_all_outside:
  assumes "crash_inv (outside_same root m0) d e" and "\<forall>p \<in> set ps. in_staging root p"
  shows "crash_inv (outside_same root m0) d (fold (\<lambda>p d. set_files (del p (files d)) d) ps e)"
  using assms
proof (induction ps arbitrary: e)
  case (Cons p ps)
  have "outside_same root m0 (del p (files e))"
    using crash_inv_last [OF Cons.prems(1)] Cons.prems(2) by (auto simp: outside_same_def)
  then show ?case using Cons.IH [OF crash_set_files [OF Cons.prems(1)]] Cons.prems(2) by simp
qed simp

lemma remove_under_outside:
  assumes "crash_inv (outside_same root m0) d e"
  shows "crash_inv (outside_same root m0) d (snd (remove_under (staged_launcher root) e))"
proof -
  obtain f e' where f: "next_fault e = (f, e')" by fastforce
  have "in_staging root (staged_launcher root @ slash # r)" for r
    by (simp add: in_staging_def below_def)
  then have p: "\<forall>p \<in> set (map (\<lambda>r. staged_launcher root @ slash # r) rs). in_staging root p" for rs by auto
  have t: "take n (map g xs) = map g (take n xs)" for n g and xs :: "string list" by (rule take_map)
  show ?thesis
    using drop_all_outside [OF crash_next_fault [OF assms f] p]
    by (cases f) (simp_all add: remove_under_def f Let_def t)
qed

lemma untouched_clear_staging:
  assumes "install_untouched root s0 s" and "clear_staging root s = (r, s')"
  shows "install_untouched root s0 s'"
proof -
  let ?w = "if dir_exists Staging (ap_world s) then remove_all Staging (ap_world s) else (None, ap_world s)"
  let ?d = "if files_under (staged_launcher root) (files (ap_disk s)) = [] then (None, ap_disk s)
    else remove_under (staged_launcher root) (ap_disk s)"
  have "goes (same_install (now_at (ap_world s0))) (ap_world s0) (snd ?w)"
    "crash_inv (outside_same root (files (ap_disk s0))) (ap_disk s0) (snd ?d)"
    using assms(1) remove_staging_same remove_under_outside by (auto simp: install_untouched_def)
  moreover obtain e w where w: "?w = (e, w)" by fastforce
  moreover obtain e' d where d: "?d = (e', d)" by fastforce
  ultimately show ?thesis
    using assms unfolding clear_staging_def w d
    by (cases e) (auto simp: install_untouched_def)
qed

lemma untouched_discard:
  assumes "install_untouched root s0 s" shows "install_untouched root s0 (discard_staging root s)"
  using assms by (simp add: discard_staging_def install_untouched_def remove_staging_same remove_under_outside)

lemma get_keep_key: "get (keep (\<lambda>k _. Q k) m) p = (if Q p then get m p else None)"
  by (induction m) (auto simp: keep_def get_def)

lemma untouched_hand_over:
  assumes "install_untouched root s0 s" shows "install_untouched root s0 (hand_over root s)"
proof -
  have g: "goes (same_install (now_at (ap_world s0))) (ap_world s0)
      (become (put_tree Staging t (now_at (ap_world s))) (ap_world s))" for t
    by (rule goes_become) (use assms goes_now [of "same_install (now_at (ap_world s0))" "ap_world s0" "ap_world s"]
      in \<open>auto simp: install_untouched_def same_install_def view_def put_tree_def\<close>)
  have "outside_same root (files (ap_disk s0)) (keep (\<lambda>p _. \<not> below (staged_game root) p) (files (ap_disk s)))"
    using assms crash_inv_last [of "outside_same root (files (ap_disk s0))" "ap_disk s0" "ap_disk s"]
    by (auto simp: install_untouched_def outside_same_def in_staging_def get_keep_key)
  with assms g show ?thesis
    by (simp add: hand_over_def Let_def install_untouched_def crash_set_files)
qed

lemma untouched_extract:
  assumes "rooted root" and "install_untouched root s0 s"
  shows "install_untouched root s0 (s\<lparr>ap_disk := snd (extract_archive a root mo (ap_disk s))\<rparr>)"
proof -
  let ?P = "outside_same root (files (ap_disk s0))"
  have i: "crash_inv ?P (ap_disk s0) (ap_disk s)" using assms(2) by (simp add: install_untouched_def)
  have "?P m" if "only_staged root (files (ap_disk s)) m" for m
    using crash_inv_last [OF i] that unfolding outside_same_def only_staged_def in_staging_def by metis
  then have "crash_inv ?P (ap_disk s) (snd (extract_archive a root mo (ap_disk s)))"
    using crash_inv_mono [OF extract_only_staged [OF assms(1)]] by blast
  with crash_inv_trans [OF i] assms(2) show ?thesis by (simp add: install_untouched_def)
qed

lemma config_path_staged:
  assumes "rooted root" shows "in_staging root (config_path_in root)"
proof -
  have "segs_of (config_path_in root) = segs_of root @ [launcher_staging_dir_name, ''launcher.config.json'']"
    using segs_of_join_plain [OF rooted_join [OF assms, of launcher_staging_dir_name], of "''launcher.config.json''"]
      segs_of_join_plain [OF assms staging_names_plain(2)]
    by (simp add: config_path_in_def staged_launcher_def plain_seg_def slash_def dot_def)
  then show ?thesis by (auto simp: in_staging_def staged_under_def)
qed

lemma untouched_merge_staged_config:
  assumes "rooted root" and "install_untouched root s0 s"
  shows "install_untouched root s0 (snd (merge_staged_config en folder root s))"
proof -
  let ?P = "outside_same root (files (ap_disk s0))"
  have i: "crash_inv ?P (ap_disk s0) (ap_disk s)" using assms(2) by (simp add: install_untouched_def)
  have "?P (put (config_path_in root) x (files (ap_disk s)))" for x
    using crash_inv_last [OF i] config_path_staged [OF assms(1)] by (auto simp: outside_same_def)
  with assms(2) show ?thesis
    by (auto simp: merge_staged_config_def Let_def install_untouched_def crash_set_files split: sum.splits option.splits prod.splits)
qed

text \<open>The endings that come from the swap or after it.\<close>

definition reached_swap :: "apply_result \<Rightarrow> bool" where
  "reached_swap r =
     (ax_outcome r = Applied \<or> ax_reason r = ''swap_failed'' \<or> ax_reason r = ''launcher_merge_failed'')"

lemma reached_swap_simps [simp]:
  "reached_swap (ended oc rsn msg res) = (oc = Applied \<or> rsn = ''swap_failed'' \<or> rsn = ''launcher_merge_failed'')"
  "reached_swap ((ended oc rsn msg res)\<lparr>ax_retryable := b\<rparr>) = (oc = Applied \<or> rsn = ''swap_failed'' \<or> rsn = ''launcher_merge_failed'')"
  "reached_swap (fst (fail_retryable en p res rsn msg s)) = (rsn = ''swap_failed'' \<or> rsn = ''launcher_merge_failed'')"
  "reached_swap (fst (fail_terminal en p res rsn msg s)) = (rsn = ''swap_failed'' \<or> rsn = ''launcher_merge_failed'')"
  "\<not> reached_swap (fst (end_cancelled en p res s))"
  "\<not> reached_swap no_result"
  by (simp_all add: reached_swap_def ended_def fail_retryable_def fail_terminal_def end_cancelled_def no_result_def Let_def)

definition quiet_end :: "string \<Rightarrow> apply_state \<Rightarrow> run_end \<Rightarrow> bool" where
  "quiet_end root s0 r \<longleftrightarrow> \<not> reached_swap (fst r) \<and> install_untouched root s0 (snd r)"

lemma quiet_failures [intro]:
  "install_untouched root s0 s \<Longrightarrow> rsn \<noteq> ''swap_failed'' \<Longrightarrow> rsn \<noteq> ''launcher_merge_failed'' \<Longrightarrow>
     quiet_end root s0 (fail_retryable en p res rsn msg s)"
  "install_untouched root s0 s \<Longrightarrow> rsn \<noteq> ''swap_failed'' \<Longrightarrow> rsn \<noteq> ''launcher_merge_failed'' \<Longrightarrow>
     quiet_end root s0 (fail_terminal en p res rsn msg s)"
  "install_untouched root s0 s \<Longrightarrow> quiet_end root s0 (end_cancelled en p res s)"
  by (auto simp: quiet_end_def intro: untouched_eq)

lemma open_update_quiet:
  "case open_update en folder sidecar s of
     Inl r \<Rightarrow> quiet_end root s r
   | Inr (p, res, s') \<Rightarrow> install_untouched root s s' \<and> ap_part s' = ap_part s"
proof -
  have u: "install_untouched root s s'" if "ap_world s' = ap_world s" "ap_disk s' = ap_disk s" for s'
    using untouched_eq [OF untouched_refl that] .
  show ?thesis
    unfolding open_update_def Let_def
    by (auto simp: quiet_end_def u note_phase_def split: lock_outcome.split option.split)
qed

lemma check_manifest_quiet:
  assumes "install_untouched root s0 s" and "check_manifest en p res s = Inl r"
  shows "quiet_end root s0 r"
proof -
  have "quiet_end root s0 ((ended oc rsn msg res)\<lparr>ax_retryable := b\<rparr>, write_result x (note_phase y z s))"
    if "oc \<noteq> Applied" "rsn \<noteq> ''swap_failed''" "rsn \<noteq> ''launcher_merge_failed''" for oc rsn msg b x y z
    using that untouched_eq [OF assms(1)] by (simp add: quiet_end_def)
  then show ?thesis
    using assms quiet_failures [OF assms(1)]
    by (auto simp: check_manifest_def Let_def split: sum.splits if_splits)
qed

lemma reason_for_policy_other:
  "reason_for_download_policy e \<noteq> ''swap_failed''" "reason_for_download_policy e \<noteq> ''launcher_merge_failed''"
  by (cases e; simp add: reason_for_download_policy_def)+

lemma obtain_archive_quiet:
  assumes "install_untouched root s0 s"
  shows "case obtain_archive en sidecar p m url res s of
     Inl r \<Rightarrow> quiet_end root s0 r
   | Inr (a, res', s') \<Rightarrow> install_untouched root s0 s'"
proof -
  have u: "install_untouched root s0 s'" if "ap_world s' = ap_world s" "ap_disk s' = ap_disk s" for s'
    using untouched_eq [OF assms that] .
  show ?thesis
    unfolding obtain_archive_def Let_def case_prod_beta
    by (auto split: option.split intro!: quiet_failures u reason_for_policy_other)
qed

lemma stage_release_quiet:
  assumes "rooted (update_dir sidecar)" and "install_untouched (update_dir sidecar) s0 s"
  shows "case stage_release en folder sidecar p m a res s of
     Inl r \<Rightarrow> quiet_end (update_dir sidecar) s0 r
   | Inr s' \<Rightarrow> install_untouched (update_dir sidecar) s0 s'"
proof -
  let ?U = "install_untouched (update_dir sidecar) s0"
  obtain r1 s1 where c1: "clear_staging (update_dir sidecar) s = (r1, s1)" by fastforce
  have u1: "?U s1" by (rule untouched_clear_staging [OF assms(2) c1])
  define s2 where "s2 = note_phase phase_extract ''Installing the update.'' s1"
  have u2: "?U s2" using untouched_eq [OF u1] by (simp add: s2_def)
  obtain r ev d where c2: "extract_archive a (update_dir sidecar) (Some m) (ap_disk s2) = ((r, ev), d)"
    by (metis prod.exhaust)
  define s3 where "s3 = hand_over (update_dir sidecar) (s2\<lparr>ap_disk := d\<rparr>)"
  have u3: "?U s3"
    using untouched_hand_over [OF untouched_extract [OF assms(1) u2, of a "Some m"]] by (simp add: s3_def c2)
  define s4 where "s4 = remove_archive en s3"
  have u4: "?U s4" using untouched_eq [OF u3] by (simp add: s4_def)
  obtain ok s5 where c3: "merge_staged_config en folder (update_dir sidecar) s4 = (ok, s5)" by fastforce
  have u5: "?U s5" using untouched_merge_staged_config [OF assms(1) u4, of en folder] by (simp add: c3)
  have ra: "?U (remove_archive en x)" if "?U x" for x using untouched_eq [OF that] by simp
  show ?thesis
    unfolding stage_release_def Let_def c1
    by (auto simp: s2_def [symmetric] c2 s3_def [symmetric] s4_def [symmetric] c3
        intro!: quiet_failures u1 u5 ra untouched_discard u3 u4 split: option.split bool.split)
qed

text \<open>A run ends in one of its stages.\<close>

lemma apply_update_rule:
  assumes "\<And>r. open_update en folder sidecar s = Inl r \<Longrightarrow> P r"
    and "\<And>p res s1 r. open_update en folder sidecar s = Inr (p, res, s1) \<Longrightarrow> check_manifest en p res s1 = Inl r \<Longrightarrow> P r"
    and "\<And>p res s1 m url r. open_update en folder sidecar s = Inr (p, res, s1) \<Longrightarrow>
      check_manifest en p res s1 = Inr (m, url) \<Longrightarrow> obtain_archive en sidecar p m url res s1 = Inl r \<Longrightarrow> P r"
    and "\<And>p res s1 m url a res1 s2 r. open_update en folder sidecar s = Inr (p, res, s1) \<Longrightarrow>
      check_manifest en p res s1 = Inr (m, url) \<Longrightarrow> obtain_archive en sidecar p m url res s1 = Inr (a, res1, s2) \<Longrightarrow>
      stage_release en folder sidecar p m a res1 s2 = Inl r \<Longrightarrow> P r"
    and "\<And>p res s1 m url a res1 s2 s3. open_update en folder sidecar s = Inr (p, res, s1) \<Longrightarrow>
      check_manifest en p res s1 = Inr (m, url) \<Longrightarrow> obtain_archive en sidecar p m url res s1 = Inr (a, res1, s2) \<Longrightarrow>
      stage_release en folder sidecar p m a res1 s2 = Inr s3 \<Longrightarrow> P (install_release en folder sidecar p res1 s3)"
  shows "P (apply_update en folder sidecar s)"
  using assms unfolding apply_update_def by (auto split: sum.split prod.split)

lemma install_release_reached: "reached_swap (fst (install_release en folder sidecar p res s))"
  by (auto simp: install_release_def Let_def split: prod.split option.split) (simp add: reached_swap_def ended_def)

text \<open>Either the run ends quietly or it comes to the installation.\<close>

lemma apply_update_cases:
  assumes "rooted (update_dir sidecar)"
  shows "quiet_end (update_dir sidecar) s (apply_update en folder sidecar s)
    \<or> (\<exists>p res s1 m url a res1 s2 s3. open_update en folder sidecar s = Inr (p, res, s1)
        \<and> check_manifest en p res s1 = Inr (m, url) \<and> obtain_archive en sidecar p m url res s1 = Inr (a, res1, s2)
        \<and> stage_release en folder sidecar p m a res1 s2 = Inr s3
        \<and> install_release en folder sidecar p res1 s3 = apply_update en folder sidecar s)"
    (is "?Q (apply_update en folder sidecar s)")
proof (rule apply_update_rule [where P = ?Q])
  let ?root = "update_dir sidecar"
  show "?Q r" if "open_update en folder sidecar s = Inl r" for r
    using open_update_quiet [of ?root s en folder sidecar] that by simp
  fix p res s1 assume o: "open_update en folder sidecar s = Inr (p, res, s1)"
  have u1: "install_untouched ?root s s1"
    using open_update_quiet [of ?root s en folder sidecar] o by simp
  show "?Q r" if "check_manifest en p res s1 = Inl r" for r
    using check_manifest_quiet [OF u1 that] by simp
  fix m url assume c: "check_manifest en p res s1 = Inr (m, url)"
  show "?Q r" if "obtain_archive en sidecar p m url res s1 = Inl r" for r
    using obtain_archive_quiet [OF u1, of en sidecar p m url res] that by simp
  fix a res1 s2 assume b: "obtain_archive en sidecar p m url res s1 = Inr (a, res1, s2)"
  have u2: "install_untouched ?root s s2"
    using obtain_archive_quiet [OF u1, of en sidecar p m url res] b by simp
  show "?Q r" if "stage_release en folder sidecar p m a res1 s2 = Inl r" for r
    using stage_release_quiet [OF assms u2, of en folder p m a res1] that by simp
  show "?Q (install_release en folder sidecar p res1 s3)" if "stage_release en folder sidecar p m a res1 s2 = Inr s3" for s3
    using o c b that by blast
qed

text \<open>
  C7: Until it swaps, an update touches nothing of the installation. When a run ends for any other reason
  than the swap itself, whatever the network, the archive and the disk do and wherever a crash falls, each
  layout it passed through has the game, the rollback copy and the marker of the swap as they were, and no
  file outside the two staging directories has changed: the live launcher, its configuration and the saves.
\<close>
theorem update_leaves_install:
  assumes "rooted (update_dir sidecar)" and "apply_update en folder sidecar s = (r, s')" and "\<not> reached_swap r"
  shows "install_untouched (update_dir sidecar) s s'"
  using apply_update_cases [OF assms(1), of s en folder] assms(2,3) install_release_reached
  by (auto simp: quiet_end_def) (metis fst_conv)

section \<open>What an applied update has installed\<close>

lemma drop_all_gone:
  "get (files e) q = None \<Longrightarrow> get (files (fold (\<lambda>p d. set_files (del p (files d)) d) ps e)) q = None"
  by (induction ps arbitrary: e) simp_all

lemma remove_under_gone: "get (files d) q = None \<Longrightarrow> get (files (snd (remove_under dir d))) q = None"
  by (cases "next_fault d"; cases "fst (next_fault d)")
    (auto simp: remove_under_def Let_def next_fault_files(1) intro: drop_all_gone)

lemma clear_staging_ok:
  assumes "clear_staging root s = (None, s')"
  shows "stat_err (ap_world s) Staging \<or> l_staging (now_at (ap_world s')) = None"
    and "get (files (ap_disk s)) q = None \<Longrightarrow> get (files (ap_disk s')) q = None"
proof -
  obtain w d where c: "(if dir_exists Staging (ap_world s) then remove_all Staging (ap_world s) else (None, ap_world s)) = (None, w)"
      "d = ap_disk s \<or> d = snd (remove_under (staged_launcher root) (ap_disk s))"
      "s' = s\<lparr>ap_world := w, ap_disk := d\<rparr>"
    using assms by (auto simp: clear_staging_def split: prod.splits option.splits if_splits)
  show "get (files (ap_disk s)) q = None \<Longrightarrow> get (files (ap_disk s')) q = None"
    using c(2,3) remove_under_gone by auto
  show "stat_err (ap_world s) Staging \<or> l_staging (now_at (ap_world s')) = None"
  proof (cases "dir_exists Staging (ap_world s)")
    case True
    then show ?thesis using c(1,3) remove_all_ok [of Staging "ap_world s" w] by (simp add: put_tree_def)
  next
    case False
    then show ?thesis using c(1,3) by (auto simp: dir_exists_def tree_at_def)
  qed
qed

lemma tree_under_listed:
  assumes l: "staged_listed root index m0 m" and e: "\<And>q. below (staged_game root) q \<Longrightarrow> get m0 q = None"
    and t: "(r, x) \<in> set (tree_under (staged_game root) m)"
  shows "listed_at root index (staged_game root @ slash # r) x"
proof -
  let ?q = "staged_game root @ slash # r"
  obtain v where "(?q, v) \<in> set m"
    using t by (auto simp: tree_under_def files_under_def below_def prefix_def)
  then have k: "get m ?q \<noteq> None" unfolding get_def map_of_eq_None_iff by force
  have "get m ?q \<noteq> get m0 ?q" using k e [of ?q] by (simp add: below_def)
  then obtain y where y: "get m ?q = Some y" "listed_at root index ?q y"
    using l unfolding staged_listed_def by metis
  have "x = y" using t y(1) by (auto simp: tree_under_def)
  with y show ?thesis by simp
qed

text \<open>
  The conditions an applied update has met, on the marker \<open>p\<close>, the manifest \<open>m\<close> and the bytes of the
  archive, and the tree in the game directory: every file of it is one the manifest lists at that
  place, of the size and SHA-256 it gives.
\<close>

definition update_confirmed :: "apply_env \<Rightarrow> pending \<Rightarrow> manifest \<Rightarrow> string \<Rightarrow> bool" where
  "update_confirmed en p m bytes =
     (pending_valid (Some p)
      \<and> (pn_from p = [] \<or> release_newer (pn_target p) (pn_from p))
      \<and> fetch_manifest (en_network en) (pn_manifest_url p) = Inr m
      \<and> reconcile_pending (en_network en) p (Some m) = None
      \<and> fst (guard_apply m (en_launcher_version en)) = None
      \<and> 0 < declared_archive_size (Some m) \<and> int (length bytes) = declared_archive_size (Some m)
      \<and> fst (verify (en_verifier en) (archive_at en \<lparr>pt_file = Some bytes, pt_meta = None\<rparr>) (Some m)) = None)"

definition tree_listed :: "string \<Rightarrow> manifest \<Rightarrow> tree \<Rightarrow> bool" where
  "tree_listed root m t \<longleftrightarrow>
     (\<forall>(r, x) \<in> set t. listed_at root (index_files (mf_files m)) (staged_game root @ slash # r) x)"

lemma verify_size:
  assumes "fst (verify v (archive_at en q) (Some m)) = None" and "0 < declared_archive_size (Some m)"
  shows "\<exists>bytes. pt_file q = Some bytes \<and> int (length bytes) = declared_archive_size (Some m)
    \<and> fst (verify v (archive_at en \<lparr>pt_file = Some bytes, pt_meta = None\<rparr>) (Some m)) = None"
proof (cases "pt_file q")
  case None
  then show ?thesis
    using assms by (simp add: archive_at_def verify_def verify_failed_def split: option.splits if_splits)
next
  case (Some bytes)
  have "archive_at en q = archive_at en \<lparr>pt_file = Some bytes, pt_meta = None\<rparr>"
    by (simp add: archive_at_def Some)
  moreover have "int (length bytes) = declared_archive_size (Some m)"
    using assms Some
    by (auto simp: archive_at_def verify_def verify_failed_def split: option.splits if_splits)
  ultimately show ?thesis using assms(1) Some by auto
qed

lemma open_update_ok:
  assumes "open_update en folder sidecar s = Inr (p, res, s1)"
  shows "ap_pending s = Some p \<and> pending_valid (Some p) \<and> (pn_from p = [] \<or> release_newer (pn_target p) (pn_from p))
    \<and> ap_world s1 = ap_world s \<and> ap_disk s1 = ap_disk s \<and> ap_pending s1 = Some p \<and> pn_retry_count p < retry_budget"
  using assms by (auto simp: open_update_def Let_def note_phase_def split: if_splits lock_outcome.splits option.splits)

lemma check_manifest_ok:
  assumes "check_manifest en p res s = Inr (m, url)"
  shows "fetch_manifest (en_network en) (pn_manifest_url p) = Inr m \<and> reconcile_pending (en_network en) p (Some m) = None
    \<and> fst (guard_apply m (en_launcher_version en)) = None \<and> 0 < declared_archive_size (Some m)"
  using assms by (auto simp: check_manifest_def Let_def split: sum.splits if_splits)

lemma obtain_archive_ok:
  assumes "obtain_archive en sidecar p m url res s = Inr (a, res1, s1)"
  shows "\<exists>q. a = archive_at en q \<and> fst (verify (en_verifier en) (archive_at en q) (Some m)) = None"
    and "ap_world s1 = ap_world s" and "ap_disk s1 = ap_disk s" and "ap_pending s1 = ap_pending s"
  using assms
  by (auto simp: obtain_archive_def Let_def note_phase_def split: prod.splits option.splits if_splits)

lemma hand_over_world:
  "ap_world (hand_over root s) =
     (let t = tree_under (staged_game root) (files (ap_disk s)) in
      if t = [] then ap_world s else become (put_tree Staging (Some t) (now_at (ap_world s))) (ap_world s))"
  by (simp add: hand_over_def Let_def)

lemma merge_staged_config_world: "ap_world (snd (merge_staged_config en folder root s)) = ap_world s"
  by (auto simp: merge_staged_config_def Let_def split: sum.split option.split prod.split)

lemma stage_release_ok:
  assumes "stage_release en folder sidecar p m a res s = Inr s'"
  shows "\<exists>s1 ev d. clear_staging (update_dir sidecar) s = (None, s1)
    \<and> extract_archive a (update_dir sidecar) (Some m) (ap_disk s1) = ((None, ev), d)
    \<and> ap_world s' = ap_world (hand_over (update_dir sidecar) (s1\<lparr>ap_disk := d\<rparr>))"
proof -
  obtain s1 where c1: "clear_staging (update_dir sidecar) s = (None, s1)"
    using assms by (auto simp: stage_release_def Let_def split: prod.splits option.splits)
  define s2 where "s2 = note_phase phase_extract ''Installing the update.'' s1"
  obtain r ev d where c2: "extract_archive a (update_dir sidecar) (Some m) (ap_disk s1) = ((r, ev), d)"
    by (metis prod.exhaust)
  define s4 where "s4 = remove_archive en (hand_over (update_dir sidecar) (s2\<lparr>ap_disk := d\<rparr>))"
  have "r = None \<and> merge_staged_config en folder (update_dir sidecar) s4 = (True, s')"
    using assms
    by (auto simp: stage_release_def Let_def c1 s2_def [symmetric] c2 s4_def [symmetric]
        split: option.splits if_splits prod.splits bool.splits)
  moreover have "ap_world s4 = ap_world (hand_over (update_dir sidecar) (s1\<lparr>ap_disk := d\<rparr>))"
    by (simp add: s4_def s2_def hand_over_world note_phase_def Let_def)
  ultimately show ?thesis
    using c1 c2 merge_staged_config_world [of en folder "update_dir sidecar" s4] by auto
qed

lemma install_release_ok:
  assumes "ax_outcome (fst (install_release en folder sidecar p res s)) = Applied"
  shows "fst (swap (pn_target p) (ap_world s)) = None
    \<and> ap_world (snd (install_release en folder sidecar p res s)) = snd (swap (pn_target p) (ap_world s))"
proof -
  obtain r w where c: "swap (pn_target p) (ap_world s) = (r, w)" by fastforce
  show ?thesis
    using assms
    by (auto simp: install_release_def Let_def c drop_staged_launcher_def fail_terminal_def fail_retryable_def ended_def
        split: option.splits prod.splits)
qed


section \<open>The marker after a run\<close>

text \<open>
  A retryable result leaves the marker: as it was when only space was lacking, and otherwise with one
  attempt more, short of the budget. Any other result leaves none.
\<close>

definition marker_settled :: "apply_env \<Rightarrow> pending \<Rightarrow> run_end \<Rightarrow> bool" where
  "marker_settled en p x =
     (let r = fst x in
      ap_pending (snd x) =
        (if \<not> ax_retryable r then None
         else if ax_reason r = ''insufficient_space'' \<and> en_space en \<noteq> None then Some p
         else Some (p\<lparr>pn_retry_count := pn_retry_count p + 1, pn_last_reason := ax_reason r\<rparr>))
      \<and> (ax_retryable r \<and> \<not> (ax_reason r = ''insufficient_space'' \<and> en_space en \<noteq> None) \<longrightarrow> pn_retry_count p + 1 < retry_budget))"

definition dir_writable :: "apply_env \<Rightarrow> bool" where
  "dir_writable en = (en_remove_ok en \<and> en_marker_ok en)"

lemma marker_failures:
  assumes "dir_writable en"
  shows "rsn \<noteq> ''insufficient_space'' \<Longrightarrow> marker_settled en p (fail_retryable en p res rsn msg s)"
    and "\<not> ax_retryable res \<Longrightarrow> marker_settled en p (fail_terminal en p res rsn msg s)"
    and "\<not> ax_retryable res \<Longrightarrow> marker_settled en p (end_cancelled en p res s)"
  using assms
  by (auto simp: marker_settled_def dir_writable_def fail_retryable_def fail_terminal_def end_cancelled_def Let_def
      ended_def clear_pending_def clear_cancel_def write_result_def note_phase_def)

definition attempted :: "apply_env \<Rightarrow> string \<Rightarrow> string \<Rightarrow> bool" where
  "attempted en folder sidecar =
     (trim_space folder \<noteq> [] \<and> trim_space sidecar \<noteq> [] \<and> en_dir_ok en \<and> en_lock en = LockTaken)"

lemma open_update_marker:
  assumes "dir_writable en" and "ap_pending s = Some p" and "attempted en folder sidecar"
  shows "case open_update en folder sidecar s of
     Inl r \<Rightarrow> marker_settled en p r
   | Inr (q, res, s') \<Rightarrow> q = p \<and> ap_pending s' = Some p \<and> \<not> ax_retryable res"
proof -
  have e: "marker_settled en p (ended oc rsn msg res, s')" if "\<not> ax_retryable res" "ap_pending s' = None" for oc rsn msg res s'
    using that by (simp add: marker_settled_def ended_def)
  have c: "ap_pending (write_result x (clear_pending en s)) = None" "ap_pending (clear_pending en s) = None" for x s
    using assms(1) by (simp_all add: dir_writable_def clear_pending_def write_result_def)
  have n: "\<not> ax_retryable no_result" by (simp add: no_result_def)
  show ?thesis
    unfolding open_update_def Let_def assms(2) option.case
    by (simp add: n c e marker_failures(3) [OF assms(1)] note_phase_def assms(2) assms(3) [unfolded attempted_def])
qed

lemma check_manifest_marker:
  assumes "dir_writable en" and "ap_pending s = Some p" and "\<not> ax_retryable res"
    and "check_manifest en p res s = Inl r"
  shows "marker_settled en p r"
proof -
  have "marker_settled en p ((ended Failed ''insufficient_space'' msg res)\<lparr>ax_retryable := True\<rparr>,
      write_result x (note_phase y z s))" if "en_space en \<noteq> None" for msg x y z
    using assms(2) that by (simp add: marker_settled_def ended_def write_result_def note_phase_def)
  then show ?thesis
    using assms(3,4) marker_failures [OF assms(1)]
    by (auto simp: check_manifest_def Let_def split: sum.splits if_splits option.splits)
qed

lemma obtain_archive_marker:
  assumes "dir_writable en" and "\<not> ax_retryable res"
  shows "case obtain_archive en sidecar p m url res s of
     Inl r \<Rightarrow> marker_settled en p r
   | Inr (a, res', s') \<Rightarrow> \<not> ax_retryable res'"
  using assms(2) unfolding obtain_archive_def Let_def case_prod_beta
  by (auto intro!: marker_failures [OF assms(1)] split: option.split)

lemma stage_release_marker:
  assumes "dir_writable en" and "\<not> ax_retryable res"
  shows "case stage_release en folder sidecar p m a res s of Inl r \<Rightarrow> marker_settled en p r | Inr s' \<Rightarrow> True"
  using assms(2) unfolding stage_release_def Let_def
  by (auto intro!: marker_failures [OF assms(1)] split: option.split prod.split bool.split)

lemma install_release_marker:
  assumes "dir_writable en" and "\<not> ax_retryable res"
  shows "marker_settled en p (install_release en folder sidecar p res s)"
  using assms(2) marker_failures [OF assms(1)] assms(1) unfolding install_release_def Let_def
  by (auto split: option.split prod.split)
    (simp add: marker_settled_def dir_writable_def ended_def clear_pending_def clear_cancel_def write_result_def note_phase_def)

lemma apply_update_marker:
  assumes "dir_writable en" and "ap_pending s = Some p" and "attempted en folder sidecar"
  shows "marker_settled en p (apply_update en folder sidecar s)"
proof (rule apply_update_rule)
  show "marker_settled en p r" if "open_update en folder sidecar s = Inl r" for r
    using open_update_marker [OF assms] that by simp
  fix q res s1 assume "open_update en folder sidecar s = Inr (q, res, s1)"
  then have o: "q = p" "ap_pending s1 = Some p" "\<not> ax_retryable res"
    using open_update_marker [OF assms] by simp_all
  show "marker_settled en p r" if "check_manifest en q res s1 = Inl r" for r
    using check_manifest_marker [OF assms(1) o(2,3)] that o(1) by blast
  fix m url assume "check_manifest en q res s1 = Inr (m, url)"
  note b = obtain_archive_marker [OF assms(1) o(3), where sidecar = sidecar and p = p and m = m and url = url and s = s1]
  show "marker_settled en p r" if "obtain_archive en sidecar q m url res s1 = Inl r" for r
    using b that o(1) by simp
  fix a res1 s2 assume c: "obtain_archive en sidecar q m url res s1 = Inr (a, res1, s2)"
  then have r1: "\<not> ax_retryable res1" using b o(1) by simp
  show "marker_settled en p r" if "stage_release en folder sidecar q m a res1 s2 = Inl r" for r
    using stage_release_marker [OF assms(1) r1, where p = p] that o(1) by (metis sum.case(1))
  show "marker_settled en p (install_release en folder sidecar q res1 s3)" for s3
    using install_release_marker [OF assms(1) r1] o(1) by blast
qed

text \<open>
  C30: The marker and the result agree. Where the files of the update directory can be written and removed, a
  run that takes the lock and says the update can be retried has left the marker: unchanged when the
  volume is known to lack space, and otherwise with one attempt more, still short of the budget; and a
  run that says nothing of the kind has left no marker.
\<close>
theorem retryable_iff_marker_kept:
  assumes "dir_writable en" and "ap_pending s = Some p" and "attempted en folder sidecar"
  shows "marker_settled en p (apply_update en folder sidecar s)"
  using assms by (rule apply_update_marker)

text \<open>Runs one after the other, each in its own environment.\<close>

definition run_all :: "string \<Rightarrow> string \<Rightarrow> apply_env list \<Rightarrow> apply_state \<Rightarrow> apply_state" where
  "run_all folder sidecar ens s = fold (\<lambda>en s. snd (apply_update en folder sidecar s)) ens s"

definition run_counts :: "string \<Rightarrow> string \<Rightarrow> apply_env \<Rightarrow> bool" where
  "run_counts folder sidecar en = (dir_writable en \<and> attempted en folder sidecar \<and> en_space en = None)"

lemma apply_update_none:
  "ap_pending s = None \<Longrightarrow> ap_pending (snd (apply_update en folder sidecar s)) = None"
  by (auto simp: apply_update_def open_update_def Let_def split: lock_outcome.split)

lemma run_all_none: "ap_pending s = None \<Longrightarrow> ap_pending (run_all folder sidecar ens s) = None"
  by (induction ens arbitrary: s) (simp_all add: run_all_def apply_update_none)

lemma run_counted:
  assumes "run_counts folder sidecar en" and "ap_pending s = Some p"
  shows "ap_pending (snd (apply_update en folder sidecar s)) = None
    \<or> (\<exists>q. ap_pending (snd (apply_update en folder sidecar s)) = Some q \<and> pn_retry_count q = pn_retry_count p + 1
         \<and> pn_retry_count q < retry_budget)"
  using apply_update_marker [OF _ assms(2), of en folder sidecar] assms(1)
  by (auto simp: run_counts_def marker_settled_def Let_def split: if_splits)

text \<open>
  C29: An update is not retried for ever. Whatever goes wrong, after as many runs as the budget has attempts
  left the marker is gone: the runs have to take the lock, be able to write the update directory, and find
  the free space unknown, since a run that only lacks space does not count.
\<close>
theorem retries_end:
  assumes "list_all (run_counts folder sidecar) ens" and "ap_pending s = Some p"
    and "retry_budget - pn_retry_count p \<le> int (length ens)" and "pn_retry_count p < retry_budget"
  shows "ap_pending (run_all folder sidecar ens s) = None"
  using assms
proof (induction ens arbitrary: s p)
  case (Cons en ens)
  let ?s = "snd (apply_update en folder sidecar s)"
  have r: "run_all folder sidecar (en # ens) s = run_all folder sidecar ens ?s" by (simp add: run_all_def)
  from Cons.prems(1) have "run_counts folder sidecar en" by simp
  from run_counted [OF this Cons.prems(2)] show ?case
  proof
    assume "ap_pending ?s = None"
    then show ?thesis by (simp add: r run_all_none)
  next
    assume "\<exists>q. ap_pending ?s = Some q \<and> pn_retry_count q = pn_retry_count p + 1 \<and> pn_retry_count q < retry_budget"
    then obtain q where q: "ap_pending ?s = Some q" "pn_retry_count q = pn_retry_count p + 1" "pn_retry_count q < retry_budget"
      by blast
    show ?thesis
      unfolding r by (rule Cons.IH [OF _ q(1)]) (use Cons.prems q in simp_all)
  qed
qed simp

section \<open>Sample runs\<close>

text \<open>
  A server that publishes one release, of one file, and a marker that asks for it. The archive is the byte
  \<open>z\<close>, which the reader takes for one member.
\<close>

definition update_doc :: "(string \<times> json) list" where
  "update_doc =
     [(''archive'', JObj [(''size'', JNum ''1''), (''url'', JStr ''a'')]),
      (''archive_sha256'', JStr (content_hash ''z'')),
      (''files'', JArr [JObj [(''hash'', JStr (content_hash ''x'')), (''path'', JStr ''game/a''), (''size'', JNum ''1'')]]),
      (''release'', JStr ''2026.10.1''),
      (''total_size'', JNum ''1'')]"

definition update_manifest :: manifest where
  "update_manifest = \<lparr>mf_schema = [], mf_release = ''2026.10.1'', mf_previous = None, mf_published = [],
     mf_launcher_min = [], mf_engine_version = [], mf_save_version = 0, mf_channel = [], mf_scope = [],
     mf_total_size = 1, mf_files = [sample_entry ''game/a''], mf_migrations = [], mf_schema_migrations = [],
     mf_min_browser = None, mf_signatures = None, mf_notes = [], mf_notes_url = [],
     mf_archive = Some \<lparr>ar_name = [], ar_url = ''a'', ar_size = 1, ar_hash = [], ar_format = []\<rparr>,
     mf_archive_sha256 = content_hash ''z'', mf_raw = encode (JObj update_doc)\<rparr>"

lemma update_doc_canonical: "canonical (JObj update_doc)"
proof -
  have "keys_sorted [(''archive'', JNull), (''archive_sha256'', JNull), (''files'', JNull), (''release'', JNull), (''total_size'', JNull)]"
    "keys_sorted [(''hash'', JNull), (''path'', JNull), (''size'', JNull)]" "keys_sorted [(''size'', JNull), (''url'', JNull)]"
    "number_lit ''1''"
    by code_simp+
  then show ?thesis by (simp add: update_doc_def keys_sorted_def)
qed

lemma hash_plain: "list_all plain_byte (content_hash y)"
proof -
  have h: "list_all plain_byte (map hex_lower [0, 1, 2, 3, 4, 5, 6, 7, 8, 9, 10, 11, 12, 13, 14, 15])"
    by code_simp
  have "plain_byte (hex_lower n)" if "n < 16" for n
  proof -
    have "n \<in> {0, 1, 2, 3, 4, 5, 6, 7, 8, 9, 10, 11, 12, 13, 14, 15}" using that by simp presburger
    then show ?thesis using h by auto
  qed
  then have "list_all plain_byte (sha256_hex y)"
    using sha256_hex_chars [of _ y] by (auto simp: list_all_iff)
  then show ?thesis by (simp add: content_hash_def plain_byte_def)
qed

lemma update_doc_document: "fetch_document (sample_net (encode (JObj update_doc))) url max_document_bytes
    = Inr (encode (JObj update_doc))"
proof -
  have "length (content_hash y) = 71" for y by (simp add: content_hash_def length_sha256_hex)
  then have "length (encode (JObj update_doc)) \<le> 1000"
    by (simp add: update_doc_def encode_string_plain plain_byte_def hash_plain join_comma_def sort_key_def)
  then show ?thesis by (simp add: fetch_document_def sample_net_def max_document_bytes_def)
qed

lemma update_doc_fields:
  defines "ms \<equiv> map (\<lambda>(k, v). (k, v, encode v)) update_doc"
  shows "str_field n ms = (if n \<in> {''archive'', ''files'', ''total_size''} then None
      else Some (if n = ''archive_sha256'' then content_hash ''z'' else if n = ''release'' then ''2026.10.1'' else []))"
    and "n \<notin> {''archive'', ''archive_sha256'', ''files'', ''release'', ''total_size''} \<Longrightarrow> int_field n ms = Some 0"
    and "int_field ''total_size'' ms = Some 1"
    and "n \<notin> {''archive'', ''archive_sha256'', ''files'', ''release'', ''total_size''} \<Longrightarrow> ptr_field f n ms = Some None"
    and "n \<notin> {''archive'', ''archive_sha256'', ''files'', ''release'', ''total_size''} \<Longrightarrow> list_field g n ms = Some []"
    and "ptr_field (as_struct decode_archive) ''archive'' ms
      = Some (Some \<lparr>ar_name = [], ar_url = ''a'', ar_size = 1, ar_hash = [], ar_format = []\<rparr>)"
    and "list_field (as_struct decode_file) ''files'' ms = Some [sample_entry ''game/a'']"
proof -
  define r where "r = (\<lambda>v. encode v)"
  let ?a = "JObj [(''size'', JNum ''1''), (''url'', JStr ''a'')]"
  let ?f = "JObj [(''hash'', JStr (content_hash ''x'')), (''path'', JStr ''game/a''), (''size'', JNum ''1'')]"
  have ms: "ms = [(''archive'', ?a, r ?a), (''archive_sha256'', JStr (content_hash ''z''), r (JStr (content_hash ''z''))),
      (''files'', JArr [?f], r (JArr [?f])), (''release'', JStr ''2026.10.1'', r (JStr ''2026.10.1'')),
      (''total_size'', JNum ''1'', r (JNum ''1''))]"
    by (simp add: ms_def update_doc_def r_def del: encode.simps)
  have nm: "named n ms = (if n = ''archive'' then [(?a, r ?a)] else [])
      @ (if n = ''archive_sha256'' then [(JStr (content_hash ''z''), r (JStr (content_hash ''z'')))] else [])
      @ (if n = ''files'' then [(JArr [?f], r (JArr [?f]))] else [])
      @ (if n = ''release'' then [(JStr ''2026.10.1'', r (JStr ''2026.10.1''))] else [])
      @ (if n = ''total_size'' then [(JNum ''1'', r (JNum ''1''))] else [])" for n
    by (auto simp: named_def ms to_lower_ascii_def)
  have i: "parse_int64 ''1'' = Some 1" by code_simp
  have d: "decode_archive [(''size'', JNum ''1'', x), (''url'', JStr ''a'', y)]
      = Some \<lparr>ar_name = [], ar_url = ''a'', ar_size = 1, ar_hash = [], ar_format = []\<rparr>"
    "decode_file [(''hash'', JStr (content_hash ''x''), x), (''path'', JStr ''game/a'', y), (''size'', JNum ''1'', z)]
      = Some (sample_entry ''game/a'')" for x y z
    by (simp_all add: decode_archive_def decode_file_def named_def field_defs to_lower_ascii_def i sample_entry_def)
  show "str_field n ms = (if n \<in> {''archive'', ''files'', ''total_size''} then None
      else Some (if n = ''archive_sha256'' then content_hash ''z'' else if n = ''release'' then ''2026.10.1'' else []))"
    by (simp add: str_field_def typed_field_def nm last_opt_def as_string_def)
  show "int_field ''total_size'' ms = Some 1"
    by (simp add: int_field_def typed_field_def nm last_opt_def as_int_def i)
  show "ptr_field (as_struct decode_archive) ''archive'' ms
      = Some (Some \<lparr>ar_name = [], ar_url = ''a'', ar_size = 1, ar_hash = [], ar_format = []\<rparr>)"
    by (simp add: ptr_field_def typed_field_def nm last_opt_def as_struct_def d del: encode.simps)
  show "list_field (as_struct decode_file) ''files'' ms = Some [sample_entry ''game/a'']"
    by (simp add: list_field_def ptr_field_def typed_field_def nm last_opt_def as_list_def as_struct_def d del: encode.simps)
  assume n: "n \<notin> {''archive'', ''archive_sha256'', ''files'', ''release'', ''total_size''}"
  show "int_field n ms = Some 0" "ptr_field f n ms = Some None" "list_field g n ms = Some []"
    using n by (simp_all add: int_field_def ptr_field_def list_field_def typed_field_def nm last_opt_def)
qed

lemma update_manifest_fetched:
  assumes "trim_space url \<noteq> []"
  shows "fetch_manifest (sample_net (encode (JObj update_doc))) url = Inr update_manifest"
proof -
  have d: "decode_document decode_manifest (encode (JObj update_doc)) = Some (update_manifest\<lparr>mf_raw := []\<rparr>)"
    unfolding decode_document_encode [OF update_doc_canonical]
    by (simp add: decode_manifest_def update_doc_fields update_manifest_def del: encode.simps)
  have t: "trim_space [] = []" "valid_release ''2026.10.1''" by code_simp+
  show ?thesis
    using d assms t by (simp add: fetch_manifest_def update_doc_document update_manifest_def del: encode.simps)
qed

definition run_marker :: pending where
  "run_marker = \<lparr>pn_schema = pending_schema, pn_from = ''2026.9.0'', pn_target = ''2026.10.1'', pn_manifest_url = ''m'',
     pn_archive_url = [], pn_archive_size = 1, pn_archive_hash = content_hash ''z'', pn_launcher_version = [],
     pn_retry_count = 0, pn_last_reason = []\<rparr>"

definition run_state :: apply_state where
  "run_state = \<lparr>ap_pending = Some run_marker, ap_cancel = False, ap_part = \<lparr>pt_file = None, pt_meta = None\<rparr>,
     ap_disk = \<lparr>files = [(''/g/data/a'', ''old'')], history = [], faults = []\<rparr>,
     ap_world = boot \<lparr>l_game = Some [(''a'', ''old'')], l_staging = None, l_backup = None, l_copies = [],
                      l_marker = None, l_marker_tmp = False\<rparr> [],
     ap_progress = new_progress_writer None, ap_results = []\<rparr>"

definition run_env :: "network \<Rightarrow> apply_env" where
  "run_env net = \<lparr>en_dir_ok = True, en_lock = LockTaken, en_remove_ok = True, en_marker_ok = True, en_network = net,
     en_urls = sample_urls,
     en_transfer = sample_run\<lparr>te_answer := Some \<lparr>rs_status = 200, rs_content_length = 1, rs_content_range = [],
       rs_etag = [], rs_last_modified = [], rs_body = [Bytes ''z'']\<rparr>\<rparr>,
     en_reader = \<lambda>_. ([(sample_header ''game/a'', ''x'')], True), en_verifier = None, en_space = None,
     en_cancel_late = False, en_data_before = None, en_data_after = None, en_schema_ok = \<lambda>_. True,
     en_render = \<lambda>_. [], en_config_write_ok = True, en_temp = \<lambda>p. p @ ''.tmp-1'', en_launcher_version = ''1.0'',
     en_max_archive = 0\<rparr>"

definition good_net :: network where "good_net = sample_net (encode (JObj update_doc))"

definition run_opened :: apply_state where
  "run_opened = note_phase phase_verify ''Starting the update.'' (run_state\<lparr>ap_progress := new_progress_writer (Some run_marker)\<rparr>)"

definition run_result :: apply_result where
  "run_result = no_result\<lparr>ax_from := ''2026.9.0'', ax_target := ''2026.10.1''\<rparr>"

lemma run_texts: "trim_space ''/g'' \<noteq> []" "trim_space ''/s'' \<noteq> []" "valid_release ''2026.10.1''"
  "release_newer ''2026.10.1'' ''2026.9.0''" "trim_space ''m'' \<noteq> []" "update_dir ''/s'' = ''/s/update''"
  "trim_space (download_target ''/s'') \<noteq> []" "config_path_in ''/s/update'' = ''/s/update/launcher.new/launcher.config.json''"
  "join_path ''/g'' config_rel_path = ''/g/launcher/launcher.config.json''"
  by code_simp+

lemma run_open: "open_update (run_env net) ''/g'' ''/s'' run_state = Inr (run_marker, run_result, run_opened)"
proof -
  have "installed_release_in ''/g'' run_state = []"
    by (simp add: installed_release_in_def game_manifest_def run_state_def boot_def installed_release_def run_texts
        read_file_def get_def release_from_config_def read_config_doc_def)
  moreover have "pending_valid (Some run_marker)"
    by (simp add: pending_valid_def run_marker_def run_texts)
  moreover have "ap_pending run_state = Some run_marker" "\<not> ap_cancel run_state" by (simp_all add: run_state_def)
  ultimately show ?thesis
    by (simp add: open_update_def run_env_def run_texts retry_budget_def run_opened_def run_result_def Let_def)
      (simp add: run_marker_def run_texts no_result_def)
qed

lemma run_env_fields:
  "en_network (run_env net) = net" "en_space (run_env net) = None" "en_launcher_version (run_env net) = ''1.0''"
  "en_max_archive (run_env net) = 0" "en_urls (run_env net) = sample_urls" "en_verifier (run_env net) = None"
  "en_reader (run_env net) = (\<lambda>_. ([(sample_header ''game/a'', ''x'')], True))" "en_data_before (run_env net) = None"
  "\<not> en_cancel_late (run_env net)" "en_remove_ok (run_env net)" "en_marker_ok (run_env net)"
  by (simp_all add: run_env_def)

lemma run_marker_url: "pn_manifest_url run_marker = ''m''" "pn_archive_hash run_marker = content_hash ''z''"
  "pn_target run_marker = ''2026.10.1''" "pn_retry_count run_marker = 0"
  by (simp_all add: run_marker_def)

lemma run_manifest: "check_manifest (run_env good_net) run_marker run_result run_opened = Inr (update_manifest, ''ma'')"
proof -
  have f: "fetch_manifest good_net ''m'' = Inr update_manifest"
    unfolding good_net_def by (rule update_manifest_fetched [OF run_texts(5)])
  have a: "declared_archive_size (Some update_manifest) = 1" "declared_archive_hash (Some update_manifest) = content_hash ''z''"
    by (simp_all add: declared_archive_size_def declared_archive_hash_def update_manifest_def content_hash_def)
  have r: "reconcile_pending good_net run_marker (Some update_manifest) = None"
    "resolve_archive_url good_net (Some run_marker) (Some update_manifest) = ''ma''"
    by (simp_all add: reconcile_pending_def resolve_archive_url_def a run_marker_def)
      (simp_all add: update_manifest_def good_net_def sample_net_def)
  have t: "trim_space [] = []" by code_simp
  have g: "fst (guard_apply update_manifest v) = None" for v
    by (simp add: guard_apply_def meets_launcher_min_def launcher_min_refusal_def update_manifest_def t)
  show ?thesis
    using f by (simp add: check_manifest_def run_env_fields run_marker_url r g a Let_def)
qed

text \<open>The archive comes in one piece, and is verified.\<close>

lemma run_archive:
  "\<exists>res s. obtain_archive (run_env good_net) ''/s'' run_marker update_manifest ''ma'' run_result run_opened
     = Inr (archive_at (run_env good_net) \<lparr>pt_file = Some ''z'', pt_meta = None\<rparr>, res, s)"
proof -
  let ?en = "run_env good_net"
  define te where "te = en_transfer ?en"
  have te: "te_polls te = []" "te_writes te = []" "te_open_ok te" "te_sync_ok te" "te_remove_ok te" "te_meta_ok te"
    "te_answer te = Some \<lparr>rs_status = 200, rs_content_length = 1, rs_content_range = [], rs_etag = [],
       rs_last_modified = [], rs_body = [Bytes ''z'']\<rparr>"
    by (simp_all add: te_def run_env_def sample_run_def)
  have a: "declared_archive_size (Some update_manifest) = 1" "declared_archive_hash (Some update_manifest) = content_hash ''z''"
    by (simp_all add: declared_archive_size_def declared_archive_hash_def update_manifest_def content_hash_def)
  have l: "read_loop (Suc 0) [] [] [Bytes ''z''] [] = (LoopDone, ''z'', [])"
    by (simp add: read_loop.simps poll_def next_write_def buffer_size_def Let_def)
  have p: "ap_part (note_phase ph msg run_opened) = \<lparr>pt_file = None, pt_meta = None\<rparr>" for ph msg
    by (simp add: run_opened_def note_phase_def run_state_def)
  obtain tr q where d: "download_archive (en_urls ?en)
      \<lparr>do_max_bytes = 0, do_expected_hash = content_hash ''z'', do_allow_insecure = False, do_no_resume = False\<rparr>
      te ''ma'' (download_target ''/s'') 1 \<lparr>pt_file = None, pt_meta = None\<rparr> = (tr, q)" by fastforce
  have "tr_error tr = None \<and> pt_file q = Some ''z''"
    using d
    by (auto simp: download_archive_def check_archive_url_def run_env_fields sample_urls_def default_max_archive_bytes_def
        gib_def run_texts prepare_partial_def resumable_def meta_matches_def remove_meta_def transfer_def te receive_def
        Let_def l record_partial_def)
  moreover have "fst (verify None (archive_at ?en \<lparr>pt_file = Some ''z'', pt_meta = x\<rparr>) (Some update_manifest)) = None" for x
  proof -
    have i: "index_files (mf_files update_manifest) = [(''game/a'', sample_entry ''game/a'')]"
      by (simp add: update_manifest_def index_files_def sample_entry_def sample_paths put_def)
    have m: "mf_signatures update_manifest = None" "mf_total_size update_manifest = 1"
      by (simp_all add: update_manifest_def)
    have v: "verify_member [(''game/a'', sample_entry ''game/a'')] ''game/a'' KindRegular (sample_header n, ''x'') k
        = (None, wrap64 (k + 1))" for n k
      by (simp add: verify_member_def sample_entry_def sample_header_def hash_matches_content)
    show ?thesis
      by (simp add: verify_def archive_at_def run_env_fields i m a v sample_check declares_signature_def
          hash_matches_content sample_manifest_facts) (simp add: wrap64_def)
  qed
  moreover have "archive_at ?en q = archive_at ?en \<lparr>pt_file = Some ''z'', pt_meta = None\<rparr>" if "pt_file q = Some ''z''"
    using that by (simp add: archive_at_def)
  ultimately show ?thesis
    using d by (simp add: obtain_archive_def a p run_env_fields te_def run_marker_url Let_def)
qed

text \<open>Staging and installation, from any state with the files and the layout of the sample.\<close>

definition staged_sample :: "apply_state \<Rightarrow> bool" where
  "staged_sample s = (ap_disk s = ap_disk run_state \<and> ap_world s = ap_world run_state \<and> \<not> ap_cancel s)"

lemma run_no_launcher: "files_under (staged_launcher ''/s/update'') [(''/g/data/a'', ''old'')] = []"
  "files_under (staged_launcher ''/s/update'') [(''/s/update/game.new/a'', ''x''), (''/g/data/a'', ''old'')] = []"
  "files_under (staged_launcher ''/s/update'') [(''/g/data/a'', ''old''), (''/s/update/game.new/a'', ''x'')] = []"
  "tree_under (staged_game ''/s/update'') [(''/g/data/a'', ''old''), (''/s/update/game.new/a'', ''x'')] = [(''a'', ''x'')]"
  by code_simp+

lemma run_staged:
  "\<exists>ev d. extract_archive (archive_at (run_env net) \<lparr>pt_file = Some ''z'', pt_meta = None\<rparr>) ''/s/update''
     (Some update_manifest) (ap_disk run_state) = ((None, ev), d)
   \<and> files d = [(''/g/data/a'', ''old''), (''/s/update/game.new/a'', ''x'')] \<and> faults d = []"
proof -
  let ?start = "ap_disk run_state"
  let ?d = "write_prefixes ''/s/update/game.new/a'' ''x'' 1 (set_files (put ''/s/update/game.new/a'' [] (files ?start)) ?start)"
  have t: "staged_target ''/s/update'' ''game/a'' = Inr ''/s/update/game.new/a''" "confine ''/s/update'' ''/s/update/game.new/a''"
    "trim_space ''/s/update'' = ''/s/update''" "equal_fold (base_name (clean ''/s/update'')) data_dir_name = False"
    by code_simp+
  have m: "extract_member ''/s/update'' [(''game/a'', sample_entry ''game/a'')] 1 ''game/a'' KindRegular
       (sample_header n, ''x'') (\<lparr>ex_written = 0, ex_count = 0\<rparr>, d) = (None, (\<lparr>ex_written = 1, ex_count = 1\<rparr>,
         write_prefixes ''/s/update/game.new/a'' ''x'' 1 (set_files (put ''/s/update/game.new/a'' [] (files d)) d)))"
    if "faults d = []" for n and d :: disk
    using that
    by (simp add: extract_member_def t sample_entry_def sample_header_def fill_file_def sys_plain_def
        sys_truncate_def sys_write_def next_fault_def write_prefixes_def hash_matches_content wrap64_def)
  have i: "index_files (mf_files update_manifest) = [(''game/a'', sample_entry ''game/a'')]" "mf_total_size update_manifest = 1"
    by (simp_all add: update_manifest_def index_files_def sample_entry_def sample_paths put_def)
  have "faults ?start = []" by (simp add: run_state_def)
  moreover have d: "faults ?d = []" by (simp add: run_state_def write_prefixes_def)
  ultimately have "extract_archive (archive_at (run_env net) \<lparr>pt_file = Some ''z'', pt_meta = None\<rparr>) ''/s/update''
     (Some update_manifest) ?start = ((None, [''update.extract'']), ?d)"
    by (simp add: extract_archive_def t i archive_at_def run_env_fields sample_check m sys_plain_def next_fault_def)
  moreover have "files ?d = [(''/g/data/a'', ''old''), (''/s/update/game.new/a'', ''x'')]"
    by (simp add: files_write_prefixes run_state_def put_def)
  ultimately show ?thesis using d by blast
qed

lemma run_stage:
  assumes "staged_sample s"
  shows "\<exists>s'. stage_release (run_env net) ''/g'' ''/s'' run_marker update_manifest
      (archive_at (run_env net) \<lparr>pt_file = Some ''z'', pt_meta = None\<rparr>) res s = Inr s'
    \<and> files (ap_disk s') = [(''/g/data/a'', ''old'')] \<and> faults (ap_disk s') = []
    \<and> ap_world s' = become (put_tree Staging (Some [(''a'', ''x'')]) (now_at (ap_world run_state))) (ap_world run_state)"
proof -
  obtain ev d where d: "extract_archive (archive_at (run_env net) \<lparr>pt_file = Some ''z'', pt_meta = None\<rparr>) ''/s/update''
      (Some update_manifest) (ap_disk run_state) = ((None, ev), d)"
      "files d = [(''/g/data/a'', ''old''), (''/s/update/game.new/a'', ''x'')]" "faults d = []"
    using run_staged by blast
  have c: "clear_staging ''/s/update'' s = (None, s)"
    using assms by (simp add: clear_staging_def staged_sample_def dir_exists_def tree_at_def run_state_def boot_def
        run_no_launcher)
  have b: "below (staged_game ''/s/update'') ''/s/update/game.new/a''" "\<not> below (staged_game ''/s/update'') ''/g/data/a''"
    by code_simp+
  have h: "hand_over ''/s/update'' (x\<lparr>ap_disk := d\<rparr>) = x\<lparr>ap_disk := set_files [(''/g/data/a'', ''old'')] d,
      ap_world := become (put_tree Staging (Some [(''a'', ''x'')]) (now_at (ap_world x))) (ap_world x)\<rparr>" for x
    by (simp add: hand_over_def d run_no_launcher keep_def b)
  have m: "merge_staged_config (run_env net) ''/g'' ''/s/update'' x = (True, x)" if "files (ap_disk x) = [(''/g/data/a'', ''old'')]" for x
    using that by (simp add: merge_staged_config_def run_texts read_file_def get_def merge_config_into_def read_config_doc_def Let_def)
  show ?thesis
    using assms
    by (simp add: stage_release_def run_texts c d h note_phase_def remove_archive_def run_env_fields m staged_sample_def
        Let_def)
qed

lemma run_install:
  assumes "files (ap_disk s) = [(''/g/data/a'', ''old'')]" "faults (ap_disk s) = []"
    and "ap_world s = become (put_tree Staging (Some [(''a'', ''x'')]) (now_at (ap_world run_state))) (ap_world run_state)"
  shows "ax_outcome (fst (install_release (run_env net) ''/g'' ''/s'' run_marker res s)) = Applied"
proof -
  have v: "view (now_at (ap_world s)) = (Some [(''a'', ''old'')], Some [(''a'', ''x'')], None, None)"
    by (simp add: assms(3) view_def put_tree_def run_state_def boot_def become_def)
  have d: "decisions (ap_world s) = []" "\<not> stat_err (ap_world s) Game" "\<not> stat_err (ap_world s) Staging" "no_cross (ap_world s)"
    by (simp_all add: assms(3) run_state_def boot_def become_def no_cross_def)
  obtain w where w: "swap (pn_target run_marker) (ap_world s) = (None, w)"
    using swap_safe(3) [OF v d(4) d(1-3)] by (metis prod.collapse)
  have "merge_launcher_into t ''/s/update'' ''/g'' (ap_disk s) = (None, ap_disk s)" for t
    using run_no_launcher(1) by (simp add: merge_launcher_into_def assms(1) staged_launcher_def Let_def)
  then show ?thesis
    using w by (simp add: install_release_def run_texts note_phase_def Let_def ended_def)
qed

lemma run_rooted: "rooted (update_dir ''/s'')"
  by (simp add: run_texts rooted_def slash_def)


definition dead_net :: network where "dead_net = good_net\<lparr>http_get := \<lambda>_. Inl (PlainError ''offline'')\<rparr>"

lemma run_offline:
  "apply_update (run_env dead_net) ''/g'' ''/s'' run_state
     = fail_retryable (run_env dead_net) run_marker run_result ''manifest_unreachable'' msg_download_failed run_opened"
proof -
  have "\<exists>e. fetch_manifest dead_net ''m'' = Inl e"
    using run_texts(5) by (simp add: fetch_manifest_def fetch_document_def dead_net_def good_net_def sample_net_def)
  then have "check_manifest (run_env dead_net) run_marker run_result run_opened
      = Inl (fail_retryable (run_env dead_net) run_marker run_result ''manifest_unreachable'' msg_download_failed run_opened)"
    by (auto simp: check_manifest_def run_env_fields run_marker_url)
  then show ?thesis by (simp add: apply_update_def run_open)
qed

theorem update_leaves_install_witness:
  "install_untouched (update_dir ''/s'') run_state (snd (apply_update (run_env dead_net) ''/g'' ''/s'' run_state))"
proof -
  obtain r s' where a: "apply_update (run_env dead_net) ''/g'' ''/s'' run_state = (r, s')" by fastforce
  then have "\<not> reached_swap r" 
    using reached_swap_simps(3) [of "run_env dead_net" run_marker run_result "''manifest_unreachable''"
        msg_download_failed run_opened] by (simp add: run_offline)
  from update_leaves_install [OF run_rooted a this] a show ?thesis by simp
qed

lemma run_attempted: "dir_writable (run_env net)" "attempted (run_env net) ''/g'' ''/s''" "run_counts ''/g'' ''/s'' (run_env net)"
  by (simp_all add: dir_writable_def attempted_def run_counts_def run_env_def run_texts)

theorem retryable_iff_marker_kept_witness:
  "ap_pending (snd (apply_update (run_env dead_net) ''/g'' ''/s'' run_state))
     = Some (run_marker\<lparr>pn_retry_count := 1, pn_last_reason := ''manifest_unreachable''\<rparr>)"
proof -
  have m: "marker_settled (run_env dead_net) run_marker (apply_update (run_env dead_net) ''/g'' ''/s'' run_state)"
    by (rule retryable_iff_marker_kept) (simp_all add: run_attempted run_state_def)
  have "ax_retryable (fst (apply_update (run_env dead_net) ''/g'' ''/s'' run_state))"
    "ax_reason (fst (apply_update (run_env dead_net) ''/g'' ''/s'' run_state)) = ''manifest_unreachable''"
    by (simp_all add: run_offline fail_retryable_def ended_def run_marker_url retry_budget_def Let_def)
  with m show ?thesis by (simp add: marker_settled_def run_marker_url Let_def)
qed

theorem retries_end_witness:
  "ap_pending (run_all ''/g'' ''/s'' (replicate 3 (run_env dead_net)) run_state) = None"
proof (rule retries_end)
  show "ap_pending run_state = Some run_marker" by (simp add: run_state_def)
qed (simp_all add: run_attempted run_marker_url retry_budget_def list_all_iff)

end
