(* ===== verification/Json_Indent.thy ===== *)
theory Json_Indent
  imports Json_Fields
begin

text \<open>
  \<open>json.MarshalIndent\<close> with two blanks, as the launcher writes its own documents (port.json, the
  instance lock, the list of mods), and the proof that the decoder reads them back. The members
  of an object are written in the order given: the fields of a struct in declaration order, the
  keys of a map sorted by the caller.
\<close>

definition new_line :: "nat \<Rightarrow> string" where
  "new_line d = CHR 0x0A # replicate (2 * d) (CHR '' '')"

primrec indented :: "json \<Rightarrow> nat \<Rightarrow> string" where
  "indented JNull d = ''null''"
| "indented (JBool b) d = (if b then ''true'' else ''false'')"
| "indented (JNum n) d = n"
| "indented (JStr s) d = encode_string s"
| "indented (JArr vs) d =
     (if vs = [] then ''[]''
      else CHR ''['' # join_comma (map (\<lambda>f. new_line (Suc d) @ f (Suc d)) (map indented vs)) @ new_line d @ '']'')"
| "indented (JObj ms) d =
     (if ms = [] then ''{}''
      else CHR ''{'' # join_comma (map (\<lambda>(k, f). new_line (Suc d) @ encode_string k @ '': '' @ f (Suc d))
                                     (map (map_prod id indented) ms)) @ new_line d @ ''}'')"

text \<open>A document file: the indented value and a line feed.\<close>

definition document_text :: "json \<Rightarrow> string" where
  "document_text v = indented v 0 @ [CHR 0x0A]"

text \<open>Numbers are literals; and the value a reader gets, with the members of objects sorted.\<close>

primrec literals_ok :: "json \<Rightarrow> bool" where
  "literals_ok JNull = True"
| "literals_ok (JBool b) = True"
| "literals_ok (JNum n) = number_lit n"
| "literals_ok (JStr s) = True"
| "literals_ok (JArr vs) = list_all id (map literals_ok vs)"
| "literals_ok (JObj ms) = list_all snd (map (map_prod id literals_ok) ms)"

primrec as_read :: "json \<Rightarrow> json" where
  "as_read JNull = JNull"
| "as_read (JBool b) = JBool b"
| "as_read (JNum n) = JNum n"
| "as_read (JStr s) = JStr s"
| "as_read (JArr vs) = JArr (map as_read vs)"
| "as_read (JObj ms) = JObj (map_of_members (map (map_prod id as_read) ms))"

section \<open>Members and elements with white space\<close>

lemma skip_ws_append: "list_all json_space w \<Longrightarrow> skip_ws (w @ s) = skip_ws s"
  by (induction w) (auto simp: skip_ws_def)

lemma new_line_space: "list_all json_space (new_line d)"
  by (simp add: new_line_def json_space_def list_all_iff)

lemma skip_new_line [simp]: "skip_ws (new_line d @ s) = skip_ws s"
  by (rule skip_ws_append [OF new_line_space])

lemma follows_new_line [simp]: "follows (new_line d @ s)"
  by (simp add: follows_def new_line_def)

lemma indented_head:
  assumes "literals_ok v"
  shows "\<exists>c cs. indented v d = c # cs \<and> \<not> json_space c \<and> c \<noteq> CHR '']'' \<and> c \<noteq> CHR ''}''"
proof (cases v)
  case (JNum n)
  with assms have "number_lit n" by simp
  then obtain c cs where "n = c # cs" "c = CHR ''-'' \<or> is_digit c" by (rule number_lit_head)
  with JNum digit_not_special [of c] show ?thesis by simp
qed (simp_all add: json_space_def encode_string_def quote_def)

definition parses :: "string \<Rightarrow> json \<Rightarrow> bool" where
  "parses s v \<longleftrightarrow> s \<noteq> [] \<and> \<not> json_space (hd s)
     \<and> (\<forall>n r. follows r \<longrightarrow> length s \<le> n \<longrightarrow> parse_value n (s @ r) = Some (v, r))"

lemma parsesD:
  assumes "parses s v"
  shows "skip_ws (s @ t) = s @ t" "follows r \<Longrightarrow> length s \<le> n \<Longrightarrow> parse_value n (s @ r) = Some (v, r)"
  using assms by (cases s; simp add: parses_def skip_ws_def)+

lemma parses_indented:
  assumes "literals_ok v"
    and "\<And>n r. follows r \<Longrightarrow> length (indented v d) \<le> n \<Longrightarrow> parse_value n (indented v d @ r) = Some (as_read v, r)"
  shows "parses (indented v d) (as_read v)"
  using assms indented_head [OF assms(1), of d] by (auto simp: parses_def)

definition member_texts :: "nat \<Rightarrow> (string \<times> json \<times> string) list \<Rightarrow> string" where
  "member_texts d ms = join_comma (map (\<lambda>(k, v, s). new_line d @ encode_string k @ '': '' @ s) ms)"

lemma parse_member_texts:
  assumes "ms \<noteq> []" and "\<And>k v s. (k, v, s) \<in> set ms \<Longrightarrow> parses s v" and "length (member_texts d ms) \<le> n"
  shows "parse_members (Suc n) (member_texts d ms @ new_line d' @ CHR ''}'' # r) = Some (ms, r)"
  using assms
proof (induction ms arbitrary: n)
  case (Cons m ms)
  obtain k v s where m: "m = (k, v, s)" by (cases m)
  have p: "parses s v" using Cons.prems(2) [of k v s] m by simp
  note ps = parsesD [OF p]
  have q: "\<not> json_space quote" "\<not> json_space (CHR '':'')" "\<not> json_space (CHR '','')" "\<not> json_space (CHR ''}'')"
    "json_space (CHR '' '')"
    by (simp_all add: json_space_def quote_def)
  have blank: "skip_ws (CHR '' '' # s @ t) = s @ t" for t
    using ps(1) [of t] q(5) by (simp add: skip_ws_def)
  have key: "skip_ws (encode_string k @ t) = encode_string k @ t" for t
    using q(1) by (simp add: encode_string_def skip_ws_id)
  show ?case
  proof (cases ms)
    case Nil
    have "parse_value n (s @ new_line d' @ CHR ''}'' # r) = Some (v, new_line d' @ CHR ''}'' # r)"
      by (rule ps(2)) (use Cons.prems(3) m Nil in \<open>simp_all add: member_texts_def join_comma_def\<close>)
    then show ?thesis
      using Nil m q key blank parse_str_encode [of k "CHR '':'' # CHR '' '' # s @ new_line d' @ CHR ''}'' # r"]
      by (simp add: parse_members.simps member_texts_def join_comma_def encode_string_def skip_ws_id head_is_def)
  next
    case (Cons m' ms')
    let ?rest = "member_texts d ms"
    let ?r = "?rest @ new_line d' @ CHR ''}'' # r"
    have all: "member_texts d (m # ms) = new_line d @ encode_string k @ '': '' @ s @ CHR '','' # ?rest"
      using m Cons by (simp add: member_texts_def join_comma_def)
    obtain n' where n: "n = Suc n'" "length ?rest \<le> n'" "length s \<le> n"
      using Cons.prems(3) unfolding all by (cases n) (auto simp: encode_string_def)
    have v: "parse_value n (s @ CHR '','' # ?r) = Some (v, CHR '','' # ?r)"
      by (rule ps(2)) (use n(3) in \<open>simp_all add: follows_def\<close>)
    have ms: "parse_members n ?r = Some (ms, r)"
      unfolding n(1)
    proof (rule Cons.IH)
      show "ms \<noteq> []" using Cons by simp
      show "length ?rest \<le> n'" by (fact n(2))
    qed (meson Cons.prems(2) list.set_intros(2))
    show ?thesis
      unfolding all
      using m q key blank v ms parse_str_encode [of k "CHR '':'' # CHR '' '' # s @ CHR '','' # ?r"]
      by (simp add: parse_members.simps encode_string_def skip_ws_id head_is_def)
  qed
qed simp

definition elem_texts :: "nat \<Rightarrow> (json \<times> string) list \<Rightarrow> string" where
  "elem_texts d vs = join_comma (map (\<lambda>(v, s). new_line d @ s) vs)"

lemma skip_parse_value: "parse_value n (skip_ws s) = parse_value n s"
proof (cases n)
  case (Suc m)
  have "skip_ws (skip_ws s) = skip_ws s" by (simp add: skip_ws_def)
  with Suc show ?thesis by (simp only: parse_value.simps)
qed (simp add: parse_value.simps)

lemma parse_elem_texts:
  assumes "vs \<noteq> []" and "\<And>v s. (v, s) \<in> set vs \<Longrightarrow> parses s v" and "length (elem_texts d vs) \<le> n"
  shows "parse_elems (Suc n) (elem_texts d vs @ new_line d' @ CHR '']'' # r) = Some (map fst vs, r)"
  using assms
proof (induction vs arbitrary: n)
  case (Cons e vs)
  obtain v s where e: "e = (v, s)" by (cases e)
  have p: "parses s v" using Cons.prems(2) [of v s] e by simp
  note ps = parsesD [OF p]
  have q: "\<not> json_space (CHR '','')" "\<not> json_space (CHR '']'')"
    by (simp_all add: json_space_def)
  have lead: "parse_value n (new_line d @ s @ t) = parse_value n (s @ t)" for t
    using skip_parse_value [of n "new_line d @ s @ t"] ps(1) [of t] by simp
  show ?case
  proof (cases vs)
    case Nil
    have "parse_value n (s @ new_line d' @ CHR '']'' # r) = Some (v, new_line d' @ CHR '']'' # r)"
      by (rule ps(2)) (use Cons.prems(3) e Nil in \<open>simp_all add: elem_texts_def join_comma_def\<close>)
    then show ?thesis
      using Nil e q lead by (simp add: parse_elems.simps elem_texts_def join_comma_def skip_ws_id head_is_def)
  next
    case (Cons e' vs')
    let ?rest = "elem_texts d vs"
    let ?r = "?rest @ new_line d' @ CHR '']'' # r"
    have all: "elem_texts d (e # vs) = new_line d @ s @ CHR '','' # ?rest"
      using e Cons by (simp add: elem_texts_def join_comma_def)
    obtain n' where n: "n = Suc n'" "length ?rest \<le> n'" "length s \<le> n"
      using Cons.prems(3) unfolding all by (cases n) auto
    have v: "parse_value n (s @ CHR '','' # ?r) = Some (v, CHR '','' # ?r)"
      by (rule ps(2)) (use n(3) in \<open>simp_all add: follows_def\<close>)
    have "parse_elems n ?r = Some (map fst vs, r)"
      unfolding n(1)
    proof (rule Cons.IH)
      show "vs \<noteq> []" using Cons by simp
      show "length ?rest \<le> n'" by (fact n(2))
    qed (meson Cons.prems(2) list.set_intros(2))
    with e q v lead show ?thesis
      unfolding all by (simp add: parse_elems.simps skip_ws_id head_is_def)
  qed
qed simp

section \<open>The decoder reads what was written\<close>

lemma indented_obj:
  assumes "ms \<noteq> []"
  shows "indented (JObj ms) d =
    CHR ''{'' # member_texts (Suc d) (map (\<lambda>(k, v). (k, as_read v, indented v (Suc d))) ms) @ new_line d @ ''}''"
  using assms by (simp add: member_texts_def case_prod_unfold comp_def)

lemma indented_arr:
  assumes "vs \<noteq> []"
  shows "indented (JArr vs) d =
    CHR ''['' # elem_texts (Suc d) (map (\<lambda>v. (as_read v, indented v (Suc d))) vs) @ new_line d @ '']''"
  using assms by (simp add: elem_texts_def case_prod_unfold comp_def)

lemma member_texts_head: "ms \<noteq> [] \<Longrightarrow> skip_ws (member_texts d ms @ t) = quote # tl (skip_ws (member_texts d ms @ t))"
proof -
  assume "ms \<noteq> []"
  then obtain k v s ms' where m: "ms = (k, v, s) # ms'" by (cases ms) auto
  have "\<exists>u. member_texts d ms @ t = new_line d @ quote # u"
    using m by (cases ms') (simp_all add: member_texts_def join_comma_def encode_string_def)
  then obtain u where u: "member_texts d ms @ t = new_line d @ quote # u" ..
  show ?thesis unfolding u by (simp add: skip_ws_id json_space_def quote_def)
qed

lemma parse_indented:
  "literals_ok v \<Longrightarrow> follows r \<Longrightarrow> length (indented v d) \<le> n \<Longrightarrow> parse_value n (indented v d @ r) = Some (as_read v, r)"
proof (induction v arbitrary: n r d)
  case (JNum l)
  then have l: "number_lit l" by simp
  then show ?case
    using parse_value_encode [of "JNum l" r n] JNum by simp
next
  case (JStr s)
  then show ?case using parse_value_encode [of "JStr s" r n] by simp
next
  case (JArr vs)
  show ?case
  proof (cases "vs = []")
    case True
    with JArr show ?thesis using parse_value_encode [of "JArr []" r n] by (simp add: join_comma_def)
  next
    case False
    let ?vs = "map (\<lambda>v. (as_read v, indented v (Suc d))) vs"
    obtain n' where n: "n = Suc (Suc n')" "length (elem_texts (Suc d) ?vs) \<le> n'"
      using JArr.prems(3) unfolding indented_arr [OF False] by (cases n; cases "n - 1") (auto simp: new_line_def)
    have "parses (indented v (Suc d)) (as_read v)" if "v \<in> set vs" for v
      using that JArr.prems(1) by (intro parses_indented JArr.IH [OF that]) (simp_all add: list_all_iff)
    then have p: "parse_elems (Suc n') (elem_texts (Suc d) ?vs @ new_line d @ CHR '']'' # r) = Some (map fst ?vs, r)"
      using False n(2) by (intro parse_elem_texts) auto
    obtain v vs' where vs: "vs = v # vs'" using False by (cases vs) auto
    obtain c cs where hd: "indented v (Suc d) = c # cs" "\<not> json_space c" "c \<noteq> CHR '']''"
      using JArr.prems(1) vs indented_head [of v "Suc d"] by auto
    have "\<exists>u. elem_texts (Suc d) ?vs = new_line (Suc d) @ c # u"
      using vs hd(1) by (cases vs') (simp_all add: elem_texts_def join_comma_def)
    then obtain u where u: "elem_texts (Suc d) ?vs = new_line (Suc d) @ c # u" ..
    have fr: "skip_ws (elem_texts (Suc d) ?vs @ t) = c # u @ t" for t
      unfolding u using hd(2) by (simp add: skip_ws_id)
    have sk: "parse_elems (Suc n') (skip_ws t) = parse_elems (Suc n') t" for t
      using skip_parse_value [of n' t] by (simp add: parse_elems.simps)
    have "parse_value n (indented (JArr vs) d @ r) = Some (JArr (map fst ?vs), r)"
      unfolding indented_arr [OF False] using n(1) p sk [of "elem_texts (Suc d) ?vs @ new_line d @ CHR '']'' # r"] fr hd(3)
      by (simp add: parse_value.simps skip_ws_id [of "CHR ''['' # _"] head_is_def json_space_def quote_def)
    then show ?thesis by (simp add: comp_def)
  qed
next
  case (JObj ms)
  show ?case
  proof (cases "ms = []")
    case True
    with JObj show ?thesis
      using parse_value_encode [of "JObj []" r n] by (simp add: join_comma_def keys_sorted_def map_of_members_def)
  next
    case False
    let ?ms = "map (\<lambda>(k, v). (k, as_read v, indented v (Suc d))) ms"
    have ne: "?ms \<noteq> []" using False by simp
    obtain n' where n: "n = Suc (Suc n')" "length (member_texts (Suc d) ?ms) \<le> n'"
      using JObj.prems(3) unfolding indented_obj [OF False] by (cases n; cases "n - 1") (auto simp: new_line_def)
    have "parses (indented v (Suc d)) (as_read v)" if "(k, v) \<in> set ms" for k v
      using that JObj.prems(1) by (intro parses_indented JObj.IH [OF that]) (auto simp: list_all_iff)
    then have p: "parse_members (Suc n') (member_texts (Suc d) ?ms @ new_line d @ CHR ''}'' # r) = Some (?ms, r)"
      using ne n(2) by (intro parse_member_texts) auto
    have sk: "parse_members (Suc n') (skip_ws t) = parse_members (Suc n') t" for t
    proof -
      have "skip_ws (skip_ws t) = skip_ws t" by (simp add: skip_ws_def)
      then show ?thesis by (simp only: parse_members.simps)
    qed
    have hq: "head_is (CHR ''}'') (skip_ws (member_texts (Suc d) ?ms @ t)) = False" for t
      by (subst member_texts_head [OF ne]) (simp add: head_is_def quote_def)
    have "parse_value n (indented (JObj ms) d @ r) = Some (JObj (map_of_members (map (\<lambda>(k, v, _). (k, v)) ?ms)), r)"
      unfolding indented_obj [OF False]
      using n(1) p sk [of "member_texts (Suc d) ?ms @ new_line d @ CHR ''}'' # r"] hq
      by (simp add: parse_value.simps skip_ws_id [of "CHR ''{'' # _"] head_is_def [of _ "CHR ''{'' # _"] json_space_def quote_def)
    then show ?thesis by (simp add: comp_def case_prod_unfold map_prod_def)
  qed
next
  case (JBool b)
  then show ?case using parse_value_encode [of "JBool b" r n] by (cases b) simp_all
next
  case JNull
  then show ?case using parse_value_encode [of JNull r n] by simp
qed

lemma unmarshal_document:
  assumes "literals_ok v"
  shows "unmarshal (document_text v) = Some (as_read v)"
  using parse_indented [OF assms, of "[CHR 0x0A]" 0 "Suc (length (document_text v))"]
  by (simp add: unmarshal_def document_text_def follows_def skip_ws_def json_space_def)

lemma unmarshal_members_document:
  assumes "literals_ok (JObj ms)"
  shows "unmarshal_members (document_text (JObj ms)) = Some (map (\<lambda>(k, v). (k, as_read v, indented v 1)) ms)"
proof (cases "ms = []")
  case True
  then show ?thesis
    using unmarshal_document [OF assms]
    by (simp add: unmarshal_members_def document_text_def skip_ws_def head_is_def json_space_def)
next
  case False
  let ?ms = "map (\<lambda>(k, v). (k, as_read v, indented v (Suc 0))) ms"
  have ne: "?ms \<noteq> []" using False by simp
  have d: "document_text (JObj ms) = CHR ''{'' # member_texts (Suc 0) ?ms @ new_line 0 @ CHR ''}'' # [CHR 0x0A]"
    unfolding document_text_def indented_obj [OF False] by simp
  have "parses (indented v (Suc 0)) (as_read v)" if "(k, v) \<in> set ms" for k v
    using that assms by (intro parses_indented parse_indented) (auto simp: list_all_iff)
  moreover obtain n where n: "length (document_text (JObj ms)) = Suc n" "length (member_texts (Suc 0) ?ms) \<le> n"
    unfolding d by simp
  ultimately have p: "parse_members (Suc n) (member_texts (Suc 0) ?ms @ new_line 0 @ CHR ''}'' # [CHR 0x0A]) = Some (?ms, [CHR 0x0A])"
    using ne by (intro parse_member_texts) auto
  have sk: "parse_members (Suc n) (skip_ws t) = parse_members (Suc n) t" for t
  proof -
    have "skip_ws (skip_ws t) = skip_ws t" by (simp add: skip_ws_def)
    then show ?thesis by (simp only: parse_members.simps)
  qed
  have hq: "head_is (CHR ''}'') (skip_ws (member_texts (Suc 0) ?ms @ t)) = False" for t
    by (subst member_texts_head [OF ne]) (simp add: head_is_def quote_def)
  have "skip_ws (document_text (JObj ms)) = document_text (JObj ms)"
    unfolding d by (simp add: skip_ws_id json_space_def)
  then show ?thesis
    using unmarshal_document [OF assms] p n(1) hq sk
    unfolding unmarshal_members_def by (simp add: d head_is_def [of _ "CHR ''{'' # _"])
qed

text \<open>A whole document into a struct.\<close>

lemma decode_document_text:
  assumes "literals_ok (JObj ms)"
  shows "decode_document dec (document_text (JObj ms)) = dec (map (\<lambda>(k, v). (k, as_read v, indented v 1)) ms)"
  using unmarshal_document [OF assms] unmarshal_members_document [OF assms] by (simp add: decode_document_def)

end
