(* ===== verification/Sidecar.thy ===== *)
theory Sidecar
  imports Fs Json_Indent
begin

text \<open>
  \<open>launcher/internal/sidecar\<close>: the machine-local state directory. This theory holds the atomic
  write of \<open>atomic.go\<close>, which falls back to a copy when the rename fails, and the remembered port of
  \<open>sidecar.go\<close>. Times are kept as the text they have in the document; whether a text is a time, and
  how \<open>time.Time\<close> writes it again, is an argument. The process id and the counter of the package are
  fields of the process.
\<close>

record proc = disk +
  proc_pid :: nat
  proc_counter :: nat

datatype sc_error = ScSys errno | ScVerify | ScBadJson | ScBadSchema string | ScBadPort

section \<open>The atomic write\<close>

definition next_counter :: "proc \<Rightarrow> nat \<times> proc" where
  "next_counter d = (Suc (proc_counter d), d\<lparr>proc_counter := Suc (proc_counter d)\<rparr>)"

text \<open>Create, write, sync, close and check the length of the temporary file.\<close>

definition fill_sidecar_temp :: "string \<Rightarrow> string \<Rightarrow> proc \<Rightarrow> sc_error option \<times> proc" where
  "fill_sidecar_temp tmp data d0 =
     (case sys_create tmp d0 of
        (Some x, d1) \<Rightarrow> (Some (ScSys x), d1)
      | (None, d1) \<Rightarrow>
          (case sys_write tmp data d1 of
             (Some x, d2) \<Rightarrow> (Some (ScSys x), snd (sys_remove tmp (snd (sys_plain d2))))
           | (None, d2) \<Rightarrow>
               (case sys_plain d2 of
                  (Some x, d3) \<Rightarrow> (Some (ScSys x), snd (sys_remove tmp (snd (sys_plain d3))))
                | (None, d3) \<Rightarrow>
                    (case sys_plain d3 of
                       (Some x, d4) \<Rightarrow> (Some (ScSys x), snd (sys_remove tmp d4))
                     | (None, d4) \<Rightarrow>
                         (case sys_stat tmp d4 of
                            (Inl _, d5) \<Rightarrow> (Some ScVerify, snd (sys_remove tmp d5))
                          | (Inr n, d5) \<Rightarrow>
                              if n \<noteq> length data then (Some ScVerify, snd (sys_remove tmp d5)) else (None, d5))))))"

definition rotate_sidecar :: "string \<Rightarrow> string \<Rightarrow> proc \<Rightarrow> sc_error option \<times> proc" where
  "rotate_sidecar tmp target d0 =
     (case sys_stat target d0 of
        (Inl _, d1) \<Rightarrow> (None, d1)
      | (Inr _, d1) \<Rightarrow>
          (let d2 = snd (sys_remove (bak_of target) d1)
           in case sys_rename target (bak_of target) d2 of
                (Some x, d3) \<Rightarrow> (Some (ScSys x), snd (sys_remove tmp d3))
              | (None, d3) \<Rightarrow> (None, d3)))"

text \<open>\<open>renameCrossDevice\<close>.\<close>

definition copy_over :: "string \<Rightarrow> string \<Rightarrow> proc \<Rightarrow> errno option \<times> proc" where
  "copy_over src dst d0 =
     (case sys_read src d0 of
        (Inl x, d1) \<Rightarrow> (Some x, d1)
      | (Inr data, d1) \<Rightarrow>
          (case sys_truncate dst d1 of
             (Some x, d2) \<Rightarrow> (Some x, d2)
           | (None, d2) \<Rightarrow>
               (case sys_write dst data d2 of
                  (Some x, d3) \<Rightarrow> (Some x, snd (sys_remove dst (snd (sys_plain d3))))
                | (None, d3) \<Rightarrow>
                    (case sys_plain d3 of
                       (Some x, d4) \<Rightarrow> (Some x, snd (sys_remove dst (snd (sys_plain d4))))
                     | (None, d4) \<Rightarrow>
                         (case sys_plain d4 of
                            (Some x, d5) \<Rightarrow> (Some x, d5)
                          | (None, d5) \<Rightarrow> sys_remove src d5)))))"

text \<open>The rename into place; the copy is tried after any error of it.\<close>

definition place_sidecar :: "string \<Rightarrow> string \<Rightarrow> proc \<Rightarrow> sc_error option \<times> proc" where
  "place_sidecar tmp target d0 =
     (case sys_rename tmp target d0 of
        (None, d1) \<Rightarrow> (None, d1)
      | (Some x, d1) \<Rightarrow>
          (case copy_over tmp target d1 of
             (Some _, d2) \<Rightarrow> (Some (ScSys x), snd (sys_remove tmp d2))
           | (None, d2) \<Rightarrow> (None, d2)))"

text \<open>\<open>WriteAtomic\<close>; the sync of the directory cannot fail it.\<close>

definition write_sidecar :: "string \<Rightarrow> string \<Rightarrow> proc \<Rightarrow> sc_error option \<times> proc" where
  "write_sidecar target data d0 =
     (case sys_plain d0 of
        (Some x, d1) \<Rightarrow> (Some (ScSys x), d1)
      | (None, d1) \<Rightarrow>
          (case next_counter d1 of
             (n, d2) \<Rightarrow>
               (let tmp = temp_name (proc_pid d2) n target in
                case fill_sidecar_temp tmp data d2 of
                  (Some e, d3) \<Rightarrow> (Some e, d3)
                | (None, d3) \<Rightarrow>
                    (case rotate_sidecar tmp target d3 of
                       (Some e, d4) \<Rightarrow> (Some e, d4)
                     | (None, d4) \<Rightarrow>
                         (case place_sidecar tmp target d4 of
                            (Some e, d5) \<Rightarrow> (Some e, d5)
                          | (None, d5) \<Rightarrow> (None, snd (sys_plain d5)))))))"

section \<open>The remembered port\<close>

definition schema_port_state :: string where "schema_port_state = ''kobra.port-state/1''"
definition origin_history_cap :: nat where "origin_history_cap = 5"
definition port_file_name :: string where "port_file_name = ''port.json''"

record origin_entry =
  oe_origin :: string
  oe_last_seen :: string

record port_state =
  ps_schema :: string
  ps_game_id :: string
  ps_port :: int
  ps_origin :: string
  ps_history :: "origin_entry list"
  ps_updated :: string

definition origin_of :: "int \<Rightarrow> string" where
  "origin_of p = ''http://127.0.0.1:'' @ fmt_int p"

text \<open>A slice cut to its last five entries.\<close>

definition cap_history :: "'a list \<Rightarrow> 'a list" where
  "cap_history xs = (if origin_history_cap < length xs then drop (length xs - origin_history_cap) xs else xs)"

definition zero_time :: string where "zero_time = ''0001-01-01T00:00:00Z''"

text \<open>A \<open>time.Time\<close> field: \<open>null\<close> and an absent member leave the zero time.\<close>

definition time_field :: "(string \<Rightarrow> string option) \<Rightarrow> string \<Rightarrow> members \<Rightarrow> string option" where
  "time_field read_time name ms =
     map_option (\<lambda>x. case x of None \<Rightarrow> zero_time | Some t \<Rightarrow> t)
       (typed_field (\<lambda>v. case v of JStr s \<Rightarrow> read_time s | _ \<Rightarrow> None) name ms)"

definition as_uint16 :: "json \<Rightarrow> int option" where
  "as_uint16 v =
     (case v of JNum l \<Rightarrow> (case parse_digits l of Some n \<Rightarrow> if n < 2 ^ 16 then Some (int n) else None | None \<Rightarrow> None)
      | _ \<Rightarrow> None)"

definition uint16_field :: "string \<Rightarrow> members \<Rightarrow> int option" where
  "uint16_field name ms = map_option (\<lambda>x. case x of None \<Rightarrow> 0 | Some i \<Rightarrow> i) (typed_field as_uint16 name ms)"

definition decode_entry :: "(string \<Rightarrow> string option) \<Rightarrow> members \<Rightarrow> origin_entry option" where
  "decode_entry read_time ms =
     (case (str_field ''origin'' ms, time_field read_time ''last_seen'' ms) of
        (Some o', Some t) \<Rightarrow> Some \<lparr>oe_origin = o', oe_last_seen = t\<rparr>
      | _ \<Rightarrow> None)"

definition decode_state :: "(string \<Rightarrow> string option) \<Rightarrow> members \<Rightarrow> port_state option" where
  "decode_state read_time ms =
     (case (str_field ''schema'' ms, str_field ''game_id'' ms, uint16_field ''port'' ms, str_field ''origin'' ms,
            list_field (as_struct (decode_entry read_time)) ''origin_history'' ms, time_field read_time ''updated'' ms) of
        (Some sc, Some g, Some p, Some o', Some h, Some u) \<Rightarrow>
          Some \<lparr>ps_schema = sc, ps_game_id = g, ps_port = p, ps_origin = o', ps_history = h, ps_updated = u\<rparr>
      | _ \<Rightarrow> None)"

text \<open>\<open>Load\<close>: \<^term>\<open>Inr None\<close> is the missing file.\<close>

definition load_state :: "(string \<Rightarrow> string option) \<Rightarrow> string \<Rightarrow> proc \<Rightarrow> (sc_error + port_state option) \<times> proc" where
  "load_state read_time dir d =
     (case sys_read (join_path dir port_file_name) d of
        (Inl x, d1) \<Rightarrow> (if x = ENOENT then Inr None else Inl (ScSys x), d1)
      | (Inr raw, d1) \<Rightarrow>
          (case decode_document (decode_state read_time) raw of
             None \<Rightarrow> (Inl ScBadJson, d1)
           | Some st \<Rightarrow>
               if ps_schema st \<noteq> schema_port_state then (Inl (ScBadSchema (ps_schema st)), d1)
               else if ps_port st < 1024 \<or> 65535 < ps_port st then (Inl ScBadPort, d1)
               else (Inr (Some (st\<lparr>ps_history := cap_history (ps_history st)\<rparr>)), d1)))"

definition state_members :: "port_state \<Rightarrow> (string \<times> json) list" where
  "state_members st =
     [(''schema'', JStr (ps_schema st)), (''game_id'', JStr (ps_game_id st)), (''port'', JNum (fmt_int (ps_port st))),
      (''origin'', JStr (ps_origin st)),
      (''origin_history'', JArr (map (\<lambda>e. JObj [(''origin'', JStr (oe_origin e)), (''last_seen'', JStr (oe_last_seen e))])
                                (ps_history st))),
      (''updated'', JStr (ps_updated st))]"

definition state_json :: "port_state \<Rightarrow> json" where
  "state_json st = JObj (state_members st)"

text \<open>What \<open>Save\<close> sets before it writes; it keeps these values in the receiver.\<close>

definition stamp_state :: "string \<Rightarrow> port_state \<Rightarrow> port_state" where
  "stamp_state now st =
     st\<lparr>ps_schema := schema_port_state, ps_updated := now,
        ps_origin := (if ps_origin st = [] \<and> ps_port st \<noteq> 0 then origin_of (ps_port st) else ps_origin st),
        ps_history := cap_history (ps_history st)\<rparr>"

definition save_state :: "string \<Rightarrow> string \<Rightarrow> port_state \<Rightarrow> proc \<Rightarrow> sc_error option \<times> port_state \<times> proc" where
  "save_state now dir st d0 =
     (case sys_plain d0 of
        (Some x, d1) \<Rightarrow> (Some (ScSys x), st, d1)
      | (None, d1) \<Rightarrow>
          (let st' = stamp_state now st in
           case write_sidecar (join_path dir port_file_name) (document_text (state_json st')) d1 of
             (e, d2) \<Rightarrow> (e, st', d2)))"

definition remember_origin :: "string \<Rightarrow> string \<Rightarrow> port_state \<Rightarrow> port_state" where
  "remember_origin now o' st =
     (if o' = [] then st
      else (let kept = filter (\<lambda>e. oe_origin e \<noteq> o') (ps_history st) @ [\<lparr>oe_origin = o', oe_last_seen = now\<rparr>]
            in st\<lparr>ps_history := cap_history kept\<rparr>))"

definition origin_history_strings :: "port_state \<Rightarrow> string list" where
  "origin_history_strings st = map oe_origin (ps_history st)"

section \<open>The atomic write keeps the old document or has the new one\<close>

text \<open>At most one call is going to fail.\<close>

definition one_fault :: "'a disk_scheme \<Rightarrow> bool" where
  "one_fault d = (length (filter (\<lambda>f. f \<noteq> Runs) (faults d)) \<le> 1)"

definition no_fault :: "'a disk_scheme \<Rightarrow> bool" where
  "no_fault d = list_all (\<lambda>f. f = Runs) (faults d)"

lemma one_fault_next: "one_fault d \<Longrightarrow> next_fault d = (f, d') \<Longrightarrow> one_fault d' \<and> (f \<noteq> Runs \<longrightarrow> no_fault d')"
  by (auto simp: one_fault_def no_fault_def next_fault_def list_all_iff filter_empty_conv split: list.splits if_splits)

lemma one_fault_files [simp]: "one_fault (set_files m d) = one_fault d" "one_fault (write_prefixes p x n d) = one_fault d"
  by (simp_all add: one_fault_def)

lemma no_fault_next: "no_fault d \<Longrightarrow> \<exists>d'. next_fault d = (Runs, d')"
  by (cases "faults d") (auto simp: no_fault_def next_fault_def)

lemma one_fault_calls:
  assumes "one_fault d"
  shows "one_fault (snd (sys_plain d))" "one_fault (snd (sys_create p d))" "one_fault (snd (sys_truncate p d))"
    "one_fault (snd (sys_write p x d))" "one_fault (snd (sys_stat p d))" "one_fault (snd (sys_remove p d))"
proof -
  obtain f d' where f: "next_fault d = (f, d')" by fastforce
  note d' = one_fault_next [OF assms f, THEN conjunct1]
  show "one_fault (snd (sys_plain d))" using d' by (cases f) (simp_all add: sys_plain_def f)
  show "one_fault (snd (sys_create p d))" using d' by (cases f) (simp_all add: sys_create_def f)
  show "one_fault (snd (sys_truncate p d))" using d' by (cases f) (simp_all add: sys_truncate_def f)
  show "one_fault (snd (sys_write p x d))" using d' by (cases f) (simp_all add: sys_write_def f)
  show "one_fault (snd (sys_stat p d))"
    using d' by (cases f; cases "get (files d') p") (simp_all add: sys_stat_def f)
  show "one_fault (snd (sys_remove p d))" using d' by (cases f) (simp_all add: sys_remove_def f)
qed

lemma one_fault_stat:
  assumes "one_fault d" and "sys_stat p d = (Inl x, d')" and "get (files d) p = Some y"
  shows "no_fault d'"
proof -
  obtain f e where f: "next_fault d = (f, e)" by fastforce
  show ?thesis
    using assms one_fault_next [OF assms(1) f] next_fault_files(1) [OF f]
    by (cases f) (auto simp: sys_stat_def f)
qed

lemma temp_inv_one_fault: "temp_inv tmp one_fault"
  by (simp add: temp_inv_def one_fault_calls)

lemma temp_inv_both: "temp_inv tmp J \<Longrightarrow> temp_inv tmp K \<Longrightarrow> temp_inv tmp (\<lambda>e. J e \<and> K e)"
  by (simp add: temp_inv_def)

lemma inv_fill_sidecar_temp:
  assumes "temp_inv tmp J" and "J e"
  shows "J (snd (fill_sidecar_temp tmp data e))"
proof -
  note st = temp_invD [OF assms(1)]
  obtain r1 e1 where c1: "sys_create tmp e = (r1, e1)" by fastforce
  note i1 = st(2) [OF assms(2), unfolded c1 snd_conv]
  obtain r2 e2 where c2: "sys_write tmp data e1 = (r2, e2)" by fastforce
  note i2 = st(3) [OF i1, of data, unfolded c2 snd_conv]
  obtain r3 e3 where c3: "sys_plain e2 = (r3, e3)" by fastforce
  note i3 = st(1) [OF i2, unfolded c3 snd_conv]
  obtain r4 e4 where c4: "sys_plain e3 = (r4, e4)" by fastforce
  note i4 = st(1) [OF i3, unfolded c4 snd_conv]
  obtain r5 e5 where c5: "sys_stat tmp e4 = (r5, e5)" by fastforce
  note i5 = st(5) [OF i4, of tmp, unfolded c5 snd_conv]
  show ?thesis
    using i1 i2 i3 i4 i5 st(4) [OF i4] st(4) [OF i5] st(4) [OF st(1) [OF i2]] st(4) [OF st(1) [OF i3]]
    by (simp add: fill_sidecar_temp_def c1 c2 c3 c4 c5 split: option.splits sum.splits)
qed

lemma fill_sidecar_temp_ok:
  assumes "fill_sidecar_temp tmp data e = (None, e')"
  shows "get (files e') tmp = Some data"
proof -
  obtain e1 e2 e3 e4 n where c: "sys_create tmp e = (None, e1)" "sys_write tmp data e1 = (None, e2)"
      "sys_plain e2 = (None, e3)" "sys_plain e3 = (None, e4)" "sys_stat tmp e4 = (Inr n, e')"
    using assms by (auto simp: fill_sidecar_temp_def split: prod.splits option.splits sum.splits if_splits)
  have "files e' = files e2"
    using sys_plain_files [of e2] sys_plain_files [of e3] sys_stat_files [of tmp e4] c by simp
  then show ?thesis using sys_write_ok [OF c(2)] by simp
qed

lemma inv_copy_over:
  assumes "temp_inv src J" "temp_inv dst J" "\<And>q e. J e \<Longrightarrow> J (snd (sys_read q e))" and "J e"
  shows "J (snd (copy_over src dst e))"
proof -
  note sd = temp_invD [OF assms(2)]
  obtain r1 e1 where c1: "sys_read src e = (r1, e1)" by fastforce
  note i1 = assms(3) [OF assms(4), of src, unfolded c1 snd_conv]
  obtain r2 e2 where c2: "sys_truncate dst e1 = (r2, e2)" by fastforce
  note i2 = sd(6) [OF i1, unfolded c2 snd_conv]
  have "J (snd (case sys_write dst x e2 of
                  (Some y, d3) \<Rightarrow> (Some y, snd (sys_remove dst (snd (sys_plain d3))))
                | (None, d3) \<Rightarrow>
                    (case sys_plain d3 of
                       (Some y, d4) \<Rightarrow> (Some y, snd (sys_remove dst (snd (sys_plain d4))))
                     | (None, d4) \<Rightarrow>
                         (case sys_plain d4 of (Some y, d5) \<Rightarrow> (Some y, d5) | (None, d5) \<Rightarrow> sys_remove src d5))))" for x
  proof -
    obtain r3 e3 where c3: "sys_write dst x e2 = (r3, e3)" by fastforce
    note i3 = sd(3) [OF i2, of x, unfolded c3 snd_conv]
    obtain r4 e4 where c4: "sys_plain e3 = (r4, e4)" by fastforce
    note i4 = sd(1) [OF i3, unfolded c4 snd_conv]
    obtain r5 e5 where c5: "sys_plain e4 = (r5, e5)" by fastforce
    note i5 = sd(1) [OF i4, unfolded c5 snd_conv]
    show ?thesis
      using i4 i5 sd(4) [OF i4] sd(4) [OF i5] temp_invD(4) [OF assms(1) i5]
      by (simp add: c3 c4 c5 split: option.splits)
  qed
  with i1 i2 show ?thesis
    by (simp add: copy_over_def c1 c2 split: sum.splits option.splits)
qed

text \<open>The old content or the new one is at its place, or the old one is in the \<open>.bak\<close>.\<close>

definition old_or_new :: "string \<Rightarrow> string \<Rightarrow> string \<Rightarrow> files \<Rightarrow> bool" where
  "old_or_new target old data m =
     (get m target = Some old \<or> get m target = Some data \<or> get m (bak_of target) = Some old)"

lemma crash_rename_sidecar:
  assumes "crash_inv P d e" and "sys_rename src dst e = (r, e')" and "src \<noteq> dst"
    and "\<And>x. get (files e) src = Some x \<Longrightarrow> P (put dst x (del src (files e)))"
  shows "crash_inv P d e'"
proof -
  have "crash_inv P d (snd (sys_rename src dst e))"
    by (rule rename_call.crash_call_seq [OF assms(1)]) (use assms(3,4) in \<open>auto split: option.splits\<close>)
  with assms(2) show ?thesis by simp
qed

lemma ignores_old_or_new: "tmp \<noteq> target \<Longrightarrow> tmp \<noteq> bak_of target \<Longrightarrow> ignores tmp (old_or_new target old data)"
  by (auto simp: ignores_def old_or_new_def)

lemma crash_rotate_sidecar:
  assumes n: "tmp \<noteq> target" "tmp \<noteq> bak_of target" and i: "crash_inv (old_or_new target old data) d e"
    and m: "get (files e) target = Some old" "get (files e) tmp = Some data" and q: "one_fault e"
    and c: "rotate_sidecar tmp target e = (r, e')"
  shows "crash_inv (old_or_new target old data) d e'
    \<and> (r = None \<longrightarrow> get (files e') tmp = Some data \<and> (get (files e') (bak_of target) = Some old \<or> no_fault e'))"
proof -
  let ?K = "old_or_new target old data"
  obtain r1 e1 where c1: "sys_stat target e = (r1, e1)" by fastforce
  have i1: "crash_inv ?K d e1" and f1: "files e1 = files e"
    using stat_call.crash_call_seq [OF i, of target] sys_stat_files [of target e] c1 by simp_all
  show ?thesis
  proof (cases r1)
    case (Inl x)
    then show ?thesis
      using c i1 f1 m(2) one_fault_stat [OF q _ m(1), of x e1] by (auto simp: rotate_sidecar_def c1)
  next
    case (Inr k)
    obtain r2 e2 where c2: "sys_remove (bak_of target) e1 = (r2, e2)" by fastforce
    have i2: "crash_inv ?K d e2"
      using remove_call.crash_call_seq [OF i1, of "bak_of target"] c2 m by (simp add: f1 old_or_new_def)
    have g2: "get (files e2) target = Some old" "get (files e2) tmp = Some data"
      using remove_call.files_call [of "bak_of target" e1] c2 m n f1 by auto
    obtain r3 e3 where c3: "sys_rename target (bak_of target) e2 = (r3, e3)" by fastforce
    have i3: "crash_inv ?K d e3"
      by (rule crash_rename_sidecar [OF i2 c3]) (use g2 in \<open>simp_all add: old_or_new_def\<close>)
    show ?thesis
    proof (cases r3)
      case None
      then have "files e3 = put (bak_of target) old (del target (files e2))"
        using sys_rename_ok [of target "bak_of target" e2 e3] c3 g2 by auto
      with None i3 n g2 c Inr show ?thesis by (auto simp: rotate_sidecar_def c1 c2 c3)
    next
      case (Some x)
      with c Inr show ?thesis
        using temp_invD(4) [OF temp_inv_crash [OF ignores_old_or_new [OF n]] i3]
        by (auto simp: rotate_sidecar_def c1 c2 c3)
    qed
  qed
qed

lemma crash_place_sidecar:
  assumes n: "tmp \<noteq> target" "tmp \<noteq> bak_of target" and i: "crash_inv (old_or_new target old data) d e"
    and m: "get (files e) tmp = Some data" "get (files e) (bak_of target) = Some old \<or> no_fault e"
    and c: "place_sidecar tmp target e = (r, e')"
  shows "crash_inv (old_or_new target old data) d e'"
proof -
  let ?K = "old_or_new target old data"
  obtain r1 e1 where c1: "sys_rename tmp target e = (r1, e1)" by fastforce
  have i1: "crash_inv ?K d e1"
    by (rule crash_rename_sidecar [OF i c1 n(1)]) (use m n in \<open>auto simp: old_or_new_def\<close>)
  show ?thesis
  proof (cases r1)
    case None
    with i1 c show ?thesis by (simp add: place_sidecar_def c1)
  next
    case (Some x)
    have "\<not> no_fault e"
      using no_fault_next [of e] next_fault_files(1) [of e Runs] m(1) c1 Some
      by (auto simp: sys_rename_def split: prod.splits fault.splits option.splits)
    with m(2) have b: "get (files e1) (bak_of target) = Some old"
      using sys_rename_err c1 Some by metis
    let ?B = "\<lambda>m. get m (bak_of target) = Some old"
    have ig: "ignores tmp ?B" "ignores target ?B" using n by (auto simp: ignores_def)
    obtain r2 e2 where c2: "copy_over tmp target e1 = (r2, e2)" by fastforce
    have "crash_inv ?B e1 (snd (copy_over tmp target e1))"
      by (rule inv_copy_over [OF temp_inv_crash [OF ig(1)] temp_inv_crash [OF ig(2)]])
        (auto intro!: read_call.crash_call_seq crash_inv_refl simp: b)
    then have j2: "crash_inv ?B e1 e2" by (simp add: c2)
    have i2: "crash_inv ?K d e2"
      by (rule crash_inv_trans [OF i1 crash_inv_mono [OF j2]]) (simp add: old_or_new_def)
    show ?thesis
      using c Some i2 temp_invD(4) [OF temp_inv_crash [OF ignores_old_or_new [OF n]] i2]
      by (auto simp: place_sidecar_def c1 c2 split: option.splits)
  qed
qed

text \<open>
  C32: The atomic write of the sidecar keeps a document whatever single call fails and wherever a crash
  falls: the file has its old content or the whole new one, or the old content is in the \<open>.bak\<close>. With
  the rename failing over to a copy it is the \<open>.bak\<close> that carries the old content while the copy is under
  way. The target is any cleaned absolute path of a file.
\<close>
theorem sidecar_write_keeps_document:
  assumes "get (files d) target = Some old" and "one_fault d"
    and "list_all plain_seg ss" and "plain_seg s" and "target = path_of (ss @ [s])"
  shows "crash_inv (old_or_new target old data) d (snd (write_sidecar target data d))"
proof -
  let ?K = "old_or_new target old data"
  define tmp where "tmp = temp_name (proc_pid d) (Suc (proc_counter d)) target"
  have n: "tmp \<noteq> target" "tmp \<noteq> bak_of target" using temp_apart_path [OF assms(3,4)] assms(5) by (simp_all add: tmp_def temp_apart_def)
  obtain r1 d1 where c1: "sys_plain d = (r1, d1)" by fastforce
  let ?J = "\<lambda>e. crash_inv ?K d e \<and> one_fault e"
  have "?J d" using assms(1,2) by (simp add: crash_inv_refl old_or_new_def)
  have tj: "temp_inv tmp ?J"
    by (rule temp_inv_both [OF temp_inv_crash [OF ignores_old_or_new [OF n]] temp_inv_one_fault])
  from temp_invD(1) [OF tj \<open>?J d\<close>] have j1: "?J d1" by (simp add: c1)
  have f1: "files d1 = files d" "proc_pid d1 = proc_pid d" "proc_counter d1 = proc_counter d"
    using sys_plain_files [of d] c1 by (auto simp: sys_plain_def next_fault_def split: list.splits fault.splits prod.splits)
  define d2 where "d2 = snd (next_counter d1)"
  have d2: "next_counter d1 = (Suc (proc_counter d), d2)" "proc_pid d2 = proc_pid d" "files d2 = files d"
    "history d2 = history d1" "faults d2 = faults d1"
    by (simp_all add: d2_def next_counter_def f1)
  have j2: "?J d2"
    using j1 d2 crash_inv_trans [OF conjunct1 [OF j1], of d2] crash_inv_eq [of d2 d1 ?K] f1 crash_inv_last [of ?K d d1]
    by (simp add: one_fault_def)
  obtain r3 d3 where c3: "fill_sidecar_temp tmp data d2 = (r3, d3)" by fastforce
  have j3: "?J d3" using inv_fill_sidecar_temp [OF tj j2, of data] by (simp add: c3)
  let ?T = "\<lambda>m. get m target = Some old"
  have "ignores tmp ?T" using n by (auto simp: ignores_def)
  from inv_fill_sidecar_temp [OF temp_inv_crash [OF this], of d2 d2 data]
  have o3: "get (files d3) target = Some old"
    using crash_inv_last [of ?T d2 d3] crash_inv_refl [of ?T d2] assms(1) d2 by (simp add: c3)
  obtain r4 d4 where c4: "rotate_sidecar tmp target d3 = (r4, d4)" by fastforce
  obtain r5 d5 where c5: "place_sidecar tmp target d4 = (r5, d5)" by fastforce
  have late: "crash_inv ?K d d4 \<and> (r4 = None \<longrightarrow> crash_inv ?K d d5)" if "r3 = None"
    using crash_rotate_sidecar [OF n _ o3 _ _ c4, of data d] crash_place_sidecar [OF n _ _ _ c5, of old data d]
      fill_sidecar_temp_ok [of tmp data d2 d3] c3 that j3 by blast
  have "crash_inv ?K d (snd (sys_plain d5))" if "crash_inv ?K d d5"
    using plain_call.crash_call_seq [OF that] by simp
  with late j1 j3 show ?thesis
    by (auto simp: write_sidecar_def c1 d2 tmp_def [symmetric] c3 c4 c5 Let_def split: option.splits)
qed

section \<open>What is saved is loaded again\<close>

definition entry_json :: "origin_entry \<Rightarrow> json" where
  "entry_json e = JObj [(''origin'', JStr (oe_origin e)), (''last_seen'', JStr (oe_last_seen e))]"

lemma decode_entry_json:
  assumes "read_time (oe_last_seen e) = Some (oe_last_seen e)"
  shows "as_struct (decode_entry read_time) (as_read (entry_json e)) = Some e"
  using assms
  by (simp add: entry_json_def map_of_members_def as_struct_def decode_entry_def field_defs time_field_def
      named_simps to_lower_ascii_def)

definition state_ok :: "(string \<Rightarrow> string option) \<Rightarrow> port_state \<Rightarrow> bool" where
  "state_ok read_time st \<longleftrightarrow> 1024 \<le> ps_port st \<and> ps_port st \<le> 65535
     \<and> (\<forall>e \<in> set (ps_history st). read_time (oe_last_seen e) = Some (oe_last_seen e))"

lemma decode_state_json:
  assumes "state_ok read_time st" and "read_time (ps_updated st) = Some (ps_updated st)"
  shows "decode_document (decode_state read_time) (document_text (state_json st)) = Some st"
proof -
  have e: "map (\<lambda>e. JObj [(''origin'', JStr (oe_origin e)), (''last_seen'', JStr (oe_last_seen e))]) (ps_history st)
      = map entry_json (ps_history st)"
    by (simp add: entry_json_def)
  have lit: "literals_ok (JObj (state_members st))"
    by (simp add: state_members_def list_all_iff)
  have h: "as_list (as_struct (decode_entry read_time)) (JArr (map (as_read \<circ> entry_json) (ps_history st))) = Some (ps_history st)"
    using assms(1) conv_all_map [of "ps_history st" "as_struct (decode_entry read_time)" "as_read \<circ> entry_json"]
    by (simp add: as_list_def state_ok_def decode_entry_json)
  have p: "parse_digits (fmt_int (ps_port st)) = Some (nat (ps_port st))"
    using assms(1) by (simp add: fmt_int_def state_ok_def)
  have f: "nat (ps_port st) < 65536"
    using assms(1) by (simp add: state_ok_def nat_less_iff)
  have "decode_state read_time (map (\<lambda>(k, v). (k, as_read v, indented v 1)) (state_members st)) = Some st"
    unfolding state_members_def e
    using h p f assms
    by (simp add: decode_state_def field_defs named_simps to_lower_ascii_def uint16_field_def as_uint16_def time_field_def state_ok_def)
  then show ?thesis
    using decode_document_text [OF lit, of "decode_state read_time"] by (simp add: state_json_def)
qed

lemma quiet_sys_plain: "faults d = [] \<Longrightarrow> sys_plain d = (None, d)"
  by (simp add: sys_plain_def next_fault_def)

lemma quiet_write_sidecar:
  assumes q: "faults d = []" and ap: "temp_apart t"
    and free: "get (files d) (temp_name (proc_pid d) (Suc (proc_counter d)) t) = None"
  shows "\<exists>d'. write_sidecar t data d = (None, d') \<and> faults d' = [] \<and> get (files d') t = Some data"
proof -
  define tmp where "tmp = temp_name (proc_pid d) (Suc (proc_counter d)) t"
  have apart: "tmp \<noteq> t" "tmp \<noteq> bak_of t" using ap by (simp_all add: tmp_def temp_apart_def)
  define d2 where "d2 = d\<lparr>proc_counter := Suc (proc_counter d)\<rparr>"
  have nc: "next_counter d = (Suc (proc_counter d), d2)" "proc_pid d2 = proc_pid d"
    by (simp_all add: next_counter_def d2_def)
  define d3 where "d3 = write_prefixes tmp data (length data) (set_files (put tmp [] (files d2)) d2)"
  have q3: "faults d3 = []" and f3: "get (files d3) tmp = Some data"
    using q by (simp_all add: d3_def d2_def files_write_prefixes)
  have ft: "fill_sidecar_temp tmp data d2 = (None, d3)"
    using q free f3 q3 by (simp add: fill_sidecar_temp_def quiet_all quiet_sys_plain d3_def d2_def tmp_def files_write_prefixes)
  obtain d4 where rb: "rotate_sidecar tmp t d3 = (None, d4)" "faults d4 = []" "get (files d4) tmp = Some data"
  proof (cases "get (files d3) t")
    case None
    then show ?thesis using that [of d3] q3 f3 by (simp add: rotate_sidecar_def quiet_all)
  next
    case (Some x)
    define e where "e = snd (sys_remove (bak_of t) d3)"
    have e: "faults e = []" "get (files e) t = Some x" "get (files e) tmp = Some data"
      using quiet_remove [OF q3, of "bak_of t"] Some f3 apart by (simp_all add: e_def)
    have "rotate_sidecar tmp t d3 = (None, set_files (put (bak_of t) x (del t (files e))) e)"
      using q3 Some e by (simp add: rotate_sidecar_def quiet_all(4,6) e_def [symmetric])
    then show ?thesis using that e apart by simp
  qed
  have "place_sidecar tmp t d4 = (None, set_files (put t data (del tmp (files d4))) d4)"
    using rb apart by (simp add: place_sidecar_def quiet_all)
  then show ?thesis
    using q rb by (simp add: write_sidecar_def quiet_sys_plain nc tmp_def [symmetric] ft)
qed

lemma port_file_path:
  assumes "rooted dir"
  shows "temp_apart (join_path dir port_file_name)"
proof -
  have "plain_seg port_file_name" by (simp add: plain_seg_def port_file_name_def dot_def slash_def)
  then show ?thesis
    using join_path_of [OF assms] temp_apart_path [OF list_all_segs_of [OF assms]] by simp
qed

text \<open>
  What \<open>Save\<close> writes to port.json, \<open>Load\<close> reads back: on a disk where no call fails the save
  succeeds, and the next load gives the saved state with its schema, its time, its origin and its
  capped history.
\<close>
theorem port_state_roundtrip:
  assumes "rooted dir" and "faults d = []" and "state_ok read_time st" and "read_time now = Some now"
    and "get (files d) (temp_name (proc_pid d) (Suc (proc_counter d)) (join_path dir port_file_name)) = None"
  shows "\<exists>d'. save_state now dir st d = (None, stamp_state now st, d')
    \<and> fst (load_state read_time dir d') = Inr (Some (stamp_state now st))"
proof -
  let ?st = "stamp_state now st" and ?p = "join_path dir port_file_name"
  obtain d' where w: "write_sidecar ?p (document_text (state_json ?st)) d = (None, d')" "faults d' = []"
      "get (files d') ?p = Some (document_text (state_json ?st))"
    using quiet_write_sidecar [OF assms(2) port_file_path [OF assms(1)] assms(5)] by blast
  have "set (cap_history xs) \<subseteq> set xs" for xs :: "origin_entry list"
    by (auto simp: cap_history_def dest: in_set_dropD)
  then have ok: "state_ok read_time ?st"
    using assms(3) by (auto simp: state_ok_def stamp_state_def)
  have "decode_document (decode_state read_time) (document_text (state_json ?st)) = Some ?st"
    by (rule decode_state_json [OF ok]) (simp add: stamp_state_def assms(4))
  moreover have "cap_history (ps_history ?st) = ps_history ?st"
    by (simp add: stamp_state_def cap_history_def)
  moreover have "sys_read ?p d' = (Inr (document_text (state_json ?st)), d')"
    using w(2,3) by (simp add: sys_read_def next_fault_def)
  ultimately have "fst (load_state read_time dir d') = Inr (Some ?st)"
    using ok by (simp add: load_state_def state_ok_def) (simp add: stamp_state_def)
  with w show ?thesis
    using assms(2) by (simp add: save_state_def quiet_sys_plain Let_def)
qed

text \<open>The history never grows beyond the cap, keeps one entry per origin and ends with the newest.\<close>

lemma cap_history_snoc: "\<exists>n. cap_history (ys @ [x]) = drop n ys @ [x]"
proof -
  have "length ys + 1 - origin_history_cap \<le> length ys" by (simp add: origin_history_cap_def)
  then show ?thesis
    by (auto simp: cap_history_def origin_history_cap_def intro: exI [of _ 0] exI [of _ "length ys - 4"])
qed

lemma remember_origin_history:
  assumes "o' \<noteq> []" and "distinct (origin_history_strings st)"
  shows "length (ps_history (remember_origin now o' st)) \<le> origin_history_cap
    \<and> distinct (origin_history_strings (remember_origin now o' st))
    \<and> last (origin_history_strings (remember_origin now o' st)) = o'"
proof -
  let ?k = "filter (\<lambda>e. oe_origin e \<noteq> o') (ps_history st)" and ?x = "\<lparr>oe_origin = o', oe_last_seen = now\<rparr>"
  obtain n where n: "cap_history (?k @ [?x]) = drop n ?k @ [?x]" using cap_history_snoc [of ?k ?x] by (rule exE)
  have "length (drop n ?k @ [?x]) \<le> origin_history_cap"
    by (subst n [symmetric]) (simp add: cap_history_def origin_history_cap_def)
  moreover have "distinct (map oe_origin ?k)" using assms(2) by (simp add: origin_history_strings_def distinct_map_filter)
  then have "distinct (drop n (map oe_origin ?k))" by (rule distinct_drop)
  moreover have "o' \<notin> set (drop n (map oe_origin ?k))" using set_drop_subset [of n "map oe_origin ?k"] by auto
  ultimately show ?thesis
    using assms(1) by (simp add: remember_origin_def origin_history_strings_def n drop_map)
qed

definition sample_proc :: "files \<Rightarrow> fault list \<Rightarrow> proc" where
  "sample_proc m fs = \<lparr>files = m, history = [], faults = fs, proc_pid = 7, proc_counter = 0\<rparr>"

theorem sidecar_write_keeps_document_witness:
  "let d = sample_proc [(''/s/port.json'', ''old'')] (replicate 9 Runs @ [Fails EXDEV 0]);
       r = write_sidecar ''/s/port.json'' ''new'' d
   in fst r = None \<and> get (files (snd r)) ''/s/port.json'' = Some ''new''
      \<and> crash_inv (old_or_new ''/s/port.json'' ''old'' ''new'') d (snd r)"
proof -
  let ?d = "sample_proc [(''/s/port.json'', ''old'')] (replicate 9 Runs @ [Fails EXDEV 0])"
  have "crash_inv (old_or_new ''/s/port.json'' ''old'' ''new'') ?d (snd (write_sidecar ''/s/port.json'' ''new'' ?d))"
    by (rule sidecar_write_keeps_document [where ss = "[''s'']" and s = "''port.json''"])
      (simp_all add: sample_proc_def one_fault_def plain_seg_def dot_def slash_def path_of_def)
  moreover have "fst (write_sidecar ''/s/port.json'' ''new'' ?d) = None"
    "get (files (snd (write_sidecar ''/s/port.json'' ''new'' ?d))) ''/s/port.json'' = Some ''new''"
    by code_simp+
  ultimately show ?thesis by (simp add: Let_def)
qed

definition sample_port_state :: port_state where
  "sample_port_state = \<lparr>ps_schema = [], ps_game_id = ''g'', ps_port = 5000, ps_origin = [],
     ps_history = [\<lparr>oe_origin = ''http://127.0.0.1:4999'', oe_last_seen = ''t0''\<rparr>], ps_updated = []\<rparr>"

theorem port_state_roundtrip_witness:
  "\<exists>d'. save_state ''t1'' ''/s'' sample_port_state (sample_proc [] []) = (None, stamp_state ''t1'' sample_port_state, d')
     \<and> fst (load_state Some ''/s'' d') = Inr (Some (stamp_state ''t1'' sample_port_state))"
  by (rule port_state_roundtrip)
    (simp_all add: rooted_def slash_def sample_proc_def state_ok_def sample_port_state_def)

end
