(* ===== verification/Instance_Lock.thy ===== *)
theory Instance_Lock
  imports Sidecar
begin

text \<open>
  \<open>sidecar/lock.go\<close>, \<open>health.go\<close> and the platform files: the instance lock. Acquisition is split into the
  phases between which another launcher can run: look at the file, judge its owner, remove it, create
  it, fill it. \<open>acquire_lock\<close> is their composition; the last section runs the phases of several
  launchers in any order. What the machine answers (boot time, process table, start times, loopback
  HTTP) is a record of functions. Times are nanoseconds.
\<close>

definition lock_file_name :: string where "lock_file_name = ''instance.lock''"
definition schema_instance_lock :: string where "schema_instance_lock = ''kobra.instance-lock/1''"
definition app_name :: string where "app_name = ''kobra-launcher''"

record lock_info =
  li_schema :: string
  li_pid :: int
  li_start_time :: string
  li_version :: string
  li_game_id :: string
  li_port :: int
  li_instance :: string

definition decode_lock_info :: "members \<Rightarrow> lock_info option" where
  "decode_lock_info ms =
     (case (str_field ''schema'' ms, int_field ''pid'' ms, str_field ''start_time'' ms,
            str_field ''launcher_version'' ms, str_field ''game_id'' ms, uint16_field ''port'' ms,
            str_field ''instance'' ms) of
        (Some sc, Some p, Some t, Some v, Some g, Some pt, Some i) \<Rightarrow>
          Some \<lparr>li_schema = sc, li_pid = p, li_start_time = t, li_version = v, li_game_id = g, li_port = pt, li_instance = i\<rparr>
      | _ \<Rightarrow> None)"

definition lock_members :: "lock_info \<Rightarrow> (string \<times> json) list" where
  "lock_members i =
     [(''schema'', JStr (li_schema i)), (''pid'', JNum (fmt_int (li_pid i))),
      (''start_time'', JStr (li_start_time i)), (''launcher_version'', JStr (li_version i)),
      (''game_id'', JStr (li_game_id i)), (''port'', JNum (fmt_int (li_port i)))]
     @ (if li_instance i = [] then [] else [(''instance'', JStr (li_instance i))])"

definition lock_text :: "lock_info \<Rightarrow> string" where
  "lock_text i = document_text (JObj (lock_members i))"

datatype lock_state = LockAbsent | LockStale

text \<open>\<open>ReadLock\<close>: the info, the state and whether there was an error.\<close>

definition read_lock :: "string \<Rightarrow> 'a disk_scheme \<Rightarrow> (lock_info option \<times> lock_state \<times> bool) \<times> 'a disk_scheme" where
  "read_lock dir d =
     (case sys_read (join_path dir lock_file_name) d of
        (Inl x, d1) \<Rightarrow> ((None, LockAbsent, x \<noteq> ENOENT), d1)
      | (Inr raw, d1) \<Rightarrow>
          (case decode_document decode_lock_info raw of
             None \<Rightarrow> ((None, LockStale, True), d1)
           | Some i \<Rightarrow> ((Some i, LockStale, False), d1)))"

section \<open>Liveness\<close>

record health_response =
  hr_app :: string
  hr_game_id :: string
  hr_instance :: string
  hr_release :: string
  hr_port :: int

definition decode_health :: "members \<Rightarrow> health_response option" where
  "decode_health ms =
     (case (str_field ''app'' ms, str_field ''game_id'' ms, str_field ''instance'' ms, str_field ''release'' ms,
            uint16_field ''port'' ms) of
        (Some a, Some g, Some i, Some r, Some p) \<Rightarrow>
          Some \<lparr>hr_app = a, hr_game_id = g, hr_instance = i, hr_release = r, hr_port = p\<rparr>
      | _ \<Rightarrow> None)"

text \<open>
  The machine: the boot time and a process's start time (\<^term>\<open>None\<close>: an error, or not exposed), the
  modification time of the lock file, the process table, the reading of an RFC 3339 time, and the answer to
  a GET of the health document at a port: its status and body.
\<close>

record machine =
  ma_boot :: "int option"
  ma_mtime :: "int option"
  ma_pid_exists :: "int \<Rightarrow> bool"
  ma_started :: "int \<Rightarrow> int option"
  ma_parse_time :: "string \<Rightarrow> int option"
  ma_health :: "int \<Rightarrow> (int \<times> string) option"

definition fetch_health :: "machine \<Rightarrow> int \<Rightarrow> health_response option" where
  "fetch_health ma port =
     (case ma_health ma port of
        None \<Rightarrow> None
      | Some (status, body) \<Rightarrow>
          if status \<noteq> 200 then None else decode_document decode_health (take 4096 body))"

text \<open>\<open>CheckLiveness\<close>: \<^term>\<open>None\<close> when the owner is live, otherwise the reason why it is not.\<close>

definition check_liveness :: "machine \<Rightarrow> lock_info option \<Rightarrow> string option" where
  "check_liveness ma oi =
     (case oi of
        None \<Rightarrow> Some ''no_lock''
      | Some i \<Rightarrow>
          if li_pid i \<le> 0 then Some ''invalid_pid''
          else if (case (ma_boot ma, ma_mtime ma) of (Some b, Some m) \<Rightarrow> m < b | _ \<Rightarrow> False) then Some ''predates_boot''
          else if \<not> ma_pid_exists ma (li_pid i) then Some ''pid_missing''
          else if (case (ma_started ma (li_pid i), ma_parse_time ma (li_start_time i)) of
                     (Some st, Some rc) \<Rightarrow> 2 * second < st - rc \<or> st - rc < - 2 * second
                   | _ \<Rightarrow> False) then Some ''pid_reused''
          else if li_port i = 0 then Some ''no_port''
          else (case fetch_health ma (li_port i) of
                  None \<Rightarrow> Some ''health_unreachable''
                | Some h \<Rightarrow>
                    if hr_app h \<noteq> app_name \<or> hr_game_id h \<noteq> li_game_id i then Some ''health_mismatch''
                    else if li_instance i \<noteq> [] \<and> hr_instance h \<noteq> li_instance i then Some ''health_instance_mismatch''
                    else None))"

section \<open>The process table of Linux\<close>

text \<open>\<open>/proc\<close> is a function from paths to contents.\<close>

fun find_btime :: "string list \<Rightarrow> int option" where
  "find_btime [] = None"
| "find_btime (l # ls) =
     (if prefix ''btime '' l then map_option (\<lambda>v. v * second) (parse_int64 (trim_space (trim_prefix ''btime '' l)))
      else find_btime ls)"

definition boot_time :: "(string \<Rightarrow> string option) \<Rightarrow> int option" where
  "boot_time proc_fs =
     (case proc_fs ''/proc/stat'' of None \<Rightarrow> None | Some raw \<Rightarrow> find_btime (split_on (CHR 0x0A) raw))"

definition pid_exists :: "(string \<Rightarrow> string option) \<Rightarrow> int \<Rightarrow> bool" where
  "pid_exists proc_fs p = (0 < p \<and> proc_fs (''/proc/'' @ fmt_int p) \<noteq> None)"

definition after_last :: "char \<Rightarrow> string \<Rightarrow> string option" where
  "after_last c s = (if c \<in> set s then Some (rev (takeWhile (\<lambda>x. x \<noteq> c) (rev s))) else None)"

text \<open>The start time from field 22, in ticks of a hundredth of a second; the product is an \<open>int64\<close>.\<close>

definition ticks_to_nanos :: "nat \<Rightarrow> int" where
  "ticks_to_nanos t = (let p = wrap64 (wrap64 (int t) * second) in sgn p * (\<bar>p\<bar> div 100))"

definition process_start_time :: "(string \<Rightarrow> string option) \<Rightarrow> int \<Rightarrow> int option" where
  "process_start_time proc_fs p =
     (case proc_fs (''/proc/'' @ fmt_int p @ ''/stat'') of
        None \<Rightarrow> None
      | Some s \<Rightarrow>
          (case after_last (CHR '')'') s of
             None \<Rightarrow> None
           | Some after \<Rightarrow>
               (let fs = Prelude.fields after in
                if after = [] \<or> length fs \<le> 19 then None
                else (case parse_digits (fs ! 19) of
                        None \<Rightarrow> None
                      | Some t \<Rightarrow>
                          if 2 ^ 64 \<le> t then None
                          else map_option (\<lambda>b. b + ticks_to_nanos t) (boot_time proc_fs)))))"

text \<open>The machine as Linux shows it.\<close>

definition linux_machine :: "(string \<Rightarrow> string option) \<Rightarrow> int option \<Rightarrow> (string \<Rightarrow> int option)
    \<Rightarrow> (int \<Rightarrow> (int \<times> string) option) \<Rightarrow> machine" where
  "linux_machine proc_fs mtime parse_time health =
     \<lparr>ma_boot = boot_time proc_fs, ma_mtime = mtime, ma_pid_exists = pid_exists proc_fs,
      ma_started = process_start_time proc_fs, ma_parse_time = parse_time, ma_health = health\<rparr>"

section \<open>Acquisition\<close>

datatype lock_error = LkSys errno | LkHeld lock_info bool | LkStartingRace | LkReleased

record lock =
  lk_path :: string
  lk_info :: lock_info
  lk_reclaim :: bool
  lk_released :: bool

datatype verdict = CreateFresh | HeldBy lock_info | Reclaim

definition lock_look :: "string \<Rightarrow> 'a disk_scheme \<Rightarrow> (lock_error + lock_info option \<times> lock_state) \<times> 'a disk_scheme" where
  "lock_look dir d =
     (case sys_plain d of
        (Some x, d1) \<Rightarrow> (Inl (LkSys x), d1)
      | (None, d1) \<Rightarrow> (case read_lock dir d1 of ((i, st, _), d2) \<Rightarrow> (Inr (i, st), d2)))"

definition lock_judge :: "machine \<Rightarrow> lock_info option \<times> lock_state \<Rightarrow> verdict" where
  "lock_judge ma f =
     (if snd f = LockAbsent then CreateFresh
      else case fst f of
             None \<Rightarrow> Reclaim
           | Some i \<Rightarrow> if check_liveness ma (Some i) = None then HeldBy i else Reclaim)"

definition lock_clear :: "string \<Rightarrow> 'a disk_scheme \<Rightarrow> lock_error option \<times> 'a disk_scheme" where
  "lock_clear dir d =
     (case sys_remove (join_path dir lock_file_name) d of
        (Some x, d1) \<Rightarrow> (if x = ENOENT then None else Some (LkSys x), d1)
      | (None, d1) \<Rightarrow> (None, d1))"

definition lock_create :: "string \<Rightarrow> 'a disk_scheme \<Rightarrow> lock_error option \<times> 'a disk_scheme" where
  "lock_create dir d =
     (case sys_create (join_path dir lock_file_name) d of
        (None, d1) \<Rightarrow> (None, d1)
      | (Some x, d1) \<Rightarrow>
          if x = EEXIST
          then (case read_lock dir d1 of
                  ((Some i, _, _), d2) \<Rightarrow> (Some (LkHeld i True), d2)
                | ((None, _, _), d2) \<Rightarrow> (Some LkStartingRace, d2))
          else (Some (LkSys x), d1))"

definition lock_fill :: "string \<Rightarrow> lock_info \<Rightarrow> 'a disk_scheme \<Rightarrow> lock_error option \<times> 'a disk_scheme" where
  "lock_fill dir i d =
     (let path = join_path dir lock_file_name in
      case sys_write path (lock_text i) d of
        (Some x, d1) \<Rightarrow> (Some (LkSys x), snd (sys_remove path (snd (sys_plain d1))))
      | (None, d1) \<Rightarrow>
          (case sys_plain d1 of
             (Some x, d2) \<Rightarrow> (Some (LkSys x), snd (sys_remove path (snd (sys_plain d2))))
           | (None, d2) \<Rightarrow> (None, d2)))"

definition new_lock_info :: "int \<Rightarrow> string \<Rightarrow> string \<Rightarrow> string \<Rightarrow> int \<Rightarrow> string \<Rightarrow> lock_info" where
  "new_lock_info process now version gid port inst =
     \<lparr>li_schema = schema_instance_lock, li_pid = process, li_start_time = now, li_version = version,
      li_game_id = gid, li_port = port, li_instance = inst\<rparr>"

text \<open>\<open>createLock\<close>. The advisory lock that follows cannot fail it.\<close>

definition create_lock :: "string \<Rightarrow> lock_info \<Rightarrow> bool \<Rightarrow> 'a disk_scheme \<Rightarrow> (lock_error + lock) \<times> 'a disk_scheme" where
  "create_lock dir i reclaimed d =
     (case lock_create dir d of
        (Some e, d1) \<Rightarrow> (Inl e, d1)
      | (None, d1) \<Rightarrow>
          (case lock_fill dir i d1 of
             (Some e, d2) \<Rightarrow> (Inl e, d2)
           | (None, d2) \<Rightarrow>
               (Inr \<lparr>lk_path = join_path dir lock_file_name, lk_info = i, lk_reclaim = reclaimed, lk_released = False\<rparr>, d2)))"

definition acquire_lock :: "machine \<Rightarrow> string \<Rightarrow> lock_info \<Rightarrow> 'a disk_scheme \<Rightarrow> (lock_error + lock) \<times> 'a disk_scheme" where
  "acquire_lock ma dir i d =
     (case lock_look dir d of
        (Inl e, d1) \<Rightarrow> (Inl e, d1)
      | (Inr f, d1) \<Rightarrow>
          (case lock_judge ma f of
             HeldBy j \<Rightarrow> (Inl (LkHeld j False), d1)
           | CreateFresh \<Rightarrow> create_lock dir i False d1
           | Reclaim \<Rightarrow>
               (case lock_clear dir d1 of
                  (Some e, d2) \<Rightarrow> (Inl e, d2)
                | (None, d2) \<Rightarrow> create_lock dir i True d2)))"

text \<open>
  \<open>SetPort\<close> and \<open>Release\<close>. The lock holds an open file: \<open>linked\<close> says whether the path still names it. The
  file is written in place, so its bytes change one after the other, and is then truncated.
\<close>

definition sys_overwrite :: "string \<Rightarrow> string \<Rightarrow> 'a disk_scheme \<Rightarrow> errno option \<times> 'a disk_scheme" where
  "sys_overwrite p data d =
     (case next_fault d of
        (Fails x n, d1) \<Rightarrow>
          (Some x, (case get (files d1) p of
                      None \<Rightarrow> d1
                    | Some old \<Rightarrow> set_files (put p (take n data @ drop (min n (length data)) old) (files d1)) d1))
      | (Runs, d1) \<Rightarrow>
          (None, (case get (files d1) p of
                    None \<Rightarrow> d1
                  | Some old \<Rightarrow> set_files (put p (data @ drop (length data) old) (files d1)) d1)))"

definition sys_cut :: "string \<Rightarrow> nat \<Rightarrow> 'a disk_scheme \<Rightarrow> errno option \<times> 'a disk_scheme" where
  "sys_cut p n d =
     (case next_fault d of
        (Fails x _, d1) \<Rightarrow> (Some x, d1)
      | (Runs, d1) \<Rightarrow>
          (None, (case get (files d1) p of None \<Rightarrow> d1 | Some old \<Rightarrow> set_files (put p (take n old) (files d1)) d1)))"

definition with_port :: "int \<Rightarrow> string \<Rightarrow> lock_info \<Rightarrow> lock_info" where
  "with_port port inst i = i\<lparr>li_port := port, li_instance := (if inst \<noteq> [] then inst else li_instance i)\<rparr>"

definition set_port :: "bool \<Rightarrow> int \<Rightarrow> string \<Rightarrow> lock \<Rightarrow> 'a disk_scheme \<Rightarrow> lock_error option \<times> lock \<times> 'a disk_scheme" where
  "set_port linked port inst l d =
     (if lk_released l then (Some LkReleased, l, d)
      else
        let l' = l\<lparr>lk_info := with_port port inst (lk_info l)\<rparr>; raw = lock_text (lk_info l') in
        case (if linked then sys_overwrite (lk_path l) raw d else sys_plain d) of
          (Some x, d1) \<Rightarrow> (Some (LkSys x), l', d1)
        | (None, d1) \<Rightarrow>
            (case (if linked then sys_cut (lk_path l) (length raw) d1 else sys_plain d1) of
               (Some x, d2) \<Rightarrow> (Some (LkSys x), l', d2)
             | (None, d2) \<Rightarrow>
                 (case sys_plain d2 of
                    (Some x, d3) \<Rightarrow> (Some (LkSys x), l', d3)
                  | (None, d3) \<Rightarrow> (None, l', d3))))"

definition release_lock :: "lock \<Rightarrow> 'a disk_scheme \<Rightarrow> lock_error option \<times> lock \<times> 'a disk_scheme" where
  "release_lock l d =
     (if lk_released l then (None, l, d)
      else case sys_remove (lk_path l) d of
             (Some x, d1) \<Rightarrow> (if x = ENOENT then None else Some (LkSys x), l\<lparr>lk_released := True\<rparr>, d1)
           | (None, d1) \<Rightarrow> (None, l\<lparr>lk_released := True\<rparr>, d1))"

section \<open>The lock file is read back\<close>

definition info_ok :: "lock_info \<Rightarrow> bool" where
  "info_ok i \<longleftrightarrow> int64_min \<le> li_pid i \<and> li_pid i \<le> int64_max \<and> 0 \<le> li_port i \<and> li_port i < 65536"

lemma decode_lock_text:
  assumes "info_ok i"
  shows "decode_document decode_lock_info (lock_text i) = Some i"
proof -
  have lit: "literals_ok (JObj (lock_members i))" by (simp add: lock_members_def)
  have p: "parse_int64 (fmt_int (li_pid i)) = Some (li_pid i)"
    by (rule parse_fmt_int) (use assms in \<open>simp_all add: info_ok_def\<close>)
  have q: "parse_digits (fmt_int (li_port i)) = Some (nat (li_port i))" "nat (li_port i) < 65536"
    using assms by (simp_all add: fmt_int_def info_ok_def nat_less_iff)
  have "decode_lock_info (map (\<lambda>(k, v). (k, as_read v, indented v 1)) (lock_members i)) = Some i"
    using p q assms
    by (cases "li_instance i = []")
      (simp_all add: lock_members_def decode_lock_info_def field_defs named_simps to_lower_ascii_def uint16_field_def
        as_uint16_def info_ok_def)
  then show ?thesis
    using decode_document_text [OF lit, of decode_lock_info] by (simp add: lock_text_def)
qed

text \<open>
  A live owner keeps the lock. When the file holds the identity of an instance that the machine shows
  as live (its process exists, started when it says, is not older than the boot, and answers the health
  request with its game and instance), an acquisition is refused with that identity and changes nothing.
\<close>
theorem live_owner_keeps_lock:
  assumes "get (files d) (join_path dir lock_file_name) = Some (lock_text i)" and "info_ok i"
    and "check_liveness ma (Some i) = None" and "faults d = []"
  shows "acquire_lock ma dir j d = (Inl (LkHeld i False), d)"
proof -
  have "sys_plain d = (None, d)" "sys_read (join_path dir lock_file_name) d = (Inr (lock_text i), d)"
    using assms(1,4) by (simp_all add: sys_plain_def sys_read_def next_fault_def)
  then have "lock_look dir d = (Inr (Some i, LockStale), d)"
    by (simp add: lock_look_def read_lock_def decode_lock_text [OF assms(2)])
  then show ?thesis
    using assms(3) by (simp add: acquire_lock_def lock_judge_def)
qed

text \<open>An unhindered acquisition leaves the caller's identity in the file.\<close>

lemma acquire_writes_identity:
  assumes "acquire_lock ma dir i d = (Inr l, d')"
  shows "get (files d') (join_path dir lock_file_name) = Some (lock_text i) \<and> lk_info l = i \<and> \<not> lk_released l"
proof -
  have fill: "get (files d2) (join_path dir lock_file_name) = Some (lock_text i)"
    if f: "lock_fill dir i d1 = (None, d2)" for d1 d2 :: "'a disk_scheme"
  proof -
    obtain d3 where c: "sys_write (join_path dir lock_file_name) (lock_text i) d1 = (None, d3)" "sys_plain d3 = (None, d2)"
      using f by (auto simp: lock_fill_def Let_def split: prod.splits option.splits)
    show ?thesis using sys_write_ok [OF c(1)] sys_plain_files [of d3] c(2) by simp
  qed
  obtain b d1 where "create_lock dir i b d1 = (Inr l, d')"
    using assms by (auto simp: acquire_lock_def split: prod.splits sum.splits verdict.splits option.splits)
  then show ?thesis
    by (auto simp: create_lock_def fill split: prod.splits option.splits)
qed

text \<open>
  The start time is exact while the ticks fit; after some 1067 days of uptime the product passes the
  largest \<open>int64\<close>, and a live owner then seems to have started at another time.
\<close>

lemma ticks_exact:
  assumes "int t * second \<le> int64_max"
  shows "ticks_to_nanos t = int t * (second div 100)"
proof -
  have b: "0 \<le> int t * second" "int t * second < 2 ^ 63" "int t < 2 ^ 63"
    using assms by (simp_all add: second_def int64_max_def)
  then have "wrap64 (wrap64 (int t) * second) = int t * second" by (simp add: wrap64_id)
  moreover have "\<bar>int t * second\<bar> div 100 = int t * (second div 100)" by (simp add: second_def)
  ultimately show ?thesis by (cases "t = 0") (simp_all add: ticks_to_nanos_def second_def)
qed

lemma ticks_overflow: "ticks_to_nanos 9223372037 < 0"
  by (simp add: ticks_to_nanos_def second_def wrap64_def)

section \<open>Several launchers\<close>

text \<open>
  A launcher goes through the phases of \<open>AcquireLock\<close>, called with port 0 as the launcher's main
  function does, then binds its port and completes the lock with \<open>SetPort\<close>, serves, and releases. No
  system call fails here. The file is named by its creator, because a launcher whose file another one
  has removed goes on writing to a file without a name. The platform is one that shows neither boot
  nor start times (\<open>lock_bsd.go\<close>).
\<close>

datatype lock_pc =
    Idle
  | Looked "lock_info option \<times> lock_state"
  | Clearing
  | Creating bool
  | Created bool
  | Holding bool
  | Serving bool
  | Refused lock_error
  | Gone

record launcher =
  la_info :: lock_info
  la_port :: int
  la_inst :: string
  la_pc :: lock_pc

record world =
  w_disk :: disk
  w_owner :: "nat option"
  w_procs :: "launcher list"

definition is_serving :: "launcher \<Rightarrow> bool" where
  "is_serving l = (case la_pc l of Serving _ \<Rightarrow> True | _ \<Rightarrow> False)"

definition is_running :: "launcher \<Rightarrow> bool" where
  "is_running l = (case la_pc l of Idle \<Rightarrow> False | Refused _ \<Rightarrow> False | Gone \<Rightarrow> False | _ \<Rightarrow> True)"

definition served_info :: "launcher \<Rightarrow> lock_info" where
  "served_info l = with_port (la_port l) (la_inst l) (la_info l)"

text \<open>The body of the health endpoint, \<open>server.Probe\<close>, without a release.\<close>

definition health_body :: "launcher \<Rightarrow> string" where
  "health_body l = encode (JObj
     [(''app'', JStr app_name), (''game_id'', JStr (li_game_id (la_info l))), (''instance'', JStr (la_inst l)),
      (''port'', JNum (fmt_int (la_port l)))])"

definition machine_of :: "world \<Rightarrow> machine" where
  "machine_of w =
     \<lparr>ma_boot = None, ma_mtime = None,
      ma_pid_exists = (\<lambda>p. list_ex (\<lambda>l. is_running l \<and> li_pid (la_info l) = p) (w_procs w)),
      ma_started = (\<lambda>p. None), ma_parse_time = (\<lambda>s. None),
      ma_health = (\<lambda>p. case find (\<lambda>l. is_serving l \<and> la_port l = p) (w_procs w) of
                          None \<Rightarrow> None
                        | Some l \<Rightarrow> Some (200, health_body l))\<rparr>"

definition at_pc :: "nat \<Rightarrow> lock_pc \<Rightarrow> world \<Rightarrow> world" where
  "at_pc i pc w = w\<lparr>w_procs := (w_procs w)[i := (w_procs w ! i)\<lparr>la_pc := pc\<rparr>]\<rparr>"

definition with_disk :: "disk \<Rightarrow> nat option \<Rightarrow> world \<Rightarrow> world" where
  "with_disk d ow w = w\<lparr>w_disk := d, w_owner := ow\<rparr>"

text \<open>One phase of the launcher \<open>i\<close>.\<close>

definition lock_step :: "string \<Rightarrow> nat \<Rightarrow> world \<Rightarrow> world option" where
  "lock_step dir i w =
     (if length (w_procs w) \<le> i then None
      else
        let l = w_procs w ! i; d = w_disk w; ow = w_owner w in
        case la_pc l of
          Idle \<Rightarrow>
            (case lock_look dir d of
               (Inl e, d1) \<Rightarrow> Some (at_pc i (Refused e) (with_disk d1 ow w))
             | (Inr f, d1) \<Rightarrow> Some (at_pc i (Looked f) (with_disk d1 ow w)))
        | Looked f \<Rightarrow>
            Some (at_pc i (case lock_judge (machine_of w) f of
                             HeldBy j \<Rightarrow> Refused (LkHeld j False)
                           | CreateFresh \<Rightarrow> Creating False
                           | Reclaim \<Rightarrow> Clearing) w)
        | Clearing \<Rightarrow>
            (case lock_clear dir d of
               (Some e, d1) \<Rightarrow> Some (at_pc i (Refused e) (with_disk d1 ow w))
             | (None, d1) \<Rightarrow> Some (at_pc i (Creating True) (with_disk d1 None w)))
        | Creating r \<Rightarrow>
            (case lock_create dir d of
               (Some e, d1) \<Rightarrow> Some (at_pc i (Refused e) (with_disk d1 ow w))
             | (None, d1) \<Rightarrow> Some (at_pc i (Created r) (with_disk d1 (Some i) w)))
        | Created r \<Rightarrow>
            (if ow \<noteq> Some i then Some (at_pc i (Holding r) w)
             else (case lock_fill dir (la_info l) d of
                     (Some e, d1) \<Rightarrow> Some (at_pc i (Refused e) (with_disk d1 None w))
                   | (None, d1) \<Rightarrow> Some (at_pc i (Holding r) (with_disk d1 ow w))))
        | Holding r \<Rightarrow>
            (if list_ex (\<lambda>k. is_serving k \<and> la_port k = la_port l) (w_procs w) then None
             else (case set_port (ow = Some i) (la_port l) (la_inst l)
                          \<lparr>lk_path = join_path dir lock_file_name, lk_info = la_info l, lk_reclaim = r, lk_released = False\<rparr> d of
                     (_, _, d1) \<Rightarrow> Some (at_pc i (Serving r) (with_disk d1 ow w))))
        | Serving r \<Rightarrow>
            (case release_lock \<lparr>lk_path = join_path dir lock_file_name, lk_info = served_info l, lk_reclaim = r,
                                lk_released = False\<rparr> d of
               (_, _, d1) \<Rightarrow> Some (at_pc i Gone (with_disk d1 None w)))
        | Refused e \<Rightarrow> None
        | Gone \<Rightarrow> None)"

text \<open>A launcher is starting from its first look to its bound port.\<close>

definition is_starting :: "launcher \<Rightarrow> bool" where
  "is_starting l = (is_running l \<and> \<not> is_serving l)"

definition holds_lock :: "launcher \<Rightarrow> bool" where
  "holds_lock l = (case la_pc l of Created _ \<Rightarrow> True | Holding _ \<Rightarrow> True | Serving _ \<Rightarrow> True | _ \<Rightarrow> False)"

text \<open>Starts that do not overlap: a launcher begins only when no other one is starting.\<close>

definition starts_apart :: "nat \<Rightarrow> world \<Rightarrow> bool" where
  "starts_apart i w = (la_pc (w_procs w ! i) \<noteq> Idle \<or> \<not> list_ex is_starting (w_procs w))"

inductive reaches :: "string \<Rightarrow> bool \<Rightarrow> world \<Rightarrow> world \<Rightarrow> bool" for dir apart w0 where
  here: "reaches dir apart w0 w0"
| further: "reaches dir apart w0 w \<Longrightarrow> lock_step dir i w = Some w' \<Longrightarrow> (apart \<longrightarrow> starts_apart i w)
    \<Longrightarrow> reaches dir apart w0 w'"

section \<open>Starts that do not overlap exclude each other\<close>

definition launcher_ok :: "launcher \<Rightarrow> bool" where
  "launcher_ok l \<longleftrightarrow> info_ok (la_info l) \<and> 0 < li_pid (la_info l) \<and> 0 < la_port l \<and> la_port l < 65536
     \<and> la_inst l \<noteq> [] \<and> length (health_body l) \<le> 4096"

text \<open>Before any launcher has started; a file may be left from an earlier time.\<close>

definition fresh_world :: "world \<Rightarrow> bool" where
  "fresh_world w \<longleftrightarrow> faults (w_disk w) = [] \<and> w_owner w = None
     \<and> list_all (\<lambda>l. launcher_ok l \<and> la_pc l = Idle) (w_procs w)"

definition past_judging :: "launcher \<Rightarrow> bool" where
  "past_judging l = (case la_pc l of Clearing \<Rightarrow> True | Creating _ \<Rightarrow> True | Created _ \<Rightarrow> True | Holding _ \<Rightarrow> True | _ \<Rightarrow> False)"

definition lock_inv :: "string \<Rightarrow> world \<Rightarrow> bool" where
  "lock_inv dir w \<longleftrightarrow> faults (w_disk w) = [] \<and> (\<forall>i < length (w_procs w). launcher_ok (w_procs w ! i))
     \<and> (\<forall>i < length (w_procs w). \<forall>j < length (w_procs w).
          is_starting (w_procs w ! i) \<longrightarrow> is_starting (w_procs w ! j) \<longrightarrow> i = j)
     \<and> (\<forall>i < length (w_procs w). holds_lock (w_procs w ! i)
          \<longrightarrow> w_owner w = Some i \<and> get (files (w_disk w)) (join_path dir lock_file_name) \<noteq> None)
     \<and> (\<forall>i < length (w_procs w). is_serving (w_procs w ! i)
          \<longrightarrow> get (files (w_disk w)) (join_path dir lock_file_name) = Some (lock_text (served_info (w_procs w ! i))))
     \<and> (\<forall>i < length (w_procs w). \<forall>j < length (w_procs w).
          past_judging (w_procs w ! i) \<longrightarrow> \<not> is_serving (w_procs w ! j))
     \<and> (\<forall>i < length (w_procs w). \<forall>j < length (w_procs w). \<forall>f.
          la_pc (w_procs w ! i) = Looked f \<longrightarrow> is_serving (w_procs w ! j)
          \<longrightarrow> f = (Some (served_info (w_procs w ! j)), LockStale))"

lemmas pc_defs = is_serving_def is_running_def is_starting_def holds_lock_def past_judging_def

lemma fresh_world_inv: "fresh_world w \<Longrightarrow> lock_inv dir w"
  by (auto simp: fresh_world_def lock_inv_def list_all_iff pc_defs dest!: nth_mem)

lemma served_info_ok: "launcher_ok l \<Longrightarrow> info_ok (served_info l)"
  by (simp add: launcher_ok_def info_ok_def served_info_def with_port_def)

lemma decode_health_body:
  assumes "launcher_ok l"
  shows "decode_document decode_health (take 4096 (health_body l))
    = Some \<lparr>hr_app = app_name, hr_game_id = li_game_id (la_info l), hr_instance = la_inst l, hr_release = [], hr_port = la_port l\<rparr>"
proof -
  let ?ms = "[(''app'', JStr app_name), (''game_id'', JStr (li_game_id (la_info l))), (''instance'', JStr (la_inst l)),
      (''port'', JNum (fmt_int (la_port l)))]"
  have c: "canonical (JObj ?ms)" by (simp add: keys_sorted_def)
  have q: "parse_digits (fmt_int (la_port l)) = Some (nat (la_port l))" "nat (la_port l) < 65536"
    using assms by (simp_all add: fmt_int_def launcher_ok_def nat_less_iff)
  have "take 4096 (health_body l) = health_body l"
    using assms by (simp add: launcher_ok_def)
  then have "take 4096 (health_body l) = encode (JObj ?ms)"
    by (simp only: health_body_def)
  then have "decode_document decode_health (take 4096 (health_body l)) = decode_health (map (\<lambda>(k, v). (k, v, encode v)) ?ms)"
    by (simp only: decode_document_encode [OF c, of decode_health])
  then show ?thesis
    using q assms
    by (simp add: decode_health_def field_defs named_simps to_lower_ascii_def uint16_field_def as_uint16_def launcher_ok_def)
qed

text \<open>The one instance that serves is live on its machine.\<close>

lemma serving_is_live:
  assumes "j < length (w_procs w)" and "is_serving (w_procs w ! j)" and "launcher_ok (w_procs w ! j)"
    and "\<And>i. i < length (w_procs w) \<Longrightarrow> is_serving (w_procs w ! i) \<Longrightarrow> i = j"
  shows "check_liveness (machine_of w) (Some (served_info (w_procs w ! j))) = None"
proof -
  let ?l = "w_procs w ! j"
  have "find (\<lambda>l. is_serving l \<and> la_port l = la_port ?l) (w_procs w) = Some ?l"
  proof (cases "find (\<lambda>l. is_serving l \<and> la_port l = la_port ?l) (w_procs w)")
    case None
    then show ?thesis using assms(1,2) by (auto simp: find_None_iff dest: nth_mem)
  next
    case (Some x)
    then obtain i where "i < length (w_procs w)" "w_procs w ! i = x" "is_serving x"
      using find_Some_in [OF Some] by (auto simp: in_set_conv_nth)
    with Some assms(4) [of i] show ?thesis by simp
  qed
  then have "fetch_health (machine_of w) (la_port ?l)
      = Some \<lparr>hr_app = app_name, hr_game_id = li_game_id (la_info ?l), hr_instance = la_inst ?l, hr_release = [], hr_port = la_port ?l\<rparr>"
    by (simp add: fetch_health_def machine_of_def decode_health_body [OF assms(3)])
  moreover have "is_running ?l" using assms(2) by (simp add: pc_defs split: lock_pc.splits)
  then have "list_ex (\<lambda>l. is_running l \<and> li_pid (la_info l) = li_pid (la_info ?l)) (w_procs w)"
    using assms(1) by (auto simp: list_ex_iff intro!: bexI [of _ ?l])
  ultimately show ?thesis
    using assms(3) by (simp add: check_liveness_def machine_of_def served_info_def with_port_def launcher_ok_def)
qed

text \<open>The phases on a disk where nothing fails.\<close>

definition seen_lock :: "string \<Rightarrow> disk \<Rightarrow> lock_info option \<times> lock_state" where
  "seen_lock dir d =
     (case get (files d) (join_path dir lock_file_name) of
        None \<Rightarrow> (None, LockAbsent)
      | Some raw \<Rightarrow> (decode_document decode_lock_info raw, LockStale))"

lemma quiet_look: "faults d = [] \<Longrightarrow> lock_look dir d = (Inr (seen_lock dir d), d)"
  by (simp add: lock_look_def read_lock_def seen_lock_def sys_plain_def sys_read_def next_fault_def split: option.splits)

lemma quiet_clear:
  "faults d = [] \<Longrightarrow> \<exists>d'. lock_clear dir d = (None, d') \<and> faults d' = []
     \<and> get (files d') (join_path dir lock_file_name) = None"
  by (auto simp: lock_clear_def quiet_all)

lemma quiet_create:
  "faults d = [] \<Longrightarrow>
     (case lock_create dir d of
        (None, d') \<Rightarrow> faults d' = [] \<and> get (files d') (join_path dir lock_file_name) = Some []
      | (Some _, d') \<Rightarrow> d' = d)"
  by (simp add: lock_create_def read_lock_def quiet_all sys_read_def next_fault_def split: option.splits)

lemma quiet_fill:
  "faults d = [] \<Longrightarrow> \<exists>d'. lock_fill dir i d = (None, d') \<and> faults d' = []
     \<and> get (files d') (join_path dir lock_file_name) = Some (lock_text i)"
  by (simp add: lock_fill_def quiet_all quiet_sys_plain Let_def files_write_prefixes)

lemma quiet_set_port:
  assumes "faults d = []" and "get (files d) p \<noteq> None"
  shows "\<exists>e l' d'. set_port True pt inst \<lparr>lk_path = p, lk_info = i, lk_reclaim = r, lk_released = False\<rparr> d = (e, l', d')
     \<and> faults d' = [] \<and> get (files d') p = Some (lock_text (with_port pt inst i))"
  using assms by (auto simp: set_port_def sys_overwrite_def sys_cut_def next_fault_def quiet_sys_plain Let_def)

lemma quiet_release:
  "faults d = [] \<Longrightarrow> \<exists>e l' d'. release_lock \<lparr>lk_path = p, lk_info = i, lk_reclaim = r, lk_released = False\<rparr> d = (e, l', d')
     \<and> faults d' = []"
  by (auto simp: release_lock_def quiet_all)

lemma at_pc_simps [simp]:
  "w_disk (at_pc i pc w) = w_disk w" "w_owner (at_pc i pc w) = w_owner w"
  "length (w_procs (at_pc i pc w)) = length (w_procs w)"
  "i < length (w_procs w) \<Longrightarrow> w_procs (at_pc i pc w) ! j = (if i = j then (w_procs w ! j)\<lparr>la_pc := pc\<rparr> else w_procs w ! j)"
  "w_disk (with_disk d ow w) = d" "w_owner (with_disk d ow w) = ow" "w_procs (with_disk d ow w) = w_procs w"
  by (simp_all add: at_pc_def with_disk_def)

lemma launcher_ok_pc [simp]:
  "launcher_ok (l\<lparr>la_pc := pc\<rparr>) = launcher_ok l" "served_info (l\<lparr>la_pc := pc\<rparr>) = served_info l"
  by (simp_all add: launcher_ok_def served_info_def health_body_def)

lemma pc_upd [simp]:
  "is_serving (l\<lparr>la_pc := pc\<rparr>) = (case pc of Serving _ \<Rightarrow> True | _ \<Rightarrow> False)"
  "is_starting (l\<lparr>la_pc := pc\<rparr>) = (case pc of Idle \<Rightarrow> False | Refused _ \<Rightarrow> False | Gone \<Rightarrow> False | Serving _ \<Rightarrow> False | _ \<Rightarrow> True)"
  "holds_lock (l\<lparr>la_pc := pc\<rparr>) = (case pc of Created _ \<Rightarrow> True | Holding _ \<Rightarrow> True | Serving _ \<Rightarrow> True | _ \<Rightarrow> False)"
  "past_judging (l\<lparr>la_pc := pc\<rparr>) = (case pc of Clearing \<Rightarrow> True | Creating _ \<Rightarrow> True | Created _ \<Rightarrow> True | Holding _ \<Rightarrow> True | _ \<Rightarrow> False)"
  by (simp_all add: pc_defs split: lock_pc.splits)

lemma pc_relations:
  "is_serving l \<Longrightarrow> holds_lock l" "past_judging l \<Longrightarrow> is_starting l" "la_pc l = Looked f \<Longrightarrow> is_starting l"
  "holds_lock l \<Longrightarrow> \<not> is_serving l \<Longrightarrow> past_judging l" "past_judging l \<Longrightarrow> \<not> is_serving l"
  by (simp_all add: pc_defs split: lock_pc.splits)

lemma lock_invD:
  assumes "lock_inv dir w"
  shows "faults (w_disk w) = []"
    "i < length (w_procs w) \<Longrightarrow> launcher_ok (w_procs w ! i)"
    "i < length (w_procs w) \<Longrightarrow> j < length (w_procs w) \<Longrightarrow> is_starting (w_procs w ! i) \<Longrightarrow> is_starting (w_procs w ! j) \<Longrightarrow> i = j"
    "i < length (w_procs w) \<Longrightarrow> holds_lock (w_procs w ! i) \<Longrightarrow> w_owner w = Some i"
    "i < length (w_procs w) \<Longrightarrow> holds_lock (w_procs w ! i) \<Longrightarrow> get (files (w_disk w)) (join_path dir lock_file_name) \<noteq> None"
    "i < length (w_procs w) \<Longrightarrow> is_serving (w_procs w ! i)
       \<Longrightarrow> get (files (w_disk w)) (join_path dir lock_file_name) = Some (lock_text (served_info (w_procs w ! i)))"
    "i < length (w_procs w) \<Longrightarrow> j < length (w_procs w) \<Longrightarrow> past_judging (w_procs w ! i) \<Longrightarrow> \<not> is_serving (w_procs w ! j)"
    "i < length (w_procs w) \<Longrightarrow> j < length (w_procs w) \<Longrightarrow> la_pc (w_procs w ! i) = Looked f \<Longrightarrow> is_serving (w_procs w ! j)
       \<Longrightarrow> f = (Some (served_info (w_procs w ! j)), LockStale)"
  using assms unfolding lock_inv_def by blast+

text \<open>What a serving instance left in the file is what a launcher sees.\<close>

lemma seen_serving:
  assumes "lock_inv dir w" and "j < length (w_procs w)" and "is_serving (w_procs w ! j)"
  shows "seen_lock dir (w_disk w) = (Some (served_info (w_procs w ! j)), LockStale)"
  using lock_invD(6) [OF assms] decode_lock_text [OF served_info_ok [OF lock_invD(2) [OF assms(1,2)]]]
  by (simp add: seen_lock_def)

text \<open>Moving one launcher: the conditions on its new place.\<close>

lemma lock_inv_move:
  assumes inv: "lock_inv dir w" and i: "i < length (w_procs w)" and q: "faults d = []"
    and start: "is_starting ((w_procs w ! i)\<lparr>la_pc := pc\<rparr>)
      \<Longrightarrow> is_starting (w_procs w ! i) \<or> (\<forall>j < length (w_procs w). \<not> is_starting (w_procs w ! j))"
    and hold: "holds_lock ((w_procs w ! i)\<lparr>la_pc := pc\<rparr>) \<Longrightarrow> ow = Some i \<and> get (files d) (join_path dir lock_file_name) \<noteq> None"
    and serve: "is_serving ((w_procs w ! i)\<lparr>la_pc := pc\<rparr>)
      \<Longrightarrow> get (files d) (join_path dir lock_file_name) = Some (lock_text (served_info (w_procs w ! i))) \<and> is_starting (w_procs w ! i)"
    and others: "(ow = w_owner w \<and> (get (files d) (join_path dir lock_file_name) = get (files (w_disk w)) (join_path dir lock_file_name)))
      \<or> (\<forall>j < length (w_procs w). j \<noteq> i \<longrightarrow> \<not> holds_lock (w_procs w ! j))"
    and judged: "past_judging ((w_procs w ! i)\<lparr>la_pc := pc\<rparr>) \<Longrightarrow> \<forall>j < length (w_procs w). j \<noteq> i \<longrightarrow> \<not> is_serving (w_procs w ! j)"
    and looked: "\<And>f j. pc = Looked f \<Longrightarrow> j < length (w_procs w) \<Longrightarrow> j \<noteq> i \<Longrightarrow> is_serving (w_procs w ! j)
      \<Longrightarrow> f = (Some (served_info (w_procs w ! j)), LockStale)"
  shows "lock_inv dir (at_pc i pc (with_disk d ow w))"
proof -
  let ?w = "at_pc i pc (with_disk d ow w)" and ?n = "length (w_procs w)"
  note D = lock_invD [OF inv]
  have p: "w_procs ?w ! j = (if i = j then (w_procs w ! j)\<lparr>la_pc := pc\<rparr> else w_procs w ! j)" for j
    using i by simp
  have "is_starting (w_procs ?w ! a) \<longrightarrow> is_starting (w_procs ?w ! b) \<longrightarrow> a = b" if "a < ?n" "b < ?n" for a b
    unfolding p using D(3) start i that by (auto simp del: pc_upd)
  moreover have "holds_lock (w_procs ?w ! a) \<longrightarrow> ow = Some a \<and> get (files d) (join_path dir lock_file_name) \<noteq> None" if "a < ?n" for a
    unfolding p using D(4,5) hold others that by (auto simp del: pc_upd)
  moreover have "is_serving (w_procs ?w ! a) \<longrightarrow>
      get (files d) (join_path dir lock_file_name) = Some (lock_text (served_info (w_procs ?w ! a)))" if "a < ?n" for a
    unfolding p using D(6) serve others that pc_relations(1) by (auto simp del: pc_upd)
  moreover have "past_judging (w_procs ?w ! a) \<longrightarrow> \<not> is_serving (w_procs ?w ! b)" if "a < ?n" "b < ?n" for a b
    unfolding p using D(3,7) judged serve that pc_relations(2,5) i by (auto simp del: pc_upd)
  moreover have "la_pc (w_procs ?w ! a) = Looked f \<longrightarrow> is_serving (w_procs ?w ! b)
      \<longrightarrow> f = (Some (served_info (w_procs ?w ! b)), LockStale)" if "a < ?n" "b < ?n" for a b f
  proof (intro impI)
    assume l: "la_pc (w_procs ?w ! a) = Looked f" and s: "is_serving (w_procs ?w ! b)"
    show "f = (Some (served_info (w_procs ?w ! b)), LockStale)"
    proof (cases "a = i")
      case True
      then have "pc = Looked f" using l p [of a] by simp
      moreover from this have "b \<noteq> i" using s p [of b] by auto
      ultimately show ?thesis using looked [of f b] s that(2) p [of b] by simp
    next
      case False
      then have la: "la_pc (w_procs w ! a) = Looked f" using l p [of a] by simp
      have "b \<noteq> i"
        using D(3) [OF that(1) i pc_relations(3) [OF la]] serve False s p [of b] by (metis (full_types))
      then show ?thesis using D(8) [OF that la] s p [of b] by simp
    qed
  qed
  ultimately show ?thesis
    unfolding lock_inv_def using q D(2) i by simp
qed

lemma lock_inv_step:
  assumes inv: "lock_inv dir w" and step: "lock_step dir i w = Some w'" and apart: "starts_apart i w"
  shows "lock_inv dir w'"
proof -
  note D = lock_invD [OF inv]
  have i: "i < length (w_procs w)" using step by (auto simp: lock_step_def split: if_splits)
  define l where "l = w_procs w ! i"
  have own: "is_starting l \<Longrightarrow> j < length (w_procs w) \<Longrightarrow> j \<noteq> i \<Longrightarrow> \<not> is_starting (w_procs w ! j)" for j
    using D(3) i unfolding l_def by blast
  have alone: "j < length (w_procs w) \<Longrightarrow> j \<noteq> i \<Longrightarrow> \<not> holds_lock (w_procs w ! j)" if "past_judging l" for j
    using own D(7) [OF i] that pc_relations(2,4) unfolding l_def by blast
  have same: "with_disk (w_disk w) (w_owner w) w = w" by (simp add: with_disk_def)
  show ?thesis
  proof (cases "la_pc l")
    case Idle
    have w': "w' = at_pc i (Looked (seen_lock dir (w_disk w))) (with_disk (w_disk w) (w_owner w) w)"
      using step i quiet_look [OF D(1)] Idle by (simp add: lock_step_def l_def Let_def)
    have "\<not> list_ex is_starting (w_procs w)" using apart Idle by (simp add: starts_apart_def l_def)
    then have "\<forall>j < length (w_procs w). \<not> is_starting (w_procs w ! j)" by (auto simp: list_ex_iff)
    then show ?thesis
      unfolding w' by (intro lock_inv_move [OF inv i D(1)]) (auto simp: seen_serving [OF inv])
  next
    case (Looked f)
    define pc where "pc = (case lock_judge (machine_of w) f of
        HeldBy j \<Rightarrow> Refused (LkHeld j False) | CreateFresh \<Rightarrow> Creating False | Reclaim \<Rightarrow> Clearing)"
    have w': "w' = at_pc i pc (with_disk (w_disk w) (w_owner w) w)"
      using step i Looked by (simp add: lock_step_def l_def Let_def pc_def same)
    have st: "is_starting l" by (rule pc_relations(3) [OF Looked])
    have free: "\<not> is_serving (w_procs w ! j)" if j: "j < length (w_procs w)" "j \<noteq> i" and p: "past_judging (l\<lparr>la_pc := pc\<rparr>)" for j
    proof
      assume s: "is_serving (w_procs w ! j)"
      have f: "f = (Some (served_info (w_procs w ! j)), LockStale)"
        by (rule D(8) [OF i j(1) _ s]) (use Looked in \<open>simp add: l_def\<close>)
      have "check_liveness (machine_of w) (Some (served_info (w_procs w ! j))) = None"
      proof (rule serving_is_live [OF j(1) s D(2) [OF j(1)]])
        fix k assume "k < length (w_procs w)" "is_serving (w_procs w ! k)"
        then show "k = j" using D(4) [of k] D(4) [OF j(1)] s pc_relations(1) by auto
      qed
      with f p show False by (simp add: pc_def lock_judge_def)
    qed
    show ?thesis
      unfolding w' using st free
      by (intro lock_inv_move [OF inv i D(1)]) (auto simp: pc_def l_def split: verdict.splits)
  next
    case Clearing
    obtain d' where c: "lock_clear dir (w_disk w) = (None, d')" "faults d' = []" using quiet_clear [OF D(1)] by blast
    have w': "w' = at_pc i (Creating True) (with_disk d' None w)"
      using step i c Clearing by (simp add: lock_step_def l_def Let_def)
    have pj: "past_judging l" using Clearing by (simp add: past_judging_def)
    show ?thesis
      unfolding w' using pc_relations(2) [OF pj] alone [OF pj] D(7) [OF i _ pj [unfolded l_def]]
      by (intro lock_inv_move [OF inv i c(2)]) (auto simp: l_def)
  next
    case (Creating r)
    have pj: "past_judging l" using Creating by (simp add: past_judging_def)
    obtain e d' where c: "lock_create dir (w_disk w) = (e, d')" by fastforce
    show ?thesis
    proof (cases e)
      case None
      then have q: "faults d' = []" "get (files d') (join_path dir lock_file_name) = Some []"
        using quiet_create [OF D(1), of dir] c by simp_all
      have w': "w' = at_pc i (Created r) (with_disk d' (Some i) w)"
        using step i c Creating None by (simp add: lock_step_def l_def Let_def)
      show ?thesis
        unfolding w' using pc_relations(2) [OF pj] alone [OF pj] D(7) [OF i _ pj [unfolded l_def]] q(2)
        by (intro lock_inv_move [OF inv i q(1)]) (auto simp: l_def)
    next
      case (Some x)
      then have q: "d' = w_disk w" using quiet_create [OF D(1), of dir] c by simp
      have w': "w' = at_pc i (Refused x) (with_disk (w_disk w) (w_owner w) w)"
        using step i c Creating Some q by (simp add: lock_step_def l_def Let_def)
      show ?thesis
        unfolding w' by (intro lock_inv_move [OF inv i D(1)]) auto
    qed
  next
    case (Created r)
    have pj: "past_judging l" and h: "holds_lock l" using Created by (simp_all add: past_judging_def holds_lock_def)
    have ow: "w_owner w = Some i" using D(4) [OF i] h by (simp add: l_def)
    obtain d' where c: "lock_fill dir (la_info l) (w_disk w) = (None, d')" "faults d' = []"
        "get (files d') (join_path dir lock_file_name) = Some (lock_text (la_info l))"
      using quiet_fill [OF D(1)] by blast
    have w': "w' = at_pc i (Holding r) (with_disk d' (w_owner w) w)"
      using step i c Created ow by (simp add: lock_step_def l_def Let_def)
    show ?thesis
      unfolding w' using pc_relations(2) [OF pj] alone [OF pj] D(7) [OF i _ pj [unfolded l_def]] c(3) ow
      by (intro lock_inv_move [OF inv i c(2)]) (auto simp: l_def)
  next
    case (Holding r)
    have pj: "past_judging l" and h: "holds_lock l" using Holding by (simp_all add: past_judging_def holds_lock_def)
    have ow: "w_owner w = Some i" using D(4) [OF i] h by (simp add: l_def)
    have ex: "get (files (w_disk w)) (join_path dir lock_file_name) \<noteq> None" using D(5) [OF i] h by (simp add: l_def)
    obtain e l' d' where c: "set_port True (la_port l) (la_inst l)
          \<lparr>lk_path = join_path dir lock_file_name, lk_info = la_info l, lk_reclaim = r, lk_released = False\<rparr> (w_disk w) = (e, l', d')"
        "faults d' = []" "get (files d') (join_path dir lock_file_name) = Some (lock_text (served_info l))"
      using quiet_set_port [OF D(1) ex, of "la_port l" "la_inst l" "la_info l" r] unfolding served_info_def by blast
    have w': "w' = at_pc i (Serving r) (with_disk d' (w_owner w) w)"
      using step i c Holding ow by (simp add: lock_step_def l_def Let_def split: if_splits)
    show ?thesis
      unfolding w' using pc_relations(2) [OF pj] alone [OF pj] c(3) ow
      by (intro lock_inv_move [OF inv i c(2)]) (auto simp: l_def)
  next
    case (Serving r)
    have h: "holds_lock l" using Serving by (simp add: holds_lock_def)
    have ow: "w_owner w = Some i" using D(4) [OF i] h by (simp add: l_def)
    obtain e l' d' where c: "release_lock \<lparr>lk_path = join_path dir lock_file_name, lk_info = served_info l, lk_reclaim = r,
        lk_released = False\<rparr> (w_disk w) = (e, l', d')" "faults d' = []"
      using quiet_release [OF D(1)] by blast
    have w': "w' = at_pc i Gone (with_disk d' None w)"
      using step i c Serving by (simp add: lock_step_def l_def Let_def)
    have "\<not> holds_lock (w_procs w ! j)" if "j < length (w_procs w)" "j \<noteq> i" for j
      using D(4) [OF that(1)] ow that(2) by auto
    then show ?thesis
      unfolding w' by (intro lock_inv_move [OF inv i c(2)]) auto
  qed (use step i in \<open>simp_all add: lock_step_def l_def Let_def\<close>)
qed

lemma reaches_inv: "reaches dir True w0 w \<Longrightarrow> lock_inv dir w0 \<Longrightarrow> lock_inv dir w"
  by (induction rule: reaches.induct) (auto intro: lock_inv_step)


section \<open>Starts that overlap\<close>

text \<open>What one phase does, when nothing fails: the launcher moves on, and the file is as said.\<close>

definition moves :: "string \<Rightarrow> nat \<Rightarrow> lock_pc \<Rightarrow> string option \<Rightarrow> nat option \<Rightarrow> world \<Rightarrow> world \<Rightarrow> bool" where
  "moves dir i pc F ow w w' \<longleftrightarrow> lock_step dir i w = Some w'
     \<and> w_procs w' = (w_procs w)[i := (w_procs w ! i)\<lparr>la_pc := pc\<rparr>] \<and> faults (w_disk w') = []
     \<and> get (files (w_disk w')) (join_path dir lock_file_name) = F \<and> w_owner w' = ow"

lemma phase_moves:
  assumes q: "faults (w_disk w) = []" and i: "i < length (w_procs w)"
  shows "la_pc (w_procs w ! i) = Idle
      \<Longrightarrow> \<exists>w'. moves dir i (Looked (seen_lock dir (w_disk w))) (get (files (w_disk w)) (join_path dir lock_file_name)) (w_owner w) w w'"
    "la_pc (w_procs w ! i) = Looked f \<Longrightarrow> lock_judge (machine_of w) f = CreateFresh
      \<Longrightarrow> \<exists>w'. moves dir i (Creating False) (get (files (w_disk w)) (join_path dir lock_file_name)) (w_owner w) w w'"
    "la_pc (w_procs w ! i) = Looked f \<Longrightarrow> lock_judge (machine_of w) f = Reclaim
      \<Longrightarrow> \<exists>w'. moves dir i Clearing (get (files (w_disk w)) (join_path dir lock_file_name)) (w_owner w) w w'"
    "la_pc (w_procs w ! i) = Clearing \<Longrightarrow> \<exists>w'. moves dir i (Creating True) None None w w'"
    "la_pc (w_procs w ! i) = Creating r \<Longrightarrow> get (files (w_disk w)) (join_path dir lock_file_name) = None
      \<Longrightarrow> \<exists>w'. moves dir i (Created r) (Some []) (Some i) w w'"
    "la_pc (w_procs w ! i) = Created r \<Longrightarrow> w_owner w = Some i
      \<Longrightarrow> \<exists>w'. moves dir i (Holding r) (Some (lock_text (la_info (w_procs w ! i)))) (Some i) w w'"
    "la_pc (w_procs w ! i) = Holding r \<Longrightarrow> list_all (\<lambda>k. is_serving k \<longrightarrow> la_port k \<noteq> la_port (w_procs w ! i)) (w_procs w)
      \<Longrightarrow> get (files (w_disk w)) (join_path dir lock_file_name) \<noteq> None
      \<Longrightarrow> \<exists>w' F. moves dir i (Serving r) F (w_owner w) w w' \<and> F \<noteq> None"
proof -
  let ?P = "join_path dir lock_file_name"
  show "\<exists>w'. moves dir i (Looked (seen_lock dir (w_disk w))) (get (files (w_disk w)) ?P) (w_owner w) w w'"
    if "la_pc (w_procs w ! i) = Idle"
    using that i q by (simp add: moves_def lock_step_def quiet_look at_pc_def with_disk_def)
  show "\<exists>w'. moves dir i (Creating False) (get (files (w_disk w)) ?P) (w_owner w) w w'"
    if "la_pc (w_procs w ! i) = Looked f" "lock_judge (machine_of w) f = CreateFresh"
    using that i q by (simp add: moves_def lock_step_def at_pc_def Let_def)
  show "\<exists>w'. moves dir i Clearing (get (files (w_disk w)) ?P) (w_owner w) w w'"
    if "la_pc (w_procs w ! i) = Looked f" "lock_judge (machine_of w) f = Reclaim"
    using that i q by (simp add: moves_def lock_step_def at_pc_def Let_def)
  show "\<exists>w'. moves dir i (Creating True) None None w w'" if "la_pc (w_procs w ! i) = Clearing"
    using that i quiet_clear [OF q, of dir] by (auto simp: moves_def lock_step_def at_pc_def with_disk_def Let_def)
  show "\<exists>w'. moves dir i (Created r) (Some []) (Some i) w w'"
    if "la_pc (w_procs w ! i) = Creating r" "get (files (w_disk w)) ?P = None"
    using that i q by (simp add: moves_def lock_step_def at_pc_def with_disk_def Let_def lock_create_def quiet_all)
  show "\<exists>w'. moves dir i (Holding r) (Some (lock_text (la_info (w_procs w ! i)))) (Some i) w w'"
    if "la_pc (w_procs w ! i) = Created r" "w_owner w = Some i"
    using that i quiet_fill [OF q, of dir "la_info (w_procs w ! i)"]
    by (auto simp: moves_def lock_step_def at_pc_def with_disk_def Let_def)
  show "\<exists>w' F. moves dir i (Serving r) F (w_owner w) w w' \<and> F \<noteq> None"
    if h: "la_pc (w_procs w ! i) = Holding r"
      and pt: "list_all (\<lambda>k. is_serving k \<longrightarrow> la_port k \<noteq> la_port (w_procs w ! i)) (w_procs w)"
      and ex: "get (files (w_disk w)) ?P \<noteq> None"
  proof -
    let ?l = "w_procs w ! i"
    let ?lk = "\<lparr>lk_path = ?P, lk_info = la_info ?l, lk_reclaim = r, lk_released = False\<rparr>"
    have np: "\<not> list_ex (\<lambda>k. is_serving k \<and> la_port k = la_port ?l) (w_procs w)"
      using pt by (auto simp: list_all_iff list_ex_iff)
    obtain e l' d' where c: "set_port (w_owner w = Some i) (la_port ?l) (la_inst ?l) ?lk (w_disk w) = (e, l', d')"
        "faults d' = []" "get (files d') ?P \<noteq> None"
    proof (cases "w_owner w = Some i")
      case True
      then show ?thesis
        using that quiet_set_port [OF q ex, of "la_port ?l" "la_inst ?l" "la_info ?l" r] by fastforce
    next
      case False
      then show ?thesis using that ex q by (simp add: set_port_def quiet_sys_plain Let_def)
    qed
    then show ?thesis
      using h i np by (auto simp: moves_def lock_step_def at_pc_def with_disk_def Let_def)
  qed
qed

lemma moves_reaches: "reaches dir False w0 w \<Longrightarrow> moves dir i pc F ow w w' \<Longrightarrow> reaches dir False w0 w'"
  by (auto simp: moves_def intro: further)

text \<open>
  C33: Two launchers that start together can both end up serving. The lock is created with port 0 and
  completed only after the port has been allocated, which can wait a minute for the player's answer; in
  between its owner is judged not live, so a second launcher removes the lock and takes the role as well.
\<close>
theorem overlapping_starts_share_lock:
  assumes "fresh_world w0" and "w_procs w0 = [a, b]" and "get (files (w_disk w0)) (join_path dir lock_file_name) = None"
    and "li_port (la_info a) = 0" and "la_port a \<noteq> la_port b"
  shows "\<exists>w. reaches dir False w0 w \<and> list_all is_serving (w_procs w) \<and> length (w_procs w) = 2"
proof -
  let ?P = "join_path dir lock_file_name"
  have ok: "launcher_ok a" "la_pc a = Idle" "la_pc b = Idle" "faults (w_disk w0) = []"
    using assms(1,2) by (simp_all add: fresh_world_def)
  have ia: "info_ok (la_info a)" using ok(1) by (simp add: launcher_ok_def)
  obtain w1 where m1: "moves dir 0 (Looked (None, LockAbsent)) None (w_owner w0) w0 w1"
    using phase_moves(1) [OF ok(4), of 0 dir] assms(2,3) ok(2) by (auto simp: seen_lock_def)
  obtain w2 where m2: "moves dir 0 (Creating False) None (w_owner w1) w1 w2"
    using phase_moves(2) [of w1 0 "(None, LockAbsent)" dir] m1 assms(2) by (auto simp: moves_def lock_judge_def)
  obtain w3 where m3: "moves dir 0 (Created False) (Some []) (Some 0) w2 w3"
    using phase_moves(5) [of w2 0 False dir] m1 m2 assms(2) by (auto simp: moves_def)
  obtain w4 where m4: "moves dir 0 (Holding False) (Some (lock_text (la_info a))) (Some 0) w3 w4"
    using phase_moves(6) [of w3 0 False dir] m1 m2 m3 assms(2) by (auto simp: moves_def)
  have p4: "w_procs w4 = [a\<lparr>la_pc := Holding False\<rparr>, b]" "faults (w_disk w4) = []"
      "get (files (w_disk w4)) ?P = Some (lock_text (la_info a))"
    using m1 m2 m3 m4 assms(2) by (simp_all add: moves_def)
  obtain w5 where m5: "moves dir 1 (Looked (Some (la_info a), LockStale)) (get (files (w_disk w4)) ?P) (w_owner w4) w4 w5"
    using phase_moves(1) [OF p4(2), of 1 dir] p4 ok(3) by (auto simp: seen_lock_def decode_lock_text [OF ia])
  have p5: "w_procs w5 = [a\<lparr>la_pc := Holding False\<rparr>, b\<lparr>la_pc := Looked (Some (la_info a), LockStale)\<rparr>]" "faults (w_disk w5) = []"
    using m5 p4 by (simp_all add: moves_def)
  have "check_liveness (machine_of w5) (Some (la_info a)) = Some ''no_port''"
    using ok(1) assms(4) p5(1) by (simp add: check_liveness_def machine_of_def launcher_ok_def is_running_def)
  then obtain w6 where m6: "moves dir 1 Clearing (get (files (w_disk w5)) ?P) (w_owner w5) w5 w6"
    using phase_moves(3) [OF p5(2), of 1 "(Some (la_info a), LockStale)" dir] p5(1) by (auto simp: lock_judge_def)
  obtain w7 where m7: "moves dir 1 (Creating True) None None w6 w7"
    using phase_moves(4) [of w6 1 dir] m6 p5 by (auto simp: moves_def)
  obtain w8 where m8: "moves dir 1 (Created True) (Some []) (Some 1) w7 w8"
    using phase_moves(5) [of w7 1 True dir] m6 m7 p5 by (auto simp: moves_def)
  have p8: "w_procs w8 = [a\<lparr>la_pc := Holding False\<rparr>, b\<lparr>la_pc := Created True\<rparr>]" "faults (w_disk w8) = []" "w_owner w8 = Some 1"
    using m6 m7 m8 p5 by (simp_all add: moves_def)
  obtain w9 where m9: "moves dir 1 (Holding True) (Some (lock_text (la_info b))) (Some 1) w8 w9"
    using phase_moves(6) [OF p8(2), of 1 True dir] p8 by auto
  have p9: "w_procs w9 = [a\<lparr>la_pc := Holding False\<rparr>, b\<lparr>la_pc := Holding True\<rparr>]" "faults (w_disk w9) = []" "w_owner w9 = Some 1"
      "get (files (w_disk w9)) ?P \<noteq> None"
    using m9 p8 by (simp_all add: moves_def)
  obtain w10 F where m10: "moves dir 1 (Serving True) F (Some 1) w9 w10" "F \<noteq> None"
    using phase_moves(7) [OF p9(2), of 1 True dir] p9 by (auto simp: is_serving_def)
  have p10: "w_procs w10 = [a\<lparr>la_pc := Holding False\<rparr>, b\<lparr>la_pc := Serving True\<rparr>]" "faults (w_disk w10) = []" "w_owner w10 = Some 1"
      "get (files (w_disk w10)) ?P \<noteq> None"
    using m10 p9 by (simp_all add: moves_def)
  obtain w11 G where m11: "moves dir 0 (Serving False) G (Some 1) w10 w11"
    using phase_moves(7) [OF p10(2), of 0 False dir] p10 assms(5) by (auto simp: is_serving_def)
  have "reaches dir False w0 w11"
    by (intro moves_reaches [OF _ m11] moves_reaches [OF _ m10(1)] moves_reaches [OF _ m9] moves_reaches [OF _ m8]
        moves_reaches [OF _ m7] moves_reaches [OF _ m6] moves_reaches [OF _ m5] moves_reaches [OF _ m4]
        moves_reaches [OF _ m3] moves_reaches [OF _ m2] moves_reaches [OF _ m1] here)
  moreover have "w_procs w11 = [a\<lparr>la_pc := Serving False\<rparr>, b\<lparr>la_pc := Serving True\<rparr>]"
    using m11 p10 by (simp add: moves_def)
  ultimately show ?thesis by (auto simp: is_serving_def)
qed

section \<open>Samples\<close>

definition sample_info :: "int \<Rightarrow> lock_info" where
  "sample_info p = new_lock_info p ''t'' ''1'' ''g'' 0 []"

definition first_launcher :: launcher where
  "first_launcher = \<lparr>la_info = sample_info 10, la_port = 5000, la_inst = ''a'', la_pc = Idle\<rparr>"

definition second_launcher :: launcher where
  "second_launcher = \<lparr>la_info = sample_info 11, la_port = 5001, la_inst = ''b'', la_pc = Idle\<rparr>"

definition two_launchers :: world where
  "two_launchers = \<lparr>w_disk = \<lparr>files = [], history = [], faults = []\<rparr>, w_owner = None,
     w_procs = [first_launcher, second_launcher]\<rparr>"

lemma sample_launchers:
  "la_pc first_launcher = Idle" "la_pc second_launcher = Idle" "li_port (la_info first_launcher) = 0"
  "la_port first_launcher = 5000" "la_port second_launcher = 5001" "la_info first_launcher = sample_info 10"
  "la_inst first_launcher = ''a''"
  by (simp_all add: first_launcher_def second_launcher_def sample_info_def new_lock_info_def)

lemma sample_launchers_ok: "launcher_ok first_launcher" "launcher_ok second_launcher"
proof -
  have n: "fmt_int 5000 = ''5000''" "fmt_int 5001 = ''5001''"
    by (simp_all add: fmt_int_def fmt_nat.simps digit_char_def) code_simp+
  have i: "la_info first_launcher = sample_info 10" "la_info second_launcher = sample_info 11" "li_game_id (sample_info x) = ''g''"
      "la_inst first_launcher = ''a''" "la_inst second_launcher = ''b''" for x
    by (simp_all add: first_launcher_def second_launcher_def sample_info_def new_lock_info_def)
  have k: "keys_sorted [(''app'', x), (''game_id'', y), (''instance'', z), (''port'', u)]" for x y z u :: json
    by (simp add: keys_sorted_def)
  have "length (health_body first_launcher) \<le> 4096" "length (health_body second_launcher) \<le> 4096"
    unfolding health_body_def encode_obj [OF k]
    by (simp_all add: sample_launchers i n encode_string_plain plain_byte_def join_comma_def app_name_def)
  then show "launcher_ok first_launcher" "launcher_ok second_launcher"
    by (simp_all add: launcher_ok_def) (simp_all add: first_launcher_def second_launcher_def info_ok_def sample_info_def new_lock_info_def
        int64_min_def int64_max_def)
qed

lemma two_launchers_fresh: "fresh_world two_launchers"
  using sample_launchers_ok by (simp add: fresh_world_def two_launchers_def sample_launchers)

theorem overlapping_starts_share_lock_witness:
  "\<exists>w. reaches ''/s'' False two_launchers w \<and> list_all is_serving (w_procs w) \<and> length (w_procs w) = 2"
  by (rule overlapping_starts_share_lock [OF two_launchers_fresh, of first_launcher second_launcher])
    (simp_all add: two_launchers_def sample_launchers sample_info_def new_lock_info_def)


definition live_machine :: machine where
  "live_machine = \<lparr>ma_boot = Some 5, ma_mtime = Some 9, ma_pid_exists = (\<lambda>p. p = 10), ma_started = (\<lambda>p. Some 7),
     ma_parse_time = (\<lambda>s. Some 8), ma_health = (\<lambda>p. if p = 5000 then Some (200, health_body first_launcher) else None)\<rparr>"

theorem live_owner_keeps_lock_witness:
  "let i = served_info first_launcher; d = \<lparr>files = [(''/s/instance.lock'', lock_text i)], history = [], faults = []\<rparr>
   in acquire_lock live_machine ''/s'' (sample_info 11) d = (Inl (LkHeld i False), d)"
proof -
  have i: "info_ok (served_info first_launcher)" by (rule served_info_ok [OF sample_launchers_ok(1)])
  have l: "check_liveness live_machine (Some (served_info first_launcher)) = None"
    using decode_health_body [OF sample_launchers_ok(1)]
    by (simp add: check_liveness_def fetch_health_def live_machine_def served_info_def with_port_def sample_launchers
        sample_info_def new_lock_info_def second_def)
  have p: "join_path ''/s'' lock_file_name = ''/s/instance.lock''" by code_simp
  show ?thesis
    unfolding Let_def by (rule live_owner_keeps_lock [OF _ i l]) (simp_all add: p)
qed

end
