(* ===== verification/Http.thy ===== *)
theory Http
  imports KobraErr Paths
begin

text \<open>
  The parts of \<open>net/http\<close> the handlers rely on: a request with its decoded cookies, a response under
  construction, and the choice of \<open>ServeMux\<close>. Header names are in canonical form, the body is what
  the connection delivers (\<^term>\<open>None\<close>: reading it fails).
\<close>

record http_request =
  rq_method :: string
  rq_path :: string
  rq_host :: string
  rq_headers :: "(string, string) gmap"
  rq_cookies :: "(string, string) gmap"
  rq_length :: int
  rq_body :: "string option"

definition header_of :: "http_request \<Rightarrow> string \<Rightarrow> string" where
  "header_of r name = (case get (rq_headers r) name of None \<Rightarrow> [] | Some v \<Rightarrow> v)"

definition respond :: "int \<Rightarrow> (string, string) gmap \<Rightarrow> string \<Rightarrow> http_response" where
  "respond status hs body = \<lparr>resp_status = status, resp_headers = hs, resp_body = body\<rparr>"

definition refuse :: "(string, string) gmap \<Rightarrow> kobra_error \<Rightarrow> http_response" where
  "refuse hs k = write_envelope hs (Some (Kobra k))"

lemma respond_simps [simp]:
  "resp_status (respond s hs b) = s" "resp_headers (respond s hs b) = hs" "resp_body (respond s hs b) = b"
  by (simp_all add: respond_def)

lemma refuse_simps [simp]:
  "resp_status (refuse hs k) = (if ke_http k = 0 then 500 else ke_http k)" "resp_body (refuse hs k) = envelope_bytes k"
  "get (resp_headers (refuse hs k)) ''Content-Type'' = Some ''application/json''"
  by (simp_all add: refuse_def write_envelope_def from_error_def Let_def)

lemma refuse_keeps_header:
  "name \<noteq> ''Content-Type'' \<Longrightarrow> name \<noteq> ''Retry-After'' \<Longrightarrow> get (resp_headers (refuse hs k)) name = get hs name"
  by (simp add: refuse_def write_envelope_def from_error_def Let_def)

section \<open>ServeMux\<close>

text \<open>
  A pattern that ends in a slash matches the paths it is a prefix of, another one itself only; the
  longest wins. A path whose form with a slash appended is a pattern, and which is not one itself, is
  redirected there.
\<close>

definition pattern_matches :: "string \<Rightarrow> string \<Rightarrow> bool" where
  "pattern_matches pat path = (if suffix [slash] pat then prefix pat path else pat = path)"

datatype 'h mux_choice = Redirect string | Handle 'h | NoHandler

definition longest_match :: "(string \<times> 'h) list \<Rightarrow> string \<Rightarrow> (string \<times> 'h) option" where
  "longest_match pats path =
     fold (\<lambda>(p, h) best. if pattern_matches p path
                          \<and> (case best of None \<Rightarrow> True | Some (q, _) \<Rightarrow> length q < length p) then Some (p, h) else best)
       pats None"

definition mux_choose :: "(string \<times> 'h) list \<Rightarrow> string \<Rightarrow> 'h mux_choice" where
  "mux_choose pats path =
     (if \<not> suffix [slash] path \<and> path @ [slash] \<in> fst ` set pats \<and> path \<notin> fst ` set pats then Redirect (path @ [slash])
      else case longest_match pats path of None \<Rightarrow> NoHandler | Some (_, h) \<Rightarrow> Handle h)"

end
