(* ===== verification/Static_Files.thy ===== *)
theory Static_Files
  imports Http Config Sha256
begin

text \<open>
  \<open>launcher/internal/static\<close>: the read-only game tree. The file system is a record of functions; the
  format of an HTTP date and its parser are among them. A modification time is in nanoseconds. The
  handler's cache of entity tags is the only state, passed from request to request.
\<close>

record file_info =
  fi_size :: int
  fi_mtime :: int
  fi_dir :: bool

record static_view =
  sf_eval :: "string \<Rightarrow> string option"
  sf_stat :: "string \<Rightarrow> file_info option"
  sf_open :: "string \<Rightarrow> string option"
  sf_date :: "int \<Rightarrow> string"
  sf_parse_date :: "string \<Rightarrow> int option"

text \<open>What the handler needs of the storage engine: the enabled mods and the path of an asset of one.\<close>

record mod_provider =
  mp_enabled :: "string list"
  mp_asset :: "string \<Rightarrow> string \<Rightarrow> string option"

record static_handler =
  sh_game_dir :: string
  sh_data_dir :: string
  sh_serve_mods :: bool
  sh_max_range :: int
  sh_mime :: "(string, string) gmap"
  sh_mods :: "mod_provider option"

type_synonym etags = "(string, string) gmap"

datatype cache_policy = PolicyNoCache | PolicyImmutable | PolicyAssets

definition policy_header :: "cache_policy \<Rightarrow> string" where
  "policy_header p =
     (case p of PolicyImmutable \<Rightarrow> ''public, max-age=31536000, immutable''
      | PolicyAssets \<Rightarrow> ''public, max-age=3600''
      | PolicyNoCache \<Rightarrow> ''no-cache'')"

section \<open>Names\<close>

definition is_windows_device_name :: "string \<Rightarrow> bool" where
  "is_windows_device_name p =
     list_ex reserved_name (split_on slash (map (\<lambda>c. if c = backslash then slash else c) p))"

definition resolve_under :: "string \<Rightarrow> string \<Rightarrow> string option" where
  "resolve_under root url =
     (if CHR 0x00 \<in> set url then None
      else if is_windows_device_name url then None
      else if backslash \<in> set url then None
      else (let full = join_path root (clean (slash # url))
            in if confine root full then Some full else None))"

definition is_hex :: "char \<Rightarrow> bool" where
  "is_hex c = (hex_val c \<noteq> None)"

definition first_segment :: "string \<Rightarrow> string" where
  "first_segment rest = (case index_byte rest slash of None \<Rightarrow> rest | Some i \<Rightarrow> take i rest)"

definition looks_content_addressed :: "string \<Rightarrow> bool" where
  "looks_content_addressed rest = (let s = first_segment rest in 16 \<le> length s \<and> list_all is_hex s)"

section \<open>Ranges\<close>

record range_spec =
  rs_start :: int
  rs_end :: int

datatype range_answer = RangeOk range_spec | RangeMulti | RangeUnsatisfiable | RangeOther

definition parse_range :: "string \<Rightarrow> int \<Rightarrow> range_answer" where
  "parse_range hdr sz =
     (if \<not> prefix ''bytes='' hdr then RangeOther
      else
        let spec = trim_space (trim_prefix ''bytes='' hdr) in
        if CHR '','' \<in> set spec then RangeMulti
        else case index_byte spec (CHR ''-'') of
          None \<Rightarrow> RangeUnsatisfiable
        | Some d \<Rightarrow>
            (let a = trim_space (take d spec); b = trim_space (drop (Suc d) spec) in
             if a = [] \<and> b = [] then RangeUnsatisfiable
             else if a = [] then
               (case parse_int64 b of
                  None \<Rightarrow> RangeUnsatisfiable
                | Some n \<Rightarrow>
                    if n \<le> 0 then RangeUnsatisfiable
                    else (let n = (if sz < n then sz else n)
                          in RangeOk \<lparr>rs_start = sz - n, rs_end = sz - 1\<rparr>))
             else
               (case parse_int64 a of
                  None \<Rightarrow> RangeUnsatisfiable
                | Some start \<Rightarrow>
                    if start < 0 \<or> sz \<le> start then RangeUnsatisfiable
                    else if b = [] then RangeOk \<lparr>rs_start = start, rs_end = sz - 1\<rparr>
                    else
                      (case parse_int64 b of
                         None \<Rightarrow> RangeUnsatisfiable
                       | Some e \<Rightarrow>
                           if e < start then RangeUnsatisfiable
                           else RangeOk \<lparr>rs_start = start, rs_end = (if e < sz - 1 then e else sz - 1)\<rparr>))))"

definition format_content_range :: "int \<Rightarrow> int \<Rightarrow> int \<Rightarrow> string" where
  "format_content_range s e sz = ''bytes '' @ fmt_int s @ ''-'' @ fmt_int e @ ''/'' @ fmt_int sz"

section \<open>Serving a file\<close>

definition etag_matches :: "string \<Rightarrow> string \<Rightarrow> bool" where
  "etag_matches hdr etag =
     list_ex (\<lambda>part. let p = trim_space part in p = etag \<or> p = ''*'' \<or> trim_prefix ''W/'' p = etag)
       (split_on (CHR '','') hdr)"

definition max_etags :: nat where "max_etags = 4096"

definition etag_of :: "string \<Rightarrow> int \<Rightarrow> string" where
  "etag_of content sz = quote # take 32 (sha256_hex (content @ fmt_int sz)) @ [quote]"

definition etag_for :: "static_view \<Rightarrow> etags \<Rightarrow> string \<Rightarrow> file_info \<Rightarrow> string option \<times> etags" where
  "etag_for v cache path info =
     (case get cache path of
        Some t \<Rightarrow> (Some t, cache)
      | None \<Rightarrow>
          (case sf_open v path of
             None \<Rightarrow> (None, cache)
           | Some content \<Rightarrow>
               (let t = etag_of content (fi_size info)
                in (Some t, if length cache < max_etags then put path t cache else cache))))"

definition octet_stream :: string where "octet_stream = ''application/octet-stream''"

definition mime_for :: "static_handler \<Rightarrow> string \<Rightarrow> string" where
  "mime_for h path =
     (if dot \<notin> set path then octet_stream
      else (let ext = map to_lower_ascii (dot # rev (takeWhile (\<lambda>c. c \<noteq> dot) (rev path)))
            in case get (sh_mime h) ext of
                 Some t \<Rightarrow> if t \<noteq> [] then t else octet_stream
               | None \<Rightarrow> octet_stream))"

definition stat_confined :: "static_view \<Rightarrow> string \<Rightarrow> string \<Rightarrow> file_info option" where
  "stat_confined v p root =
     (let real_root = (case sf_eval v root of Some r \<Rightarrow> r | None \<Rightarrow> root)
      in case sf_eval v p of
           None \<Rightarrow> None
         | Some real_full \<Rightarrow>
             if \<not> confine real_root real_full then None
             else case sf_stat v real_full of
                    None \<Rightarrow> None
                  | Some info \<Rightarrow> if fi_dir info then None else Some info)"

definition not_found :: "(string, string) gmap \<Rightarrow> http_response" where
  "not_found hs = refuse hs (NotFound ''file'')"

text \<open>The headers every file is sent with.\<close>

definition file_headers :: "static_view \<Rightarrow> static_handler \<Rightarrow> cache_policy \<Rightarrow> string \<Rightarrow> file_info \<Rightarrow> string
    \<Rightarrow> (string, string) gmap \<Rightarrow> (string, string) gmap" where
  "file_headers v h policy full info etag hs =
     (let hs1 = put ''Content-Type'' (mime_for h full) (put ''Last-Modified'' (sf_date v (fi_mtime info))
                  (put ''ETag'' etag (put ''Accept-Ranges'' ''bytes'' (put ''Cache-Control'' (policy_header policy) hs))))
      in if mime_for h full = octet_stream then put ''Content-Disposition'' ''attachment'' hs1 else hs1)"

definition not_modified :: "static_view \<Rightarrow> http_request \<Rightarrow> string \<Rightarrow> file_info \<Rightarrow> bool" where
  "not_modified v r etag info =
     (if header_of r ''If-None-Match'' \<noteq> [] \<and> etag_matches (header_of r ''If-None-Match'') etag then True
      else if header_of r ''If-Modified-Since'' \<noteq> [] \<and> header_of r ''If-None-Match'' = []
      then (case sf_parse_date v (header_of r ''If-Modified-Since'') of
              None \<Rightarrow> False
            | Some t \<Rightarrow> fi_mtime info - fi_mtime info mod second \<le> t)
      else False)"

text \<open>The body, once the headers are set: the whole file or the one range asked for.\<close>

definition send_file :: "static_handler \<Rightarrow> http_request \<Rightarrow> int \<Rightarrow> string \<Rightarrow> (string, string) gmap \<Rightarrow> http_response" where
  "send_file h r sz content hs =
     (let body = (\<lambda>x. if rq_method r = ''HEAD'' then [] else x);
          refused = respond 416 (put ''Content-Range'' (''bytes */'' @ fmt_int sz) hs) []
      in if header_of r ''Range'' \<noteq> []
         then (case parse_range (header_of r ''Range'') sz of
                 RangeOk rs \<Rightarrow>
                   (let len = rs_end rs - rs_start rs + 1
                    in if 0 < sh_max_range h \<and> sh_max_range h < len then refused
                       else if rs_start rs < 0 then respond 500 hs []
                       else respond 206
                              (put ''Content-Length'' (fmt_int len)
                                (put ''Content-Range'' (format_content_range (rs_start rs) (rs_end rs) sz) hs))
                              (body (take (nat len) (drop (nat (rs_start rs)) content))))
               | _ \<Rightarrow> refused)
         else respond 200 (put ''Content-Length'' (fmt_int sz) hs) (body content))"

definition serve_file :: "static_view \<Rightarrow> static_handler \<Rightarrow> string \<Rightarrow> string \<Rightarrow> cache_policy \<Rightarrow> (string, string) gmap
    \<Rightarrow> http_request \<Rightarrow> etags \<Rightarrow> http_response \<times> etags" where
  "serve_file v h root full policy hs r cache =
     (if rq_method r \<noteq> ''GET'' \<and> rq_method r \<noteq> ''HEAD''
      then (refuse (put ''Allow'' ''GET, HEAD'' hs) (MethodNotAllowed ''GET, HEAD''), cache)
      else if CHR 0x00 \<in> set (rq_path r) \<or> is_windows_device_name (rq_path r) \<or> backslash \<in> set (rq_path r)
      then (not_found hs, cache)
      else case stat_confined v full root of
        None \<Rightarrow> (not_found hs, cache)
      | Some info \<Rightarrow>
          (case etag_for v cache full info of
             (None, cache1) \<Rightarrow> (not_found hs, cache1)
           | (Some etag, cache1) \<Rightarrow>
               (let hs1 = file_headers v h policy full info etag hs in
                if not_modified v r etag info then (respond 304 hs1 [], cache1)
                else (case sf_open v full of
                        None \<Rightarrow> (not_found hs1, cache1)
                      | Some content \<Rightarrow> (send_file h r (fi_size info) content hs1, cache1)))))"

definition serve_game :: "static_view \<Rightarrow> static_handler \<Rightarrow> string \<Rightarrow> cache_policy \<Rightarrow> (string, string) gmap
    \<Rightarrow> http_request \<Rightarrow> etags \<Rightarrow> http_response \<times> etags" where
  "serve_game v h full policy = serve_file v h (sh_game_dir h) full policy"

definition mods_root :: "static_handler \<Rightarrow> string" where
  "mods_root h = join_path (sh_data_dir h) ''mods''"

definition serve_mod :: "static_view \<Rightarrow> static_handler \<Rightarrow> string \<Rightarrow> cache_policy \<Rightarrow> (string, string) gmap
    \<Rightarrow> http_request \<Rightarrow> etags \<Rightarrow> http_response \<times> etags" where
  "serve_mod v h full policy = serve_file v h (mods_root h) full policy"

section \<open>The handlers\<close>

datatype static_route = RootRoute | IndexRoute | ShellRoute | EngineRoute | AssetsRoute | LocalesRoute | EditorRoute | ModsRoute

text \<open>\<open>Register\<close>.\<close>

definition static_patterns :: "(string \<times> static_route) list" where
  "static_patterns =
     [(''/'', RootRoute), (''/index.html'', IndexRoute), (''/shell.js'', ShellRoute), (''/engine/'', EngineRoute),
      (''/assets/'', AssetsRoute), (''/locales/'', LocalesRoute), (''/editor'', EditorRoute), (''/editor/'', EditorRoute),
      (''/mods/'', ModsRoute)]"

definition handle_under :: "static_view \<Rightarrow> static_handler \<Rightarrow> cache_policy \<Rightarrow> (string, string) gmap
    \<Rightarrow> http_request \<Rightarrow> etags \<Rightarrow> http_response \<times> etags" where
  "handle_under v h policy hs r cache =
     (case resolve_under (sh_game_dir h) (rq_path r) of
        None \<Rightarrow> (not_found hs, cache)
      | Some full \<Rightarrow> serve_game v h full policy hs r cache)"

definition handle_assets :: "static_view \<Rightarrow> static_handler \<Rightarrow> (string, string) gmap
    \<Rightarrow> http_request \<Rightarrow> etags \<Rightarrow> http_response \<times> etags" where
  "handle_assets v h hs r cache =
     handle_under v h
       (if looks_content_addressed (trim_prefix ''/assets/'' (rq_path r)) then PolicyImmutable else PolicyAssets) hs r cache"

definition handle_editor :: "static_view \<Rightarrow> static_handler \<Rightarrow> (string, string) gmap
    \<Rightarrow> http_request \<Rightarrow> etags \<Rightarrow> http_response \<times> etags" where
  "handle_editor v h hs r cache =
     (if rq_path r = ''/editor'' \<or> rq_path r = ''/editor/''
      then serve_game v h (join_path (join_path (sh_game_dir h) ''editor'') ''index.html'') PolicyNoCache hs r cache
      else handle_under v h PolicyAssets hs r cache)"

definition handle_mods :: "static_view \<Rightarrow> static_handler \<Rightarrow> (string, string) gmap
    \<Rightarrow> http_request \<Rightarrow> etags \<Rightarrow> http_response \<times> etags" where
  "handle_mods v h hs r cache =
     (if \<not> sh_serve_mods h then (not_found hs, cache)
      else
        let rest = trim_prefix ''/mods/'' (rq_path r) in
        case index_byte rest slash of
          None \<Rightarrow> (not_found hs, cache)
        | Some s \<Rightarrow>
            (let mid = take s rest; sub = drop (Suc s) rest in
             if s = 0 \<or> \<not> prefix ''assets/'' sub then (not_found hs, cache)
             else case sh_mods h of
               None \<Rightarrow> (not_found hs, cache)
             | Some mp \<Rightarrow>
                 if mid \<notin> set (mp_enabled mp) then (not_found hs, cache)
                 else (case mp_asset mp mid (trim_prefix ''assets/'' sub) of
                         None \<Rightarrow> (not_found hs, cache)
                       | Some full \<Rightarrow> serve_mod v h full PolicyAssets hs r cache)))"

definition handle_static :: "static_view \<Rightarrow> static_handler \<Rightarrow> static_route \<Rightarrow> (string, string) gmap
    \<Rightarrow> http_request \<Rightarrow> etags \<Rightarrow> http_response \<times> etags" where
  "handle_static v h route hs r cache =
     (case route of
        RootRoute \<Rightarrow>
          (if rq_path r \<noteq> ''/'' then (not_found hs, cache)
           else serve_game v h (join_path (sh_game_dir h) ''index.html'') PolicyNoCache hs r cache)
      | IndexRoute \<Rightarrow> serve_game v h (join_path (sh_game_dir h) ''index.html'') PolicyNoCache hs r cache
      | ShellRoute \<Rightarrow> serve_game v h (join_path (sh_game_dir h) ''shell.js'') PolicyNoCache hs r cache
      | EngineRoute \<Rightarrow> handle_under v h PolicyImmutable hs r cache
      | AssetsRoute \<Rightarrow> handle_assets v h hs r cache
      | LocalesRoute \<Rightarrow> handle_under v h PolicyNoCache hs r cache
      | EditorRoute \<Rightarrow> handle_editor v h hs r cache
      | ModsRoute \<Rightarrow> handle_mods v h hs r cache)"

section \<open>Ranges lie in the file\<close>

lemma parse_range_ok:
  assumes "parse_range hdr sz = RangeOk rs" and "0 < sz"
  shows "0 \<le> rs_start rs \<and> rs_start rs \<le> rs_end rs \<and> rs_end rs < sz"
  using assms by (auto simp: parse_range_def Let_def split: if_splits option.splits)

text \<open>Of an empty file the suffix form asks for the bytes from 0 to -1, and gets them.\<close>

lemma empty_file_range: "parse_range ''bytes=-5'' 0 = RangeOk \<lparr>rs_start = 0, rs_end = -1\<rparr>"
  by code_simp

text \<open>
  A partial answer is exact. When a file of the size the system reports is served in part, the range
  announced lies in the file, is no longer than the configured limit, the announced length is that of the
  range, and a GET gets exactly the bytes of the range.
\<close>
theorem range_response_exact:
  assumes "send_file h r (int (length content)) content hs = resp" and "resp_status resp = 206" and "content \<noteq> []"
  shows "\<exists>a b. a \<le> b \<and> b < length content
    \<and> get (resp_headers resp) ''Content-Range'' = Some (format_content_range (int a) (int b) (int (length content)))
    \<and> get (resp_headers resp) ''Content-Length'' = Some (fmt_int (int (b - a + 1)))
    \<and> resp_body resp = (if rq_method r = ''HEAD'' then [] else take (b - a + 1) (drop a content))
    \<and> (0 < sh_max_range h \<longrightarrow> int (b - a + 1) \<le> sh_max_range h)"
proof -
  obtain rs where rs: "parse_range (header_of r ''Range'') (int (length content)) = RangeOk rs"
    and hd: "header_of r ''Range'' \<noteq> []"
    using assms(1,2) by (auto simp: send_file_def Let_def split: if_splits range_answer.splits)
  have b: "0 \<le> rs_start rs" "rs_start rs \<le> rs_end rs" "rs_end rs < int (length content)"
    using parse_range_ok [OF rs] assms(3) by simp_all
  define x y where "x = nat (rs_start rs)" and "y = nat (rs_end rs)"
  have xy: "rs_start rs = int x" "rs_end rs = int y" "x \<le> y" "y < length content"
    using b by (simp_all add: x_def y_def)
  define n where "n = y - x + 1"
  have len: "rs_end rs - rs_start rs + 1 = int n" using xy by (simp add: n_def)
  have e: "int y - int x + 1 = int n" using xy(3) by (simp add: n_def)
  have max: "0 < sh_max_range h \<longrightarrow> int n \<le> sh_max_range h"
    using assms(1,2) rs hd len by (auto simp: send_file_def Let_def split: if_splits)
  have "resp = respond 206 (put ''Content-Length'' (fmt_int (int n))
      (put ''Content-Range'' (format_content_range (int x) (int y) (int (length content))) hs))
      (if rq_method r = ''HEAD'' then [] else take n (drop x content))"
    using assms(1) rs hd max unfolding send_file_def Let_def by (auto simp: xy(1,2) e)
  then have "get (resp_headers resp) ''Content-Range'' = Some (format_content_range (int x) (int y) (int (length content)))
      \<and> get (resp_headers resp) ''Content-Length'' = Some (fmt_int (int n))
      \<and> resp_body resp = (if rq_method r = ''HEAD'' then [] else take n (drop x content))"
    by simp
  with xy(3,4) max show ?thesis unfolding n_def by blast
qed

section \<open>Only files of the served trees\<close>

definition served_root :: "static_handler \<Rightarrow> static_route \<Rightarrow> string" where
  "served_root h route = (if route = ModsRoute then mods_root h else sh_game_dir h)"

text \<open>The file behind an answer: its resolved place is in the root, and the body is part of its content.\<close>

definition served_from :: "static_view \<Rightarrow> string \<Rightarrow> http_response \<Rightarrow> bool" where
  "served_from v root resp \<longleftrightarrow>
     (\<exists>full real info. sf_eval v full = Some real \<and> confine (case sf_eval v root of Some r \<Rightarrow> r | None \<Rightarrow> root) real
        \<and> sf_stat v real = Some info \<and> \<not> fi_dir info
        \<and> (resp_body resp = [] \<or> (\<exists>content. sf_open v full = Some content \<and> sublist (resp_body resp) content)))"

lemma sublist_slice: "sublist (take n (drop k xs)) xs"
  by (meson sublist_drop sublist_order.order.trans sublist_take)

lemma send_file_body: "\<not> sublist (resp_body (send_file h r sz content hs)) content \<Longrightarrow> resp_body (send_file h r sz content hs) = []"
  by (auto simp: send_file_def Let_def sublist_slice split: range_answer.split)

lemma serve_file_served:
  assumes "serve_file v h root full policy hs r cache = (resp, cache')" and "resp_status resp \<in> {200, 206, 304, 416}"
  shows "served_from v root resp \<and> rq_method r \<in> {''GET'', ''HEAD''} \<and> \<not> is_windows_device_name (rq_path r)"
proof -
  obtain info where si: "stat_confined v full root = Some info" and m: "rq_method r = ''GET'' \<or> rq_method r = ''HEAD''"
    and d: "\<not> is_windows_device_name (rq_path r)"
    using assms by (auto simp: serve_file_def not_found_def constructor_defs split: if_splits option.splits)
  obtain real where real: "sf_eval v full = Some real" "confine (case sf_eval v root of Some r \<Rightarrow> r | None \<Rightarrow> root) real"
      "sf_stat v real = Some info" "\<not> fi_dir info"
    using si by (auto simp: stat_confined_def Let_def split: option.splits if_splits)
  have "resp_body resp = [] \<or> (\<exists>content. sf_open v full = Some content \<and> sublist (resp_body resp) content)"
    using assms si
    by (auto simp: serve_file_def not_found_def constructor_defs Let_def intro: send_file_body split: if_splits option.splits prod.splits)
  with real m d show ?thesis unfolding served_from_def by blast
qed

text \<open>
  C14: The static server gives out nothing but files of the game tree, and of the mods tree on its own
  route and only when mods are served and the mod is enabled. Whatever the path of the request, every
  answer that is not an error comes from a regular file whose place, after all symbolic links are
  resolved, lies in the tree, and its body is a part of that file. So \<open>data/saves\<close> and \<open>data/config\<close>
  are never reached.
\<close>
theorem static_serves_confined:
  assumes "handle_static v h route hs r cache = (resp, cache')" and "resp_status resp \<in> {200, 206, 304, 416}"
  shows "served_from v (served_root h route) resp
    \<and> (route = ModsRoute \<longrightarrow> sh_serve_mods h \<and> (\<exists>mp. sh_mods h = Some mp
         \<and> first_segment (trim_prefix ''/mods/'' (rq_path r)) \<in> set (mp_enabled mp)))"
proof -
  have nf: "resp_status (not_found hs) = 404" by (simp add: not_found_def constructor_defs)
  have game: "served_from v (sh_game_dir h) resp" if "serve_game v h full policy hs r cache = (resp, cache')" for full policy
    using serve_file_served [of v h "sh_game_dir h"] that assms(2) by (auto simp: serve_game_def)
  have under: "served_from v (sh_game_dir h) resp" if "handle_under v h policy hs r cache = (resp, cache')" for policy
    using that game nf assms(2) by (auto simp: handle_under_def split: option.splits)
  show ?thesis
  proof (cases "route = ModsRoute")
    case False
    then show ?thesis
      using assms nf game under
      by (cases route) (auto simp: handle_static_def served_root_def handle_assets_def handle_editor_def split: if_splits)
  next
    case True
    with assms nf obtain s mp full where m: "sh_serve_mods h" "index_byte (trim_prefix ''/mods/'' (rq_path r)) slash = Some s"
        "sh_mods h = Some mp" "take s (trim_prefix ''/mods/'' (rq_path r)) \<in> set (mp_enabled mp)"
        "serve_mod v h full PolicyAssets hs r cache = (resp, cache')"
      by (auto simp: handle_static_def handle_mods_def Let_def split: if_splits option.splits)
    with True show ?thesis
      using serve_file_served [of v h "mods_root h" full PolicyAssets hs r cache resp cache'] assms(2)
      by (auto simp: serve_mod_def served_root_def first_segment_def)
  qed
qed

section \<open>Samples\<close>

definition sample_static_view :: static_view where
  "sample_static_view = \<lparr>sf_eval = Some,
     sf_stat = map_of [(''/g/game/index.html'', \<lparr>fi_size = 5, fi_mtime = 0, fi_dir = False\<rparr>)],
     sf_open = map_of [(''/g/game/index.html'', ''hello'')], sf_date = (\<lambda>t. ''date''), sf_parse_date = (\<lambda>s. None)\<rparr>"

definition sample_static :: static_handler where
  "sample_static = \<lparr>sh_game_dir = ''/g/game'', sh_data_dir = ''/g/data'', sh_serve_mods = False, sh_max_range = 4,
     sh_mime = [(''.html'', ''text/html'')], sh_mods = None\<rparr>"

definition sample_get :: "string \<Rightarrow> (string, string) gmap \<Rightarrow> http_request" where
  "sample_get path hs = \<lparr>rq_method = ''GET'', rq_path = path, rq_host = ''127.0.0.1:5000'', rq_headers = hs, rq_cookies = [],
     rq_length = 0, rq_body = Some []\<rparr>"

theorem static_serves_confined_witness:
  "let resp = fst (handle_static sample_static_view sample_static RootRoute [] (sample_get ''/'' [(''Range'', ''bytes=1-2'')])
                     [(''/g/game/index.html'', ''tag'')])
   in resp_body resp = ''el'' \<and> served_from sample_static_view ''/g/game'' resp"
proof -
  let ?r = "handle_static sample_static_view sample_static RootRoute [] (sample_get ''/'' [(''Range'', ''bytes=1-2'')])
    [(''/g/game/index.html'', ''tag'')]"
  have s: "resp_status (fst ?r) = 206" and b: "resp_body (fst ?r) = ''el''" by code_simp+
  have "served_from sample_static_view (served_root sample_static RootRoute) (fst ?r)"
    using static_serves_confined [of sample_static_view sample_static RootRoute "[]" _ _ "fst ?r" "snd ?r"] s by simp
  with b show ?thesis by (simp add: served_root_def sample_static_def Let_def)
qed

theorem range_response_exact_witness:
  "let r = sample_get ''/'' [(''Range'', ''bytes=-2'')]; resp = send_file sample_static r 5 ''hello'' []
   in resp_body resp = ''lo'' \<and> (\<exists>a b. a \<le> b \<and> b < length ''hello''
        \<and> get (resp_headers resp) ''Content-Range'' = Some (format_content_range (int a) (int b) (int (length ''hello'')))
        \<and> resp_body resp = (if rq_method r = ''HEAD'' then [] else take (b - a + 1) (drop a ''hello'')))"
proof -
  let ?r = "sample_get ''/'' [(''Range'', ''bytes=-2'')]"
  let ?resp = "send_file sample_static ?r (int (length ''hello'')) ''hello'' []"
  have five: "int (length ''hello'') = 5" by simp
  have "resp_status ?resp = 206" and b: "resp_body ?resp = ''lo''" by code_simp+
  from range_response_exact [OF refl this(1)]
  have "\<exists>a b. a \<le> b \<and> b < length ''hello''
        \<and> get (resp_headers ?resp) ''Content-Range'' = Some (format_content_range (int a) (int b) (int (length ''hello'')))
        \<and> resp_body ?resp = (if rq_method ?r = ''HEAD'' then [] else take (b - a + 1) (drop a ''hello''))"
    by blast
  with b show ?thesis unfolding Let_def five by (rule conjI)
qed

end
