(* ===== verification/Mods.thy ===== *)
theory Mods
  imports Save_Laws Update_Archive Json_Indent
begin

text \<open>
  \<open>storage/mods.go\<close> and \<open>storage/archive.go\<close>: the mods of the player. A mod is a directory under
  \<open>data/mods\<close>; which mods are enabled is a list in \<open>data/config/mods.json\<close>. The operations look at
  directories, so the state is the engine with the directories that were made; a directory is also
  there when a file lies under it. An archive is what the decompressor and the tar reader deliver:
  the members with their bytes, and whether the end was reached without an error.
\<close>

section \<open>Directories\<close>

record mod_store =
  ms_engine :: engine
  ms_dirs :: "string list"

definition on_engine :: "(engine \<Rightarrow> 'r \<times> engine) \<Rightarrow> mod_store \<Rightarrow> 'r \<times> mod_store" where
  "on_engine f w = (case f (ms_engine w) of (r, e) \<Rightarrow> (r, w\<lparr>ms_engine := e\<rparr>))"

definition below_dir :: "string \<Rightarrow> string \<Rightarrow> bool" where
  "below_dir d p = prefix (d @ [slash]) p"

definition dir_there :: "string \<Rightarrow> mod_store \<Rightarrow> bool" where
  "dir_there d w \<longleftrightarrow>
     list_ex (\<lambda>q. q = d \<or> below_dir d q) (ms_dirs w) \<or> list_ex (below_dir d) (map fst (files (ms_engine w)))"

text \<open>A file where a directory would have to be.\<close>

definition blocked :: "string \<Rightarrow> mod_store \<Rightarrow> bool" where
  "blocked p w = list_ex (\<lambda>q. below_dir q p) (map fst (files (ms_engine w)))"

text \<open>\<open>os.Stat\<close>, \<open>os.MkdirAll\<close> and \<open>os.OpenFile\<close> for writing, of paths that may be directories.\<close>

definition stat_path :: "string \<Rightarrow> mod_store \<Rightarrow> errno option \<times> mod_store" where
  "stat_path p w =
     (case on_engine next_fault w of
        (Fails x _, w1) \<Rightarrow> (Some x, w1)
      | (Runs, w1) \<Rightarrow>
          if get (files (ms_engine w1)) p \<noteq> None \<or> dir_there p w1 then (None, w1)
          else (Some (if blocked p w1 then ENOTDIR else ENOENT), w1))"

definition mkdir_all :: "string \<Rightarrow> mod_store \<Rightarrow> errno option \<times> mod_store" where
  "mkdir_all d w =
     (case on_engine next_fault w of
        (Fails x _, w1) \<Rightarrow> (Some x, w1)
      | (Runs, w1) \<Rightarrow>
          if get (files (ms_engine w1)) d \<noteq> None \<or> blocked d w1 then (Some ENOTDIR, w1)
          else (None, w1\<lparr>ms_dirs := d # ms_dirs w1\<rparr>))"

definition open_trunc :: "string \<Rightarrow> mod_store \<Rightarrow> errno option \<times> mod_store" where
  "open_trunc p w = (if dir_there p w then (Some EISDIR, snd (on_engine next_fault w)) else on_engine (sys_truncate p) w)"

text \<open>The sub-directories of a directory, in the order of \<open>os.ReadDir\<close>.\<close>

definition sub_names :: "string \<Rightarrow> mod_store \<Rightarrow> string list" where
  "sub_names d w =
     (let tail = (\<lambda>q. drop (Suc (length d)) q)
      in sort (remdups
           (map (\<lambda>q. takeWhile (\<lambda>c. c \<noteq> slash) (tail q))
              (filter (below_dir d) (ms_dirs w) @ filter (\<lambda>q. below_dir d q \<and> slash \<in> set (tail q)) (map fst (files (ms_engine w)))))))"

definition read_subdirs :: "string \<Rightarrow> mod_store \<Rightarrow> (errno + string list) \<times> mod_store" where
  "read_subdirs d w =
     (case on_engine next_fault w of
        (Fails x _, w1) \<Rightarrow> (Inl x, w1)
      | (Runs, w1) \<Rightarrow>
          if dir_there d w1 then (Inr (sub_names d w1), w1)
          else (Inl (if get (files (ms_engine w1)) d \<noteq> None \<or> blocked d w1 then ENOTDIR else ENOENT), w1))"

text \<open>Renaming a directory (or a file) moves everything under it, in one step.\<close>

definition moved_to :: "string \<Rightarrow> string \<Rightarrow> string \<Rightarrow> string" where
  "moved_to src dst p = (if p = src \<or> below_dir src p then dst @ drop (length src) p else p)"

definition rename_tree :: "string \<Rightarrow> string \<Rightarrow> mod_store \<Rightarrow> errno option \<times> mod_store" where
  "rename_tree src dst w =
     (case on_engine next_fault w of
        (Fails x _, w1) \<Rightarrow> (Some x, w1)
      | (Runs, w1) \<Rightarrow>
          if dir_there dst w1 \<or> get (files (ms_engine w1)) dst \<noteq> None then (Some EEXIST, w1)
          else (None,
            w1\<lparr>ms_engine := set_files (map (\<lambda>(p, x). (moved_to src dst p, x)) (files (ms_engine w1))) (ms_engine w1),
               ms_dirs := map (moved_to src dst) (ms_dirs w1)\<rparr>))"

text \<open>\<open>os.RemoveAll\<close>: the files one by one; the first error is reported at the end.\<close>

fun remove_each :: "string list \<Rightarrow> engine \<Rightarrow> errno option \<times> engine" where
  "remove_each [] e = (None, e)"
| "remove_each (p # ps) e =
     (case sys_remove p e of
        (x, e1) \<Rightarrow> (case remove_each ps e1 of (y, e2) \<Rightarrow> (case x of None \<Rightarrow> y | Some _ \<Rightarrow> x, e2)))"

definition remove_dir_all :: "string \<Rightarrow> mod_store \<Rightarrow> errno option \<times> mod_store" where
  "remove_dir_all d w =
     (case on_engine (remove_each (filter (\<lambda>q. q = d \<or> below_dir d q) (map fst (files (ms_engine w))))) w of
        (None, w1) \<Rightarrow> (None, w1\<lparr>ms_dirs := filter (\<lambda>q. \<not> (q = d \<or> below_dir d q)) (ms_dirs w1)\<rparr>)
      | (Some x, w1) \<Rightarrow> (Some x, w1))"

section \<open>The enabled mods\<close>

text \<open>The list of the file; a nil slice is \<^term>\<open>None\<close>.\<close>

record mods_state =
  mo_enabled :: "string list option"

definition as_text :: "json \<Rightarrow> string option" where
  "as_text v = (if v = JNull then Some [] else as_string v)"

definition decode_mods_state :: "members \<Rightarrow> mods_state option" where
  "decode_mods_state ms = map_option mods_state.make (ptr_field (as_list as_text) ''enabled'' ms)"

definition no_mods :: mods_state where
  "no_mods = \<lparr>mo_enabled = None\<rparr>"

definition read_mods_state :: "engine \<Rightarrow> mods_state \<times> engine" where
  "read_mods_state e0 =
     (case sys_read (mods_file e0) e0 of
        (Inl _, e1) \<Rightarrow> (no_mods, e1)
      | (Inr raw, e1) \<Rightarrow>
          (case decode_document decode_mods_state raw of
             None \<Rightarrow> (no_mods, e1)
           | Some st \<Rightarrow> (st\<lparr>mo_enabled := map_option (filter (\<lambda>i. validate_identifier i = None)) (mo_enabled st)\<rparr>, e1)))"

definition enabled_list :: "mods_state \<Rightarrow> string list" where
  "enabled_list st = (case mo_enabled st of None \<Rightarrow> [] | Some ids \<Rightarrow> ids)"

definition enabled_mod_ids :: "engine \<Rightarrow> string list \<times> engine" where
  "enabled_mod_ids e = (case read_mods_state e of (st, e1) \<Rightarrow> (sort (enabled_list st), e1))"

definition mods_body :: "string list option \<Rightarrow> string" where
  "mods_body ids =
     document_text (JObj [(''enabled'', case ids of None \<Rightarrow> JNull | Some is \<Rightarrow> JArr (map JStr is))])"

section \<open>The view\<close>

record mod_info =
  mi_id :: string
  mi_name :: string
  mi_version :: string
  mi_enabled :: bool
  mi_priority :: int
  mi_missing :: string

record mods_view =
  mv_enabled :: "string list"
  mv_available :: "mod_info list"

record mod_manifest =
  mm_schema :: string
  mm_id :: string
  mm_name :: string
  mm_version :: string
  mm_priority :: int
  mm_requires :: "string list"
  mm_enabled :: "bool option"

definition decode_mod_manifest :: "members \<Rightarrow> mod_manifest option" where
  "decode_mod_manifest ms =
     (case (str_field ''schema'' ms, str_field ''id'' ms, str_field ''name'' ms, str_field ''version'' ms,
            int_field ''priority'' ms, list_field as_text ''requires'' ms, ptr_field as_bool ''enabled'' ms) of
        (Some s, Some i, Some n, Some v, Some p, Some r, Some b) \<Rightarrow>
          Some \<lparr>mm_schema = s, mm_id = i, mm_name = n, mm_version = v, mm_priority = p, mm_requires = r, mm_enabled = b\<rparr>
      | _ \<Rightarrow> None)"

text \<open>The requirements of a mod: the last one that is missing is reported.\<close>

fun missing_of :: "string \<Rightarrow> string list \<Rightarrow> string list \<Rightarrow> string \<Rightarrow> mod_store \<Rightarrow> string \<times> mod_store" where
  "missing_of d installed [] acc w = (acc, w)"
| "missing_of d installed (r # rs) acc w =
     (if r \<in> set installed then missing_of d installed rs acc w
      else case stat_path (join_path d r) w of
        (None, w1) \<Rightarrow> missing_of d installed rs acc w1
      | (Some _, w1) \<Rightarrow> missing_of d installed rs r w1)"

definition blank_mod :: "string \<Rightarrow> mod_info" where
  "blank_mod i = \<lparr>mi_id = i, mi_name = [], mi_version = [], mi_enabled = False, mi_priority = 0, mi_missing = []\<rparr>"

definition read_mod :: "string \<Rightarrow> string list \<Rightarrow> string list \<Rightarrow> string \<Rightarrow> mod_store \<Rightarrow> mod_info \<times> mod_store" where
  "read_mod d enabled installed i w0 =
     (case on_engine (sys_read (join_path (join_path d i) ''mod.manifest.json'')) w0 of
        (raw, w1) \<Rightarrow>
          (case (case raw of Inl _ \<Rightarrow> None | Inr text \<Rightarrow> decode_document decode_mod_manifest text) of
             None \<Rightarrow> ((blank_mod i)\<lparr>mi_enabled := i \<in> set enabled\<rparr>, w1)
           | Some m \<Rightarrow>
               (case missing_of d installed (mm_requires m) [] w1 of
                  (miss, w2) \<Rightarrow>
                    (\<lparr>mi_id = i, mi_name = mm_name m, mi_version = mm_version m,
                      mi_enabled = (i \<in> set enabled \<and> miss = []), mi_priority = mm_priority m, mi_missing = miss\<rparr>, w2))))"

text \<open>The loop over the directory; names that are no identifiers are passed over.\<close>

fun scan_mods :: "string \<Rightarrow> string list \<Rightarrow> string list \<Rightarrow> mod_info list \<Rightarrow> mod_store \<Rightarrow> mod_info list \<times> mod_store" where
  "scan_mods d enabled [] acc w = (acc, w)"
| "scan_mods d enabled (i # is) acc w =
     (if validate_identifier i \<noteq> None then scan_mods d enabled is acc w
      else case read_mod d enabled (map mi_id acc) i w of
        (info, w1) \<Rightarrow> scan_mods d enabled is (acc @ [info]) w1)"

definition read_mods :: "mod_store \<Rightarrow> (store_error + mods_view) \<times> mod_store" where
  "read_mods w0 =
     (case on_engine read_mods_state w0 of
        (st, w1) \<Rightarrow>
          (let d = dir_for (ms_engine w1) ''mods'' in
           case read_subdirs d w1 of
             (Inl x, w2) \<Rightarrow>
               (if x = ENOENT then Inr \<lparr>mv_enabled = [], mv_available = []\<rparr>
                else Inl (StoreErr (IO_error ''The launcher could not read the mods folder.'' [] (Some (PlainError ''errno'')))), w2)
           | (Inr names, w2) \<Rightarrow>
               (case scan_mods d (enabled_list st) names [] w2 of
                  (infos, w3) \<Rightarrow>
                    (let sorted_infos = sort_key mi_id infos
                     in (Inr \<lparr>mv_enabled = sort (map mi_id (filter mi_enabled sorted_infos)), mv_available = sorted_infos\<rparr>, w3)))))"

section \<open>Unpacking\<close>

datatype archive_error = ArcSys errno | ArcEscapes | ArcReserved | ArcTooBig | ArcType | ArcRead

definition mod_limit :: int where "mod_limit = 536870912"

definition confine_local :: "string \<Rightarrow> string \<Rightarrow> bool" where
  "confine_local root full =
     (case rel_path root full of
        None \<Rightarrow> False
      | Some rel \<Rightarrow> \<not> (rel = [dot, dot] \<or> prefix [dot, dot, slash] rel \<or> rooted rel))"

text \<open>Where a member goes: an error, nothing for the root of the archive, or the target.\<close>

definition member_target :: "string \<Rightarrow> tar_header \<Rightarrow> archive_error + string option" where
  "member_target dest h =
     (let name = clean (trim_prefix ''./'' (th_name h)) in
      if name = [dot] \<or> name = [] then Inr None
      else if rooted name \<or> prefix [dot, dot] name then Inl ArcEscapes
      else if reserved_name (base_name name) then Inl ArcReserved
      else let target = join_path dest name
           in if confine_local dest target then Inr (Some target) else Inl ArcEscapes)"

definition fill_mod_file :: "string \<Rightarrow> tar_member \<Rightarrow> mod_store \<Rightarrow> archive_error option \<times> mod_store" where
  "fill_mod_file target m w0 =
     (let (h, body) = m; undo = (\<lambda>w. snd (on_engine (sys_remove target) (snd (on_engine sys_plain w)))) in
      case mkdir_all (dir_of target) w0 of
        (Some x, w1) \<Rightarrow> (Some (ArcSys x), w1)
      | (None, w1) \<Rightarrow>
          (case open_trunc target w1 of
             (Some x, w2) \<Rightarrow> (Some (ArcSys x), w2)
           | (None, w2) \<Rightarrow>
               (case on_engine (sys_write target body) w2 of
                  (Some x, w3) \<Rightarrow> (Some (ArcSys x), undo w3)
                | (None, w3) \<Rightarrow>
                    if int (length body) \<noteq> th_size h then (Some ArcRead, undo w3)
                    else (case on_engine sys_plain w3 of
                            (Some x, w4) \<Rightarrow> (Some (ArcSys x), w4)
                          | (None, w4) \<Rightarrow> (None, w4)))))"

text \<open>The loop over the members, with the bytes announced so far.\<close>

fun unpack_members :: "string \<Rightarrow> bool \<Rightarrow> tar_member list \<Rightarrow> int \<Rightarrow> mod_store \<Rightarrow> archive_error option \<times> mod_store" where
  "unpack_members dest clean_end [] sofar w = (if clean_end then None else Some ArcRead, w)"
| "unpack_members dest clean_end (m # ms) sofar w =
     (case member_target dest (fst m) of
        Inl err \<Rightarrow> (Some err, w)
      | Inr None \<Rightarrow> unpack_members dest clean_end ms sofar w
      | Inr (Some target) \<Rightarrow>
          if th_flag (fst m) = CHR ''5'' then
            (case mkdir_all target w of
               (Some x, w1) \<Rightarrow> (Some (ArcSys x), w1)
             | (None, w1) \<Rightarrow> unpack_members dest clean_end ms sofar w1)
          else if th_flag (fst m) = CHR ''0'' then
            (let sofar' = wrap64 (sofar + th_size (fst m)) in
             if mod_limit < sofar' then (Some ArcTooBig, w)
             else (case fill_mod_file target m w of
                     (Some err, w1) \<Rightarrow> (Some err, w1)
                   | (None, w1) \<Rightarrow> unpack_members dest clean_end ms sofar' w1))
          else (Some ArcType, w))"

type_synonym unpacker = "string \<Rightarrow> tar_member list \<times> bool"

definition extract_tar_zstd :: "unpacker \<Rightarrow> string \<Rightarrow> string \<Rightarrow> mod_store \<Rightarrow> archive_error option \<times> mod_store" where
  "extract_tar_zstd unpack archive dest w0 =
     (case mkdir_all dest w0 of
        (Some x, w1) \<Rightarrow> (Some (ArcSys x), w1)
      | (None, w1) \<Rightarrow> (case unpack archive of (ms, clean_end) \<Rightarrow> unpack_members dest clean_end ms 0 w1))"

section \<open>Operations\<close>

definition mod_dir :: "engine \<Rightarrow> string \<Rightarrow> string" where
  "mod_dir e i = join_path (dir_for e ''mods'') i"

record mod_request =
  ma_id :: string
  ma_action :: string
  ma_archive :: string

definition install_mod :: "unpacker \<Rightarrow> mod_request \<Rightarrow> mod_store \<Rightarrow> store_error option \<times> mod_store" where
  "install_mod unpack a w =
     (if ma_archive a = [] then
        (Some (StoreErr (MalformedField ''archive_bytes'' ''The mod archive was empty.'' None)), w)
      else case extract_tar_zstd unpack (ma_archive a) (mod_dir (ms_engine w) (ma_id a)) w of
        (None, w1) \<Rightarrow> (None, w1)
      | (Some _, w1) \<Rightarrow>
          (Some (StoreErr (MalformedField ''archive_bytes'' ''That mod archive could not be unpacked.''
             (Some (PlainError ''archive'')))), w1))"

text \<open>The new set of enabled mods, or the refusal.\<close>

definition mod_change :: "unpacker \<Rightarrow> mod_request \<Rightarrow> string list \<Rightarrow> mod_store \<Rightarrow> (store_error + string list) \<times> mod_store" where
  "mod_change unpack a enabled w =
     (if ma_action a = ''enable'' then
        (case stat_path (mod_dir (ms_engine w) (ma_id a)) w of
           (Some _, w1) \<Rightarrow> (Inl (StoreErr (NotFound ''mod'')), w1)
         | (None, w1) \<Rightarrow> (Inr (ma_id a # enabled), w1))
      else if ma_action a = ''disable'' then (Inr (removeAll (ma_id a) enabled), w)
      else if ma_action a = ''install'' then
        (case install_mod unpack a w of
           (Some err, w1) \<Rightarrow> (Inl err, w1)
         | (None, w1) \<Rightarrow> (Inr (ma_id a # enabled), w1))
      else (Inl (StoreErr (MalformedField ''action'' ''That mod action is not supported.'' None)), w))"

definition mod_action :: "unpacker \<Rightarrow> mod_request \<Rightarrow> mod_store \<Rightarrow> store_error option \<times> mod_store" where
  "mod_action unpack a w0 =
     (case validate_identifier (ma_id a) of
        Some k \<Rightarrow> (Some (StoreErr k), w0)
      | None \<Rightarrow>
          if \<not> writable (ms_engine w0) then (Some (StoreErr (ReadOnly (probe_reason (ms_engine w0)))), w0)
          else (case on_engine read_mods_state w0 of
                  (st, w1) \<Rightarrow>
                    (case mod_change unpack a (enabled_list st) w1 of
                       (Inl err, w2) \<Rightarrow> (Some err, w2)
                     | (Inr ids, w2) \<Rightarrow>
                         (case on_engine (write_atomic (mods_file (ms_engine w2)) (mods_body (Some (sort (remdups ids))))) w2 of
                            (Some err, w3) \<Rightarrow> (Some (io_err err), w3)
                          | (None, w3) \<Rightarrow> (None, w3\<lparr>ms_engine := log_event ''mod.action'' (ms_engine w3)\<rparr>)))))"

text \<open>\<open>ModAssetPath\<close>.\<close>

definition mod_asset_path :: "engine \<Rightarrow> string \<Rightarrow> string \<Rightarrow> store_error + string" where
  "mod_asset_path e i path =
     (case validate_identifier i of
        Some k \<Rightarrow> Inl (StoreErr k)
      | None \<Rightarrow>
          (let full = join_path (join_path (mod_dir e i) ''assets'') (clean (slash # trim_prefix [slash] path)) in
           case confine_path e full of
             Some err \<Rightarrow> Inl err
           | None \<Rightarrow> (case confine_path e (mod_dir e i) of Some err \<Rightarrow> Inl err | None \<Rightarrow> Inr full)))"

text \<open>\<open>DeleteMod\<close>: to the trash, and off the list.\<close>

definition forget_mod :: "string \<Rightarrow> engine \<Rightarrow> engine" where
  "forget_mod i e0 =
     (case read_mods_state e0 of
        (st, e1) \<Rightarrow>
          log_event ''mod.action''
            (snd (write_atomic (mods_file e1) (mods_body (map_option (filter (\<lambda>j. j \<noteq> i)) (mo_enabled st))) e1)))"

definition trash_mod :: "string \<Rightarrow> string \<Rightarrow> mod_store \<Rightarrow> errno option \<times> mod_store" where
  "trash_mod ts i w0 =
     (let d = mod_dir (ms_engine w0) i; trash = new_trash_dir ts ''mods'' (ms_engine w0) in
      case mkdir_all trash w0 of
        (Some x, w1) \<Rightarrow> (Some x, w1)
      | (None, w1) \<Rightarrow>
          (case rename_tree d (join_path trash i) w1 of
             (None, w2) \<Rightarrow> (None, w2)
           | (Some x, w2) \<Rightarrow> if x \<noteq> EXDEV then (Some x, w2) else remove_dir_all d w2))"

definition delete_mod :: "string \<Rightarrow> string \<Rightarrow> mod_store \<Rightarrow> store_error option \<times> mod_store" where
  "delete_mod ts i w0 =
     (case validate_identifier i of
        Some k \<Rightarrow> (Some (StoreErr k), w0)
      | None \<Rightarrow>
          (case confine_path (ms_engine w0) (mod_dir (ms_engine w0) i) of
             Some err \<Rightarrow> (Some err, w0)
           | None \<Rightarrow>
               (case stat_path (mod_dir (ms_engine w0) i) w0 of
                  (Some x, w1) \<Rightarrow>
                    (Some (if x = ENOENT then StoreErr (NotFound ''mod'') else io_err (SysErr x)), w1)
                | (None, w1) \<Rightarrow>
                    (case trash_mod ts i w1 of
                       (Some x, w2) \<Rightarrow> (Some (io_err (SysErr x)), w2)
                     | (None, w2) \<Rightarrow> (None, w2\<lparr>ms_engine := forget_mod i (ms_engine w2)\<rparr>)))))"

end
