(* ===== verification/Mods_Laws.thy ===== *)
theory Mods_Laws
  imports Mods
begin

text \<open>
  What the operations on mods promise: an archive changes nothing outside the directory of its mod
  and the list of mods; the list behaves as a set; the view shows a mod as enabled only when what
  it requires is there; a deleted mod is in the trash.
\<close>

section \<open>Where the members of an archive land\<close>

text \<open>The segments of a cleaned relative path: climbing first, then plain ones.\<close>

lemma relative_segs: "\<exists>n ps. segs_of p = replicate n [dot, dot] @ ps \<and> list_all plain_seg ps" if "\<not> rooted p"
proof -
  have "\<exists>n ps. clean_segs False [] ss = replicate n [dot, dot] @ ps \<and> list_all plain_seg ps"
    if "\<forall>s \<in> set ss. slash \<notin> set s" for ss
    using that
  proof (induction ss rule: rev_induct)
    case Nil
    show ?case by (rule exI [of _ 0]) (simp add: clean_segs_def)
  next
    case (snoc s ss)
    then obtain n ps where i: "clean_segs False [] ss = replicate n [dot, dot] @ ps" "list_all plain_seg ps" by auto
    have o': "clean_segs False [] (ss @ [s]) = rev (clean_step False (rev (replicate n [dot, dot] @ ps)) s)"
      using i(1) by (metis (no_types) clean_segs_def foldl_Cons foldl_Nil foldl_append rev_rev_ident)
    consider "s = [] \<or> s = [dot]" | "s = [dot, dot]" | "plain_seg s"
      using snoc.prems by (auto simp: plain_seg_def)
    then show ?case
    proof cases
      case 1
      then show ?thesis using i o' by (auto simp: clean_step_def)
    next
      case 2
      show ?thesis
      proof (cases ps rule: rev_cases)
        case Nil
        then have "clean_segs False [] (ss @ [s]) = replicate (Suc n) [dot, dot] @ []"
          using o' 2 by (cases n) (simp_all add: clean_step_def replicate_append_same)
        then show ?thesis by (intro exI [of _ "Suc n"] exI [of _ "[]"]) simp
      next
        case (snoc qs q)
        then have "clean_segs False [] (ss @ [s]) = replicate n [dot, dot] @ qs" "list_all plain_seg qs"
          using o' 2 i(2) by (auto simp: clean_step_def plain_seg_def)
        then show ?thesis by blast
      qed
    next
      case 3
      then have "clean_segs False [] (ss @ [s]) = replicate n [dot, dot] @ (ps @ [s])"
        using o' by (simp add: clean_step_id)
      then show ?thesis using i(2) 3 by fastforce
    qed
  qed
  from this [OF split_segs_no_sep] show ?thesis using that by (simp add: segs_of_def)
qed

lemma relative_name_plain:
  assumes "\<not> rooted (clean p)" and "clean p \<noteq> [dot]" and "\<not> prefix [dot, dot] (clean p)"
  shows "list_all plain_seg (split_on slash (clean p))"
proof -
  have r: "\<not> rooted p" using assms(1) by simp
  obtain n ps where s: "segs_of p = replicate n [dot, dot] @ ps" "list_all plain_seg ps"
    using relative_segs [OF r] by blast
  have c: "segs_of p \<noteq> []" "clean p = join_on slash (segs_of p)"
    using r assms(2) by (auto simp: clean_def split: if_splits)
  have "n = 0"
  proof (cases n)
    case (Suc k)
    then show ?thesis using c s assms(3) by (cases "replicate k [dot, dot] @ ps") (auto simp: dot_def)
  qed simp
  then have "split_on slash (clean p) = segs_of p"
    using c s by (simp add: split_join_on [OF _ plain_no_sep])
  then show ?thesis using s \<open>n = 0\<close> by simp
qed

definition strictly_under :: "string list \<Rightarrow> string \<Rightarrow> bool" where
  "strictly_under ss p \<longleftrightarrow> (\<exists>t ts. segs_of p = ss @ t # ts)"

lemma member_target_under:
  assumes "rooted dest" and "member_target dest h = Inr (Some target)"
  shows "strictly_under (segs_of dest) target"
proof -
  let ?n = "clean (trim_prefix ''./'' (th_name h))"
  have n: "\<not> rooted ?n" "?n \<noteq> [dot]" "\<not> prefix [dot, dot] ?n" "target = join_path dest ?n"
    using assms(2) by (auto simp: member_target_def Let_def split: if_splits)
  have "segs_of target = segs_of dest @ split_on slash ?n"
    using segs_of_join_segs [OF assms(1) relative_name_plain [OF n(1-3)]] n(4) by simp
  then show ?thesis by (cases "split_on slash ?n") (auto simp: strictly_under_def)
qed

section \<open>An archive changes its mod only\<close>

definition same_outside :: "string set \<Rightarrow> files \<Rightarrow> files \<Rightarrow> bool" where
  "same_outside A m0 m \<longleftrightarrow> (\<forall>p. p \<notin> A \<longrightarrow> get m p = get m0 p)"

lemma ignores_outside: "q \<in> A \<Longrightarrow> ignores q (same_outside A m0)"
  by (auto simp: ignores_def same_outside_def)

lemma mod_dir_segs:
  assumes "rooted (eng_dir e)" and "validate_identifier i = None"
  shows "rooted (mod_dir e i)" and "segs_of (mod_dir e i) = segs_of (eng_dir e) @ [''mods'', i]"
proof -
  have m: "plain_seg ''mods''" by (rule plain_seg_long) (simp_all add: slash_def)
  have i: "plain_seg i"
    using identifier_chars [OF assms(2)] assms(2) by (auto simp: plain_seg_def validate_identifier_def split: if_splits)
  show "rooted (mod_dir e i)" using assms(1) by (simp add: mod_dir_def dir_for_def)
  show "segs_of (mod_dir e i) = segs_of (eng_dir e) @ [''mods'', i]"
    using segs_of_join_plain [OF assms(1) m] segs_of_join_plain [of "dir_for e ''mods''" i] assms(1) i
    by (simp add: mod_dir_def dir_for_def)
qed

lemma on_engine_step:
  assumes "on_engine f w = (r, w')" and "J (snd (f (ms_engine w)))"
  shows "J (ms_engine w')"
  using assms by (auto simp: on_engine_def split: prod.splits)

text \<open>The operations on directories and files keep what the calls on a set of paths keep.\<close>

lemma stable_dir_ops:
  assumes st: "stable A J" and J: "J (ms_engine w)"
  shows "mkdir_all d w = (r, w') \<Longrightarrow> J (ms_engine w')"
    "stat_path p w = (r, w') \<Longrightarrow> J (ms_engine w')"
    "open_trunc p w = (r, w') \<Longrightarrow> p \<in> A \<Longrightarrow> J (ms_engine w')"
proof -
  obtain f w1 where f: "on_engine next_fault w = (f, w1)" by fastforce
  have j1: "J (ms_engine w1)" by (rule on_engine_step [where J = J, OF f stableD(2) [OF st J]])
  show "mkdir_all d w = (r, w') \<Longrightarrow> J (ms_engine w')"
    using j1 by (auto simp: mkdir_all_def f split: fault.splits if_splits)
  show "stat_path p w = (r, w') \<Longrightarrow> J (ms_engine w')"
    using j1 by (auto simp: stat_path_def f split: fault.splits if_splits)
  show "open_trunc p w = (r, w') \<Longrightarrow> p \<in> A \<Longrightarrow> J (ms_engine w')"
    using j1 f stableD(7) [OF st J] on_engine_step [of "sys_truncate p" w r w' J]
    by (auto simp: open_trunc_def split: if_splits)
qed

lemma stable_fill_mod_file:
  assumes st: "stable A J" and J: "J (ms_engine w)" and t: "target \<in> A" and c: "fill_mod_file target m w = (r, w')"
  shows "J (ms_engine w')"
proof -
  obtain h body where m: "m = (h, body)" by fastforce
  obtain r1 w1 where c1: "mkdir_all (dir_of target) w = (r1, w1)" by fastforce
  note j1 = stable_dir_ops(1) [OF st J c1]
  obtain r2 w2 where c2: "open_trunc target w1 = (r2, w2)" by fastforce
  note j2 = stable_dir_ops(3) [OF st j1 c2 t]
  obtain r3 w3 where c3: "on_engine (sys_write target body) w2 = (r3, w3)" by fastforce
  note j3 = on_engine_step [where J = J, OF c3 stableD(9) [OF st j2 t]]
  obtain r4 w4 where c4: "on_engine sys_plain w3 = (r4, w4)" by fastforce
  note j4 = on_engine_step [where J = J, OF c4 stableD(1) [OF st j3]]
  obtain r5 w5 where c5: "on_engine (sys_remove target) w4 = (r5, w5)" by fastforce
  note j5 = on_engine_step [where J = J, OF c5 stableD(8) [OF st j4 t]]
  show ?thesis
    using c j1 j2 j4 j5 by (auto simp: fill_mod_file_def m c1 c2 c3 c4 c5 split: option.splits if_splits)
qed

lemma stable_unpack:
  assumes st: "stable A J" and under: "\<And>h t. member_target dest h = Inr (Some t) \<Longrightarrow> t \<in> A"
    and "J (ms_engine w)" and "unpack_members dest clean_end ms n w = (r, w')"
  shows "J (ms_engine w')"
  using assms(3,4)
proof (induction ms arbitrary: n w)
  case (Cons m ms)
  show ?case
  proof (cases "member_target dest (fst m)")
    case (Inl err)
    then show ?thesis using Cons.prems by simp
  next
    case (Inr x)
    show ?thesis
    proof (cases x)
      case None
      then show ?thesis using Inr Cons by simp
    next
      case (Some t)
      have t: "t \<in> A" using under Inr Some by blast
      obtain r1 w1 where c1: "mkdir_all t w = (r1, w1)" by fastforce
      note j1 = stable_dir_ops(1) [OF st Cons.prems(1) c1]
      obtain r2 w2 where c2: "fill_mod_file t m w = (r2, w2)" by fastforce
      note j2 = stable_fill_mod_file [OF st Cons.prems(1) t c2]
      show ?thesis
        using Cons.prems j1 j2 Cons.IH [of w1] Cons.IH [of w2] Inr Some
        by (auto simp: c1 c2 Let_def split: if_splits option.splits)
    qed
  qed
qed simp

lemma stable_read_mods_state: "stable A J \<Longrightarrow> J e \<Longrightarrow> read_mods_state e = (st, e') \<Longrightarrow> J e'"
  using stableD(3) [of A J e "mods_file e"]
  by (auto simp: read_mods_state_def split: prod.splits sum.splits option.splits)

lemma stable_mod_change:
  assumes st: "stable A J" and J: "J (ms_engine w)"
    and under: "\<And>h t. member_target (mod_dir (ms_engine w) (ma_id a)) h = Inr (Some t) \<Longrightarrow> t \<in> A"
    and c: "mod_change unpack a ids w = (r, w')"
  shows "J (ms_engine w')"
proof -
  let ?d = "mod_dir (ms_engine w) (ma_id a)"
  obtain r1 w1 where c1: "stat_path ?d w = (r1, w1)" by fastforce
  note j1 = stable_dir_ops(2) [OF st J c1]
  obtain r2 w2 where c2: "mkdir_all ?d w = (r2, w2)" by fastforce
  note j2 = stable_dir_ops(1) [OF st J c2]
  obtain ms ce where u: "unpack (ma_archive a) = (ms, ce)" by fastforce
  obtain r3 w3 where c3: "unpack_members ?d ce ms 0 w2 = (r3, w3)" by fastforce
  note j3 = stable_unpack [OF st under j2 c3]
  show ?thesis
    using c J j1 j2 j3
    by (auto simp: mod_change_def install_mod_def extract_tar_zstd_def c1 c2 c3 u split: if_splits option.splits)
qed

lemma stable_mod_action:
  assumes st: "stable A J" and J: "J (ms_engine w)" and A: "write_paths (mods_file (ms_engine w)) \<subseteq> A"
    and under: "\<And>h t. validate_identifier (ma_id a) = None \<Longrightarrow>
       member_target (mod_dir (ms_engine w) (ma_id a)) h = Inr (Some t) \<Longrightarrow> t \<in> A"
    and c: "mod_action unpack a w = (r, w')"
  shows "J (ms_engine w')"
proof (cases "validate_identifier (ma_id a) = None \<and> writable (ms_engine w)")
  case False
  then show ?thesis using c J by (auto simp: mod_action_def split: option.splits)
next
  case True
  let ?K = "\<lambda>e. J e \<and> frame (ms_engine w) e"
  have sk: "stable A ?K" by (rule stable_conj [OF st stable_frame])
  obtain s w1 where c1: "on_engine read_mods_state w = (s, w1)" by fastforce
  have k1: "?K (ms_engine w1)"
    using stable_read_mods_state [OF sk, of "ms_engine w"] J on_engine_step [OF c1, of ?K] frame_refl
    by (metis prod.collapse)
  have d: "mod_dir (ms_engine w1) (ma_id a) = mod_dir (ms_engine w) (ma_id a)"
    using k1 by (simp add: frame_def mod_dir_def dir_for_def)
  obtain r2 w2 where c2: "mod_change unpack a (enabled_list s) w1 = (r2, w2)" by fastforce
  have k2: "?K (ms_engine w2)"
    by (rule stable_mod_change [where A = A and J = ?K, OF sk k1 _ c2]) (use under True in \<open>simp add: d\<close>)
  have f: "mods_file (ms_engine w2) = mods_file (ms_engine w)"
    using k2 by (simp add: frame_def mods_file_def dir_for_def)
  have k3: "?K (ms_engine w3)" if "on_engine (write_atomic (mods_file (ms_engine w2)) body) w2 = (x, w3)" for x w3 body
    using stable_write_atomic [OF sk k2, of "mods_file (ms_engine w2)"] A f on_engine_step [OF that, of ?K]
    by (metis prod.collapse)
  show ?thesis
    using c k1 k2 k3 stableD(11) [OF st] True
    by (auto simp: mod_action_def c1 c2 split: sum.splits option.splits prod.splits)
qed

definition mod_area :: "engine \<Rightarrow> string \<Rightarrow> string set" where
  "mod_area e i = {p. strictly_under (segs_of (eng_dir e) @ [''mods'', i]) p}"

text \<open>
  C19: An action on a mod touches that mod only. Whatever the archive holds, whichever calls fail
  and wherever a crash falls: every file outside \<open>data/mods/<id>\<close> is as it was, the list of mods
  (with its temporary file and its \<open>.bak\<close>) apart. So a mod archive cannot reach a save, a setting
  or another mod.
\<close>
theorem mod_action_confined:
  assumes "rooted (eng_dir (ms_engine w))" and "mod_action unpack a w = (r, w')"
  shows "crash_inv (same_outside (mod_area (ms_engine w) (ma_id a) \<union> write_paths (mods_file (ms_engine w))) (files (ms_engine w)))
    (ms_engine w) (ms_engine w')"
proof (rule stable_mod_action [OF stable_crash [OF ignores_outside] _ _ _ assms(2)])
  show "crash_inv (same_outside (mod_area (ms_engine w) (ma_id a) \<union> write_paths (mods_file (ms_engine w))) (files (ms_engine w)))
      (ms_engine w) (ms_engine w)"
    by (rule crash_inv_refl) (simp add: same_outside_def)
  fix h t
  assume i: "validate_identifier (ma_id a) = None" and t: "member_target (mod_dir (ms_engine w) (ma_id a)) h = Inr (Some t)"
  show "t \<in> mod_area (ms_engine w) (ma_id a) \<union> write_paths (mods_file (ms_engine w))"
    using member_target_under [OF mod_dir_segs(1) [OF assms(1) i] t] mod_dir_segs(2) [OF assms(1) i]
    by (simp add: mod_area_def)
qed (assumption, rule Un_upper2)

section \<open>The list of mods is a set\<close>

lemma stable_quiet: "stable A (\<lambda>e. faults e = [])"
proof -
  have "faults (snd (sys_readdir q e)) = [] \<and> faults (snd (sys_read q e)) = [] \<and> faults (snd (sys_truncate q e)) = []
      \<and> faults (snd (sys_plain e)) = []" if "faults e = []" for q and e :: engine
    using that by (simp add: sys_readdir_def sys_read_def sys_truncate_def sys_plain_def next_fault_def split: option.split)
  then show ?thesis
    by (auto simp: stable_def quiet_all log_event_def split: option.split)
qed

lemma conv_all_texts: "conv_all as_text (map JStr ids) = Some ids"
  by (rule conv_all_map) (simp add: as_text_def as_string_def)

lemma decode_mods_body: "decode_document decode_mods_state (mods_body ids) = Some \<lparr>mo_enabled = ids\<rparr>"
proof -
  let ?v = "case ids of None \<Rightarrow> JNull | Some is \<Rightarrow> JArr (map JStr is)"
  have l: "literals_ok (JObj [(''enabled'', ?v)])"
    by (cases ids) (simp_all add: list_all_iff)
  have r: "as_read ?v = ?v" by (cases ids) (simp_all add: comp_def)
  have "decode_mods_state [(''enabled'', ?v, x)] = Some \<lparr>mo_enabled = ids\<rparr>" for x
    using conv_all_texts
    by (cases ids)
      (simp_all add: decode_mods_state_def ptr_field_def typed_field_def named_simps named_def to_lower_ascii_def
        last_opt_def as_list_def mods_state.defs)
  then show ?thesis
    using decode_document_text [OF l, of decode_mods_state] r by (simp add: mods_body_def)
qed

lemma quiet_read_mods_state:
  assumes "faults e = []"
  shows "snd (read_mods_state e) = e"
    and "get (files e) (mods_file e) = Some (mods_body ids) \<Longrightarrow>
      fst (read_mods_state e) = \<lparr>mo_enabled = map_option (filter (\<lambda>i. validate_identifier i = None)) ids\<rparr>"
  using assms
  by (simp_all add: read_mods_state_def sys_read_def quiet_all decode_mods_body split: option.split sum.split)

lemma enabled_valid: "i \<in> set (enabled_list (fst (read_mods_state e))) \<Longrightarrow> validate_identifier i = None"
  by (auto simp: read_mods_state_def enabled_list_def no_mods_def map_option_case
      split: prod.splits sum.splits option.splits)

text \<open>What the file lists, as a set.\<close>

definition listed_mods :: "engine \<Rightarrow> string set" where
  "listed_mods e = set (fst (enabled_mod_ids e))"

lemma listed_alt: "listed_mods e = set (enabled_list (fst (read_mods_state e)))"
  by (simp add: listed_mods_def enabled_mod_ids_def split: prod.split)

lemma temp_apart_mods:
  assumes "rooted (eng_dir e)"
  shows "temp_apart (mods_file e)" and "mods_file e = path_of (segs_of (eng_dir e) @ [''config'', ''mods.json''])"
proof -
  have m: "plain_seg ''mods.json''" by (rule plain_seg_long) (simp_all add: slash_def)
  show f: "mods_file e = path_of (segs_of (eng_dir e) @ [''config'', ''mods.json''])"
    using in_dir_path [OF assms plain_areas(2) m] by (simp add: mods_file_def)
  show "temp_apart (mods_file e)"
    using temp_apart_path [OF _ m, of "segs_of (eng_dir e) @ [''config'']"] list_all_segs_of [OF assms] plain_areas(2)
    by (simp add: f)
qed

lemma mod_change_result:
  assumes "mod_change unpack a ids w = (Inr ids', w')"
  shows "set ids' = (if ma_action a = ''disable'' then set ids - {ma_id a} else insert (ma_id a) (set ids))"
    and "ma_action a \<in> {''enable'', ''disable'', ''install''}"
  using assms by (auto simp: mod_change_def split: if_splits option.splits prod.splits)

text \<open>An action that succeeds, from the list it read on.\<close>

lemma mod_action_lists:
  assumes q: "faults e1 = []" and r: "rooted (eng_dir (ms_engine w))" and rs: "read_mods_state (ms_engine w) = (st, e1)"
    and v: "\<And>i. i \<in> set (enabled_list st) \<Longrightarrow> validate_identifier i = None" and a: "mod_action unpack a w = (None, w')"
  shows "fst (enabled_mod_ids (ms_engine w')) = sorted_list_of_set
    (if ma_action a = ''disable'' then set (enabled_list st) - {ma_id a} else insert (ma_id a) (set (enabled_list st)))"
proof -
  let ?e = "ms_engine w" and ?J = "\<lambda>e. faults e = [] \<and> frame (ms_engine w) e" and ?w1 = "w\<lparr>ms_engine := e1\<rparr>"
  have sJ: "stable UNIV ?J" by (rule stable_conj [OF stable_quiet stable_frame])
  have va: "validate_identifier (ma_id a) = None" using a by (auto simp: mod_action_def split: option.splits)
  have j1: "?J e1" using q stable_read_mods_state [OF stable_frame frame_refl rs] by simp
  obtain ids w2 w3 where c: "mod_change unpack a (enabled_list st) ?w1 = (Inr ids, w2)"
      "on_engine (write_atomic (mods_file (ms_engine w2)) (mods_body (Some (sort (remdups ids))))) w2 = (None, w3)"
      "ms_engine w' = log_event ''mod.action'' (ms_engine w3)"
    using a va rs by (auto simp: mod_action_def on_engine_def split: if_splits prod.splits sum.splits option.splits)
  have j2: "?J (ms_engine w2)"
    by (rule stable_mod_change [where A = UNIV and J = ?J, OF sJ _ _ c(1)]) (use j1 in simp_all)
  define body where "body = mods_body (Some (sort (remdups ids)))"
  obtain e3 where e3: "write_atomic (mods_file (ms_engine w2)) body (ms_engine w2) = (None, e3)" "ms_engine w3 = e3"
    using c(2) by (auto simp: on_engine_def body_def split: prod.splits)
  have j3: "?J e3" by (rule stable_write_atomic [OF sJ j2 subset_UNIV e3(1)])
  have fr: "mods_file (ms_engine w2) = mods_file ?e" "mods_file (ms_engine w') = mods_file ?e"
    using j2 j3 c(3) e3(2) by (simp_all add: frame_def mods_file_def dir_for_def log_event_def)
  have nx: "no_exdev (ms_engine w2)" using j2 by (simp add: no_exdev_def)
  have "get (files e3) (mods_file ?e) = Some body"
    using write_atomic_crash [OF temp_apart_mods(1) [OF r] refl nx, of body] e3(1) fr(1) by simp
  then have "get (files (ms_engine w')) (mods_file (ms_engine w')) = Some body"
    by (simp only: fr(2)) (simp add: c(3) e3(2))
  moreover have "faults (ms_engine w') = []" using j3 c(3) e3(2) by simp
  moreover have "\<forall>i \<in> set ids. validate_identifier i = None"
    using mod_change_result(1) [OF c(1)] v va by (auto split: if_splits)
  ultimately have "fst (enabled_mod_ids (ms_engine w')) = sort (remdups ids)"
    using quiet_read_mods_state(2) [of "ms_engine w'" "Some (sort (remdups ids))"]
    by (cases "read_mods_state (ms_engine w')")
      (simp add: enabled_mod_ids_def enabled_list_def filter_True sorted_sort_id body_def)
  then show ?thesis
    by (simp only: mod_change_result(1) [OF c(1), symmetric] sorted_list_of_set_sort_remdups)
qed

text \<open>
  C25: The list of mods refines a set. On a disk where no call fails, an enable or install that
  succeeds adds the mod to the set \<open>EnabledModIDs\<close> reports, a disable removes it, the other mods
  stay, and the report is sorted and without duplicates: the encoding, the atomic write, the reading
  and the checks in between are not seen.
\<close>
theorem mods_list_refines_set:
  assumes "faults (ms_engine w) = []" and "rooted (eng_dir (ms_engine w))" and "mod_action unpack a w = (None, w')"
  shows "fst (enabled_mod_ids (ms_engine w')) = sorted_list_of_set
    (if ma_action a = ''disable'' then listed_mods (ms_engine w) - {ma_id a} else insert (ma_id a) (listed_mods (ms_engine w)))"
proof -
  obtain st where rs: "read_mods_state (ms_engine w) = (st, ms_engine w)"
    using quiet_read_mods_state(1) [OF assms(1)] by (metis prod.collapse)
  show ?thesis
    using mod_action_lists [OF assms(1,2) rs _ assms(3)] enabled_valid [of _ "ms_engine w"]
    by (simp add: listed_alt rs)
qed

text \<open>A list that cannot be read counts as empty, and the next action writes it back so.\<close>

lemma unreadable_list_is_lost:
  assumes "faults (ms_engine w) = [Fails EIO n]" and "rooted (eng_dir (ms_engine w))" and "ma_action a = ''disable''"
    and "mod_action unpack a w = (None, w')"
  shows "fst (enabled_mod_ids (ms_engine w')) = []"
  using mod_action_lists [of "ms_engine w\<lparr>faults := []\<rparr>" w no_mods unpack a w'] assms
  by (simp add: read_mods_state_def sys_read_def next_fault_def no_mods_def enabled_list_def)

section \<open>A deleted mod is in the trash\<close>

lemma get_moved:
  assumes "\<not> list_ex (\<lambda>q. q = dst \<or> below_dir dst q) (map fst m)"
  shows "get (map (\<lambda>(p, x). (moved_to src dst p, x)) m) (dst @ slash # t) = get m (src @ slash # t)"
    and "\<not> below_dir dst p \<Longrightarrow> p \<noteq> dst \<Longrightarrow>
      get (map (\<lambda>(p, x). (moved_to src dst p, x)) m) p = (if p = src \<or> below_dir src p then None else get m p)"
proof -
  have b: "moved_to src dst q = dst @ slash # t \<longleftrightarrow> q = src @ slash # t" if "q \<noteq> dst" "\<not> below_dir dst q" for q
    using that by (auto simp: moved_to_def below_dir_def prefix_def)
  show "get (map (\<lambda>(p, x). (moved_to src dst p, x)) m) (dst @ slash # t) = get m (src @ slash # t)"
  proof -
    have b': "dst @ slash # t = moved_to src dst q \<longleftrightarrow> q = src @ slash # t" if "q \<noteq> dst" "\<not> below_dir dst q" for q
      using b [OF that] by metis
    show ?thesis using assms by (induction m) (auto simp: get_def b b')
  qed
  have c: "moved_to src dst q = p \<longleftrightarrow> q = p \<and> p \<noteq> src \<and> \<not> below_dir src p" if "\<not> below_dir dst p" "p \<noteq> dst" for q
    using that by (auto simp: moved_to_def below_dir_def prefix_def)
  show "get (map (\<lambda>(p, x). (moved_to src dst p, x)) m) p = (if p = src \<or> below_dir src p then None else get m p)"
    if "\<not> below_dir dst p" "p \<noteq> dst"
  proof -
    have c': "p = moved_to src dst q \<longleftrightarrow> q = p \<and> p \<noteq> src \<and> \<not> below_dir src p" for q
      using c [OF that] by metis
    show ?thesis
    proof (cases "p = src \<or> below_dir src p")
      case True
      then have "p \<noteq> moved_to src dst q" for q using c' by blast
      then show ?thesis using True by (induction m) (simp_all add: get_def case_prod_unfold)
    next
      case False
      then show ?thesis by (induction m) (simp_all add: get_def c' case_prod_unfold)
    qed
  qed
qed

lemma rename_tree_ok:
  assumes "rename_tree src dst w = (None, w')"
  shows "files (ms_engine w') = map (\<lambda>(p, x). (moved_to src dst p, x)) (files (ms_engine w))"
    and "\<not> list_ex (\<lambda>q. q = dst \<or> below_dir dst q) (map fst (files (ms_engine w)))"
proof -
  obtain f e1 where f: "next_fault (ms_engine w) = (f, e1)" by fastforce
  have *: "files e1 = files (ms_engine w)" "f = Runs" "\<not> dir_there dst (w\<lparr>ms_engine := e1\<rparr>)" "get (files e1) dst = None"
    "files (ms_engine w') = map (\<lambda>(p, x). (moved_to src dst p, x)) (files e1)"
    using assms next_fault_files(1) [OF f] by (auto simp: rename_tree_def on_engine_def f split: fault.splits if_splits)
  then show "files (ms_engine w') = map (\<lambda>(p, x). (moved_to src dst p, x)) (files (ms_engine w))" by simp
  show "\<not> list_ex (\<lambda>q. q = dst \<or> below_dir dst q) (map fst (files (ms_engine w)))"
    using * by (auto simp: dir_there_def list_ex_iff get_def map_of_eq_None_iff)
qed

text \<open>The files of the list are apart from the trash and from the mods.\<close>

lemma write_paths_in:
  assumes "rooted (eng_dir e)" and "q \<in> write_paths (mods_file e)"
  shows "\<exists>s. plain_seg s \<and> q = path_of (segs_of (eng_dir e) @ [''config'', s])"
proof -
  let ?ss = "segs_of (eng_dir e) @ [''config'']"
  have ss: "list_all plain_seg ?ss" using list_all_segs_of [OF assms(1)] plain_areas(2) by simp
  have m: "mods_file e = path_of (?ss @ [''mods.json''])" using temp_apart_mods(2) [OF assms(1)] by simp
  have nm: "slash \<notin> set ''mods.json''" by (simp add: slash_def)
  have t: "temp_name p n (mods_file e) = path_of (?ss @ [dot # ''mods.json'' @ ''.tmp-'' @ fmt_nat p @ ''-'' @ fmt_nat n])" for p n
  proof -
    have s: "slash \<notin> set (dot # ''mods.json'' @ ''.tmp-'' @ fmt_nat p @ ''-'' @ fmt_nat n)"
      using digits_no_slash by (auto simp: slash_def dot_def)
    then have pl: "plain_seg (dot # ''mods.json'' @ ''.tmp-'' @ fmt_nat p @ ''-'' @ fmt_nat n)"
      by (rule plain_seg_long) simp
    show ?thesis
      unfolding m temp_name_def base_name_path_of [OF nm] dir_of_path_of [OF ss nm]
      using join_path_of [OF rooted_path_of pl, of ?ss] ss by (simp add: segs_of_path_of)
  qed
  have "bak_of (mods_file e) = path_of (?ss @ [''mods.json.bak''])"
    unfolding m bak_of_def path_of_append_name by simp
  moreover have "plain_seg ''mods.json''" "plain_seg ''mods.json.bak''"
    by (rule plain_seg_long; simp add: slash_def)+
  moreover have "plain_seg (dot # ''mods.json'' @ ''.tmp-'' @ fmt_nat p @ ''-'' @ fmt_nat n)" for p n
    using digits_no_slash by (intro plain_seg_long) (auto simp: slash_def dot_def)
  moreover consider "q = mods_file e" | "q = bak_of (mods_file e)" | p n where "q = temp_name p n (mods_file e)"
    using assms(2) by (auto simp: write_paths_def)
  ultimately have "\<exists>s. plain_seg s \<and> q = path_of (?ss @ [s])"
    using m t by metis
  then show ?thesis by simp
qed

lemma path_of_apart:
  assumes "list_all plain_seg (ss @ a # as)" and "list_all plain_seg (ss @ b # bs)" and "a \<noteq> b"
  shows "path_of (ss @ a # as) \<noteq> path_of (ss @ b # bs) @ slash # t"
proof
  assume "path_of (ss @ a # as) = path_of (ss @ b # bs) @ slash # t"
  from arg_cong [where f = "split_on slash", OF this] show False
    using assms(3) by (simp add: split_path_of [OF assms(1)] split_on_app_sep split_path_of [OF assms(2)])
qed

lemma below_apart:
  assumes "list_all plain_seg (ss @ a # as)" and "list_all plain_seg (ss @ b # bs)" and "a \<noteq> b"
  shows "path_of (ss @ a # as) @ slash # u \<noteq> path_of (ss @ b # bs) @ slash # t"
proof
  assume "path_of (ss @ a # as) @ slash # u = path_of (ss @ b # bs) @ slash # t"
  from arg_cong [where f = "split_on slash", OF this] show False
    using assms(3) by (simp add: split_path_of [OF assms(1)] split_on_app_sep split_path_of [OF assms(2)])
qed

definition trashed_mod :: "engine \<Rightarrow> string \<Rightarrow> string \<Rightarrow> string" where
  "trashed_mod e ts i = join_path (new_trash_dir ts ''mods'' e) i"

lemma mod_paths:
  assumes "rooted (eng_dir e)" and "validate_identifier i = None" and "slash \<notin> set ts"
  shows "mod_dir e i = path_of (segs_of (eng_dir e) @ [''mods'', i])"
    and "trashed_mod e ts i = path_of (segs_of (eng_dir e) @ [''.trash-'' @ ts, ''mods'', i])"
    and "plain_seg i" "plain_seg (''.trash-'' @ ts)" "plain_seg ''mods''"
proof -
  show m: "plain_seg ''mods''" by (rule plain_seg_long) (simp_all add: slash_def)
  show i: "plain_seg i"
    using identifier_chars [OF assms(2)] assms(2) by (auto simp: plain_seg_def validate_identifier_def split: if_splits)
  show t: "plain_seg (''.trash-'' @ ts)" using assms(3) by (intro plain_seg_long) (auto simp: slash_def)
  show "mod_dir e i = path_of (segs_of (eng_dir e) @ [''mods'', i])"
    using in_dir_path [OF assms(1) m i] by (simp add: mod_dir_def)
  have "new_trash_dir ts ''mods'' e = path_of (segs_of (eng_dir e) @ [''.trash-'' @ ts, ''mods''])"
    using join_path_two [OF assms(1) t m] by (simp add: new_trash_dir_def)
  then show "trashed_mod e ts i = path_of (segs_of (eng_dir e) @ [''.trash-'' @ ts, ''mods'', i])"
    using join_path_of [OF rooted_path_of i, of "segs_of (eng_dir e) @ [''.trash-'' @ ts, ''mods'']"]
      list_all_segs_of [OF assms(1)] t m by (simp add: trashed_mod_def segs_of_path_of)
qed

lemma forget_mod_outside:
  assumes "q \<notin> write_paths (mods_file e)"
  shows "get (files (forget_mod i e)) q = get (files e) q"
proof -
  let ?J = "\<lambda>d. get (files d) q = get (files e) q \<and> frame e d"
  have "stable (- {q}) (crash_inv (\<lambda>m. get m q = get (files e) q) e)"
    by (rule stable_crash) (auto simp: ignores_def)
  then have sk: "stable (- {q}) (\<lambda>d. crash_inv (\<lambda>m. get m q = get (files e) q) e d \<and> frame e d)"
    by (rule stable_conj [OF _ stable_frame])
  obtain st e1 where c1: "read_mods_state e = (st, e1)" by fastforce
  have k1: "crash_inv (\<lambda>m. get m q = get (files e) q) e e1 \<and> frame e e1"
    by (rule stable_read_mods_state [OF sk _ c1]) (simp add: crash_inv_refl frame_refl)
  have mf: "mods_file e1 = mods_file e" using k1 by (simp add: frame_def mods_file_def dir_for_def)
  obtain r2 e2 where c2: "write_atomic (mods_file e1) (mods_body (map_option (filter (\<lambda>j. j \<noteq> i)) (mo_enabled st))) e1 = (r2, e2)"
    by fastforce
  have "crash_inv (\<lambda>m. get m q = get (files e) q) e e2 \<and> frame e e2"
    by (rule stable_write_atomic [OF sk k1 _ c2]) (use assms mf in auto)
  then show ?thesis using crash_inv_last by (fastforce simp: forget_mod_def c1 c2)
qed

lemma trash_mod_ok:
  assumes "trash_mod ts i w = (None, w')" and "no_exdev (ms_engine w)" and "slash \<notin> set ts"
    and "rooted (eng_dir (ms_engine w))" and "validate_identifier i = None"
  shows "\<exists>w1. rename_tree (mod_dir (ms_engine w) i) (trashed_mod (ms_engine w) ts i) w1 = (None, w')
    \<and> files (ms_engine w1) = files (ms_engine w) \<and> frame (ms_engine w) (ms_engine w')"
proof -
  let ?d = "mod_dir (ms_engine w) i" and ?t = "trashed_mod (ms_engine w) ts i"
  obtain r1 w1 where c1: "mkdir_all (new_trash_dir ts ''mods'' (ms_engine w)) w = (r1, w1)" by fastforce
  have k1: "no_exdev (ms_engine w1)" "looked (ms_engine w) (ms_engine w1)"
    using stable_dir_ops(1) [OF stable_no_exdev assms(2) c1]
      stable_dir_ops(1) [where J = "looked (ms_engine w)", OF stable_looked _ c1] looked_refl by simp_all
  obtain r2 w2 where c2: "rename_tree ?d ?t w1 = (r2, w2)" by fastforce
  have x: "r2 \<noteq> Some EXDEV"
    using c2 k1(1) next_fault_exdev [of "ms_engine w1"]
    by (auto simp: rename_tree_def on_engine_def split: prod.splits fault.splits if_splits)
  have r: "r1 = None" "r2 = None" "w' = w2"
    using assms(1) x by (auto simp: trash_mod_def Let_def c1 c2 [unfolded trashed_mod_def] split: option.splits if_splits)
  have "frame (ms_engine w1) (ms_engine w2)"
    using c2 r by (auto simp: rename_tree_def on_engine_def frame_next [THEN iffD2, OF _ frame_refl]
        split: prod.splits fault.splits if_splits)
  then show ?thesis
    using c2 r k1(2) crash_inv_last by (fastforce simp: looked_def frame_def)
qed

text \<open>
  C24: Deleting a mod destroys nothing. When \<open>DeleteMod\<close> has returned without an error and no call
  reports a rename across devices, every file of the mod has its content at the same place under
  the trash directory of that second, and every other file is as it was, the list of mods apart.
\<close>
theorem delete_mod_moves_to_trash:
  assumes nx: "no_exdev (ms_engine w)" and ts: "slash \<notin> set ts" and r: "rooted (eng_dir (ms_engine w))"
    and d: "delete_mod ts i w = (None, w')"
  shows "get (files (ms_engine w')) (trashed_mod (ms_engine w) ts i @ slash # t)
      = get (files (ms_engine w)) (mod_dir (ms_engine w) i @ slash # t)
    \<and> get (files (ms_engine w')) (mod_dir (ms_engine w) i @ slash # t) = None
    \<and> (\<not> below_dir (mod_dir (ms_engine w) i) q \<and> q \<noteq> mod_dir (ms_engine w) i
        \<and> \<not> below_dir (trashed_mod (ms_engine w) ts i) q \<and> q \<noteq> trashed_mod (ms_engine w) ts i
        \<and> q \<notin> write_paths (mods_file (ms_engine w))
        \<longrightarrow> get (files (ms_engine w')) q = get (files (ms_engine w)) q)"
proof -
  let ?e = "ms_engine w" and ?ss = "segs_of (eng_dir (ms_engine w))"
  let ?d = "mod_dir ?e i" and ?t = "trashed_mod ?e ts i"
  have v: "validate_identifier i = None" using d by (auto simp: delete_mod_def split: option.splits)
  note mp = mod_paths [OF r v ts] and ss = list_all_segs_of [OF r]
  obtain w1 w2 where c: "stat_path ?d w = (None, w1)" "trash_mod ts i w1 = (None, w2)"
      "ms_engine w' = forget_mod i (ms_engine w2)"
    using d by (auto simp: delete_mod_def split: option.splits prod.splits)
  have k1: "no_exdev (ms_engine w1)" "looked ?e (ms_engine w1)"
    using stable_dir_ops(2) [OF stable_no_exdev nx c(1)]
      stable_dir_ops(2) [where J = "looked ?e", OF stable_looked _ c(1)] looked_refl by simp_all
  have f1: "files (ms_engine w1) = files ?e" "eng_dir (ms_engine w1) = eng_dir ?e"
    using k1(2) crash_inv_last by (fastforce simp: looked_def frame_def)+
  have same: "mod_dir (ms_engine w1) i = ?d" "trashed_mod (ms_engine w1) ts i = ?t"
    by (simp_all add: mod_dir_def trashed_mod_def dir_for_def new_trash_dir_def f1)
  obtain w0 where w0: "rename_tree ?d ?t w0 = (None, w2)" "files (ms_engine w0) = files ?e" "frame (ms_engine w1) (ms_engine w2)"
    using trash_mod_ok [OF c(2) k1(1) ts _ v] r f1 same by auto
  note rn = rename_tree_ok [OF w0(1), unfolded w0(2)]
  have mf: "mods_file (ms_engine w2) = mods_file ?e"
    using w0(3) f1 by (simp add: frame_def mods_file_def dir_for_def)
  have forget: "get (files (ms_engine w')) p = get (files (ms_engine w2)) p" if "p \<notin> write_paths (mods_file ?e)" for p
    using forget_mod_outside [of p "ms_engine w2" i] that mf c(3) by simp
  have pl: "list_all plain_seg (?ss @ [''mods'', i])" "list_all plain_seg (?ss @ [''.trash-'' @ ts, ''mods'', i])"
    using ss mp by simp_all
  have np: "?d @ slash # t \<notin> write_paths (mods_file ?e)" "?t @ slash # t \<notin> write_paths (mods_file ?e)"
  proof -
    have "plain_seg s \<Longrightarrow> path_of (?ss @ [''config'', s]) \<noteq> ?d @ slash # t"
      "plain_seg s \<Longrightarrow> path_of (?ss @ [''config'', s]) \<noteq> ?t @ slash # t" for s
      using path_of_apart [OF _ pl(1), of "''config''" "[s]"] path_of_apart [OF _ pl(2), of "''config''" "[s]"]
        ss plain_areas(2) mp(1,2) by simp_all
    then show "?d @ slash # t \<notin> write_paths (mods_file ?e)" "?t @ slash # t \<notin> write_paths (mods_file ?e)"
      using write_paths_in [OF r] by metis+
  qed
  have apart: "\<not> below_dir ?t (?d @ slash # t)" "?t \<noteq> ?d @ slash # t"
    using below_apart [OF pl(1) pl(2)] path_of_apart [OF pl(2) pl(1)]
    by (simp_all add: mp(1,2) below_dir_def prefix_def)
  have "get (files (ms_engine w')) (?t @ slash # t) = get (files ?e) (?d @ slash # t)"
    using get_moved(1) [OF rn(2)] forget [OF np(2)] by (simp add: rn(1))
  moreover have "get (files (ms_engine w')) (?d @ slash # t) = None"
    using get_moved(2) [OF rn(2) apart(1) apart(2) [symmetric]] forget [OF np(1)] by (simp add: rn(1) below_dir_def)
  moreover have "get (files (ms_engine w')) q = get (files ?e) q"
    if "\<not> below_dir ?d q" "q \<noteq> ?d" "\<not> below_dir ?t q" "q \<noteq> ?t" "q \<notin> write_paths (mods_file ?e)"
    using get_moved(2) [OF rn(2) that(3,4)] forget [OF that(5)] that(1,2) by (simp add: rn(1))
  ultimately show ?thesis by blast
qed


section \<open>Assets\<close>

text \<open>
  What the static server relies on: the path of an asset lies in the \<open>assets\<close> directory of its mod,
  whatever the rest of the address says.
\<close>

locale asset_source =
  fixes asset :: "string \<Rightarrow> string \<Rightarrow> string option"
    and base :: string
  assumes asset_under: "asset i path = Some p \<Longrightarrow> rooted p \<and> prefix (segs_of base @ [i, ''assets'']) (segs_of p)"
    and base_rooted: "rooted base"
begin

lemma asset_confined: "asset i path = Some p \<Longrightarrow> confine base p"
  using asset_under [of i path p] base_rooted confine_iff_prefix [of base p] append_prefixD by blast

lemma assets_apart: "asset i x = Some p \<Longrightarrow> asset j y = Some p \<Longrightarrow> i = j"
  using asset_under [of i x p] asset_under [of j y p] by (auto simp: prefix_def)

end

definition engine_asset :: "engine \<Rightarrow> string \<Rightarrow> string \<Rightarrow> string option" where
  "engine_asset e i path = (case mod_asset_path e i path of Inr p \<Rightarrow> Some p | Inl _ \<Rightarrow> None)"

lemma mod_asset_segs:
  assumes "rooted (eng_dir e)" and "mod_asset_path e i path = Inr p"
  shows "segs_of p = segs_of (eng_dir e) @ [''mods'', i, ''assets''] @ segs_of (slash # trim_prefix [slash] path)" and "rooted p"
proof -
  let ?c = "clean (slash # trim_prefix [slash] path)"
  have v: "validate_identifier i = None" using assms(2) by (auto simp: mod_asset_path_def split: option.splits)
  have p: "p = join_path (join_path (mod_dir e i) ''assets'') ?c"
    using assms(2) by (auto simp: mod_asset_path_def Let_def split: option.splits)
  have as: "plain_seg ''assets''" by (rule plain_seg_long) (simp_all add: slash_def)
  have ss: "list_all plain_seg (segs_of (slash # trim_prefix [slash] path))" by (rule list_all_segs_of) simp
  have c: "?c = path_of (segs_of (slash # trim_prefix [slash] path))" by (simp add: clean_def) (simp add: path_of_def)
  note d = mod_dir_segs [OF assms(1) v]
  have "segs_of p = clean_segs True (rev (segs_of (join_path (mod_dir e i) ''assets''))) (split_on slash ?c)"
    unfolding p by (rule segs_of_join) (use d in \<open>simp_all add: c path_of_def\<close>)
  also have "\<dots> = segs_of (mod_dir e i) @ [''assets''] @ segs_of (slash # trim_prefix [slash] path)"
    using clean_segs_id [of "segs_of (slash # trim_prefix [slash] path)"] ss segs_of_join_plain [OF d(1) as]
    by (simp add: c split_path_of clean_segs_def list_all_iff)
  finally show "segs_of p = segs_of (eng_dir e) @ [''mods'', i, ''assets''] @ segs_of (slash # trim_prefix [slash] path)"
    using d(2) by simp
  show "rooted p" unfolding p using d(1) by simp
qed

interpretation engine_assets: asset_source "if rooted (eng_dir e) then engine_asset e else (\<lambda>_ _. None)"
  "if rooted (eng_dir e) then dir_for e ''mods'' else [slash]" for e
proof
  show "rooted (if rooted (eng_dir e) then dir_for e ''mods'' else [slash])" by (simp add: dir_for_def)
  fix i path p
  assume a: "(if rooted (eng_dir e) then engine_asset e else (\<lambda>_ _. None)) i path = Some p"
  then have r: "rooted (eng_dir e)" "mod_asset_path e i path = Inr p"
    by (auto simp: engine_asset_def split: if_splits sum.splits)
  have m: "plain_seg ''mods''" by (rule plain_seg_long) (simp_all add: slash_def)
  have "segs_of (dir_for e ''mods'') = segs_of (eng_dir e) @ [''mods'']"
    using segs_of_join_plain [OF r(1) m] by (simp add: dir_for_def)
  then show "rooted p \<and> prefix (segs_of (if rooted (eng_dir e) then dir_for e ''mods'' else [slash]) @ [i, ''assets'']) (segs_of p)"
    using mod_asset_segs [OF r] r(1) by simp
qed

lemma engine_asset_confined: "rooted (eng_dir e) \<Longrightarrow> engine_asset e i path = Some p \<Longrightarrow> confine (dir_for e ''mods'') p"
  using engine_assets.asset_confined [of e i path p] by simp

section \<open>The view\<close>

definition path_there :: "string \<Rightarrow> mod_store \<Rightarrow> bool" where
  "path_there p w \<longleftrightarrow> get (files (ms_engine w)) p \<noteq> None \<or> dir_there p w"

lemma quiet_on_engine: "faults (ms_engine w) = [] \<Longrightarrow> on_engine next_fault w = (Runs, w)"
  by (simp add: on_engine_def next_fault_def)

lemma quiet_stat_path: "faults (ms_engine w) = [] \<Longrightarrow>
    stat_path p w = (if path_there p w then None else Some (if blocked p w then ENOTDIR else ENOENT), w)"
  by (simp add: stat_path_def quiet_on_engine path_there_def)

lemma quiet_missing_of:
  assumes "faults (ms_engine w) = []" and "missing_of d installed rs acc w = (miss, w')"
  shows "w' = w"
    and "(\<forall>r \<in> set rs. path_there (join_path d r) w) \<Longrightarrow> miss = acc"
    and "path_there (join_path d []) w \<Longrightarrow> miss = [] \<Longrightarrow>
      acc = [] \<and> (\<forall>r \<in> set rs. r \<in> set installed \<or> path_there (join_path d r) w)"
proof -
  have "w' = w \<and> ((\<forall>r \<in> set rs. path_there (join_path d r) w) \<longrightarrow> miss = acc)
    \<and> (path_there (join_path d []) w \<longrightarrow> miss = [] \<longrightarrow>
      acc = [] \<and> (\<forall>r \<in> set rs. r \<in> set installed \<or> path_there (join_path d r) w))"
    using assms(2)
  proof (induction rs arbitrary: acc)
    case (Cons r rs)
    let ?acc = "if r \<in> set installed \<or> path_there (join_path d r) w then acc else r"
    have s: "missing_of d installed rs ?acc w = (miss, w')"
      using Cons.prems by (simp add: quiet_stat_path [OF assms(1)] split: if_splits)
    note ih = Cons.IH [OF s]
    show ?case
    proof (cases "r \<in> set installed \<or> path_there (join_path d r) w")
      case True
      then show ?thesis using ih by simp
    next
      case False
      then show ?thesis using ih by (cases "r = []") simp_all
    qed
  qed simp
  then show "w' = w" "(\<forall>r \<in> set rs. path_there (join_path d r) w) \<Longrightarrow> miss = acc"
    "path_there (join_path d []) w \<Longrightarrow> miss = [] \<Longrightarrow>
      acc = [] \<and> (\<forall>r \<in> set rs. r \<in> set installed \<or> path_there (join_path d r) w)"
    by blast+
qed

text \<open>What the manifest of a mod asks for, when it can be read.\<close>

definition requires_of :: "string \<Rightarrow> string \<Rightarrow> mod_store \<Rightarrow> string list" where
  "requires_of d i w =
     (case get (files (ms_engine w)) (join_path (join_path d i) ''mod.manifest.json'') of
        None \<Rightarrow> []
      | Some text \<Rightarrow> (case decode_document decode_mod_manifest text of None \<Rightarrow> [] | Some m \<Rightarrow> mm_requires m))"

definition shown_right :: "string \<Rightarrow> string list \<Rightarrow> string list \<Rightarrow> mod_store \<Rightarrow> mod_info \<Rightarrow> bool" where
  "shown_right d enabled installed w info \<longleftrightarrow>
     (mi_enabled info \<longrightarrow> mi_id info \<in> set enabled
        \<and> (\<forall>r \<in> set (requires_of d (mi_id info) w). r \<in> set installed \<or> path_there (join_path d r) w))
     \<and> (mi_id info \<in> set enabled \<and> (\<forall>r \<in> set (requires_of d (mi_id info) w). path_there (join_path d r) w)
        \<longrightarrow> mi_enabled info)"

lemma shown_right_mono: "shown_right d en xs w info \<Longrightarrow> set xs \<subseteq> set ys \<Longrightarrow> shown_right d en ys w info"
  unfolding shown_right_def by blast

lemma quiet_read_mod:
  assumes q: "faults (ms_engine w) = []" and d: "path_there (join_path d []) w" and r: "read_mod d en installed i w = (info, w')"
  shows "w' = w \<and> mi_id info = i \<and> shown_right d en installed w info"
proof (cases "get (files (ms_engine w)) (join_path (join_path d i) ''mod.manifest.json'')")
  case None
  then show ?thesis
    using q r by (auto simp: read_mod_def on_engine_def sys_read_def next_fault_def blank_mod_def shown_right_def requires_of_def)
next
  case (Some raw)
  show ?thesis
  proof (cases "decode_document decode_mod_manifest raw")
    case None
    then show ?thesis
      using q r Some by (auto simp: read_mod_def on_engine_def sys_read_def next_fault_def blank_mod_def shown_right_def requires_of_def)
  next
    case (Some m)
    note here = \<open>get (files (ms_engine w)) _ = Some raw\<close>
    obtain miss w1 where m: "missing_of d installed (mm_requires m) [] w = (miss, w1)" by fastforce
    have rq: "requires_of d i w = mm_requires m" using here Some by (simp add: requires_of_def)
    have i: "w' = w1" "mi_id info = i" "mi_enabled info \<longleftrightarrow> i \<in> set en \<and> miss = []"
      using q r here Some m by (auto simp: read_mod_def on_engine_def sys_read_def next_fault_def)
    show ?thesis
      using quiet_missing_of [OF q m] d i rq unfolding shown_right_def by auto
  qed
qed

lemma quiet_scan_mods:
  assumes q: "faults (ms_engine w) = []" and d: "path_there (join_path d []) w"
    and "scan_mods d en names acc w = (infos, w')"
  shows "w' = w \<and> (\<exists>new. infos = acc @ new \<and> map mi_id new = filter (\<lambda>i. validate_identifier i = None) names
    \<and> (\<forall>info \<in> set new. shown_right d en (map mi_id infos) w info))"
  using assms(3)
proof (induction names arbitrary: acc)
  case (Cons i names)
  show ?case
  proof (cases "validate_identifier i")
    case (Some k)
    then show ?thesis using Cons by simp
  next
    case None
    obtain info w1 where m: "read_mod d en (map mi_id acc) i w = (info, w1)" by fastforce
    note rm = quiet_read_mod [OF q d m]
    have s: "scan_mods d en names (acc @ [info]) w = (infos, w')" using Cons.prems None m rm by simp
    obtain new where n: "w' = w" "infos = (acc @ [info]) @ new" "map mi_id new = filter (\<lambda>i. validate_identifier i = None) names"
      "\<forall>x \<in> set new. shown_right d en (map mi_id infos) w x"
      using Cons.IH [OF s] by blast
    have "shown_right d en (map mi_id infos) w info"
      using rm shown_right_mono [of d en "map mi_id acc" w info "map mi_id infos"] n(2) by auto
    then show ?thesis using n rm None by (intro conjI exI [of _ "info # new"]) simp_all
  qed
qed simp

text \<open>
  The view of the mods. On a disk where no call fails \<open>ReadMods\<close> changes nothing and lists, sorted
  and each once, the directories under \<open>data/mods\<close> that have a mod's name. A mod it shows as enabled is
  in the list of mods and everything its manifest requires is installed; and a mod on the list with all
  of its requirements there is shown as enabled. The enabled names are exactly those of such entries.
\<close>
theorem mods_view_consistent:
  assumes q: "faults (ms_engine w) = []" and r: "rooted (eng_dir (ms_engine w))" and v: "read_mods w = (Inr v, w')"
    and d: "dir_there (dir_for (ms_engine w) ''mods'') w"
  shows "w' = w
    \<and> map mi_id (mv_available v) = filter (\<lambda>i. validate_identifier i = None) (sub_names (dir_for (ms_engine w) ''mods'') w)
    \<and> mv_enabled v = map mi_id (filter mi_enabled (mv_available v))
    \<and> (\<forall>info \<in> set (mv_available v). shown_right (dir_for (ms_engine w) ''mods'')
          (fst (enabled_mod_ids (ms_engine w))) (map mi_id (mv_available v)) w info)"
proof -
  let ?d = "dir_for (ms_engine w) ''mods''"
  have m: "plain_seg ''mods''" by (rule plain_seg_long) (simp_all add: slash_def)
  have cd: "join_path ?d [] = ?d"
    using dir_for_path [OF r m] clean_path_of [of "segs_of (eng_dir (ms_engine w)) @ [''mods'']"] list_all_segs_of [OF r] m
    by (simp add: join_path_def)
  obtain st where rs: "read_mods_state (ms_engine w) = (st, ms_engine w)"
    using quiet_read_mods_state(1) [OF q] by (metis prod.collapse)
  obtain infos w3 where s: "scan_mods ?d (enabled_list st) (sub_names ?d w) [] w = (infos, w3)" by fastforce
  have pd: "path_there (join_path ?d []) w" using d by (simp add: cd path_there_def)
  note sm = quiet_scan_mods [OF q pd s]
  have so: "sorted (map mi_id infos)" "map mi_id infos = filter (\<lambda>i. validate_identifier i = None) (sub_names ?d w)"
    using sm by (auto simp: sub_names_def Let_def sorted_filter [of "\<lambda>x. x", simplified])
  have v': "v = \<lparr>mv_enabled = sort (map mi_id (filter mi_enabled infos)), mv_available = infos\<rparr>" "w' = w3"
    using v rs s d so(1)
    by (simp_all add: read_mods_def on_engine_def read_subdirs_def next_fault_def q Let_def sorted_sort_id sort_key_id_if_sorted)
  have "sorted (map mi_id (filter mi_enabled infos))" using so(1) by (rule sorted_filter)
  moreover have "shown_right ?d (enabled_list st) xs w info = shown_right ?d (sort (enabled_list st)) xs w info" for xs info
    by (simp add: shown_right_def)
  ultimately show ?thesis
    using v' so sm rs by (auto simp: enabled_mod_ids_def sorted_sort_id)
qed


section \<open>Concrete runs\<close>

definition sample_mods :: "files \<Rightarrow> fault list \<Rightarrow> mod_store" where
  "sample_mods m fs = \<lparr>ms_engine = (sample_engine m)\<lparr>faults := fs\<rparr>, ms_dirs = []\<rparr>"

definition sample_member :: "string \<Rightarrow> string \<Rightarrow> tar_member" where
  "sample_member name body = (\<lparr>th_flag = CHR ''0'', th_name = name, th_size = int (length body), th_mode = 0\<rparr>, body)"

definition mod_call :: "string \<Rightarrow> string \<Rightarrow> mod_request" where
  "mod_call act i = \<lparr>ma_id = i, ma_action = act, ma_archive = ''z''\<rparr>"

lemma sample_mods_simps [simp]:
  "files (ms_engine (sample_mods m fs)) = m" "faults (ms_engine (sample_mods m fs)) = fs"
  "eng_dir (ms_engine (sample_mods m fs)) = ''/g''" "writable (ms_engine (sample_mods m fs))"
  "rooted ''/g''"
  by (simp_all add: sample_mods_def sample_engine_def rooted_def slash_def)

text \<open>
  The members are checked one by one: what came before a refused member has been written, and stays.
\<close>

lemma archive_partly_unpacked:
  "let w = sample_mods [] []; unpack = (\<lambda>_. ([sample_member ''a'' ''1'', sample_member ''../b'' ''2''], True));
       r = mod_action unpack (mod_call ''install'' ''m'') w
   in fst r \<noteq> None \<and> files (ms_engine (snd r)) = [(''/g/mods/m/a'', ''1'')]"
  by code_simp

theorem mod_action_confined_witness:
  "let w = sample_mods [(''/g/saves/a.json'', ''s'')] []; unpack = (\<lambda>_. ([sample_member ''a'' ''1'', sample_member ''../b'' ''2''], True));
       w' = snd (mod_action unpack (mod_call ''install'' ''m'') w)
   in crash_inv (same_outside (mod_area (ms_engine w) ''m'' \<union> write_paths (mods_file (ms_engine w))) (files (ms_engine w)))
        (ms_engine w) (ms_engine w')"
  using mod_action_confined [of "sample_mods [(''/g/saves/a.json'', ''s'')] []"
      "\<lambda>_. ([sample_member ''a'' ''1'', sample_member ''../b'' ''2''], True)" "mod_call ''install'' ''m''"]
  by (simp add: Let_def mod_call_def) (metis prod.collapse)

lemma quiet_disable:
  assumes q: "faults (ms_engine w) = []" and wr: "writable (ms_engine w)" and r: "rooted (eng_dir (ms_engine w))"
    and v: "validate_identifier i = None"
    and free: "get (files (ms_engine w)) (temp_name (pid (ms_engine w)) (Suc (seq_no (ms_engine w))) (mods_file (ms_engine w))) = None"
  shows "fst (mod_action unpack (mod_call ''disable'' i) w) = None"
proof -
  obtain st where rs: "read_mods_state (ms_engine w) = (st, ms_engine w)"
    using quiet_read_mods_state(1) [OF q] by (metis prod.collapse)
  have "fst (write_atomic (mods_file (ms_engine w)) body (ms_engine w)) = None" for body
    using quiet_write_atomic [OF q free temp_apart_mods(1) [OF r]] by simp
  then show ?thesis
    using v wr rs by (auto simp: mod_action_def mod_call_def on_engine_def mod_change_def split: prod.splits option.splits) 
      (metis fst_conv option.distinct(1))
qed

lemma sample_ids: "validate_identifier ''a'' = None" "validate_identifier ''b'' = None" "validate_identifier ''m'' = None"
  by code_simp+

lemma sample_mods_file: "mods_file (ms_engine (sample_mods m fs)) = ''/g/config/mods.json''"
proof -
  have "mods_file (ms_engine (sample_mods [] [])) = ''/g/config/mods.json''" by code_simp
  then show ?thesis by (simp add: mods_file_def dir_for_def)
qed

theorem mods_list_refines_set_witness:
  "\<forall>unpack. let w = sample_mods [(''/g/config/mods.json'', mods_body (Some [''a'', ''b'']))] []
   in fst (enabled_mod_ids (ms_engine (snd (mod_action unpack (mod_call ''disable'' ''a'') w)))) = [''b'']"
proof (intro allI)
  fix unpack
  let ?w = "sample_mods [(''/g/config/mods.json'', mods_body (Some [''a'', ''b'']))] []"
  have l: "listed_mods (ms_engine ?w) = {''a'', ''b''}"
    using quiet_read_mods_state(2) [of "ms_engine ?w" "Some [''a'', ''b'']"] sample_ids
    by (simp add: listed_alt enabled_list_def sample_mods_file get_def)
  have t: "get (files (ms_engine ?w)) (temp_name (pid (ms_engine ?w)) (Suc (seq_no (ms_engine ?w))) (mods_file (ms_engine ?w))) = None"
    using temp_apart_mods(1) [of "ms_engine ?w"] unfolding temp_apart_def by (simp add: sample_mods_file get_def)
  have "fst (mod_action unpack (mod_call ''disable'' ''a'') ?w) = None"
    by (rule quiet_disable) (use t sample_ids in simp_all)
  then show "let w = ?w
    in fst (enabled_mod_ids (ms_engine (snd (mod_action unpack (mod_call ''disable'' ''a'') w)))) = [''b'']"
    using mods_list_refines_set [of ?w unpack "mod_call ''disable'' ''a''" "snd (mod_action unpack (mod_call ''disable'' ''a'') ?w)"] l
    by (simp add: mod_call_def Let_def prod_eq_iff)
qed

theorem delete_mod_moves_to_trash_witness:
  "let w = sample_mods [(''/g/mods/m/x'', ''1'')] []; w' = snd (delete_mod ''t'' ''m'' w)
   in get (files (ms_engine w')) ''/g/.trash-t/mods/m/x'' = Some ''1''"
proof -
  let ?w = "sample_mods [(''/g/mods/m/x'', ''1'')] []"
  have "stat_path (mod_dir (ms_engine ?w) ''m'') ?w = (None, ?w)" "confine_path (ms_engine ?w) (mod_dir (ms_engine ?w) ''m'') = None"
    "fst (trash_mod ''t'' ''m'' ?w) = None"
    by code_simp+
  then have d: "fst (delete_mod ''t'' ''m'' ?w) = None"
    using sample_ids by (cases "trash_mod ''t'' ''m'' ?w") (simp add: delete_mod_def)
  have n: "no_exdev (ms_engine ?w)" by (simp add: no_exdev_def)
  have p: "trashed_mod (ms_engine ?w) ''t'' ''m'' = ''/g/.trash-t/mods/m''" "mod_dir (ms_engine ?w) ''m'' = ''/g/mods/m''"
    by code_simp+
  show ?thesis
    using delete_mod_moves_to_trash [OF n, of "''t''" "''m''" "snd (delete_mod ''t'' ''m'' ?w)" "''x''"] d
    by (simp add: p prod_eq_iff slash_def get_def Let_def)
qed

text \<open>Across devices the directory is removed instead.\<close>

lemma trash_mod_unlinks:
  "let r = trash_mod ''t'' ''m'' (sample_mods [(''/g/mods/m/x'', ''1'')] [Runs, Fails EXDEV 0])
   in fst r = None \<and> files (ms_engine (snd r)) = []"
  by code_simp

text \<open>The budget of an archive is an \<open>int64\<close>: after one counted byte the largest size wraps below it.\<close>

lemma mod_limit_wraps: "0 < n \<Longrightarrow> n \<le> mod_limit \<Longrightarrow> wrap64 (n + int64_max) < mod_limit"
proof -
  assume n: "0 < n" "n \<le> mod_limit"
  have "(18446744073709551615 + n) mod 18446744073709551616 = ((n - 1) + 18446744073709551616) mod 18446744073709551616"
    by (simp add: algebra_simps)
  also have "\<dots> = n - 1" using n by (simp only: mod_add_self2) (simp add: mod_limit_def)
  finally show ?thesis using n by (simp add: wrap64_def mod_limit_def int64_max_def)
qed

lemma quiet_read_mods:
  assumes "faults (ms_engine w) = []" and "dir_there (dir_for (ms_engine w) ''mods'') w"
  shows "\<exists>v w'. read_mods w = (Inr v, w')"
proof -
  obtain st where rs: "read_mods_state (ms_engine w) = (st, ms_engine w)"
    using quiet_read_mods_state(1) [OF assms(1)] by (metis prod.collapse)
  show ?thesis
    using assms rs by (simp add: read_mods_def on_engine_def read_subdirs_def next_fault_def Let_def split: prod.split)
qed

theorem mods_view_consistent_witness:
  "\<exists>v. fst (read_mods (sample_mods [(''/g/config/mods.json'', mods_body (Some [''a'', ''b''])), (''/g/mods/a/f'', [])] [])) = Inr v
     \<and> mv_enabled v = [''a'']"
proof -
  let ?w = "sample_mods [(''/g/config/mods.json'', mods_body (Some [''a'', ''b''])), (''/g/mods/a/f'', [])] []"
  have l: "fst (enabled_mod_ids (ms_engine ?w)) = [''a'', ''b'']"
    using quiet_read_mods_state(2) [of "ms_engine ?w" "Some [''a'', ''b'']"] sample_ids
    by (cases "read_mods_state (ms_engine ?w)") (simp add: enabled_mod_ids_def enabled_list_def sample_mods_file get_def)
  have df: "dir_for (ms_engine ?w) ''mods'' = ''/g/mods''"
    by (simp add: dir_for_def) code_simp
  have d: "dir_there (dir_for (ms_engine ?w) ''mods'') ?w"
    by (simp add: df dir_there_def below_dir_def slash_def)
  have sn: "sub_names ''/g/mods'' ?w = [''a'']"
    by (simp add: sub_names_def Let_def sample_mods_def sample_engine_def below_dir_def slash_def)
  obtain v w' where v: "read_mods ?w = (Inr v, w')" using quiet_read_mods [OF _ d] by auto
  have "map mi_id (mv_available v) = [''a'']" "mv_enabled v = map mi_id (filter mi_enabled (mv_available v))"
    "\<forall>info \<in> set (mv_available v). shown_right ''/g/mods'' [''a'', ''b''] (map mi_id (mv_available v)) ?w info"
    using mods_view_consistent [OF _ _ v d] by (auto simp: df sn l sample_ids)
  moreover have "requires_of ''/g/mods'' ''a'' ?w = []"
  proof -
    have "join_path (join_path ''/g/mods'' ''a'') ''mod.manifest.json'' = ''/g/mods/a/mod.manifest.json''" by code_simp
    then show ?thesis by (simp add: requires_of_def get_def)
  qed
  ultimately show ?thesis using v by (auto simp: shown_right_def)
qed


end
