(* ===== verification/Request.thy ===== *)
theory Request
  imports Http Session Mods
begin

text \<open>
  \<open>dataapi/pipeline.go\<close>: what a request passes before a handler of the data API runs: media type,
  declared length, session, CSRF, and the reading of its JSON body. The state is what the handlers of
  one launcher share; \<open>'h\<close> is the part of it that belongs to the HTTP server.
\<close>

section \<open>State\<close>

record data_config =
  dc_max_request :: int
  dc_writes :: int
  dc_bytes :: int
  dc_host :: string
  dc_port :: int

definition bind_authority :: "data_config \<Rightarrow> string" where
  "bind_authority c = dc_host c @ CHR '':'' # fmt_int (dc_port c)"

text \<open>The sessions, the engine with the mods, the sessions that used their update, and the log.\<close>

record 'h api_state =
  ax_store :: store
  ax_mods :: mod_store
  ax_used :: "string list"
  ax_log :: "string list"
  ax_host :: 'h

definition log_note :: "string \<Rightarrow> 'h api_state \<Rightarrow> 'h api_state" where
  "log_note ev st = st\<lparr>ax_log := ax_log st @ [ev]\<rparr>"

definition on_store :: "(store \<Rightarrow> 'r \<times> store) \<Rightarrow> 'h api_state \<Rightarrow> 'r \<times> 'h api_state" where
  "on_store f st = (case f (ax_store st) of (r, s) \<Rightarrow> (r, st\<lparr>ax_store := s\<rparr>))"

definition on_mods :: "(mod_store \<Rightarrow> 'r \<times> mod_store) \<Rightarrow> 'h api_state \<Rightarrow> 'r \<times> 'h api_state" where
  "on_mods f st = (case f (ax_mods st) of (r, w) \<Rightarrow> (r, st\<lparr>ax_mods := w\<rparr>))"

text \<open>What a request brings besides itself: the time, the random bytes, the clock as text.\<close>

record api_env =
  ae_now :: time
  ae_stamp :: string
  ae_trash :: string
  ae_rand1 :: "nat list option"
  ae_rand2 :: "nat list option"
  ae_mtime :: "string \<Rightarrow> string"
  ae_unpack :: unpacker

section \<open>Media types\<close>

text \<open>\<open>mime.ParseMediaType\<close> on bytes: tokens, and parameters with their quoted values.\<close>

definition t_special :: "char \<Rightarrow> bool" where
  "t_special c = (c \<in> set ''()<>@,;:/[]?='' \<or> c = backslash \<or> c = CHR 0x22)"

definition token_char :: "char \<Rightarrow> bool" where
  "token_char c = (let n = of_char c :: nat in 32 < n \<and> n < 127 \<and> \<not> t_special c)"

definition take_token :: "string \<Rightarrow> string \<times> string" where
  "take_token s = (takeWhile token_char s, dropWhile token_char s)"

text \<open>The inside of a quoted value: \<^term>\<open>None\<close> when it does not end.\<close>

fun take_quoted :: "string \<Rightarrow> (string \<times> string) option" where
  "take_quoted [] = None"
| "take_quoted (c # s) =
     (if c = CHR 0x22 then Some ([], s)
      else if c = CHR 0x0D \<or> c = CHR 0x0A then None
      else if c = backslash \<and> (case s of [] \<Rightarrow> False | d # _ \<Rightarrow> t_special d) then
        (case s of [] \<Rightarrow> None | d # s' \<Rightarrow> map_option (map_prod (\<lambda>v. d # v) id) (take_quoted s'))
      else map_option (map_prod (\<lambda>v. c # v) id) (take_quoted s))"

definition take_value :: "string \<Rightarrow> string \<times> string" where
  "take_value s =
     (case s of
        [] \<Rightarrow> ([], [])
      | c # s' \<Rightarrow> if c = CHR 0x22 then (case take_quoted s' of None \<Rightarrow> ([], s) | Some r \<Rightarrow> r) else take_token s)"

definition drop_space :: "string \<Rightarrow> string" where
  "drop_space = dropWhile is_space"

definition take_param :: "string \<Rightarrow> (string \<times> string \<times> string) option" where
  "take_param s =
     (case drop_space s of
        [] \<Rightarrow> None
      | c # a \<Rightarrow>
          if c \<noteq> CHR '';'' then None
          else (case take_token (drop_space a) of
                  (key, b) \<Rightarrow>
                    if key = [] then None
                    else (case drop_space b of
                            [] \<Rightarrow> None
                          | d # e \<Rightarrow>
                              if d \<noteq> CHR ''='' then None
                              else (let e' = drop_space e in
                                    case take_value e' of
                                      (v, rem) \<Rightarrow> if v = [] \<and> rem = e' then None
                                                  else Some (map to_lower_ascii key, v, rem)))))"

text \<open>The parameters; a key may come twice with one value. The fuel is the length of the text.\<close>

fun params_ok :: "nat \<Rightarrow> (string \<times> string) list \<Rightarrow> string \<Rightarrow> bool" where
  "params_ok 0 seen s = (drop_space s = [])"
| "params_ok (Suc n) seen s =
     (if drop_space s = [] then True
      else case take_param (drop_space s) of
        None \<Rightarrow> trim_space s = '';''
      | Some (k, v, rem) \<Rightarrow>
          (case map_of seen k of
             Some w \<Rightarrow> if w = v then params_ok n seen rem else False
           | None \<Rightarrow> params_ok n ((k, v) # seen) rem))"

definition content_json :: string where "content_json = ''application/json''"

definition content_type_ok :: "string \<Rightarrow> bool" where
  "content_type_ok header =
     (let base = takeWhile (\<lambda>c. c \<noteq> CHR '';'') header; rem = dropWhile (\<lambda>c. c \<noteq> CHR '';'') header
      in header \<noteq> [] \<and> trim_space (map to_lower_ascii base) = content_json \<and> params_ok (length rem) [] rem)"

section \<open>The gates\<close>

definition check_host :: "data_config \<Rightarrow> http_request \<Rightarrow> bool" where
  "check_host c r = (rq_host r = bind_authority c)"

definition check_origin :: "data_config \<Rightarrow> http_request \<Rightarrow> bool" where
  "check_origin c r =
     (let o' = header_of r ''Origin'' in o' = [] \<or> o' = ''http://'' @ bind_authority c)"

definition method_allowed :: "string \<Rightarrow> string \<Rightarrow> bool" where
  "method_allowed m allowed = (m \<in> set (Prelude.fields allowed))"

definition join_comma_space :: "string list \<Rightarrow> string" where
  "join_comma_space ms = (case ms of [] \<Rightarrow> [] | m # ms' \<Rightarrow> m @ concat (map (\<lambda>x. '', '' @ x) ms'))"

definition is_write_method :: "string \<Rightarrow> bool" where
  "is_write_method m = (m \<in> {''POST'', ''PUT'', ''PATCH'', ''DELETE''})"

datatype auth_method = AuthCookie | AuthBearer

definition cookie_session :: string where "cookie_session = ''kobra_session''"
definition cookie_csrf :: string where "cookie_csrf = ''kobra_csrf''"
definition header_csrf :: string where "header_csrf = ''X-Kobra-Csrf''"

definition check_session :: "time \<Rightarrow> http_request \<Rightarrow> store \<Rightarrow> (sref \<times> auth_method) option \<times> store" where
  "check_session now r s0 =
     (case (case get (rq_cookies r) cookie_session of None \<Rightarrow> (None, s0) | Some c \<Rightarrow> get_session now c s0) of
        (Some x, s1) \<Rightarrow> (Some (x, AuthCookie), s1)
      | (None, s1) \<Rightarrow>
          (let auth = header_of r ''Authorization'' in
           if prefix ''Bearer '' auth then
             (case get_session now (trim_space (trim_prefix ''Bearer '' auth)) s1 of
                (Some x, s2) \<Rightarrow> (Some (x, AuthBearer), s2)
              | (None, s2) \<Rightarrow> (None, s2))
           else (None, s1)))"

definition check_request_csrf :: "http_request \<Rightarrow> sref \<Rightarrow> store \<Rightarrow> kobra_error option \<times> store" where
  "check_request_csrf r x s =
     check_csrf (case get (rq_cookies r) cookie_csrf of None \<Rightarrow> [] | Some v \<Rightarrow> v)
       (header_of r header_csrf) (Some x) (header_of r ''Origin'') s"

type_synonym headers = "(string, string) gmap"

text \<open>\<open>validate\<close>: the answer of the first gate that refuses, or the session.\<close>

definition validate_body :: "data_config \<Rightarrow> headers \<Rightarrow> http_request \<Rightarrow> http_response option" where
  "validate_body c hs r =
     (if \<not> content_type_ok (header_of r ''Content-Type'')
      then Some (refuse hs (BadContentType (header_of r ''Content-Type'')))
      else if rq_length r < 0 then Some (refuse hs LengthRequired)
      else if dc_max_request c < rq_length r then Some (refuse hs (TooLarge (dc_max_request c)))
      else None)"

definition validate :: "data_config \<Rightarrow> time \<Rightarrow> string \<Rightarrow> bool \<Rightarrow> headers \<Rightarrow> http_request \<Rightarrow> 'h api_state
    \<Rightarrow> (http_response + sref) \<times> 'h api_state" where
  "validate c now methods body hs r st0 =
     (if \<not> check_host c r then
        (Inl (respond 421 (put ''Content-Type'' ''text/plain'' hs) []), log_note ''host.reject'' st0)
      else if \<not> check_origin c r then
        (Inl (refuse hs (BadOrigin (header_of r ''Origin'') None)), log_note ''origin.reject'' st0)
      else if \<not> method_allowed (rq_method r) methods then
        (Inl (refuse (put ''Allow'' (join_comma_space (Prelude.fields methods)) hs) (MethodNotAllowed methods)), st0)
      else
        case (if body then validate_body c hs r else None) of
          Some resp \<Rightarrow> (Inl resp, st0)
        | None \<Rightarrow>
            (case on_store (check_session now r) st0 of
               (None, st1) \<Rightarrow> (Inl (refuse hs (NoSession None)), st1)
             | (Some (x, auth), st1) \<Rightarrow>
                 if is_write_method (rq_method r) \<and> auth = AuthCookie then
                   (case on_store (check_request_csrf r x) st1 of
                      (Some k, st2) \<Rightarrow> (Inl (refuse hs k), log_note ''csrf.reject'' st2)
                    | (None, st2) \<Rightarrow> (Inr x, st2))
                 else (Inr x, st1)))"

section \<open>Bodies\<close>

definition default_max_body :: int where "default_max_body = 67108864"

text \<open>
  \<open>decodeJSON\<close> into a struct with the given fields: the bytes up to the limit, one document, no
  field the struct does not have, and nothing after it that \<open>Decoder.More\<close> takes for a value. The
  document \<open>null\<close> sets no field.
\<close>

definition members_of :: "string \<Rightarrow> members option" where
  "members_of s =
     (let t = skip_ws s; u = skip_ws (tl t)
      in if \<not> head_is (CHR ''{'') t then None
         else if head_is (CHR ''}'') u then Some []
         else map_option fst (parse_members (length s) u))"

definition known_fields :: "string list \<Rightarrow> members \<Rightarrow> bool" where
  "known_fields names ms = list_all (\<lambda>(k, _). map to_lower_ascii k \<in> set names) ms"

definition more_follows :: "string \<Rightarrow> bool" where
  "more_follows rem = (case skip_ws rem of [] \<Rightarrow> False | c # _ \<Rightarrow> c \<noteq> CHR '']'' \<and> c \<noteq> CHR ''}'')"

definition decode_json :: "string list \<Rightarrow> (members \<Rightarrow> 'a option) \<Rightarrow> int \<Rightarrow> http_request \<Rightarrow> kobra_error + 'a" where
  "decode_json names dec limit r =
     (let limit = (if limit \<le> 0 then default_max_body else limit) in
      case rq_body r of
        None \<Rightarrow> Inl (MalformedBody (Some (PlainError ''read'')))
      | Some raw \<Rightarrow>
          if limit < int (length raw) then Inl (TooLarge limit)
          else if trim_space raw = [] then Inl (MalformedBody (Some (PlainError ''empty body'')))
          else
            (case parse_value (Suc (length raw)) raw of
               None \<Rightarrow> Inl (MalformedBody (Some (PlainError ''syntax'')))
             | Some (v, rem) \<Rightarrow>
                 (case (if v = JNull then Some [] else members_of raw) of
                    None \<Rightarrow> Inl (MalformedBody (Some (PlainError ''type'')))
                  | Some ms \<Rightarrow>
                      (case (if known_fields names ms then dec ms else None) of
                         None \<Rightarrow> Inl (MalformedBody (Some (PlainError ''field'')))
                       | Some x \<Rightarrow>
                           if more_follows rem then Inl (MalformedBody (Some (PlainError ''trailing content'')))
                           else Inr x))))"

text \<open>A struct inside the body: the same rule for its fields.\<close>

definition as_strict :: "string list \<Rightarrow> (members \<Rightarrow> 'a option) \<Rightarrow> json \<Rightarrow> 'a option" where
  "as_strict names dec = as_struct (\<lambda>ms. if known_fields names ms then dec ms else None)"

text \<open>\<open>[]byte\<close>: base64 text, in which line ends are skipped, or an array of numbers.\<close>

definition b64_std_val :: "char \<Rightarrow> nat option" where
  "b64_std_val c =
     (let n = of_char c :: nat in
      if 65 \<le> n \<and> n \<le> 90 then Some (n - 65)
      else if 97 \<le> n \<and> n \<le> 122 then Some (n - 71)
      else if 48 \<le> n \<and> n \<le> 57 then Some (n + 4)
      else if n = 43 then Some 62 else if n = 47 then Some 63 else None)"

fun b64_decode :: "string \<Rightarrow> string option" where
  "b64_decode [] = Some []"
| "b64_decode (a # b # c # d # s) =
     (case (b64_std_val a, b64_std_val b) of
        (Some x, Some y) \<Rightarrow>
          (if c = CHR ''='' \<and> d = CHR ''='' \<and> s = [] then Some [char_of (x * 4 + y div 16)]
           else case b64_std_val c of
             None \<Rightarrow> None
           | Some z \<Rightarrow>
               if d = CHR ''='' \<and> s = [] then Some [char_of (x * 4 + y div 16), char_of (y mod 16 * 16 + z div 4)]
               else (case (b64_std_val d, b64_decode s) of
                       (Some w, Some t) \<Rightarrow>
                         Some (char_of (x * 4 + y div 16) # char_of (y mod 16 * 16 + z div 4) # char_of (z mod 4 * 64 + w) # t)
                     | _ \<Rightarrow> None))
      | _ \<Rightarrow> None)"
| "b64_decode _ = None"

definition as_byte :: "json \<Rightarrow> char option" where
  "as_byte v =
     (case v of
        JNull \<Rightarrow> Some (CHR 0x00)
      | JNum l \<Rightarrow> (case parse_digits l of Some n \<Rightarrow> if n < 256 then Some (char_of n) else None | None \<Rightarrow> None)
      | _ \<Rightarrow> None)"

definition as_bytes :: "json \<Rightarrow> string option" where
  "as_bytes v =
     (case v of
        JStr s \<Rightarrow> b64_decode (filter (\<lambda>c. c \<noteq> CHR 0x0D \<and> c \<noteq> CHR 0x0A) s)
      | JArr vs \<Rightarrow> conv_all as_byte vs
      | _ \<Rightarrow> None)"

definition bytes_field :: "string \<Rightarrow> members \<Rightarrow> string option" where
  "bytes_field name ms = map_option (\<lambda>x. case x of None \<Rightarrow> [] | Some s \<Rightarrow> s) (ptr_field as_bytes name ms)"

section \<open>Names in paths\<close>

definition trim_slashes :: "string \<Rightarrow> string" where
  "trim_slashes s = trim_right_by (\<lambda>c. c = slash) (trim_left_by (\<lambda>c. c = slash) s)"

definition route_path :: "string \<Rightarrow> string \<Rightarrow> string option" where
  "route_path path pre =
     (let name = trim_slashes (trim_prefix pre path)
      in if name = [] \<or> slash \<in> set name then None else Some name)"

definition validate_identifier_field :: "string \<Rightarrow> string \<Rightarrow> kobra_error option" where
  "validate_identifier_field name v =
     (case validate_identifier v of
        None \<Rightarrow> None
      | Some (KobraError code h m d cause rt w) \<Rightarrow>
          if code = CodeBadIdentifier then Some (KobraError code h m [(''field'', JStr name)] cause rt w)
          else Some (BadIdentifier name (Some (Kobra (KobraError code h m d cause rt w)))))"

definition confine_static :: "string \<Rightarrow> string \<Rightarrow> kobra_error option" where
  "confine_static root full = (if confine root full then None else Some (NotFound ''path''))"

section \<open>Answers\<close>

definition respond_json :: "int \<Rightarrow> headers \<Rightarrow> json \<Rightarrow> http_response" where
  "respond_json status hs v = respond status (put ''Content-Type'' content_json hs) (encode v)"

end
