(* ===== verification/Data_Api.thy ===== *)
theory Data_Api
  imports Request Update_Records
begin

text \<open>
  \<open>dataapi/handlers.go\<close> and \<open>service.go\<close>: the handlers of the data API, each whole, over the shared
  state of \<open>Request\<close>. What they need of the HTTP server (\<open>Host\<close> and the server's part of \<open>Service\<close>) is
  the record \<open>host_ops\<close>, which \<open>Server\<close> fills in. A handler gives its answer, or \<^term>\<open>None\<close> when it panics.
\<close>

section \<open>The server's part\<close>

record update_status =
  us_current :: string
  us_latest :: string
  us_available :: bool
  us_notes_url :: string
  us_detail :: string

record probe_response =
  pr_app :: string
  pr_game_id :: string
  pr_instance :: string
  pr_release :: string
  pr_port :: int

record 'h host_ops =
  ho_probe :: "'h \<Rightarrow> probe_response"
  ho_heartbeat :: "'h \<Rightarrow> 'h"
  ho_goodbye :: "'h \<Rightarrow> 'h"
  ho_shutdown :: "string \<Rightarrow> 'h \<Rightarrow> 'h"
  ho_diagnostics :: "'h api_state \<Rightarrow> json \<times> 'h api_state"
  ho_state :: "'h api_state \<Rightarrow> json"
  ho_update_check :: "'h \<Rightarrow> update_status \<times> 'h"
  ho_record_intent :: "'h \<Rightarrow> (kobra_error + intent_result) \<times> 'h"
  ho_cancel_intent :: "'h \<Rightarrow> (kobra_error + bool) \<times> 'h"
  ho_update_progress :: "'h \<Rightarrow> json"

text \<open>An error of the storage as \<open>WriteEnvelope\<close> sees it.\<close>

definition go_of :: "store_error \<Rightarrow> go_error" where
  "go_of err =
     (case err of
        StoreErr k \<Rightarrow> Kobra k
      | SysErr _ \<Rightarrow> PlainError ''errno''
      | SpaceGuard \<Rightarrow> PlainError ''space''
      | CtxErr \<Rightarrow> PlainError ''context''
      | TempVerify \<Rightarrow> PlainError ''verify''
      | ConflictError slot cur modified \<Rightarrow> PlainError ''conflict''
      | Panic \<Rightarrow> PlainError ''panic'')"

definition save_error :: "store_error \<Rightarrow> go_error" where
  "save_error err =
     (case err of ConflictError slot cur modified \<Rightarrow> Kobra (as_kobra_conflict slot cur modified) | _ \<Rightarrow> go_of err)"

definition refuse_store :: "headers \<Rightarrow> go_error \<Rightarrow> http_response" where
  "refuse_store hs err = write_envelope hs (Some err)"

definition on_engine_of :: "(engine \<Rightarrow> 'r \<times> engine) \<Rightarrow> 'h api_state \<Rightarrow> 'r \<times> 'h api_state" where
  "on_engine_of f = on_mods (on_engine f)"

type_synonym 'h handler = "headers \<Rightarrow> http_request \<Rightarrow> 'h api_state \<Rightarrow> http_response option \<times> 'h api_state"

text \<open>A handler behind \<open>validate\<close>.\<close>

definition gated :: "data_config \<Rightarrow> api_env \<Rightarrow> string \<Rightarrow> bool \<Rightarrow> (sref \<Rightarrow> 'h handler) \<Rightarrow> 'h handler" where
  "gated c env methods body f hs r st0 =
     (case validate c (ae_now env) methods body hs r st0 of
        (Inl resp, st1) \<Rightarrow> (Some resp, st1)
      | (Inr x, st1) \<Rightarrow> f x hs r st1)"

section \<open>Without a session\<close>

definition probe_json :: "probe_response \<Rightarrow> json" where
  "probe_json p =
     JObj ([(''app'', JStr (pr_app p)), (''game_id'', JStr (pr_game_id p)), (''instance'', JStr (pr_instance p))]
       @ opt_member (pr_release p \<noteq> []) ''release'' (JStr (pr_release p))
       @ opt_member (pr_port p \<noteq> 0) ''port'' (JNum (fmt_int (pr_port p))))"

definition handle_probe :: "'h host_ops \<Rightarrow> 'h handler" where
  "handle_probe ops hs r st =
     (Some (if rq_method r \<noteq> ''GET'' then refuse (put ''Allow'' ''GET'' hs) (MethodNotAllowed ''GET'')
            else respond_json 200 hs (probe_json (ho_probe ops (ax_host st)))), st)"

definition session_cookies :: "session \<Rightarrow> string" where
  "session_cookies x =
     cookie_session @ ''='' @ sess_id x @ ''; Path=/; HttpOnly; SameSite=Strict'' @ [CHR 0x0A]
     @ cookie_csrf @ ''='' @ csrf x @ ''; Path=/; SameSite=Strict''"

text \<open>The two \<open>Set-Cookie\<close> lines are one header value here, with a line feed between them.\<close>

definition handle_session :: "api_env \<Rightarrow> 'h handler" where
  "handle_session env hs r st =
     (if rq_method r \<noteq> ''POST'' then (Some (refuse (put ''Allow'' ''POST'' hs) (MethodNotAllowed ''POST'')), st)
      else if \<not> content_type_ok (header_of r ''Content-Type'')
      then (Some (refuse hs (BadContentType (header_of r ''Content-Type''))), st)
      else case decode_json [''token''] (str_field ''token'') 4096 r of
        Inl k \<Rightarrow> (Some (refuse hs k), st)
      | Inr token \<Rightarrow>
          if length token < 32 \<or> 256 < length token then
            (Some (refuse hs (NoSession None)), log_note ''session.bootstrap.rejected'' st)
          else (case on_store (exchange (ae_now env) (ae_rand1 env) (ae_rand2 env) token (header_of r ''Origin'')) st of
                  (Inl k, st1) \<Rightarrow> (Some (refuse hs k), log_note ''session.bootstrap.rejected'' st1)
                | (Inr x, st1) \<Rightarrow>
                    (let y = deref (ax_store st1) x in
                     (Some (respond_json 200 (put ''Set-Cookie'' (session_cookies y) hs)
                        (JObj [(''session_id'', JStr (sess_id y)), (''csrf_token'', JStr (csrf y)), (''api_version'', JNum ''1'')])),
                      st1))))"

section \<open>Lifecycle\<close>

definition no_content :: "headers \<Rightarrow> http_response" where
  "no_content hs = respond 204 hs []"

definition on_host :: "('h \<Rightarrow> 'h) \<Rightarrow> 'h api_state \<Rightarrow> 'h api_state" where
  "on_host f st = st\<lparr>ax_host := f (ax_host st)\<rparr>"

definition handle_heartbeat :: "'h host_ops \<Rightarrow> data_config \<Rightarrow> api_env \<Rightarrow> 'h handler" where
  "handle_heartbeat ops c env =
     gated c env ''POST'' False (\<lambda>_ hs r st. (Some (no_content hs), on_host (ho_heartbeat ops) st))"

definition handle_goodbye :: "'h host_ops \<Rightarrow> data_config \<Rightarrow> api_env \<Rightarrow> 'h handler" where
  "handle_goodbye ops c env =
     gated c env ''POST'' False (\<lambda>_ hs r st. (Some (no_content hs), on_host (ho_goodbye ops) st))"

definition handle_shutdown :: "'h host_ops \<Rightarrow> data_config \<Rightarrow> api_env \<Rightarrow> 'h handler" where
  "handle_shutdown ops c env =
     gated c env ''POST'' False
       (\<lambda>_ hs r st. (Some (respond_json 202 hs (JObj [(''stopping'', JBool True)])), on_host (ho_shutdown ops ''api'') st))"

definition handle_diagnostics :: "'h host_ops \<Rightarrow> data_config \<Rightarrow> api_env \<Rightarrow> 'h handler" where
  "handle_diagnostics ops c env =
     gated c env ''GET'' False
       (\<lambda>_ hs r st. case ho_diagnostics ops st of (v, st1) \<Rightarrow> (Some (respond_json 200 hs v), st1))"

definition handle_state :: "'h host_ops \<Rightarrow> data_config \<Rightarrow> api_env \<Rightarrow> 'h handler" where
  "handle_state ops c env =
     gated c env ''GET'' False (\<lambda>_ hs r st. (Some (respond_json 200 hs (ho_state ops st)), st))"

section \<open>Saves\<close>

definition summary_json :: "save_summary \<Rightarrow> json" where
  "summary_json s =
     JObj ([(''slot'', JStr (ss_slot s))]
       @ opt_member (ss_save_version s \<noteq> 0) ''save_version'' (JNum (fmt_int (ss_save_version s)))
       @ opt_member (ss_game_version s \<noteq> []) ''game_version'' (JStr (ss_game_version s))
       @ opt_member (ss_modified s \<noteq> []) ''modified'' (JStr (ss_modified s))
       @ [(''revision'', JNum (fmt_int (ss_revision s)))]
       @ (case ss_playtime s of None \<Rightarrow> [] | Some p \<Rightarrow> [(''playtime_seconds'', JNum (fmt_int p))])
       @ opt_member (ss_size s \<noteq> 0) ''size'' (JNum (fmt_int (int (ss_size s))))
       @ opt_member (ss_corrupt s) ''corrupt'' (JBool True))"

definition handle_saves_list :: "data_config \<Rightarrow> api_env \<Rightarrow> 'h handler" where
  "handle_saves_list c env =
     gated c env ''GET'' False
       (\<lambda>_ hs r st.
          case on_engine_of (list_saves (ae_mtime env)) st of
            (Inl err, st1) \<Rightarrow> (Some (refuse_store hs (go_of err)), st1)
          | (Inr (sums, rebuilt), st1) \<Rightarrow>
              (Some (respond_json 200 hs
                 (JObj ((''saves'', JArr (map summary_json sums)) # opt_member rebuilt ''rebuilt_index'' (JBool True)))), st1))"

text \<open>The slot in the path, or the refusal; and the payload.\<close>

definition path_name :: "string \<Rightarrow> string \<Rightarrow> string \<Rightarrow> http_request \<Rightarrow> kobra_error + string" where
  "path_name pre what field r =
     (case route_path (rq_path r) pre of
        None \<Rightarrow> Inl (NotFound what)
      | Some name \<Rightarrow>
          (case validate_identifier_field field name of Some k \<Rightarrow> Inl k | None \<Rightarrow> Inr name))"

definition send_save :: "string \<Rightarrow> (string \<Rightarrow> headers \<Rightarrow> headers) \<Rightarrow> sref \<Rightarrow> 'h handler" where
  "send_save pre extra x hs r st =
     (case path_name pre ''save slot'' ''slot'' r of
        Inl k \<Rightarrow> (Some (refuse hs k), st)
      | Inr slot \<Rightarrow>
          (case on_engine_of (read_save slot) st of
             (Inl err, st1) \<Rightarrow> (Some (refuse_store hs (go_of err)), st1)
           | (Inr payload, st1) \<Rightarrow> (Some (respond 200 (extra slot (put ''Content-Type'' content_json hs)) payload), st1)))"

definition handle_save_read :: "data_config \<Rightarrow> api_env \<Rightarrow> 'h handler" where
  "handle_save_read c env = gated c env ''GET'' False (send_save ''/api/data/saves/'' (\<lambda>_ hs. hs))"

definition attachment :: "string \<Rightarrow> headers \<Rightarrow> headers" where
  "attachment slot hs = put ''Content-Disposition'' (''attachment; filename='' @ CHR 0x22 # slot @ ''.json'' @ [CHR 0x22]) hs"

definition handle_export :: "data_config \<Rightarrow> api_env \<Rightarrow> 'h handler" where
  "handle_export c env = gated c env ''GET'' False (send_save ''/api/export/'' attachment)"

record save_request =
  rs_slot :: string
  rs_if_revision :: "int option"
  rs_claim :: bool
  rs_compression :: string
  rs_payload :: string
  rs_playtime :: "int option"

definition decode_save_meta :: "members \<Rightarrow> int option option" where
  "decode_save_meta ms =
     (case (int_ptr_field ''playtime_seconds'' ms, str_field ''title'' ms, str_field ''thumbnail'' ms) of
        (Some p, Some _, Some _) \<Rightarrow> Some p
      | _ \<Rightarrow> None)"

definition decode_save_request :: "members \<Rightarrow> save_request option" where
  "decode_save_request ms =
     (case (str_field ''slot'' ms, int_ptr_field ''if_revision'' ms, bool_field ''claim'' ms, str_field ''compression'' ms,
            ptr_field (as_strict [''playtime_seconds'', ''title'', ''thumbnail''] decode_save_meta) ''meta'' ms) of
        (Some s, Some i, Some cl, Some co, Some m) \<Rightarrow>
          Some \<lparr>rs_slot = s, rs_if_revision = i, rs_claim = cl, rs_compression = co,
            rs_payload = raw_field ''payload'' ms, rs_playtime = Option.bind m id\<rparr>
      | _ \<Rightarrow> None)"

definition save_fields :: "string list" where
  "save_fields = [''slot'', ''if_revision'', ''claim'', ''compression'', ''payload'', ''meta'']"

definition spend_quota :: "data_config \<Rightarrow> api_env \<Rightarrow> sref \<Rightarrow> int \<Rightarrow> 'h api_state \<Rightarrow> kobra_error option \<times> 'h api_state" where
  "spend_quota c env x n = on_store (allow (ae_now env) (Some x) n (dc_writes c) (dc_bytes c))"

definition write_of :: "save_request \<Rightarrow> string \<Rightarrow> save_write" where
  "write_of q sid =
     \<lparr>sw_slot = rs_slot q, sw_if_revision = rs_if_revision q, sw_claim = rs_claim q, sw_compression = rs_compression q,
      sw_payload = rs_payload q, sw_playtime = rs_playtime q, sw_session = sid\<rparr>"

definition store_save :: "data_config \<Rightarrow> api_env \<Rightarrow> sref \<Rightarrow> save_request \<Rightarrow> headers \<Rightarrow> 'h api_state
    \<Rightarrow> http_response option \<times> 'h api_state" where
  "store_save c env x q hs st =
     (case validate_identifier_field ''slot'' (rs_slot q) of
        Some k \<Rightarrow> (Some (refuse hs k), st)
      | None \<Rightarrow>
          if rs_payload q = [] then
            (Some (refuse hs (MalformedField ''payload'' ''The save body had no payload.'' None)), st)
          else (case spend_quota c env x (int (length (rs_payload q))) st of
                  (Some k, st1) \<Rightarrow> (Some (refuse hs k), st1)
                | (None, st1) \<Rightarrow>
                    (case on_engine_of (write_save (ae_stamp env) (write_of q (sess_id (deref (ax_store st1) x)))) st1 of
                       (Inl err, st2) \<Rightarrow> (Some (refuse_store hs (save_error err)), st2)
                     | (Inr res, st2) \<Rightarrow>
                         (Some (respond_json 200 hs
                            (JObj [(''slot'', JStr (sr_slot res)), (''revision'', JNum (fmt_int (sr_revision res))),
                                   (''modified'', JStr (sr_modified res)), (''bytes'', JNum (fmt_int (int (sr_bytes res))))])),
                          st2))))"

definition handle_save_write :: "data_config \<Rightarrow> api_env \<Rightarrow> 'h handler" where
  "handle_save_write c env =
     gated c env ''POST'' True
       (\<lambda>x hs r st.
          case decode_json save_fields decode_save_request (dc_max_request c) r of
            Inl k \<Rightarrow> (Some (refuse hs k), st)
          | Inr q \<Rightarrow> store_save c env x q hs st)"

definition deleted_json :: "string \<Rightarrow> json" where
  "deleted_json name = JObj [(''deleted'', JStr name)]"

definition handle_save_delete :: "data_config \<Rightarrow> api_env \<Rightarrow> 'h handler" where
  "handle_save_delete c env =
     gated c env ''DELETE'' False
       (\<lambda>x hs r st.
          case path_name ''/api/save/'' ''save slot'' ''slot'' r of
            Inl k \<Rightarrow> (Some (refuse hs k), st)
          | Inr slot \<Rightarrow>
              (case on_engine_of (delete_save (ae_trash env) slot) st of
                 (Some err, st1) \<Rightarrow> (Some (refuse_store hs (go_of err)), st1)
               | (None, st1) \<Rightarrow> (Some (respond_json 200 hs (deleted_json slot)), st1)))"

section \<open>Settings\<close>

definition handle_config_read :: "data_config \<Rightarrow> api_env \<Rightarrow> 'h handler" where
  "handle_config_read c env =
     gated c env ''GET'' False
       (\<lambda>x hs r st.
          case on_engine_of read_config st of
            (Inl err, st1) \<Rightarrow> (Some (refuse_store hs (go_of err)), st1)
          | (Inr raw, st1) \<Rightarrow> (Some (respond 200 (put ''Content-Type'' content_json hs) raw), st1))"

definition allowed_config_keys :: "string list" where
  "allowed_config_keys =
     [''audio'', ''video'', ''controls'', ''gameplay'', ''accessibility'', ''locale'', ''language'', ''display'', ''input'',
      ''network'', ''misc'']"

definition allowed_config_key :: "string \<Rightarrow> bool" where
  "allowed_config_key k \<longleftrightarrow>
     k \<in> set allowed_config_keys
     \<or> (case index_byte k dot of Some i \<Rightarrow> 0 < i \<and> take i k \<in> set allowed_config_keys | None \<Rightarrow> False)"

text \<open>The request: the revision and the members to merge.\<close>

definition as_members :: "json \<Rightarrow> (string \<times> json) list option" where
  "as_members v = (case v of JObj ms \<Rightarrow> Some ms | _ \<Rightarrow> None)"

definition decode_config_request :: "members \<Rightarrow> (int option \<times> (string \<times> json) list) option" where
  "decode_config_request ms =
     (case (int_ptr_field ''if_revision'' ms, ptr_field as_members ''merge'' ms) of
        (Some i, Some m) \<Rightarrow> Some (i, case m of None \<Rightarrow> [] | Some kvs \<Rightarrow> kvs)
      | _ \<Rightarrow> None)"

definition store_config :: "data_config \<Rightarrow> api_env \<Rightarrow> sref \<Rightarrow> int option \<times> (string \<times> json) list \<Rightarrow> headers \<Rightarrow> 'h api_state
    \<Rightarrow> http_response option \<times> 'h api_state" where
  "store_config c env x q hs st =
     (if snd q = [] then (Some (refuse hs (MalformedField ''merge'' ''The config write contained no keys.'' None)), st)
      else if \<not> list_all (\<lambda>(k, _). allowed_config_key k) (snd q) then
        (Some (refuse hs (MalformedField ''merge'' ''That settings key is not recognised.'' None)), st)
      else case spend_quota c env x 1024 st of
        (Some k, st1) \<Rightarrow> (Some (refuse hs k), st1)
      | (None, st1) \<Rightarrow>
          (case on_engine_of (merge_config (ae_stamp env) (fst q) (snd q)) st1 of
             (Inl Panic, st2) \<Rightarrow> (None, st2)
           | (Inl err, st2) \<Rightarrow> (Some (refuse_store hs (save_error err)), st2)
           | (Inr (rv, now), st2) \<Rightarrow>
               (Some (respond_json 200 hs (JObj [(''revision'', JNum (fmt_int rv)), (''modified'', JStr now)])), st2)))"

definition handle_config_write :: "data_config \<Rightarrow> api_env \<Rightarrow> 'h handler" where
  "handle_config_write c env =
     gated c env ''POST'' True
       (\<lambda>x hs r st.
          case decode_json [''if_revision'', ''merge''] decode_config_request (dc_max_request c) r of
            Inl k \<Rightarrow> (Some (refuse hs k), st)
          | Inr q \<Rightarrow> store_config c env x q hs st)"

section \<open>Mods\<close>

definition mod_info_json :: "mod_info \<Rightarrow> json" where
  "mod_info_json m =
     JObj ([(''id'', JStr (mi_id m))]
       @ opt_member (mi_name m \<noteq> []) ''name'' (JStr (mi_name m))
       @ opt_member (mi_version m \<noteq> []) ''version'' (JStr (mi_version m))
       @ [(''enabled'', JBool (mi_enabled m))]
       @ opt_member (mi_priority m \<noteq> 0) ''priority'' (JNum (fmt_int (mi_priority m)))
       @ opt_member (mi_missing m \<noteq> []) ''missing_dependency'' (JStr (mi_missing m)))"

definition mods_json :: "mods_view \<Rightarrow> json" where
  "mods_json v =
     JObj [(''enabled'', JArr (map JStr (mv_enabled v))), (''available'', JArr (map mod_info_json (mv_available v)))]"

definition empty_view :: mods_view where
  "empty_view = \<lparr>mv_enabled = [], mv_available = []\<rparr>"

definition handle_mods_read :: "data_config \<Rightarrow> api_env \<Rightarrow> 'h handler" where
  "handle_mods_read c env =
     gated c env ''GET'' False
       (\<lambda>x hs r st.
          case on_mods read_mods st of
            (Inl err, st1) \<Rightarrow> (Some (refuse_store hs (go_of err)), st1)
          | (Inr v, st1) \<Rightarrow> (Some (respond_json 200 hs (mods_json v)), st1))"

definition decode_mod_request :: "members \<Rightarrow> mod_request option" where
  "decode_mod_request ms =
     (case (str_field ''id'' ms, str_field ''action'' ms, bytes_field ''archive_bytes'' ms) of
        (Some i, Some a, Some b) \<Rightarrow> Some \<lparr>ma_id = i, ma_action = a, ma_archive = b\<rparr>
      | _ \<Rightarrow> None)"

definition apply_mod :: "data_config \<Rightarrow> api_env \<Rightarrow> sref \<Rightarrow> mod_request \<Rightarrow> headers \<Rightarrow> 'h api_state
    \<Rightarrow> http_response option \<times> 'h api_state" where
  "apply_mod c env x q hs st =
     (case validate_identifier_field ''id'' (ma_id q) of
        Some k \<Rightarrow> (Some (refuse hs k), st)
      | None \<Rightarrow>
          if ma_action q \<notin> {''install'', ''enable'', ''disable''} then
            (Some (refuse hs (MalformedField ''action'' ''That mod action is not supported.'' None)), st)
          else (case spend_quota c env x (int (length (ma_archive q))) st of
                  (Some k, st1) \<Rightarrow> (Some (refuse hs k), st1)
                | (None, st1) \<Rightarrow>
                    (case on_mods (mod_action (ae_unpack env) q) st1 of
                       (Some err, st2) \<Rightarrow> (Some (refuse_store hs (go_of err)), st2)
                     | (None, st2) \<Rightarrow>
                         (case on_mods read_mods st2 of
                            (v, st3) \<Rightarrow>
                              (Some (respond_json 200 hs (mods_json (case v of Inr w \<Rightarrow> w | Inl _ \<Rightarrow> empty_view))), st3)))))"

definition handle_mod_action :: "data_config \<Rightarrow> api_env \<Rightarrow> 'h handler" where
  "handle_mod_action c env =
     gated c env ''POST'' True
       (\<lambda>x hs r st.
          case decode_json [''id'', ''action'', ''archive_bytes''] decode_mod_request (dc_max_request c) r of
            Inl k \<Rightarrow> (Some (refuse hs k), st)
          | Inr q \<Rightarrow> apply_mod c env x q hs st)"

definition handle_mod_delete :: "data_config \<Rightarrow> api_env \<Rightarrow> 'h handler" where
  "handle_mod_delete c env =
     gated c env ''DELETE'' False
       (\<lambda>x hs r st.
          case path_name ''/api/mod/'' ''mod'' ''id'' r of
            Inl k \<Rightarrow> (Some (refuse hs k), st)
          | Inr i \<Rightarrow>
              (case on_mods (delete_mod (ae_trash env) i) st of
                 (Some err, st1) \<Rightarrow> (Some (refuse_store hs (go_of err)), st1)
               | (None, st1) \<Rightarrow> (Some (respond_json 200 hs (deleted_json i)), st1)))"

section \<open>Updates\<close>

definition status_json :: "update_status \<Rightarrow> json" where
  "status_json u =
     JObj ([(''current'', JStr (us_current u))]
       @ opt_member (us_latest u \<noteq> []) ''latest'' (JStr (us_latest u))
       @ [(''available'', JBool (us_available u))]
       @ opt_member (us_notes_url u \<noteq> []) ''notes_url'' (JStr (us_notes_url u))
       @ opt_member (us_detail u \<noteq> []) ''detail'' (JStr (us_detail u)))"

definition handle_update_check :: "'h host_ops \<Rightarrow> data_config \<Rightarrow> api_env \<Rightarrow> 'h handler" where
  "handle_update_check ops c env =
     gated c env ''GET'' False
       (\<lambda>x hs r st.
          case ho_update_check ops (ax_host st) of
            (u, h) \<Rightarrow> (Some (respond_json 200 hs (status_json u)), st\<lparr>ax_host := h\<rparr>))"

definition apply_response_json :: "bool \<Rightarrow> string \<Rightarrow> int \<Rightarrow> string \<Rightarrow> json" where
  "apply_response_json pending target sz detail =
     JObj ([(''applied'', JBool False), (''pending'', JBool pending)]
       @ opt_member (target \<noteq> []) ''target_release'' (JStr target)
       @ opt_member (sz \<noteq> 0) ''archive_size'' (JNum (fmt_int sz))
       @ opt_member (detail \<noteq> []) ''detail'' (JStr detail))"

definition request_update :: "'h host_ops \<Rightarrow> sref \<Rightarrow> 'h handler" where
  "request_update ops x hs r st0 =
     (let sid = sess_id (deref (ax_store st0) x) in
      if sid \<in> set (ax_used st0) then (Some (refuse hs (RateLimited ''update'' 3600)), st0)
      else
        (let st1 = st0\<lparr>ax_used := sid # ax_used st0\<rparr> in
         case ho_record_intent ops (ax_host st1) of
           (Inl k, h) \<Rightarrow> (Some (refuse hs k), st1\<lparr>ax_host := h\<rparr>)
         | (Inr i, h) \<Rightarrow>
             (Some (if \<not> in_recorded i then
                      respond_json 200 hs (apply_response_json False [] 0
                        (if in_detail i = [] then ''already current'' else in_detail i))
                    else respond_json 202 hs (apply_response_json True (in_target i) (in_archive_size i) (in_detail i))),
              st1\<lparr>ax_host := h\<rparr>)))"

definition handle_update_apply :: "'h host_ops \<Rightarrow> data_config \<Rightarrow> api_env \<Rightarrow> 'h handler" where
  "handle_update_apply ops c env = gated c env ''POST'' True (request_update ops)"

definition handle_update_cancel :: "'h host_ops \<Rightarrow> data_config \<Rightarrow> api_env \<Rightarrow> 'h handler" where
  "handle_update_cancel ops c env =
     gated c env ''POST'' True
       (\<lambda>x hs r st.
          case ho_cancel_intent ops (ax_host st) of
            (Inl k, h) \<Rightarrow> (Some (refuse hs k), st\<lparr>ax_host := h\<rparr>)
          | (Inr b, h) \<Rightarrow>
              (Some (respond_json 200 hs
                 (JObj [(''cancelled'', JBool b),
                        (''detail'', JStr (if b then ''The update was cancelled.'' else ''There was no update to cancel.''))])),
               st\<lparr>ax_host := h\<rparr>))"

definition handle_update_progress :: "'h host_ops \<Rightarrow> data_config \<Rightarrow> api_env \<Rightarrow> 'h handler" where
  "handle_update_progress ops c env =
     gated c env ''GET'' False
       (\<lambda>x hs r st. (Some (respond_json 200 hs (ho_update_progress ops (ax_host st))), st))"

section \<open>Routes\<close>

datatype api_route =
    ProbeRoute | HealthRoute | SessionRoute | HeartbeatRoute | GoodbyeRoute | ShutdownRoute | DiagnosticsRoute
  | StateRoute | SavesRoute | SaveReadRoute | ConfigReadRoute | ModsReadRoute | ExportRoute | SaveWriteRoute
  | SaveDeleteRoute | ConfigWriteRoute | ModActionRoute | ModDeleteRoute | UpdateCheckRoute | UpdateApplyRoute
  | UpdateCancelRoute | UpdateProgressRoute

definition api_patterns :: "(string \<times> api_route) list" where
  "api_patterns =
     [(''/__kobra/probe'', ProbeRoute), (''/__kobra/health'', HealthRoute), (''/__kobra/session'', SessionRoute),
      (''/__kobra/heartbeat'', HeartbeatRoute), (''/__kobra/goodbye'', GoodbyeRoute), (''/__kobra/shutdown'', ShutdownRoute),
      (''/__kobra/diagnostics'', DiagnosticsRoute), (''/api/state'', StateRoute), (''/api/data/saves'', SavesRoute),
      (''/api/data/saves/'', SaveReadRoute), (''/api/data/config'', ConfigReadRoute),
      (''/api/data/config/mods'', ModsReadRoute), (''/api/export/'', ExportRoute), (''/api/save'', SaveWriteRoute),
      (''/api/save/'', SaveDeleteRoute), (''/api/config'', ConfigWriteRoute), (''/api/mod'', ModActionRoute),
      (''/api/mod/'', ModDeleteRoute), (''/api/update/check'', UpdateCheckRoute), (''/api/update/apply'', UpdateApplyRoute),
      (''/api/update/cancel'', UpdateCancelRoute), (''/api/update/progress'', UpdateProgressRoute)]"

definition handle_api :: "'h host_ops \<Rightarrow> data_config \<Rightarrow> api_env \<Rightarrow> api_route \<Rightarrow> 'h handler" where
  "handle_api ops c env route =
     (case route of
        ProbeRoute \<Rightarrow> handle_probe ops
      | HealthRoute \<Rightarrow> handle_probe ops
      | SessionRoute \<Rightarrow> handle_session env
      | HeartbeatRoute \<Rightarrow> handle_heartbeat ops c env
      | GoodbyeRoute \<Rightarrow> handle_goodbye ops c env
      | ShutdownRoute \<Rightarrow> handle_shutdown ops c env
      | DiagnosticsRoute \<Rightarrow> handle_diagnostics ops c env
      | StateRoute \<Rightarrow> handle_state ops c env
      | SavesRoute \<Rightarrow> handle_saves_list c env
      | SaveReadRoute \<Rightarrow> handle_save_read c env
      | ConfigReadRoute \<Rightarrow> handle_config_read c env
      | ModsReadRoute \<Rightarrow> handle_mods_read c env
      | ExportRoute \<Rightarrow> handle_export c env
      | SaveWriteRoute \<Rightarrow> handle_save_write c env
      | SaveDeleteRoute \<Rightarrow> handle_save_delete c env
      | ConfigWriteRoute \<Rightarrow> handle_config_write c env
      | ModActionRoute \<Rightarrow> handle_mod_action c env
      | ModDeleteRoute \<Rightarrow> handle_mod_delete c env
      | UpdateCheckRoute \<Rightarrow> handle_update_check ops c env
      | UpdateApplyRoute \<Rightarrow> handle_update_apply ops c env
      | UpdateCancelRoute \<Rightarrow> handle_update_cancel ops c env
      | UpdateProgressRoute \<Rightarrow> handle_update_progress ops c env)"

end
