(* ===== verification/Data_Api_Laws.thy ===== *)
theory Data_Api_Laws
  imports Data_Api
begin

text \<open>
  What the gates of the data API give: no handler behind \<open>validate\<close> runs, and nothing it keeps changes,
  unless the request shows a live session (and its CSRF token when a cookie carries it); and what a
  handler that answers 200 has done.
\<close>

section \<open>The gates\<close>

text \<open>The identifier names a session that is alive.\<close>

definition shown :: "store \<Rightarrow> time \<Rightarrow> string \<Rightarrow> sref \<Rightarrow> bool" where
  "shown s now sid x \<longleftrightarrow> get (sessions s) sid = Some x \<and> live s now (deref s x)"

definition csrf_shown :: "http_request \<Rightarrow> session \<Rightarrow> bool" where
  "csrf_shown r y \<longleftrightarrow>
     csrf y \<noteq> [] \<and> get (rq_cookies r) cookie_csrf = Some (csrf y) \<and> header_of r header_csrf = csrf y"

definition authorised :: "data_config \<Rightarrow> time \<Rightarrow> http_request \<Rightarrow> store \<Rightarrow> sref \<Rightarrow> bool" where
  "authorised c now r s x \<longleftrightarrow>
     rq_host r = bind_authority c \<and> header_of r ''Origin'' \<in> {[], ''http://'' @ bind_authority c}
     \<and> ((\<exists>sid. get (rq_cookies r) cookie_session = Some sid \<and> shown s now sid x
             \<and> (is_write_method (rq_method r) \<longrightarrow> csrf_shown r (deref s x)))
         \<or> (prefix ''Bearer '' (header_of r ''Authorization'')
             \<and> shown s now (trim_space (trim_prefix ''Bearer '' (header_of r ''Authorization''))) x))"

lemma deref_refreshed:
  "csrf (deref (update_session x (\<lambda>y. y\<lparr>last_active := now\<rparr>) s) q) = csrf (deref s q)
    \<and> sess_id (deref (update_session x (\<lambda>y. y\<lparr>last_active := now\<rparr>) s) q) = sess_id (deref s q)"
  by (cases "x < length (heap s)") (auto simp: deref_def update_session_def nth_list_update list_update_beyond)

lemma get_session_some:
  assumes "get_session now sid s = (Some x, s')"
  shows "shown s now sid x" "csrf (deref s' q) = csrf (deref s q)" "sess_id (deref s' q) = sess_id (deref s q)"
proof -
  have "shown s now sid x \<and> s' = update_session x (\<lambda>y. y\<lparr>last_active := now\<rparr>) s"
    using assms by (simp add: get_session_def shown_def live_def Let_def split: option.splits if_splits)
  then show "shown s now sid x" "csrf (deref s' q) = csrf (deref s q)" "sess_id (deref s' q) = sess_id (deref s q)"
    by (simp_all add: deref_refreshed)
qed

lemma shown_delete: "shown (delete_session sid s) now t x \<Longrightarrow> shown s now t x"
  by (cases "t = sid") (auto simp: shown_def live_def dead_reason_def split: if_splits)

lemma shown_emit [simp]: "shown (emit lv ev fs s) now t x = shown s now t x"
  by (simp add: shown_def live_def dead_reason_def)

lemma get_session_none:
  assumes "get_session now sid s = (None, s')" and "shown s' now t x"
  shows "shown s now t x"
proof (cases "get (sessions s) sid")
  case None
  with assms show ?thesis by (simp add: get_session_def)
next
  case (Some y)
  then have "shown (delete_session sid s) now t x"
    using assms by (simp add: get_session_def Let_def split: if_splits) (metis shown_emit)
  then show ?thesis by (rule shown_delete)
qed

lemma check_session_some:
  assumes "check_session now r s = (Some (x, auth), s')"
  shows "case auth of
      AuthCookie \<Rightarrow> (\<exists>sid. get (rq_cookies r) cookie_session = Some sid \<and> shown s now sid x)
    | AuthBearer \<Rightarrow> prefix ''Bearer '' (header_of r ''Authorization'')
        \<and> shown s now (trim_space (trim_prefix ''Bearer '' (header_of r ''Authorization''))) x"
    and "auth = AuthCookie \<Longrightarrow> csrf (deref s' x) = csrf (deref s x)"
  using assms
  by (auto simp: check_session_def Let_def get_session_some dest: get_session_some(1) get_session_none
      split: option.splits prod.splits if_splits)

lemma check_csrf_some:
  assumes "check_csrf cookie token (Some x) o' s = (None, s')"
  shows "cookie \<noteq> []" "token = cookie" "cookie = csrf (deref s x)" "s' = s"
  using assms by (auto simp: check_csrf_def Let_def split: if_splits)

lemma check_request_csrf_some:
  assumes "check_request_csrf r x s = (None, s')"
  shows "csrf_shown r (deref s x)" "s' = s"
  using check_csrf_some [OF assms [unfolded check_request_csrf_def]]
  by (auto simp: csrf_shown_def split: option.splits)

text \<open>What no gate touches, whatever it answers.\<close>

definition kept :: "'h api_state \<Rightarrow> 'h api_state \<Rightarrow> bool" where
  "kept st st' \<longleftrightarrow> ax_mods st' = ax_mods st \<and> ax_used st' = ax_used st \<and> ax_host st' = ax_host st"

lemma kept_simps [simp]:
  "kept st st" "kept st (log_note ev st') = kept st st'" "kept st (st'\<lparr>ax_store := s\<rparr>) = kept st st'"
  by (simp_all add: kept_def log_note_def)

lemma on_store_result: "on_store f st = (v, st') \<Longrightarrow> f (ax_store st) = (v, ax_store st') \<and> st' = st\<lparr>ax_store := ax_store st'\<rparr>"
  by (auto simp: on_store_def split: prod.splits)

definition gate_statuses :: "int set" where
  "gate_statuses = {401, 403, 405, 411, 413, 415, 421}"

lemmas refusal_codes = NoSession_def BadOrigin_def BadCSRF_def MethodNotAllowed_def BadContentType_def LengthRequired_def
  TooLarge_def

lemma validate_some:
  assumes "validate c now methods body hs r st = (Inr x, st')"
  shows "authorised c now r (ax_store st) x" "method_allowed (rq_method r) methods" "kept st st'"
    and "body \<Longrightarrow> content_type_ok (header_of r ''Content-Type'') \<and> 0 \<le> rq_length r \<and> rq_length r \<le> dc_max_request c"
proof -
  have pass: "check_host c r" "check_origin c r" "method_allowed (rq_method r) methods"
    and nobody: "(if body then validate_body c hs r else None) = None"
    using assms by (auto simp: validate_def split: if_splits option.splits)
  then obtain auth st1 where c: "on_store (check_session now r) st = (Some (x, auth), st1)"
    and d: "if is_write_method (rq_method r) \<and> auth = AuthCookie
      then on_store (check_request_csrf r x) st1 = (None, st') else st' = st1"
    using assms by (auto simp: validate_def split: if_splits option.splits prod.splits)
  note s = on_store_result [OF c]
  have csrf: "csrf_shown r (deref (ax_store st) x)" if "is_write_method (rq_method r)" "auth = AuthCookie"
    using that d check_request_csrf_some [of r x "ax_store st1"] check_session_some(2) [OF s [THEN conjunct1]]
    by (auto simp: csrf_shown_def dest: on_store_result)
  have k: "kept st st1" using s by (metis kept_simps(1,3))
  show "kept st st'"
    using d k on_store_result [of "check_request_csrf r x" st1] by (auto split: if_splits) (metis kept_simps(3))
  show "authorised c now r (ax_store st) x"
    using pass csrf check_session_some(1) [OF s [THEN conjunct1]]
    by (cases auth) (auto simp: authorised_def check_host_def check_origin_def Let_def)
  show "method_allowed (rq_method r) methods" by (rule pass)
  show "content_type_ok (header_of r ''Content-Type'') \<and> 0 \<le> rq_length r \<and> rq_length r \<le> dc_max_request c" if body
    using nobody that by (auto simp: validate_body_def split: if_splits)
qed

lemma validate_refused:
  assumes "validate c now methods body hs r st = (Inl a, st')"
  shows "resp_status a \<in> gate_statuses" "kept st st'"
  using assms
  by (auto simp: validate_def validate_body_def on_store_def gate_statuses_def refusal_codes check_request_csrf_def check_csrf_def
      Let_def split: if_splits option.splits prod.splits auth_method.splits)

section \<open>The routes\<close>

definition open_routes :: "api_route set" where
  "open_routes = {ProbeRoute, HealthRoute, SessionRoute}"

definition route_method :: "api_route \<Rightarrow> string" where
  "route_method route =
     (if route \<in> {SessionRoute, HeartbeatRoute, GoodbyeRoute, ShutdownRoute, SaveWriteRoute, ConfigWriteRoute, ModActionRoute,
          UpdateApplyRoute, UpdateCancelRoute} then ''POST''
      else if route \<in> {SaveDeleteRoute, ModDeleteRoute} then ''DELETE'' else ''GET'')"

lemmas handler_defs = handle_heartbeat_def handle_goodbye_def handle_shutdown_def handle_diagnostics_def handle_state_def
  handle_saves_list_def handle_save_read_def handle_config_read_def handle_mods_read_def handle_export_def
  handle_save_write_def handle_save_delete_def handle_config_write_def handle_mod_action_def handle_mod_delete_def
  handle_update_check_def handle_update_apply_def handle_update_cancel_def handle_update_progress_def

lemma handle_api_gated:
  assumes "route \<notin> open_routes"
  shows "\<exists>body f. handle_api ops c env route = gated c env (route_method route) body f"
  using assms unfolding handle_api_def handler_defs
  by (cases route) (force simp: open_routes_def route_method_def)+

lemma method_fields: "Prelude.fields ''GET'' = [''GET'']" "Prelude.fields ''POST'' = [''POST'']" "Prelude.fields ''DELETE'' = [''DELETE'']"
  by code_simp+

lemma one_method: "method_allowed m (route_method route) \<longleftrightarrow> m = route_method route"
  by (simp add: method_allowed_def route_method_def method_fields)

text \<open>
  Only an authorised request gets past the gates of the data API. Take any route but the probe, the
  health check and the exchange of the bootstrap token, and a request that is not addressed to the
  launcher's own authority, carries a foreign origin, has the wrong method for the route, or does not
  show a live session: by the session cookie, with the CSRF token in both its cookie and its header
  when the method writes, or by a bearer token. Its answer is one of the refusals of \<open>validate\<close>, the
  handler does not run, and neither the saves, the settings, the mods and their files, nor the
  server, nor the update allowance of any session has changed.
\<close>

theorem api_needs_session:
  assumes "handle_api ops c env route hs r st = (resp, st')" and "route \<notin> open_routes"
    and "\<not> (rq_method r = route_method route \<and> (\<exists>x. authorised c (ae_now env) r (ax_store st) x))"
  shows "(\<exists>a. resp = Some a \<and> resp_status a \<in> gate_statuses)
    \<and> ax_mods st' = ax_mods st \<and> ax_host st' = ax_host st \<and> ax_used st' = ax_used st"
proof -
  obtain body f where g: "handle_api ops c env route = gated c env (route_method route) body f"
    using handle_api_gated [OF assms(2)] by blast
  obtain v st1 where v: "validate c (ae_now env) (route_method route) body hs r st = (v, st1)" by fastforce
  have "\<exists>a. v = Inl a"
    using validate_some(1,2) [of c "ae_now env" "route_method route" body hs r st _ st1] assms(3) v
    by (cases v) (auto simp: one_method)
  then obtain a where a: "v = Inl a" by blast
  then show ?thesis
    using assms(1) validate_refused [OF v [unfolded a]] by (auto simp: g gated_def v kept_def)
qed

section \<open>Bodies\<close>

lemma members_of_encode:
  assumes "canonical (JObj ms)" and "follows rem"
  shows "members_of (encode (JObj ms) @ rem) = Some (map (\<lambda>(k, v). (k, v, encode v)) ms)"
proof -
  let ?body = "join_comma (map (\<lambda>(k, v). encode_string k @ CHR '':'' # encode v) ms)"
  have e: "encode (JObj ms) @ rem = CHR ''{'' # ?body @ CHR ''}'' # rem"
    using assms(1) by (simp only: encode_obj [of ms] canonical.simps) simp
  show ?thesis
  proof (cases "ms = []")
    case True
    then show ?thesis unfolding members_of_def e by (simp add: join_comma_def skip_ws_id head_is_def json_space_def)
  next
    case False
    obtain n where n: "length (encode (JObj ms) @ rem) = Suc n" "length ?body \<le> n" unfolding e by simp
    have "parse_members (Suc n) (?body @ CHR ''}'' # rem) = Some (map (\<lambda>(k, v). (k, v, encode v)) ms, rem)"
      by (rule parse_members_encode)
        (use False assms(1) n(2) in \<open>auto simp: list_all_iff intro!: parse_value_encode\<close>)
    moreover obtain cs where "?body = quote # cs"
      using False by (cases ms; cases "tl ms") (auto simp: join_comma_def encode_string_def)
    ultimately show ?thesis
      using n(1) unfolding members_of_def e by (simp add: skip_ws_id head_is_def json_space_def quote_def)
  qed
qed

text \<open>
  A document the decoder accepts, followed by nothing or by a stray closing brace: the check for
  content after the document does not see the brace.
\<close>

lemma decode_json_accepts:
  assumes "canonical (JObj ms)" and "rem \<in> {[], ''}''}" and "rq_body r = Some (encode (JObj ms) @ rem)"
    and "0 < limit" and "int (length (encode (JObj ms) @ rem)) \<le> limit"
    and "list_all (\<lambda>(k, _). map to_lower_ascii k \<in> set names) ms" and "dec (map (\<lambda>(k, v). (k, v, encode v)) ms) = Some x"
  shows "decode_json names dec limit r = Inr x"
proof -
  let ?raw = "encode (JObj ms) @ rem"
  have f: "follows rem" using assms(2) by (auto simp: follows_def)
  obtain cs where e: "encode (JObj ms) = CHR ''{'' # cs" using assms(1) encode_obj [of ms] by auto
  have "trim_space ?raw \<noteq> []"
    unfolding e by (auto simp: trim_space_def trim_left_by_def trim_right_by_def is_space_def dropWhile_append)
  moreover have "parse_value (Suc (length ?raw)) ?raw = Some (JObj ms, rem)"
    by (rule parse_value_encode [OF assms(1) f]) simp
  moreover have "\<not> more_follows rem"
    using assms(2) by (auto simp: more_follows_def skip_ws_def json_space_def)
  moreover have "known_fields names (map (\<lambda>(k, v). (k, v, encode v)) ms)"
    using assms(6) by (auto simp: known_fields_def list_all_iff)
  ultimately show ?thesis
    using assms(3,4,5,7) members_of_encode [OF assms(1) f] by (simp add: decode_json_def Let_def)
qed

section \<open>Errors of the storage\<close>

text \<open>An error whose answer is a refusal.\<close>

definition refuses :: "store_error \<Rightarrow> bool" where
  "refuses err \<longleftrightarrow> (case err of StoreErr k \<Rightarrow> 400 \<le> ke_http k | _ \<Rightarrow> True)"

lemma refuse_store_status: "refuses err \<Longrightarrow> 400 \<le> resp_status (refuse_store hs (save_error err))"
  by (cases err) (auto simp: refuse_store_def save_error_def go_of_def refuses_def write_envelope_def from_error_def
      as_kobra_conflict_def Conflict_def Let_def)

lemma write_temp_plain: "write_temp tmp data e = (Some err, e') \<Longrightarrow> \<exists>x. err \<in> {SysErr x, TempVerify}"
  by (auto simp: write_temp_def split: prod.splits option.splits sum.splits if_splits)

lemma rotate_bak_plain: "rotate_bak tmp t e = (Some err, e') \<Longrightarrow> \<exists>x. err = SysErr x"
  by (auto simp: rotate_bak_def Let_def split: prod.splits option.splits sum.splits if_splits)

lemma promote_temp_plain: "promote_temp tmp t e = (Some err, e') \<Longrightarrow> \<exists>x. err = SysErr x"
  by (auto simp: promote_temp_def split: prod.splits option.splits sum.splits if_splits)

lemma check_space_plain: "check_space n e = (Some err, e') \<Longrightarrow> err = SpaceGuard"
  by (auto simp: check_space_def Let_def split: prod.splits fault.splits if_splits)

lemma write_atomic_plain:
  assumes "write_atomic t data e = (Some err, e')"
  shows "refuses (io_err err)"
proof -
  have "\<exists>x. err \<in> {CtxErr, SpaceGuard, TempVerify, SysErr x}"
    using assms unfolding write_atomic_def Let_def
    by (auto dest!: write_temp_plain rotate_bak_plain promote_temp_plain check_space_plain
        split: prod.splits option.splits bool.splits)
  then show ?thesis
    by (auto simp: refuses_def io_err_def map_io_error_def InsufficientSpace_def ReadOnly_def IO_error_def)
qed

lemma save_path_refuses: "save_path e slot = Inl err \<Longrightarrow> refuses err"
  by (auto simp: save_path_def validate_identifier_def confine_path_def refuses_def BadIdentifier_def OutOfRoot_def IO_error_def
      Let_def
      split: option.splits if_splits)

lemma write_save_refuses:
  assumes "write_save now w e = (Inl err, e')"
  shows "refuses err"
proof -
  have locked: "refuses err" if "write_save_locked now p w d = (Inl err, e')" for p d
    using that write_atomic_plain
    by (fastforce simp: write_save_locked_def Let_def refuses_def [of "StoreErr _"] MalformedBody_def
        split: option.splits prod.splits)
  have "refuses err"
    if "(if sw_claim w then claim_engine_writer (sw_session w) d else (None, d)) = (Some err, d')" for d d'
    using that by (auto simp: claim_engine_writer_def refuses_def WriterHeld_def Conflict_def split: if_splits)
  moreover have "refuses err" if "check_revision key x d = (Some err, d')" for key x d d'
    using that by (auto simp: check_revision_def refuses_def Let_def split: option.splits if_splits prod.splits)
  ultimately show ?thesis
    using assms locked save_path_refuses
    by (auto simp: write_save_def refuses_def ReadOnly_def split: prod.splits bool.splits if_splits sum.splits option.splits)
qed

section \<open>From one request to the next\<close>

lemma int_ptr_range: "int_ptr_field name ms = Some (Some i) \<Longrightarrow> int64 i"
  by (auto simp: int_ptr_field_def bind_eq_Some_conv as_int_def int64_def dest!: parse_int64_range split: if_splits)
    (auto split: json.splits dest!: parse_int64_range)

lemma decode_save_playtime:
  assumes "decode_save_request ms = Some q" and "rs_playtime q = Some t"
  shows "int64 t"
proof -
  have *: "int64 t" if "decode_save_meta xs = Some (Some t)" for xs
    using that by (auto simp: decode_save_meta_def split: option.splits dest: int_ptr_range)
  obtain m where "ptr_field (as_strict [''playtime_seconds'', ''title'', ''thumbnail''] decode_save_meta) ''meta'' ms = Some (Some (Some t))"
    using assms by (auto simp: decode_save_request_def bind_eq_Some_conv split: option.splits)
  then obtain v where "as_strict [''playtime_seconds'', ''title'', ''thumbnail''] decode_save_meta v = Some (Some t)"
    by (auto simp: ptr_field_def bind_eq_Some_conv split: if_splits)
  then show ?thesis
    using * by (auto simp: as_strict_def as_struct_def split: json.splits if_splits)
qed

lemma decode_json_decodes: "decode_json names dec limit r = Inr q \<Longrightarrow> \<exists>ms. dec ms = Some q"
  by (auto simp: decode_json_def Let_def split: option.splits prod.splits if_splits)

lemma read_save_intact:
  assumes "faults e = []" and "save_path e slot = Inr p" and "get (files e) p = Some raw" and "intact raw = Some x"
  shows "fst (read_save slot e) = Inr x"
proof -
  obtain h where "parse_save raw = Some h" "verify_checksum h" "sh_payload h = x" using intactD [OF assms(4)] by blast
  then show ?thesis using assms(1-3) by (simp add: read_save_def quiet_calls)
qed

lemma validate_identifier_field_status: "validate_identifier_field name v = Some k \<Longrightarrow> ke_http k = 400"
  by (auto simp: validate_identifier_field_def validate_identifier_def BadIdentifier_def CodeBadIdentifier_def
      split: option.splits kobra_error.splits if_splits)

lemma spend_quota_frame:
  assumes "spend_quota c env x n st = (res, st')"
  shows "ax_mods st' = ax_mods st" "res = Some k \<Longrightarrow> ke_http k = 429"
  using assms by (auto simp: spend_quota_def on_store_def allow_def RateLimited_def Let_def split: prod.splits if_splits)

lemma store_save_wrote:
  assumes "store_save c env x q hs st = (Some a, st')" and "resp_status a = 200"
  shows "\<exists>w res. sw_slot w = rs_slot q \<and> sw_payload w = rs_payload q \<and> sw_playtime w = rs_playtime q
    \<and> write_save (ae_stamp env) w (ms_engine (ax_mods st)) = (Inr res, ms_engine (ax_mods st'))"
proof -
  obtain st1 where n: "validate_identifier_field ''slot'' (rs_slot q) = None" "rs_payload q \<noteq> []"
    and c: "spend_quota c env x (int (length (rs_payload q))) st = (None, st1)"
    using assms validate_identifier_field_status [of "''slot''" "rs_slot q"]
      spend_quota_frame(2) [of c env x "int (length (rs_payload q))" st]
    by (auto simp: store_save_def MalformedField_def split: option.splits if_splits prod.splits)
  let ?w = "write_of q (sess_id (deref (ax_store st1) x))"
  obtain v e1 where w: "write_save (ae_stamp env) ?w (ms_engine (ax_mods st1)) = (v, e1)" by fastforce
  have o': "on_engine_of (write_save (ae_stamp env) ?w) st1 = (v, st1\<lparr>ax_mods := (ax_mods st1)\<lparr>ms_engine := e1\<rparr>\<rparr>)"
    by (simp add: on_engine_of_def on_mods_def on_engine_def w)
  have r: "resp_status (refuse_store hs (save_error err)) \<noteq> 200" if "v = Inl err" for err
    using refuse_store_status [OF write_save_refuses [OF w [unfolded that]], of hs] by simp
  obtain res where v: "v = Inr res" and st': "st' = st1\<lparr>ax_mods := (ax_mods st1)\<lparr>ms_engine := e1\<rparr>\<rparr>"
    using assms n c o' r by (cases v) (auto simp: store_save_def)
  show ?thesis
    using w spend_quota_frame(1) [OF c] unfolding v st'
    by (intro exI [where x = ?w] exI [where x = res]) (simp add: write_of_def)
qed

text \<open>
  C6: What a page has saved is what it reads back. When \<open>POST /api/save\<close> has answered 200, the payload
  of its body is a JSON value, and whatever request is authorised to read that slot next, over the
  same folder and with nothing failing, \<open>GET /api/data/saves/<slot>\<close> answers 200 with the payload
  in its canonical form.
\<close>

theorem saved_payload_is_served:
  assumes post: "handle_api ops c env SaveWriteRoute hs r st = (Some a, st1)" "resp_status a = 200"
    and e: "rooted (eng_dir (ms_engine (ax_mods st)))" "no_exdev (ms_engine (ax_mods st))"
      "int64 (save_ver (ms_engine (ax_mods st)))" "1 \<le> save_ver (ms_engine (ax_mods st))"
    and q: "decode_json save_fields decode_save_request (dc_max_request c) r = Inr q"
    and later: "files (ms_engine (ax_mods st2)) = files (ms_engine (ax_mods st1))" "faults (ms_engine (ax_mods st2)) = []"
      "eng_dir (ms_engine (ax_mods st2)) = eng_dir (ms_engine (ax_mods st))"
    and get: "validate c2 (ae_now env2) ''GET'' False hs2 r2 st2 = (Inr x, st3)"
      "path_name ''/api/data/saves/'' ''save slot'' ''slot'' r2 = Inr (rs_slot q)"
  shows "\<exists>v b. decode_first (rs_payload q) = Some v
    \<and> fst (handle_api ops c2 env2 SaveReadRoute hs2 r2 st2) = Some b \<and> resp_status b = 200 \<and> resp_body b = encode v"
proof -
  let ?e = "ms_engine (ax_mods st)"
  obtain y sta where g: "validate c (ae_now env) ''POST'' True hs r st = (Inr y, sta)"
    and s: "store_save c env y q hs sta = (Some a, st1)"
    using post validate_refused [of c "ae_now env" "''POST''" True hs r st] q
    by (auto simp: handle_api_def handle_save_write_def gated_def gate_statuses_def split: prod.splits sum.splits)
  have ka: "ax_mods sta = ax_mods st" using validate_some(3) [OF g] by (simp add: kept_def)
  obtain w res e1 where w: "write_save (ae_stamp env) w ?e = (Inr res, e1)" "ms_engine (ax_mods st1) = e1"
    "sw_slot w = rs_slot q" "sw_payload w = rs_payload q" "sw_playtime w = rs_playtime q"
    using store_save_wrote [OF s post(2)] ka by auto
  have pt: "int64 t" if "sw_playtime w = Some t" for t
    using decode_json_decodes [OF q] decode_save_playtime that w(5) by auto
  obtain p v data where d: "save_path ?e (rs_slot q) = Inr p" "decode_first (rs_payload q) = Some v"
    "intact data = Some (encode v)" "get (files e1) p = Some data"
    using write_save_stored [OF e(1,2) w(1) e(3,4) pt] w(3,4) by auto
  have k3: "ax_mods st3 = ax_mods st2" using validate_some(3) [OF get(1)] by (simp add: kept_def)
  have "save_path (ms_engine (ax_mods st2)) slot = save_path ?e slot" for slot
    unfolding save_path_def Let_def dir_for_def confine_path_def later(3) ..
  then have "fst (read_save (rs_slot q) (ms_engine (ax_mods st2))) = Inr (encode v)"
    by (intro read_save_intact [OF later(2) _ _ d(3)]) (use d later w(2) in simp_all)
  then obtain e4 where "read_save (rs_slot q) (ms_engine (ax_mods st2)) = (Inr (encode v), e4)"
    by (cases "read_save (rs_slot q) (ms_engine (ax_mods st2))") auto
  then show ?thesis
    using d(2) k3 by (simp add: handle_api_def handle_save_read_def gated_def get send_save_def on_engine_of_def on_mods_def on_engine_def)
qed

section \<open>Samples\<close>

definition sample_config :: data_config where
  "sample_config = \<lparr>dc_max_request = 500, dc_writes = 0, dc_bytes = 0, dc_host = ''127.0.0.1'', dc_port = 80\<rparr>"

definition sample_env :: api_env where
  "sample_env = \<lparr>ae_now = 100, ae_stamp = ''t1'', ae_trash = ''x'', ae_rand1 = None, ae_rand2 = None,
     ae_mtime = (\<lambda>_. []), ae_unpack = (\<lambda>_. ([], False))\<rparr>"

text \<open>A server that counts the heartbeats, and has nothing else.\<close>

definition counting_host :: "nat host_ops" where
  "counting_host = \<lparr>ho_probe = (\<lambda>n. \<lparr>pr_app = [], pr_game_id = [], pr_instance = [], pr_release = [], pr_port = 80\<rparr>),
     ho_heartbeat = Suc, ho_goodbye = id, ho_shutdown = (\<lambda>_. id), ho_diagnostics = (\<lambda>st. (JNull, st)), ho_state = (\<lambda>_. JNull),
     ho_update_check = (\<lambda>n. (\<lparr>us_current = [], us_latest = [], us_available = False, us_notes_url = [], us_detail = []\<rparr>, n)),
     ho_record_intent = (\<lambda>n. (Inl (NotFound []), n)), ho_cancel_intent = (\<lambda>n. (Inr True, n)), ho_update_progress = (\<lambda>_. JNull)\<rparr>"

definition sample_api :: "engine \<Rightarrow> nat api_state" where
  "sample_api e = \<lparr>ax_store = exchanged_store, ax_mods = \<lparr>ms_engine = e, ms_dirs = []\<rparr>, ax_used = [], ax_log = [], ax_host = 0\<rparr>"

definition sample_headers :: "(string, string) gmap" where
  "sample_headers = [(''Content-Type'', ''application/json''), (''X-Kobra-Csrf'', sample_secret 3)]"

definition sample_cookies :: "(string, string) gmap" where
  "sample_cookies = [(''kobra_session'', sample_secret 2), (''kobra_csrf'', sample_secret 3)]"

definition sample_req :: "string \<Rightarrow> string \<Rightarrow> (string, string) gmap \<Rightarrow> (string, string) gmap \<Rightarrow> string \<Rightarrow> http_request" where
  "sample_req m p hs ck body = \<lparr>rq_method = m, rq_path = p, rq_host = ''127.0.0.1:80'', rq_headers = hs, rq_cookies = ck,
     rq_length = int (length body), rq_body = Some body\<rparr>"

lemma sample_authority: "bind_authority sample_config = ''127.0.0.1:80''"
  by code_simp

lemma sample_media: "content_type_ok ''application/json''"
  by code_simp

lemmas request_defs = sample_req_def sample_cookies_def sample_headers_def header_of_def
  cookie_session_def cookie_csrf_def header_csrf_def

lemma sample_session: "get_session 100 (sample_secret 2) exchanged_store
    = (Some 0, update_session 0 (\<lambda>y. y\<lparr>last_active := 100\<rparr>) exchanged_store)"
  by (simp add: get_session_def sample_eqs dead_reason_def deref_def)

lemma sample_gate:
  assumes "m = ''GET'' \<and> \<not> body \<or> m = ''POST''" and "length txt \<le> 500" and "ax_store st = exchanged_store"
  shows "validate sample_config 100 m body hs (sample_req m p sample_headers sample_cookies txt) st
    = (Inr 0, st\<lparr>ax_store := update_session 0 (\<lambda>y. y\<lparr>last_active := 100\<rparr>) exchanged_store\<rparr>)"
proof -
  let ?r = "sample_req m p sample_headers sample_cookies txt" and ?s = "update_session 0 (\<lambda>y. y\<lparr>last_active := 100\<rparr>) exchanged_store"
  have h: "check_host sample_config ?r" "check_origin sample_config ?r"
    using sample_authority by (simp_all add: check_host_def check_origin_def request_defs)
  have m: "method_allowed m m" using assms(1) method_fields by (auto simp: method_allowed_def)
  have b: "validate_body sample_config hs ?r = None"
    using assms(2) sample_media by (simp add: validate_body_def request_defs sample_config_def)
  have s: "on_store (check_session 100 ?r) st = (Some (0, AuthCookie), st\<lparr>ax_store := ?s\<rparr>)"
    using assms(3) by (simp add: on_store_def check_session_def request_defs sample_session)
  have "csrf (deref ?s 0) = sample_secret 3" by (simp add: deref_refreshed) (simp add: sample_eqs deref_def)
  then have "check_request_csrf ?r 0 ?s = (None, ?s)" by (simp add: check_request_csrf_def check_csrf_def request_defs)
  then have "on_store (check_request_csrf ?r 0) (st\<lparr>ax_store := ?s\<rparr>) = (None, st\<lparr>ax_store := ?s\<rparr>)" by (simp add: on_store_def)
  moreover have "rq_method ?r = m" by (simp add: sample_req_def)
  ultimately show ?thesis using h m b s by (simp add: validate_def)
qed

text \<open>The session cookie without the CSRF token does not stop the launcher, or count as a heartbeat.\<close>

theorem api_needs_session_witness:
  "case handle_api counting_host sample_config sample_env HeartbeatRoute []
      (sample_req ''POST'' ''/__kobra/heartbeat'' [] sample_cookies []) (sample_api (sample_engine [])) of
     (resp, st') \<Rightarrow> (\<exists>a. resp = Some a \<and> resp_status a \<in> gate_statuses) \<and> ax_host st' = 0"
proof -
  let ?r = "sample_req ''POST'' ''/__kobra/heartbeat'' [] sample_cookies []"
  obtain resp st' where c: "handle_api counting_host sample_config sample_env HeartbeatRoute [] ?r
      (sample_api (sample_engine [])) = (resp, st')" by fastforce
  have "\<not> authorised sample_config (ae_now sample_env) ?r (ax_store (sample_api (sample_engine []))) x" for x
    by (auto simp: authorised_def csrf_shown_def is_write_method_def request_defs)
  then show ?thesis
    using api_needs_session [OF c] unfolding c by (simp add: open_routes_def sample_api_def)
qed

definition sample_save_doc :: "(string \<times> json) list" where
  "sample_save_doc = [(''payload'', JNum ''2''), (''slot'', JStr ''a'')]"

definition sample_save_request :: save_request where
  "sample_save_request = \<lparr>rs_slot = ''a'', rs_if_revision = None, rs_claim = False, rs_compression = [],
     rs_payload = encode (JNum ''2''), rs_playtime = None\<rparr>"

lemma sample_save_text: "encode (JObj sample_save_doc) = ''{'' @ [quote] @ ''payload'' @ [quote] @ '':2,'' @ [quote] @ ''slot'' @ [quote] @ '':'' @ [quote] @ ''a'' @ [quote] @ ''}''"
  by (simp add: sample_save_doc_def encode_obj join_comma_def encode_string_plain plain_byte_def)

lemma sample_save_decodes:
  assumes "rq_body r = Some (encode (JObj sample_save_doc) @ rem)" and "rem \<in> {[], ''}''}"
  shows "decode_json save_fields decode_save_request (dc_max_request sample_config) r = Inr sample_save_request"
proof (rule decode_json_accepts [OF _ assms(2,1)])
  have "keys_sorted sample_save_doc" unfolding sample_save_doc_def by code_simp
  then show "canonical (JObj sample_save_doc)" by (simp add: sample_save_doc_def sample_numbers)
  show "0 < dc_max_request sample_config" by (simp add: sample_config_def)
  show "int (length (encode (JObj sample_save_doc) @ rem)) \<le> dc_max_request sample_config"
    using assms(2) unfolding sample_save_text by (auto simp: sample_config_def)
  show "list_all (\<lambda>(k, _). map to_lower_ascii k \<in> set save_fields) sample_save_doc"
    by (simp add: sample_save_doc_def save_fields_def to_lower_ascii_def)
  show "decode_save_request (map (\<lambda>(k, v). (k, v, encode v)) sample_save_doc) = Some sample_save_request"
  proof -
    let ?ms = "map (\<lambda>(k, v). (k, v, encode v)) sample_save_doc"
    have "str_field ''slot'' ?ms = Some ''a''" "int_ptr_field ''if_revision'' ?ms = Some None" "bool_field ''claim'' ?ms = Some False"
      "str_field ''compression'' ?ms = Some []" "raw_field ''payload'' ?ms = encode (JNum ''2'')"
      "ptr_field f ''meta'' ?ms = Some None" for f :: "json \<Rightarrow> int option option"
      by (simp_all add: sample_save_doc_def Json_Fields.field_defs named_simps to_lower_ascii_def)
    then show ?thesis by (simp add: decode_save_request_def sample_save_request_def)
  qed
qed

definition sample_post :: http_request where
  "sample_post = sample_req ''POST'' ''/api/save'' sample_headers sample_cookies (encode (JObj sample_save_doc))"

definition sample_read :: http_request where
  "sample_read = sample_req ''GET'' ''/api/data/saves/a'' sample_headers sample_cookies []"

lemma sample_quota:
  assumes "ax_store st = update_session 0 (\<lambda>y. y\<lparr>last_active := 100\<rparr>) exchanged_store"
  shows "\<exists>s. spend_quota sample_config sample_env 0 1 st = (None, st\<lparr>ax_store := s\<rparr>)"
proof -
  have "fst (allow 100 (Some 0) 1 0 0 (update_session 0 (\<lambda>y. y\<lparr>last_active := 100\<rparr>) exchanged_store)) = None"
    by (simp add: allow_def sample_eqs deref_def update_session_def roll_window_def Let_def default_writes_per_minute_def
        default_bytes_per_minute_def quota_window_def wrap64_def)
  then show ?thesis
    using assms by (auto simp: spend_quota_def on_store_def sample_config_def sample_env_def split: prod.splits)
qed

lemma sample_post_stored:
  "\<exists>a st1. handle_api counting_host sample_config sample_env SaveWriteRoute [] sample_post (sample_api (sample_engine [])) = (Some a, st1)
     \<and> resp_status a = 200"
proof -
  let ?st = "sample_api (sample_engine [])"
  let ?sl = "?st\<lparr>ax_store := update_session 0 (\<lambda>y. y\<lparr>last_active := 100\<rparr>) exchanged_store\<rparr>"
  have v: "validate sample_config 100 ''POST'' True [] sample_post ?st = (Inr 0, ?sl)"
    unfolding sample_post_def by (rule sample_gate) (simp_all only: sample_save_text, simp_all add: sample_api_def)
  have d: "decode_json save_fields decode_save_request (dc_max_request sample_config) sample_post = Inr sample_save_request"
    by (rule sample_save_decodes [of _ "[]"]) (simp_all add: sample_post_def sample_req_def)
  obtain s where sq: "spend_quota sample_config sample_env 0 1 ?sl = (None, ?sl\<lparr>ax_store := s\<rparr>)"
    using sample_quota [of ?sl] by auto
  let ?w = "write_of sample_save_request (sess_id (deref s 0))"
  have "\<exists>x. fst (write_save ''t1'' ?w (sample_engine [])) = Inr x"
    by (rule write_save_unhindered)
      (simp_all add: sample_engine_def write_of_def sample_save_request_def get_def rooted_def slash_def
        decode_first_encode [OF sample_facts(2), simplified] validate_a)
  then obtain x e1 where w: "write_save ''t1'' ?w (sample_engine []) = (Inr x, e1)"
    by (cases "write_save ''t1'' ?w (sample_engine [])") auto
  have "validate_identifier_field ''slot'' ''a'' = None" by (simp add: validate_identifier_field_def validate_a)
  then show ?thesis
    using sq w v d
    by (simp add: handle_api_def handle_save_write_def gated_def store_save_def on_engine_of_def on_mods_def on_engine_def
        sample_env_def sample_api_def sample_save_request_def respond_json_def)
qed

theorem saved_payload_is_served_witness:
  "case handle_api counting_host sample_config sample_env SaveWriteRoute [] sample_post (sample_api (sample_engine [])) of
     (a, st1) \<Rightarrow> \<exists>b. fst (handle_api counting_host sample_config sample_env SaveReadRoute [] sample_read
         (sample_api (restart (sample_engine []) (files (ms_engine (ax_mods st1)))))) = Some b
       \<and> resp_status b = 200 \<and> resp_body b = ''2''"
proof -
  obtain a st1 where p: "handle_api counting_host sample_config sample_env SaveWriteRoute [] sample_post
      (sample_api (sample_engine [])) = (Some a, st1)" "resp_status a = 200"
    using sample_post_stored by blast
  let ?later = "sample_api (restart (sample_engine []) (files (ms_engine (ax_mods st1))))"
  have e: "ms_engine (ax_mods (sample_api e)) = e" for e by (simp add: sample_api_def)
  have d: "decode_json save_fields decode_save_request (dc_max_request sample_config) sample_post = Inr sample_save_request"
    by (rule sample_save_decodes [of _ "[]"]) (simp_all add: sample_post_def sample_req_def)
  have v: "validate sample_config (ae_now sample_env) ''GET'' False [] sample_read ?later
      = (Inr 0, ?later\<lparr>ax_store := update_session 0 (\<lambda>y. y\<lparr>last_active := 100\<rparr>) exchanged_store\<rparr>)"
    unfolding sample_read_def by (simp only: sample_env_def api_env.simps, rule sample_gate) (simp_all add: sample_api_def)
  have "route_path ''/api/data/saves/a'' ''/api/data/saves/'' = Some ''a''" by code_simp
  then have n: "path_name ''/api/data/saves/'' ''save slot'' ''slot'' sample_read = Inr (rs_slot sample_save_request)"
    by (simp add: path_name_def sample_read_def sample_req_def sample_save_request_def validate_identifier_field_def validate_a)
  have "rooted (eng_dir (sample_engine []))" "int64 (save_ver (sample_engine []))" "1 \<le> save_ver (sample_engine [])"
    "no_exdev (sample_engine [])"
    by (simp_all add: sample_engine_def rooted_def slash_def int64_def int64_min_def int64_max_def no_exdev_def)
  from saved_payload_is_served [OF p, unfolded e, OF this(1,4,2,3) d _ _ _ v n]
  show ?thesis
    unfolding p(1) by (simp add: e restart_def sample_save_request_def decode_first_encode [OF sample_facts(2), simplified])
qed

text \<open>A body with a stray brace after the document is stored like one without it.\<close>

lemma trailing_brace_accepted:
  "decode_json save_fields decode_save_request (dc_max_request sample_config)
     (sample_post\<lparr>rq_body := Some (encode (JObj sample_save_doc) @ ''}'')\<rparr>) = Inr sample_save_request"
  by (rule sample_save_decodes [of _ "''}''"]) simp_all

text \<open>
  A session may ask for an update once, whether the request is recorded or not: after a try that
  failed, the next one is refused without a look at the server.
\<close>

lemma failed_update_spends_allowance:
  assumes "ho_record_intent ops (ax_host st) = (Inl k, h)" and "request_update ops x hs r st = (resp, st1)"
    and "sess_id (deref (ax_store st) x) \<notin> set (ax_used st)"
  shows "resp = Some (refuse hs k) \<and> request_update ops x hs r st1 = (Some (refuse hs (RateLimited ''update'' 3600)), st1)"
  using assms by (auto simp: request_update_def Let_def)

end
