(* ===== verification/Server.thy ===== *)
theory Server
  imports Data_Api_Laws Static_Files Mods_Laws Config Update_Apply
begin

text \<open>
  \<open>server/server.go\<close> and \<open>server/update.go\<close>: the state of the HTTP server, what it offers the handlers
  (\<open>server_ops\<close> fills in \<open>host_ops\<close>), the middleware in its fixed order around the handlers of \<open>Data_Api\<close>
  and \<open>Static_Files\<close>, the watcher, and the drain. A request that runs alone is one application of
  \<open>build_handler\<close>; requests that overlap are the step relation of \<open>Server_Drain\<close>.
\<close>

section \<open>State\<close>

definition max_concurrent_requests :: nat where "max_concurrent_requests = 32"

text \<open>
  The hooks record the calls of \<open>OnFirstHeartbeat\<close> and \<open>OnWatchdogTimeout\<close>, where they are set. The
  channel holds the reason of a shutdown; the update directory is the state of \<open>Update_Apply\<close>.
\<close>

record server =
  se_cfg :: config
  se_port :: nat
  se_version :: string
  se_release :: string
  se_instance :: string
  se_folder :: string
  se_game_dir :: string
  se_data_dir :: string
  se_sidecar :: string
  se_sidecar_kind :: string
  se_sidecar_fallback :: string
  se_data_kind :: string
  se_browser :: string
  se_browser_version :: string
  se_on_first :: bool
  se_on_watchdog :: bool
  se_debug :: bool
  se_started :: time
  se_last_seen :: time
  se_first :: bool
  se_draining :: bool
  se_in_flight :: int
  se_sem :: nat
  se_requests :: nat
  se_once :: bool
  se_stop :: "string list"
  se_watchdog :: bool
  se_panicked :: bool
  se_cancelled :: bool
  se_closed :: bool
  se_hooks :: "string list"
  se_etags :: etags
  se_update :: apply_state

type_synonym app = "server api_state"

text \<open>
  What the server meets: the clock, the network, whether the update directory, the marker and the cancel
  flag can be written and removed, whether the last result is not older than the progress record, the
  times of save files, the view of the file system, and the name of a crash file.
\<close>

record server_env =
  sn_now :: time
  sn_network :: network
  sn_dir_ok :: bool
  sn_marker_ok :: bool
  sn_cancel_ok :: bool
  sn_remove_ok :: bool
  sn_result_fresh :: bool
  sn_mtime :: "string \<Rightarrow> string"
  sn_view :: static_view

definition port_authority :: "nat \<Rightarrow> string" where
  "port_authority p = ''127.0.0.1:'' @ fmt_nat p"

definition origin_of :: "server \<Rightarrow> string" where
  "origin_of s = ''http://'' @ port_authority (se_port s)"

text \<open>\<open>Config\<close> and \<open>SetBind\<close>.\<close>

definition data_config_of :: "server \<Rightarrow> data_config" where
  "data_config_of s =
     \<lparr>dc_max_request = da_max_request (cf_data_api (se_cfg s)), dc_writes = da_writes_per_minute (cf_data_api (se_cfg s)),
      dc_bytes = da_bytes_per_minute (cf_data_api (se_cfg s)), dc_host = ''127.0.0.1'', dc_port = int (se_port s)\<rparr>"

section \<open>What the handlers call\<close>

definition app_name :: string where "app_name = ''kobra-launcher''"

definition probe_of :: "server \<Rightarrow> probe_response" where
  "probe_of s = \<lparr>pr_app = app_name, pr_game_id = cf_game_id (se_cfg s), pr_instance = se_instance s,
     pr_release = se_release s, pr_port = int (se_port s)\<rparr>"

definition idle_timeout :: "server \<Rightarrow> int" where
  "idle_timeout s = seconds (sv_idle_timeout (cf_server (se_cfg s)))"

definition heartbeat :: "time \<Rightarrow> server \<Rightarrow> server" where
  "heartbeat now s =
     (let s1 = s\<lparr>se_last_seen := now\<rparr>
      in if se_on_first s \<and> \<not> se_first s then s1\<lparr>se_first := True, se_hooks := se_hooks s @ [''first heartbeat'']\<rparr> else s1)"

definition goodbye :: "time \<Rightarrow> server \<Rightarrow> server" where
  "goodbye now s = s\<lparr>se_last_seen := now + wrap64 (-2 * idle_timeout s)\<rparr>"

text \<open>The channel has room for four reasons; only the first call sends one.\<close>

definition shutdown :: "string \<Rightarrow> server \<Rightarrow> server" where
  "shutdown why s =
     (if se_once s then s
      else s\<lparr>se_once := True, se_stop := (if length (se_stop s) < 4 then se_stop s @ [why] else se_stop s)\<rparr>)"

definition writer_value :: "engine \<Rightarrow> (string \<times> json) list" where
  "writer_value e = opt_member (eng_writer e \<noteq> []) ''writer'' (JStr (eng_writer e))"

definition uptime_seconds :: "time \<Rightarrow> server \<Rightarrow> int" where
  "uptime_seconds now s = go_div (now - se_started s) second"

definition state_json :: "time \<Rightarrow> app \<Rightarrow> json" where
  "state_json now st =
     (let s = ax_host st; e = ms_engine (ax_mods st) in
      JObj ([(''api_version'', JNum ''1''), (''game_id'', JStr (cf_game_id (se_cfg s))), (''release'', JStr (se_release s)),
             (''engine_version'', JStr (engine_ver e)), (''save_version'', JNum (fmt_int (save_ver e))),
             (''data_writable'', JBool (writable e))]
        @ opt_member (se_data_kind s \<noteq> []) ''data_dir_kind'' (JStr (se_data_kind s))
        @ writer_value e
        @ opt_member (uptime_seconds now s \<noteq> 0) ''uptime_seconds'' (JNum (fmt_int (uptime_seconds now s)))
        @ opt_member (sv_heartbeat (cf_server (se_cfg s)) \<noteq> 0) ''heartbeat_interval_seconds''
            (JNum (fmt_int (sv_heartbeat (cf_server (se_cfg s)))))))"

text \<open>\<open>Tail\<close>: the last lines of the log. A line of the log is the name of its event here.\<close>

definition log_tail :: "nat \<Rightarrow> string list \<Rightarrow> string list" where
  "log_tail n ls = drop (length ls - n) ls"

definition mod_diag :: "mod_info \<Rightarrow> json" where
  "mod_diag m = JObj [(''id'', JStr (mi_id m)), (''enabled'', JBool (mi_enabled m))]"

definition save_diag :: "save_summary \<Rightarrow> json" where
  "save_diag x =
     JObj ([(''slot'', JStr (ss_slot x)), (''rev'', JNum (fmt_int (ss_revision x)))]
       @ opt_member (ss_modified x \<noteq> []) ''modified'' (JStr (ss_modified x)))"

definition diagnostics :: "server_env \<Rightarrow> app \<Rightarrow> json \<times> app" where
  "diagnostics env st0 =
     (case on_mods read_mods st0 of
        (mods, st1) \<Rightarrow>
          (case on_engine_of (list_saves (sn_mtime env)) st1 of
             (saves, st2) \<Rightarrow>
               (let s = ax_host st0; e = ms_engine (ax_mods st0);
                    ms = (case mods of Inr v \<Rightarrow> mv_available v | Inl _ \<Rightarrow> []);
                    xs = (case saves of Inr (l, _) \<Rightarrow> l | Inl _ \<Rightarrow> [])
                in (JObj ([(''launcher_version'', JStr (se_version s)), (''release'', JStr (se_release s)),
                       (''engine_version'', JStr (engine_ver e)), (''port'', JNum (fmt_nat (se_port s))),
                       (''origin'', JStr (origin_of s)), (''origin_history'', JArr []), (''data_dir_kind'', JStr (se_data_kind s)),
                       (''data_writable'', JBool (writable e)), (''atomicity_degraded'', JBool (degraded e))]
                     @ opt_member (se_browser s \<noteq> []) ''browser''
                         (JObj [(''name'', JStr (se_browser s)), (''version'', JStr (se_browser_version s))])
                     @ opt_member (ms \<noteq> []) ''mods'' (JArr (map mod_diag ms))
                     @ opt_member (xs \<noteq> []) ''saves'' (JArr (map save_diag xs))
                     @ [(''log_tail'', JArr (map JStr (log_tail 200 (ax_log st0))))]
                     @ opt_member (se_sidecar_kind s \<noteq> []) ''sidecar_kind'' (JStr (se_sidecar_kind s))
                     @ opt_member (se_sidecar_fallback s \<noteq> []) ''sidecar_fallback_reason'' (JStr (se_sidecar_fallback s))), st2))))"

section \<open>Updates\<close>

definition current_release :: "server \<Rightarrow> string" where
  "current_release s =
     (let declared = installed_release_in (se_folder s) (se_update s) in if declared \<noteq> [] then declared else se_release s)"

definition update_check :: "server_env \<Rightarrow> server \<Rightarrow> update_status \<times> server" where
  "update_check env s =
     (let status = \<lparr>us_current = current_release s, us_latest = [], us_available = False, us_notes_url = [], us_detail = []\<rparr>;
          up = cf_update (se_cfg s)
      in if up_channel up = ''none'' then (status\<lparr>us_detail := ''Update checks are disabled for this game.''\<rparr>, s)
         else if up_patch_base_url up = [] then (status\<lparr>us_detail := ''No update server is configured for this game.''\<rparr>, s)
         else case fst (check (sn_network env) (up_patch_base_url up) (current_release s)) of
           Inl _ \<Rightarrow> (status\<lparr>us_detail := ''The update server could not be reached.''\<rparr>, s)
         | Inr res \<Rightarrow>
             (status\<lparr>us_latest := ck_latest res, us_notes_url := ck_notes_url res, us_available := ck_available res,
                us_detail := (if \<not> ck_available res \<and> ck_detail res = [] then ''This is the latest release.'' else ck_detail res)\<rparr>,
              s))"

definition record_intent :: "server_env \<Rightarrow> server \<Rightarrow> (kobra_error + intent_result) \<times> server" where
  "record_intent env s =
     (let up = cf_update (se_cfg s) in
      if up_channel up \<noteq> ''patch'' then
        (Inl (Conflict ''Updates for this game are installed by hand.''
           [(''reason'', JStr ''manual_channel''), (''channel'', JStr (up_channel up))]), s)
      else if up_patch_base_url up = [] then
        (Inl (Conflict ''No update server is configured for this game.'' [(''reason'', JStr ''no_update_server'')]), s)
      else case record_update_intent (sn_network env) (sn_dir_ok env) (sn_marker_ok env) (up_patch_base_url up)
              (current_release s) (se_version s) of
        (Some err, _, _) \<Rightarrow>
          (Inl (IO_error ''The update server could not be reached.'' [(''reason'', JStr ''unreachable'')] (Some (Kobra err))), s)
      | (None, out, None) \<Rightarrow> (Inr out, s)
      | (None, out, Some p) \<Rightarrow> (Inr out, s\<lparr>se_update := (se_update s)\<lparr>ap_pending := Some p\<rparr>\<rparr>))"

text \<open>\<open>ClearUpdateIntent\<close> and \<open>RequestCancel\<close> on the update directory.\<close>

definition clear_update_intent :: "server_env \<Rightarrow> apply_state \<Rightarrow> bool \<times> apply_state" where
  "clear_update_intent env u =
     (if sn_remove_ok env then (ap_pending u \<noteq> None, u\<lparr>ap_pending := None, ap_cancel := False\<rparr>) else (False, u))"

definition request_cancel :: "server_env \<Rightarrow> apply_state \<Rightarrow> bool \<times> apply_state" where
  "request_cancel env u = (if sn_dir_ok env \<and> sn_cancel_ok env then (True, u\<lparr>ap_cancel := True\<rparr>) else (False, u))"

definition cancel_intent :: "server_env \<Rightarrow> server \<Rightarrow> (kobra_error + bool) \<times> server" where
  "cancel_intent env s =
     (case clear_update_intent env (se_update s) of
        (cleared, u1) \<Rightarrow>
          (case request_cancel env u1 of
             (ok, u2) \<Rightarrow>
               (if ok then Inr True
                else Inl (IO_error ''The update could not be cancelled.'' [(''reason'', JStr ''cancel_write'')] None),
                s\<lparr>se_update := u2\<rparr>)))"

text \<open>\<open>ReadProgress\<close> and \<open>ReadResult\<close>: the last record that was written.\<close>

definition read_progress :: "apply_state \<Rightarrow> progress" where
  "read_progress u = (case last_opt (pw_file (ap_progress u)) of Some p \<Rightarrow> p | None \<Rightarrow> (initial_progress None)\<lparr>pg_cancellable := False\<rparr>)"

definition read_result :: "apply_state \<Rightarrow> update_record option" where
  "read_result u = last_opt (ap_results u)"

definition tree_file :: "string \<Rightarrow> tree \<Rightarrow> file_read" where
  "tree_file name t = (case map_of t name of None \<Rightarrow> Inl True | Some x \<Rightarrow> Inr x)"

text \<open>\<open>BackupRelease\<close>.\<close>

definition backup_release :: "world \<Rightarrow> string" where
  "backup_release w =
     (case (l_backup (now_at w), l_game (now_at w)) of
        (Some b, Some _) \<Rightarrow>
          (case installed_release (tree_file ''release.manifest.json'' b) of
             Some r \<Rightarrow> if r \<noteq> [] then r else release_from_config (tree_file config_rel_path b)
           | None \<Rightarrow> release_from_config (tree_file config_rel_path b))
      | _ \<Rightarrow> [])"

definition result_json :: "update_record \<Rightarrow> json" where
  "result_json r =
     JObj ([(''outcome'', JStr (uo_outcome r))]
       @ opt_member (uo_target r \<noteq> []) ''target_release'' (JStr (uo_target r))
       @ opt_member (uo_installed r \<noteq> []) ''installed_release'' (JStr (uo_installed r))
       @ opt_member (uo_message r \<noteq> []) ''message'' (JStr (uo_message r))
       @ opt_member (uo_reason r \<noteq> []) ''reason'' (JStr (uo_reason r))
       @ [(''retained_backup'', JBool (uo_retained r))]
       @ opt_member (uo_required r \<noteq> 0) ''required_bytes'' (JNum (fmt_int (uo_required r)))
       @ opt_member (uo_available r \<noteq> 0) ''available_bytes'' (JNum (fmt_int (uo_available r))))"

definition reported_result :: "server_env \<Rightarrow> server \<Rightarrow> update_record option" where
  "reported_result env s =
     (case (if sn_result_fresh env then read_result (se_update s) else None) of
        Some r \<Rightarrow> Some r
      | None \<Rightarrow>
          (let prev = backup_release (ap_world (se_update s))
           in if prev \<noteq> [] then
                Some \<lparr>uo_outcome = ''retained_backup'', uo_target = prev, uo_installed = [], uo_reason = [], uo_message = [],
                  uo_bytes = 0, uo_required = 0, uo_available = 0, uo_retained = True\<rparr>
              else None))"

definition progress_json :: "server_env \<Rightarrow> server \<Rightarrow> json" where
  "progress_json env s =
     (let p = read_progress (se_update s) in
      JObj ([(''phase'', JStr (pg_phase p))]
        @ opt_member (pg_target p \<noteq> []) ''target_release'' (JStr (pg_target p))
        @ opt_member (pg_from p \<noteq> []) ''from_release'' (JStr (pg_from p))
        @ [(''bytes'', JNum (fmt_int (pg_bytes p))), (''total_bytes'', JNum (fmt_int (pg_total_bytes p))),
           (''percent'', JNum (fmt_int (pg_percent p))), (''cancellable'', JBool (pg_cancellable p))]
        @ opt_member (pg_message p \<noteq> []) ''message'' (JStr (pg_message p))
        @ opt_member (pg_seq p \<noteq> 0) ''seq'' (JNum (fmt_int (pg_seq p)))
        @ (case reported_result env s of Some r \<Rightarrow> [(''result'', result_json r)] | None \<Rightarrow> [])))"

definition server_ops :: "server_env \<Rightarrow> server host_ops" where
  "server_ops env =
     \<lparr>ho_probe = probe_of, ho_heartbeat = heartbeat (sn_now env), ho_goodbye = goodbye (sn_now env), ho_shutdown = shutdown,
      ho_diagnostics = diagnostics env, ho_state = state_json (sn_now env), ho_update_check = update_check env,
      ho_record_intent = record_intent env, ho_cancel_intent = cancel_intent env, ho_update_progress = progress_json env\<rparr>"

section \<open>The middleware\<close>

type_synonym chain = "server handler"

definition set_host :: "(server \<Rightarrow> server) \<Rightarrow> app \<Rightarrow> app" where
  "set_host f st = st\<lparr>ax_host := f (ax_host st)\<rparr>"

definition security_headers :: "config \<Rightarrow> headers \<Rightarrow> headers" where
  "security_headers c hs =
     (let coep = sv_coep (cf_server c);
          hs1 = put ''Cross-Origin-Opener-Policy'' ''same-origin''
            (put ''X-Frame-Options'' ''DENY'' (put ''Referrer-Policy'' ''no-referrer''
              (put ''X-Content-Type-Options'' ''nosniff'' hs)));
          hs2 = (if coep \<noteq> [] then put ''Cross-Origin-Embedder-Policy'' coep hs1 else hs1)
      in put ''Content-Security-Policy'' (csp c) hs2)"

definition with_security :: "chain \<Rightarrow> chain" where
  "with_security next hs r st = next (security_headers (se_cfg (ax_host st)) hs) r st"

definition recovery :: "chain \<Rightarrow> chain" where
  "recovery next hs r st =
     (case next hs r st of
        (Some a, st1) \<Rightarrow> (Some a, st1)
      | (None, st1) \<Rightarrow>
          (Some (refuse hs (IO_error ''The launcher hit an internal error.'' [] None)),
           set_host (shutdown ''panic'') (set_host (\<lambda>s. s\<lparr>se_panicked := True\<rparr>) (log_note ''server.panic'' st1))))"

definition logging_gate :: "chain \<Rightarrow> chain" where
  "logging_gate next hs r st =
     (let st1 = set_host (\<lambda>s. s\<lparr>se_requests := Suc (se_requests s)\<rparr>) st
      in next hs r (if se_debug (ax_host st) then log_note ''http.request'' st1 else st1))"

definition drain_gate :: "chain \<Rightarrow> chain" where
  "drain_gate next hs r st =
     (if se_draining (ax_host st) then (Some (refuse (put ''Connection'' ''close'' hs) Draining), st) else next hs r st)"

definition host_gate :: "chain \<Rightarrow> chain" where
  "host_gate next hs r st =
     (if rq_host r \<noteq> port_authority (se_port (ax_host st)) then
        (Some (respond 421 (put ''Content-Type'' ''text/plain'' hs) []), log_note ''host.reject'' st)
      else next hs r st)"

definition origin_gate :: "chain \<Rightarrow> chain" where
  "origin_gate next hs r st =
     (let o' = header_of r ''Origin'' in
      if o' \<noteq> [] \<and> o' \<noteq> origin_of (ax_host st) then
        (Some (refuse hs (BadOrigin o' None)), log_note ''origin.reject'' st)
      else next hs r st)"

definition bad_path :: "string \<Rightarrow> bool" where
  "bad_path p \<longleftrightarrow>
     backslash \<in> set p \<or> contains_sub [slash, slash] p \<or> list_ex (\<lambda>seg. seg = [dot] \<or> seg = [dot, dot]) (split_on slash p)"

definition normalise_path :: "chain \<Rightarrow> chain" where
  "normalise_path next hs r st =
     (let raw = (if rq_path r = [] then [slash] else rq_path r) in
      if bad_path raw then (Some (refuse hs (NotFound ''path'')), st)
      else next hs (if clean raw \<noteq> raw then r\<lparr>rq_path := clean raw\<rparr> else r) st)"

definition enter_flight :: "server \<Rightarrow> server" where
  "enter_flight s = s\<lparr>se_in_flight := se_in_flight s + 1\<rparr>"

definition leave_flight :: "server \<Rightarrow> server" where
  "leave_flight s = s\<lparr>se_in_flight := se_in_flight s - 1\<rparr>"

definition track_in_flight :: "chain \<Rightarrow> chain" where
  "track_in_flight next hs r st =
     (case next hs r (set_host enter_flight st) of (a, st1) \<Rightarrow> (a, set_host leave_flight st1))"

definition take_slot :: "server \<Rightarrow> server" where
  "take_slot s = s\<lparr>se_sem := Suc (se_sem s)\<rparr>"

definition free_slot :: "server \<Rightarrow> server" where
  "free_slot s = s\<lparr>se_sem := se_sem s - 1\<rparr>"

definition concurrency_limit :: "chain \<Rightarrow> chain" where
  "concurrency_limit next hs r st =
     (if se_sem (ax_host st) < max_concurrent_requests then
        (case next hs r (set_host take_slot st) of (a, st1) \<Rightarrow> (a, set_host free_slot st1))
      else (Some (refuse (put ''Retry-After'' ''1'' hs)
              (IO_error ''The launcher is busy.'' [(''reason'', JStr ''too_many_requests'')] None)), st))"

section \<open>The handlers behind it\<close>

text \<open>The static handler of \<open>New\<close>: the mods of the storage as they are now.\<close>

definition static_of :: "app \<Rightarrow> static_handler" where
  "static_of st =
     (let s = ax_host st; e = ms_engine (ax_mods st) in
      \<lparr>sh_game_dir = se_game_dir s, sh_data_dir = se_data_dir s, sh_serve_mods = sv_serve_mods (cf_server (se_cfg s)),
       sh_max_range = sv_max_range (cf_server (se_cfg s)), sh_mime = cf_mime_types (se_cfg s),
       sh_mods = Some \<lparr>mp_enabled = fst (enabled_mod_ids e), mp_asset = engine_asset e\<rparr>\<rparr>)"

definition all_patterns :: "(string \<times> (static_route + api_route)) list" where
  "all_patterns = map (map_prod id Inl) static_patterns @ map (map_prod id Inr) api_patterns"

definition mux :: "server_env \<Rightarrow> api_env \<Rightarrow> chain" where
  "mux env aenv hs r st =
     (case mux_choose all_patterns (rq_path r) of
        Redirect p \<Rightarrow> (Some (respond 307 (put ''Location'' p hs) []), st)
      | NoHandler \<Rightarrow> (Some (respond 404 hs []), st)
      | Handle (Inl route) \<Rightarrow>
          (case handle_static (sn_view env) (static_of st) route hs r (se_etags (ax_host st)) of
             (a, cache) \<Rightarrow> (Some a, set_host (\<lambda>s. s\<lparr>se_etags := cache\<rparr>) st))
      | Handle (Inr route) \<Rightarrow> handle_api (server_ops env) (data_config_of (ax_host st)) aenv route hs r st)"

definition build_handler :: "server_env \<Rightarrow> api_env \<Rightarrow> chain" where
  "build_handler env aenv =
     with_security (recovery (logging_gate (drain_gate (host_gate (origin_gate (normalise_path
       (track_in_flight (concurrency_limit (mux env aenv)))))))))"

section \<open>The watcher and the drain\<close>

definition watchdog_timeout :: int where "watchdog_timeout = 20 * second"

definition check_watchdog :: "time \<Rightarrow> time \<Rightarrow> app \<Rightarrow> bool \<times> app" where
  "check_watchdog since now st =
     (let s = ax_host st in
      if se_last_seen s \<noteq> 0 \<or> now - since \<le> watchdog_timeout then (False, st)
      else if se_watchdog s then (False, st)
      else (True, set_host (\<lambda>s. s\<lparr>se_watchdog := True,
                       se_hooks := se_hooks s @ (if se_on_watchdog s then [''watchdog''] else [])\<rparr>)
                    (log_note ''browser.watchdog.timeout'' st)))"

text \<open>One tick of \<open>watchLoop\<close>, and whether the loop goes on.\<close>

definition watch_tick :: "time \<Rightarrow> time \<Rightarrow> app \<Rightarrow> bool \<times> app" where
  "watch_tick since now st =
     (if se_draining (ax_host st) then (False, st)
      else
        let st1 = st\<lparr>ax_store := reap now (ax_store st)\<rparr>; last = se_last_seen (ax_host st1) in
        if last = 0 then (True, snd (check_watchdog since now st1))
        else if idle_timeout (ax_host st1) < now - last then
          (False, set_host (shutdown ''idle'') (log_note ''server.stop'' st1))
        else (True, st1))"

definition begin_drain :: "app \<Rightarrow> app" where
  "begin_drain st = log_note ''server.drain.begin'' (set_host (\<lambda>s. s\<lparr>se_draining := True\<rparr>) st)"

text \<open>After the wait: the base context, the listener and the sessions.\<close>

definition end_drain :: "app \<Rightarrow> app" where
  "end_drain st =
     (let st1 = (if 0 < se_in_flight (ax_host st) then log_note ''server.drain.timeout'' st else st);
          st2 = set_host (\<lambda>s. s\<lparr>se_cancelled := True, se_closed := True\<rparr>) st1
      in log_note ''server.drain.complete'' (st2\<lparr>ax_store := clear (ax_store st2)\<rparr>))"

text \<open>\<open>Serve\<close> once a reason has arrived: it is taken from the channel and logged, then the drain begins.\<close>

definition take_stop :: "app \<Rightarrow> (string \<times> app) option" where
  "take_stop st =
     (case se_stop (ax_host st) of
        [] \<Rightarrow> None
      | why # whys \<Rightarrow> Some (why, begin_drain (log_note ''server.stop'' (set_host (\<lambda>s. s\<lparr>se_stop := whys\<rparr>) st))))"

end
