(* ===== verification/Server_Laws.thy ===== *)
theory Server_Laws
  imports Server Update_Safety
begin

text \<open>
  What holds of every request that runs through the middleware: the headers of its answer, the
  counters, who may make it act; and the watcher that stops the launcher when its page has gone.
\<close>

section \<open>What a handler leaves of the server\<close>

text \<open>
  The contract of \<open>Host\<close>: a part of the server that none of the operations the handlers call touches.
  Then no handler touches it.
\<close>

locale host_contract =
  fixes ops :: "'h host_ops" and part :: "'h \<Rightarrow> 'v"
  assumes heartbeat_part: "part (ho_heartbeat ops h) = part h"
    and goodbye_part: "part (ho_goodbye ops h) = part h"
    and shutdown_part: "part (ho_shutdown ops why h) = part h"
    and diagnostics_part: "part (ax_host (snd (ho_diagnostics ops st))) = part (ax_host st)"
    and check_part: "part (snd (ho_update_check ops h)) = part h"
    and record_part: "part (snd (ho_record_intent ops h)) = part h"
    and cancel_part: "part (snd (ho_cancel_intent ops h)) = part h"
begin

lemmas part_laws = heartbeat_part goodbye_part shutdown_part diagnostics_part check_part record_part cancel_part

lemma gated_part:
  assumes "\<And>x st1. part (ax_host (snd (f x hs r st1))) = part (ax_host st1)"
  shows "part (ax_host (snd (gated c env methods body f hs r st))) = part (ax_host st)"
  using assms validate_refused(2) [of c "ae_now env" methods body hs r st] validate_some(3) [of c "ae_now env" methods body hs r st]
  by (auto simp: gated_def kept_def split: prod.splits sum.splits)

end

lemma on_mods_host [simp]: "ax_host (snd (on_mods f st)) = ax_host st"
  by (simp add: on_mods_def split: prod.splits)

lemma on_engine_of_host [simp]: "ax_host (snd (on_engine_of f st)) = ax_host st"
  by (simp add: on_engine_of_def)

lemma on_store_host [simp]: "ax_host (snd (on_store f st)) = ax_host st"
  by (simp add: on_store_def split: prod.splits)

lemma host_eqs:
  "on_mods g st = (v, st') \<Longrightarrow> ax_host st' = ax_host st"
  "on_engine_of k st = (w, st') \<Longrightarrow> ax_host st' = ax_host st"
  "spend_quota c env x n st = (u, st') \<Longrightarrow> ax_host st' = ax_host st"
  by (metis on_mods_host snd_conv, metis on_engine_of_host snd_conv, metis spend_quota_def on_store_host snd_conv)

lemma storage_hosts:
  "ax_host (snd (send_save pre extra x hs r st)) = ax_host st"
  "ax_host (snd (store_save c env x q hs st)) = ax_host st"
  "ax_host (snd (store_config c env x cr hs st)) = ax_host st"
  "ax_host (snd (apply_mod c env x mr hs st)) = ax_host st"
  by (auto simp: send_save_def store_save_def store_config_def apply_mod_def dest!: host_eqs
      split: sum.splits prod.splits option.splits store_error.splits)

lemma session_host [simp]: "ax_host (snd (handle_session env hs r st)) = ax_host st"
  by (auto simp: handle_session_def log_note_def Let_def on_store_def split: sum.splits prod.splits)

lemma probe_host [simp]: "snd (handle_probe ops hs r st) = st"
  by (simp add: handle_probe_def)

context host_contract
begin

lemma part_eqs:
  "ho_diagnostics ops st = (v, st') \<Longrightarrow> part (ax_host st') = part (ax_host st)"
  "ho_update_check ops h = (u, h') \<Longrightarrow> part h' = part h"
  "ho_record_intent ops h = (i, h') \<Longrightarrow> part h' = part h"
  "ho_cancel_intent ops h = (b, h') \<Longrightarrow> part h' = part h"
  by (metis diagnostics_part snd_conv, metis check_part snd_conv, metis record_part snd_conv, metis cancel_part snd_conv)

lemma request_update_part: "part (ax_host (snd (request_update ops x hs r st))) = part (ax_host st)"
  by (auto simp: request_update_def Let_def dest!: part_eqs split: prod.splits sum.splits)

lemma handle_api_part: "part (ax_host (snd (handle_api ops c env route hs r st))) = part (ax_host st)"
proof (cases "route \<in> open_routes")
  case True
  then show ?thesis by (auto simp: open_routes_def handle_api_def)
next
  case False
  show ?thesis
    unfolding handle_api_def handler_defs
    by (insert False [unfolded open_routes_def], cases route; simp only: api_route.case; (rule gated_part)?)
      (auto simp: storage_hosts on_host_def heartbeat_part goodbye_part shutdown_part request_update_part
        dest!: host_eqs part_eqs split: prod.splits sum.splits option.splits)
qed

end

section \<open>The counters\<close>

lemmas flight_defs = enter_flight_def leave_flight_def take_slot_def free_slot_def

text \<open>The part of the server that a request leaves as it finds it.\<close>

definition steady :: "server \<Rightarrow> int \<times> nat \<times> bool \<times> config \<times> nat" where
  "steady s = (se_in_flight s, se_sem s, se_draining s, se_cfg s, se_port s)"

lemma steady_ops:
  "steady (heartbeat now s) = steady s" "steady (goodbye now s) = steady s" "steady (shutdown why s) = steady s"
  "steady (snd (update_check env s)) = steady s" "steady (snd (record_intent env s)) = steady s"
  "steady (snd (cancel_intent env s)) = steady s" "ax_host (snd (diagnostics env st)) = ax_host st"
  by (auto simp: steady_def heartbeat_def goodbye_def shutdown_def update_check_def record_intent_def cancel_intent_def
      diagnostics_def Let_def dest!: host_eqs split: sum.splits prod.splits option.splits)

interpretation server_host: host_contract "server_ops env" steady
  by unfold_locales (simp_all add: server_ops_def steady_ops)

definition balanced :: "chain \<Rightarrow> bool" where
  "balanced next \<longleftrightarrow> (\<forall>hs r st. steady (ax_host (snd (next hs r st))) = steady (ax_host st))"

lemma host_updates [simp]:
  "ax_host (set_host f st) = f (ax_host st)" "ax_host (log_note ev st) = ax_host st"
  "ax_store (set_host f st) = ax_store st" "ax_mods (set_host f st) = ax_mods st" "ax_used (set_host f st) = ax_used st"
  "ax_store (log_note ev st) = ax_store st" "ax_mods (log_note ev st) = ax_mods st" "ax_used (log_note ev st) = ax_used st"
  by (simp_all add: set_host_def log_note_def)

lemma balancedD: "balanced next \<Longrightarrow> next hs r st = (a, st') \<Longrightarrow> steady (ax_host st') = steady (ax_host st)"
  by (metis balanced_def snd_conv)

lemma balanced_mux: "balanced (mux env aenv)"
  using server_host.handle_api_part [of env]
  by (auto simp: balanced_def mux_def steady_def split: mux_choice.splits sum.splits prod.splits)

lemma balanced_steps:
  assumes "balanced next"
  shows "balanced (with_security next)" "balanced (recovery next)" "balanced (logging_gate next)" "balanced (drain_gate next)"
    "balanced (host_gate next)" "balanced (origin_gate next)" "balanced (normalise_path next)"
    "balanced (track_in_flight next)" "balanced (concurrency_limit next)"
  using assms
  by (auto simp: balanced_def with_security_def recovery_def logging_gate_def drain_gate_def host_gate_def origin_gate_def
      normalise_path_def track_in_flight_def concurrency_limit_def Let_def steady_def shutdown_def flight_defs
      split: prod.splits option.splits dest: balancedD [OF assms, unfolded steady_def])

lemma balanced_handler: "balanced (build_handler env aenv)"
  unfolding build_handler_def by (intro balanced_steps balanced_mux)

lemma handler_answers: "\<exists>a. fst (build_handler env aenv hs r st) = Some a"
  by (auto simp: build_handler_def with_security_def recovery_def split: prod.splits option.splits)

text \<open>
  A request that has ended leaves no trace in the counters. Whatever the request is and whatever its
  handler does, a panic included, the middleware answers it, the number of requests in flight and the
  number of slots taken are what they were before, and neither the drain nor the policy has changed.
\<close>

theorem requests_leave_counters:
  "case build_handler env aenv hs r st of (a, st') \<Rightarrow>
     a \<noteq> None \<and> se_in_flight (ax_host st') = se_in_flight (ax_host st) \<and> se_sem (ax_host st') = se_sem (ax_host st)
     \<and> se_draining (ax_host st') = se_draining (ax_host st) \<and> se_cfg (ax_host st') = se_cfg (ax_host st)"
  using handler_answers [of env aenv hs r st] balanced_handler [of env aenv]
  by (cases "build_handler env aenv hs r st") (auto simp: steady_def dest: balancedD)

section \<open>The headers of an answer\<close>

definition secured :: "string set" where
  "secured = {''X-Content-Type-Options'', ''Referrer-Policy'', ''X-Frame-Options'', ''Cross-Origin-Opener-Policy'',
     ''Cross-Origin-Embedder-Policy'', ''Content-Security-Policy''}"

definition agrees :: "headers \<Rightarrow> headers \<Rightarrow> bool" where
  "agrees hs hs' \<longleftrightarrow> (\<forall>n \<in> secured. get hs' n = get hs n)"

text \<open>An answer that carries the given headers of the set.\<close>

definition carries :: "headers \<Rightarrow> http_response option \<Rightarrow> bool" where
  "carries hs a \<longleftrightarrow> (\<forall>b. a = Some b \<longrightarrow> agrees hs (resp_headers b))"

lemma agrees_refl [simp]: "agrees hs hs"
  by (simp add: agrees_def)

lemma agrees_put [simp]: "name \<notin> secured \<Longrightarrow> agrees hs (put name v hs') = agrees hs hs'"
  by (auto simp: agrees_def)

lemma plain_names [simp]:
  "''Content-Type'' \<notin> secured" "''Retry-After'' \<notin> secured" "''Allow'' \<notin> secured" "''Set-Cookie'' \<notin> secured"
  "''Content-Disposition'' \<notin> secured" "''Connection'' \<notin> secured" "''Location'' \<notin> secured" "''Cache-Control'' \<notin> secured"
  "''ETag'' \<notin> secured" "''Accept-Ranges'' \<notin> secured" "''Last-Modified'' \<notin> secured" "''Content-Range'' \<notin> secured"
  "''Content-Length'' \<notin> secured"
  by (simp_all add: secured_def)

lemma agrees_envelope [simp]: "agrees hs (resp_headers (write_envelope hs' err)) = agrees hs hs'"
  by (auto simp: write_envelope_def from_error_def Let_def split: option.splits)

lemma carries_simps [simp]:
  "carries hs None" "carries hs (Some (respond n hs' b)) = agrees hs hs'" "carries hs (Some (refuse hs' k)) = agrees hs hs'"
  "carries hs (Some (refuse_store hs' err)) = agrees hs hs'" "carries hs (Some (respond_json n hs' v)) = agrees hs hs'"
  "carries hs (Some (no_content hs')) = agrees hs hs'"
  by (simp_all add: carries_def refuse_def refuse_store_def respond_json_def no_content_def)

lemma validate_carries: "validate c now methods body hs r st = (Inl a, st') \<Longrightarrow> carries hs (Some a)"
  by (auto simp: validate_def validate_body_def on_store_def Let_def
      split: if_splits option.splits prod.splits auth_method.splits)

lemma gated_carries:
  assumes "\<And>x st1. carries hs (fst (f x hs r st1))"
  shows "carries hs (fst (gated c env methods body f hs r st))"
  using assms validate_carries [of c "ae_now env" methods body hs r st]
  by (auto simp: gated_def split: prod.splits sum.splits)

lemma storage_carries:
  "carries hs (fst (store_save c env x q hs st))" "carries hs (fst (store_config c env x cr hs st))"
  "carries hs (fst (apply_mod c env x mr hs st))" "carries hs (fst (request_update ops x hs r st))"
  "(\<And>slot hs'. agrees hs hs' \<Longrightarrow> agrees hs (extra slot hs')) \<Longrightarrow> carries hs (fst (send_save pre extra x hs r st))"
  by (auto simp: send_save_def store_save_def store_config_def apply_mod_def request_update_def Let_def
      split: sum.splits prod.splits option.splits store_error.splits)

lemma attachment_carries: "agrees hs hs' \<Longrightarrow> agrees hs (attachment slot hs')"
  by (simp add: attachment_def)

lemma open_carries: "carries hs (fst (handle_probe ops hs r st))" "carries hs (fst (handle_session env hs r st))"
  by (auto simp: handle_probe_def handle_session_def Let_def split: sum.splits prod.splits)

lemma handle_api_carries: "carries hs (fst (handle_api ops c env route hs r st))"
proof (cases "route \<in> open_routes")
  case True
  then show ?thesis by (auto simp: open_routes_def handle_api_def open_carries)
next
  case False
  show ?thesis
    unfolding handle_api_def handler_defs
    by (insert False [unfolded open_routes_def], cases route; simp only: api_route.case; (rule gated_carries)?)
      (auto simp: storage_carries attachment_carries split: prod.splits sum.splits option.splits)
qed

lemma serve_file_carries: "carries hs (Some (fst (serve_file v h root full policy hs r cache)))"
  by (auto simp: serve_file_def file_headers_def send_file_def not_found_def Let_def
      split: option.splits prod.splits range_answer.splits)

lemma under_carries: "carries hs (Some (fst (handle_under v h policy hs r cache)))"
  by (auto simp: handle_under_def serve_game_def not_found_def serve_file_carries split: option.splits)

lemma mods_carries: "carries hs (Some (fst (handle_mods v h hs r cache)))"
  by (auto simp: handle_mods_def serve_mod_def not_found_def Let_def serve_file_carries split: option.splits)

lemma handle_static_carries:
  assumes "handle_static v h route hs r cache = (a, cache')"
  shows "carries hs (Some a)"
proof -
  have "carries hs (Some (fst (handle_static v h route hs r cache)))"
    by (cases route)
      (simp_all add: handle_static_def handle_assets_def handle_editor_def serve_game_def not_found_def
        serve_file_carries under_carries mods_carries)
  then show ?thesis by (simp add: assms)
qed

text \<open>A chain whose answers carry the headers it was given.\<close>

definition carrying :: "chain \<Rightarrow> bool" where
  "carrying next \<longleftrightarrow> (\<forall>hs r st. carries hs (fst (next hs r st)))"

lemma carrying_mux: "carrying (mux env aenv)"
  by (auto simp: carrying_def mux_def handle_api_carries dest: handle_static_carries
      split: mux_choice.splits sum.splits prod.splits)

lemma carrying_steps:
  assumes "carrying next"
  shows "carrying (recovery next)" "carrying (logging_gate next)" "carrying (drain_gate next)"
    "carrying (host_gate next)" "carrying (origin_gate next)" "carrying (normalise_path next)"
    "carrying (track_in_flight next)" "carrying (concurrency_limit next)"
  using assms
  by (auto simp: carrying_def recovery_def logging_gate_def drain_gate_def host_gate_def origin_gate_def
      normalise_path_def track_in_flight_def concurrency_limit_def Let_def split: prod.splits option.splits) (metis fst_conv)+

text \<open>
  C12: Every answer of the launcher carries the security headers, whichever gate or handler wrote it: the
  refusals of the drain, the host and the origin, the answer to a panic, files, the data API. The content
  security policy is the configured one, and the embedder policy is there when one is configured.
\<close>

theorem every_answer_secured:
  "case build_handler env aenv [] r st of (a, _) \<Rightarrow> \<exists>b. a = Some b
     \<and> get (resp_headers b) ''X-Content-Type-Options'' = Some ''nosniff''
     \<and> get (resp_headers b) ''Referrer-Policy'' = Some ''no-referrer''
     \<and> get (resp_headers b) ''X-Frame-Options'' = Some ''DENY''
     \<and> get (resp_headers b) ''Cross-Origin-Opener-Policy'' = Some ''same-origin''
     \<and> get (resp_headers b) ''Content-Security-Policy'' = Some (csp (se_cfg (ax_host st)))
     \<and> get (resp_headers b) ''Cross-Origin-Embedder-Policy''
         = (let p = sv_coep (cf_server (se_cfg (ax_host st))) in if p \<noteq> [] then Some p else None)"
proof -
  let ?hs = "security_headers (se_cfg (ax_host st)) []"
  obtain b st' where b: "build_handler env aenv [] r st = (Some b, st')"
    using handler_answers [of env aenv "[]" r st] by (cases "build_handler env aenv [] r st") auto
  have "carrying (recovery (logging_gate (drain_gate (host_gate (origin_gate (normalise_path
       (track_in_flight (concurrency_limit (mux env aenv)))))))))"
    by (intro carrying_steps carrying_mux)
  then have "carries ?hs (fst (build_handler env aenv [] r st))"
    by (simp add: carrying_def build_handler_def with_security_def)
  then have "carries ?hs (Some b)" by (simp add: b)
  then show ?thesis
    unfolding b by (simp add: carries_def agrees_def secured_def security_headers_def Let_def)
qed

section \<open>Who can make the launcher act\<close>

text \<open>What a request acts on: the folder with the saves, settings and mods, and the course of the server.\<close>

definition course :: "server \<Rightarrow> string list \<times> bool \<times> time \<times> bool \<times> string list \<times> bool \<times> apply_state" where
  "course s = (se_stop s, se_once s, se_last_seen s, se_first s, se_hooks s, se_panicked s, se_update s)"

definition still :: "app \<Rightarrow> app \<Rightarrow> bool" where
  "still st st' \<longleftrightarrow> ax_mods st' = ax_mods st \<and> ax_used st' = ax_used st \<and> course (ax_host st') = course (ax_host st)"

definition shows_session :: "api_env \<Rightarrow> http_request \<Rightarrow> app \<Rightarrow> bool" where
  "shows_session aenv r st \<longleftrightarrow> (\<exists>x. authorised (data_config_of (ax_host st)) (ae_now aenv) r (ax_store st) x)"

lemma shows_session_frame:
  "data_config_of (ax_host st') = data_config_of (ax_host st) \<Longrightarrow> ax_store st' = ax_store st
    \<Longrightarrow> shows_session aenv r st' = shows_session aenv r st"
  "shows_session aenv (r\<lparr>rq_path := p\<rparr>) st = shows_session aenv r st"
  by (simp_all add: shows_session_def authorised_def csrf_shown_def header_of_def)

lemma session_frame:
  "ax_mods (snd (handle_session env hs r st)) = ax_mods st" "ax_used (snd (handle_session env hs r st)) = ax_used st"
  "\<exists>a. fst (handle_session env hs r st) = Some a"
  by (auto simp: handle_session_def log_note_def Let_def on_store_def split: sum.splits prod.splits)

text \<open>A chain that answers a request without a session, and does not act.\<close>

definition inert :: "api_env \<Rightarrow> chain \<Rightarrow> bool" where
  "inert aenv next \<longleftrightarrow>
     (\<forall>hs r st. \<not> shows_session aenv r st \<longrightarrow> fst (next hs r st) \<noteq> None \<and> still st (snd (next hs r st)))"

lemma inertD:
  assumes "inert aenv next" and "\<not> shows_session aenv r st" and "next hs r st = (a, st')"
  shows "a \<noteq> None" "still st st'"
  using assms by (metis inert_def fst_conv, metis inert_def snd_conv)

lemma inert_mux: "inert aenv (mux env aenv)"
proof -
  have "fst (handle_api (server_ops env) c aenv route hs r st) \<noteq> None \<and> still st (snd (handle_api (server_ops env) c aenv route hs r st))"
    if "\<not> (\<exists>x. authorised c (ae_now aenv) r (ax_store st) x)" for c route hs r st
  proof (cases "route \<in> open_routes")
    case True
    then show ?thesis
      by (auto simp: open_routes_def handle_api_def still_def session_frame) (simp_all add: handle_probe_def)
  next
    case False
    with that show ?thesis
      using api_needs_session [of "server_ops env" c aenv route hs r st]
      by (cases "handle_api (server_ops env) c aenv route hs r st") (auto simp: still_def)
  qed
  then show ?thesis
    by (auto simp: inert_def mux_def shows_session_def still_def course_def
        split: mux_choice.splits sum.splits prod.splits)
qed

lemma inert_steps:
  assumes "inert aenv next"
  shows "inert aenv (with_security next)" "inert aenv (recovery next)" "inert aenv (logging_gate next)" "inert aenv (drain_gate next)"
    "inert aenv (host_gate next)" "inert aenv (origin_gate next)" "inert aenv (normalise_path next)"
    "inert aenv (track_in_flight next)" "inert aenv (concurrency_limit next)"
proof -
  have frame: "shows_session aenv r (set_host f st) = shows_session aenv r st"
    if "data_config_of (f (ax_host st)) = data_config_of (ax_host st)" for f r st
    using that by (intro shows_session_frame) simp_all
  have note_frame: "shows_session aenv r (log_note ev st) = shows_session aenv r st" for ev r st
    by (rule shows_session_frame) simp_all
  note d = inertD [OF assms] and f = frame note_frame shows_session_frame(2)
  show "inert aenv (with_security next)" "inert aenv (drain_gate next)" "inert aenv (host_gate next)"
    "inert aenv (origin_gate next)" "inert aenv (normalise_path next)"
    using assms
    by (simp_all add: inert_def with_security_def drain_gate_def host_gate_def origin_gate_def normalise_path_def Let_def
        still_def f)
  show "inert aenv (recovery next)"
    unfolding inert_def
  proof (intro allI impI)
    fix hs r st assume n: "\<not> shows_session aenv r st"
    obtain a st1 where c: "next hs r st = (a, st1)" by fastforce
    show "fst (recovery next hs r st) \<noteq> None \<and> still st (snd (recovery next hs r st))"
      using d [OF n c] by (auto simp: recovery_def c)
  qed
  show "inert aenv (logging_gate next)"
    using assms by (simp add: inert_def logging_gate_def Let_def still_def course_def f data_config_of_def)
  show "inert aenv (track_in_flight next)"
    using d [of _ "set_host enter_flight st" for st]
    by (auto simp: inert_def track_in_flight_def still_def course_def f data_config_of_def flight_defs split: prod.splits)
  show "inert aenv (concurrency_limit next)"
    using d [of _ "set_host take_slot st" for st]
    by (auto simp: inert_def concurrency_limit_def still_def course_def f data_config_of_def flight_defs split: prod.splits)
qed

text \<open>
  C5: Only a page with a session makes the launcher act. When a request has changed anything in the data
  folder, used up an update, counted as activity of the page, stopped the server, made a handler panic,
  or changed what is recorded of an update, it was addressed to the launcher's own authority, came
  from its own origin or none, and showed a live session: by its cookie, with the CSRF token too when it
  writes, or by a bearer token. No other route, no file and no gate acts.
\<close>

theorem only_sessions_act:
  assumes "build_handler env aenv hs r st = (a, st')"
    and "ax_mods st' \<noteq> ax_mods st \<or> ax_used st' \<noteq> ax_used st \<or> course (ax_host st') \<noteq> course (ax_host st)"
  shows "\<exists>x. authorised (data_config_of (ax_host st)) (ae_now aenv) r (ax_store st) x"
proof (rule ccontr)
  assume "\<not> ?thesis"
  moreover have "inert aenv (build_handler env aenv)"
    unfolding build_handler_def by (intro inert_steps inert_mux)
  ultimately show False
    using assms inertD(2) [of aenv "build_handler env aenv" r st hs] by (auto simp: shows_session_def still_def)
qed

section \<open>The watcher\<close>

lemma idle_range:
  assumes "config_ok (se_cfg s)"
  shows "30 * second \<le> idle_timeout s" "idle_timeout s \<le> 3600 * second"
    "wrap64 (-2 * idle_timeout s) = -2 * idle_timeout s"
proof -
  let ?n = "sv_idle_timeout (cf_server (se_cfg s))"
  have n: "30 \<le> ?n" "?n \<le> 3600" using assms by (simp_all add: config_ok_def)
  then have i: "idle_timeout s = ?n * second"
    unfolding idle_timeout_def seconds_def by (intro wrap64_id) (simp_all add: second_def int64_min_def int64_max_def)
  then show "30 * second \<le> idle_timeout s" "idle_timeout s \<le> 3600 * second" using n by (simp_all add: second_def)
  then show "wrap64 (-2 * idle_timeout s) = -2 * idle_timeout s"
    by (intro wrap64_id) (simp_all add: second_def int64_min_def int64_max_def)
qed

text \<open>
  C34: The launcher stops when its page has gone, and not before. With an accepted configuration and the
  clock past the first two hours of 1970: after a goodbye the next tick of the watcher stops the loop and
  asks for a shutdown, and so does a tick later than the idle timeout after the last heartbeat; a tick
  within the timeout goes on and asks for nothing. The first reason to stop is the one that counts.
\<close>

theorem watcher_follows_page:
  assumes "config_ok (se_cfg (ax_host st))" and "\<not> se_draining (ax_host st)" and "2 * 3600 * second < t0" and "t0 \<le> t"
  shows "(case watch_tick since t (set_host (goodbye t0) st) of (going, st') \<Rightarrow>
        \<not> going \<and> ax_host st' = shutdown ''idle'' (goodbye t0 (ax_host st)))
    \<and> (case watch_tick since t (set_host (heartbeat t0) st) of (going, st') \<Rightarrow>
        going = (t - t0 \<le> idle_timeout (ax_host st))
        \<and> ax_host st' = (if going then heartbeat t0 (ax_host st) else shutdown ''idle'' (heartbeat t0 (ax_host st))))
    \<and> shutdown why (shutdown ''idle'' s) = shutdown ''idle'' s"
proof -
  let ?s = "ax_host st" and ?I = "idle_timeout (ax_host st)"
  note i = idle_range [OF assms(1)]
  have g: "se_last_seen (goodbye t0 ?s) = t0 - 2 * ?I" "se_draining (goodbye t0 ?s) = se_draining ?s" "idle_timeout (goodbye t0 ?s) = ?I"
    using i(3) by (simp_all add: goodbye_def idle_timeout_def)
  have h: "se_last_seen (heartbeat t0 ?s) = t0" "se_draining (heartbeat t0 ?s) = se_draining ?s" "idle_timeout (heartbeat t0 ?s) = ?I"
    by (simp_all add: heartbeat_def idle_timeout_def Let_def)
  have n: "t0 - 2 * ?I \<noteq> 0" "t0 \<noteq> 0" "?I < t - (t0 - 2 * ?I)" using assms(3,4) i(1,2) by (simp_all add: second_def)
  have w: "watch_tick since t st1 = (if idle_timeout (ax_host st1) < t - se_last_seen (ax_host st1)
        then (False, set_host (shutdown ''idle'') (log_note ''server.stop'' (st1\<lparr>ax_store := reap t (ax_store st1)\<rparr>)))
        else (True, st1\<lparr>ax_store := reap t (ax_store st1)\<rparr>))"
    if "\<not> se_draining (ax_host st1)" "se_last_seen (ax_host st1) \<noteq> 0" for st1 :: app
    using that by (simp add: watch_tick_def Let_def)
  show ?thesis
  proof (intro conjI)
    show "case watch_tick since t (set_host (goodbye t0) st) of (going, st') \<Rightarrow>
        \<not> going \<and> ax_host st' = shutdown ''idle'' (goodbye t0 ?s)"
      using assms(2) n(1,3) by (simp add: w g)
    show "case watch_tick since t (set_host (heartbeat t0) st) of (going, st') \<Rightarrow> going = (t - t0 \<le> ?I)
        \<and> ax_host st' = (if going then heartbeat t0 ?s else shutdown ''idle'' (heartbeat t0 ?s))"
      using assms(2) n(2) by (simp add: w h not_less)
    show "shutdown why (shutdown ''idle'' s) = shutdown ''idle'' s" by (simp add: shutdown_def)
  qed
qed

section \<open>Cancelling\<close>


text \<open>The answer never says that there was nothing to cancel.\<close>

lemma cancel_always_confirms: "fst (cancel_intent env s) \<noteq> Inr False"
  by (simp add: cancel_intent_def split: prod.splits)

section \<open>The gates against their comments\<close>

text \<open>A request too many is answered with 500.\<close>

lemma busy_status:
  assumes "max_concurrent_requests \<le> se_sem (ax_host st)"
  shows "\<exists>a. concurrency_limit next hs r st = (Some a, st) \<and> resp_status a = 500 \<and> get (resp_headers a) ''Retry-After'' = Some ''1''"
  using assms by (simp add: concurrency_limit_def IO_error_def) (simp add: refuse_def write_envelope_def from_error_def Let_def IO_error_def)

text \<open>The path of a directory is redirected to itself: it is cleaned of its slash, and \<open>ServeMux\<close> wants the slash back.\<close>

lemma directory_redirects_to_itself:
  assumes "rq_path r = ''/assets/''"
  shows "\<exists>a. normalise_path (mux env aenv) hs r st = (Some a, st) \<and> resp_status a = 307
    \<and> get (resp_headers a) ''Location'' = Some ''/assets/''"
proof -
  have "\<not> bad_path ''/assets/''" "clean ''/assets/'' = ''/assets''" by code_simp+
  moreover have "mux_choose all_patterns ''/assets'' = Redirect ''/assets/''" by code_simp
  ultimately show ?thesis using assms by (simp add: normalise_path_def Let_def mux_def)
qed

section \<open>Samples\<close>

definition sample_server :: server where
  "sample_server = \<lparr>se_cfg = default_config\<lparr>cf_game_id := ''a.b'',
       cf_update := (cf_update default_config)\<lparr>up_channel := ''patch'', up_patch_base_url := ''https://x/''\<rparr>,
       cf_data_api := (cf_data_api default_config)\<lparr>da_max_request := 500, da_writes_per_minute := 0, da_bytes_per_minute := 0\<rparr>\<rparr>,
     se_port = 80, se_version = ''1.2'', se_release = ''2026.09.4'', se_instance = ''i'', se_folder = ''/g'', se_game_dir = ''/g/game'',
     se_data_dir = ''/g/data'', se_sidecar = ''/s'', se_sidecar_kind = [], se_sidecar_fallback = [], se_data_kind = [], se_browser = [],
     se_browser_version = [], se_on_first = True, se_on_watchdog = True, se_debug = False, se_started = 0, se_last_seen = 0,
     se_first = False, se_draining = False, se_in_flight = 0, se_sem = 0, se_requests = 0, se_once = False, se_stop = [],
     se_watchdog = False, se_panicked = False, se_cancelled = False, se_closed = False, se_hooks = [], se_etags = [],
     se_update = run_state\<lparr>ap_pending := None\<rparr>\<rparr>"

definition sample_sn :: server_env where
  "sample_sn = \<lparr>sn_now = 9000 * second, sn_network = sample_net (encode (JObj sample_doc)), sn_dir_ok = True, sn_marker_ok = True,
     sn_cancel_ok = True, sn_remove_ok = True, sn_result_fresh = False, sn_mtime = (\<lambda>_. []), sn_view = sample_static_view\<rparr>"

definition sample_app :: app where
  "sample_app = \<lparr>ax_store = exchanged_store, ax_mods = \<lparr>ms_engine = sample_engine [], ms_dirs = []\<rparr>, ax_used = [], ax_log = [],
     ax_host = sample_server\<rparr>"

lemma sample_policy: "data_config_of sample_server = sample_config"
  by (simp add: data_config_of_def sample_server_def sample_config_def)

definition sample_beat :: http_request where
  "sample_beat = sample_req ''POST'' ''/__kobra/heartbeat'' sample_headers sample_cookies []"

lemma sample_beat_runs:
  "\<exists>a st'. build_handler sample_sn sample_env [] sample_beat sample_app = (Some a, st')
     \<and> se_last_seen (ax_host st') = 9000 * second \<and> se_hooks (ax_host st') = [''first heartbeat'']"
proof -
  let ?p = "''/__kobra/heartbeat''"
  have path: "\<not> bad_path ?p" "clean ?p = ?p" "mux_choose all_patterns ?p = Handle (Inr HeartbeatRoute)" by code_simp+
  have port: "port_authority 80 = ''127.0.0.1:80''" by code_simp
  have gate: "validate sample_config (ae_now sample_env) ''POST'' False hs sample_beat st
      = (Inr 0, st\<lparr>ax_store := update_session 0 (\<lambda>y. y\<lparr>last_active := 100\<rparr>) exchanged_store\<rparr>)"
    if "ax_store st = exchanged_store" for hs and st :: app
    using sample_gate [of "''POST''" False "[]" st hs ?p] that by (simp add: sample_beat_def sample_env_def)
  have pol: "data_config_of (sample_server\<lparr>se_requests := n, se_in_flight := i, se_sem := k\<rparr>) = sample_config" for n i k
    using sample_policy by (simp add: data_config_of_def)
  have r: "rq_path sample_beat = ?p" "rq_host sample_beat = ''127.0.0.1:80''" "header_of sample_beat ''Origin'' = []"
    by (simp_all add: sample_beat_def sample_req_def sample_headers_def header_of_def)
  have srv: "\<not> se_draining sample_server" "se_sem sample_server < max_concurrent_requests" "se_port sample_server = 80"
    "\<not> se_debug sample_server" "se_on_first sample_server" "\<not> se_first sample_server" "se_hooks sample_server = []"
    by (simp_all add: sample_server_def max_concurrent_requests_def)
  show ?thesis
    by (simp add: build_handler_def with_security_def recovery_def logging_gate_def drain_gate_def host_gate_def origin_gate_def
        normalise_path_def track_in_flight_def concurrency_limit_def mux_def Let_def set_host_def flight_defs sample_app_def r path port srv
        pol handle_api_def handle_heartbeat_def gated_def gate on_host_def server_ops_def heartbeat_def)
      (simp add: sample_sn_def)
qed

theorem only_sessions_act_witness:
  "\<exists>x. authorised (data_config_of (ax_host sample_app)) (ae_now sample_env) sample_beat (ax_store sample_app) x"
proof -
  obtain a st' where "build_handler sample_sn sample_env [] sample_beat sample_app = (Some a, st')"
    "se_last_seen (ax_host st') = 9000 * second"
    using sample_beat_runs by blast
  then show ?thesis
    using only_sessions_act [of sample_sn sample_env "[]" sample_beat sample_app "Some a" st']
    by (simp add: course_def sample_app_def sample_server_def second_def)
qed

theorem watcher_follows_page_witness:
  "fst (watch_tick 0 (9001 * second) (set_host (heartbeat (9000 * second)) sample_app))
   \<and> \<not> fst (watch_tick 0 (9001 * second) (set_host (goodbye (9000 * second)) sample_app))"
proof -
  have v: "valid_game_id ''a.b''" by code_simp
  have c: "config_ok (se_cfg (ax_host sample_app))"
    using v by (simp add: config_ok_def sample_app_def sample_server_def default_config_def entry_documents_def default_entry_path_def)
  have i: "9001 * second - 9000 * second \<le> idle_timeout (ax_host sample_app)"
    using idle_range [OF c] by (simp add: second_def)
  have "\<not> se_draining (ax_host sample_app)" "2 * 3600 * second < 9000 * second" "9000 * second \<le> 9001 * second"
    by (simp_all add: sample_app_def sample_server_def second_def)
  from watcher_follows_page [OF c this, of 0 "[]" sample_server] i show ?thesis by (auto split: prod.splits)
qed


end
