(* ===== verification/Server_Drain.thy ===== *)
theory Server_Drain
  imports Server_Laws
begin

text \<open>
  Requests that overlap, and the drain. Each request is a thread between two points where it touches the
  counters of the server: before the drain gate, past it, counted, with a slot, done with its slot, over.
  The gates in between (host, origin, path) may end it. The rules use the updates of the middleware and of
  \<open>drain\<close>; which thread moves next is not determined.
\<close>

datatype phase = Fresh | AtGate | Passed | Counted | Running | Leaving | Over

record traffic =
  tr_server :: server
  tr_at :: "nat \<Rightarrow> phase"
  tr_ended :: "bool option"

definition goes_to :: "nat \<Rightarrow> phase \<Rightarrow> traffic \<Rightarrow> traffic" where
  "goes_to i ph s = s\<lparr>tr_at := (tr_at s)(i := ph)\<rparr>"

definition on_server :: "(server \<Rightarrow> server) \<Rightarrow> traffic \<Rightarrow> traffic" where
  "on_server f s = s\<lparr>tr_server := f (tr_server s)\<rparr>"

text \<open>\<^term>\<open>tr_ended\<close> is set when the wait of the drain is over, with whether it ran into its deadline.\<close>

inductive traffic_step :: "traffic \<Rightarrow> traffic \<Rightarrow> bool" where
  arrive: "tr_at s i = Fresh \<Longrightarrow> \<not> se_closed (tr_server s) \<Longrightarrow> traffic_step s (goes_to i AtGate s)"
| turn_away: "tr_at s i = AtGate \<Longrightarrow> se_draining (tr_server s) \<Longrightarrow> traffic_step s (goes_to i Over s)"
| pass: "tr_at s i = AtGate \<Longrightarrow> \<not> se_draining (tr_server s) \<Longrightarrow> traffic_step s (goes_to i Passed s)"
| reject: "tr_at s i = Passed \<Longrightarrow> traffic_step s (goes_to i Over s)"
| count_in: "tr_at s i = Passed \<Longrightarrow> traffic_step s (goes_to i Counted (on_server enter_flight s))"
| busy: "tr_at s i = Counted \<Longrightarrow> max_concurrent_requests \<le> se_sem (tr_server s) \<Longrightarrow> traffic_step s (goes_to i Leaving s)"
| start: "tr_at s i = Counted \<Longrightarrow> se_sem (tr_server s) < max_concurrent_requests
    \<Longrightarrow> traffic_step s (goes_to i Running (on_server take_slot s))"
| act: "tr_at s i = Running \<Longrightarrow> steady sv = steady (tr_server s) \<Longrightarrow> se_closed sv = se_closed (tr_server s)
    \<Longrightarrow> traffic_step s (on_server (\<lambda>_. sv) s)"
| finish: "tr_at s i = Running \<Longrightarrow> traffic_step s (goes_to i Leaving (on_server free_slot s))"
| leave: "tr_at s i = Leaving \<Longrightarrow> traffic_step s (goes_to i Over (on_server leave_flight s))"
| idle: "traffic_step s (on_server (shutdown why) s)"
| drain: "se_stop (tr_server s) = why # whys \<Longrightarrow> \<not> se_draining (tr_server s)
    \<Longrightarrow> traffic_step s (on_server (\<lambda>v. v\<lparr>se_stop := whys, se_draining := True\<rparr>) s)"
| settled: "se_draining (tr_server s) \<Longrightarrow> tr_ended s = None \<Longrightarrow> se_in_flight (tr_server s) \<le> 0
    \<Longrightarrow> traffic_step s (on_server (\<lambda>v. v\<lparr>se_cancelled := True, se_closed := True\<rparr>) s\<lparr>tr_ended := Some False\<rparr>)"
| timeout: "se_draining (tr_server s) \<Longrightarrow> tr_ended s = None
    \<Longrightarrow> traffic_step s (on_server (\<lambda>v. v\<lparr>se_cancelled := True, se_closed := True\<rparr>) s\<lparr>tr_ended := Some True\<rparr>)"

inductive runs_to :: "traffic \<Rightarrow> traffic \<Rightarrow> bool" where
  here: "runs_to s s"
| onward: "runs_to s t \<Longrightarrow> traffic_step t u \<Longrightarrow> runs_to s u"

inductive_cases traffic_stepE: "traffic_step s t"

lemma runs_to_trans: "runs_to t u \<Longrightarrow> runs_to s t \<Longrightarrow> runs_to s u"
  by (induction rule: runs_to.induct) (auto intro: runs_to.intros)

text \<open>A server that has just been built, with no request yet.\<close>

definition just_built :: "server \<Rightarrow> traffic \<Rightarrow> bool" where
  "just_built sv s \<longleftrightarrow> s = \<lparr>tr_server = sv, tr_at = (\<lambda>_. Fresh), tr_ended = None\<rparr> \<and> se_in_flight sv = 0 \<and> se_sem sv = 0
     \<and> \<not> se_draining sv"

definition at_phase :: "phase set \<Rightarrow> traffic \<Rightarrow> nat set" where
  "at_phase ps s = {i. tr_at s i \<in> ps}"

text \<open>Past the drain gate, and in flight.\<close>

definition inside :: "traffic \<Rightarrow> nat set" where
  "inside = at_phase {Passed, Counted, Running, Leaving}"

definition in_flight_set :: "traffic \<Rightarrow> nat set" where
  "in_flight_set = at_phase {Counted, Running, Leaving}"

definition counters_ok :: "traffic \<Rightarrow> bool" where
  "counters_ok s \<longleftrightarrow> finite (inside s) \<and> se_in_flight (tr_server s) = int (card (in_flight_set s))
     \<and> se_sem (tr_server s) = card (at_phase {Running} s) \<and> se_sem (tr_server s) \<le> max_concurrent_requests"

lemma goes_simps [simp]:
  "tr_server (goes_to i ph s) = tr_server s" "tr_ended (goes_to i ph s) = tr_ended s"
  "tr_at (goes_to i ph s) j = (if j = i then ph else tr_at s j)"
  "tr_server (on_server f s) = f (tr_server s)" "tr_at (on_server f s) = tr_at s" "tr_ended (on_server f s) = tr_ended s"
  by (simp_all add: goes_to_def on_server_def)

lemma at_phase_goes:
  "at_phase ps (goes_to i ph s) = (if ph \<in> ps then insert i (at_phase ps s) else at_phase ps s - {i})"
  "at_phase ps (on_server f s) = at_phase ps s" "at_phase ps (s\<lparr>tr_ended := e\<rparr>) = at_phase ps s"
  by (auto simp: at_phase_def)

lemma in_at_phase: "i \<in> at_phase ps s \<longleftrightarrow> tr_at s i \<in> ps"
  by (simp add: at_phase_def)

lemma card_less_one: "finite A \<Longrightarrow> i \<in> A \<Longrightarrow> int (card A) - 1 = int (card A - Suc 0)"
  by (metis One_nat_def Suc_leI card_gt_0_iff empty_iff of_nat_1 of_nat_diff)

lemma counters_ok_step:
  assumes "traffic_step s t" and "counters_ok s"
  shows "counters_ok t"
proof -
  have fin: "finite (at_phase {Counted, Running, Leaving} s)" "finite (at_phase {Running} s)"
    using assms(2) by (auto simp: counters_ok_def inside_def at_phase_def elim: rev_finite_subset)
  show ?thesis
    using assms fin
    by (induction rule: traffic_step.induct)
      (auto simp: counters_ok_def inside_def in_flight_set_def at_phase_goes in_at_phase insert_absorb card_Diff_singleton
        flight_defs shutdown_def steady_def intro!: card_less_one)
qed

lemma counters_ok_run: "runs_to s t \<Longrightarrow> counters_ok s \<Longrightarrow> counters_ok t"
  by (induction rule: runs_to.induct) (auto intro: counters_ok_step)

lemma just_built_ok: "just_built sv s \<Longrightarrow> counters_ok s"
  by (simp add: just_built_def counters_ok_def inside_def in_flight_set_def at_phase_def)

lemma draining_step:
  assumes "traffic_step s t" and "se_draining (tr_server s)"
  shows "se_draining (tr_server t) \<and> inside t \<subseteq> inside s \<and> (tr_ended s \<noteq> None \<longrightarrow> tr_ended t = tr_ended s)"
  using assms
  by (induction rule: traffic_step.induct)
    (auto simp: inside_def at_phase_goes in_at_phase flight_defs shutdown_def steady_def split: if_splits)

lemma draining_run:
  assumes "runs_to s t" and "se_draining (tr_server s)"
  shows "se_draining (tr_server t) \<and> inside t \<subseteq> inside s \<and> (tr_ended s \<noteq> None \<longrightarrow> tr_ended t = tr_ended s)"
  using assms by (induction rule: runs_to.induct) (use draining_step in fastforce)+

text \<open>
  C11: The counters are exact, whatever requests overlap. In every state a new server can reach, with any
  number of requests arriving, refused, running, asking for the shutdown and leaving in any order, the
  number in flight is the number of requests between the two counting points, the slots taken are the
  requests whose handler runs, and no more than 32 handlers run at once.
\<close>

theorem overlapping_counters_exact:
  assumes "just_built sv s" and "runs_to s t"
  shows "se_in_flight (tr_server t) = int (card (in_flight_set t))
    \<and> se_sem (tr_server t) = card (at_phase {Running} t) \<and> card (at_phase {Running} t) \<le> 32"
  using counters_ok_run [OF assms(2) just_built_ok [OF assms(1)]] by (simp add: counters_ok_def max_concurrent_requests_def)

text \<open>
  C10: A drain lets nobody in, and when its wait has ended without the deadline, the handlers that still
  run are of requests that were between the drain gate and the counter at that moment: no request that
  had been counted is cut off, and none that came after the drain began is served.
\<close>

theorem drain_admits_nobody:
  assumes "just_built sv s0" and "runs_to s0 s" and "se_draining (tr_server s)" and "runs_to s t"
  shows "inside t \<subseteq> inside s
    \<and> (\<forall>u v i. traffic_step t u \<and> tr_ended t = None \<and> tr_ended u = Some False \<and> runs_to u v \<and> tr_at v i = Running
         \<longrightarrow> tr_at u i = Passed \<and> i \<in> inside s)"
proof -
  note d = draining_run [OF assms(4,3)]
  have "tr_at u i = Passed \<and> i \<in> inside s"
    if u: "traffic_step t u" "tr_ended t = None" "tr_ended u = Some False" and v: "runs_to u v" "tr_at v i = Running" for u v i
  proof -
    note du = draining_step [OF u(1)] and dv = draining_run [OF v(1)]
    have c: "counters_ok t" by (rule counters_ok_run [OF runs_to_trans [OF assms(4,2)] just_built_ok [OF assms(1)]])
    have e: "se_in_flight (tr_server t) \<le> 0" "in_flight_set u = in_flight_set t"
      using u by (auto elim!: traffic_stepE simp: in_flight_set_def at_phase_def)
    then have "in_flight_set u = {}"
      using c by (auto simp: counters_ok_def inside_def in_flight_set_def at_phase_def elim!: rev_finite_subset)
    moreover have "i \<in> inside u" using du dv d v(2) by (auto simp: inside_def at_phase_def)
    ultimately show ?thesis using du d by (auto simp: inside_def in_flight_set_def at_phase_def)
  qed
  with d show ?thesis by blast
qed

section \<open>The window\<close>

text \<open>One request passes the gate, the drain begins and settles, and then the request is counted and runs.\<close>

definition quiet_server :: traffic where
  "quiet_server = \<lparr>tr_server = sample_server, tr_at = (\<lambda>_. Fresh), tr_ended = None\<rparr>"

definition one_passed :: traffic where
  "one_passed = goes_to 0 Passed (goes_to 0 AtGate quiet_server)"

definition one_drained :: traffic where
  "one_drained = on_server (\<lambda>v. v\<lparr>se_stop := [], se_draining := True\<rparr>) (on_server (shutdown ''idle'') one_passed)"

definition one_settled :: traffic where
  "one_settled = on_server (\<lambda>v. v\<lparr>se_cancelled := True, se_closed := True\<rparr>) one_drained\<lparr>tr_ended := Some False\<rparr>"

definition one_late :: traffic where
  "one_late = goes_to 0 Running (on_server take_slot (goes_to 0 Counted (on_server enter_flight one_settled)))"

lemmas window_defs = quiet_server_def one_passed_def one_drained_def one_settled_def one_late_def

lemma quiet_server_built: "just_built sample_server quiet_server"
  by (simp add: just_built_def quiet_server_def sample_server_def)

lemma window_runs:
  "runs_to quiet_server one_passed" "runs_to one_passed one_drained" "traffic_step one_drained one_settled"
  "runs_to one_settled one_late"
proof -
  have f: "tr_at quiet_server 0 = Fresh" "\<not> se_closed (tr_server quiet_server)" "\<not> se_draining (tr_server quiet_server)"
    by (simp_all add: quiet_server_def sample_server_def)
  have "traffic_step quiet_server (goes_to 0 AtGate quiet_server)" using f by (intro arrive) simp_all
  moreover have "traffic_step (goes_to 0 AtGate quiet_server) one_passed"
    unfolding one_passed_def using f by (intro pass) simp_all
  ultimately show "runs_to quiet_server one_passed" by (blast intro: runs_to.intros)
  have "traffic_step one_passed (on_server (shutdown ''idle'') one_passed)" by (rule idle)
  moreover have "traffic_step (on_server (shutdown ''idle'') one_passed) one_drained"
    unfolding one_drained_def by (rule drain) (simp_all add: one_passed_def quiet_server_def sample_server_def shutdown_def)
  ultimately show "runs_to one_passed one_drained" by (blast intro: runs_to.intros)
  show "traffic_step one_drained one_settled"
    unfolding one_settled_def by (rule settled) (simp_all add: one_drained_def one_passed_def quiet_server_def sample_server_def shutdown_def)
  have "traffic_step one_settled (goes_to 0 Counted (on_server enter_flight one_settled))"
    by (rule count_in) (simp add: one_settled_def one_drained_def one_passed_def)
  moreover have "traffic_step (goes_to 0 Counted (on_server enter_flight one_settled)) one_late"
    using start [of "goes_to 0 Counted (on_server enter_flight one_settled)" 0]
    by (simp add: one_late_def window_defs sample_server_def shutdown_def flight_defs max_concurrent_requests_def goes_to_def
        on_server_def)
  ultimately show "runs_to one_settled one_late" by (blast intro: runs_to.intros)
qed

text \<open>The sessions are gone and the listener is closed, and the handler runs.\<close>

lemma handler_after_drain:
  "runs_to quiet_server one_late \<and> tr_ended one_late = Some False \<and> se_closed (tr_server one_late) \<and> tr_at one_late 0 = Running"
proof -
  have "runs_to one_drained one_settled" using window_runs(3) by (blast intro: runs_to.intros)
  then have "runs_to quiet_server one_late" using window_runs runs_to_trans by blast
  then show ?thesis by (simp add: window_defs flight_defs)
qed

theorem drain_admits_nobody_witness: "tr_at one_settled 0 = Passed \<and> 0 \<in> inside one_drained"
proof -
  have r: "runs_to quiet_server one_drained"
    by (rule runs_to_trans [OF window_runs(2,1)])
  have "se_draining (tr_server one_drained)" "tr_ended one_drained = None" "tr_ended one_settled = Some False" "tr_at one_late 0 = Running"
    by (simp_all add: one_drained_def one_passed_def quiet_server_def one_settled_def one_late_def)
  then show ?thesis
    using drain_admits_nobody [OF quiet_server_built r _ runs_to.here] window_runs(3,4) by blast
qed

theorem overlapping_counters_exact_witness: "card (at_phase {Running} one_late) = 1 \<and> se_in_flight (tr_server one_late) = 1"
proof -
  have "at_phase {Running} one_late = {0}" "in_flight_set one_late = {0}"
    by (auto simp: in_flight_set_def at_phase_def window_defs)
  then show ?thesis
    using overlapping_counters_exact [OF quiet_server_built] handler_after_drain by fastforce
qed

end
