(* ===== verification/Pack_Tree.thy ===== *)
theory Pack_Tree
  imports Update_Archive
begin

text \<open>
  \<open>packaging/internal/pack/collect.go\<close>, the path rules of \<open>schema.go\<close> and the file index of
  \<open>manifest.go\<close>: how the game tree of a release is staged, which paths the gates refuse, and the
  index the release manifest carries. A tree is a map from the slash path below its root to a node.
  Every directory can be listed; reading a file can fail, and so can a write below the stage, as
  \<open>writable\<close> says.
\<close>

section \<open>Trees\<close>

text \<open>
  A file has an execute bit and, when it can be read, its bytes. A link has its text and what
  opening it gives, since \<open>os.Open\<close> and \<open>os.Stat\<close> follow links: a regular file, or nothing (links
  to directories are not told from broken ones).
\<close>

datatype node = NDir | NFile bool "string option" | NLink string "(bool \<times> string) option" | NOther

type_synonym tree = "(string, node) gmap"

definition node_bytes :: "node \<Rightarrow> string option" where
  "node_bytes n = (case n of NFile x c \<Rightarrow> c | NLink l (Some (x, c)) \<Rightarrow> Some c | _ \<Rightarrow> None)"

definition node_exec :: "node \<Rightarrow> bool" where
  "node_exec n = (case n of NFile x c \<Rightarrow> x | NLink l (Some (x, c)) \<Rightarrow> x | NDir \<Rightarrow> True | _ \<Rightarrow> False)"

definition node_there :: "node \<Rightarrow> bool" where
  "node_there n = (case n of NLink l None \<Rightarrow> False | _ \<Rightarrow> True)"

definition is_dir :: "tree \<Rightarrow> string \<Rightarrow> bool" where
  "is_dir t p = (get t p = Some NDir)"

definition below :: "string \<Rightarrow> string \<Rightarrow> string option" where
  "below d p = (if prefix (d @ [slash]) p then Some (drop (Suc (length d)) p) else None)"

definition file_at :: "string \<Rightarrow> string \<times> node \<Rightarrow> string list" where
  "file_at d e = (if snd e = NDir then [] else case below d (fst e) of None \<Rightarrow> [] | Some r \<Rightarrow> [r])"

text \<open>\<open>RelFiles\<close> and \<open>RelDirs\<close>; a root that is not a directory is its own only entry.\<close>

definition rel_files :: "tree \<Rightarrow> string \<Rightarrow> string list option" where
  "rel_files t d =
     (case get t d of
        None \<Rightarrow> None
      | Some NDir \<Rightarrow> Some (sort (concat (map (file_at d) t)))
      | Some _ \<Rightarrow> Some [''.''])"

definition rel_dirs :: "tree \<Rightarrow> string \<Rightarrow> string list option" where
  "rel_dirs t d =
     (case get t d of
        None \<Rightarrow> None
      | Some NDir \<Rightarrow> Some (sort (concat (map (\<lambda>(p, n). if n \<noteq> NDir then [] else case below d p of None \<Rightarrow> [] | Some r \<Rightarrow> [r]) t)))
      | Some _ \<Rightarrow> Some [])"

definition mode_string :: "tree \<Rightarrow> string \<Rightarrow> string" where
  "mode_string t p =
     (case get t p of Some n \<Rightarrow> if node_there n \<and> node_exec n then ''755'' else ''644'' | None \<Rightarrow> ''644'')"

text \<open>\<open>HashFile\<close>: the hash and the length of what opening the path gives.\<close>

definition hash_file :: "string option \<Rightarrow> (string \<times> int) option" where
  "hash_file c = map_option (\<lambda>b. (content_hash b, int (length b))) c"

definition read_node :: "tree \<Rightarrow> string \<Rightarrow> string option" where
  "read_node t p = Option.bind (get t p) node_bytes"

definition file_size :: "tree \<Rightarrow> string \<Rightarrow> int" where
  "file_size t p = (case read_node t p of Some b \<Rightarrow> int (length b) | None \<Rightarrow> 0)"

section \<open>Staging\<close>

text \<open>A build error: the event that classifies it, and its message or cause.\<close>

type_synonym build_error = "string \<times> string"

definition failed :: "string \<Rightarrow> string \<Rightarrow> build_error + 'a" where
  "failed event msg = Inl (event, msg)"

definition ev_start :: string where "ev_start = ''pack.start''"
definition ev_scan_reject :: string where "ev_scan_reject = ''pack.scan.reject''"
definition ev_manifest_gen :: string where "ev_manifest_gen = ''pack.manifest.generated''"
definition ev_identity_fail :: string where "ev_identity_fail = ''pack.identity.fail''"
definition ev_schema_fail :: string where "ev_schema_fail = ''pack.schema.fail''"
definition ev_archive_built :: string where "ev_archive_built = ''pack.archive.built''"
definition ev_hash :: string where "ev_hash = ''pack.hash''"
definition ev_publish :: string where "ev_publish = ''pack.publish''"
definition ev_verify_fail :: string where "ev_verify_fail = ''pack.verify.fail''"

text \<open>
  The stage: the tree below the game folder, and what was written outside it because a staged path
  was a link.
\<close>

record staging =
  sg_tree :: tree
  sg_outside :: "(string \<times> string) list"

fun dir_chain :: "string \<Rightarrow> string list \<Rightarrow> string list" where
  "dir_chain pre [] = []"
| "dir_chain pre (s # ss) = (let p = (if pre = [] then s else pre @ slash # s) in p # dir_chain p ss)"

text \<open>\<open>os.MkdirAll\<close> of a path below the game folder.\<close>

fun make_dirs :: "(string \<Rightarrow> bool) \<Rightarrow> string list \<Rightarrow> tree \<Rightarrow> tree option" where
  "make_dirs writable [] t = Some t"
| "make_dirs writable (p # ps) t =
     (case get t p of
        Some NDir \<Rightarrow> make_dirs writable ps t
      | Some _ \<Rightarrow> None
      | None \<Rightarrow> if writable p then make_dirs writable ps (put p NDir t) else None)"

definition mkdir_all :: "(string \<Rightarrow> bool) \<Rightarrow> string \<Rightarrow> tree \<Rightarrow> tree option" where
  "mkdir_all writable p t = make_dirs writable (dir_chain [] (split_on slash p)) t"

definition parent_chain :: "string \<Rightarrow> string list" where
  "parent_chain p = dir_chain [] (butlast (split_on slash p))"

text \<open>
  Opening a staged file for writing and filling it. Over a link the bytes go to the file the link
  names, and the stage keeps the link.
\<close>

definition write_node :: "(string \<Rightarrow> bool) \<Rightarrow> string \<Rightarrow> bool \<Rightarrow> string \<Rightarrow> staging \<Rightarrow> staging option" where
  "write_node writable p x c s =
     (if \<not> writable p then None
      else case get (sg_tree s) p of
        None \<Rightarrow> Some (s\<lparr>sg_tree := put p (NFile x (Some c)) (sg_tree s)\<rparr>)
      | Some (NFile x' _) \<Rightarrow> Some (s\<lparr>sg_tree := put p (NFile x' (Some c)) (sg_tree s)\<rparr>)
      | Some (NLink l (Some _)) \<Rightarrow> Some (s\<lparr>sg_outside := sg_outside s @ [(l, c)]\<rparr>)
      | Some _ \<Rightarrow> None)"

definition with_dirs :: "(string \<Rightarrow> bool) \<Rightarrow> string list \<Rightarrow> staging \<Rightarrow> staging option" where
  "with_dirs writable ps s = map_option (\<lambda>t. s\<lparr>sg_tree := t\<rparr>) (make_dirs writable ps (sg_tree s))"

definition put_file :: "(string \<Rightarrow> bool) \<Rightarrow> string \<Rightarrow> bool \<Rightarrow> string \<Rightarrow> staging \<Rightarrow> staging option" where
  "put_file writable p x c s = Option.bind (with_dirs writable (parent_chain p) s) (write_node writable p x c)"

text \<open>\<open>copyTree\<close>: one visited entry, with the path of the stage it lands at.\<close>

definition copy_entry :: "(string \<Rightarrow> bool) \<Rightarrow> string \<Rightarrow> node \<Rightarrow> staging \<Rightarrow> staging option" where
  "copy_entry writable p n s =
     (case n of
        NDir \<Rightarrow> with_dirs writable (dir_chain [] (split_on slash p)) s
      | NLink l r \<Rightarrow>
          Option.bind (with_dirs writable (parent_chain p) s)
            (\<lambda>s. if \<not> writable p \<or> get (sg_tree s) p \<noteq> None then None
                 else Some (s\<lparr>sg_tree := put p (NLink l r) (sg_tree s)\<rparr>))
      | NFile x None \<Rightarrow> None
      | NFile x (Some c) \<Rightarrow> put_file writable p x c s
      | NOther \<Rightarrow> None)"

fun copy_entries :: "(string \<Rightarrow> bool) \<Rightarrow> string \<Rightarrow> (string \<times> node) list \<Rightarrow> staging \<Rightarrow> staging option" where
  "copy_entries writable target [] s = Some s"
| "copy_entries writable target ((rel, n) # es) s =
     Option.bind (copy_entry writable (join_path target rel) n s) (copy_entries writable target es)"

definition copy_tree :: "(string \<Rightarrow> bool) \<Rightarrow> tree \<Rightarrow> string \<Rightarrow> staging \<Rightarrow> staging option" where
  "copy_tree writable src target s =
     Option.bind (with_dirs writable (dir_chain [] (split_on slash target)) s)
       (copy_entries writable target (sort_key fst src))"

text \<open>The overlay: every file of it, opened and copied over the staged tree.\<close>

fun apply_overlay :: "(string \<Rightarrow> bool) \<Rightarrow> tree \<Rightarrow> string list \<Rightarrow> staging \<Rightarrow> build_error + staging" where
  "apply_overlay writable over [] s = Inr s"
| "apply_overlay writable over (rel # rels) s =
     (case with_dirs writable (parent_chain rel) s of
        None \<Rightarrow> Inl ([], ''mkdir'')
      | Some s1 \<Rightarrow>
          (case Option.bind (read_node over rel)
                  (\<lambda>c. write_node writable rel (case get over rel of Some n \<Rightarrow> node_exec n | None \<Rightarrow> False) c s1) of
             None \<Rightarrow> failed ev_start ''an overlay file could not be applied''
           | Some s2 \<Rightarrow> apply_overlay writable over rels s2))"

text \<open>The files of a tree that is not below another one.\<close>

definition all_files :: "tree \<Rightarrow> string list" where
  "all_files t = sort (map fst (filter (\<lambda>(p, n). n \<noteq> NDir) t))"

text \<open>
  \<open>CollectTree\<close>: \<open>game\<close> is the game directory of the package root, \<open>over\<close> the overlay of the
  release: none declared, or the directory, if it is one.
\<close>

definition collect_tree :: "(string \<Rightarrow> bool) \<Rightarrow> tree option \<Rightarrow> tree option option \<Rightarrow> staging \<Rightarrow> build_error + staging" where
  "collect_tree writable game over s =
     (case game of
        None \<Rightarrow> failed ev_start ''pkgroot has no game/ directory''
      | Some src \<Rightarrow>
          (case copy_tree writable src ''game'' s of
             None \<Rightarrow> failed ev_start ''the game tree could not be staged''
           | Some s1 \<Rightarrow>
               (case over of
                  None \<Rightarrow> Inr s1
                | Some None \<Rightarrow> failed ev_start ''a release overlay directory is missing''
                | Some (Some ov) \<Rightarrow> apply_overlay writable ov (all_files ov) s1)))"

section \<open>The scan\<close>

definition vcs_dirs :: "string list" where "vcs_dirs = [''.git'', ''.svn'', ''.hg'', ''.bzr'']"
definition editor_junk :: "string list" where "editor_junk = [''.DS_Store'', ''Thumbs.db'', ''.idea'', ''.vscode'']"

definition pack_device_names :: "string list" where
  "pack_device_names = [''CON'', ''PRN'', ''AUX'', ''NUL''] @ concat (map (\<lambda>i. [''COM'' @ [i], ''LPT'' @ [i]]) ''123456789'')"

type_synonym problem = "string \<times> string"

definition segment_problems :: "string \<Rightarrow> string \<Rightarrow> problem list" where
  "segment_problems rel seg =
     (if map to_upper_ascii (hd (split_on dot seg)) \<in> set pack_device_names
      then [(rel, ''windows device name '' @ seg)] else [])
     @ (if trim_right_by dot_or_space seg \<noteq> seg then [(rel, ''trailing dot or space'')] else [])"

definition data_problem :: "string \<Rightarrow> problem list" where
  "data_problem rel =
     (let parts = split_on slash rel in
      if 2 \<le> length parts \<and> hd parts = ''data'' \<and> \<not> (length parts = 2 \<and> parts ! 1 = ''.keep'')
      then [(rel, ''only data/.keep may ship under data/ (FR-UPD-7)'')] else [])"

definition file_problems :: "string \<Rightarrow> problem list" where
  "file_problems rel =
     (let name = base_name rel in
      (if name \<in> set editor_junk \<or> suffix ''~'' name \<or> suffix ''.swp'' name then [(rel, ''editor metadata'')] else [])
      @ (if prefix [dot] name \<and> name \<noteq> ''.keep'' then [(rel, ''hidden file'')] else [])
      @ concat (map (segment_problems rel) (split_on slash rel))
      @ data_problem rel)"

definition node_problems :: "string \<Rightarrow> node \<Rightarrow> problem list" where
  "node_problems rel n =
     (case n of
        NLink _ _ \<Rightarrow> [(rel, ''symlink'')]
      | NDir \<Rightarrow>
          if base_name rel \<in> set vcs_dirs then [(rel, ''version-control metadata'')]
          else if base_name rel \<in> set editor_junk then [(rel, ''editor metadata'')]
          else []
      | _ \<Rightarrow> file_problems rel)"

text \<open>A directory the walk does not enter hides everything below it.\<close>

definition skipped :: "string \<Rightarrow> bool" where
  "skipped rel = list_ex (\<lambda>s. s \<in> set vcs_dirs \<or> s \<in> set editor_junk) (butlast (split_on slash rel))"

definition launcher_files :: "string list" where
  "launcher_files = [''launcher'', ''launcher.exe'', ''launcher.config.json'', ''port-deny-list.json'', ''VERSION'']"

definition launcher_problems :: "tree \<Rightarrow> problem list" where
  "launcher_problems t =
     (if is_dir t ''launcher''
      then concat (map (\<lambda>p. case below ''launcher'' p of
             None \<Rightarrow> []
           | Some r \<Rightarrow> if slash \<in> set r \<or> r \<in> set launcher_files then []
                       else [(''launcher/'' @ r, ''not part of the launcher layout'')]) (sort (map fst t)))
      else [])"

text \<open>\<open>ScanForbidden\<close>: every rejected path, sorted. The order of two reasons for one path is left open by Go's sort.\<close>

definition scan_forbidden :: "tree \<Rightarrow> problem list" where
  "scan_forbidden t =
     sort_key fst
       (concat (map (\<lambda>(p, n). if skipped p then [] else node_problems p n) (sort_key fst t)) @ launcher_problems t)"

definition game_root_required :: "string list" where "game_root_required = [''index.html'', ''shell.js'']"
definition game_root_served :: "string list" where "game_root_served = [''index.html'', ''shell.js'']"
definition game_root_unserved :: "string list" where "game_root_unserved = [''release.manifest.json'']"
definition servable_prefixes :: "string list" where
  "servable_prefixes = [''engine/'', ''assets/'', ''locales/'', ''editor/'']"

definition servable_problem :: "string \<Rightarrow> problem list" where
  "servable_problem rel =
     (if slash \<in> set rel
      then (if list_ex (\<lambda>p. prefix p rel) servable_prefixes then []
            else [(''game/'' @ rel, ''not under any served prefix'')])
      else if rel \<in> set game_root_served \<or> rel \<in> set game_root_unserved then []
      else [(''game/'' @ rel, ''the game root serves only index.html and shell.js; move it under assets/'')])"

definition check_servable :: "tree \<Rightarrow> build_error + problem list" where
  "check_servable t =
     (case rel_files t ''game'' of
        None \<Rightarrow> failed ev_scan_reject ''the game tree could not be listed''
      | Some rels \<Rightarrow>
          Inr (sort_key fst
                 (concat (map (\<lambda>r. case get t (''game/'' @ r) of
                                      Some n \<Rightarrow> if node_there n then [] else [(''game/'' @ r, ''required but missing'')]
                                    | None \<Rightarrow> [(''game/'' @ r, ''required but missing'')]) game_root_required)
                  @ concat (map servable_problem rels))))"

section \<open>Path rules\<close>

fun strip_group :: "nat \<Rightarrow> string \<Rightarrow> string" where
  "strip_group depth [] = []"
| "strip_group depth (c # cs) =
     (if c = backslash then (case cs of [] \<Rightarrow> [] | _ # ds \<Rightarrow> strip_group depth ds)
      else if c = CHR ''('' then strip_group (Suc depth) cs
      else if c = CHR '')'' then (if depth = 0 then cs else strip_group (depth - 1) cs)
      else strip_group depth cs)"

lemma strip_group_shorter: "length (strip_group depth s) \<le> length s"
proof (induction "length s" arbitrary: depth s rule: less_induct)
  case less
  show ?case
  proof (cases s)
    case Nil
    then show ?thesis by simp
  next
    case (Cons c cs)
    have t: "length (strip_group d cs) \<le> length cs" for d
      using less [of cs d] Cons by simp
    have u: "length (strip_group d ds) \<le> length ds" if "cs = e # ds" for d e ds
      using less [of ds d] Cons that by simp
    show ?thesis
      using t [of depth] t [of "Suc depth"] t [of "depth - 1"] u [of _ _ depth]
      by (auto simp: Cons split: list.split intro: le_SucI order_trans [of _ "length (tl cs)"])
  qed
qed

text \<open>\<open>stripLookaheads\<close>: the pattern without its negative lookaheads, and how many there were.\<close>

function strip_lookaheads :: "string \<Rightarrow> string \<times> nat" where
  "strip_lookaheads s =
     (if s = [] then ([], 0)
      else if prefix ''(?!'' s
      then (let (r, n) = strip_lookaheads (strip_group 0 (drop 2 s)) in (r, Suc n))
      else (let (r, n) = strip_lookaheads (tl s) in (hd s # r, n)))"
  by pat_completeness auto
termination
proof (relation "measure length", goal_cases)
  case (2 s)
  then have "length s \<ge> 3" by (auto simp: prefix_def)
  then show ?case using strip_group_shorter [of 0 "drop 2 s"] by simp
qed auto

text \<open>\<open>CheckRelPath\<close>: why a path is refused.\<close>

definition check_rel_path :: "string \<Rightarrow> string list \<Rightarrow> string option" where
  "check_rel_path p allowed =
     (if p = [] then Some ''path is empty''
      else if CHR 0x00 \<in> set p then Some ''path contains a NUL byte''
      else if backslash \<in> set p then Some ''path contains a backslash''
      else if rooted p then Some ''path is absolute''
      else if 2 \<le> length p \<and> p ! 1 = CHR '':'' then Some ''path is drive-qualified''
      else case find (\<lambda>seg. seg = [] \<or> seg = [dot] \<or> seg = [dot, dot]) (split_on slash p) of
        Some seg \<Rightarrow> Some (if seg = [] then ''path has an empty segment'' else ''path has a dot segment'')
      | None \<Rightarrow>
          if clean p \<noteq> p then Some ''path is not canonical''
          else if list_ex (\<lambda>q. prefix q p \<and> length q < length p) allowed then None
          else Some ''path is not under any of the prefixes'')"

definition rel_path_prefixes :: "string list" where "rel_path_prefixes = [''game/'', ''launcher/'']"

fun first_refusal :: "string list \<Rightarrow> string option" where
  "first_refusal [] = None"
| "first_refusal (p # ps) =
     (case check_rel_path p rel_path_prefixes of
        Some r \<Rightarrow> Some (p @ '': '' @ r)
      | None \<Rightarrow> if prefix ''data/'' p then Some (p @ '': a release never contains data/ (FR-UPD-7)'') else first_refusal ps)"

definition check_file_index :: "string list \<Rightarrow> string option" where
  "check_file_index paths = first_refusal (sort paths)"

declare strip_lookaheads.simps [simp del]

section \<open>The file index\<close>

definition index_entry :: "tree \<Rightarrow> string \<Rightarrow> file_entry option" where
  "index_entry t key =
     (case hash_file (read_node t key) of
        None \<Rightarrow> None
      | Some (h, n) \<Rightarrow> Some \<lparr>fe_path = key, fe_size = n, fe_hash = h, fe_mode = mode_string t key\<rparr>)"

fun index_entries :: "tree \<Rightarrow> string list \<Rightarrow> build_error + file_entry list" where
  "index_entries t [] = Inr []"
| "index_entries t (key # ks) =
     (case index_entry t key of
        None \<Rightarrow> failed ev_manifest_gen ''a file could not be hashed''
      | Some e \<Rightarrow> map_sum id ((#) e) (index_entries t ks))"

definition namespaces :: "string list" where "namespaces = [''game'', ''launcher'']"

text \<open>The paths of one namespace the release carries; a namespace that is no directory is passed over.\<close>

definition namespace_keys :: "string \<Rightarrow> tree \<Rightarrow> string \<Rightarrow> string list" where
  "namespace_keys manifest_rel t ns =
     (if is_dir t ns
      then filter (\<lambda>k. k \<noteq> manifest_rel) (map (\<lambda>r. ns @ slash # r) (the (rel_files t ns)))
      else [])"

definition build_file_index :: "tree \<Rightarrow> string \<Rightarrow> build_error + (file_entry list \<times> int)" where
  "build_file_index t manifest_rel =
     (case index_entries t (concat (map (namespace_keys manifest_rel t) namespaces)) of
        Inl err \<Rightarrow> Inl err
      | Inr es \<Rightarrow>
          (case check_file_index (map fe_path es) of
             Some r \<Rightarrow> failed ev_scan_reject (''the file index is not safe: '' @ r)
           | None \<Rightarrow> Inr (es, wrap64 (sum_list (map fe_size es)))))"

end
