(* ===== verification/Pack_Config.thy ===== *)
theory Pack_Config
  imports Release Paths
begin

text \<open>
  \<open>packaging/internal/pack/config.go\<close> and \<open>identity.go\<close>: what a package declares in \<open>pkg.toml\<close>
  and in the release overlays, how the declaration is validated, the order of the releases, the
  timestamps and versions derived from it, and the agreement of the documents of one release. The
  TOML decoder is third-party code: a decoded document is an argument. What \<open>os.Stat\<close> says of the
  publisher's machine is an argument as well.
\<close>

section \<open>Declarations\<close>

record package_section =
  pk_slug :: string
  pk_game_id :: string
  pk_game_name :: string
  pk_root :: string

record release_section =
  rs_release :: string
  rs_game_version :: string
  rs_engine_version :: string
  rs_save_version :: int
  rs_launcher_min :: string
  rs_channel :: string
  rs_scope :: string
  rs_previous :: string

record launcher_section =
  ls_config :: string
  ls_deny_list :: string
  ls_binary_dir :: string
  ls_version_source :: string

record platform_section =
  pf_goos :: string
  pf_goarch :: string
  pf_binary :: string
  pf_archive_platform :: string

record publish_section =
  pb_base :: string
  pb_gpg_key :: string

record pack_config =
  pc_package :: package_section
  pc_release :: release_section
  pc_launcher :: launcher_section
  pc_platforms :: "(string, platform_section) gmap"
  pc_publish :: publish_section
  pc_dir :: string

record release_spec =
  sp_config :: release_section
  sp_overlay :: string
  sp_notes :: string
  sp_notes_url :: string
  sp_generated :: string
  sp_source_file :: string

definition spec_release :: "release_spec \<Rightarrow> string" where
  "spec_release s = rs_release (sp_config s)"

text \<open>What the publisher's machine holds: directories and other files.\<close>

record host_files =
  hf_dir :: "string \<Rightarrow> bool"
  hf_file :: "string \<Rightarrow> bool"

section \<open>The patterns\<close>

definition lower_digit :: "char \<Rightarrow> bool" where
  "lower_digit c = (let n = of_char c :: nat in 97 \<le> n \<and> n \<le> 122 \<or> 48 \<le> n \<and> n \<le> 57)"

definition slug_char :: "char \<Rightarrow> bool" where
  "slug_char c = (lower_digit c \<or> c = CHR ''-'')"

definition digits :: "string \<Rightarrow> bool" where
  "digits p = (p \<noteq> [] \<and> list_all is_digit p)"

definition release_re :: "string \<Rightarrow> bool" where
  "release_re s =
     (case split_on dot s of
        [y, m, n] \<Rightarrow> digits y \<and> length y = 4 \<and> digits m \<and> length m = 2 \<and> digits n
      | _ \<Rightarrow> False)"

definition semver_re :: "string \<Rightarrow> bool" where
  "semver_re s = (case split_on dot s of [a, b, c] \<Rightarrow> digits a \<and> digits b \<and> digits c | _ \<Rightarrow> False)"

definition game_id_re :: "string \<Rightarrow> bool" where
  "game_id_re s =
     (case split_on dot s of
        p # q # qs \<Rightarrow> p \<noteq> [] \<and> list_all lower_digit p \<and> list_all (\<lambda>r. r \<noteq> [] \<and> list_all slug_char r) (q # qs)
      | _ \<Rightarrow> False)"

definition slug_re :: "string \<Rightarrow> bool" where
  "slug_re s = (s \<noteq> [] \<and> list_all slug_char s)"

definition scope_values :: "string list" where "scope_values = [''full'', ''game-only'', ''patch'']"
definition chan_values :: "string list" where "chan_values = [''stable'', ''beta'', ''rc'']"

section \<open>Versions and times\<close>

text \<open>\<open>strconv.Atoi\<close> with its error ignored: zero for a malformed number, the nearest bound for one out of range.\<close>

definition atoi :: "string \<Rightarrow> int" where
  "atoi s =
     (case parse_int64 s of
        Some n \<Rightarrow> n
      | None \<Rightarrow>
          (let neg = prefix ''-'' s; body = (if neg \<or> prefix ''+'' s then tl s else s)
           in if parse_digits body = None then 0 else if neg then int64_min else int64_max))"

fun compare_segments :: "string list \<Rightarrow> string list \<Rightarrow> int" where
  "compare_segments (a # as) (b # bs) =
     (if atoi a \<noteq> atoi b then (if atoi a < atoi b then -1 else 1) else compare_segments as bs)"
| "compare_segments as bs = int (length as) - int (length bs)"

definition compare_releases :: "string \<Rightarrow> string \<Rightarrow> int" where
  "compare_releases a b = compare_segments (split_on dot a) (split_on dot b)"

text \<open>\<open>%02d\<close> of a non-negative hour.\<close>

definition two_digits :: "nat \<Rightarrow> string" where
  "two_digits n = (if n < 10 then CHR ''0'' # fmt_nat n else fmt_nat n)"

text \<open>\<open>%02d\<close> of Go's remainder, which keeps the sign of the dividend; the width counts the sign.\<close>

definition hour_text :: "int \<Rightarrow> string" where
  "hour_text h = (if 0 \<le> h then two_digits (nat (h mod 24)) else
     (let r = nat ((- h) mod 24) in if r = 0 then ''00'' else CHR ''-'' # fmt_nat r))"

definition fixed_timestamp :: "string \<Rightarrow> string" where
  "fixed_timestamp release =
     (case split_on dot release of
        [y, m, n] \<Rightarrow> y @ ''-'' @ m @ ''-01T'' @ hour_text (atoi n) @ '':00:00Z''
      | _ \<Rightarrow> ''1970-01-01T00:00:00Z'')"

definition last_segment :: "string \<Rightarrow> string" where
  "last_segment s = last (split_on dot s)"

fun split_components :: "string list \<Rightarrow> int list option" where
  "split_components [] = Some []"
| "split_components (p # ps) =
     (if p = [] then None
      else case parse_int64 p of
        None \<Rightarrow> None
      | Some n \<Rightarrow> if n < 0 then None else map_option ((#) n) (split_components ps))"

definition split_semver :: "string \<Rightarrow> int list option" where
  "split_semver s =
     (let parts = split_on dot (trim_space s) in if length parts \<noteq> 3 then None else split_components parts)"

fun compare_ints :: "int list \<Rightarrow> int list \<Rightarrow> int" where
  "compare_ints (a # as) (b # bs) = (if a \<noteq> b then (if a < b then -1 else 1) else compare_ints as bs)"
| "compare_ints _ _ = 0"

definition compare_semver :: "string \<Rightarrow> string \<Rightarrow> int option" where
  "compare_semver a b =
     (case (split_semver a, split_semver b) of
        (Some as, Some bs) \<Rightarrow> Some (compare_ints as bs)
      | _ \<Rightarrow> None)"

section \<open>Paths of the declaration\<close>

text \<open>\<open>Dir\<close> is absolute: \<open>LoadConfig\<close> takes it from the absolute path of \<open>pkg.toml\<close>.\<close>

definition pkg_root :: "host_files \<Rightarrow> pack_config \<Rightarrow> string option" where
  "pkg_root host c =
     (let r = (if pk_root (pc_package c) = [] then ''.'' else pk_root (pc_package c));
          a = (if rooted r then clean r else join_path (pc_dir c) r)
      in if hf_dir host a then Some a else None)"

definition resolve_path :: "pack_config \<Rightarrow> string \<Rightarrow> string" where
  "resolve_path c rel = (if rel = [] then [] else if rooted rel then rel else join_path (pc_dir c) rel)"

definition launcher_binary :: "host_files \<Rightarrow> pack_config \<Rightarrow> platform_section \<Rightarrow> string \<Rightarrow> string option" where
  "launcher_binary host c p override =
     (if override \<noteq> [] then (if hf_file host override then Some override else None)
      else (let d = resolve_path c (ls_binary_dir (pc_launcher c));
                dir = (if d = [] then join_path (pc_dir c) ''dist'' else d)
            in find (hf_file host)
                 [join_path (join_path dir (pf_goos p @ ''-'' @ pf_goarch p)) (pf_binary p), join_path dir (pf_binary p)]))"

definition default_platform :: "pack_config \<Rightarrow> string" where
  "default_platform c =
     (if get (pc_platforms c) ''linux-x64'' \<noteq> None then ''linux-x64''
      else case sort (map fst (pc_platforms c)) of [] \<Rightarrow> [] | n # _ \<Rightarrow> n)"

section \<open>Validation\<close>

datatype config_problem =
    BadSlug | BadGameId | NoGameName | SlugMismatch | NoPkgRoot
  | BadRelease | BadGameVersion | BadEngineVersion | BadLauncherMin | BadSaveVersion | BadChannel | BadScope
  | NoPlatform | PlatformIncomplete string | PlatformUnnamed string

definition problem_if :: "bool \<Rightarrow> config_problem \<Rightarrow> config_problem list" where
  "problem_if b p = (if b then [p] else [])"

text \<open>The problems in the order they are added; the error lists their messages sorted.\<close>

definition validate_config :: "host_files \<Rightarrow> pack_config \<Rightarrow> config_problem list" where
  "validate_config host c =
     (let pk = pc_package c; rl = pc_release c in
      problem_if (pk_slug pk = [] \<or> \<not> slug_re (pk_slug pk)) BadSlug
      @ problem_if (\<not> game_id_re (pk_game_id pk)) BadGameId
      @ problem_if (pk_game_name pk = []) NoGameName
      @ problem_if (last_segment (pk_game_id pk) \<noteq> pk_slug pk) SlugMismatch
      @ problem_if (pkg_root host c = None) NoPkgRoot
      @ problem_if (\<not> release_re (rs_release rl)) BadRelease
      @ problem_if (\<not> semver_re (rs_game_version rl)) BadGameVersion
      @ problem_if (\<not> semver_re (rs_engine_version rl)) BadEngineVersion
      @ problem_if (\<not> semver_re (rs_launcher_min rl)) BadLauncherMin
      @ problem_if (rs_save_version rl < 1) BadSaveVersion
      @ problem_if (rs_channel rl \<noteq> [] \<and> rs_channel rl \<notin> set chan_values) BadChannel
      @ problem_if (rs_scope rl \<noteq> [] \<and> rs_scope rl \<notin> set scope_values) BadScope
      @ problem_if (pc_platforms c = []) NoPlatform
      @ concat (map (\<lambda>(n, p).
          problem_if (pf_goos p = [] \<or> pf_goarch p = [] \<or> pf_binary p = []) (PlatformIncomplete n)
          @ problem_if (pf_archive_platform p = []) (PlatformUnnamed n)) (pc_platforms c)))"

section \<open>Releases\<close>

text \<open>A decoded \<open>release.toml\<close>; the save version tells an absent one from zero.\<close>

record overlay_doc =
  od_release :: string
  od_game_version :: string
  od_engine_version :: string
  od_save_version :: "int option"
  od_launcher_min :: string
  od_channel :: string
  od_scope :: string
  od_previous :: string
  od_summary :: string
  od_url :: string

text \<open>
  The entries of \<open>releases/\<close> in the order \<open>os.ReadDir\<close> gives them: the name, and for a directory
  what its \<open>release.toml\<close> is.
\<close>

datatype overlay_file = NoFile | Malformed | Decoded overlay_doc
datatype overlay_entry = PlainFile | OverlayDir overlay_file

datatype release_error = OverlayMalformed string | OverlayUnnamed string | OverlayMisnamed string string
  | BadReleaseId string | PatchWithoutPrevious string

definition either :: "string \<Rightarrow> string \<Rightarrow> string" where
  "either declared inherited = (if declared \<noteq> [] then declared else inherited)"

definition overlay_spec :: "pack_config \<Rightarrow> string \<Rightarrow> overlay_doc \<Rightarrow> release_spec" where
  "overlay_spec c name d =
     (let base = pc_release c in
      \<lparr>sp_config = \<lparr>rs_release = od_release d, rs_game_version = either (od_game_version d) (rs_game_version base),
         rs_engine_version = either (od_engine_version d) (rs_engine_version base),
         rs_save_version = (case od_save_version d of Some v \<Rightarrow> v | None \<Rightarrow> rs_save_version base),
         rs_launcher_min = either (od_launcher_min d) (rs_launcher_min base),
         rs_channel = either (od_channel d) (rs_channel base), rs_scope = either (od_scope d) (rs_scope base),
         rs_previous = od_previous d\<rparr>,
       sp_overlay = join_path (join_path (join_path (pc_dir c) ''releases'') name) ''overlay'',
       sp_notes = od_summary d, sp_notes_url = od_url d, sp_generated = fixed_timestamp (od_release d),
       sp_source_file = join_path (join_path ''releases'' name) ''release.toml''\<rparr>)"

fun load_overlays :: "pack_config \<Rightarrow> (string \<times> overlay_entry) list \<Rightarrow> release_error + release_spec list" where
  "load_overlays c [] = Inr []"
| "load_overlays c ((name, PlainFile) # es) = load_overlays c es"
| "load_overlays c ((name, OverlayDir NoFile) # es) = load_overlays c es"
| "load_overlays c ((name, OverlayDir Malformed) # es) = Inl (OverlayMalformed name)"
| "load_overlays c ((name, OverlayDir (Decoded d)) # es) =
     (let s = overlay_spec c name d in
      if od_release d = [] then Inl (OverlayUnnamed name)
      else if od_release d \<noteq> name then Inl (OverlayMisnamed name (od_release d))
      else if \<not> release_re (spec_release s) then Inl (BadReleaseId (spec_release s))
      else if rs_scope (sp_config s) = ''patch'' \<and> rs_previous (sp_config s) = []
      then Inl (PatchWithoutPrevious (spec_release s))
      else map_sum id ((#) s) (load_overlays c es))"

definition base_spec :: "pack_config \<Rightarrow> release_spec" where
  "base_spec c =
     \<lparr>sp_config = pc_release c, sp_overlay = [], sp_notes = [], sp_notes_url = [],
      sp_generated = fixed_timestamp (rs_release (pc_release c)), sp_source_file = ''pkg.toml''\<rparr>"

text \<open>\<open>sort.Slice\<close> by release: insertion keeps the order of equal releases, which Go leaves open.\<close>

fun insert_release :: "release_spec \<Rightarrow> release_spec list \<Rightarrow> release_spec list" where
  "insert_release s [] = [s]"
| "insert_release s (t # ts) =
     (if compare_releases (spec_release t) (spec_release s) < 0 then t # insert_release s ts else s # t # ts)"

definition sort_releases :: "release_spec list \<Rightarrow> release_spec list" where
  "sort_releases ss = foldr insert_release ss []"

text \<open>\<open>LoadReleases\<close>: no \<open>releases\<close> directory leaves the base release alone, unsorted.\<close>

definition load_releases :: "pack_config \<Rightarrow> (string \<times> overlay_entry) list option \<Rightarrow> release_error + release_spec list" where
  "load_releases c entries =
     (case entries of
        None \<Rightarrow> Inr [base_spec c]
      | Some es \<Rightarrow> map_sum id (\<lambda>ss. sort_releases (base_spec c # ss)) (load_overlays c es))"

text \<open>\<open>gameFolderName\<close>: the one top-level directory of a package.\<close>

definition slug_parts :: "string \<Rightarrow> string list" where
  "slug_parts slug =
     filter (\<lambda>p. p \<noteq> []) (split_on (CHR ''-'') (map (\<lambda>c. if c = CHR ''_'' then CHR ''-'' else c) slug))"

definition game_folder_name :: "string \<Rightarrow> string" where
  "game_folder_name slug =
     (let b = concat (map (\<lambda>p. to_upper_ascii (hd p) # tl p) (slug_parts slug)) in if b = [] then ''Game'' else b)"

section \<open>Agreement of the documents\<close>

record engine_manifest =
  em_schema :: string
  em_release :: string
  em_engine_version :: string
  em_wasm :: string
  em_glue :: string
  em_save_version :: int

definition decode_engine_manifest :: "members \<Rightarrow> engine_manifest option" where
  "decode_engine_manifest ms =
     (case (str_field ''schema'' ms, str_field ''release'' ms, str_field ''engine_version'' ms,
            str_field ''wasm'' ms, str_field ''glue'' ms, int_field ''save_version'' ms) of
        (Some sc, Some rl, Some ev, Some w, Some g, Some sv) \<Rightarrow>
          Some \<lparr>em_schema = sc, em_release = rl, em_engine_version = ev, em_wasm = w, em_glue = g, em_save_version = sv\<rparr>
      | _ \<Rightarrow> None)"

text \<open>\<open>LauncherVersion\<close>: the second word the binary prints, when it is a bare version.\<close>

definition launcher_version :: "string option \<Rightarrow> string option" where
  "launcher_version output =
     (case output of
        None \<Rightarrow> None
      | Some out \<Rightarrow>
          (let ws = Prelude.fields (trim_space out)
           in if length ws < 2 \<or> \<not> semver_re (ws ! 1) then None else Some (ws ! 1)))"

text \<open>The launcher configuration is a decoded object: \<open>map[string]any\<close>.\<close>

definition str :: "json option \<Rightarrow> string" where
  "str v = (case v of Some (JStr s) \<Rightarrow> s | _ \<Rightarrow> [])"

definition wasm_mime :: "(string, json) gmap \<Rightarrow> string" where
  "wasm_mime cfg =
     (case get cfg ''mime_types'' of
        Some (JObj table) \<Rightarrow>
          (case get (rev table) ''.wasm'' of Some (JStr v) \<Rightarrow> if v \<noteq> [] then v else ''application/wasm''
                                     | _ \<Rightarrow> ''application/wasm'')
      | _ \<Rightarrow> ''application/wasm'')"

definition yes_no :: "bool \<Rightarrow> string" where "yes_no b = (if b then ''yes'' else ''no'')"

record identity_input =
  ii_config :: pack_config
  ii_spec :: release_spec
  ii_engine :: engine_manifest
  ii_launcher_config :: "(string, json) gmap"
  ii_launcher_ver :: string

text \<open>A failed check: its name, what was expected and what was found.\<close>

type_synonym identity_failure = "string \<times> string \<times> string"

definition agree :: "string \<Rightarrow> string \<Rightarrow> string \<Rightarrow> identity_failure list" where
  "agree name expected actual = (if expected = actual then [] else [(name, expected, actual)])"

definition launcher_min_ok :: "string \<Rightarrow> string \<Rightarrow> bool" where
  "launcher_min_ok floor launcher =
     (launcher \<noteq> [] \<and> (case compare_semver floor launcher of Some c \<Rightarrow> c \<le> 0 | None \<Rightarrow> False))"

text \<open>\<open>CheckIdentity\<close>; \<open>there\<close> tells whether a path under \<open>game/\<close> of the staged tree exists.\<close>

definition check_identity :: "(string \<Rightarrow> bool) \<Rightarrow> identity_input \<Rightarrow> identity_failure list" where
  "check_identity there i =
     (let sp = sp_config (ii_spec i); eng = ii_engine i; cfg = ii_launcher_config i in
      agree ''engine manifest release'' (rs_release sp) (em_release eng)
      @ agree ''launcher config release'' (rs_release sp) (str (get cfg ''release''))
      @ agree ''engine_version agreement'' (rs_engine_version sp) (em_engine_version eng)
      @ agree ''save_version agreement'' (fmt_int (rs_save_version sp)) (fmt_int (em_save_version eng))
      @ agree ''game_version declared'' ''yes'' (yes_no (rs_game_version sp \<noteq> []))
      @ agree ''game_version well formed'' ''yes'' (yes_no (semver_re (rs_game_version sp)))
      @ agree ''launcher_min <= launcher'' ''yes'' (yes_no (launcher_min_ok (rs_launcher_min sp) (ii_launcher_ver i)))
      @ agree ''slug matches game_id'' (last_segment (pk_game_id (pc_package (ii_config i)))) (pk_slug (pc_package (ii_config i)))
      @ concat (map (\<lambda>key. if key = [] then [(''engine file declared'', ''a path'', ''nothing'')]
                           else if there key then [] else [(''engine file exists'', key, ''missing'')])
                  [em_wasm eng, em_glue eng])
      @ agree ''wasm served as application/wasm'' ''application/wasm'' (wasm_mime cfg))"

end
