(* ===== verification/Pack_Archive.thy ===== *)
theory Pack_Archive
  imports Pack_Tree Pack_Config Json_Indent
begin

text \<open>
  \<open>packaging/internal/pack/archive.go\<close> and the documents of \<open>manifest.go\<close>: the asset and release
  manifests, the two archives of a release, \<open>SHA256SUMS\<close>, \<open>latest.json\<close>, and the verification of
  a published directory. The archive formats are third-party or library code: writing and reading
  them are the functions of a \<open>codec\<close>. A published directory is a map from names to bytes.
\<close>

section \<open>Documents\<close>

record asset =
  as_path :: string
  as_type :: string
  as_size :: int
  as_hash :: string

record asset_manifest =
  am_release :: string
  am_generated :: string
  am_assets :: "asset list"

record pack_manifest =
  pm_schema :: string
  pm_release :: string
  pm_previous :: "string option"
  pm_published :: string
  pm_launcher_min :: string
  pm_engine_version :: string
  pm_save_version :: int
  pm_game_version :: string
  pm_channel :: string
  pm_scope :: string
  pm_total_size :: int
  pm_archive :: "archive_ref option"
  pm_files :: "file_entry list"
  pm_migrations :: "json list"
  pm_notes :: string
  pm_notes_url :: string

definition asset_types :: "(string \<times> string) list" where
  "asset_types = [(''.png'', ''texture''), (''.webp'', ''texture''), (''.jpg'', ''texture''), (''.jpeg'', ''texture''),
     (''.ogg'', ''audio''), (''.mp3'', ''audio''), (''.wav'', ''audio''),
     (''.obj'', ''model''), (''.gltf'', ''model''), (''.glb'', ''model''),
     (''.json'', ''data''), (''.csv'', ''data''), (''.pak'', ''data''),
     (''.glsl'', ''shader''), (''.wgsl'', ''shader''), (''.mp4'', ''video''), (''.webm'', ''video''),
     (''.ttf'', ''font''), (''.otf'', ''font''), (''.woff2'', ''font''),
     (''.css'', ''other''), (''.js'', ''other''), (''.html'', ''other''), (''.txt'', ''other'')]"

text \<open>\<open>filepath.Ext\<close>: the last element from its last dot on.\<close>

definition ext_of :: "string \<Rightarrow> string" where
  "ext_of p =
     (let b = base_name p in if dot \<in> set b then dot # last (split_on dot b) else [])"

definition asset_entry :: "tree \<Rightarrow> string \<Rightarrow> build_error + asset" where
  "asset_entry t rel =
     (if check_rel_path rel [[]] \<noteq> None then failed ev_scan_reject ''an asset path is not a safe relative path''
      else case hash_file (read_node t (''game/assets/'' @ rel)) of
        None \<Rightarrow> failed ev_manifest_gen ''an asset could not be hashed''
      | Some (h, n) \<Rightarrow>
          Inr \<lparr>as_path = rel, as_type = (case get asset_types (ext_of rel) of Some y \<Rightarrow> y | None \<Rightarrow> ''other''),
               as_size = n, as_hash = h\<rparr>)"

fun asset_entries :: "tree \<Rightarrow> string list \<Rightarrow> build_error + asset list" where
  "asset_entries t [] = Inr []"
| "asset_entries t (r # rs) =
     (case asset_entry t r of Inl err \<Rightarrow> Inl err | Inr a \<Rightarrow> map_sum id ((#) a) (asset_entries t rs))"

definition jnum :: "int \<Rightarrow> json" where "jnum i = JNum (fmt_int i)"

definition asset_json :: "asset \<Rightarrow> json" where
  "asset_json a = JObj [(''path'', JStr (as_path a)), (''type'', JStr (as_type a)), (''size'', jnum (as_size a)),
     (''hash'', JStr (as_hash a)), (''mutable'', JBool True), (''cache'', JStr ''revalidate'')]"

definition asset_manifest_json :: "asset_manifest \<Rightarrow> json" where
  "asset_manifest_json m = JObj [(''schema'', JStr ''kobra.asset-manifest/1''), (''release'', JStr (am_release m)),
     (''generated'', JStr (am_generated m)), (''content_addressed'', JBool False),
     (''assets'', JArr (map asset_json (am_assets m)))]"

definition asset_manifest_path :: string where "asset_manifest_path = ''game/assets/asset.manifest.json''"

text \<open>\<open>GenerateAssetManifest\<close>: the manifest, and the stage with its file.\<close>

definition generate_asset_manifest :: "(string \<Rightarrow> bool) \<Rightarrow> string \<Rightarrow> string \<Rightarrow> staging
    \<Rightarrow> build_error + (asset_manifest \<times> staging)" where
  "generate_asset_manifest writable release generated s =
     (case rel_files (sg_tree s) ''game/assets'' of
        None \<Rightarrow> failed ev_manifest_gen ''the asset tree could not be listed''
      | Some rels \<Rightarrow>
          (case asset_entries (sg_tree s) rels of
             Inl err \<Rightarrow> Inl err
           | Inr as \<Rightarrow>
               (let m = \<lparr>am_release = release, am_generated = generated, am_assets = as\<rparr> in
                case put_file writable asset_manifest_path False (document_text (asset_manifest_json m)) s of
                  None \<Rightarrow> failed ev_manifest_gen ''asset.manifest.json could not be written''
                | Some s' \<Rightarrow> Inr (m, s'))))"

definition or_default :: "string \<Rightarrow> string \<Rightarrow> string" where
  "or_default v fallback = (if v = [] then fallback else v)"

definition release_manifest_doc :: "release_spec \<Rightarrow> engine_manifest \<Rightarrow> archive_ref option \<Rightarrow> file_entry list \<Rightarrow> int
    \<Rightarrow> pack_manifest" where
  "release_manifest_doc sp eng archive index bytes =
     (let c = sp_config sp in
      \<lparr>pm_schema = ''kobra.release-manifest/1'', pm_release = rs_release c,
       pm_previous = (if rs_previous c \<noteq> [] then Some (rs_previous c) else None),
       pm_published = sp_generated sp, pm_launcher_min = rs_launcher_min c,
       pm_engine_version = em_engine_version eng, pm_save_version = em_save_version eng,
       pm_game_version = rs_game_version c, pm_channel = or_default (rs_channel c) ''stable'',
       pm_scope = or_default (rs_scope c) ''full'', pm_total_size = bytes, pm_archive = archive,
       pm_files = index, pm_migrations = [], pm_notes = sp_notes sp, pm_notes_url = sp_notes_url sp\<rparr>)"

text \<open>The JSON of the documents, in the order of the struct fields; \<open>omitempty\<close> leaves a field out.\<close>

definition archive_json :: "archive_ref \<Rightarrow> json" where
  "archive_json a = JObj [(''name'', JStr (ar_name a)), (''url'', JStr (ar_url a)), (''size'', jnum (ar_size a)),
     (''hash'', JStr (ar_hash a)), (''format'', JStr (ar_format a))]"

definition file_json :: "file_entry \<Rightarrow> json" where
  "file_json f = JObj [(''path'', JStr (fe_path f)), (''size'', jnum (fe_size f)), (''hash'', JStr (fe_hash f)),
     (''mode'', JStr (fe_mode f))]"

definition opt_str :: "string \<Rightarrow> string \<Rightarrow> (string \<times> json) list" where
  "opt_str k v = (if v = [] then [] else [(k, JStr v)])"

definition manifest_members :: "pack_manifest \<Rightarrow> (string \<times> json) list" where
  "manifest_members m =
     [(''schema'', JStr (pm_schema m)), (''release'', JStr (pm_release m)),
      (''previous_release'', (case pm_previous m of None \<Rightarrow> JNull | Some p \<Rightarrow> JStr p)),
      (''published'', JStr (pm_published m)), (''launcher_min'', JStr (pm_launcher_min m)),
      (''engine_version'', JStr (pm_engine_version m)), (''save_version'', jnum (pm_save_version m)),
      (''game_version'', JStr (pm_game_version m)), (''channel'', JStr (pm_channel m)),
      (''scope'', JStr (pm_scope m)), (''total_size'', jnum (pm_total_size m))]
     @ (case pm_archive m of None \<Rightarrow> [] | Some a \<Rightarrow> [(''archive'', archive_json a)])
     @ [(''files'', JArr (map file_json (pm_files m))), (''migrations'', JArr (pm_migrations m))]
     @ opt_str ''notes'' (pm_notes m) @ opt_str ''release_notes_url'' (pm_notes_url m)"

definition manifest_json :: "pack_manifest \<Rightarrow> json" where
  "manifest_json m = JObj (manifest_members m)"

definition decode_pack_manifest :: "members \<Rightarrow> pack_manifest option" where
  "decode_pack_manifest ms =
     (case (str_field ''schema'' ms, str_field ''release'' ms, ptr_field as_string ''previous_release'' ms,
            str_field ''published'' ms, str_field ''launcher_min'' ms, str_field ''engine_version'' ms,
            int_field ''save_version'' ms, str_field ''game_version'' ms) of
        (Some sc, Some rl, Some pr, Some pb, Some lm, Some ev, Some sv, Some gv) \<Rightarrow>
     (case (str_field ''channel'' ms, str_field ''scope'' ms, int_field ''total_size'' ms,
            ptr_field (as_struct decode_archive) ''archive'' ms, list_field (as_struct decode_file) ''files'' ms,
            list_field Some ''migrations'' ms, str_field ''notes'' ms, str_field ''release_notes_url'' ms) of
        (Some ch, Some sp, Some ts, Some ar, Some fs, Some mg, Some nt, Some nu) \<Rightarrow>
          Some \<lparr>pm_schema = sc, pm_release = rl, pm_previous = pr, pm_published = pb, pm_launcher_min = lm,
                pm_engine_version = ev, pm_save_version = sv, pm_game_version = gv, pm_channel = ch, pm_scope = sp,
                pm_total_size = ts, pm_archive = ar, pm_files = fs, pm_migrations = mg, pm_notes = nt,
                pm_notes_url = nu\<rparr>
      | _ \<Rightarrow> None) | _ \<Rightarrow> None)"

definition latest_json :: "latest \<Rightarrow> json" where
  "latest_json l = JObj ([(''release'', JStr (lt_release l)), (''manifest_url'', JStr (lt_manifest_url l))]
     @ opt_str ''notes_url'' (lt_notes_url l))"

section \<open>The archives\<close>

record zip_entry =
  ze_name :: string
  ze_dir :: bool
  ze_exec :: bool
  ze_stored :: bool
  ze_body :: string

text \<open>
  The formats: the update archive (tar inside zstd) and the ZIP, written for a time stamp, and
  what a reader makes of the bytes. Reading an archive may end in an error after some members.
\<close>

record codec =
  cd_tar :: "string \<Rightarrow> tar_member list \<Rightarrow> string"
  cd_untar :: "string \<Rightarrow> (tar_member list \<times> bool) option"
  cd_zip :: "string \<Rightarrow> zip_entry list \<Rightarrow> string"
  cd_unzip :: "string \<Rightarrow> zip_entry list option"

definition store_only :: "string list" where
  "store_only = [''.wasm'', ''.ogg'', ''.mp3'', ''.png'', ''.webp'', ''.woff2'', ''.zst'', ''.zip'', ''.gz'']"

definition store_exact :: "string list" where "store_exact = [''README.txt'']"

text \<open>
  \<open>ArchiveTime\<close> of the timestamps a release has: \<open>time.Parse\<close> with RFC 3339 accepts the text when
  it names a time, and anything else gives the epoch.
\<close>

definition two_digit_value :: "string \<Rightarrow> nat option" where
  "two_digit_value s = (if length s = 2 \<and> list_all is_digit s then Some (nat_of_digits 0 s) else None)"

definition utc_time :: "string \<Rightarrow> bool" where
  "utc_time s =
     (length s = 20 \<and> list_all is_digit (take 4 s)
      \<and> s ! 4 = CHR ''-'' \<and> s ! 7 = CHR ''-'' \<and> s ! 10 = CHR ''T'' \<and> s ! 13 = CHR '':'' \<and> s ! 16 = CHR '':'' \<and> s ! 19 = CHR ''Z''
      \<and> (case (two_digit_value (take 2 (drop 5 s)), two_digit_value (take 2 (drop 8 s)), two_digit_value (take 2 (drop 11 s)),
               two_digit_value (take 2 (drop 14 s)), two_digit_value (take 2 (drop 17 s))) of
           (Some mo, Some d, Some h, Some mi, Some sec) \<Rightarrow>
             1 \<le> mo \<and> mo \<le> 12 \<and> d = 1 \<and> h < 24 \<and> mi < 60 \<and> sec < 60
         | _ \<Rightarrow> False))"

definition epoch_text :: string where "epoch_text = ''1970-01-01T00:00:00Z''"

definition archive_time :: "string \<Rightarrow> string" where
  "archive_time published = (if utc_time published then published else epoch_text)"

definition exec_mode :: "bool \<Rightarrow> nat" where "exec_mode x = (if x then 493 else 420)"

definition update_entry :: "tree \<Rightarrow> string \<Rightarrow> tar_member option" where
  "update_entry t key =
     (case get t key of
        None \<Rightarrow> None
      | Some n \<Rightarrow>
          (case node_bytes n of
             None \<Rightarrow> None
           | Some c \<Rightarrow>
               Some (\<lparr>th_flag = CHR ''0'', th_name = key, th_size = int (length c), th_mode = exec_mode (node_exec n)\<rparr>, c)))"

fun update_entries :: "tree \<Rightarrow> string list \<Rightarrow> build_error + tar_member list" where
  "update_entries t [] = Inr []"
| "update_entries t (k # ks) =
     (case update_entry t k of
        None \<Rightarrow> failed ev_archive_built ''a staged file could not be read''
      | Some m \<Rightarrow> map_sum id ((#) m) (update_entries t ks))"

definition build_update_archive :: "codec \<Rightarrow> tree \<Rightarrow> string \<Rightarrow> string \<Rightarrow> build_error + string" where
  "build_update_archive c t manifest_rel published =
     map_sum id (cd_tar c (archive_time (archive_time published)))
       (update_entries t (concat (map (namespace_keys manifest_rel t) namespaces)))"

text \<open>The ZIP: directories first, then the files, each sorted by name.\<close>

definition zip_dirs :: "tree \<Rightarrow> string \<Rightarrow> string list" where
  "zip_dirs t game =
     sort (remdups (map (\<lambda>p. game @ slash # p) (filter (\<lambda>p. slash \<in> set p) (map fst (filter (\<lambda>(p, n). n = NDir) t)))
                    @ map (\<lambda>p. dir_of (game @ slash # p)) (all_files t)))"

definition zip_member :: "tree \<Rightarrow> string \<Rightarrow> string \<Rightarrow> zip_entry option" where
  "zip_member t game p =
     (case get t p of
        None \<Rightarrow> None
      | Some n \<Rightarrow>
          (case node_bytes n of
             None \<Rightarrow> None
           | Some c \<Rightarrow>
               Some \<lparr>ze_name = game @ slash # p, ze_dir = False, ze_exec = node_exec n,
                     ze_stored = (map to_lower_ascii (ext_of p) \<in> set store_only \<or> base_name p \<in> set store_exact),
                     ze_body = c\<rparr>))"

fun zip_members :: "tree \<Rightarrow> string \<Rightarrow> string list \<Rightarrow> build_error + zip_entry list" where
  "zip_members t game [] = Inr []"
| "zip_members t game (p # ps) =
     (case zip_member t game p of
        None \<Rightarrow> failed ev_archive_built ''a staged file could not be read''
      | Some m \<Rightarrow> map_sum id ((#) m) (zip_members t game ps))"

definition zip_dir_entry :: "string \<Rightarrow> zip_entry" where
  "zip_dir_entry d = \<lparr>ze_name = d @ [slash], ze_dir = True, ze_exec = True, ze_stored = True, ze_body = []\<rparr>"

definition build_zip :: "codec \<Rightarrow> tree \<Rightarrow> string \<Rightarrow> string \<Rightarrow> build_error + string" where
  "build_zip c t game published =
     map_sum id (\<lambda>ms. cd_zip c (archive_time (archive_time published)) (map zip_dir_entry (zip_dirs t game) @ ms))
       (zip_members t game (all_files t))"

section \<open>Publishing\<close>

type_synonym dist = "(string, string) gmap"

fun sum_lines :: "dist \<Rightarrow> string list \<Rightarrow> build_error + string" where
  "sum_lines d [] = Inr []"
| "sum_lines d (n # ns) =
     (case hash_file (get d n) of
        None \<Rightarrow> failed ev_hash ''a published artefact could not be hashed''
      | Some (h, _) \<Rightarrow> map_sum id (\<lambda>rest. trim_prefix ''sha256:'' h @ ''  '' @ n @ CHR 0x0A # rest) (sum_lines d ns))"

definition sums_name :: string where "sums_name = ''SHA256SUMS''"
definition latest_name :: string where "latest_name = ''latest.json''"

definition write_sums :: "string list \<Rightarrow> dist \<Rightarrow> build_error + dist" where
  "write_sums names d = map_sum id (\<lambda>b. put sums_name b d) (sum_lines d (sort names))"

definition write_latest :: "latest \<Rightarrow> dist \<Rightarrow> dist" where
  "write_latest l d = put latest_name (document_text (latest_json l)) d"

section \<open>Verification\<close>

text \<open>\<open>strings.Cut\<close> at two spaces.\<close>

fun cut_double_space :: "string \<Rightarrow> (string \<times> string) option" where
  "cut_double_space [] = None"
| "cut_double_space (c # cs) =
     (if c = CHR '' '' \<and> prefix '' '' cs then Some ([], tl cs)
      else map_option (\<lambda>(a, b). (c # a, b)) (cut_double_space cs))"

definition artefact :: "dist \<Rightarrow> string \<Rightarrow> string option" where
  "artefact d name = get d (clean name)"

definition verify_line :: "dist \<Rightarrow> string \<Rightarrow> string option" where
  "verify_line d line =
     (case cut_double_space line of
        None \<Rightarrow> Some ''SHA256SUMS is malformed''
      | Some (expected, name) \<Rightarrow>
          (case hash_file (artefact d name) of
             None \<Rightarrow> Some ''a published artefact is missing''
           | Some (h, _) \<Rightarrow>
               if trim_prefix ''sha256:'' h \<noteq> expected then Some ''a published artefact does not match SHA256SUMS''
               else None))"

definition verify_sums :: "dist \<Rightarrow> string option" where
  "verify_sums d =
     (case get d sums_name of
        None \<Rightarrow> Some ''SHA256SUMS is missing''
      | Some raw \<Rightarrow>
          (case find (\<lambda>l. verify_line d l \<noteq> None) (split_on (CHR 0x0A) (trim_space raw)) of
             None \<Rightarrow> None
           | Some l \<Rightarrow> verify_line d l))"

definition archive_suffix :: "string \<Rightarrow> string option" where
  "archive_suffix name =
     (if suffix ''.tar.zst'' name then Some ''.tar.zst'' else if suffix ''.zip'' name then Some ''.zip'' else None)"

text \<open>
  \<open>manifestNameForArchive\<close>: the pattern \<open>(.*)-(release)-([^-].*)(.tar.zst|.zip)\<close> with its greedy
  first group, so the last place where a release follows a dash and is followed by one. \<open>split_at\<close>
  gives the release that starts at an offset, if the rest fits the pattern.
\<close>

definition release_at :: "string \<Rightarrow> nat \<Rightarrow> string option" where
  "release_at stem i =
     (let rest = drop (Suc i) stem in
      if i < length stem \<and> stem ! i = CHR ''-''
      then (case index_byte rest (CHR ''-'') of
              None \<Rightarrow> None
            | Some j \<Rightarrow>
                let tail = drop (Suc j) rest in
                if release_re (take j rest) \<and> tail \<noteq> [] \<and> \<not> prefix ''-'' tail then Some (take j rest) else None)
      else None)"

definition manifest_name_for_archive :: "string \<Rightarrow> string option" where
  "manifest_name_for_archive name =
     (case archive_suffix name of
        None \<Rightarrow> None
      | Some ext \<Rightarrow>
          (let stem = trim_suffix ext name in
           if CHR 0x0A \<in> set stem then None
           else case find (\<lambda>i. release_at stem i \<noteq> None) (rev [0..<length stem]) of
             None \<Rightarrow> None
           | Some i \<Rightarrow> Some (take i stem @ ''-'' @ the (release_at stem i) @ ''.release.manifest.json'')))"

definition read_manifest :: "string option \<Rightarrow> pack_manifest option" where
  "read_manifest raw = Option.bind raw (decode_document decode_pack_manifest)"

definition archive_named_ok :: "dist \<Rightarrow> string list \<Rightarrow> string \<Rightarrow> string option" where
  "archive_named_ok d names name =
     (if \<not> suffix ''.zip'' name \<and> \<not> suffix ''.tar.zst'' name then None
      else case manifest_name_for_archive name of
        None \<Rightarrow> Some ''a published archive does not follow the naming rule''
      | Some mn \<Rightarrow>
          if mn \<notin> set names then Some ''a published archive has no release manifest''
          else if artefact d mn = None then Some ''a published archive's release manifest is missing''
          else None)"

definition verify_completeness :: "dist \<Rightarrow> string list \<Rightarrow> string option" where
  "verify_completeness d names =
     (case find (\<lambda>n. archive_named_ok d names n \<noteq> None) names of
        Some n \<Rightarrow> archive_named_ok d names n
      | None \<Rightarrow>
          (case get d latest_name of
             None \<Rightarrow> Some ''latest.json is missing; the dist is incomplete''
           | Some raw \<Rightarrow>
               (case decode_document decode_latest raw of
                  None \<Rightarrow> Some ''latest.json is malformed''
                | Some l \<Rightarrow>
                    if lt_release l = [] \<or> lt_manifest_url l = [] then Some ''latest.json names no release manifest''
                    else case read_manifest (artefact d (lt_manifest_url l)) of
                      None \<Rightarrow> Some ''latest.json names a release manifest that was not published''
                    | Some m \<Rightarrow>
                        if pm_release m \<noteq> lt_release l
                        then Some ''latest.json and the manifest it names declare different releases''
                        else (case pm_archive m of
                                None \<Rightarrow> Some ''latest.json dereferences a manifest with no archive''
                              | Some a \<Rightarrow>
                                  if ar_hash a = [] then Some ''latest.json dereferences a manifest with no archive''
                                  else case hash_file (artefact d (ar_name a)) of
                                    None \<Rightarrow> Some ''latest.json dereferences a missing archive''
                                  | Some (h, n) \<Rightarrow>
                                      if h \<noteq> ar_hash a \<or> n \<noteq> ar_size a
                                      then Some ''latest.json dereferences a hash-mismatched archive'' else None))))"

definition index_of :: "pack_manifest \<Rightarrow> (string, file_entry) gmap" where
  "index_of m = fold (\<lambda>f. put (fe_path f) f) (pm_files m) []"

text \<open>Both directions: every member of the update archive is indexed, and every indexed path is a member.\<close>

fun tar_members_match :: "(string, file_entry) gmap \<Rightarrow> bool \<Rightarrow> tar_member list \<Rightarrow> string list \<Rightarrow> string + string list" where
  "tar_members_match index clean_end [] seen =
     (if clean_end then Inr seen else Inl ''the update archive could not be read'')"
| "tar_members_match index clean_end ((h, body) # ms) seen =
     (if th_flag h \<noteq> CHR ''0'' \<and> th_flag h \<noteq> CHR 0x00 then tar_members_match index clean_end ms seen
      else case get index (th_name h) of
        None \<Rightarrow> Inl ''an update archive member is not in the release manifest index''
      | Some e \<Rightarrow>
          if th_size h \<noteq> fe_size e
          then Inl ''an update archive member's size does not match the release manifest index''
          else if int (length body) \<noteq> th_size h then Inl ''an update archive member could not be read''
          else if content_hash body \<noteq> fe_hash e
          then Inl ''an update archive member does not match the release manifest index''
          else tar_members_match index clean_end ms (th_name h # seen))"

definition verify_tar_index :: "codec \<Rightarrow> string option \<Rightarrow> pack_manifest \<Rightarrow> string option" where
  "verify_tar_index c archive m =
     (case archive of
        None \<Rightarrow> Some ''the update archive could not be opened''
      | Some bytes \<Rightarrow>
          (case cd_untar c bytes of
             None \<Rightarrow> Some ''the update archive could not be decompressed''
           | Some (ms, clean_end) \<Rightarrow>
               (case tar_members_match (index_of m) clean_end ms [] of
                  Inl r \<Rightarrow> Some r
                | Inr seen \<Rightarrow>
                    if list_all (\<lambda>e. fe_path e \<in> set seen) (pm_files m) then None
                    else Some ''the release manifest indexes a file that is not in the update archive'')))"

definition strip_top_dir :: "string \<Rightarrow> string option" where
  "strip_top_dir name =
     (let cl = clean (trim_prefix [slash] name) in
      case index_byte cl slash of
        None \<Rightarrow> None
      | Some i \<Rightarrow> if drop (Suc i) cl = [] then None else Some (drop (Suc i) cl))"

fun zip_members_match :: "(string, file_entry) gmap \<Rightarrow> zip_entry list \<Rightarrow> string list \<Rightarrow> string + string list" where
  "zip_members_match index [] seen = Inr seen"
| "zip_members_match index (z # zs) seen =
     (if ze_dir z then zip_members_match index zs seen
      else case Option.bind (strip_top_dir (ze_name z)) (get index) of
        None \<Rightarrow> zip_members_match index zs seen
      | Some e \<Rightarrow>
          if int (length (ze_body z)) \<noteq> fe_size e mod 2 ^ 64
          then Inl ''a distribution ZIP member's size does not match the release manifest index''
          else if content_hash (ze_body z) \<noteq> fe_hash e
          then Inl ''a distribution ZIP member does not match the release manifest index''
          else zip_members_match index zs (the (strip_top_dir (ze_name z)) # seen))"

definition verify_zip_index :: "codec \<Rightarrow> string \<Rightarrow> pack_manifest \<Rightarrow> string option" where
  "verify_zip_index c bytes m =
     (case cd_unzip c bytes of
        None \<Rightarrow> Some ''the distribution ZIP could not be opened''
      | Some zs \<Rightarrow>
          (case zip_members_match (index_of m) zs [] of
             Inl r \<Rightarrow> Some r
           | Inr seen \<Rightarrow>
               if list_all (\<lambda>e. fe_path e \<in> set seen) (pm_files m) then None
               else Some ''the distribution ZIP is missing a file the release manifest indexes''))"

definition verify_manifest_index :: "codec \<Rightarrow> dist \<Rightarrow> string \<Rightarrow> pack_manifest \<Rightarrow> string option" where
  "verify_manifest_index c d archive_name m =
     (if \<not> suffix ''.tar.zst'' archive_name
      then Some ''the manifest names an archive format that cannot be verified''
      else case verify_tar_index c (artefact d archive_name) m of
        Some r \<Rightarrow> Some r
      | None \<Rightarrow>
          (case artefact d (trim_suffix ''.tar.zst'' archive_name @ ''.zip'') of
             None \<Rightarrow> None
           | Some z \<Rightarrow> verify_zip_index c z m))"

definition verify_published_manifest :: "codec \<Rightarrow> dist \<Rightarrow> string \<Rightarrow> string option" where
  "verify_published_manifest c d name =
     (case read_manifest (artefact d name) of
        None \<Rightarrow> Some ''a published manifest could not be read''
      | Some m \<Rightarrow>
          (case pm_archive m of
             None \<Rightarrow> Some ''a manifest does not declare the archive it describes''
           | Some a \<Rightarrow>
               if ar_hash a = [] \<or> ar_size a = 0 then Some ''a manifest does not declare the archive it describes''
               else case hash_file (artefact d (ar_name a)) of
                 None \<Rightarrow> Some ''a manifest names an archive that was not published''
               | Some (h, n) \<Rightarrow>
                   if h \<noteq> ar_hash a then Some ''a manifest's archive.hash does not match the published archive''
                   else if n \<noteq> ar_size a then Some ''a manifest's archive.size does not match the published archive''
                   else verify_manifest_index c d (ar_name a) m))"

text \<open>\<open>VerifyOutput\<close>: the first thing that is wrong with a published directory.\<close>

definition verify_output :: "codec \<Rightarrow> dist \<Rightarrow> string list \<Rightarrow> string option" where
  "verify_output c d names =
     (case verify_sums d of
        Some r \<Rightarrow> Some r
      | None \<Rightarrow>
          (case verify_completeness d names of
             Some r \<Rightarrow> Some r
           | None \<Rightarrow>
               (let ms = filter (suffix ''.release.manifest.json'') names in
                case find (\<lambda>n. verify_published_manifest c d n \<noteq> None) ms of
                  None \<Rightarrow> None
                | Some n \<Rightarrow> verify_published_manifest c d n)))"

section \<open>Extraction and \<open>verify\<close>\<close>

definition check_zip_entry :: "string \<Rightarrow> string \<Rightarrow> string \<Rightarrow> bool" where
  "check_zip_entry dest target name =
     (let cl = clean (trim_prefix [slash] name) in
      \<not> (cl = [dot] \<or> prefix [dot, dot, slash] cl \<or> sublist [slash, dot, dot, slash] cl)
      \<and> (case rel_path dest target of None \<Rightarrow> False | Some r \<Rightarrow> \<not> prefix [dot, dot] r))"

text \<open>
  \<open>ExtractZip\<close> into an empty directory: what is written, by absolute target, until an entry is
  refused; \<open>writable\<close> tells whether the system lets a target be written.
\<close>

fun extract_entries :: "(string \<Rightarrow> bool) \<Rightarrow> string \<Rightarrow> zip_entry list \<Rightarrow> tree \<Rightarrow> string option \<times> tree" where
  "extract_entries writable dest [] out = (None, out)"
| "extract_entries writable dest (z # zs) out =
     (let target = join_path dest (ze_name z) in
      if \<not> check_zip_entry dest target (ze_name z) then (Some ''archive entry escapes the destination'', out)
      else if \<not> writable target then (Some ''write'', out)
      else if ze_dir z then extract_entries writable dest zs (put target NDir out)
      else if get out target = Some NDir then (Some ''write'', out)
      else extract_entries writable dest zs (put target (NFile (ze_exec z) (Some (ze_body z))) out))"

definition top_dirs :: "string \<Rightarrow> tree \<Rightarrow> string list" where
  "top_dirs dest out =
     remdups (concat (map (\<lambda>(p, n). case below dest p of
        None \<Rightarrow> []
      | Some r \<Rightarrow> if slash \<in> set r \<or> n = NDir then [hd (split_on slash r)] else []) out))"

definition extract_zip :: "codec \<Rightarrow> (string \<Rightarrow> bool) \<Rightarrow> string \<Rightarrow> string option \<Rightarrow> (string + string) \<times> tree" where
  "extract_zip c writable dest archive =
     (case Option.bind archive (cd_unzip c) of
        None \<Rightarrow> (Inl ''open'', [])
      | Some zs \<Rightarrow>
          (case extract_entries writable dest zs [] of
             (Some r, out) \<Rightarrow> (Inl r, out)
           | (None, out) \<Rightarrow>
               (case top_dirs dest out of
                  [d] \<Rightarrow> (Inr (join_path dest d), out)
                | _ \<Rightarrow> (Inl ''the ZIP must hold exactly one top-level directory'', out))))"

definition data_stray :: "zip_entry \<Rightarrow> string option" where
  "data_stray z =
     (let name = clean (trim_prefix [slash] (ze_name z)); parts = split_on slash name in
      if ze_dir z then None
      else if length parts < 3 \<or> parts ! 1 \<noteq> ''data'' then None
      else if length parts = 3 \<and> parts ! 2 = ''.keep'' then None
      else Some name)"

definition zip_data_strays :: "codec \<Rightarrow> string \<Rightarrow> string list option" where
  "zip_data_strays c bytes = map_option (\<lambda>zs. sort (List.map_filter data_stray zs)) (cd_unzip c bytes)"

text \<open>\<open>VerifyDirectory\<close>: the files of a directory, and the data rule of its ZIPs.\<close>

definition zip_clean :: "codec \<Rightarrow> dist \<Rightarrow> string \<Rightarrow> string option" where
  "zip_clean c d name =
     (if ext_of name \<noteq> ''.zip'' then None
      else case Option.bind (get d name) (zip_data_strays c) of
        None \<Rightarrow> Some ''a distribution ZIP could not be read''
      | Some strays \<Rightarrow> if strays \<noteq> [] then Some ''files under data/ in a distribution ZIP'' else None)"

definition verify_directory :: "codec \<Rightarrow> dist \<Rightarrow> string option" where
  "verify_directory c d =
     (let names = sort (map fst d) in
      if names = [] then Some ''the directory holds no artefacts''
      else case verify_output c d names of
        Some r \<Rightarrow> Some r
      | None \<Rightarrow>
          (case find (\<lambda>n. zip_clean c d n \<noteq> None) names of
             None \<Rightarrow> None
           | Some n \<Rightarrow> zip_clean c d n))"

end
