(* ===== verification/Pack_Run.thy ===== *)
theory Pack_Run
  imports Pack_Archive
begin

text \<open>
  \<open>packaging/internal/pack/pack.go\<close> and \<open>dev.go\<close>: the pipeline. \<open>prepare\<close> resolves what a run
  needs, \<open>stage_release\<close> stages one release and takes it through every gate, \<open>build_release\<close> writes
  its archives and its manifest, \<open>run\<close> publishes all selected releases and verifies what it
  published. The publisher's machine, the schema validator, the archive formats and GPG are
  arguments. The numbers of the launcher configuration are kept as they are written. Events of the
  log are not modelled.
\<close>

section \<open>The machine\<close>

record pack_env =
  pe_host :: host_files
  pe_version_output :: "string \<Rightarrow> string option"
  pe_read :: "string \<Rightarrow> string option"
  pe_game :: "tree option"
  pe_releases :: "(string \<times> overlay_entry) list option"
  pe_overlay :: "string \<Rightarrow> tree option"
  pe_writable :: "string \<Rightarrow> bool"
  pe_publishable :: "string \<Rightarrow> bool"
  pe_schema :: "string \<Rightarrow> json \<Rightarrow> bool"
  pe_codec :: codec
  pe_notices :: string
  pe_gpg :: "(string \<Rightarrow> string option) option"

record pack_options =
  op_out :: string
  op_platform :: string
  op_launcher :: string
  op_releases :: "string list"
  op_install :: bool
  op_sign :: bool

record prepared =
  pr_root :: string
  pr_platform :: platform_section
  pr_binary :: string
  pr_version :: string
  pr_deny_list :: string
  pr_base_config :: "(string \<times> json) list"
  pr_releases :: "release_spec list"
  pr_game :: string
  pr_out :: string

definition and_then :: "'e + 'a \<Rightarrow> ('a \<Rightarrow> 'e + 'b) \<Rightarrow> 'e + 'b" where
  "and_then r f = (case r of Inl e \<Rightarrow> Inl e | Inr x \<Rightarrow> f x)"

lemma and_then_simps [simp]: "and_then (Inl e) f = Inl e" "and_then (Inr x) f = f x"
  by (simp_all add: and_then_def)

lemma and_then_Inr: "and_then r f = Inr y \<longleftrightarrow> (\<exists>x. r = Inr x \<and> f x = Inr y)"
  by (cases r) auto

definition need :: "string \<Rightarrow> string \<Rightarrow> 'a option \<Rightarrow> build_error + 'a" where
  "need event msg v = (case v of None \<Rightarrow> Inl (event, msg) | Some x \<Rightarrow> Inr x)"

definition check_that :: "bool \<Rightarrow> string \<Rightarrow> string \<Rightarrow> build_error + unit" where
  "check_that b event msg = (if b then Inr () else Inl (event, msg))"

lemma need_Inr [simp]: "need event msg v = Inr x \<longleftrightarrow> v = Some x"
  by (auto simp: need_def split: option.splits)

lemma check_that_Inr [simp]: "check_that b event msg = Inr u \<longleftrightarrow> b"
  by (simp add: check_that_def)

section \<open>Preparing\<close>

definition decode_config_map :: "string \<Rightarrow> (string \<times> json) list option" where
  "decode_config_map raw =
     (case unmarshal raw of Some (JObj ms) \<Rightarrow> Some ms | Some JNull \<Rightarrow> Some [] | _ \<Rightarrow> None)"

definition release_error_event :: "release_error \<Rightarrow> build_error" where
  "release_error_event r =
     (case r of
        OverlayMalformed n \<Rightarrow> (ev_start, ''a release overlay is not valid TOML'')
      | OverlayUnnamed n \<Rightarrow> (ev_start, ''a release overlay declares no release id'')
      | OverlayMisnamed n d \<Rightarrow> (ev_start, ''a release overlay's directory name must equal its release id'')
      | BadReleaseId n \<Rightarrow> (ev_identity_fail, ''a release id does not match the calver pattern'')
      | PatchWithoutPrevious n \<Rightarrow> (ev_identity_fail, ''a patch release must declare previous_release''))"

definition select_releases :: "string list \<Rightarrow> release_spec list \<Rightarrow> build_error + release_spec list" where
  "select_releases want specs =
     (if want = [] then Inr specs
      else let ss = filter (\<lambda>s. spec_release s \<in> set want) specs in
        if ss = [] then failed ev_start ''no release matched --release'' else Inr ss)"

definition prepare :: "pack_env \<Rightarrow> pack_config \<Rightarrow> pack_options \<Rightarrow> build_error + prepared" where
  "prepare env c opts =
     (let platform_name = (if op_platform opts = [] then default_platform c else op_platform opts);
          template = resolve_path c (ls_config (pc_launcher c)) in
      and_then (check_that (validate_config (pe_host env) c = []) ev_identity_fail ''the declaration is not valid'') (\<lambda>_.
      and_then (need ev_start ''pkgroot could not be resolved'' (pkg_root (pe_host env) c)) (\<lambda>root.
      and_then (need ev_start ''unknown platform'' (get (pc_platforms c) platform_name)) (\<lambda>platform.
      and_then (need ev_start ''no launcher binary'' (launcher_binary (pe_host env) c platform (op_launcher opts))) (\<lambda>binary.
      and_then (need ev_identity_fail ''the launcher binary does not print a bare semver''
                  (launcher_version (pe_version_output env binary))) (\<lambda>version.
      let deny = resolve_path c (ls_deny_list (pc_launcher c));
          config = (if template = [] then join_path (join_path root ''launcher'') ''launcher.config.json'' else template) in
      and_then (check_that (hf_dir (pe_host env) deny \<or> hf_file (pe_host env) deny) ev_start
                  ''the shared port deny list is missing'') (\<lambda>_.
      and_then (need ev_start ''launcher/launcher.config.json could not be read''
                  (Option.bind (pe_read env config) decode_config_map)) (\<lambda>base.
      and_then (map_sum release_error_event id (load_releases c (pe_releases env))) (\<lambda>specs.
      and_then (select_releases (op_releases opts) specs) (\<lambda>releases.
      Inr \<lparr>pr_root = root, pr_platform = platform, pr_binary = binary, pr_version = version, pr_deny_list = deny,
           pr_base_config = base, pr_releases = releases, pr_game = game_folder_name (pk_slug (pc_package c)),
           pr_out = (if op_out opts = [] then join_path (pc_dir c) ''dist'' else op_out opts)\<rparr>))))))))))"

section \<open>One release\<close>

definition manifest_rel :: string where "manifest_rel = ''game/release.manifest.json''"

definition set_exec :: "string \<Rightarrow> staging \<Rightarrow> staging" where
  "set_exec p s =
     (case get (sg_tree s) p of Some (NFile x c) \<Rightarrow> s\<lparr>sg_tree := put p (NFile True c) (sg_tree s)\<rparr> | _ \<Rightarrow> s)"

definition io_error :: build_error where "io_error = ([], ''io'')"

definition write_staged :: "pack_env \<Rightarrow> string \<Rightarrow> string \<Rightarrow> staging \<Rightarrow> build_error + staging" where
  "write_staged env p c s = need [] ''io'' (put_file (pe_writable env) p False c s)"

definition copy_staged :: "pack_env \<Rightarrow> string \<Rightarrow> string \<Rightarrow> string \<Rightarrow> staging \<Rightarrow> build_error + staging" where
  "copy_staged env src p msg s =
     need ev_start msg (Option.bind (pe_read env src) (\<lambda>c. put_file (pe_writable env) p False c s))"

text \<open>\<open>BuildDataSkeleton\<close>.\<close>

definition build_data_skeleton :: "pack_env \<Rightarrow> staging \<Rightarrow> build_error + staging" where
  "build_data_skeleton env s =
     and_then (need [] ''io''
        (Option.bind (with_dirs (pe_writable env) [''data'', ''data/saves''] s) (\<lambda>s.
         Option.bind (with_dirs (pe_writable env) [''data'', ''data/config''] s) (\<lambda>s.
         with_dirs (pe_writable env) [''data'', ''data/mods''] s))))
       (write_staged env ''data/.keep'' [])"

text \<open>The \<open>launcher/\<close> directory of a release.\<close>

definition launcher_config_doc :: "prepared \<Rightarrow> release_spec \<Rightarrow> (string \<times> json) list" where
  "launcher_config_doc pr sp = set_member ''release'' (JStr (spec_release sp)) (pr_base_config pr)"

definition assemble_launcher :: "pack_env \<Rightarrow> prepared \<Rightarrow> release_spec \<Rightarrow> staging \<Rightarrow> build_error + staging" where
  "assemble_launcher env pr sp s =
     (let binary = ''launcher/'' @ pf_binary (pr_platform pr) in
      and_then (need [] ''io'' (with_dirs (pe_writable env) [''launcher''] s)) (\<lambda>s.
      and_then (copy_staged env (pr_binary pr) binary ''the launcher binary could not be staged'' s) (\<lambda>s.
      and_then (copy_staged env (pr_deny_list pr) ''launcher/port-deny-list.json''
                  ''the port deny list could not be staged'' (set_exec binary s)) (\<lambda>s.
      and_then (write_staged env ''launcher/launcher.config.json'' (document_text (JObj (launcher_config_doc pr sp))) s) (\<lambda>s.
      write_staged env ''launcher/VERSION'' (pr_version pr @ [CHR 0x0A]) s)))))"

definition engine_json :: "engine_manifest \<Rightarrow> json" where
  "engine_json e = JObj [(''schema'', JStr (em_schema e)), (''release'', JStr (em_release e)),
     (''engine_version'', JStr (em_engine_version e)), (''wasm'', JStr (em_wasm e)), (''glue'', JStr (em_glue e)),
     (''save_version'', jnum (em_save_version e))]"

definition read_engine_manifest :: "tree \<Rightarrow> engine_manifest option" where
  "read_engine_manifest t =
     Option.bind (read_node t ''game/engine/engine.manifest.json'') (decode_document decode_engine_manifest)"

definition no_problems :: "problem list \<Rightarrow> build_error + unit" where
  "no_problems ps = check_that (ps = []) ev_scan_reject ''forbidden paths''"

definition schema_ok :: "pack_env \<Rightarrow> string \<Rightarrow> json \<Rightarrow> build_error + unit" where
  "schema_ok env name doc = check_that (pe_schema env name doc) ev_schema_fail ''a document does not satisfy its schema''"

definition schema_launcher_config :: string where "schema_launcher_config = ''launcher.config.schema.json''"
definition schema_engine_manifest :: string where "schema_engine_manifest = ''engine.manifest.schema.json''"
definition schema_asset_manifest :: string where "schema_asset_manifest = ''asset.manifest.schema.json''"
definition schema_release_manifest :: string where "schema_release_manifest = ''release.manifest.schema.json''"

record staged_release =
  st_engine :: engine_manifest
  st_index :: "file_entry list"
  st_total :: int
  st_stage :: staging

definition stage_release :: "pack_env \<Rightarrow> pack_config \<Rightarrow> prepared \<Rightarrow> release_spec \<Rightarrow> build_error + staged_release" where
  "stage_release env c pr sp =
     and_then (collect_tree (pe_writable env) (pe_game env)
                 (if sp_overlay sp = [] then None else Some (pe_overlay env (sp_overlay sp)))
                 \<lparr>sg_tree = [], sg_outside = []\<rparr>) (\<lambda>s.
     and_then (assemble_launcher env pr sp s) (\<lambda>s.
     and_then (build_data_skeleton env s) (\<lambda>s.
     and_then (no_problems (scan_forbidden (sg_tree s))) (\<lambda>_.
     and_then (need ev_identity_fail ''game/engine/engine.manifest.json is missing'' (read_engine_manifest (sg_tree s))) (\<lambda>eng.
     and_then (schema_ok env schema_launcher_config (JObj (launcher_config_doc pr sp))) (\<lambda>_.
     and_then (schema_ok env schema_engine_manifest (engine_json eng)) (\<lambda>_.
     and_then (check_that
        (check_identity (\<lambda>key. case get (sg_tree s) (join_path ''game'' key) of Some n \<Rightarrow> node_there n | None \<Rightarrow> False)
           \<lparr>ii_config = c, ii_spec = sp, ii_engine = eng, ii_launcher_config = launcher_config_doc pr sp,
            ii_launcher_ver = pr_version pr\<rparr> = []) ev_identity_fail ''identity checks failed'') (\<lambda>_.
     and_then (generate_asset_manifest (pe_writable env) (spec_release sp) (sp_generated sp) s) (\<lambda>(assets, s).
     and_then (schema_ok env schema_asset_manifest (asset_manifest_json assets)) (\<lambda>_.
     and_then (build_file_index (sg_tree s) manifest_rel) (\<lambda>(index, bytes).
     and_then (check_servable (sg_tree s)) (\<lambda>problems.
     and_then (no_problems problems) (\<lambda>_.
     and_then (schema_ok env schema_release_manifest (manifest_json (release_manifest_doc sp eng None index bytes))) (\<lambda>_.
     Inr \<lparr>st_engine = eng, st_index = index, st_total = bytes, st_stage = s\<rparr>))))))))))))))"

section \<open>The text that states its own archive's size\<close>

definition pad18 :: "int \<Rightarrow> string" where
  "pad18 n = (let t = fmt_int n in replicate (18 - length t) (CHR '' '') @ t)"

definition readme_head :: "string \<Rightarrow> string list" where
  "readme_head game =
     [game, game @ replicate (length game) (CHR ''=''), [],
      ''This is a Kobra game package. Extract it anywhere and run the launcher:'', [],
      ''  Linux:    chmod +x launcher/launcher && ./launcher/launcher'',
      ''  macOS:    ./launcher/launcher'',
      ''  Windows:  launcher'' @ backslash # ''launcher.exe'', [],
      ''Your progress is stored in the data folder beside this file. Copy the whole'',
      ''folder to move your saves. There is nothing to install and no account.'', [],
      ''SIZES'', ''-----'']"

definition readme_tail :: "string list" where
  "readme_tail =
     [''  (An update briefly needs room for two copies of game/.)'', [],
      ''FILESYSTEM NOTE'', ''---------------'',
      ''Some filesystems and older extractors cannot handle a file of 4 GiB or more.'',
      ''The sizes above are exact; check them against the device you are extracting to.'', []]"

definition size_lines :: "int \<Rightarrow> int \<Rightarrow> int \<Rightarrow> string list" where
  "size_lines download extracted recommended =
     [''  Download size (this archive): '' @ pad18 download @ '' bytes'',
      ''  Extracted size:               '' @ pad18 extracted @ '' bytes'',
      ''  Free space recommended:       '' @ pad18 recommended @ '' bytes'']"

definition readme_text :: "string \<Rightarrow> int \<Rightarrow> int \<Rightarrow> int \<Rightarrow> string" where
  "readme_text game download extracted recommended =
     join_on (CHR 0x0A) (readme_head game @ size_lines download extracted recommended @ readme_tail)"

definition readme_size :: "string \<Rightarrow> int" where
  "readme_size game = int (length (readme_text game 0 0 0))"

definition licence_notice :: string where
  "licence_notice = join_on (CHR 0x0A)
     [''This package embeds the Kobra launcher, which is MIT-licensed. The launcher's'',
      ''source, including its LICENSE, is at https://github.com/KobraRocks/kobra-game.'', [],
      ''THIRD_PARTY_NOTICES.md in this directory carries the full licence texts for every'',
      ''third-party component statically linked into launcher/launcher (BSD-3-Clause and'',
      ''Apache-2.0 code). Those notices are part of the distribution: keep this directory'',
      ''with the package when you redistribute it.'', []]"

definition build_extra_files :: "pack_env \<Rightarrow> string \<Rightarrow> int \<Rightarrow> int \<Rightarrow> int \<Rightarrow> staging \<Rightarrow> build_error + staging" where
  "build_extra_files env game download extracted recommended s =
     and_then (write_staged env ''LICENSES/README.txt'' licence_notice s) (\<lambda>s.
     and_then (write_staged env ''LICENSES/THIRD_PARTY_NOTICES.md'' (pe_notices env) s) (\<lambda>s.
     write_staged env ''README.txt'' (readme_text game download extracted recommended) s))"

text \<open>The passes over \<open>README.txt\<close> and the ZIP: whether they settled, the stage and the ZIP.\<close>

fun settle_sizes :: "pack_env \<Rightarrow> string \<Rightarrow> string \<Rightarrow> int \<Rightarrow> nat \<Rightarrow> int \<Rightarrow> staging \<Rightarrow> string
    \<Rightarrow> build_error + (bool \<times> staging \<times> string)" where
  "settle_sizes env game published extracted 0 download s zb = Inr (False, s, zb)"
| "settle_sizes env game published extracted (Suc n) download s zb =
     and_then (build_extra_files env game download extracted (wrap64 (extracted * 3)) s) (\<lambda>s.
     and_then (build_zip (pe_codec env) (sg_tree s) game published) (\<lambda>z.
     if int (length z) = download then Inr (True, s, z)
     else settle_sizes env game published extracted n (int (length z)) s z))"

section \<open>Publishing a release\<close>

definition publish :: "pack_env \<Rightarrow> string \<Rightarrow> string \<Rightarrow> dist \<Rightarrow> build_error + dist" where
  "publish env name bytes d = (if pe_publishable env name then Inr (put name bytes d) else Inl io_error)"

definition archive_base :: "pack_config \<Rightarrow> prepared \<Rightarrow> release_spec \<Rightarrow> string" where
  "archive_base c pr sp =
     pk_slug (pc_package c) @ ''-'' @ spec_release sp @ ''-'' @ pf_archive_platform (pr_platform pr)"

definition manifest_name :: "pack_config \<Rightarrow> release_spec \<Rightarrow> string" where
  "manifest_name c sp = pk_slug (pc_package c) @ ''-'' @ spec_release sp @ ''.release.manifest.json''"

definition build_release :: "pack_env \<Rightarrow> pack_config \<Rightarrow> prepared \<Rightarrow> release_spec \<Rightarrow> dist \<Rightarrow> build_error + dist" where
  "build_release env c pr sp d =
     (let tar_name = archive_base c pr sp @ ''.tar.zst''; zip_name = archive_base c pr sp @ ''.zip'' in
      and_then (stage_release env c pr sp) (\<lambda>st.
      and_then (build_update_archive (pe_codec env) (sg_tree (st_stage st)) manifest_rel (sp_generated sp)) (\<lambda>tar.
      and_then (publish env tar_name tar d) (\<lambda>d.
      let archive = \<lparr>ar_name = tar_name, ar_url = tar_name, ar_size = int (length tar), ar_hash = content_hash tar,
                     ar_format = ''tar.zst''\<rparr>;
          doc = release_manifest_doc sp (st_engine st) (Some archive) (st_index st) (st_total st) in
      and_then (need ev_manifest_gen ''release.manifest.json could not be written''
                  (put_file (pe_writable env) manifest_rel False (document_text (manifest_json doc)) (st_stage st))) (\<lambda>s.
      and_then (schema_ok env schema_release_manifest (manifest_json doc)) (\<lambda>_.
      and_then (check_servable (sg_tree s)) (\<lambda>problems.
      and_then (no_problems problems) (\<lambda>_.
      let extracted = wrap64 (st_total st + file_size (sg_tree s) manifest_rel + readme_size (pr_game pr)
                              + int (length licence_notice) + int (length (pe_notices env))) in
      and_then (settle_sizes env (pr_game pr) (sp_generated sp) extracted 8 0 s []) (\<lambda>(settled, s, zb).
      and_then (publish env zip_name zb d) (\<lambda>d.
      and_then (need ev_publish ''the release manifest could not be published'' (read_node (sg_tree s) manifest_rel)) (\<lambda>m.
      publish env (manifest_name c sp) m d)))))))))))"

definition published_names :: "pack_config \<Rightarrow> prepared \<Rightarrow> release_spec \<Rightarrow> string list" where
  "published_names c pr sp =
     [archive_base c pr sp @ ''.zip'', archive_base c pr sp @ ''.tar.zst'', manifest_name c sp]"

fun build_releases :: "pack_env \<Rightarrow> pack_config \<Rightarrow> prepared \<Rightarrow> release_spec list \<Rightarrow> dist \<Rightarrow> build_error + dist" where
  "build_releases env c pr [] d = Inr d"
| "build_releases env c pr (sp # sps) d =
     and_then (build_release env c pr sp d) (build_releases env c pr sps)"

text \<open>\<open>signSums\<close>: no key or no gpg skips the signature, a failing gpg fails the build.\<close>

definition sign_sums :: "pack_env \<Rightarrow> pack_config \<Rightarrow> dist \<Rightarrow> build_error + dist" where
  "sign_sums env c d =
     (if pb_gpg_key (pc_publish c) = [] then Inr d
      else case pe_gpg env of
        None \<Rightarrow> Inr d
      | Some sign \<Rightarrow>
          (case Option.bind (get d sums_name) sign of
             None \<Rightarrow> Inl (''pack.sign'', ''SHA256SUMS could not be signed'')
           | Some sig \<Rightarrow> Inr (put ''SHA256SUMS.sig'' sig d)))"

record pack_result =
  re_releases :: "string list"
  re_published :: "string list"
  re_install :: string

text \<open>\<open>Run\<close>: the published directory and the result.\<close>

definition run :: "pack_env \<Rightarrow> pack_config \<Rightarrow> pack_options \<Rightarrow> dist \<Rightarrow> build_error + (pack_result \<times> dist)" where
  "run env c opts d =
     and_then (prepare env c opts) (\<lambda>pr.
     and_then (build_releases env c pr (pr_releases pr) d) (\<lambda>d.
     let names = concat (map (published_names c pr) (pr_releases pr)) @ [latest_name];
         lst = last (pr_releases pr);
         latest = \<lparr>lt_release = spec_release lst, lt_manifest_url = manifest_name c lst, lt_notes_url = sp_notes_url lst\<rparr> in
     and_then (check_that (pe_publishable env latest_name) [] ''io'') (\<lambda>_.
     and_then (write_sums names (write_latest latest d)) (\<lambda>d.
     and_then (check_that (pe_publishable env sums_name) [] ''io'') (\<lambda>_.
     and_then (if op_sign opts then sign_sums env c d else Inr d) (\<lambda>d.
     and_then (case verify_output (pe_codec env) d names of None \<Rightarrow> Inr () | Some r \<Rightarrow> Inl (ev_verify_fail, r)) (\<lambda>_.
     and_then
       (if op_install opts
        then (case fst (extract_zip (pe_codec env) (pe_writable env) (join_path (pr_out pr) ''install'')
                          (get d (archive_base c pr (hd (pr_releases pr)) @ ''.zip''))) of
                Inl r \<Rightarrow> failed ev_publish ''the built package could not be extracted''
              | Inr root \<Rightarrow> Inr root)
        else Inr []) (\<lambda>root.
     Inr (\<lparr>re_releases = map spec_release (pr_releases pr), re_published = names, re_install = root\<rparr>, d)))))))))"

text \<open>\<open>Check\<close>: every gate that needs no archive, for every selected release.\<close>

fun check_releases :: "pack_env \<Rightarrow> pack_config \<Rightarrow> prepared \<Rightarrow> release_spec list \<Rightarrow> build_error + unit" where
  "check_releases env c pr [] = Inr ()"
| "check_releases env c pr (sp # sps) = and_then (stage_release env c pr sp) (\<lambda>_. check_releases env c pr sps)"

definition check :: "pack_env \<Rightarrow> pack_config \<Rightarrow> pack_options \<Rightarrow> build_error + unit" where
  "check env c opts = and_then (prepare env c opts) (\<lambda>pr. check_releases env c pr (pr_releases pr))"

section \<open>The development folder\<close>

record dev_shim =
  ds_dir :: string
  ds_game_target :: string
  ds_launcher :: string
  ds_data_dir :: string
  ds_tree :: tree

definition dev_shim_dir_name :: string where "dev_shim_dir_name = ''.kobra-dev''"

text \<open>\<open>DevShim\<close>: the throwaway game folder, built in an emptied directory.\<close>

definition dev_shim :: "pack_env \<Rightarrow> pack_config \<Rightarrow> pack_options \<Rightarrow> string \<Rightarrow> build_error + dev_shim" where
  "dev_shim env c opts saves_dir =
     and_then (prepare env c opts) (\<lambda>pr.
     let dir = join_path (pc_dir c) dev_shim_dir_name;
         binary = ''launcher/'' @ pf_binary (pr_platform pr);
         newest = last (pr_releases pr) in
     and_then (need [] ''io'' (with_dirs (pe_writable env) [''launcher''] \<lparr>sg_tree = [], sg_outside = []\<rparr>)) (\<lambda>s.
     and_then (copy_staged env (pr_binary pr) binary ''the launcher binary could not be staged for dev'' s) (\<lambda>s.
     and_then (copy_staged env (pr_deny_list pr) ''launcher/port-deny-list.json''
                 ''the port deny list could not be staged for dev'' (set_exec binary s)) (\<lambda>s.
     and_then (write_staged env ''launcher/VERSION'' (pr_version pr @ [CHR 0x0A]) s) (\<lambda>s.
     and_then (write_staged env ''launcher/launcher.config.json'' (document_text (JObj (launcher_config_doc pr newest))) s) (\<lambda>s.
     and_then (check_that (pe_game env \<noteq> None) ev_start ''pkgroot has no game/ directory to serve'') (\<lambda>_.
     and_then (check_that (pe_writable env ''game'') ev_start ''the shim's game/ symlink could not be created'') (\<lambda>_.
     let s = s\<lparr>sg_tree := put ''game'' (NLink (join_path (pr_root pr) ''game'') None) (sg_tree s)\<rparr> in
     and_then (if saves_dir = [] then need [] ''io'' (with_dirs (pe_writable env) [''data''] s) else Inr s) (\<lambda>s.
     Inr \<lparr>ds_dir = dir, ds_game_target = join_path (pr_root pr) ''game'', ds_launcher = join_path dir binary,
          ds_data_dir = saves_dir, ds_tree = sg_tree s\<rparr>)))))))))"

end
