(* ===== verification/Pack_Laws.thy ===== *)
theory Pack_Laws
  imports Pack_Run
begin

text \<open>
  What the packager guarantees to the launcher it packages for: every archive it builds is the one
  its manifest describes, no gate of the launcher refuses what the gates of the packager let
  through, and both order releases and versions alike.
\<close>

section \<open>The index and the archive\<close>

definition entry_of :: "tar_member \<Rightarrow> file_entry" where
  "entry_of m = \<lparr>fe_path = th_name (fst m), fe_size = th_size (fst m), fe_hash = content_hash (snd m),
     fe_mode = (if th_mode (fst m) = 493 then ''755'' else ''644'')\<rparr>"

lemma entry_of_simps:
  "fe_path (entry_of m) = th_name (fst m)" "fe_size (entry_of m) = th_size (fst m)"
  "fe_hash (entry_of m) = content_hash (snd m)" "fe_path \<circ> entry_of = th_name \<circ> fst"
  by (simp_all add: entry_of_def fun_eq_iff)

lemma node_bytes_there: "node_bytes n = Some c \<Longrightarrow> node_there n"
  by (auto simp: node_bytes_def node_there_def split: node.splits option.splits)

lemma update_entry_index:
  "update_entry t k = Some m \<longleftrightarrow> index_entry t k = Some (entry_of m) \<and> th_name (fst m) = k
     \<and> th_flag (fst m) = CHR ''0'' \<and> th_size (fst m) = int (length (snd m)) \<and> read_node t k = Some (snd m)
     \<and> th_mode (fst m) = exec_mode (node_exec (the (get t k)))"
proof (cases "get t k")
  case None
  then show ?thesis by (simp add: update_entry_def read_node_def index_entry_def hash_file_def)
next
  case (Some n)
  show ?thesis
  proof (cases "node_bytes n")
    case None
    with Some show ?thesis by (simp add: update_entry_def read_node_def index_entry_def hash_file_def)
  next
    case c: (Some c)
    note there = node_bytes_there [OF c]
    show ?thesis
      using Some c there
      by (cases m; cases "fst m")
        (auto simp: update_entry_def read_node_def index_entry_def hash_file_def entry_of_def mode_string_def exec_mode_def)
  qed
qed

lemma index_update_None: "index_entry t k = None \<longleftrightarrow> update_entry t k = None"
  by (cases "get t k") (auto simp: update_entry_def read_node_def index_entry_def hash_file_def split: option.splits)

lemma index_entries_update:
  "index_entries t ks = Inr es \<Longrightarrow> \<exists>ms. update_entries t ks = Inr ms \<and> es = map entry_of ms
     \<and> map (th_name \<circ> fst) ms = ks \<and> (\<forall>m \<in> set ms. update_entry t (th_name (fst m)) = Some m)"
proof (induction ks arbitrary: es)
  case Nil
  then show ?case by simp
next
  case (Cons k ks)
  obtain m where m: "update_entry t k = Some m" "index_entry t k = Some (entry_of m)"
    using Cons.prems index_update_None [of t k] update_entry_index [of t k]
    by (fastforce split: option.splits simp: failed_def)
  obtain es' where es: "index_entries t ks = Inr es'" "es = entry_of m # es'"
    using Cons.prems m by (cases "index_entries t ks") (auto simp: failed_def)
  from Cons.IH [OF es(1)] show ?case
    using m es(2) update_entry_index [of t k m] by auto
qed

section \<open>The shape of a stage\<close>

text \<open>Paths are distinct, and what lies above an entry is a directory.\<close>

definition tree_ok :: "tree \<Rightarrow> bool" where
  "tree_ok t \<longleftrightarrow> wf_map t \<and> (\<forall>q n. get t q = Some n \<longrightarrow> (\<forall>a \<in> set (parent_chain q). get t a = Some NDir))"

definition staged_ok :: "staging \<Rightarrow> bool" where
  "staged_ok s = tree_ok (sg_tree s)"

lemma dir_chain_Nil: "dir_chain [] ([] # ss) = [] # dir_chain [] ss"
  by simp

lemma dir_chain_joins:
  "ps \<noteq> [] \<Longrightarrow> join_on slash ps \<noteq> [] \<Longrightarrow>
     dir_chain (join_on slash ps) ss = map (\<lambda>i. join_on slash (ps @ take (Suc i) ss)) [0..<length ss]"
proof (induction ss arbitrary: ps)
  case (Cons s ss)
  have j: "join_on slash ps @ slash # s = join_on slash (ps @ [s])"
    using Cons.prems(1) by (induction slash ps rule: join_on.induct) auto
  have "dir_chain (join_on slash (ps @ [s])) ss = map (\<lambda>i. join_on slash ((ps @ [s]) @ take (Suc i) ss)) [0..<length ss]"
    using Cons.IH [of "ps @ [s]"] by (simp flip: j)
  then show ?case
    using Cons.prems(2) by (simp add: j upt_conv_Cons del: upt_Suc flip: map_Suc_upt)
qed simp

lemma dir_chain_takes:
  assumes "s \<noteq> []"
  shows "dir_chain [] (s # ss) = map (\<lambda>i. join_on slash (take (Suc i) (s # ss))) [0..<Suc (length ss)]"
  using dir_chain_joins [of "[s]" ss] assms
  by (simp add: upt_conv_Cons del: upt_Suc flip: map_Suc_upt)

lemma chain_parents:
  "list_all (\<lambda>s. slash \<notin> set s) ss \<Longrightarrow> i < length (dir_chain [] ss) \<Longrightarrow>
     set (parent_chain (dir_chain [] ss ! i)) \<subseteq> set (take i (dir_chain [] ss))"
proof (induction ss arbitrary: i)
  case (Cons s ss)
  show ?case
  proof (cases "s = []")
    case True
    show ?thesis
    proof (cases i)
      case 0
      then show ?thesis by (simp add: True parent_chain_def)
    next
      case (Suc j)
      with Cons.IH [of j] Cons.prems True show ?thesis by auto
    qed
  next
    case False
    let ?c = "map (\<lambda>i. join_on slash (take (Suc i) (s # ss))) [0..<Suc (length ss)]"
    note e = dir_chain_takes [OF False, of ss]
    have i: "i < Suc (length ss)" using Cons.prems(2) unfolding e by simp
    have "split_on slash (join_on slash (take (Suc i) (s # ss))) = take (Suc i) (s # ss)"
      using Cons.prems(1) by (intro split_join_on) (auto simp: list_all_iff dest: in_set_takeD)
    then have "parent_chain (?c ! i) = dir_chain [] (take i (s # ss))"
      using i by (simp add: parent_chain_def butlast_take del: take_Suc_Cons upt_Suc)
    also have "\<dots> = take i ?c"
    proof (cases i)
      case (Suc j)
      then show ?thesis
        using i dir_chain_takes [OF False, of "take j ss"]
        by (simp add: take_map min_def del: upt_Suc)
    qed simp
    finally show ?thesis unfolding e by simp
  qed
qed simp

lemma make_dirs_ok:
  assumes "make_dirs w ps t = Some t'" and "tree_ok t" and "\<forall>a \<in> D. get t a = Some NDir"
    and "\<And>i. i < length ps \<Longrightarrow> set (parent_chain (ps ! i)) \<subseteq> D \<union> set (take i ps)"
  shows "tree_ok t' \<and> (\<forall>a \<in> D \<union> set ps. get t' a = Some NDir)
    \<and> (\<forall>q n. get t' q = Some n \<longrightarrow> n \<noteq> NDir \<longrightarrow> get t q = Some n)"
  using assms
proof (induction ps arbitrary: t D)
  case (Cons p ps)
  obtain t1 where t1: "make_dirs w ps t1 = Some t'" "t1 = t \<and> get t p = Some NDir \<or> t1 = put p NDir t \<and> get t p = None"
    using Cons.prems(1) by (auto split: option.splits node.splits if_splits)
  have pc: "set (parent_chain p) \<subseteq> D" using Cons.prems(4) [of 0] by simp
  have "tree_ok t1 \<and> (\<forall>a \<in> insert p D. get t1 a = Some NDir)"
    using t1(2)
  proof
    assume "t1 = put p NDir t \<and> get t p = None"
    then show ?thesis using Cons.prems(2,3) pc by (auto simp: tree_ok_def split: if_splits)
  qed (use Cons.prems(2,3) in auto)
  moreover have "set (parent_chain (ps ! i)) \<subseteq> insert p D \<union> set (take i ps)" if "i < length ps" for i
    using Cons.prems(4) [of "Suc i"] that by auto
  ultimately have "tree_ok t' \<and> (\<forall>a \<in> insert p D \<union> set ps. get t' a = Some NDir)
      \<and> (\<forall>q n. get t' q = Some n \<longrightarrow> n \<noteq> NDir \<longrightarrow> get t1 q = Some n)"
    using Cons.IH [OF t1(1), of "insert p D"] by blast
  moreover have "get t q = Some n" if "get t1 q = Some n" "n \<noteq> NDir" for q n
    using that t1(2) by (auto split: if_splits)
  ultimately show ?case by auto
qed simp

lemma with_dirs_ok:
  assumes "with_dirs w (dir_chain [] ss) s = Some s'" and "staged_ok s" and "list_all (\<lambda>s. slash \<notin> set s) ss"
  shows "staged_ok s'" "\<forall>a \<in> set (dir_chain [] ss). get (sg_tree s') a = Some NDir"
    "\<And>q n. get (sg_tree s') q = Some n \<Longrightarrow> n \<noteq> NDir \<Longrightarrow> get (sg_tree s) q = Some n"
  using assms make_dirs_ok [of w "dir_chain [] ss" "sg_tree s" _ "{}"] chain_parents [OF assms(3)]
  by (auto simp: with_dirs_def staged_ok_def)

lemma no_slash_split: "list_all (\<lambda>s. slash \<notin> set s) (split_on slash p)"
  using split_on_no_sep by (auto simp: list_all_iff)

lemma no_slash_butlast: "list_all (\<lambda>s. slash \<notin> set s) (butlast (split_on slash p))"
  using split_on_no_sep by (auto simp: list_all_iff dest: in_set_butlastD)

lemma tree_ok_put:
  assumes "tree_ok t" and "get t p \<noteq> Some NDir" and "\<forall>a \<in> set (parent_chain p). get t a = Some NDir"
  shows "tree_ok (put p n t)"
proof -
  have "get (put p n t) a = Some NDir" if "get t a = Some NDir" for a
    using that assms(2) by auto
  then show ?thesis using assms by (auto simp: tree_ok_def split: if_splits)
qed

lemma write_node_ok:
  assumes "write_node w p x c s = Some s'" and "staged_ok s" and "\<forall>a \<in> set (parent_chain p). get (sg_tree s) a = Some NDir"
  shows "staged_ok s'" "\<And>q n. get (sg_tree s') q = Some n \<Longrightarrow> n \<noteq> NDir \<Longrightarrow> q = p \<or> get (sg_tree s) q = Some n"
  using assms
  by (auto simp: write_node_def staged_ok_def intro!: tree_ok_put split: if_splits option.splits node.splits)

lemma put_file_ok:
  assumes "put_file w p x c s = Some s'" and "staged_ok s"
  shows "staged_ok s'" "\<And>q n. get (sg_tree s') q = Some n \<Longrightarrow> n \<noteq> NDir \<Longrightarrow> q = p \<or> get (sg_tree s) q = Some n"
proof -
  obtain s1 where s1: "with_dirs w (parent_chain p) s = Some s1" "write_node w p x c s1 = Some s'"
    using assms(1) by (auto simp: put_file_def bind_eq_Some_conv)
  note d = with_dirs_ok [OF s1(1) [unfolded parent_chain_def] assms(2) no_slash_butlast, folded parent_chain_def]
  note f = write_node_ok [OF s1(2) d(1,2)]
  show "staged_ok s'" by (rule f(1))
  show "\<And>q n. get (sg_tree s') q = Some n \<Longrightarrow> n \<noteq> NDir \<Longrightarrow> q = p \<or> get (sg_tree s) q = Some n"
    using f(2) d(3) by blast
qed

lemma ok_copy_entry:
  assumes "copy_entry w p n s = Some s'" and "staged_ok s"
  shows "staged_ok s'"
proof (cases n)
  case NDir
  with assms show ?thesis by (auto simp: copy_entry_def intro: with_dirs_ok(1) [OF _ _ no_slash_split])
next
  case (NLink l r)
  then obtain s1 where s1: "with_dirs w (parent_chain p) s = Some s1" "get (sg_tree s1) p = None"
      "s' = s1\<lparr>sg_tree := put p (NLink l r) (sg_tree s1)\<rparr>"
    using assms(1) by (auto simp: copy_entry_def bind_eq_Some_conv split: if_splits)
  note d = with_dirs_ok [OF s1(1) [unfolded parent_chain_def] assms(2) no_slash_butlast, folded parent_chain_def]
  show ?thesis using s1(2,3) d(1,2) by (auto simp: staged_ok_def intro!: tree_ok_put)
qed (use assms in \<open>auto simp: copy_entry_def split: option.splits intro: put_file_ok(1)\<close>)

lemma ok_copy_entries: "copy_entries w target es s = Some s' \<Longrightarrow> staged_ok s \<Longrightarrow> staged_ok s'"
  by (induction w target es s rule: copy_entries.induct) (auto simp: bind_eq_Some_conv dest: ok_copy_entry)

lemma ok_apply_overlay: "apply_overlay w ov rels s = Inr s' \<Longrightarrow> staged_ok s \<Longrightarrow> staged_ok s'"
proof (induction w ov rels s rule: apply_overlay.induct)
  case (2 w ov rel rels s)
  obtain s1 x c s2 where s1: "with_dirs w (parent_chain rel) s = Some s1" "write_node w rel x c s1 = Some s2"
      "apply_overlay w ov rels s2 = Inr s'" and c: "Option.bind (read_node ov rel)
                  (\<lambda>c. write_node w rel (case get ov rel of Some n \<Rightarrow> node_exec n | None \<Rightarrow> False) c s1) = Some s2"
    using "2.prems"(1) by (auto simp: failed_def bind_eq_Some_conv split: option.splits)
  note d = with_dirs_ok [OF s1(1) [unfolded parent_chain_def] "2.prems"(2) no_slash_butlast, folded parent_chain_def]
  show ?case using "2.IH" [OF s1(1) c s1(3)] write_node_ok(1) [OF s1(2) d(1,2)] by blast
qed simp

lemma ok_copy_tree: "copy_tree w src target s = Some s' \<Longrightarrow> staged_ok s \<Longrightarrow> staged_ok s'"
  by (auto simp: copy_tree_def bind_eq_Some_conv dest: with_dirs_ok(1) [OF _ _ no_slash_split] ok_copy_entries)

lemma ok_collect_tree: "collect_tree w game ov s = Inr s' \<Longrightarrow> staged_ok s \<Longrightarrow> staged_ok s'"
  by (auto simp: collect_tree_def failed_def split: option.splits dest: ok_copy_tree ok_apply_overlay)

lemma ok_set_exec: "staged_ok s \<Longrightarrow> staged_ok (set_exec p s)"
  by (auto simp: set_exec_def staged_ok_def tree_ok_def split: option.splits node.splits)

lemma ok_write_staged: "write_staged env p c s = Inr s' \<Longrightarrow> staged_ok s \<Longrightarrow> staged_ok s'"
  by (auto simp: write_staged_def dest: put_file_ok(1))

lemma ok_copy_staged: "copy_staged env src p msg s = Inr s' \<Longrightarrow> staged_ok s \<Longrightarrow> staged_ok s'"
  by (auto simp: copy_staged_def bind_eq_Some_conv dest: put_file_ok(1))

lemma skeleton_dirs:
  assumes "with_dirs w ps s = Some s'" and "staged_ok s"
    and "ps \<in> {[''launcher''], [''data'', ''data/saves''], [''data'', ''data/config''], [''data'', ''data/mods'']}"
  shows "staged_ok s'"
proof -
  have "\<exists>ss. ps = dir_chain [] ss \<and> list_all (\<lambda>s. slash \<notin> set s) ss"
    using assms(3)
    by (elim insertE emptyE)
      (auto simp: slash_def intro: exI [of _ "[''launcher'']"] exI [of _ "[''data'', ''saves'']"]
        exI [of _ "[''data'', ''config'']"] exI [of _ "[''data'', ''mods'']"])
  with assms(1,2) with_dirs_ok(1) show ?thesis by blast
qed

lemma ok_assemble_launcher: "assemble_launcher env pr sp s = Inr s' \<Longrightarrow> staged_ok s \<Longrightarrow> staged_ok s'"
  by (auto simp: assemble_launcher_def Let_def and_then_Inr
    dest!: skeleton_dirs ok_write_staged ok_copy_staged intro: ok_set_exec)

lemma ok_data_skeleton: "build_data_skeleton env s = Inr s' \<Longrightarrow> staged_ok s \<Longrightarrow> staged_ok s'"
  by (auto simp: build_data_skeleton_def and_then_Inr bind_eq_Some_conv dest!: ok_write_staged skeleton_dirs)

section \<open>Keys\<close>

lemma file_at_in: "r \<in> set (file_at d e) \<longleftrightarrow> snd e \<noteq> NDir \<and> fst e = d @ slash # r"
  by (auto simp: file_at_def below_def prefix_def)

lemma file_at_single: "file_at d e = [] \<or> (\<exists>r. file_at d e = [r] \<and> fst e = d @ slash # r)"
  by (auto simp: file_at_def below_def prefix_def split: option.splits)

lemma distinct_files_at: "distinct (map fst t) \<Longrightarrow> distinct (concat (map (file_at d) t))"
proof (induction t)
  case (Cons e t)
  have "set (file_at d e) \<inter> set (concat (map (file_at d) t)) = {}"
    using Cons.prems by (fastforce simp: file_at_in image_iff)
  moreover have "distinct (file_at d e)" using file_at_single [of d e] by auto
  ultimately show ?case using Cons by simp
qed simp

lemma namespace_key_in:
  "k \<in> set (namespace_keys mr t ns) \<longleftrightarrow>
     is_dir t ns \<and> k \<noteq> mr \<and> (\<exists>r n. k = ns @ slash # r \<and> n \<noteq> NDir \<and> (k, n) \<in> set t)"
proof (cases "is_dir t ns")
  case True
  then have "rel_files t ns = Some (sort (concat (map (file_at ns) t)))" by (simp add: rel_files_def is_dir_def)
  with True have "k \<in> set (namespace_keys mr t ns) \<longleftrightarrow>
      k \<noteq> mr \<and> (\<exists>r e. e \<in> set t \<and> snd e \<noteq> NDir \<and> fst e = ns @ slash # r \<and> k = ns @ slash # r)"
    by (force simp: namespace_keys_def file_at_in image_iff)
  with True show ?thesis by (metis fst_conv prod.collapse snd_conv)
qed (simp add: namespace_keys_def)

lemma distinct_namespace_keys:
  assumes "wf_map t"
  shows "distinct (namespace_keys mr t ns)"
proof (cases "is_dir t ns")
  case True
  then have "rel_files t ns = Some (sort (concat (map (file_at ns) t)))" by (simp add: rel_files_def is_dir_def)
  moreover have "distinct (concat (map (file_at ns) t))"
    using assms by (intro distinct_files_at) (simp add: wf_map_def)
  ultimately show ?thesis
    using True by (simp add: namespace_keys_def distinct_map inj_on_def)
qed (simp add: namespace_keys_def)

definition release_keys :: "tree \<Rightarrow> string list" where
  "release_keys t = concat (map (namespace_keys manifest_rel t) namespaces)"

lemma release_key_in:
  assumes "wf_map t" and "k \<in> set (release_keys t)"
  obtains ns r n where "ns \<in> {''game'', ''launcher''}" "k = ns @ slash # r" "get t k = Some n" "n \<noteq> NDir" "k \<noteq> manifest_rel"
  using assms get_in [OF assms(1)] by (fastforce simp: release_keys_def namespaces_def namespace_key_in)

lemma distinct_release_keys: "wf_map t \<Longrightarrow> distinct (release_keys t)"
  using distinct_namespace_keys [of t manifest_rel]
  by (fastforce simp: release_keys_def namespaces_def namespace_key_in)

section \<open>What passes the gates of both sides\<close>

text \<open>
  The pattern of an indexed path in the schema of the release manifest, with its lookaheads taken
  out: letters, digits, dots, dashes and underscores between slashes.
\<close>

definition safe_char :: "char \<Rightarrow> bool" where
  "safe_char c = (is_digit c \<or> lower_digit (to_lower_ascii c) \<or> c \<in> set ''._-'')"

definition index_path_re :: "string \<Rightarrow> bool" where
  "index_path_re p =
     (case split_on slash p of
        ns # segs \<Rightarrow> (ns = ''game'' \<or> ns = ''launcher'') \<and> segs \<noteq> [] \<and> list_all (\<lambda>s. s \<noteq> [] \<and> list_all safe_char s) segs
      | [] \<Rightarrow> False)"

lemma safe_char_simps: "safe_char c \<Longrightarrow> c \<notin> set reserved_chars \<and> c \<noteq> CHR '' '' \<and> c \<noteq> CHR 0x00 \<and> c \<noteq> backslash"
proof -
  have "list_all (\<lambda>c. \<not> safe_char c) (backslash # CHR '' '' # CHR 0x00 # reserved_chars)" by code_simp
  then show "safe_char c \<Longrightarrow> ?thesis" by (auto simp: list_all_iff)
qed

lemma stem_hd: "(case index_byte s dot of None \<Rightarrow> s | Some i \<Rightarrow> take i s) = hd (split_on dot s)"
proof (induction s)
  case (Cons c s)
  obtain f fs where "split_on dot s = f # fs" by (metis list.exhaust split_on_not_Nil)
  with Cons show ?case by (auto split: option.splits)
qed simp

lemma pack_devices: "set pack_device_names = set device_names"
proof -
  have "list_all (\<lambda>d. d \<in> set device_names) pack_device_names" "list_all (\<lambda>d. d \<in> set pack_device_names) device_names"
    by code_simp+
  then show ?thesis by (auto simp: list_all_iff)
qed

lemma clean_segment:
  assumes "segment_problems rel seg = []" and "seg \<noteq> []" and "seg \<noteq> [dot]" and "seg \<noteq> [dot, dot]"
    and "list_all (\<lambda>c. c \<notin> set reserved_chars) seg"
  shows "bad_segment seg = None"
proof -
  have t: "trim_right_by dot_or_space seg = seg" and d: "map to_upper_ascii (hd (split_on dot seg)) \<notin> set device_names"
    using assms(1) by (auto simp: segment_problems_def pack_devices split: if_splits)
  have "\<not> is_reserved_component seg"
    using d assms(2) by (simp add: is_reserved_component_def t Let_def stem_hd)
  moreover have "\<not> suffix [dot] seg" "\<not> suffix '' '' seg"
  proof -
    have "\<not> dot_or_space (last seg)"
    proof
      assume "dot_or_space (last seg)"
      then have "length (trim_right_by dot_or_space seg) < length seg"
        using assms(2) length_dropWhile_le [of dot_or_space "tl (rev seg)"]
        by (cases seg rule: rev_cases) (simp_all add: trim_right_by_def le_imp_less_Suc)
      with t show False by simp
    qed
    then show "\<not> suffix [dot] seg" "\<not> suffix '' '' seg" by (auto simp: dot_or_space_def suffix_def)
  qed
  moreover have "\<not> list_ex (\<lambda>c. c \<in> set reserved_chars) seg" using assms(5) by (auto simp: list_all_iff list_ex_iff)
  ultimately show ?thesis using assms(2-4) by (simp add: bad_segment_def)
qed

lemma rel_path_facts:
  assumes "check_rel_path p allowed = None"
  shows "p \<noteq> []" "CHR 0x00 \<notin> set p" "backslash \<notin> set p" "\<not> rooted p" "\<not> (2 \<le> length p \<and> p ! 1 = CHR '':'')" "clean p = p"
    "list_all (\<lambda>s. s \<noteq> [] \<and> s \<noteq> [dot] \<and> s \<noteq> [dot, dot]) (split_on slash p)"
  using assms by (auto simp: check_rel_path_def find_None_iff list_all_iff split: if_splits option.splits)

lemma packaged_entry_accepted:
  assumes "check_rel_path k allowed = None" and "index_path_re k" and "concat (map (segment_problems k) (split_on slash k)) = []"
    and "th_name h = k" and "th_flag h = CHR ''0''"
  shows "check_entry h = Inr (k, KindRegular)"
proof -
  note f = rel_path_facts [OF assms(1)]
  obtain ns segs where sp: "split_on slash k = ns # segs" and ns: "ns = ''game'' \<or> ns = ''launcher''"
    and sg: "segs \<noteq> []" "list_all (\<lambda>s. s \<noteq> [] \<and> list_all safe_char s) segs"
    using assms(2) by (auto simp: index_path_re_def split: list.splits)
  have k: "k = ns @ slash # join_on slash segs"
    using join_split_on [of slash k] sg(1) by (cases segs) (simp_all add: sp)
  have r: "list_all (\<lambda>c. c \<notin> set reserved_chars) s" if "s \<in> set (split_on slash k)" for s
  proof (cases "s = ns")
    case True
    then show ?thesis using ns by (auto simp: reserved_chars_def)
  next
    case False
    then show ?thesis using that sg(2) safe_char_simps by (auto simp: sp list_all_iff)
  qed
  have "first_bad (split_on slash k) = None"
    using assms(3) f(7) r by (auto simp: first_bad_None list_all_iff intro!: clean_segment [of k])
  moreover have "\<not> equal_fold (hd (split_on slash k)) data_dir_name"
    using ns by (auto simp: sp equal_fold_def data_dir_name_def to_lower_ascii_def)
  moreover have "k \<noteq> [dot]" "k \<noteq> [slash]" "k \<noteq> [dot, dot]" "\<not> prefix [dot, dot, slash] k"
    using k ns by (auto simp: dot_def slash_def)
  ultimately show ?thesis
    using f assms(4,5) by (simp add: check_entry_def Let_def)
qed

section \<open>The documents are read as they are written\<close>

definition int64 :: "int \<Rightarrow> bool" where
  "int64 i \<longleftrightarrow> int64_min \<le> i \<and> i \<le> int64_max"

lemma parse_int64_text: "int64 i \<Longrightarrow> parse_int64 (fmt_int i) = Some i"
  unfolding int64_def by (intro parse_fmt_int) auto

lemma decode_file_json:
  assumes "int64 (fe_size f)"
  shows "as_struct decode_file (as_read (file_json f)) = Some f"
  using parse_int64_text [OF assms]
  by (simp add: file_json_def jnum_def map_of_members_def as_struct_def decode_file_def Json_Fields.field_defs
      named_simps to_lower_ascii_def)

lemma decode_archive_json:
  assumes "int64 (ar_size a)"
  shows "as_struct decode_archive (as_read (archive_json a)) = Some a"
  using parse_int64_text [OF assms]
  by (simp add: archive_json_def jnum_def map_of_members_def as_struct_def decode_archive_def Json_Fields.field_defs
      named_simps to_lower_ascii_def)

definition manifest_fits :: "pack_manifest \<Rightarrow> bool" where
  "manifest_fits m \<longleftrightarrow> int64 (pm_save_version m) \<and> int64 (pm_total_size m) \<and> list_all (\<lambda>f. int64 (fe_size f)) (pm_files m)
     \<and> (case pm_archive m of None \<Rightarrow> True | Some a \<Rightarrow> int64 (ar_size a)) \<and> pm_migrations m = []"

text \<open>What the launcher reads from a manifest of the packager.\<close>

definition launcher_manifest :: "pack_manifest \<Rightarrow> manifest" where
  "launcher_manifest m =
     \<lparr>mf_schema = pm_schema m, mf_release = pm_release m, mf_previous = pm_previous m, mf_published = pm_published m,
      mf_launcher_min = pm_launcher_min m, mf_engine_version = pm_engine_version m, mf_save_version = pm_save_version m,
      mf_channel = pm_channel m, mf_scope = pm_scope m, mf_total_size = pm_total_size m, mf_files = pm_files m,
      mf_migrations = [], mf_schema_migrations = [], mf_min_browser = None, mf_signatures = None,
      mf_notes = pm_notes m, mf_notes_url = pm_notes_url m, mf_archive = pm_archive m, mf_archive_sha256 = [],
      mf_raw = []\<rparr>"

lemma files_list:
  assumes "list_all (\<lambda>f. int64 (fe_size f)) fs"
  shows "as_list (as_struct decode_file) (JArr (map (as_read \<circ> file_json) fs)) = Some fs"
  using assms conv_all_map [of fs "as_struct decode_file" "as_read \<circ> file_json"]
  by (simp add: as_list_def decode_file_json list_all_iff)

lemma manifest_literals: "pm_migrations m = [] \<Longrightarrow> literals_ok (JObj (manifest_members m))"
  by (cases "pm_archive m"; cases "pm_previous m")
    (simp_all add: manifest_members_def jnum_def file_json_def archive_json_def opt_str_def list_all_iff)

text \<open>The members of one name; every name occurs once at most.\<close>

lemma named_append: "named n (xs @ ys) = named n xs @ named n ys"
  by (simp add: named_def)

definition read_members :: "(string \<times> json) list \<Rightarrow> members" where
  "read_members ms = map (\<lambda>(k, v). (k, as_read v, indented v 1)) ms"

lemma read_members_simps:
  "read_members [] = []" "read_members ((k, v) # ms) = (k, as_read v, indented v 1) # read_members ms"
  "read_members (xs @ ys) = read_members xs @ read_members ys"
  by (simp_all add: read_members_def)

definition opt_member :: "string \<Rightarrow> (json \<times> string) list" where
  "opt_member v = (if v = [] then [] else [(JStr v, encode_string v)])"

lemma named_opt_str:
  "named n (read_members (opt_str k v)) = (if map to_lower_ascii k = n then opt_member v else [])"
  by (simp add: opt_str_def opt_member_def read_members_def named_simps)

definition archive_member :: "archive_ref option \<Rightarrow> (json \<times> string) list" where
  "archive_member ao = (case ao of None \<Rightarrow> [] | Some a \<Rightarrow> [(as_read (archive_json a), indented (archive_json a) 1)])"

lemma named_archive:
  "named n (read_members (case ao of None \<Rightarrow> [] | Some a \<Rightarrow> [(''archive'', archive_json a)]))
     = (if n = ''archive'' then archive_member ao else [])"
  by (cases ao) (auto simp: archive_member_def read_members_def named_simps to_lower_ascii_def)

lemmas manifest_named_defs = manifest_members_def read_members_simps named_simps named_append named_opt_str named_archive
  to_lower_ascii_def

lemma manifest_named:
  "named ''schema'' (read_members (manifest_members m)) = [(JStr (pm_schema m), encode_string (pm_schema m))]"
  "named ''release'' (read_members (manifest_members m)) = [(JStr (pm_release m), encode_string (pm_release m))]"
  "map fst (named ''previous_release'' (read_members (manifest_members m)))
     = [case pm_previous m of None \<Rightarrow> JNull | Some p \<Rightarrow> JStr p]"
  "named ''published'' (read_members (manifest_members m)) = [(JStr (pm_published m), encode_string (pm_published m))]"
  "named ''launcher_min'' (read_members (manifest_members m)) = [(JStr (pm_launcher_min m), encode_string (pm_launcher_min m))]"
  "named ''engine_version'' (read_members (manifest_members m)) = [(JStr (pm_engine_version m), encode_string (pm_engine_version m))]"
  "named ''save_version'' (read_members (manifest_members m)) = [(jnum (pm_save_version m), fmt_int (pm_save_version m))]"
  "named ''game_version'' (read_members (manifest_members m)) = [(JStr (pm_game_version m), encode_string (pm_game_version m))]"
  "named ''channel'' (read_members (manifest_members m)) = [(JStr (pm_channel m), encode_string (pm_channel m))]"
  "named ''scope'' (read_members (manifest_members m)) = [(JStr (pm_scope m), encode_string (pm_scope m))]"
  "named ''total_size'' (read_members (manifest_members m)) = [(jnum (pm_total_size m), fmt_int (pm_total_size m))]"
  "named ''archive'' (read_members (manifest_members m)) = archive_member (pm_archive m)"
  "map fst (named ''files'' (read_members (manifest_members m))) = [JArr (map (as_read \<circ> file_json) (pm_files m))]"
  "map fst (named ''migrations'' (read_members (manifest_members m))) = [JArr (map as_read (pm_migrations m))]"
  "named ''notes'' (read_members (manifest_members m)) = opt_member (pm_notes m)"
  "named ''release_notes_url'' (read_members (manifest_members m)) = opt_member (pm_notes_url m)"
  "named ''schema_migrations'' (read_members (manifest_members m)) = []"
  "named ''min_browser'' (read_members (manifest_members m)) = []"
  "named ''signatures'' (read_members (manifest_members m)) = []"
  "named ''archive_sha256'' (read_members (manifest_members m)) = []"
  by (simp_all add: manifest_named_defs jnum_def split: option.split)

lemma opt_member_fields:
  "named n ms = opt_member v \<Longrightarrow> str_field n ms = Some v"
  by (simp add: opt_member_def Json_Fields.field_defs split: if_splits)

lemma one_member_fields:
  "named n ms = [(JStr v, r)] \<Longrightarrow> str_field n ms = Some v"
  "named n ms = [(jnum i, r)] \<Longrightarrow> int64 i \<Longrightarrow> int_field n ms = Some i"
  by (simp_all add: Json_Fields.field_defs jnum_def parse_int64_text)

lemma none_member_fields:
  "named n ms = [] \<Longrightarrow> str_field n ms = Some []" "named n ms = [] \<Longrightarrow> ptr_field f n ms = Some None"
  "named n ms = [] \<Longrightarrow> list_field g n ms = Some []"
  by (simp_all add: Json_Fields.field_defs)

lemma previous_field:
  "map fst (named n ms) = [case p of None \<Rightarrow> JNull | Some q \<Rightarrow> JStr q] \<Longrightarrow> ptr_field as_string n ms = Some p"
  by (cases p) (simp_all add: ptr_field_def typed_field_def last_opt_def as_string_def)

lemma array_field:
  "map fst (named n ms) = [JArr vs] \<Longrightarrow> as_list f (JArr vs) = Some xs \<Longrightarrow> list_field f n ms = Some xs"
  by (simp add: list_field_def ptr_field_def typed_field_def last_opt_def)

lemma archive_field:
  assumes "named n ms = archive_member ao" and "case ao of None \<Rightarrow> True | Some a \<Rightarrow> int64 (ar_size a)"
  shows "ptr_field (as_struct decode_archive) n ms = Some ao"
proof (cases ao)
  case None
  with assms show ?thesis by (simp add: archive_member_def none_member_fields)
next
  case (Some a)
  have "as_read (archive_json a) \<noteq> JNull" by (simp add: archive_json_def)
  with Some assms decode_archive_json [of a] show ?thesis
    by (simp add: archive_member_def ptr_field_def typed_field_def last_opt_def)
qed

lemma manifest_fields:
  fixes m defines "ms \<equiv> read_members (manifest_members m)"
  assumes "manifest_fits m"
  shows "str_field ''schema'' ms = Some (pm_schema m)" "str_field ''release'' ms = Some (pm_release m)"
    "ptr_field as_string ''previous_release'' ms = Some (pm_previous m)" "str_field ''published'' ms = Some (pm_published m)"
    "str_field ''launcher_min'' ms = Some (pm_launcher_min m)" "str_field ''engine_version'' ms = Some (pm_engine_version m)"
    "int_field ''save_version'' ms = Some (pm_save_version m)" "str_field ''game_version'' ms = Some (pm_game_version m)"
    "str_field ''channel'' ms = Some (pm_channel m)" "str_field ''scope'' ms = Some (pm_scope m)"
    "int_field ''total_size'' ms = Some (pm_total_size m)"
    "ptr_field (as_struct decode_archive) ''archive'' ms = Some (pm_archive m)"
    "list_field (as_struct decode_file) ''files'' ms = Some (pm_files m)"
    "list_field (as_struct decode_migration) ''migrations'' ms = Some []" "list_field Some ''migrations'' ms = Some []"
    "str_field ''notes'' ms = Some (pm_notes m)" "str_field ''release_notes_url'' ms = Some (pm_notes_url m)"
    "list_field (as_struct decode_schema_migration) ''schema_migrations'' ms = Some []"
    "ptr_field (as_struct decode_min_browser) ''min_browser'' ms = Some None"
    "ptr_field (as_struct decode_signatures) ''signatures'' ms = Some None" "str_field ''archive_sha256'' ms = Some []"
proof -
  have mg: "map fst (named ''migrations'' ms) = [JArr []]"
    using assms(2) manifest_named(14) [of m] by (simp add: ms_def manifest_fits_def)
  show "list_field (as_struct decode_migration) ''migrations'' ms = Some []" "list_field Some ''migrations'' ms = Some []"
    by (rule array_field [OF mg], simp add: as_list_def)+
  show "list_field (as_struct decode_file) ''files'' ms = Some (pm_files m)"
    using assms(2) unfolding ms_def by (intro array_field [OF manifest_named(13)] files_list) (simp add: manifest_fits_def)
  show "ptr_field (as_struct decode_archive) ''archive'' ms = Some (pm_archive m)"
    using assms(2) unfolding ms_def by (intro archive_field [OF manifest_named(12)]) (simp add: manifest_fits_def)
  show "int_field ''save_version'' ms = Some (pm_save_version m)" "int_field ''total_size'' ms = Some (pm_total_size m)"
    using assms(2) unfolding ms_def
    by (auto intro!: one_member_fields(2) [OF manifest_named(7)] one_member_fields(2) [OF manifest_named(11)]
        simp: manifest_fits_def)
  show "ptr_field as_string ''previous_release'' ms = Some (pm_previous m)"
    unfolding ms_def by (rule previous_field [OF manifest_named(3)])
  show "str_field ''schema'' ms = Some (pm_schema m)" "str_field ''release'' ms = Some (pm_release m)"
    "str_field ''published'' ms = Some (pm_published m)" "str_field ''launcher_min'' ms = Some (pm_launcher_min m)"
    "str_field ''engine_version'' ms = Some (pm_engine_version m)" "str_field ''game_version'' ms = Some (pm_game_version m)"
    "str_field ''channel'' ms = Some (pm_channel m)" "str_field ''scope'' ms = Some (pm_scope m)"
    unfolding ms_def by (rule one_member_fields(1), rule manifest_named)+
  show "str_field ''notes'' ms = Some (pm_notes m)" "str_field ''release_notes_url'' ms = Some (pm_notes_url m)"
    unfolding ms_def by (rule opt_member_fields, rule manifest_named)+
  show "list_field (as_struct decode_schema_migration) ''schema_migrations'' ms = Some []"
    "ptr_field (as_struct decode_min_browser) ''min_browser'' ms = Some None"
    "ptr_field (as_struct decode_signatures) ''signatures'' ms = Some None" "str_field ''archive_sha256'' ms = Some []"
    unfolding ms_def by (rule none_member_fields, rule manifest_named)+
qed

lemma manifest_document:
  assumes "manifest_fits m"
  shows "decode_document dec (document_text (manifest_json m)) = dec (read_members (manifest_members m))"
  using decode_document_text [OF manifest_literals, of m dec] assms
  by (simp add: manifest_json_def read_members_def manifest_fits_def)

lemma launcher_reads_manifest:
  "manifest_fits m \<Longrightarrow> decode_document decode_manifest (document_text (manifest_json m)) = Some (launcher_manifest m)"
  by (simp add: manifest_document manifest_fields decode_manifest_def launcher_manifest_def)

lemma packager_reads_manifest:
  "manifest_fits m \<Longrightarrow> decode_document decode_pack_manifest (document_text (manifest_json m)) = Some m"
  by (cases m) (simp add: manifest_document manifest_fields decode_pack_manifest_def, simp add: manifest_fits_def)

section \<open>What the scan leaves\<close>

definition unwanted_dir :: "string \<Rightarrow> bool" where
  "unwanted_dir s \<longleftrightarrow> s \<in> set vcs_dirs \<or> s \<in> set editor_junk"

lemma skipped_alt: "skipped p = list_ex unwanted_dir (butlast (split_on slash p))"
  by (simp add: skipped_def unwanted_dir_def [abs_def])

lemma first_unwanted:
  assumes "list_ex unwanted_dir ss" and "list_all (\<lambda>s. slash \<notin> set s) ss" and "\<not> list_ex unwanted_dir (split_on slash pre)"
  shows "\<exists>a \<in> set (dir_chain pre ss). unwanted_dir (base_name a) \<and> \<not> skipped a"
  using assms
proof (induction ss arbitrary: pre)
  case (Cons s ss)
  define p where "p = (if pre = [] then s else pre @ slash # s)"
  have sp: "split_on slash p = (if pre = [] then [s] else split_on slash pre @ [s])"
    using Cons.prems(2) by (simp add: p_def split_on_single split_on_app_sep)
  show ?case
  proof (cases "unwanted_dir s")
    case True
    then have "unwanted_dir (base_name p) \<and> \<not> skipped p"
      using Cons.prems(3) by (simp add: base_name_def skipped_alt sp split: if_splits)
    then show ?thesis by (auto simp: Let_def p_def)
  next
    case False
    then have "\<not> list_ex unwanted_dir (split_on slash p)" using Cons.prems(3) by (simp add: sp)
    then have "\<exists>a \<in> set (dir_chain p ss). unwanted_dir (base_name a) \<and> \<not> skipped a"
      using Cons.IH [of p] Cons.prems(1,2) False by simp
    then show ?thesis by (auto simp: Let_def p_def)
  qed
qed simp

lemma scan_none:
  assumes "scan_forbidden t = []" and "(q, n) \<in> set t" and "\<not> skipped q"
  shows "node_problems q n = []"
proof -
  have "concat (map (\<lambda>(p, n). if skipped p then [] else node_problems p n) (sort_key fst t)) = []"
    using assms(1) by (simp add: scan_forbidden_def flip: length_0_conv)
  with assms(2,3) show ?thesis by (fastforce simp: concat_eq_Nil_conv)
qed

lemma scan_enters:
  assumes "scan_forbidden t = []" and "tree_ok t" and "get t q = Some n"
  shows "\<not> skipped q"
proof
  assume "skipped q"
  moreover have "\<not> list_ex unwanted_dir (split_on slash [])"
    by (simp add: unwanted_dir_def vcs_dirs_def editor_junk_def)
  ultimately obtain a where a: "a \<in> set (parent_chain q)" "unwanted_dir (base_name a)" "\<not> skipped a"
    using first_unwanted [of "butlast (split_on slash q)" "[]"] no_slash_butlast [of q]
    by (auto simp: skipped_alt parent_chain_def)
  then have "get t a = Some NDir" using assms(2,3) by (auto simp: tree_ok_def)
  then have "node_problems a NDir = []" using scan_none [OF assms(1) get_Some_in a(3)] by blast
  with a(2) show False by (simp add: node_problems_def unwanted_dir_def split: if_splits)
qed

lemma scan_segments:
  assumes "scan_forbidden t = []" and "tree_ok t" and "get t q = Some n" and "n \<noteq> NDir"
  shows "concat (map (segment_problems q) (split_on slash q)) = []" "\<And>l r. n \<noteq> NLink l r"
proof -
  have "node_problems q n = []" using scan_none [OF assms(1) get_Some_in scan_enters] assms by blast
  then have "(case n of NLink l r \<Rightarrow> False | _ \<Rightarrow> file_problems q = [])"
    using assms(4) by (simp add: node_problems_def split: node.splits)
  then show "concat (map (segment_problems q) (split_on slash q)) = []" "\<And>l r. n \<noteq> NLink l r"
    using assms(4) by (auto simp: file_problems_def Let_def split: node.splits)
qed

section \<open>A staged release\<close>

lemma int_field_range: "int_field n ms = Some v \<Longrightarrow> int64 v"
proof -
  assume a: "int_field n ms = Some v"
  then obtain x where x: "typed_field as_int n ms = Some x" "v = (case x of None \<Rightarrow> 0 | Some i \<Rightarrow> i)"
    by (auto simp: int_field_def)
  show "int64 v"
  proof (cases x)
    case None
    with x show ?thesis by (simp add: int64_def int64_min_def int64_max_def)
  next
    case (Some i)
    with x obtain j where "as_int j = Some i"
      by (auto simp: typed_field_def Let_def bind_eq_Some_conv split: if_splits)
    then obtain l where "parse_int64 l = Some i" by (cases j) (simp_all add: as_int_def)
    then show ?thesis using x(2) Some parse_int64_range [of l i] by (simp add: int64_def)
  qed
qed

lemma decode_engine_version: "decode_engine_manifest ms = Some e \<Longrightarrow> int_field ''save_version'' ms = Some (em_save_version e)"
  unfolding decode_engine_manifest_def by (simp split: option.splits prod.splits) (erule subst, simp)

lemma engine_save_version: "read_engine_manifest t = Some e \<Longrightarrow> int64 (em_save_version e)"
  by (auto simp: read_engine_manifest_def decode_document_def bind_eq_Some_conv
    dest!: decode_engine_version intro: int_field_range split: if_splits)

lemma asset_path_clean: "concat (map (segment_problems asset_manifest_path) (split_on slash asset_manifest_path)) = []"
  by code_simp

lemma generate_asset_manifest_put:
  "generate_asset_manifest w r g s = Inr (m, s') \<Longrightarrow> \<exists>c. put_file w asset_manifest_path False c s = Some s'"
  by (auto simp: generate_asset_manifest_def failed_def Let_def split: option.splits sum.splits)

lemma staged_release_facts:
  assumes "stage_release env c pr sp = Inr st"
  shows "tree_ok (sg_tree (st_stage st))"
    "build_file_index (sg_tree (st_stage st)) manifest_rel = Inr (st_index st, st_total st)"
    "pe_schema env schema_release_manifest (manifest_json (release_manifest_doc sp (st_engine st) None (st_index st) (st_total st)))"
    "int64 (em_save_version (st_engine st))"
    "\<And>q n. get (sg_tree (st_stage st)) q = Some n \<Longrightarrow> n \<noteq> NDir \<Longrightarrow>
       concat (map (segment_problems q) (split_on slash q)) = []"
proof -
  obtain s1 s2 s3 eng assets s4 index bytes problems where
    s: "collect_tree (pe_writable env) (pe_game env)
          (if sp_overlay sp = [] then None else Some (pe_overlay env (sp_overlay sp))) \<lparr>sg_tree = [], sg_outside = []\<rparr> = Inr s1"
      "assemble_launcher env pr sp s1 = Inr s2" "build_data_skeleton env s2 = Inr s3" "scan_forbidden (sg_tree s3) = []"
      "read_engine_manifest (sg_tree s3) = Some eng"
      "generate_asset_manifest (pe_writable env) (spec_release sp) (sp_generated sp) s3 = Inr (assets, s4)"
      "build_file_index (sg_tree s4) manifest_rel = Inr (index, bytes)"
      "pe_schema env schema_release_manifest (manifest_json (release_manifest_doc sp eng None index bytes))"
      "st = \<lparr>st_engine = eng, st_index = index, st_total = bytes, st_stage = s4\<rparr>"
    using assms
    by (auto simp: stage_release_def and_then_Inr no_problems_def schema_ok_def split: prod.splits)
  have "staged_ok \<lparr>sg_tree = [], sg_outside = []\<rparr>" by (simp add: staged_ok_def tree_ok_def wf_map_def)
  then have ok3: "staged_ok s3"
    using ok_collect_tree [OF s(1)] ok_assemble_launcher [OF s(2)] ok_data_skeleton [OF s(3)] by blast
  obtain b where b: "put_file (pe_writable env) asset_manifest_path False b s3 = Some s4"
    using generate_asset_manifest_put [OF s(6)] by blast
  note f = put_file_ok [OF b ok3]
  show "tree_ok (sg_tree (st_stage st))" using f(1) s(9) by (simp add: staged_ok_def)
  show "concat (map (segment_problems q) (split_on slash q)) = []"
    if "get (sg_tree (st_stage st)) q = Some n" "n \<noteq> NDir" for q n
    using f(2) [of q n] that s(9) scan_segments(1) [OF s(4)] ok3 asset_path_clean by (auto simp: staged_ok_def)
  show "build_file_index (sg_tree (st_stage st)) manifest_rel = Inr (st_index st, st_total st)"
    "pe_schema env schema_release_manifest (manifest_json (release_manifest_doc sp (st_engine st) None (st_index st) (st_total st)))"
    "int64 (em_save_version (st_engine st))"
    using s engine_save_version [OF s(5)] by simp_all
qed

section \<open>The launcher accepts what the packager builds\<close>

text \<open>
  Two things the packager relies on: the schema validator applies the pattern of indexed paths, and
  an archive that was written is read back.
\<close>

definition index_pattern_enforced :: "pack_env \<Rightarrow> bool" where
  "index_pattern_enforced env \<longleftrightarrow>
     (\<forall>m. pe_schema env schema_release_manifest (manifest_json m) \<longrightarrow> list_all (\<lambda>f. index_path_re (fe_path f)) (pm_files m))"

definition codec_reads_back :: "codec \<Rightarrow> bool" where
  "codec_reads_back c \<longleftrightarrow> (\<forall>time ms. cd_untar c (cd_tar c time ms) = Some (ms, True))"

lemma get_fold_put:
  "distinct (map key fs) \<Longrightarrow> f \<in> set fs \<Longrightarrow> get (fold (\<lambda>f. put (key f) f) fs m0) (key f) = Some f"
  by (induction fs rule: rev_induct) (auto simp: image_iff)

lemma first_refusal_None: "first_refusal ps = None \<Longrightarrow> list_all (\<lambda>p. check_rel_path p rel_path_prefixes = None) ps"
  by (induction ps) (auto split: option.splits if_splits)

lemma safe_index: "check_file_index ps = None \<Longrightarrow> p \<in> set ps \<Longrightarrow> check_rel_path p rel_path_prefixes = None"
  using first_refusal_None [of "sort ps"] by (auto simp: check_file_index_def list_all_iff)

lemma walk_all_members:
  assumes "\<forall>m \<in> set ms. check_entry (fst m) = Inr (th_name (fst m), KindRegular) \<and> th_name (fst m) \<noteq> []
    \<and> (\<forall>s. verify_member index (th_name (fst m)) KindRegular m s = (None, wrap64 (s + th_size (fst m))))"
  shows "walk_archive (verify_member index) True ms (wrap64 n) = (None, wrap64 (n + sum_list (map (th_size \<circ> fst) ms)))"
  using assms by (induction ms arbitrary: n) (simp_all add: wrap64_add add.assoc)

lemma match_all_members:
  assumes "\<forall>m \<in> set ms. th_flag (fst m) = CHR ''0'' \<and> th_size (fst m) = int (length (snd m))
    \<and> get index (th_name (fst m)) = Some (entry_of m)"
  shows "tar_members_match index True ms seen = Inr (rev (map (th_name \<circ> fst) ms) @ seen)"
  using assms by (induction ms arbitrary: seen) (auto simp: entry_of_def)

definition archive_ref_of :: "string \<Rightarrow> string \<Rightarrow> archive_ref" where
  "archive_ref_of name tar =
     \<lparr>ar_name = name, ar_url = name, ar_size = int (length tar), ar_hash = content_hash tar, ar_format = ''tar.zst''\<rparr>"

lemma built_archive:
  assumes "stage_release env c pr sp = Inr st" and "index_pattern_enforced env" and "codec_reads_back (pe_codec env)"
    and "build_update_archive (pe_codec env) (sg_tree (st_stage st)) manifest_rel time = Inr tar"
  obtains ms where "cd_untar (pe_codec env) tar = Some (ms, True)" "st_index st = map entry_of ms"
    "st_total st = wrap64 (sum_list (map (th_size \<circ> fst) ms))" "distinct (map (th_name \<circ> fst) ms)"
    "\<forall>m \<in> set ms. th_flag (fst m) = CHR ''0'' \<and> th_size (fst m) = int (length (snd m))
       \<and> check_entry (fst m) = Inr (th_name (fst m), KindRegular) \<and> clean (th_name (fst m)) = th_name (fst m)
       \<and> th_name (fst m) \<noteq> []"
proof -
  let ?t = "sg_tree (st_stage st)"
  note f = staged_release_facts [OF assms(1)]
  obtain ms where ie: "index_entries ?t (release_keys ?t) = Inr (st_index st)" and ue: "update_entries ?t (release_keys ?t) = Inr ms"
    and si: "st_index st = map entry_of ms" and names: "map (th_name \<circ> fst) ms = release_keys ?t"
    and mem: "\<forall>m \<in> set ms. update_entry ?t (th_name (fst m)) = Some m"
    and safe: "check_file_index (map fe_path (st_index st)) = None" and total: "st_total st = wrap64 (sum_list (map fe_size (st_index st)))"
    using f(2) index_entries_update [of ?t "release_keys ?t"]
    by (auto simp: build_file_index_def release_keys_def failed_def split: sum.splits option.splits)
  have tar: "cd_untar (pe_codec env) tar = Some (ms, True)"
    using assms(3,4) ue by (auto simp: build_update_archive_def release_keys_def codec_reads_back_def)
  have "map fe_size (st_index st) = map (th_size \<circ> fst) ms" by (simp add: si entry_of_def comp_def)
  then have tot: "st_total st = wrap64 (sum_list (map (th_size \<circ> fst) ms))" by (simp add: total)
  have wf: "wf_map ?t" using f(1) by (simp add: tree_ok_def)
  have dist: "distinct (map (th_name \<circ> fst) ms)" using distinct_release_keys [OF wf] by (simp add: names)
  have pat: "list_all (\<lambda>f. index_path_re (fe_path f)) (st_index st)"
    using assms(2) f(3) by (auto simp: index_pattern_enforced_def release_manifest_doc_def Let_def)
  have "th_flag (fst m) = CHR ''0'' \<and> th_size (fst m) = int (length (snd m))
       \<and> check_entry (fst m) = Inr (th_name (fst m), KindRegular) \<and> clean (th_name (fst m)) = th_name (fst m)
       \<and> th_name (fst m) \<noteq> []" if "m \<in> set ms" for m
  proof -
    let ?k = "th_name (fst m)"
    have u: "update_entry ?t ?k = Some m" using mem that by blast
    have "?k \<in> set (map fe_path (st_index st))" using that by (auto simp: si entry_of_def)
    then have rel: "check_rel_path ?k rel_path_prefixes = None" by (rule safe_index [OF safe])
    have re: "index_path_re ?k" using pat that by (auto simp: si entry_of_def list_all_iff)
    have "?k \<in> set (release_keys ?t)" using that by (auto simp flip: names)
    then obtain n where n: "get ?t ?k = Some n" "n \<noteq> NDir" using release_key_in [OF wf] by metis
    have "check_entry (fst m) = Inr (?k, KindRegular)"
      using packaged_entry_accepted [OF rel re f(5) [OF n], of "fst m"] u update_entry_index [of ?t ?k m] by simp
    with u update_entry_index [of ?t ?k m] rel_path_facts(1,6) [OF rel] show ?thesis by simp
  qed
  with tar si tot dist that show thesis by blast
qed

text \<open>
  C3: A release the packager builds is one the launcher accepts. When \<open>stageRelease\<close> lets a release
  through, the update archive \<open>BuildUpdateArchive\<close> writes and the manifest \<open>Run\<close> publishes with it
  pass \<open>VerifyOutput\<close>'s comparison with the index in both directions; and the launcher, reading that
  manifest from its JSON, finds nothing to object to in \<open>Verify\<close>: every member is safe by the
  launcher's own rules, listed, of the declared size and hash, and the total is right. The archive
  formats must read back what they wrote and the schema validator must apply the path pattern of the
  index; sizes are within \<open>int64\<close>.
\<close>

theorem packaged_release_verifies:
  assumes "stage_release env c pr sp = Inr st"
    and "build_update_archive (pe_codec env) (sg_tree (st_stage st)) manifest_rel time = Inr tar"
    and "codec_reads_back (pe_codec env)" and "index_pattern_enforced env"
    and "int64 (int (length tar))" and "list_all (\<lambda>f. int64 (fe_size f)) (st_index st)"
  shows "let doc = release_manifest_doc sp (st_engine st) (Some (archive_ref_of name tar)) (st_index st) (st_total st) in
    verify_tar_index (pe_codec env) (Some tar) doc = None
    \<and> (\<exists>ms m. cd_untar (pe_codec env) tar = Some (ms, True)
         \<and> decode_document decode_manifest (document_text (manifest_json doc)) = Some m
         \<and> verify verifier \<lparr>af_bytes = Some tar, af_members = ms, af_clean_end = True\<rparr> (Some m)
             = (None, [''update.verify.ok'']))"
proof -
  define doc where "doc = release_manifest_doc sp (st_engine st) (Some (archive_ref_of name tar)) (st_index st) (st_total st)"
  obtain ms where ms: "cd_untar (pe_codec env) tar = Some (ms, True)" "st_index st = map entry_of ms"
    "st_total st = wrap64 (sum_list (map (th_size \<circ> fst) ms))" "distinct (map (th_name \<circ> fst) ms)"
    and m: "\<forall>m \<in> set ms. th_flag (fst m) = CHR ''0'' \<and> th_size (fst m) = int (length (snd m))
       \<and> check_entry (fst m) = Inr (th_name (fst m), KindRegular) \<and> clean (th_name (fst m)) = th_name (fst m)
       \<and> th_name (fst m) \<noteq> []"
    by (rule built_archive [OF assms(1,4,3,2)])
  have files: "pm_files doc = map entry_of ms" and total: "pm_total_size doc = wrap64 (sum_list (map (th_size \<circ> fst) ms))"
    and archive: "pm_archive doc = Some (archive_ref_of name tar)"
    by (simp_all add: doc_def release_manifest_doc_def Let_def ms)
  have "get (index_of doc) (th_name (fst x)) = Some (entry_of x)" if "x \<in> set ms" for x
    using get_fold_put [of fe_path "map entry_of ms" "entry_of x" "[]"] that ms(4)
    by (simp add: index_of_def files entry_of_simps)
  then have "tar_members_match (index_of doc) True ms [] = Inr (rev (map (th_name \<circ> fst) ms) @ [])"
    using m by (intro match_all_members) blast
  then have pack: "verify_tar_index (pe_codec env) (Some tar) doc = None"
    by (simp add: verify_tar_index_def ms(1) files list_all_iff entry_of_def)
  have key: "map (\<lambda>f. clean (fe_path f)) (map entry_of ms) = map (th_name \<circ> fst) ms"
    using m by (simp add: entry_of_simps)
  have ix: "get (index_files (pm_files doc)) (th_name (fst x)) = Some (entry_of x)" if "x \<in> set ms" for x
    using get_fold_put [of "\<lambda>f. clean (fe_path f)" "map entry_of ms" "entry_of x" "[]"] that ms(4) m
    unfolding key by (simp add: index_files_def files entry_of_simps)
  have "verify_member (index_files (pm_files doc)) (th_name (fst x)) KindRegular x s = (None, wrap64 (s + th_size (fst x)))"
    if "x \<in> set ms" for x s
    using ix [OF that] m that
    by (cases x) (auto simp: verify_member_def Let_def entry_of_def hash_matches_content)
  then have walk: "walk_archive (verify_member (index_files (pm_files doc))) True ms (wrap64 0) = (None, pm_total_size doc)"
    using walk_all_members [of ms "index_files (pm_files doc)" 0] m by (simp add: total)
  have "int64 (wrap64 i)" for i by (simp add: int64_def wrap64_def int64_min_def int64_max_def)
  then have fits: "manifest_fits doc"
    using assms(5,6) staged_release_facts(4) [OF assms(1)]
    by (simp add: manifest_fits_def doc_def release_manifest_doc_def Let_def archive_ref_of_def ms(3))
  have "wrap64 0 = 0" by (simp add: wrap64_def)
  then have "verify verifier \<lparr>af_bytes = Some tar, af_members = ms, af_clean_end = True\<rparr> (Some (launcher_manifest doc))
      = (None, [''update.verify.ok''])"
    using walk
    by (simp add: verify_def declares_signature_def declared_archive_size_def declared_archive_hash_def launcher_manifest_def
        archive archive_ref_of_def hash_matches_content) (simp add: content_hash_def)
  with pack launcher_reads_manifest [OF fits] ms(1) show ?thesis
    by (simp add: Let_def flip: doc_def)
qed

end
