(* ===== verification/Pack_Rules.thy ===== *)
theory Pack_Rules
  imports Pack_Laws
begin

text \<open>
  Rules of the packager on their own: the order of releases and versions is the launcher's, the sizes
  a package states about itself are right after two passes, and a package that is unpacked stays in
  its directory.
\<close>

section \<open>The order of releases and versions\<close>

lemma release_re_valid: "release_re s = valid_release s"
  by (auto simp: release_re_def valid_release_def Let_def digits_def numeral_3_eq_3 length_Suc_conv split: list.splits)

lemma atoi_digits: "digits p \<Longrightarrow> int (nat_of_digits 0 p) \<le> int64_max \<Longrightarrow> atoi p = int (nat_of_digits 0 p)"
  by (simp add: atoi_def digits_def parse_int64_digits)

lemma atoi_huge: "digits p \<Longrightarrow> int64_max < int (nat_of_digits 0 p) \<Longrightarrow> atoi p = int64_max"
proof -
  assume p: "digits p" "int64_max < int (nat_of_digits 0 p)"
  then obtain c cs where c: "p = c # cs" "is_digit c" by (cases p) (auto simp: digits_def)
  then have "\<not> prefix ''-'' p" "\<not> prefix ''+'' p" using is_digit_sign [of c] by auto
  with p show ?thesis by (simp add: atoi_def digits_def parse_int64_digits parse_digits_def)
qed

lemma release_of_parts:
  assumes "release_of s = Some (Release y m n)"
  obtains a b c where "split_on dot s = [a, b, c]" "atoi a = int y" "atoi b = int m" "atoi c = int n"
proof -
  have v: "valid_release s" using assms by (simp add: release_of_def split: if_splits)
  obtain a b c where p: "split_on dot s = [a, b, c]" "length a = 4" "length b = 2"
    "list_all is_digit a" "list_all is_digit b" "list_all is_digit c" "c \<noteq> []"
    using valid_release_version [OF v] by metis
  have ymn: "y = nat_of_digits 0 a" "m = nat_of_digits 0 b" "n = nat_of_digits 0 c" "int n \<le> int64_max"
    using assms v p(1) by (auto simp: release_of_def split: if_splits)
  have ne: "a \<noteq> []" "b \<noteq> []" using p by auto
  have "int (nat_of_digits 0 a) \<le> int64_max" "int (nat_of_digits 0 b) \<le> int64_max"
    using nat_of_digits_bound [OF p(4), of 0] nat_of_digits_bound [OF p(5), of 0] p(2,3) by (simp_all add: int64_max_def)
  with ymn ne p that show thesis by (auto simp: atoi_digits digits_def)
qed

text \<open>
  C22: Packager and launcher order releases alike. \<open>compareReleases\<close>, by which the packager sorts the
  releases it builds and chooses the one \<open>latest.json\<close> announces, is positive exactly when the
  launcher's \<open>ReleaseNewer\<close> offers the first as an update of the second, for any two releases whose
  counter a Go \<open>int\<close> can hold.
\<close>

theorem release_orders_agree:
  assumes "release_of a = Some x" and "release_of b = Some y"
  shows "0 < Pack_Config.compare_releases a b \<longleftrightarrow> release_newer a b"
proof -
  obtain y1 m1 n1 where x: "x = Release y1 m1 n1" by (cases x)
  obtain y2 m2 n2 where y: "y = Release y2 m2 n2" by (cases y)
  obtain a1 a2 a3 where pa: "split_on dot a = [a1, a2, a3]" "atoi a1 = int y1" "atoi a2 = int m1" "atoi a3 = int n1"
    using release_of_parts assms(1) x by metis
  obtain b1 b2 b3 where pb: "split_on dot b = [b1, b2, b3]" "atoi b1 = int y2" "atoi b2 = int m2" "atoi b3 = int n2"
    using release_of_parts assms(2) y by metis
  have "valid_release a" "valid_release b" using assms by (auto simp: release_of_def split: if_splits)
  then have "release_newer a b \<longleftrightarrow> y < x"
    using Release.compare_releases [OF assms] by (simp add: release_newer_def)
  then show ?thesis by (auto simp: Pack_Config.compare_releases_def pa pb x y)
qed

theorem release_orders_agree_witness:
  "(0 < Pack_Config.compare_releases ''2026.10.12'' ''2026.10.9'') = release_newer ''2026.10.12'' ''2026.10.9''"
proof -
  have "release_of ''2026.10.12'' = Some (Release 2026 10 12)" "release_of ''2026.10.9'' = Some (Release 2026 10 9)"
    by code_simp+
  then show ?thesis by (rule release_orders_agree)
qed

text \<open>
  Beyond that range the counters are clamped: two releases with huge counters are equal to the
  packager, and the launcher takes neither for newer.
\<close>

lemma huge_counters_equal:
  "Pack_Config.compare_releases ''2026.10.9223372036854775808'' ''2026.10.9223372036854775809'' = 0"
proof -
  have "atoi ''9223372036854775808'' = int64_max" "atoi ''9223372036854775809'' = int64_max"
    by (rule atoi_huge; simp add: digits_def is_digit_def digit_val_def int64_max_def)+
  then show ?thesis by (simp add: Pack_Config.compare_releases_def dot_def)
qed

lemma split_semver_version:
  assumes "split_semver s = Some ns" and "\<not> prefix ''v'' (trim_space s)"
  shows "parse_version s = Some ns"
proof -
  have c: "split_components ps = parse_components ps" for ps by (induction ps) (auto split: option.splits)
  have "trim_space s \<noteq> []" using assms(1) by (auto simp: split_semver_def Let_def split: if_splits)
  with assms show ?thesis by (simp add: split_semver_def Let_def parse_version_def trim_prefix_def c split: if_splits)
qed

lemma split_semver_no_v: "split_semver s = Some ns \<Longrightarrow> \<not> prefix ''v'' (trim_space s)"
proof
  assume s: "split_semver s = Some ns" and "prefix ''v'' (trim_space s)"
  then obtain t where t: "trim_space s = CHR ''v'' # t" by (auto simp: prefix_def)
  obtain f fs where sp: "split_on dot (trim_space s) = f # fs" by (metis list.exhaust split_on_not_Nil)
  then have "f \<noteq> [] \<and> hd f = CHR ''v''"
    unfolding t by (auto simp: dot_def split: list.splits)
  then have "parse_int64 f = None"
    by (cases f) (simp_all add: parse_int64_def parse_digits_def is_digit_def)
  with s sp show False by (auto simp: split_semver_def Let_def split: if_splits)
qed

lemma compare_ints_loop: "length as = length bs \<Longrightarrow> compare_ints as bs = compare_loop as bs"
  by (induction as bs rule: list_induct2) auto

text \<open>
  C23: The launcher in a package is new enough for it. When the identity check finds the declared
  \<open>launcher_min\<close> not above the version of the packaged launcher, that launcher, comparing by its own
  rules, accepts the manifest's floor.
\<close>

theorem packaged_launcher_meets_floor:
  assumes "launcher_min_ok floor launcher" and "mf_launcher_min m = floor"
  shows "launcher_min_refusal (Some m) launcher = None"
proof -
  obtain as bs where s: "split_semver floor = Some as" "split_semver launcher = Some bs" "compare_ints as bs \<le> 0"
    using assms(1) by (auto simp: launcher_min_ok_def compare_semver_def split: option.splits)
  have p: "parse_version floor = Some as" "parse_version launcher = Some bs"
    using s split_semver_version split_semver_no_v by blast+
  have len: "length as = 3" "length bs = 3"
  proof -
    have "split_components ps = Some ns \<Longrightarrow> length ns = length ps" for ps ns
      by (induction ps arbitrary: ns) (auto split: option.splits if_splits)
    then show "length as = 3" "length bs = 3" using s by (auto simp: split_semver_def Let_def split: if_splits)
  qed
  have anti: "compare_ints bs as = - compare_ints as bs" if "length as = length bs" for as bs
    using that by (induction as bs rule: list_induct2) auto
  have "0 \<le> compare_versions launcher floor"
    using s(3) anti [of as bs] len by (simp add: compare_versions_def p flip: compare_ints_loop)
  then show ?thesis using p assms(2) by (simp add: launcher_min_refusal_def)
qed

text \<open>\<open>fixedTimestamp\<close> is not unique: the counter is taken modulo the hours of a day.\<close>

lemma timestamps_collide: "fixed_timestamp ''2026.01.1'' = fixed_timestamp ''2026.01.25''"
  by code_simp

lemma month_thirteen_is_epoch: "release_re ''2026.13.1'' \<and> archive_time (fixed_timestamp ''2026.13.1'') = epoch_text"
  by code_simp

section \<open>The size a package states\<close>

text \<open>
  The size of a ZIP does not depend on the bytes of a stored entry, only on their number: what the
  format says of an entry that is not compressed.
\<close>

definition same_shape :: "zip_entry \<Rightarrow> zip_entry \<Rightarrow> bool" where
  "same_shape z w \<longleftrightarrow> z = w \<or> ze_stored z \<and> ze_stored w \<and> length (ze_body z) = length (ze_body w)
     \<and> w = z\<lparr>ze_body := ze_body w\<rparr>"

definition stored_size_law :: "codec \<Rightarrow> bool" where
  "stored_size_law c \<longleftrightarrow>
     (\<forall>time zs ws. list_all2 same_shape zs ws \<longrightarrow> length (cd_zip c time zs) = length (cd_zip c time ws))"

lemma join_on_append: "xs \<noteq> [] \<Longrightarrow> ys \<noteq> [] \<Longrightarrow> join_on c (xs @ ys) = join_on c xs @ c # join_on c ys"
proof (induction xs)
  case (Cons x xs)
  then show ?case by (cases xs; cases ys) auto
qed simp

lemma length_join_on: "length (join_on c xs) = sum_list (map length xs) + (length xs - 1)"
  by (induction c xs rule: join_on.induct) auto

lemma fmt_nat_length: "n < 10 ^ k \<Longrightarrow> 0 < k \<Longrightarrow> length (fmt_nat n) \<le> k"
proof (induction k arbitrary: n)
  case (Suc k)
  show ?case
  proof (cases "n < 10")
    case False
    then have "n div 10 < 10 ^ k" "0 < k" using Suc.prems(1) by (auto simp: less_mult_imp_div_less intro: gr0I)
    with Suc.IH [of "n div 10"] False show ?thesis by (subst fmt_nat.simps) simp
  qed (subst fmt_nat.simps, simp)
qed simp

definition fits18 :: "int \<Rightarrow> bool" where
  "fits18 n \<longleftrightarrow> 0 \<le> n \<and> n < 10 ^ 18"

lemma pad18_length: "fits18 n \<Longrightarrow> length (pad18 n) = 18"
proof -
  assume n: "fits18 n"
  then have "nat n < 10 ^ 18" by (simp add: fits18_def nat_less_iff)
  then have "length (fmt_nat (nat n)) \<le> 18" by (intro fmt_nat_length) simp_all
  with n show ?thesis by (simp add: pad18_def Let_def fmt_int_def fits18_def)
qed

text \<open>The text has the same length whatever the sizes it states.\<close>

lemma readme_length:
  "fits18 a \<Longrightarrow> fits18 b \<Longrightarrow> fits18 e \<Longrightarrow> fits18 r \<Longrightarrow>
     length (readme_text game a e r) = length (readme_text game b e r)"
  by (simp add: readme_text_def length_join_on size_lines_def pad18_length)

lemma in_tree: "wf_map t \<Longrightarrow> (p, n) \<in> set t \<longleftrightarrow> get t p = Some n"
  by (blast intro: get_in get_Some_in)

lemma all_files_in: "wf_map t \<Longrightarrow> p \<in> set (all_files t) \<longleftrightarrow> (\<exists>n. get t p = Some n \<and> n \<noteq> NDir)"
proof -
  assume w: "wf_map t"
  have "p \<in> set (all_files t) \<longleftrightarrow> (\<exists>n. (p, n) \<in> set t \<and> n \<noteq> NDir)" by (auto simp: all_files_def image_iff)
  then show ?thesis by (simp add: in_tree [OF w])
qed

lemma all_files_put:
  assumes "wf_map t" and "get t p = Some n" and "n \<noteq> NDir" and "n' \<noteq> NDir"
  shows "all_files (put p n' t) = all_files t"
proof (rule sorted_distinct_set_unique)
  have d: "distinct (all_files u)" if "wf_map u" for u
    using that by (simp add: all_files_def wf_map_def distinct_map_filter)
  show "distinct (all_files (put p n' t))" "distinct (all_files t)" using d assms(1) by simp_all
  show "sorted (all_files (put p n' t))" "sorted (all_files t)" by (simp_all add: all_files_def)
  have "q \<in> set (all_files (put p n' t)) \<longleftrightarrow> q \<in> set (all_files t)" for q
    using assms by (simp add: all_files_in)
  then show "set (all_files (put p n' t)) = set (all_files t)" by blast
qed

lemma zip_dirs_put:
  assumes "wf_map t" and "get t p = Some n" and "n \<noteq> NDir" and "n' \<noteq> NDir"
  shows "zip_dirs (put p n' t) game = zip_dirs t game"
proof (rule sorted_distinct_set_unique)
  have d: "q \<in> set (map fst (filter (\<lambda>(p, n). n = NDir) u)) \<longleftrightarrow> get u q = Some NDir" if "wf_map u" for u :: tree and q
  proof -
    have "q \<in> set (map fst (filter (\<lambda>(p, n). n = NDir) u)) \<longleftrightarrow> (q, NDir) \<in> set u" by (auto simp: image_iff)
    then show ?thesis by (simp add: in_tree [OF that])
  qed
  have "set (map fst (filter (\<lambda>(p, n). n = NDir) (put p n' t))) = set (map fst (filter (\<lambda>(p, n). n = NDir) t))"
    using d [of "put p n' t"] d [of t] assms by (intro set_eqI) simp
  then show "set (zip_dirs (put p n' t) game) = set (zip_dirs t game)"
    unfolding zip_dirs_def all_files_put [OF assms] by simp
qed (simp_all add: zip_dirs_def)

lemma zip_members_shape:
  assumes "zip_members t game ps = Inr zs" and "zip_members t' game ps = Inr ws"
    and "\<And>p z w. p \<in> set ps \<Longrightarrow> zip_member t game p = Some z \<Longrightarrow> zip_member t' game p = Some w \<Longrightarrow> same_shape z w"
  shows "list_all2 same_shape zs ws"
  using assms
proof (induction ps arbitrary: zs ws)
  case (Cons p ps)
  obtain z zs' where z: "zip_member t game p = Some z" "zip_members t game ps = Inr zs'" "zs = z # zs'"
    using Cons.prems(1) by (auto simp: failed_def split: option.splits sum.splits) (cases "zip_members t game ps"; auto)
  obtain w ws' where w: "zip_member t' game p = Some w" "zip_members t' game ps = Inr ws'" "ws = w # ws'"
    using Cons.prems(2) by (auto simp: failed_def split: option.splits sum.splits) (cases "zip_members t' game ps"; auto)
  have "list_all2 same_shape zs' ws'"
    by (rule Cons.IH [OF z(2) w(2)]) (rule Cons.prems(3), simp_all)
  then show ?case using Cons.prems(3) [OF _ z(1) w(1)] z(3) w(3) by simp
qed simp

lemma put_same: "get t p = Some n \<Longrightarrow> put p n t = t"
  by (simp add: get_def put_def update_triv)

text \<open>Writing a staged file a second time changes its bytes and nothing else.\<close>

lemma make_dirs_there: "\<forall>a \<in> set ps. get t a = Some NDir \<Longrightarrow> make_dirs w ps t = Some t"
  by (induction ps) auto

lemma put_file_result:
  assumes "put_file w p x c s = Some s'" and "staged_ok s" and "\<And>l r. get (sg_tree s) p \<noteq> Some (NLink l r)"
  shows "\<exists>y. get (sg_tree s') p = Some (NFile y (Some c))" "\<forall>a \<in> set (parent_chain p). get (sg_tree s') a = Some NDir"
    "\<And>q l r. get (sg_tree s') q = Some (NLink l r) \<Longrightarrow> get (sg_tree s) q = Some (NLink l r)"
proof -
  obtain s1 where s1: "with_dirs w (parent_chain p) s = Some s1" "write_node w p x c s1 = Some s'"
    using assms(1) by (auto simp: put_file_def bind_eq_Some_conv)
  note d = with_dirs_ok [OF s1(1) [unfolded parent_chain_def] assms(2) no_slash_butlast, folded parent_chain_def]
  have nl: "get (sg_tree s1) p \<noteq> Some (NLink l r)" for l r using d(3) [of p "NLink l r"] assms(3) by blast
  obtain y where y: "sg_tree s' = put p (NFile y (Some c)) (sg_tree s1)" "get (sg_tree s1) p \<noteq> Some NDir"
    using s1(2) nl by (auto simp: write_node_def split: if_splits option.splits node.splits)
  then show "\<exists>y. get (sg_tree s') p = Some (NFile y (Some c))" by simp
  show "\<forall>a \<in> set (parent_chain p). get (sg_tree s') a = Some NDir" using d(2) y by auto
  show "get (sg_tree s) q = Some (NLink l r)" if "get (sg_tree s') q = Some (NLink l r)" for q l r
    using that y(1) d(3) [of q "NLink l r"] by (auto split: if_splits)
qed

lemma put_file_again:
  assumes "get (sg_tree s) p = Some (NFile y c0)" and "\<forall>a \<in> set (parent_chain p). get (sg_tree s) a = Some NDir"
    and "put_file w p x c s = Some s'"
  shows "s' = s\<lparr>sg_tree := put p (NFile y (Some c)) (sg_tree s)\<rparr>"
proof -
  have "with_dirs w (parent_chain p) s = Some s" using make_dirs_there [OF assms(2)] by (simp add: with_dirs_def)
  with assms(1,3) show ?thesis by (simp add: put_file_def write_node_def split: if_splits)
qed

definition no_links :: "staging \<Rightarrow> bool" where
  "no_links s \<longleftrightarrow> (\<forall>p l r. get (sg_tree s) p \<noteq> Some (NLink l r))"

definition readme_name :: string where "readme_name = ''README.txt''"

text \<open>What the first pass leaves, and what a second one changes.\<close>

lemma put_file_keeps:
  assumes "put_file w p x c s = Some s'" and "staged_ok s" and "no_links s"
  shows "staged_ok s'" "no_links s'" "\<exists>y. get (sg_tree s') p = Some (NFile y (Some c))"
    "\<forall>a \<in> set (parent_chain p). get (sg_tree s') a = Some NDir"
proof -
  have nl: "\<And>l r. get (sg_tree s) p \<noteq> Some (NLink l r)" using assms(3) by (simp add: no_links_def)
  note f = put_file_result [OF assms(1,2) nl]
  show "staged_ok s'" by (rule put_file_ok(1) [OF assms(1,2)])
  show "no_links s'" using f(3) assms(3) by (auto simp: no_links_def)
  show "\<exists>y. get (sg_tree s') p = Some (NFile y (Some c))" "\<forall>a \<in> set (parent_chain p). get (sg_tree s') a = Some NDir"
    by (rule f(1), rule f(2))
qed

lemma put_file_other:
  assumes "put_file w p x c s = Some s'" and "staged_ok s" and "get (sg_tree s) q = Some n" and "q \<noteq> p"
  shows "get (sg_tree s') q = Some n"
proof -
  obtain s1 where s1: "with_dirs w (parent_chain p) s = Some s1" "write_node w p x c s1 = Some s'"
    using assms(1) by (auto simp: put_file_def bind_eq_Some_conv)
  have "make_dirs w ps t = Some t' \<Longrightarrow> get t q = Some n \<Longrightarrow> get t' q = Some n" for ps t t'
  proof (induction ps arbitrary: t)
    case (Cons a ps)
    have "get (put a NDir t) q = Some n" if "get t a = None" using that Cons.prems(2) by auto
    with Cons show ?case by (auto split: option.splits node.splits if_splits)
  qed simp
  then have "get (sg_tree s1) q = Some n" using s1(1) assms(3) by (auto simp: with_dirs_def)
  then show ?thesis
    using s1(2) assms(4) by (auto simp: write_node_def split: if_splits option.splits node.splits)
qed

lemma extra_files_pass:
  assumes "build_extra_files env game a e r s = Inr s1" and "staged_ok s" and "no_links s"
  shows "staged_ok s1" "no_links s1"
    "\<exists>y. get (sg_tree s1) readme_name = Some (NFile y (Some (readme_text game a e r)))
       \<and> (\<forall>b s2. build_extra_files env game b e r s1 = Inr s2 \<longrightarrow>
            sg_tree s2 = put readme_name (NFile y (Some (readme_text game b e r))) (sg_tree s1))"
proof -
  obtain u v where w: "put_file (pe_writable env) ''LICENSES/README.txt'' False licence_notice s = Some u"
      "put_file (pe_writable env) ''LICENSES/THIRD_PARTY_NOTICES.md'' False (pe_notices env) u = Some v"
      "put_file (pe_writable env) readme_name False (readme_text game a e r) v = Some s1"
    using assms(1) by (auto simp: build_extra_files_def and_then_Inr write_staged_def readme_name_def)
  note k1 = put_file_keeps [OF w(1) assms(2,3)]
  note k2 = put_file_keeps [OF w(2) k1(1,2)]
  note k3 = put_file_keeps [OF w(3) k2(1,2)]
  show "staged_ok s1" "no_links s1" by (rule k3(1), rule k3(2))
  obtain y1 y2 y3 where y: "get (sg_tree u) ''LICENSES/README.txt'' = Some (NFile y1 (Some licence_notice))"
      "get (sg_tree v) ''LICENSES/THIRD_PARTY_NOTICES.md'' = Some (NFile y2 (Some (pe_notices env)))"
      "get (sg_tree s1) readme_name = Some (NFile y3 (Some (readme_text game a e r)))"
    using k1(3) k2(3) k3(3) by blast
  have g1: "get (sg_tree s1) ''LICENSES/README.txt'' = Some (NFile y1 (Some licence_notice))"
    by (rule put_file_other [OF w(3) k2(1)], rule put_file_other [OF w(2) k1(1) y(1)]) (simp_all add: readme_name_def)
  have g2: "get (sg_tree s1) ''LICENSES/THIRD_PARTY_NOTICES.md'' = Some (NFile y2 (Some (pe_notices env)))"
    by (rule put_file_other [OF w(3) k2(1) y(2)]) (simp add: readme_name_def)
  have c: "set (parent_chain ''LICENSES/README.txt'') = {''LICENSES''}"
    "set (parent_chain ''LICENSES/THIRD_PARTY_NOTICES.md'') = {''LICENSES''}" "parent_chain readme_name = []"
    by (simp_all add: parent_chain_def slash_def readme_name_def)
  have d: "get (sg_tree s1) ''LICENSES'' = Some NDir"
    by (rule put_file_other [OF w(3) k2(1)], rule put_file_other [OF w(2) k1(1)]) (use k1(4) c(1) in \<open>simp_all add: readme_name_def\<close>)
  have "sg_tree s2 = put readme_name (NFile y3 (Some (readme_text game b e r))) (sg_tree s1)"
    if again: "build_extra_files env game b e r s1 = Inr s2" for b s2
  proof -
    obtain u' v' where w': "put_file (pe_writable env) ''LICENSES/README.txt'' False licence_notice s1 = Some u'"
        "put_file (pe_writable env) ''LICENSES/THIRD_PARTY_NOTICES.md'' False (pe_notices env) u' = Some v'"
        "put_file (pe_writable env) readme_name False (readme_text game b e r) v' = Some s2"
      using again by (auto simp: build_extra_files_def and_then_Inr write_staged_def readme_name_def)
    have u': "u' = s1" using put_file_again [OF g1 _ w'(1)] c(1) d put_same [OF g1] by simp
    have v': "v' = s1" using put_file_again [OF g2 _ w'(2) [unfolded u']] c(2) d put_same [OF g2] by simp
    show ?thesis using put_file_again [OF y(3) _ w'(3) [unfolded v']] c(3) by auto
  qed
  with y(3) show "\<exists>y. get (sg_tree s1) readme_name = Some (NFile y (Some (readme_text game a e r)))
       \<and> (\<forall>b s2. build_extra_files env game b e r s1 = Inr s2 \<longrightarrow>
            sg_tree s2 = put readme_name (NFile y (Some (readme_text game b e r))) (sg_tree s1))"
    by blast
qed

lemma zip_length_readme:
  assumes "stored_size_law c" and "staged_ok s" and "get (sg_tree s) readme_name = Some (NFile y (Some t1))"
    and "length t2 = length t1"
    and "build_zip c (sg_tree s) game time = Inr z1"
    and "build_zip c (put readme_name (NFile y' (Some t2)) (sg_tree s)) game time = Inr z2" and "y' = y"
  shows "length z2 = length z1"
proof -
  let ?t = "sg_tree s" and ?u = "put readme_name (NFile y' (Some t2)) (sg_tree s)"
  have wf: "wf_map ?t" using assms(2) by (simp add: staged_ok_def tree_ok_def)
  note same = all_files_put [OF wf assms(3), of "NFile y' (Some t2)"] zip_dirs_put [OF wf assms(3), of "NFile y' (Some t2)" game]
  obtain zs ws where zs: "zip_members ?t game (all_files ?t) = Inr zs"
      "z1 = cd_zip c (archive_time (archive_time time)) (map zip_dir_entry (zip_dirs ?t game) @ zs)"
    and ws: "zip_members ?u game (all_files ?t) = Inr ws"
      "z2 = cd_zip c (archive_time (archive_time time)) (map zip_dir_entry (zip_dirs ?t game) @ ws)"
    using assms(5,6) same by (auto simp: build_zip_def map_sum_def split: sum.splits)
  have "same_shape z w" if "zip_member ?t game p = Some z" "zip_member ?u game p = Some w" for p z w
  proof (cases "p = readme_name")
    case True
    then show ?thesis
      using that assms(3,4,7)
      by (auto simp: zip_member_def node_bytes_def node_exec_def same_shape_def base_name_def readme_name_def store_exact_def slash_def)
  next
    case False
    with that show ?thesis by (simp add: zip_member_def same_shape_def)
  qed
  then have "list_all2 same_shape zs ws" by (intro zip_members_shape [OF zs(1) ws(1)])
  moreover have "list_all2 same_shape ds ds" for ds by (simp add: list_all2_same same_shape_def)
  ultimately have "list_all2 same_shape (map zip_dir_entry (zip_dirs ?t game) @ zs) (map zip_dir_entry (zip_dirs ?t game) @ ws)"
    by (intro list_all2_appendI) blast
  then show ?thesis using assms(1) zs(2) ws(2) by (auto simp: stored_size_law_def)
qed


section \<open>Unpacking\<close>

lemma dot_slash_segment: "[dot, dot] \<noteq> [] \<and> slash \<notin> set [dot, dot]"
  by (simp add: dot_def slash_def)

lemma refused_climb:
  assumes "rel_path dest target = Some r" and "\<not> prefix [dot, dot] r" and "rooted dest" and "rooted target"
  shows "prefix (segs_of dest) (segs_of target)"
proof -
  have "confine dest target"
  proof -
    have "\<not> rooted r"
    proof -
      obtain ss where "rel_segs dest target = Some ss" "r = (if ss = [] then [dot] else join_on slash ss)"
        using assms(1) by (cases "rel_segs dest target") (auto simp: rel_path_def split: list.splits)
      moreover have "ss = [] \<or> hd ss \<noteq> [] \<and> slash \<notin> set (hd ss)"
      proof -
        have "\<forall>s \<in> set (segs_of target). s \<noteq> [] \<and> slash \<notin> set s" by (rule segs_of_nonempty)
        moreover have "set (snd (drop_common bs ts)) \<subseteq> set ts" for bs ts :: "string list"
          by (induction bs ts rule: drop_common.induct) auto
        moreover obtain bs ts where d: "drop_common (segs_of dest) (segs_of target) = (bs, ts)" by fastforce
        moreover have "set ss \<subseteq> insert [dot, dot] (set ts)"
          using \<open>rel_segs dest target = Some ss\<close> by (auto simp: rel_segs_def d split: list.splits if_splits)
        ultimately have "\<forall>s \<in> set ss. s \<noteq> [] \<and> slash \<notin> set s"
          by (metis (no_types, lifting) dot_slash_segment insert_iff snd_conv subset_iff)
        then show ?thesis by (cases ss) auto
      qed
      ultimately show ?thesis
        by (cases ss; cases "tl ss"; cases "hd ss") (auto simp: rooted_def)
    qed
    moreover have "r \<noteq> [dot, dot]" "\<not> prefix [dot, dot, slash] r" using assms(2) by (auto simp: prefix_def)
    ultimately show ?thesis using assms(1) by (simp add: confine_def)
  qed
  then show ?thesis using confine_iff_prefix [OF assms(3,4)] by blast
qed

lemma keys_put_tree: "keys (put k v m) = insert k (keys m)"
  by (simp add: keys_def put_def dom_update)

lemma extract_entries_confined:
  assumes "rooted dest" and "\<forall>p \<in> keys out. prefix (segs_of dest) (segs_of p)"
  shows "\<forall>p \<in> keys (snd (extract_entries w dest zs out)). prefix (segs_of dest) (segs_of p)"
  using assms(2)
proof (induction zs arbitrary: out)
  case (Cons z zs)
  let ?t = "join_path dest (ze_name z)"
  show ?case
  proof (cases "check_zip_entry dest ?t (ze_name z)")
    case False
    with Cons.prems show ?thesis by (simp add: Let_def)
  next
    case True
    then have "prefix (segs_of dest) (segs_of ?t)"
      using refused_climb [of dest ?t] assms(1) rooted_join [OF assms(1)] by (auto simp: check_zip_entry_def Let_def split: option.splits)
    then have k: "\<forall>p \<in> keys (put ?t n out). prefix (segs_of dest) (segs_of p)" for n
      using Cons.prems by (simp add: keys_put_tree)
    show ?thesis
      using Cons.IH [OF k] Cons.prems by (simp add: Let_def)
  qed
qed simp

text \<open>
  C21: Unpacking a package stays in its directory. Whatever names the entries of a ZIP have, everything
  \<open>ExtractZip\<close> writes lies below the destination, also when it fails half way.
\<close>

theorem extract_zip_confined:
  assumes "rooted dest"
  shows "\<forall>p \<in> keys (snd (extract_zip c w dest archive)). prefix (segs_of dest) (segs_of p)"
proof -
  have "\<forall>p \<in> keys (snd (extract_entries w dest zs [])). prefix (segs_of dest) (segs_of p)" for zs
    by (rule extract_entries_confined [OF assms]) (simp add: keys_def)
  then have "extract_entries w dest zs [] = (e, out) \<Longrightarrow> p \<in> keys out \<Longrightarrow> prefix (segs_of dest) (segs_of p)" for zs e out p
    by (metis snd_conv)
  note below = this
  show ?thesis
  proof (cases "Option.bind archive (cd_unzip c)")
    case None
    then show ?thesis by (simp add: extract_zip_def keys_def)
  next
    case (Some zs)
    obtain e out where x: "extract_entries w dest zs [] = (e, out)" by (cases "extract_entries w dest zs []")
    have "snd (extract_zip c w dest archive) = out"
      by (simp add: extract_zip_def Some x split: option.split list.split)
    then show ?thesis using below [OF x] by simp
  qed
qed

text \<open>The check refuses more than it has to: a file of the root whose name starts with two dots.\<close>

lemma two_dots_refused: "\<not> check_zip_entry ''/d'' (join_path ''/d'' ''..notes/a'') ''..notes/a''"
  by code_simp

section \<open>Gaps\<close>

text \<open>
  A release overlay is copied onto the staged tree before the scan: over a link of the game tree its
  bytes go to the file the link names, outside the stage, and a link in the overlay is followed.
\<close>

lemma overlay_writes_through_link:
  "\<exists>s. collect_tree (\<lambda>p. True) (Some [(''a'', NLink ''/src/a'' (Some (False, ''old'')))])
         (Some (Some [(''game/a'', NFile False (Some ''new''))])) \<lparr>sg_tree = [], sg_outside = []\<rparr> = Inr s
       \<and> sg_outside s = [(''/src/a'', ''new'')]"
  by (rule exI [of _ "\<lparr>sg_tree = [(''game'', NDir), (''game/a'', NLink ''/src/a'' (Some (False, ''old'')))],
        sg_outside = [(''/src/a'', ''new'')]\<rparr>"]) code_simp

lemma overlay_follows_link:
  "\<exists>s. collect_tree (\<lambda>p. True) (Some []) (Some (Some [(''game/a'', NLink ''/etc/x'' (Some (False, ''secret'')))]))
         \<lparr>sg_tree = [], sg_outside = []\<rparr> = Inr s \<and> get (sg_tree s) ''game/a'' = Some (NFile False (Some ''secret''))"
  by (rule exI [of _ "\<lparr>sg_tree = [(''game'', NDir), (''game/a'', NFile False (Some ''secret''))], sg_outside = []\<rparr>"]) code_simp

end
