(* ===== verification/Pack_Sample.thy ===== *)
theory Pack_Sample
  imports Pack_Rules
begin

text \<open>
  A small package taken through the gates: the witness that a release can be staged, archived and
  verified, with a codec and a schema check that have the properties the theorem asks for.
\<close>

section \<open>The sample\<close>

text \<open>A codec that reads back what it writes: every byte of a field is marked, and a dot ends the field.\<close>

definition put_field :: "string \<Rightarrow> string" where
  "put_field s = concat (map (\<lambda>c. [CHR ''x'', c]) s) @ ''.''"

fun get_field :: "string \<Rightarrow> (string \<times> string) option" where
  "get_field [] = None"
| "get_field (c # cs) =
     (if c = CHR ''.'' then Some ([], cs)
      else case cs of [] \<Rightarrow> None | d # ds \<Rightarrow> map_option (\<lambda>(s, r). (d # s, r)) (get_field ds))"

definition put_member :: "tar_member \<Rightarrow> string" where
  "put_member m = put_field [th_flag (fst m)] @ put_field (th_name (fst m)) @ put_field (fmt_int (th_size (fst m)))
     @ put_field (fmt_nat (th_mode (fst m))) @ put_field (snd m)"

definition int_of_text :: "string \<Rightarrow> int" where
  "int_of_text s = (if prefix ''-'' s then - int (nat_of_digits 0 (tl s)) else int (nat_of_digits 0 s))"

definition get_member :: "string \<Rightarrow> (tar_member \<times> string) option" where
  "get_member s =
     (case get_field s of
        None \<Rightarrow> None
      | Some (f, s1) \<Rightarrow>
     (case get_field s1 of
        None \<Rightarrow> None
      | Some (n, s2) \<Rightarrow>
     (case get_field s2 of
        None \<Rightarrow> None
      | Some (z, s3) \<Rightarrow>
     (case get_field s3 of
        None \<Rightarrow> None
      | Some (md, s4) \<Rightarrow>
          map_option (\<lambda>(b, r). ((\<lparr>th_flag = hd f, th_name = n, th_size = int_of_text z, th_mode = nat_of_digits 0 md\<rparr>, b), r))
            (get_field s4)))))"

fun get_members :: "nat \<Rightarrow> string \<Rightarrow> tar_member list option" where
  "get_members 0 s = None"
| "get_members (Suc n) s =
     (if s = [] then Some []
      else case get_member s of None \<Rightarrow> None | Some (m, r) \<Rightarrow> map_option ((#) m) (get_members n r))"

definition sample_codec :: codec where
  "sample_codec =
     \<lparr>cd_tar = (\<lambda>time ms. concat (map put_member ms)),
      cd_untar = (\<lambda>s. map_option (\<lambda>ms. (ms, True)) (get_members (Suc (length s)) s)),
      cd_zip = (\<lambda>time zs. concat (map ze_body zs)), cd_unzip = (\<lambda>s. None)\<rparr>"

definition sample_engine :: engine_manifest where
  "sample_engine = \<lparr>em_schema = ''s'', em_release = ''2026.01.1'', em_engine_version = ''1.2.3'', em_wasm = ''engine/e.wasm'',
     em_glue = ''engine/e.js'', em_save_version = 1\<rparr>"

definition sample_schema :: "string \<Rightarrow> json \<Rightarrow> bool" where
  "sample_schema name doc =
     (if name \<noteq> schema_release_manifest then True
      else case doc of
        JObj ms \<Rightarrow>
          (case map_of ms ''files'' of
             Some (JArr vs) \<Rightarrow>
               list_all (\<lambda>v. case v of JObj fs \<Rightarrow> (case map_of fs ''path'' of Some (JStr p) \<Rightarrow> index_path_re p | _ \<Rightarrow> False) | _ \<Rightarrow> False) vs
           | _ \<Rightarrow> False)
      | _ \<Rightarrow> False)"

definition sample_pack_env :: pack_env where
  "sample_pack_env =
     \<lparr>pe_host = \<lparr>hf_dir = (\<lambda>p. True), hf_file = (\<lambda>p. True)\<rparr>, pe_version_output = (\<lambda>b. Some ''k 1.0.0''),
      pe_read = (\<lambda>p. if p = ''/b'' then Some ''B'' else Some ''{}''),
      pe_game = Some [(''index.html'', NFile False (Some ''h'')), (''shell.js'', NFile False (Some ''j'')), (''assets'', NDir),
        (''engine'', NDir), (''engine/e.wasm'', NFile False (Some ''w'')), (''engine/e.js'', NFile False (Some ''g'')),
        (''engine/engine.manifest.json'', NFile False (Some (document_text (engine_json sample_engine))))],
      pe_releases = None, pe_overlay = (\<lambda>p. None), pe_writable = (\<lambda>p. True), pe_publishable = (\<lambda>p. True),
      pe_schema = sample_schema, pe_codec = sample_codec, pe_notices = ''n'', pe_gpg = None\<rparr>"

definition sample_pack_config :: pack_config where
  "sample_pack_config =
     \<lparr>pc_package = \<lparr>pk_slug = ''demo'', pk_game_id = ''com.demo'', pk_game_name = ''Demo'', pk_root = []\<rparr>,
      pc_release = \<lparr>rs_release = ''2026.01.1'', rs_game_version = ''1.0.0'', rs_engine_version = ''1.2.3'', rs_save_version = 1,
        rs_launcher_min = ''0.9.0'', rs_channel = [], rs_scope = [], rs_previous = []\<rparr>,
      pc_launcher = \<lparr>ls_config = ''/c'', ls_deny_list = ''/d'', ls_binary_dir = [], ls_version_source = []\<rparr>,
      pc_platforms = [(''linux-x64'', \<lparr>pf_goos = ''linux'', pf_goarch = ''amd64'', pf_binary = ''launcher'', pf_archive_platform = ''linux-x64''\<rparr>)],
      pc_publish = \<lparr>pb_base = [], pb_gpg_key = []\<rparr>, pc_dir = ''/p''\<rparr>"

definition sample_prepared :: prepared where
  "sample_prepared =
     \<lparr>pr_root = ''/p'', pr_platform = \<lparr>pf_goos = ''linux'', pf_goarch = ''amd64'', pf_binary = ''launcher'', pf_archive_platform = ''linux-x64''\<rparr>,
      pr_binary = ''/b'', pr_version = ''1.0.0'', pr_deny_list = ''/d'', pr_base_config = [],
      pr_releases = [base_spec sample_pack_config], pr_game = ''Demo'', pr_out = ''/p/dist''\<rparr>"

lemma get_put_field: "get_field (put_field s @ r) = Some (s, r)"
  by (induction s) (simp_all add: put_field_def)

lemma int_of_text_fmt: "int_of_text (fmt_int i) = i"
proof -
  have "\<not> prefix ''-'' (fmt_nat n)" for n
    using fmt_nat_digits [of n] is_digit_sign by (cases "fmt_nat n") auto
  then show ?thesis by (simp add: int_of_text_def fmt_int_def fmt_nat_val)
qed

lemma get_put_member: "get_member (put_member m @ r) = Some (m, r)"
  by (cases m; cases "fst m") (simp add: get_member_def put_member_def get_put_field int_of_text_fmt fmt_nat_val)

lemma put_member_length: "length (put_member m) = 2 * (Suc (length (th_name (fst m)) + length (fmt_int (th_size (fst m)))
    + length (fmt_nat (th_mode (fst m))) + length (snd m))) + 5"
proof -
  have "length (put_field s) = 2 * length s + 1" for s by (induction s) (simp_all add: put_field_def)
  then show ?thesis by (simp add: put_member_def)
qed

lemma get_put_members: "length ms < n \<Longrightarrow> get_members n (concat (map put_member ms)) = Some ms"
proof (induction ms arbitrary: n)
  case (Cons m ms)
  obtain k where k: "n = Suc k" "length ms < k" using Cons.prems by (cases n) auto
  have "put_member m \<noteq> []" using put_member_length [of m] by auto
  then show ?case using Cons.IH [OF k(2)] by (simp add: k(1) get_put_member)
qed (auto simp: gr0_conv_Suc)

lemma sample_codec_reads: "codec_reads_back sample_codec"
proof -
  have "length ms < Suc (length (concat (map put_member ms)))" for ms
    using put_member_length by (induction ms) (auto simp: less_Suc_eq_le intro: le_SucI)
  then show ?thesis by (simp add: codec_reads_back_def sample_codec_def get_put_members del: get_members.simps)
qed

lemma sample_schema_enforced: "index_pattern_enforced sample_pack_env"
proof -
  have "map_of (manifest_members m) ''files'' = Some (JArr (map file_json (pm_files m)))" for m
    by (simp add: manifest_members_def split: option.split)
  then show ?thesis
    by (auto simp: index_pattern_enforced_def sample_pack_env_def sample_schema_def manifest_json_def file_json_def list_all_iff)
qed

section \<open>Staging the sample\<close>

definition the_ok :: "'e + 'a \<Rightarrow> 'a" where
  "the_ok r = (case r of Inr x \<Rightarrow> x | Inl e \<Rightarrow> undefined)"

lemma the_okI: "is_ok r \<Longrightarrow> r = Inr (the_ok r)"
  by (cases r) (simp_all add: the_ok_def)

definition sample_spec :: release_spec where "sample_spec = base_spec sample_pack_config"

definition collected :: staging where
  "collected = the_ok (collect_tree (pe_writable sample_pack_env) (pe_game sample_pack_env) None \<lparr>sg_tree = [], sg_outside = []\<rparr>)"

definition assembled :: staging where
  "assembled = the_ok (assemble_launcher sample_pack_env sample_prepared sample_spec collected)"

definition skeleton :: staging where
  "skeleton = the_ok (build_data_skeleton sample_pack_env assembled)"

definition with_assets :: "asset_manifest \<times> staging" where
  "with_assets = the_ok (generate_asset_manifest (pe_writable sample_pack_env) (spec_release sample_spec) (sp_generated sample_spec) skeleton)"

definition indexed :: "file_entry list \<times> int" where
  "indexed = the_ok (build_file_index (sg_tree (snd with_assets)) manifest_rel)"

text \<open>The lengths of the documents the sample holds.\<close>

lemma small_int64: "n \<le> 1000000000 \<Longrightarrow> int64 (int n)"
  by (simp add: int64_def int64_min_def int64_max_def)

lemma length_quoted: "list_all plain_byte s \<Longrightarrow> length (encode_string s) = length s + 2"
  by (simp add: encode_string_plain)

lemma sample_text_bounds:
  "length (document_text (engine_json sample_engine)) \<le> 10000"
  "length (document_text (JObj [(''release'', JStr ''2026.01.1'')])) \<le> 10000"
  "length (document_text (asset_manifest_json
     \<lparr>am_release = ''2026.01.1'', am_generated = ''2026-01-01T01:00:00Z'', am_assets = []\<rparr>)) \<le> 10000"
proof -
  have "fmt_nat (Suc 0) = ''1''" by code_simp
  then show "length (document_text (engine_json sample_engine)) \<le> 10000"
    "length (document_text (JObj [(''release'', JStr ''2026.01.1'')])) \<le> 10000"
    "length (document_text (asset_manifest_json
       \<lparr>am_release = ''2026.01.1'', am_generated = ''2026-01-01T01:00:00Z'', am_assets = []\<rparr>)) \<le> 10000"
    by (simp_all add: document_text_def engine_json_def asset_manifest_json_def sample_engine_def jnum_def length_quoted
        plain_byte_def new_line_def fmt_int_def join_comma_def)
qed

text \<open>Hashes and documents stay as they are while the sample is evaluated.\<close>

declare content_hash_def [code del] document_text_def [code del]

lemma sample_collected:
  "collect_tree (pe_writable sample_pack_env) (pe_game sample_pack_env) None \<lparr>sg_tree = [], sg_outside = []\<rparr> = Inr collected"
  unfolding collected_def by (rule the_okI) code_simp

lemma sample_assembled: "assemble_launcher sample_pack_env sample_prepared sample_spec collected = Inr assembled"
  unfolding assembled_def by (rule the_okI) code_simp

lemma sample_skeleton: "build_data_skeleton sample_pack_env assembled = Inr skeleton"
  unfolding skeleton_def by (rule the_okI) code_simp

lemma sample_scan: "scan_forbidden (sg_tree skeleton) = []"
  by code_simp

lemma sample_engine_read: "read_engine_manifest (sg_tree skeleton) = Some sample_engine"
proof -
  have "read_node (sg_tree skeleton) ''game/engine/engine.manifest.json'' = Some (document_text (engine_json sample_engine))"
    by code_simp
  moreover have "decode_document decode_engine_manifest (document_text (engine_json sample_engine)) = Some sample_engine"
    unfolding engine_json_def
    by (subst decode_document_text)
      (simp_all add: sample_engine_def jnum_def decode_engine_manifest_def Json_Fields.field_defs named_simps to_lower_ascii_def
        parse_int64_text int64_def int64_min_def int64_max_def)
  ultimately show ?thesis by (simp add: read_engine_manifest_def)
qed

lemma sample_identity:
  "check_identity (\<lambda>key. case get (sg_tree skeleton) (join_path ''game'' key) of Some n \<Rightarrow> node_there n | None \<Rightarrow> False)
     \<lparr>ii_config = sample_pack_config, ii_spec = sample_spec, ii_engine = sample_engine,
      ii_launcher_config = launcher_config_doc sample_prepared sample_spec, ii_launcher_ver = pr_version sample_prepared\<rparr> = []"
  by code_simp

lemma sample_assets:
  "generate_asset_manifest (pe_writable sample_pack_env) (spec_release sample_spec) (sp_generated sample_spec) skeleton = Inr with_assets"
  unfolding with_assets_def by (rule the_okI) code_simp

lemma sample_indexed: "build_file_index (sg_tree (snd with_assets)) manifest_rel = Inr indexed"
  unfolding indexed_def by (rule the_okI) code_simp

lemma sample_servable: "check_servable (sg_tree (snd with_assets)) = Inr []"
  by code_simp

definition sample_staged :: staged_release where
  "sample_staged = \<lparr>st_engine = sample_engine, st_index = fst indexed, st_total = snd indexed, st_stage = snd with_assets\<rparr>"


lemma sample_index_sizes:
  "map fe_size (fst indexed) =
     [int (length (document_text (asset_manifest_json
        \<lparr>am_release = ''2026.01.1'', am_generated = ''2026-01-01T01:00:00Z'', am_assets = []\<rparr>))), 1, 1,
      int (length (document_text (engine_json sample_engine))), 1, 1, 6, 1,
      int (length (document_text (JObj [(''release'', JStr ''2026.01.1'')]))), 2]"
  by code_simp

lemma sample_index_paths: "list_all (\<lambda>f. index_path_re (fe_path f)) (fst indexed)"
  by code_simp

definition sample_members :: "tar_member list" where
  "sample_members = the_ok (update_entries (sg_tree (snd with_assets)) (release_keys (sg_tree (snd with_assets))))"

lemma sample_update_entries:
  "update_entries (sg_tree (snd with_assets)) (release_keys (sg_tree (snd with_assets))) = Inr sample_members"
  unfolding sample_members_def by (rule the_okI) code_simp

lemma sample_member_names: "list_all (\<lambda>m. length (th_name (fst m)) \<le> 100 \<and> th_mode (fst m) \<le> 493) sample_members"
  by code_simp

lemma length_fmt_nat: "length (fmt_nat n) \<le> Suc n"
proof (induction n rule: fmt_nat.induct)
  case (1 n)
  then show ?case by (subst fmt_nat.simps) (auto intro: order_trans)
qed

lemma sample_small: "list_all (\<lambda>f. 0 \<le> fe_size f \<and> fe_size f \<le> 10000) (fst indexed)"
proof -
  have "list_all (\<lambda>n. 0 \<le> n \<and> n \<le> 10000) (map fe_size (fst indexed))"
    using sample_text_bounds unfolding sample_index_sizes by simp
  then show ?thesis by (simp add: list_all_iff)
qed

lemma sample_staged: "stage_release sample_pack_env sample_pack_config sample_prepared sample_spec = Inr sample_staged"
proof -
  have o: "sp_overlay sample_spec = []" by (simp add: sample_spec_def base_spec_def)
  have sc: "pe_schema sample_pack_env = sample_schema" by (simp add: sample_pack_env_def)
  have s: "sample_schema schema_release_manifest (manifest_json (release_manifest_doc sample_spec sample_engine None (fst indexed) (snd indexed)))"
    using sample_index_paths
    by (simp add: sample_schema_def manifest_json_def manifest_members_def file_json_def list_all_iff release_manifest_doc_def Let_def)
  have n: "sample_schema schema_launcher_config d" "sample_schema schema_engine_manifest d" "sample_schema schema_asset_manifest d" for d
    by (simp_all add: sample_schema_def schema_launcher_config_def schema_engine_manifest_def schema_asset_manifest_def
        schema_release_manifest_def)
  have split: "(case x of (a, b) \<Rightarrow> f a b) = f (fst x) (snd x)" for x and f :: "'x \<Rightarrow> 'y \<Rightarrow> 'z"
    by (cases x) simp
  show ?thesis
    unfolding stage_release_def o split
    by (simp add: sample_collected sample_assembled sample_skeleton sample_scan sample_engine_read need_def sample_identity
        sample_assets sample_indexed sample_servable no_problems_def check_that_def schema_ok_def sc s n sample_staged_def)
qed

lemma length_concat_bound: "\<forall>x \<in> set xs. length (f x) \<le> k \<Longrightarrow> length (concat (map f xs)) \<le> k * length xs"
  by (induction xs) auto

lemma sample_archive_built:
  obtains tar where "build_update_archive (pe_codec sample_pack_env) (sg_tree (st_stage sample_staged)) manifest_rel epoch_text = Inr tar"
    "int64 (int (length tar))"
proof -
  let ?tar = "concat (map put_member sample_members)"
  have b: "build_update_archive (pe_codec sample_pack_env) (sg_tree (st_stage sample_staged)) manifest_rel epoch_text = Inr ?tar"
    using sample_update_entries
    by (simp add: build_update_archive_def sample_pack_env_def sample_codec_def sample_staged_def release_keys_def)
  have ie: "index_entries (sg_tree (snd with_assets)) (release_keys (sg_tree (snd with_assets))) = Inr (fst indexed)"
    using sample_indexed
    by (auto simp: build_file_index_def release_keys_def failed_def split: sum.splits option.splits dest: arg_cong [of _ _ fst])
  have i: "fst indexed = map entry_of sample_members"
    and m: "\<forall>m \<in> set sample_members. update_entry (sg_tree (snd with_assets)) (th_name (fst m)) = Some m"
    using index_entries_update [OF ie] sample_update_entries by auto
  have l: "length sample_members = 10"
    using arg_cong [OF sample_index_sizes, of length] by (simp add: i)
  have "length (put_member m) \<le> 100000" if "m \<in> set sample_members" for m
  proof -
    have z: "0 \<le> th_size (fst m)" "th_size (fst m) \<le> 10000" "length (th_name (fst m)) \<le> 100" "th_mode (fst m) \<le> 493"
      using sample_small sample_member_names that by (auto simp: i list_all_iff entry_of_simps)
    have "th_size (fst m) = int (length (snd m))" using m that update_entry_index by blast
    with z have "length (snd m) \<le> 10000" by simp
    moreover have "length (fmt_int (th_size (fst m))) \<le> 10001"
      using z length_fmt_nat [of "nat (th_size (fst m))"] by (simp add: fmt_int_def)
    moreover have "length (fmt_nat (th_mode (fst m))) \<le> 494" using length_fmt_nat [of "th_mode (fst m)"] z(4) by simp
    ultimately show ?thesis using z(3) by (simp add: put_member_length)
  qed
  then have "length (concat (map put_member sample_members)) \<le> 100000 * length sample_members"
    by (intro length_concat_bound) blast
  then have "int64 (int (length ?tar))" using small_int64 [of "length ?tar"] by (simp add: l)
  with b that show thesis by blast
qed

theorem packaged_release_verifies_witness:
  "\<exists>tar ms m doc. build_update_archive (pe_codec sample_pack_env) (sg_tree (st_stage sample_staged)) manifest_rel epoch_text = Inr tar
     \<and> doc = release_manifest_doc sample_spec sample_engine (Some (archive_ref_of ''demo.tar.zst'' tar)) (fst indexed) (snd indexed)
     \<and> verify_tar_index sample_codec (Some tar) doc = None
     \<and> decode_document decode_manifest (document_text (manifest_json doc)) = Some m
     \<and> verify None \<lparr>af_bytes = Some tar, af_members = ms, af_clean_end = True\<rparr> (Some m) = (None, [''update.verify.ok''])"
proof -
  obtain tar where tar: "build_update_archive (pe_codec sample_pack_env) (sg_tree (st_stage sample_staged)) manifest_rel epoch_text = Inr tar"
    "int64 (int (length tar))"
    by (rule sample_archive_built)
  have c: "pe_codec sample_pack_env = sample_codec" by (simp add: sample_pack_env_def)
  have z: "list_all (\<lambda>f. int64 (fe_size f)) (st_index sample_staged)"
    using sample_small by (auto simp: sample_staged_def list_all_iff int64_def int64_min_def int64_max_def)
  show ?thesis
    using packaged_release_verifies [OF sample_staged tar(1) _ sample_schema_enforced tar(2) z, of "''demo.tar.zst''" None]
      sample_codec_reads tar(1)
    by (auto simp: c Let_def) (auto simp: sample_staged_def)
qed

section \<open>Samples of the other rules\<close>

theorem packaged_launcher_meets_floor_witness:
  "launcher_min_refusal (Some (sample_manifest\<lparr>mf_launcher_min := ''1.9.0''\<rparr>)) ''1.10.0'' = None"
proof -
  have "launcher_min_ok ''1.9.0'' ''1.10.0''" by code_simp
  then show ?thesis by (rule packaged_launcher_meets_floor) simp
qed

text \<open>An archive whose last entry tries to leave the directory.\<close>

definition climbing_codec :: codec where
  "climbing_codec = sample_codec\<lparr>cd_unzip := (\<lambda>s. Some
     [\<lparr>ze_name = ''Demo/a'', ze_dir = False, ze_exec = False, ze_stored = True, ze_body = s\<rparr>,
      \<lparr>ze_name = ''../b'', ze_dir = False, ze_exec = False, ze_stored = True, ze_body = s\<rparr>])\<rparr>"

theorem extract_zip_confined_witness:
  "extract_zip climbing_codec (\<lambda>p. True) ''/d'' (Some ''x'')
     = (Inl ''archive entry escapes the destination'', [(''/d/Demo/a'', NFile False (Some ''x''))])
   \<and> keys (snd (extract_zip climbing_codec (\<lambda>p. True) ''/d'' (Some ''x''))) \<subseteq> {p. prefix (segs_of ''/d'') (segs_of p)}"
proof (rule conjI)
  show "extract_zip climbing_codec (\<lambda>p. True) ''/d'' (Some ''x'')
     = (Inl ''archive entry escapes the destination'', [(''/d/Demo/a'', NFile False (Some ''x''))])"
    by code_simp
  have "rooted ''/d''" by code_simp
  from extract_zip_confined [OF this]
  show "keys (snd (extract_zip climbing_codec (\<lambda>p. True) ''/d'' (Some ''x''))) \<subseteq> {p. prefix (segs_of ''/d'') (segs_of p)}"
    by blast
qed

definition bare_stage :: staging where "bare_stage = \<lparr>sg_tree = [], sg_outside = []\<rparr>"

lemma sample_stored_size: "stored_size_law sample_codec"
proof -
  have "length (concat (map ze_body zs)) = length (concat (map ze_body ws))" if "list_all2 same_shape zs ws" for zs ws
    using that by induction (auto simp: same_shape_def)
  then show ?thesis by (simp add: stored_size_law_def sample_codec_def)
qed

lemma sample_settles:
  "case settle_sizes sample_pack_env ''Demo'' epoch_text 0 8 0 bare_stage [] of
     Inl e \<Rightarrow> False | Inr (b, s, z) \<Rightarrow> fits18 (int (length z))"
  by code_simp

lemma sample_first_pass:
  "case build_extra_files sample_pack_env ''Demo'' 0 0 0 bare_stage of
     Inl e \<Rightarrow> False
   | Inr s \<Rightarrow> (case build_zip sample_codec (sg_tree s) ''Demo'' epoch_text of Inl e \<Rightarrow> True | Inr z \<Rightarrow> fits18 (int (length z)))"
  by code_simp


end
