(* ===== verification/Spec2Isabelle.thy ===== *)
theory Spec2Isabelle
  imports Port Session Save_Laws Update_Safety Instance_Lock Static_Files Mods_Laws Data_Api_Laws Server_Drain Pack_Sample
begin

text \<open>
  Verification of the Kobra game launcher (the Go code under \<open>src/launcher/internal\<close>).

  The launcher serves a game from a portable folder: it resolves the folder (package \<open>paths\<close>),
  picks a port (\<open>port\<close>), opens a browser on a one-time bootstrap token that becomes a session
  (\<open>session\<close>), keeps the player's saves and settings on disk behind a JSON interface (\<open>storage\<close>,
  \<open>kobraerr\<close>), and installs updates with a directory swap that survives crashes (\<open>update\<close>).

  \<^bold>\<open>The model and the code.\<close> Go strings are byte strings (\<open>string\<close>); \<open>int64\<close> values are integers
  wrapped with \<open>wrap64\<close> where they can overflow; \<open>uint16\<close> and \<open>uint32\<close> are words; a Go map is an
  association list without duplicate keys (\<open>Go_Map\<close>) whose iteration order is an argument where it
  matters; an error is a value of a sum or option type with the reason codes of the source. The
  clock, the random source, the kernel and the environment are arguments. A disk operation takes
  its next decision from the state: it runs, or it fails with an errno after a partial effect; every
  intermediate disk is recorded, so a crash is any recorded disk.

  \<^item> \<open>Prelude\<close>, \<open>Go_Map\<close>, \<open>Json\<close>, \<open>Sha256\<close>: the parts of the Go library the sources use: \<open>strings\<close>,
    \<open>strconv\<close>, maps, \<open>encoding/json\<close> (encoder, decoder and the canonical form of
    \<open>storage.encodeCanonical\<close>) and \<open>crypto/sha256\<close>.
  \<^item> \<open>Paths\<close>: \<open>paths/paths.go\<close> and \<open>gameid.go\<close>: containment as an equivalence with the
    component-wise meaning, reserved names, the resolution of the game folder, sidecar directories.
  \<^item> \<open>KobraErr\<close>: \<open>kobraerr/kobraerr.go\<close>: the error taxonomy, its envelope, what leaves the process.
  \<^item> \<open>Port\<close>: \<open>port/\<close>: the default port, the deny list, probing and scanning with a deadline.
  \<^item> \<open>Session\<close>: \<open>session/session.go\<close>: the store as a record with sessions on a heap, every
    operation, a step relation with an inductive invariant, single use of tokens, quota bounds.
  \<^item> \<open>Fs\<close>, \<open>Storage\<close>, \<open>Saves\<close>, \<open>Save_Safety\<close>, \<open>Save_Laws\<close>: \<open>storage/storage.go\<close>: system calls with
    faults and crash points (the locale \<open>disk_call\<close>), \<open>writeAtomic\<close>, the save slots, the crash
    theorem of \<open>WriteSave\<close>, and what writes, reads, deletions and merges promise.
  \<^item> \<open>Swap\<close>, \<open>Swap_Safety\<close>: \<open>update/swap.go\<close> and \<open>movedir.go\<close>: \<open>Swap\<close>, \<open>Recover\<close> and
    \<open>promoteDir\<close> over a layout of three trees and a marker, with crash points, and the theorem that no
    sequence of crashes damages an install on one file system.

  \<^bold>\<open>Bounds and fuel.\<close> The JSON decoder recurses on a fuel argument that starts at the length of the
  input plus one, enough because every call consumes a byte. Loops over lists are structural. The
  scans recurse on the number of candidates left.

  \<^bold>\<open>Not modelled.\<close> Process and network input and output: the HTTP server, the browser launch, file
  locks, the download, the process start-up, and the build-time packer. Directories of the save area
  are implicit, and a file tree of the updater is the list of its files. Go's mutexes make each
  store operation one step, so the interleavings of two requests are sequences of operations.
\<close>

end
